(* ===== verification/Prelude.thy ===== *)
theory Prelude
  imports Main "HOL-Library.Word" "HOL-Library.Monad_Syntax"
begin

text \<open>
  Shared vocabulary of the development: the fixed-width integer types of
  \<^verbatim>\<open>CommonLib/inc/data_type.h\<close>, the status codes of \<^verbatim>\<open>status.h\<close>,
  the alignment and bounds macros of \<^verbatim>\<open>base.h\<close>, the effect of
  a failed \<^verbatim>\<open>ASSERT\<close>, and the generic lemmas on words, lists and
  the option monad that every component uses.

  A failed assertion formats a message and then executes \<^verbatim>\<open>hlt\<close> with interrupts
  disabled: it never returns. A function of the kernel that contains assertions is therefore
  a function into \<open>'a option\<close>, and \<open>None\<close> is ``the system has halted
  (or the call never returns)''. Functions are composed with the \<open>do\<close> notation
  of the option monad, so a halt inside a callee is a halt of the caller.
\<close>

unbundle bit_operations_syntax

section \<open>Machine integers\<close>

type_synonym BYTE = "8 word"
type_synonym WORD = "16 word"
type_synonym DWORD = "32 word"
type_synonym QWORD = "64 word"
type_synonym PVOID = "64 word"
type_synonym STATUS = "32 word"

abbreviation MAX_BYTE :: BYTE where "MAX_BYTE \<equiv> 0xFF"
abbreviation MAX_WORD :: WORD where "MAX_WORD \<equiv> 0xFFFF"
abbreviation MAX_DWORD :: DWORD where "MAX_DWORD \<equiv> 0xFFFFFFFF"
abbreviation MAX_QWORD :: QWORD where "MAX_QWORD \<equiv> 0xFFFFFFFFFFFFFFFF"
abbreviation NULL :: PVOID where "NULL \<equiv> 0"
abbreviation PAGE_SIZE :: QWORD where "PAGE_SIZE \<equiv> 0x1000"

section \<open>Assertions\<close>

named_theorems halt_simps \<open>evaluation of assertions in the option monad\<close>

definition ASSERT :: "bool \<Rightarrow> unit option" where
  "ASSERT c = (if c then Some () else None)"

lemma ASSERT_True [simp, halt_simps]: "ASSERT True = Some ()"
  by (simp add: ASSERT_def)

lemma ASSERT_False [simp, halt_simps]: "ASSERT False = None"
  by (simp add: ASSERT_def)

lemma ASSERT_eq_Some [simp, halt_simps]: "ASSERT c = Some u \<longleftrightarrow> c"
  by (simp add: ASSERT_def)

lemma ASSERT_eq_None [simp, halt_simps]: "ASSERT c = None \<longleftrightarrow> \<not> c"
  by (simp add: ASSERT_def)

lemma ASSERT_bind [halt_simps]: "(ASSERT c \<bind> f) = (if c then f () else None)"
  by (simp add: ASSERT_def)

lemma bind_Some_iff: "(m \<bind> f) = Some r \<longleftrightarrow> (\<exists>x. m = Some x \<and> f x = Some r)"
  by (cases m) auto

lemmas halt_elims = bind_Some_iff ASSERT_eq_Some

section \<open>Status codes\<close>

text \<open>
  Every error status has the top bit set; \<open>SUCCEEDED\<close> tests that bit
  only, so warnings and informational codes count as success.
\<close>

definition FAIL_MASK :: STATUS where "FAIL_MASK = 0x80000000"

definition SUCCEEDED :: "STATUS \<Rightarrow> bool" where
  "SUCCEEDED x \<longleftrightarrow> x AND FAIL_MASK = 0"

definition STATUS_SUCCESS :: STATUS where "STATUS_SUCCESS = 0"
definition STATUS_UNSUPPORTED :: STATUS where "STATUS_UNSUPPORTED = 0x88000001"
definition STATUS_UNSUCCESSFUL :: STATUS where "STATUS_UNSUCCESSFUL = 0x88000003"
definition STATUS_ELEMENT_NOT_FOUND :: STATUS where "STATUS_ELEMENT_NOT_FOUND = 0x88000004"
definition STATUS_INVALID_PARAMETER1 :: STATUS where "STATUS_INVALID_PARAMETER1 = 0x88000011"
definition STATUS_INVALID_PARAMETER2 :: STATUS where "STATUS_INVALID_PARAMETER2 = 0x88000012"
definition STATUS_INVALID_PARAMETER3 :: STATUS where "STATUS_INVALID_PARAMETER3 = 0x88000013"
definition STATUS_INVALID_PARAMETER4 :: STATUS where "STATUS_INVALID_PARAMETER4 = 0x88000014"
definition STATUS_INVALID_PARAMETER5 :: STATUS where "STATUS_INVALID_PARAMETER5 = 0x88000015"
definition STATUS_INVALID_PARAMETER6 :: STATUS where "STATUS_INVALID_PARAMETER6 = 0x88000016"
definition STATUS_PARSE_FAILED :: STATUS where "STATUS_PARSE_FAILED = 0x88000021"
definition STATUS_JOB_INTERRUPTED :: STATUS where "STATUS_JOB_INTERRUPTED = 0x88000022"
definition STATUS_HEAP_TOO_SMALL :: STATUS where "STATUS_HEAP_TOO_SMALL = 0x80200001"
definition STATUS_HEAP_NO_MORE_MEMORY :: STATUS where "STATUS_HEAP_NO_MORE_MEMORY = 0x80200003"
definition STATUS_HEAP_INSUFFICIENT_RESOURCES :: STATUS where
  "STATUS_HEAP_INSUFFICIENT_RESOURCES = 0x80200004"
definition STATUS_BUFFER_TOO_SMALL :: STATUS where "STATUS_BUFFER_TOO_SMALL = 0x80100002"
definition STATUS_MEMORY_IS_NOT_RESERVED :: STATUS where
  "STATUS_MEMORY_IS_NOT_RESERVED = 0x80100006"
definition STATUS_MEMORY_CANNOT_BE_RESERVED :: STATUS where
  "STATUS_MEMORY_CANNOT_BE_RESERVED = 0x80100009"
definition STATUS_MEMORY_CANNOT_BE_COMMITED :: STATUS where
  "STATUS_MEMORY_CANNOT_BE_COMMITED = 0x8010000B"
definition STATUS_MEMORY_CONFLICTING_ACCESS_RIGHTS :: STATUS where
  "STATUS_MEMORY_CONFLICTING_ACCESS_RIGHTS = 0x8010000C"
definition STATUS_MEMORY_CONFLICTING_CACHEABILITY :: STATUS where
  "STATUS_MEMORY_CONFLICTING_CACHEABILITY = 0x8010000D"
definition STATUS_MEMORY_ALREADY_RESERVED :: STATUS where
  "STATUS_MEMORY_ALREADY_RESERVED = 0x8010000F"
definition STATUS_MEMORY_IS_NOT_COMMITED :: STATUS where
  "STATUS_MEMORY_IS_NOT_COMMITED = 0x80100010"

lemmas status_defs =
  STATUS_SUCCESS_def STATUS_UNSUPPORTED_def STATUS_UNSUCCESSFUL_def STATUS_ELEMENT_NOT_FOUND_def
  STATUS_INVALID_PARAMETER1_def STATUS_INVALID_PARAMETER2_def STATUS_INVALID_PARAMETER3_def
  STATUS_INVALID_PARAMETER4_def STATUS_INVALID_PARAMETER5_def STATUS_INVALID_PARAMETER6_def
  STATUS_HEAP_INSUFFICIENT_RESOURCES_def STATUS_MEMORY_CANNOT_BE_COMMITED_def STATUS_PARSE_FAILED_def STATUS_JOB_INTERRUPTED_def
  STATUS_HEAP_TOO_SMALL_def STATUS_HEAP_NO_MORE_MEMORY_def STATUS_BUFFER_TOO_SMALL_def
  STATUS_MEMORY_IS_NOT_RESERVED_def STATUS_MEMORY_CANNOT_BE_RESERVED_def
  STATUS_MEMORY_CONFLICTING_ACCESS_RIGHTS_def STATUS_MEMORY_CONFLICTING_CACHEABILITY_def
  STATUS_MEMORY_ALREADY_RESERVED_def STATUS_MEMORY_IS_NOT_COMMITED_def

lemma SUCCEEDED_SUCCESS [simp]: "SUCCEEDED STATUS_SUCCESS"
  by (simp add: SUCCEEDED_def STATUS_SUCCESS_def)

section \<open>Flags, alignment and bounds\<close>

definition IsFlagOn :: "'a::len word \<Rightarrow> 'a word \<Rightarrow> bool" where
  "IsFlagOn x f \<longleftrightarrow> x AND f \<noteq> 0"

definition IsBooleanFlagOn :: "'a::len word \<Rightarrow> 'a word \<Rightarrow> bool" where
  "IsBooleanFlagOn x f \<longleftrightarrow> f = x AND f"

definition AlignAddressLower :: "QWORD \<Rightarrow> QWORD \<Rightarrow> QWORD" where
  "AlignAddressLower addr alig = addr AND NOT (alig - 1)"

definition AlignAddressUpper :: "QWORD \<Rightarrow> QWORD \<Rightarrow> QWORD" where
  "AlignAddressUpper addr alig = (addr + alig - 1) AND NOT (alig - 1)"

definition IsAddressAligned :: "QWORD \<Rightarrow> QWORD \<Rightarrow> bool" where
  "IsAddressAligned addr alig \<longleftrightarrow> addr AND (alig - 1) = 0"

definition AddressOffset :: "QWORD \<Rightarrow> QWORD \<Rightarrow> QWORD" where
  "AddressOffset addr alig = addr AND (alig - 1)"

definition CHECK_BOUNDS :: "QWORD \<Rightarrow> QWORD \<Rightarrow> QWORD \<Rightarrow> QWORD \<Rightarrow> bool" where
  "CHECK_BOUNDS p ps b s \<longleftrightarrow> b \<le> p \<and> p + ps \<le> b + s"


section \<open>Lemmas on words\<close>

lemma unat_and_mask: "unat (a AND mask n :: 'a::len word) = unat a mod 2 ^ n"
  by (metis take_bit_eq_mask unsigned_take_bit_eq take_bit_eq_mod)

lemma and_plus_and_not: "(a AND m) + (a AND NOT m) = (a :: 'a::len word)"
proof -
  have "(a AND m) OR (a AND NOT m) = a"
    by (simp add: bit_eq_iff bit_simps) blast
  moreover have "(a AND m) AND (a AND NOT m) = 0"
    by (simp add: bit_eq_iff bit_simps)
  ultimately show ?thesis by (metis word_plus_and_or add_0)
qed

lemma unat_and_not_mask: "unat (a AND NOT (mask n) :: 'a::len word) = unat a div 2 ^ n * 2 ^ n"
proof -
  have "a AND NOT (mask n) = a - (a AND mask n)"
    by (metis and_plus_and_not add_diff_cancel_left')
  moreover have "a AND mask n \<le> a" by (simp add: word_and_le2)
  ultimately have "unat (a AND NOT (mask n)) = unat a - unat a mod 2 ^ n"
    by (simp add: unat_sub unat_and_mask)
  then show ?thesis by (simp add: minus_mod_eq_div_mult)
qed

lemma page_mask: "(0xFFF :: QWORD) = mask 12"
  by (simp add: mask_eq_exp_minus_1)

lemma unat_AlignAddressLower_page: "unat (AlignAddressLower a PAGE_SIZE) = unat a div 4096 * 4096"
  using unat_and_not_mask [of a 12] by (simp add: AlignAddressLower_def page_mask)

lemma unat_AddressOffset_page: "unat (AddressOffset a PAGE_SIZE) = unat a mod 4096"
  using unat_and_mask [of a 12] by (simp add: AddressOffset_def page_mask)

lemma IsAddressAligned_page: "IsAddressAligned a PAGE_SIZE \<longleftrightarrow> 4096 dvd unat a"
proof -
  have "unat (a AND 0xFFF) = unat a mod 4096"
    using unat_and_mask [of a 12] by (simp add: page_mask)
  then show ?thesis
    by (simp add: IsAddressAligned_def dvd_eq_mod_eq_0 flip: unat_eq_zero)
qed

lemma AlignAddressLower_page_aligned [simp]:
  "IsAddressAligned (AlignAddressLower a PAGE_SIZE) PAGE_SIZE"
  by (simp add: IsAddressAligned_page unat_AlignAddressLower_page)

lemma AlignAddressUpper_page_aligned [simp]:
  "IsAddressAligned (AlignAddressUpper a PAGE_SIZE) PAGE_SIZE"
  using unat_and_not_mask [of "a + 0xFFF" 12]
  by (simp add: IsAddressAligned_page AlignAddressUpper_def page_mask add.commute)

lemma unat_AlignAddressUpper_page:
  assumes "unat a + 4095 < 2 ^ 64"
  shows "unat (AlignAddressUpper a PAGE_SIZE) = (unat a + 4095) div 4096 * 4096"
proof -
  have "unat (a + 0xFFF) = unat a + 4095"
    using assms by (subst unat_plus_if') simp
  then show ?thesis
    using unat_and_not_mask [of "a + 0xFFF" 12]
    by (simp add: AlignAddressUpper_def page_mask add.commute)
qed

lemma AlignAddressLower_page_le: "AlignAddressLower a PAGE_SIZE \<le> a"
  by (simp add: word_le_nat_alt unat_AlignAddressLower_page)

lemma unat_plus_simple: "unat a + unat b < 2 ^ LENGTH('a) \<Longrightarrow> unat (a + b) = unat a + unat b"
  for a b :: "'a::len word"
  by (simp add: unat_plus_if')

lemma unat_less_2p: "unat n < 2 ^ LENGTH('a)"
  for n :: "'a::len word"
  by (rule unsigned_less)

lemma unat_succ: "i < n \<Longrightarrow> unat (i + 1) = Suc (unat i)"
  for i n :: "'a::len word"
  by (rule unat_plus_simple [of i 1, simplified])
    (use unat_less_2p [of n] in \<open>simp only: word_less_nat_alt\<close>)

lemma counter_decreases: "i < n \<Longrightarrow> unat n - unat (i + 1) < unat n - unat i"
  for i n :: "'a::len word"
  by (simp add: unat_succ diff_less_mono2 unat_mono)

lemma unat_pred: "0 < unat i \<Longrightarrow> unat (i - 1) = unat i - 1"
  for i :: "'a::len word"
  by (subst unat_sub) (simp_all add: word_le_nat_alt)

lemma unat_succ_le: "i < n \<Longrightarrow> i + 1 \<le> n"
  for i n :: "'a::len word"
  by (simp add: unat_succ word_le_nat_alt word_less_nat_alt Suc_leI)

lemma of_nat_unat_add: "of_nat (unat i + k) = i + of_nat k"
  for i :: "'a::len word"
  by simp

lemma unat_of_nat_small: "k < 2 ^ LENGTH('a) \<Longrightarrow> unat (of_nat k :: 'a::len word) = k"
  by (simp add: unat_of_nat)

lemma unat_of_nat_le: "k \<le> unat n \<Longrightarrow> unat (of_nat k :: 'a word) = k"
  for n :: "'a::len word"
  by (meson le_less_trans unat_less_2p unat_of_nat_small)

lemma unat_ucast_mod: "unat (ucast x :: 'b::len word) = unat x mod 2 ^ LENGTH('b)"
  for x :: "'a::len word"
  by (simp add: unsigned_ucast_eq take_bit_eq_mod)

lemma unat_ucast_up: "LENGTH('a) \<le> LENGTH('b) \<Longrightarrow> unat (ucast x :: 'b::len word) = unat x"
  for x :: "'a::len word"
  unfolding unat_ucast_mod
  by (intro mod_less less_le_trans [OF unat_less_2p [of x]] power_increasing) simp_all

lemma unat_ucast_down: "unat x < 2 ^ LENGTH('b) \<Longrightarrow> unat (ucast x :: 'b::len word) = unat x"
  for x :: "'a::len word"
  by (simp add: unat_ucast_mod)

lemma sint_unat: "unat w < 2 ^ (LENGTH('a) - 1) \<Longrightarrow> sint w = int (unat w)"
  for w :: "'a::len word"
proof -
  assume a: "unat w < 2 ^ (LENGTH('a) - 1)"
  then have "int (unat w) < int (2 ^ (LENGTH('a) - 1))" by (simp only: of_nat_less_iff)
  moreover have "- (2 ^ (LENGTH('a) - 1)) \<le> int (unat w)"
    by (rule order_trans [of _ 0]) simp_all
  ultimately show ?thesis
    unfolding sint_uint uint_nat by (intro signed_take_bit_int_eq_self) simp_all
qed

lemma sint_word_of_int:
  "- (2 ^ (LENGTH('a) - 1)) \<le> k \<Longrightarrow> k < 2 ^ (LENGTH('a) - 1) \<Longrightarrow> sint (word_of_int k :: 'a::len word) = k"
  by (simp add: signed_of_int signed_take_bit_int_eq_self)

lemma sint_diff:
  fixes a b :: "'a::len word"
  assumes "- (2 ^ (LENGTH('a) - 1)) \<le> int (unat a) - int (unat b)"
    and "int (unat a) - int (unat b) < 2 ^ (LENGTH('a) - 1)"
  shows "sint (a - b) = int (unat a) - int (unat b)"
  using sint_word_of_int [OF assms] by simp

lemma unat_nonneg:
  fixes r :: "'a::len word"
  assumes "0 \<le> sint r"
  shows "unat r = nat (sint r)"
proof -
  have "sint r < 2 ^ LENGTH('a)"
    using sint_lt [of r] by (rule less_le_trans) (rule power_increasing, simp_all)
  then have "uint r = sint r" using assms by (simp add: uint_sint take_bit_int_eq_self)
  then show ?thesis unfolding unat_eq_nat_uint by simp
qed

lemma sint_diff_near:
  fixes a b :: QWORD
  assumes "unat a \<le> unat b + 2 ^ 62" and "unat b \<le> unat a + 2 ^ 62"
  shows "sint (a - b) = int (unat a) - int (unat b)"
proof (rule sint_diff)
  have "int (unat b) \<le> int (unat a + 2 ^ 62)" "int (unat a) \<le> int (unat b + 2 ^ 62)"
    using assms by (simp_all only: of_nat_le_iff)
  then show "- (2 ^ (LENGTH(64) - 1)) \<le> int (unat a) - int (unat b)"
    and "int (unat a) - int (unat b) < 2 ^ (LENGTH(64) - 1)" by simp_all
qed

lemma all_less_unat: "(\<forall>k < n. P k) \<longleftrightarrow> (\<forall>m < unat n. P (of_nat m))"
  for n :: "'a::len word"
proof
  assume "\<forall>k < n. P k"
  then show "\<forall>m < unat n. P (of_nat m)"
    using unat_of_nat_le [of _ n] by (simp add: word_less_nat_alt)
next
  assume *: "\<forall>m < unat n. P (of_nat m)"
  show "\<forall>k < n. P k"
  proof (intro allI impI)
    fix k assume "k < n"
    with * have "P (of_nat (unat k))" by (simp only: word_less_nat_alt)
    then show "P k" by simp
  qed
qed

section \<open>Lemmas on lists\<close>

lemma sorted_map_insert:
  fixes k :: "'a \<Rightarrow> 'b::linorder"
  shows "sorted (map k (us @ vs)) \<Longrightarrow> \<forall>u \<in> set us. k u \<le> k e \<Longrightarrow> \<forall>v \<in> set vs. k e < k v \<Longrightarrow>
    sorted (map k (us @ e # vs))"
  by (auto simp: sorted_append intro: less_imp_le)

end
