(* ===== verification/Lists.thy ===== *)
theory Lists
  imports Prelude
begin

text \<open>
  The intrusive doubly linked list of \<^verbatim>\<open>CommonLib/src/list.c\<close>. A store maps the
  address of every \<open>LIST_ENTRY\<close> to its \<open>Flink\<close> and \<open>Blink\<close>; the operations are the
  pointer assignments of the code, in the code's order, on that store. The kernel is built
  with \<open>DEBUG\<close>, so every operation first asserts that the entry it is given is linked
  consistently with its neighbours.

  The abstraction \<open>dll st h xs\<close> says that the circular list with head \<open>h\<close>
  holds the entries \<open>xs\<close> in this order; the lemmas show that each operation is the
  corresponding operation on \<open>xs\<close> and that it leaves every disjoint list alone.
\<close>

section \<open>The store and the operations\<close>

record list_store =
  Flink :: "PVOID \<Rightarrow> PVOID"
  Blink :: "PVOID \<Rightarrow> PVOID"

definition set_Flink :: "PVOID \<Rightarrow> PVOID \<Rightarrow> list_store \<Rightarrow> list_store" where
  "set_Flink p v st = st\<lparr>Flink := (Flink st)(p := v)\<rparr>"

definition set_Blink :: "PVOID \<Rightarrow> PVOID \<Rightarrow> list_store \<Rightarrow> list_store" where
  "set_Blink p v st = st\<lparr>Blink := (Blink st)(p := v)\<rparr>"

definition ValidateListEntry :: "list_store \<Rightarrow> PVOID \<Rightarrow> bool" where
  "ValidateListEntry st Entry =
     (if Blink st (Flink st Entry) \<noteq> Entry then False
      else if Flink st (Blink st Entry) \<noteq> Entry then False
      else True)"

definition InitializeListHead :: "list_store \<Rightarrow> PVOID \<Rightarrow> list_store" where
  "InitializeListHead st ListHead =
     set_Flink ListHead ListHead (set_Blink ListHead ListHead st)"

definition IsListEmpty :: "list_store \<Rightarrow> PVOID \<Rightarrow> bool option" where
  "IsListEmpty st ListHead = do {
     ASSERT (ValidateListEntry st ListHead);
     Some (Flink st ListHead = ListHead)
   }"

definition IsListEmptyDirty :: "list_store \<Rightarrow> PVOID \<Rightarrow> bool" where
  "IsListEmptyDirty st ListHead = (Flink st ListHead = ListHead)"

definition RemoveEntryList :: "list_store \<Rightarrow> PVOID \<Rightarrow> (bool \<times> list_store) option" where
  "RemoveEntryList st Entry = do {
     ASSERT (ValidateListEntry st Entry);
     let flink = Flink st Entry;
     let blink = Blink st Entry;
     let st = set_Flink blink flink st;
     let st = set_Blink flink blink st;
     Some (flink = blink, st)
   }"

definition RemoveHeadList :: "list_store \<Rightarrow> PVOID \<Rightarrow> (PVOID \<times> list_store) option" where
  "RemoveHeadList st ListHead = do {
     ASSERT (ValidateListEntry st ListHead);
     let entry = Flink st ListHead;
     let flink = Flink st entry;
     let st = set_Flink ListHead flink st;
     let st = set_Blink flink ListHead st;
     Some (entry, st)
   }"

definition RemoveTailList :: "list_store \<Rightarrow> PVOID \<Rightarrow> (PVOID \<times> list_store) option" where
  "RemoveTailList st ListHead = do {
     ASSERT (ValidateListEntry st ListHead);
     let entry = Blink st ListHead;
     let blink = Blink st entry;
     let st = set_Blink ListHead blink st;
     let st = set_Flink blink ListHead st;
     Some (entry, st)
   }"

definition InsertTailList :: "list_store \<Rightarrow> PVOID \<Rightarrow> PVOID \<Rightarrow> list_store option" where
  "InsertTailList st ListHead Entry = do {
     ASSERT (ValidateListEntry st ListHead);
     let blink = Blink st ListHead;
     let st = set_Flink Entry ListHead st;
     let st = set_Blink Entry blink st;
     let st = set_Flink blink Entry st;
     let st = set_Blink ListHead Entry st;
     Some st
   }"

definition InsertHeadList :: "list_store \<Rightarrow> PVOID \<Rightarrow> PVOID \<Rightarrow> list_store option" where
  "InsertHeadList st ListHead Entry = do {
     ASSERT (ValidateListEntry st ListHead);
     let flink = Flink st ListHead;
     let st = set_Flink Entry flink st;
     let st = set_Blink Entry ListHead st;
     let st = set_Blink flink Entry st;
     let st = set_Flink ListHead Entry st;
     Some st
   }"

text \<open>
  The loops follow \<open>Flink\<close> until they are back at the head. On a corrupted list they may
  never return, so they are partial functions; \<open>None\<close> is ``does not return''.
\<close>

partial_function (option) find_insert_position ::
  "list_store \<Rightarrow> PVOID \<Rightarrow> PVOID \<Rightarrow> (PVOID \<Rightarrow> PVOID \<Rightarrow> QWORD) \<Rightarrow> PVOID \<Rightarrow> PVOID option" where
  "find_insert_position st ListHead Entry cmp cur =
     (if cur = ListHead then Some cur
      else if sint (cmp Entry cur) < 0 then Some cur
      else find_insert_position st ListHead Entry cmp (Flink st cur))"

definition InsertOrderedList ::
  "list_store \<Rightarrow> PVOID \<Rightarrow> PVOID \<Rightarrow> (PVOID \<Rightarrow> PVOID \<Rightarrow> QWORD) \<Rightarrow> list_store option" where
  "InsertOrderedList st ListHead Entry cmp = do {
     ASSERT (ValidateListEntry st ListHead);
     cur \<leftarrow> find_insert_position st ListHead Entry cmp (Flink st ListHead);
     InsertTailList st cur Entry
   }"

partial_function (option) list_elem_loop ::
  "list_store \<Rightarrow> PVOID \<Rightarrow> DWORD \<Rightarrow> PVOID \<Rightarrow> DWORD \<Rightarrow> PVOID option" where
  "list_elem_loop st ListHead ListIndex cur index =
     (if cur = ListHead then Some NULL
      else if cur = NULL then None
      else if index = ListIndex then Some cur
      else list_elem_loop st ListHead ListIndex (Flink st cur) (index + 1))"

definition GetListElemByIndex :: "list_store \<Rightarrow> PVOID \<Rightarrow> DWORD \<Rightarrow> PVOID option" where
  "GetListElemByIndex st ListHead ListIndex =
     (if ListHead = NULL then Some NULL
      else do {
        ASSERT (ValidateListEntry st ListHead);
        list_elem_loop st ListHead ListIndex (Flink st ListHead) 0
      })"

partial_function (option) list_size_loop ::
  "list_store \<Rightarrow> PVOID \<Rightarrow> PVOID \<Rightarrow> DWORD \<Rightarrow> DWORD option" where
  "list_size_loop st ListHead cur count =
     (if cur = ListHead then Some count
      else if cur = NULL then None
      else list_size_loop st ListHead (Flink st cur) (count + 1))"

definition ListSize :: "list_store \<Rightarrow> PVOID \<Rightarrow> DWORD option" where
  "ListSize st ListHead =
     (if ListHead = NULL then Some MAX_DWORD
      else do {
        ASSERT (ValidateListEntry st ListHead);
        list_size_loop st ListHead (Flink st ListHead) 0
      })"

text \<open>
  The callback of \<open>ForEachElementExecute\<close> may change any memory, the list included: it
  is a function on the store and the rest of the state, and the link to the next entry is
  read after the call, as the code reads it.
\<close>

partial_function (option) for_each_loop ::
  "PVOID \<Rightarrow> (PVOID \<Rightarrow> list_store \<times> 'c \<Rightarrow> (STATUS \<times> list_store \<times> 'c) option) \<Rightarrow> bool \<Rightarrow>
     PVOID \<Rightarrow> STATUS \<Rightarrow> list_store \<times> 'c \<Rightarrow> (STATUS \<times> list_store \<times> 'c) option" where
  "for_each_loop ListHead f AllMustSucceed cur status s =
     (if cur = ListHead then Some (status, s)
      else if cur = NULL then None
      else do {
        (status, s) \<leftarrow> f cur s;
        (if AllMustSucceed \<and> \<not> SUCCEEDED status then Some (status, s)
         else for_each_loop ListHead f AllMustSucceed (Flink (fst s) cur) status s)
      })"

definition ForEachElementExecute ::
  "PVOID \<Rightarrow> (PVOID \<Rightarrow> list_store \<times> 'c \<Rightarrow> (STATUS \<times> list_store \<times> 'c) option) option \<Rightarrow> bool \<Rightarrow>
     list_store \<times> 'c \<Rightarrow> (STATUS \<times> list_store \<times> 'c) option" where
  "ForEachElementExecute ListHead Function AllMustSucceed s =
     (if ListHead = NULL then Some (STATUS_INVALID_PARAMETER1, s)
      else case Function of
        None \<Rightarrow> Some (STATUS_INVALID_PARAMETER2, s)
      | Some f \<Rightarrow> do {
          ASSERT (ValidateListEntry (fst s) ListHead);
          for_each_loop ListHead f AllMustSucceed (Flink (fst s) ListHead) STATUS_SUCCESS s
        })"

partial_function (option) list_search_loop ::
  "list_store \<Rightarrow> PVOID \<Rightarrow> PVOID \<Rightarrow> (PVOID \<Rightarrow> PVOID \<Rightarrow> QWORD) \<Rightarrow> PVOID \<Rightarrow> PVOID option" where
  "list_search_loop st ListHead Element cmp cur =
     (if cur = ListHead then Some NULL
      else if cmp cur Element = 0 then Some cur
      else list_search_loop st ListHead Element cmp (Flink st cur))"

definition ListSearchForElement ::
  "list_store \<Rightarrow> PVOID \<Rightarrow> PVOID \<Rightarrow> (PVOID \<Rightarrow> PVOID \<Rightarrow> QWORD) option \<Rightarrow> PVOID option" where
  "ListSearchForElement st ListHead Element Compare =
     (if ListHead = NULL then Some NULL
      else if Element = NULL then Some NULL
      else case Compare of
        None \<Rightarrow> Some NULL
      | Some cmp \<Rightarrow> do {
          ASSERT (ValidateListEntry st ListHead);
          list_search_loop st ListHead Element cmp (Flink st ListHead)
        })"


section \<open>Abstraction: a circular list as a HOL list\<close>

fun path :: "(PVOID \<Rightarrow> PVOID) \<Rightarrow> PVOID \<Rightarrow> PVOID list \<Rightarrow> PVOID \<Rightarrow> bool" where
  "path f a [] b \<longleftrightarrow> f a = b"
| "path f a (x # xs) b \<longleftrightarrow> f a = x \<and> path f x xs b"

definition dll :: "list_store \<Rightarrow> PVOID \<Rightarrow> PVOID list \<Rightarrow> bool" where
  "dll st h xs \<longleftrightarrow> distinct (h # xs) \<and> NULL \<notin> set (h # xs) \<and>
     path (Flink st) h xs h \<and> path (Blink st) h (rev xs) h"

definition same_outside :: "PVOID set \<Rightarrow> list_store \<Rightarrow> list_store \<Rightarrow> bool" where
  "same_outside A st st' \<longleftrightarrow>
     (\<forall>p. p \<notin> A \<longrightarrow> Flink st' p = Flink st p \<and> Blink st' p = Blink st p)"

lemma Flink_set_Flink [simp]: "Flink (set_Flink p v st) = (Flink st)(p := v)"
  by (simp add: set_Flink_def)

lemma Blink_set_Flink [simp]: "Blink (set_Flink p v st) = Blink st"
  by (simp add: set_Flink_def)

lemma Flink_set_Blink [simp]: "Flink (set_Blink p v st) = Flink st"
  by (simp add: set_Blink_def)

lemma Blink_set_Blink [simp]: "Blink (set_Blink p v st) = (Blink st)(p := v)"
  by (simp add: set_Blink_def)

lemma path_append [simp]: "path f a (xs @ y # ys) b \<longleftrightarrow> path f a xs y \<and> path f y ys b"
  by (induction xs arbitrary: a) auto

lemma path_upd [simp]: "p \<notin> set (a # xs) \<Longrightarrow> path (f(p := v)) a xs b = path f a xs b"
  by (induction xs arbitrary: a) auto

lemma path_cong:
  "(\<And>p. p \<in> set (a # xs) \<Longrightarrow> f p = g p) \<Longrightarrow> path f a xs b = path g a xs b"
  by (induction xs arbitrary: a) auto

lemma path_start: "path f a xs b \<Longrightarrow> f a = hd (xs @ [b])"
  by (cases xs) auto

lemma dll_rotate: "dll st h (xs @ y # ys) \<longleftrightarrow> dll st y (ys @ h # xs)"
  by (auto simp: dll_def)

lemma dll_frame:
  assumes "dll st h xs" and "same_outside A st st'" and "set (h # xs) \<inter> A = {}"
  shows "dll st' h xs"
proof -
  have "path (Flink st') h xs h = path (Flink st) h xs h"
    by (rule path_cong) (use assms(2,3) in \<open>auto simp: same_outside_def\<close>)
  moreover have "path (Blink st') h (rev xs) h = path (Blink st) h (rev xs) h"
    by (rule path_cong) (use assms(2,3) in \<open>auto simp: same_outside_def\<close>)
  ultimately show ?thesis using assms(1) by (simp add: dll_def)
qed

lemma hd_rev_snoc: "hd (rev xs @ [h]) = last (h # xs)"
  by (cases xs rule: rev_cases) auto

lemma same_outside_mono: "same_outside A st st' \<Longrightarrow> A \<subseteq> B \<Longrightarrow> same_outside B st st'"
  by (auto simp: same_outside_def)

lemma dll_ends: "dll st h xs \<Longrightarrow> Flink st h = hd (xs @ [h]) \<and> Blink st h = last (h # xs)"
  using path_start [of "Flink st" h xs h] path_start [of "Blink st" h "rev xs" h]
  by (simp add: dll_def hd_rev_snoc)

lemma dll_valid_head:
  assumes "dll st h xs"
  shows "ValidateListEntry st h"
proof -
  have "Blink st (Flink st h) = h"
    using assms by (cases xs) (auto simp: dll_def)
  moreover have "Flink st (Blink st h) = h"
    using assms by (cases xs rule: rev_cases) (auto simp: dll_def)
  ultimately show ?thesis by (simp add: ValidateListEntry_def)
qed

lemma dll_valid_entry: "dll st h (xs @ e # ys) \<Longrightarrow> ValidateListEntry st e"
  using dll_rotate dll_valid_head by blast

lemma dll_not_null: "dll st h xs \<Longrightarrow> h \<noteq> NULL \<and> NULL \<notin> set xs \<and> distinct xs \<and> h \<notin> set xs"
  by (auto simp: dll_def)

section \<open>Every operation is the operation on the abstract list\<close>

lemma InitializeListHead_dll: "h \<noteq> NULL \<Longrightarrow> dll (InitializeListHead st h) h []"
  by (simp add: InitializeListHead_def dll_def)

lemma IsListEmpty_dll: "dll st h xs \<Longrightarrow> IsListEmpty st h = Some (xs = [])"
  using dll_valid_head [of st h xs] dll_ends [of st h xs] dll_not_null [of st h xs]
  by (cases xs) (auto simp: IsListEmpty_def)

lemma InsertTailList_dll:
  assumes "dll st h xs" and "e \<noteq> NULL" and "e \<notin> set (h # xs)"
  shows "\<exists>st'. InsertTailList st h e = Some st' \<and> dll st' h (xs @ [e]) \<and>
           same_outside {e, h, last (h # xs)} st st'"
proof -
  have v: "ValidateListEntry st h" using assms(1) by (rule dll_valid_head)
  show ?thesis
  proof (cases xs rule: rev_cases)
    case Nil
    with assms v show ?thesis
      by (auto simp: InsertTailList_def dll_def same_outside_def Let_def)
  next
    case (snoc us u)
    with assms v show ?thesis
      by (auto simp: InsertTailList_def dll_def same_outside_def Let_def)
  qed
qed

lemma InsertHeadList_dll:
  assumes "dll st h xs" and "e \<noteq> NULL" and "e \<notin> set (h # xs)"
  shows "\<exists>st'. InsertHeadList st h e = Some st' \<and> dll st' h (e # xs) \<and>
           same_outside {e, h, hd (xs @ [h])} st st'"
proof -
  have v: "ValidateListEntry st h" using assms(1) by (rule dll_valid_head)
  show ?thesis
  proof (cases xs)
    case Nil
    with assms v show ?thesis
      by (auto simp: InsertHeadList_def dll_def same_outside_def Let_def)
  next
    case (Cons u us)
    with assms v show ?thesis
      by (auto simp: InsertHeadList_def dll_def same_outside_def Let_def)
  qed
qed

lemma insert_before_dll:
  assumes "dll st h (xs @ ys)" and "e \<noteq> NULL" and "e \<notin> set (h # xs @ ys)"
  shows "\<exists>st'. InsertTailList st (hd (ys @ [h])) e = Some st' \<and> dll st' h (xs @ e # ys) \<and>
           same_outside (set (e # h # xs @ ys)) st st'"
proof (cases ys)
  case Nil
  with assms obtain st' where "InsertTailList st h e = Some st'" "dll st' h (xs @ [e])"
      "same_outside {e, h, last (h # xs)} st st'"
    using InsertTailList_dll [of st h xs e] by auto
  moreover have "{e, h, last (h # xs)} \<subseteq> set (e # h # xs @ ys)" by auto
  ultimately show ?thesis using Nil by (auto intro: same_outside_mono)
next
  case (Cons y zs)
  with assms(1) have "dll st y (zs @ h # xs)" by (simp add: dll_rotate)
  moreover have "e \<notin> set (y # zs @ h # xs)" using assms(3) Cons by auto
  ultimately obtain st' where st': "InsertTailList st y e = Some st'"
      "dll st' y ((zs @ h # xs) @ [e])" "same_outside {e, y, last (y # zs @ h # xs)} st st'"
    using InsertTailList_dll [of st y "zs @ h # xs" e] assms(2) by blast
  from st'(2) have "dll st' h ((xs @ [e]) @ y # zs)"
    by (subst dll_rotate) simp
  moreover have "{e, y, last (y # zs @ h # xs)} \<subseteq> set (e # h # xs @ ys)"
    using Cons by auto
  ultimately show ?thesis using st'(1,3) Cons by (auto intro: same_outside_mono)
qed

lemma insert_after_dll:
  assumes "dll st h (xs @ ys)" and "e \<noteq> NULL" and "e \<notin> set (h # xs @ ys)"
  shows "\<exists>st'. InsertHeadList st (last (h # xs)) e = Some st' \<and> dll st' h (xs @ e # ys) \<and>
           same_outside (set (e # h # xs @ ys)) st st'"
proof (cases xs rule: rev_cases)
  case Nil
  with assms obtain st' where "InsertHeadList st h e = Some st'" "dll st' h (e # ys)"
      "same_outside {e, h, hd (ys @ [h])} st st'"
    using InsertHeadList_dll [of st h ys e] by auto
  moreover have "{e, h, hd (ys @ [h])} \<subseteq> set (e # h # xs @ ys)" by (cases ys) auto
  ultimately show ?thesis using Nil by (auto intro: same_outside_mono)
next
  case (snoc us u)
  with assms(1) have d: "dll st u (ys @ h # us)" by (simp add: dll_rotate)
  moreover have "e \<notin> set (u # ys @ h # us)" using assms(3) snoc by auto
  ultimately obtain st' where st': "InsertHeadList st u e = Some st'"
      "dll st' u ((e # ys) @ h # us)" "same_outside {e, u, hd ((ys @ h # us) @ [u])} st st'"
    using InsertHeadList_dll [of st u "ys @ h # us" e] assms(2) by auto
  from st'(2) have "dll st' h (us @ u # e # ys)"
    by (subst dll_rotate) simp
  moreover have "{e, u, hd ((ys @ h # us) @ [u])} \<subseteq> set (e # h # xs @ ys)"
    using snoc by (cases ys) auto
  ultimately show ?thesis using st'(1,3) snoc by (auto intro: same_outside_mono)
qed

lemma unlink_head:
  assumes "dll st e (z # zs)"
  shows "\<exists>st'. RemoveEntryList st e = Some (zs = [], st') \<and> dll st' z zs \<and>
           same_outside {z, last (z # zs)} st st'"
proof -
  have v: "ValidateListEntry st e" using assms by (rule dll_valid_head)
  show ?thesis
  proof (cases zs rule: rev_cases)
    case Nil
    with assms v show ?thesis
      by (auto simp: RemoveEntryList_def dll_def same_outside_def Let_def)
  next
    case (snoc us u)
    with assms v show ?thesis
      by (auto simp: RemoveEntryList_def dll_def same_outside_def Let_def)
  qed
qed

lemma RemoveEntryList_dll:
  assumes "dll st h (xs @ e # ys)"
  shows "\<exists>st'. RemoveEntryList st e = Some (xs @ ys = [], st') \<and> dll st' h (xs @ ys) \<and>
           same_outside (set (h # xs @ ys)) st st'"
proof (cases ys)
  case Nil
  with assms have "dll st e (h # xs)" by (simp add: dll_rotate)
  from unlink_head [OF this] obtain st' where
    st': "RemoveEntryList st e = Some (xs = [], st')" "dll st' h xs"
      "same_outside {h, last (h # xs)} st st'"
    by blast
  moreover have "{h, last (h # xs)} \<subseteq> set (h # xs @ ys)" by auto
  ultimately show ?thesis using Nil by (auto intro: same_outside_mono)
next
  case (Cons y zs)
  with assms have "dll st e (y # zs @ h # xs)" by (simp add: dll_rotate)
  from unlink_head [OF this] obtain st' where
    st': "RemoveEntryList st e = Some (zs @ h # xs = [], st')" "dll st' y (zs @ h # xs)"
      "same_outside {y, last (y # zs @ h # xs)} st st'"
    by blast
  have "dll st' h (xs @ y # zs)" using st'(2) by (subst dll_rotate)
  moreover have "{y, last (y # zs @ h # xs)} \<subseteq> set (h # xs @ ys)"
    using Cons by auto
  ultimately show ?thesis using st'(1,3) Cons by (auto intro: same_outside_mono)
qed

lemma RemoveHeadList_Cons:
  assumes "dll st h (x # xs)"
  shows "\<exists>st'. RemoveHeadList st h = Some (x, st') \<and> dll st' h xs \<and>
           same_outside (set (h # xs)) st st'"
proof -
  have "ValidateListEntry st h" "ValidateListEntry st x"
    using dll_valid_head dll_valid_entry [of st h "[]"] assms by auto
  moreover have "Flink st h = x" "Blink st x = h"
    using assms by (auto simp: dll_def)
  ultimately have "RemoveHeadList st h =
      map_option (\<lambda>(_, st'). (x, st')) (RemoveEntryList st x)"
    by (simp add: RemoveHeadList_def RemoveEntryList_def Let_def)
  with RemoveEntryList_dll [of st h "[]" x xs] assms show ?thesis by auto
qed

lemma RemoveHeadList_Nil:
  assumes "dll st h []"
  shows "RemoveHeadList st h = Some (h, st)"
  using assms dll_valid_head [OF assms]
  by (simp add: RemoveHeadList_def dll_def set_Flink_def set_Blink_def fun_upd_idem Let_def)

lemma RemoveTailList_snoc:
  assumes "dll st h (xs @ [x])"
  shows "\<exists>st'. RemoveTailList st h = Some (x, st') \<and> dll st' h xs \<and>
           same_outside (set (h # xs)) st st'"
proof -
  have "ValidateListEntry st h" "ValidateListEntry st x"
    using dll_valid_head dll_valid_entry [of st h xs x "[]"] assms by auto
  moreover have "Blink st h = x" "Flink st x = h"
    using assms by (auto simp: dll_def)
  ultimately have "RemoveTailList st h =
      map_option (\<lambda>(_, st'). (x, st')) (RemoveEntryList st x)"
    by (simp add: RemoveTailList_def RemoveEntryList_def Let_def set_Flink_def set_Blink_def)
  with RemoveEntryList_dll [of st h xs x "[]"] assms show ?thesis by auto
qed

lemma RemoveTailList_Nil:
  assumes "dll st h []"
  shows "RemoveTailList st h = Some (h, st)"
  using assms dll_valid_head [OF assms]
  by (simp add: RemoveTailList_def dll_def set_Flink_def set_Blink_def fun_upd_idem Let_def)

section \<open>The loops\<close>

text \<open>
  Each loop is proved over a suffix \<open>ys\<close> of the list that hangs below an entry \<open>a\<close>.
\<close>

lemma find_insert_position_suffix:
  "path (Flink st) a ys h \<Longrightarrow> h \<notin> set ys \<Longrightarrow>
   find_insert_position st h e cmp (Flink st a) =
     Some (hd (dropWhile (\<lambda>c. \<not> sint (cmp e c) < 0) ys @ [h]))"
  by (induction ys arbitrary: a) (auto simp: find_insert_position.simps [of st h])

lemma list_elem_loop_suffix:
  "path (Flink st) a ys h \<Longrightarrow> h \<notin> set ys \<Longrightarrow> NULL \<notin> set ys \<Longrightarrow> k \<le> unat i \<Longrightarrow>
   list_elem_loop st h i (Flink st a) (of_nat k) =
     Some (if unat i - k < length ys then ys ! (unat i - k) else NULL)"
proof (induction ys arbitrary: a k)
  case Nil
  then show ?case by (simp add: list_elem_loop.simps)
next
  case (Cons y ys)
  have eq: "of_nat k = i \<longleftrightarrow> k = unat i"
    using le_unat_uoi [OF Cons.prems(4)] by (metis word_unat_eq_iff)
  show ?case
  proof (cases "k = unat i")
    case True
    with Cons.prems eq show ?thesis by (auto simp: list_elem_loop.simps [of st h i y])
  next
    case False
    then have "Suc k \<le> unat i" "unat i - k = Suc (unat i - Suc k)"
      using Cons.prems(4) by auto
    with Cons.IH [of y "Suc k"] Cons.prems eq False show ?thesis
      by (auto simp: list_elem_loop.simps [of st h i y] add.commute)
  qed
qed

lemma list_size_loop_suffix:
  "path (Flink st) a ys h \<Longrightarrow> h \<notin> set ys \<Longrightarrow> NULL \<notin> set ys \<Longrightarrow>
   list_size_loop st h (Flink st a) n = Some (n + of_nat (length ys))"
  by (induction ys arbitrary: a n) (auto simp: list_size_loop.simps [of st h] algebra_simps)

lemma list_search_loop_suffix:
  "path (Flink st) a ys h \<Longrightarrow> h \<notin> set ys \<Longrightarrow>
   list_search_loop st h el cmp (Flink st a) =
     Some (case find (\<lambda>c. cmp c el = 0) ys of None \<Rightarrow> NULL | Some c \<Rightarrow> c)"
  by (induction ys arbitrary: a) (auto simp: list_search_loop.simps [of st h])

text \<open>
  The specification of \<open>ForEachElementExecute\<close>: a fold over the entries that stops at the
  first failure when all calls must succeed, and returns the status of the last call.
\<close>

fun for_each_spec ::
  "(PVOID \<Rightarrow> 's \<Rightarrow> (STATUS \<times> 's) option) \<Rightarrow> bool \<Rightarrow> PVOID list \<Rightarrow> STATUS \<Rightarrow> 's \<Rightarrow>
     (STATUS \<times> 's) option" where
  "for_each_spec f all [] status s = Some (status, s)"
| "for_each_spec f all (x # xs) status s = do {
     (status, s) \<leftarrow> f x s;
     (if all \<and> \<not> SUCCEEDED status then Some (status, s) else for_each_spec f all xs status s)
   }"

lemma for_each_loop_suffix:
  assumes keep: "\<And>x s r s'. f x s = Some (r, s') \<Longrightarrow> Flink (fst s') = Flink (fst s)"
  shows "path (Flink (fst s)) a ys h \<Longrightarrow> h \<notin> set ys \<Longrightarrow> NULL \<notin> set ys \<Longrightarrow>
   for_each_loop h f all (Flink (fst s) a) status s = for_each_spec f all ys status s"
proof (induction ys arbitrary: a status s)
  case Nil
  then show ?case by (simp add: for_each_loop.simps)
next
  case (Cons y ys)
  then have start: "Flink (fst s) a = y" and rest: "path (Flink (fst s)) y ys h" by auto
  show ?case
  proof (cases "f y s")
    case None
    with Cons.prems start show ?thesis by (auto simp: for_each_loop.simps)
  next
    case (Some p)
    obtain r s' where p: "p = (r, s')" by (cases p)
    with Some keep have eq: "Flink (fst s') = Flink (fst s)" by blast
    with Cons.IH [of s' y r] rest Cons.prems have
      "for_each_loop h f all (Flink (fst s') y) r s' = for_each_spec f all ys r s'" by auto
    with Cons.prems start Some p show ?thesis
      by (subst for_each_loop.simps) auto
  qed
qed

section \<open>Interface: an intrusive queue\<close>

text \<open>
  What the kernel's clients (mutexes, events, the scheduler, the page zeroing thread) rely
  on: entries are taken out in the order they were put in, the empty queue answers with its
  own head, and operations on one queue leave the others alone.
\<close>

locale intrusive_queue =
  fixes repr :: "'s \<Rightarrow> 'p \<Rightarrow> 'p list \<Rightarrow> bool"
    and enq :: "'s \<Rightarrow> 'p \<Rightarrow> 'p \<Rightarrow> 's option"
    and deq :: "'s \<Rightarrow> 'p \<Rightarrow> ('p \<times> 's) option"
    and nil :: 'p
  assumes enq_ok: "repr s h xs \<Longrightarrow> e \<noteq> nil \<Longrightarrow> e \<notin> set (h # xs) \<Longrightarrow>
      \<exists>s'. enq s h e = Some s' \<and> repr s' h (xs @ [e]) \<and>
        (\<forall>k ys. repr s k ys \<and> set (k # ys) \<inter> set (e # h # xs) = {} \<longrightarrow> repr s' k ys)"
    and deq_Nil: "repr s h [] \<Longrightarrow> deq s h = Some (h, s)"
    and deq_Cons: "repr s h (x # xs) \<Longrightarrow>
      \<exists>s'. deq s h = Some (x, s') \<and> repr s' h xs \<and>
        (\<forall>k ys. repr s k ys \<and> set (k # ys) \<inter> set (h # xs) = {} \<longrightarrow> repr s' k ys)"
    and repr_head: "repr s h xs \<Longrightarrow> h \<noteq> nil \<and> h \<notin> set xs \<and> nil \<notin> set xs \<and> distinct xs"
begin

fun enq_all :: "'s \<Rightarrow> 'p \<Rightarrow> 'p list \<Rightarrow> 's option" where
  "enq_all s h [] = Some s"
| "enq_all s h (e # es) = enq s h e \<bind> (\<lambda>s. enq_all s h es)"

fun deq_n :: "'s \<Rightarrow> 'p \<Rightarrow> nat \<Rightarrow> ('p list \<times> 's) option" where
  "deq_n s h 0 = Some ([], s)"
| "deq_n s h (Suc n) = deq s h \<bind> (\<lambda>(x, s). map_option (\<lambda>(xs, s). (x # xs, s)) (deq_n s h n))"

lemma deq_never_halts: "repr s h xs \<Longrightarrow> \<exists>e s'. deq s h = Some (e, s')"
  using deq_Nil deq_Cons by (cases xs) blast+

lemma enq_all_ok:
  "repr s h xs \<Longrightarrow> distinct es \<Longrightarrow> nil \<notin> set es \<Longrightarrow> set es \<inter> set (h # xs) = {} \<Longrightarrow>
   \<exists>s'. enq_all s h es = Some s' \<and> repr s' h (xs @ es)"
proof (induction es arbitrary: s xs)
  case Nil
  then show ?case by simp
next
  case (Cons e es)
  then obtain s1 where "enq s h e = Some s1" and r: "repr s1 h (xs @ [e])"
    using enq_ok [of s h xs e] by auto
  moreover have "set es \<inter> set (h # xs @ [e]) = {}" using Cons.prems by auto
  ultimately show ?case using Cons.IH [OF r] Cons.prems by auto
qed

lemma deq_n_ok:
  "repr s h (xs @ ys) \<Longrightarrow> \<exists>s'. deq_n s h (length xs) = Some (xs, s') \<and> repr s' h ys"
proof (induction xs arbitrary: s)
  case Nil
  then show ?case by simp
next
  case (Cons x xs)
  then obtain s1 where "deq s h = Some (x, s1)" and r: "repr s1 h (xs @ ys)"
    using deq_Cons [of s h x "xs @ ys"] by auto
  with Cons.IH [OF r] show ?case by auto
qed

lemma fifo:
  assumes "repr s h []" and "distinct es" and "nil \<notin> set es" and "h \<notin> set es"
  shows "\<exists>s1 s2. enq_all s h es = Some s1 \<and> deq_n s1 h (length es) = Some (es, s2) \<and>
           repr s2 h []"
proof -
  from enq_all_ok [OF assms(1,2,3)] assms(4) obtain s1 where
    "enq_all s h es = Some s1" "repr s1 h (es @ [])" by auto
  with deq_n_ok show ?thesis by blast
qed

end

interpretation lq: intrusive_queue dll InsertTailList RemoveHeadList NULL
proof (unfold_locales, goal_cases)
  case (1 s h xs e)
  then obtain s' where s': "InsertTailList s h e = Some s'" "dll s' h (xs @ [e])"
    and out: "same_outside {e, h, last (h # xs)} s s'"
    using InsertTailList_dll by blast
  have "dll s' k ys" if "dll s k ys" "set (k # ys) \<inter> set (e # h # xs) = {}" for k ys
    by (rule dll_frame [OF that(1) out]) (use that(2) in auto)
  with s' show ?case by blast
next
  case (2 s h)
  then show ?case by (rule RemoveHeadList_Nil)
next
  case (3 s h x xs)
  then show ?case using RemoveHeadList_Cons dll_frame by meson
next
  case (4 s h xs)
  then show ?case using dll_not_null by auto
qed

section \<open>Ordered insertion\<close>

lemma InsertOrderedList_dll:
  assumes "dll st h xs" and "e \<noteq> NULL" and "e \<notin> set (h # xs)"
  shows "\<exists>st'. InsertOrderedList st h e cmp = Some st' \<and>
           dll st' h (takeWhile (\<lambda>c. \<not> sint (cmp e c) < 0) xs @ e #
                      dropWhile (\<lambda>c. \<not> sint (cmp e c) < 0) xs) \<and>
           same_outside (set (e # h # xs)) st st'"
proof -
  let ?p = "\<lambda>c. \<not> sint (cmp e c) < 0"
  have "find_insert_position st h e cmp (Flink st h) = Some (hd (dropWhile ?p xs @ [h]))"
    using assms(1) by (intro find_insert_position_suffix) (auto simp: dll_def)
  moreover have "\<exists>st'. InsertTailList st (hd (dropWhile ?p xs @ [h])) e = Some st' \<and>
      dll st' h (takeWhile ?p xs @ e # dropWhile ?p xs) \<and>
      same_outside (set (e # h # takeWhile ?p xs @ dropWhile ?p xs)) st st'"
    by (rule insert_before_dll) (use assms in simp_all)
  ultimately show ?thesis
    using dll_valid_head [OF assms(1)] by (auto simp: InsertOrderedList_def)
qed

section \<open>Properties\<close>

text \<open>
  C1. Unlinking an entry from the middle of a well-formed list never halts, leaves exactly the
  other entries in their order, reports whether the list became empty, and does not disturb
  any other list.
\<close>

theorem RemoveEntryList_correct:
  assumes "dll st h (xs @ e # ys)"
  shows "\<exists>st'. RemoveEntryList st e = Some (xs @ ys = [], st') \<and> dll st' h (xs @ ys) \<and>
           (\<forall>k zs. dll st k zs \<longrightarrow> set (k # zs) \<inter> set (h # xs @ ys) = {} \<longrightarrow> dll st' k zs)"
  using RemoveEntryList_dll [OF assms] dll_frame by blast

definition three_entries :: list_store where
  "three_entries = \<lparr>Flink = (\<lambda>p. if p = 16 then 32 else if p = 32 then 48 else if p = 48 then 64 else 16),
                    Blink = (\<lambda>p. if p = 16 then 64 else if p = 32 then 16 else if p = 48 then 32 else 48)\<rparr>"

lemma three_entries_dll: "dll three_entries 16 [32, 48, 64]"
  by (simp add: dll_def three_entries_def)

theorem RemoveEntryList_correct_witness:
  "\<exists>st'. RemoveEntryList three_entries 48 = Some (False, st') \<and> dll st' 16 [32, 64]"
  using RemoveEntryList_correct [of three_entries 16 "[32]" 48 "[64]"] three_entries_dll
  by auto

text \<open>
  Ordered insertion keeps a list sorted by key, keeps every entry, and is stable: the new
  entry goes behind every entry whose key is equal, whenever the comparison function has the
  sign of the difference of the keys.
\<close>

theorem InsertOrderedList_sorted:
  fixes key :: "PVOID \<Rightarrow> int"
  assumes "dll st h xs" and "e \<noteq> NULL" and "e \<notin> set (h # xs)"
    and cmp: "\<And>a b. sint (cmp a b) < 0 \<longleftrightarrow> key a < key b"
    and sorted: "sorted (map key xs)"
  shows "\<exists>st' us vs. InsertOrderedList st h e cmp = Some st' \<and> dll st' h (us @ e # vs) \<and>
           us @ vs = xs \<and> sorted (map key (us @ e # vs)) \<and>
           (\<forall>u \<in> set us. key u \<le> key e) \<and> (\<forall>v \<in> set vs. key e < key v)"
proof -
  let ?us = "takeWhile (\<lambda>c. \<not> sint (cmp e c) < 0) xs"
  let ?vs = "dropWhile (\<lambda>c. \<not> sint (cmp e c) < 0) xs"
  have us: "\<forall>u \<in> set ?us. key u \<le> key e"
    by (auto dest: set_takeWhileD simp: cmp)
  have vs: "\<forall>v \<in> set ?vs. key e < key v"
  proof (cases ?vs)
    case Nil
    show ?thesis unfolding Nil by simp
  next
    case (Cons w ws)
    then have "key e < key w"
      using hd_dropWhile [of "\<lambda>c. \<not> sint (cmp e c) < 0" xs] by (simp add: cmp)
    moreover have "sorted (map key ?vs)"
      using sorted by (metis sorted_wrt_append takeWhile_dropWhile_id map_append)
    ultimately show ?thesis using Cons by auto
  qed
  have "sorted (map key (?us @ e # ?vs))"
    using sorted us vs by (intro sorted_map_insert) simp_all
  with InsertOrderedList_dll [OF assms(1,2,3), of cmp] us vs show ?thesis
    by (meson takeWhile_dropWhile_id)
qed

definition entry_key :: "PVOID \<Rightarrow> int" where
  "entry_key p = (if p = 32 then 1 else if p = 48 \<or> p = 80 then 5 else 9)"

theorem InsertOrderedList_sorted_witness:
  "\<exists>st' us vs. InsertOrderedList three_entries 16 80
       (\<lambda>a b. word_of_int (entry_key a - entry_key b)) = Some st' \<and>
     dll st' 16 (us @ 80 # vs) \<and> us @ vs = [32, 48, 64]"
proof -
  have "sint (word_of_int (entry_key a - entry_key b) :: QWORD) < 0 \<longleftrightarrow> entry_key a < entry_key b"
    for a b
    by (simp add: entry_key_def)
  with InsertOrderedList_sorted [of three_entries 16 "[32, 48, 64]" 80
      "\<lambda>a b. word_of_int (entry_key a - entry_key b)" entry_key] three_entries_dll
  show ?thesis by (simp add: entry_key_def) blast
qed

text \<open>Appending a batch of entries, and taking a number of heads off.\<close>

fun append_batch :: "list_store \<Rightarrow> PVOID \<Rightarrow> PVOID list \<Rightarrow> list_store option" where
  "append_batch st h [] = Some st"
| "append_batch st h (e # es) = do { st \<leftarrow> InsertTailList st h e; append_batch st h es }"

fun take_batch :: "list_store \<Rightarrow> PVOID \<Rightarrow> nat \<Rightarrow> (PVOID list \<times> list_store) option" where
  "take_batch st h 0 = Some ([], st)"
| "take_batch st h (Suc n) = do {
     (e, st) \<leftarrow> RemoveHeadList st h;
     (es, st) \<leftarrow> take_batch st h n;
     Some (e # es, st)
   }"

lemma append_batch_enq_all: "append_batch st h es = lq.enq_all st h es"
  by (induction es arbitrary: st) auto

lemma take_batch_deq_n: "take_batch st h n = lq.deq_n st h n"
  by (induction n arbitrary: st) (auto simp: map_option_case split: Option.bind_splits option.splits)

text \<open>
  Entries come out of a list in the order they were appended: appending a batch of
  fresh entries to an empty list and taking as many heads off returns the batch and leaves
  the list empty.
\<close>

theorem list_fifo:
  assumes "distinct (h # es)" and "NULL \<notin> set (h # es)"
  shows "\<exists>s1 s2. append_batch (InitializeListHead st h) h es = Some s1 \<and>
           take_batch s1 h (length es) = Some (es, s2) \<and> IsListEmpty s2 h = Some True"
  using lq.fifo [of "InitializeListHead st h" h es] InitializeListHead_dll [of h st] assms IsListEmpty_dll
  by (fastforce simp: append_batch_enq_all take_batch_deq_n)

theorem list_fifo_witness:
  "\<exists>s1 s2. append_batch (InitializeListHead three_entries 96) 96 [112, 128] = Some s1 \<and>
     take_batch s1 96 (length [112 :: PVOID, 128]) = Some ([112, 128], s2) \<and> IsListEmpty s2 96 = Some True"
  by (rule list_fifo) simp_all

end
