(* ===== verification/Bitmap.thy ===== *)
theory Bitmap
  imports Prelude
begin

text \<open>
  The bitmap of \<^verbatim>\<open>CommonLib/src/bitmap.c\<close>, which the physical memory manager uses for
  page frames and every virtual memory reservation for its committed pages.

  A \<open>BITMAP\<close> keeps the address of its buffer, the buffer's size in bytes and the number of
  bits. The bytes behind the buffer address are the field \<open>Bytes\<close>, indexed like
  \<open>BitmapBuffer[byteIndex]\<close>; nothing limits the index to \<open>BufferSize\<close>, as in C.
  \<open>BOOLEAN\<close> parameters are \<open>bool\<close>.
\<close>

section \<open>The structure and the bit operations\<close>

record BITMAP =
  BitmapBuffer :: PVOID
  BufferSize :: DWORD
  BitCount :: DWORD
  Bytes :: "DWORD \<Rightarrow> BYTE"

abbreviation BITMAP_ENTRY_BITS :: DWORD where "BITMAP_ENTRY_BITS \<equiv> 8"

definition BitmapPreinit :: "BITMAP \<Rightarrow> DWORD \<Rightarrow> (DWORD \<times> BITMAP) option" where
  "BitmapPreinit bm NumberOfElements = do {
     ASSERT (NumberOfElements \<noteq> 0);
     let bm = bm\<lparr>BitmapBuffer := NULL, BufferSize := 0, BitCount := 0\<rparr>;
     let bm = bm\<lparr>BitCount := NumberOfElements\<rparr>;
     let bm = bm\<lparr>BufferSize := ucast (AlignAddressUpper (ucast (BitCount bm)) 8 div 8)\<rparr>;
     Some (BufferSize bm, bm)
   }"

definition BitmapInitEx :: "BITMAP \<Rightarrow> PVOID \<Rightarrow> bool \<Rightarrow> BITMAP option" where
  "BitmapInitEx bm buffer Set = do {
     ASSERT (buffer \<noteq> NULL);
     let bytes = (\<lambda>i. if i < BufferSize bm then (if Set then MAX_BYTE else 0) else Bytes bm i);
     Some (bm\<lparr>BitmapBuffer := buffer, Bytes := bytes\<rparr>)
   }"

definition BitmapUninit :: "BITMAP \<Rightarrow> BITMAP" where
  "BitmapUninit bm = bm\<lparr>BitmapBuffer := NULL, BufferSize := 0, BitCount := 0\<rparr>"

definition BitmapGetMaxElementCount :: "BITMAP \<Rightarrow> DWORD" where
  "BitmapGetMaxElementCount bm = BitCount bm"

definition BitmapChangeBit :: "(DWORD \<Rightarrow> BYTE) \<Rightarrow> DWORD \<Rightarrow> bool \<Rightarrow> (DWORD \<Rightarrow> BYTE)" where
  "BitmapChangeBit buf Index Set =
     (let byteIndex = Index div BITMAP_ENTRY_BITS;
          bitIndex = unat (Index mod BITMAP_ENTRY_BITS)
      in if Set then buf(byteIndex := buf byteIndex OR push_bit bitIndex 1)
         else buf(byteIndex := buf byteIndex AND NOT (push_bit bitIndex 1)))"

function change_bits_loop ::
  "(DWORD \<Rightarrow> BYTE) \<Rightarrow> DWORD \<Rightarrow> bool \<Rightarrow> DWORD \<Rightarrow> DWORD \<Rightarrow> (DWORD \<Rightarrow> BYTE)" where
  "change_bits_loop buf Index Set Count i =
     (if i < Count then change_bits_loop (BitmapChangeBit buf (Index + i) Set) Index Set Count (i + 1)
      else buf)"
  by pat_completeness auto
termination
  by (relation "measure (\<lambda>(buf, Index, Set, Count, i). unat Count - unat i)")
    (simp_all add: unat_succ diff_less_mono2 unat_mono)

declare change_bits_loop.simps [simp del]

definition BitmapChangeBits ::
  "(DWORD \<Rightarrow> BYTE) \<Rightarrow> DWORD \<Rightarrow> bool \<Rightarrow> DWORD \<Rightarrow> (DWORD \<Rightarrow> BYTE)" where
  "BitmapChangeBits buf Index Set Count = change_bits_loop buf Index Set Count 0"

definition BitmapGetBit :: "(DWORD \<Rightarrow> BYTE) \<Rightarrow> DWORD \<Rightarrow> bool" where
  "BitmapGetBit buf Index =
     (let byteIndex = Index div BITMAP_ENTRY_BITS;
          bitIndex = unat (Index mod BITMAP_ENTRY_BITS)
      in IsBooleanFlagOn (buf byteIndex) (push_bit bitIndex 1))"

definition BitmapSetBitValue :: "BITMAP \<Rightarrow> DWORD \<Rightarrow> bool \<Rightarrow> BITMAP option" where
  "BitmapSetBitValue bm Index Set = do {
     ASSERT (Index < BitCount bm);
     ASSERT (BitmapBuffer bm \<noteq> NULL);
     Some (bm\<lparr>Bytes := BitmapChangeBit (Bytes bm) Index Set\<rparr>)
   }"

definition BitmapGetBitValue :: "BITMAP \<Rightarrow> DWORD \<Rightarrow> bool option" where
  "BitmapGetBitValue bm Index = do {
     ASSERT (Index < BitCount bm);
     ASSERT (BitmapBuffer bm \<noteq> NULL);
     Some (BitmapGetBit (Bytes bm) Index)
   }"

definition BitmapSetBitsValue :: "BITMAP \<Rightarrow> DWORD \<Rightarrow> DWORD \<Rightarrow> bool \<Rightarrow> BITMAP option" where
  "BitmapSetBitsValue bm Index Count Set = do {
     ASSERT (Index < BitCount bm);
     ASSERT (Index \<le> BitCount bm - Count);
     ASSERT (Count = 0 \<or> BitmapBuffer bm \<noteq> NULL);
     Some (bm\<lparr>Bytes := BitmapChangeBits (Bytes bm) Index Set Count\<rparr>)
   }"

section \<open>Scanning\<close>

function scan_run :: "(DWORD \<Rightarrow> BYTE) \<Rightarrow> bool \<Rightarrow> DWORD \<Rightarrow> DWORD \<Rightarrow> DWORD \<Rightarrow> bool" where
  "scan_run buf Set ConsecutiveBits i j =
     (if j < ConsecutiveBits then
        (if Set \<noteq> BitmapGetBit buf (i + j) then False
         else scan_run buf Set ConsecutiveBits i (j + 1))
      else True)"
  by pat_completeness auto
termination
  by (relation "measure (\<lambda>(buf, Set, n, i, j). unat n - unat j)")
    (simp_all add: unat_succ diff_less_mono2 unat_mono)

declare scan_run.simps [simp del]

partial_function (option) scan_loop ::
  "(DWORD \<Rightarrow> BYTE) \<Rightarrow> bool \<Rightarrow> DWORD \<Rightarrow> DWORD \<Rightarrow> DWORD \<Rightarrow> DWORD option" where
  "scan_loop buf Set ConsecutiveBits lastIndex i =
     (if i \<le> lastIndex then
        (if scan_run buf Set ConsecutiveBits i 0 then Some i
         else scan_loop buf Set ConsecutiveBits lastIndex (i + 1))
      else Some MAX_DWORD)"

definition BitmapScanInternal ::
  "BITMAP \<Rightarrow> DWORD \<Rightarrow> DWORD \<Rightarrow> DWORD \<Rightarrow> bool \<Rightarrow> DWORD option" where
  "BitmapScanInternal bm StartIndex FirstInvalidBitIndex ConsecutiveBits Set = do {
     ASSERT (ConsecutiveBits \<noteq> 0);
     ASSERT (StartIndex \<le> FirstInvalidBitIndex);
     ASSERT (FirstInvalidBitIndex \<le> BitCount bm);
     (if FirstInvalidBitIndex - StartIndex < ConsecutiveBits then Some MAX_DWORD
      else do {
        ASSERT (BitmapBuffer bm \<noteq> NULL);
        scan_loop (Bytes bm) Set ConsecutiveBits (FirstInvalidBitIndex - ConsecutiveBits) StartIndex
      })
   }"

definition BitmapScanFromTo ::
  "BITMAP option \<Rightarrow> DWORD \<Rightarrow> DWORD \<Rightarrow> DWORD \<Rightarrow> bool \<Rightarrow> DWORD option" where
  "BitmapScanFromTo Bitmap Index FirstInvalidBitIndex ConsecutiveBits Set =
     (case Bitmap of
        None \<Rightarrow> Some MAX_DWORD
      | Some bm \<Rightarrow>
          if ConsecutiveBits = 0 then Some MAX_DWORD
          else if Index > FirstInvalidBitIndex \<or> FirstInvalidBitIndex > BitCount bm then Some MAX_DWORD
          else BitmapScanInternal bm Index FirstInvalidBitIndex ConsecutiveBits Set)"

definition BitmapScan :: "BITMAP \<Rightarrow> DWORD \<Rightarrow> bool \<Rightarrow> DWORD option" where
  "BitmapScan bm ConsecutiveBits Set =
     BitmapScanFromTo (Some bm) 0 (BitCount bm) ConsecutiveBits Set"

definition BitmapScanFrom :: "BITMAP \<Rightarrow> DWORD \<Rightarrow> DWORD \<Rightarrow> bool \<Rightarrow> DWORD option" where
  "BitmapScanFrom bm Index ConsecutiveBits Set =
     BitmapScanFromTo (Some bm) Index (BitCount bm) ConsecutiveBits Set"

definition BitmapScanFromToAndFlip ::
  "BITMAP \<Rightarrow> DWORD \<Rightarrow> DWORD \<Rightarrow> DWORD \<Rightarrow> bool \<Rightarrow> (DWORD \<times> BITMAP) option" where
  "BitmapScanFromToAndFlip bm Index FirstInvalidBitIndex ConsecutiveBits Set =
     (if ConsecutiveBits = 0 then Some (MAX_DWORD, bm)
      else if Index > FirstInvalidBitIndex \<or> FirstInvalidBitIndex > BitCount bm
      then Some (MAX_DWORD, bm)
      else do {
        bitmapIndex \<leftarrow> BitmapScanInternal bm Index FirstInvalidBitIndex ConsecutiveBits Set;
        (if bitmapIndex = MAX_DWORD then Some (MAX_DWORD, bm)
         else Some (bitmapIndex,
                bm\<lparr>Bytes := BitmapChangeBits (Bytes bm) bitmapIndex (\<not> Set) ConsecutiveBits\<rparr>))
      })"

definition BitmapScanAndFlip :: "BITMAP \<Rightarrow> DWORD \<Rightarrow> bool \<Rightarrow> (DWORD \<times> BITMAP) option" where
  "BitmapScanAndFlip bm ConsecutiveBits Set =
     BitmapScanFromToAndFlip bm 0 (BitCount bm) ConsecutiveBits Set"

definition BitmapScanFromAndFlip ::
  "BITMAP \<Rightarrow> DWORD \<Rightarrow> DWORD \<Rightarrow> bool \<Rightarrow> (DWORD \<times> BITMAP) option" where
  "BitmapScanFromAndFlip bm Index ConsecutiveBits Set =
     BitmapScanFromToAndFlip bm Index (BitCount bm) ConsecutiveBits Set"

section \<open>Bit laws\<close>

lemma IsBooleanFlagOn_bit: "IsBooleanFlagOn x (2 ^ k) \<longleftrightarrow> k \<ge> LENGTH('a) \<or> bit x k"
  for x :: "'a::len word"
proof -
  have "2 ^ k = x AND 2 ^ k \<longleftrightarrow> (\<forall>n < LENGTH('a). bit (2 ^ k :: 'a word) n = bit (x AND 2 ^ k) n)"
    by (metis bit_word_eqI)
  then show ?thesis
    by (auto simp: IsBooleanFlagOn_def bit_and_iff bit_exp_iff intro: leI)
qed

lemma BitmapGetBit_bit:
  "BitmapGetBit buf i \<longleftrightarrow> bit (buf (i div BITMAP_ENTRY_BITS)) (unat (i mod BITMAP_ENTRY_BITS))"
proof -
  have "unat (i mod 8) < 8" by (simp add: unat_mod)
  then show ?thesis by (simp add: BitmapGetBit_def IsBooleanFlagOn_bit)
qed

lemma index_eq_iff: "i div 8 = j div 8 \<and> unat (i mod 8) = unat (j mod 8) \<longleftrightarrow> i = (j :: DWORD)"
  by (metis mult_div_mod_eq word_unat_eq_iff)

lemma BitmapGetBit_ChangeBit:
  "BitmapGetBit (BitmapChangeBit buf j b) i \<longleftrightarrow> (if i = j then b else BitmapGetBit buf i)"
proof -
  have "unat (i mod 8) < 8" "unat (j mod 8) < 8" by (simp_all add: unat_mod)
  then show ?thesis
    using index_eq_iff [of i j]
    by (auto simp: BitmapGetBit_bit BitmapChangeBit_def Let_def bit_simps)
qed

lemma change_bits_loop_get:
  "i \<le> n \<Longrightarrow> BitmapGetBit (change_bits_loop buf Index b n i) k \<longleftrightarrow>
     (if i \<le> k - Index \<and> k - Index < n then b else BitmapGetBit buf k)"
proof (induction buf Index b n i rule: change_bits_loop.induct)
  case (1 buf Index b n i)
  show ?case
  proof (cases "i < n")
    case True
    have le: "i + 1 \<le> k - Index \<longleftrightarrow> i \<le> k - Index \<and> i \<noteq> k - Index"
      using unat_succ [OF True] by (auto simp: word_le_nat_alt word_unat_eq_iff)
    have eq: "k = Index + i \<longleftrightarrow> i = k - Index" by auto
    have "change_bits_loop buf Index b n i =
        change_bits_loop (BitmapChangeBit buf (Index + i) b) Index b n (i + 1)"
      using True by (subst change_bits_loop.simps) simp
    with 1(1) [OF True unat_succ_le [OF True]] True show ?thesis
      by (auto simp: BitmapGetBit_ChangeBit le eq)
  next
    case False
    then show ?thesis using 1(2) by (subst change_bits_loop.simps) auto
  qed
qed

lemma BitmapGetBit_ChangeBits:
  "BitmapGetBit (BitmapChangeBits buf Index b n) k \<longleftrightarrow> (if k - Index < n then b else BitmapGetBit buf k)"
  by (simp add: BitmapChangeBits_def change_bits_loop_get)

lemma scan_run_iff:
  "scan_run buf b n i j \<longleftrightarrow> (\<forall>k. j \<le> k \<and> k < n \<longrightarrow> BitmapGetBit buf (i + k) = b)"
proof (induction buf b n i j rule: scan_run.induct)
  case (1 buf b n i j)
  show ?case
  proof (cases "j < n")
    case True
    have le: "j + 1 \<le> k \<longleftrightarrow> j \<le> k \<and> j \<noteq> k" for k
      using unat_succ [OF True] by (auto simp: word_le_nat_alt word_unat_eq_iff)
    show ?thesis
    proof (cases "b = BitmapGetBit buf (i + j)")
      case eq: True
      with 1 [OF True] True show ?thesis
        by (subst scan_run.simps) (auto simp: le)
    next
      case False
      with True show ?thesis by (subst scan_run.simps) auto
    qed
  next
    case False
    then show ?thesis by (subst scan_run.simps) auto
  qed
qed

text \<open>
  The scan tries every start in turn. It returns because \<open>lastIndex\<close> is below
  \<open>MAX_DWORD\<close>: with \<open>lastIndex = MAX_DWORD\<close> the loop counter would wrap.
\<close>

lemma scan_loop_correct:
  assumes "lst < MAX_DWORD"
  shows "i \<le> lst + (1 :: DWORD) \<Longrightarrow>
    (\<exists>r. scan_loop buf b n lst i = Some r \<and> i \<le> r \<and> r \<le> lst \<and> scan_run buf b n r 0 \<and>
       (\<forall>k. i \<le> k \<and> k < r \<longrightarrow> \<not> scan_run buf b n k 0)) \<or>
    (scan_loop buf b n lst i = Some MAX_DWORD \<and> (\<forall>k. i \<le> k \<and> k \<le> lst \<longrightarrow> \<not> scan_run buf b n k 0))"
proof (induction "unat (lst + 1 - i)" arbitrary: i)
  case 0
  then have "i = lst + 1" by (simp add: unat_eq_zero)
  moreover have "\<not> lst + 1 \<le> lst"
    using unat_succ [OF assms] by (simp add: word_le_nat_alt)
  ultimately show ?case by (auto simp: scan_loop.simps)
next
  case (Suc m)
  have sl: "unat (lst + 1) = Suc (unat lst)" by (rule unat_succ [OF assms])
  have ile: "i \<le> lst"
    using Suc.prems Suc.hyps(2) sl
    by (cases "i = lst + 1") (auto simp: word_le_nat_alt word_unat_eq_iff)
  then have il: "i < MAX_DWORD" using assms by simp
  have le: "i + 1 \<le> k \<longleftrightarrow> i \<le> k \<and> i \<noteq> k" for k
    using unat_succ [OF il] by (auto simp: word_le_nat_alt word_unat_eq_iff)
  show ?case
  proof (cases "scan_run buf b n i 0")
    case True
    with ile show ?thesis by (subst (1 2) scan_loop.simps) auto
  next
    case False
    have "m = unat (lst + 1 - (i + 1))"
      using Suc.hyps(2) ile sl unat_succ [OF il] unat_sub [of i "lst + 1"]
        unat_sub [of "i + 1" "lst + 1"] by (simp add: word_le_nat_alt)
    moreover have "i + 1 \<le> lst + 1"
      using ile sl unat_succ [OF il] by (simp add: word_le_nat_alt)
    ultimately have IH: "(\<exists>r. scan_loop buf b n lst (i + 1) = Some r \<and> i + 1 \<le> r \<and> r \<le> lst \<and>
        scan_run buf b n r 0 \<and> (\<forall>k. i + 1 \<le> k \<and> k < r \<longrightarrow> \<not> scan_run buf b n k 0)) \<or>
      (scan_loop buf b n lst (i + 1) = Some MAX_DWORD \<and>
       (\<forall>k. i + 1 \<le> k \<and> k \<le> lst \<longrightarrow> \<not> scan_run buf b n k 0))"
      by (rule Suc.hyps(1))
    have "scan_loop buf b n lst i = scan_loop buf b n lst (i + 1)"
      using ile False by (subst scan_loop.simps) simp
    with IH False le show ?thesis by metis
  qed
qed

section \<open>The abstract bit vector\<close>

text \<open>
  \<open>bit_at bm k\<close> is bit number \<open>k\<close>; \<open>run_at bm b k n\<close> says that the \<open>n\<close> bits from
  \<open>k\<close> on all have the value \<open>b\<close>. Both are over the naturals, so that no wrap-around is
  left in what the clients read.
\<close>

definition bit_at :: "BITMAP \<Rightarrow> nat \<Rightarrow> bool" where
  "bit_at bm k = BitmapGetBit (Bytes bm) (of_nat k)"

definition run_at :: "BITMAP \<Rightarrow> bool \<Rightarrow> nat \<Rightarrow> nat \<Rightarrow> bool" where
  "run_at bm b k n \<longleftrightarrow> (\<forall>j. k \<le> j \<and> j < k + n \<longrightarrow> bit_at bm j = b)"

definition usable :: "BITMAP \<Rightarrow> bool" where
  "usable bm \<longleftrightarrow> BitmapBuffer bm \<noteq> NULL"

lemma scan_run_run_at: "scan_run (Bytes bm) b n i 0 \<longleftrightarrow> run_at bm b (unat i) (unat n)"
proof -
  have "(\<forall>k < n. BitmapGetBit (Bytes bm) (i + k) = b) \<longleftrightarrow>
      (\<forall>m < unat n. BitmapGetBit (Bytes bm) (i + of_nat m) = b)"
    by (rule all_less_unat)
  also have "\<dots> \<longleftrightarrow> run_at bm b (unat i) (unat n)"
  proof
    assume *: "\<forall>m < unat n. BitmapGetBit (Bytes bm) (i + of_nat m) = b"
    have "bit_at bm j = b" if j: "unat i \<le> j \<and> j < unat i + unat n" for j
    proof -
      from j have "j - unat i < unat n" by auto
      with * have "BitmapGetBit (Bytes bm) (i + of_nat (j - unat i)) = b" by blast
      moreover have "of_nat j = i + of_nat (j - unat i)"
        using j of_nat_unat_add [of i "j - unat i"] by simp
      ultimately show ?thesis by (simp add: bit_at_def)
    qed
    then show "run_at bm b (unat i) (unat n)" unfolding run_at_def by blast
  next
    assume run: "run_at bm b (unat i) (unat n)"
    have "BitmapGetBit (Bytes bm) (i + of_nat m) = b" if "m < unat n" for m
    proof -
      from run that have "bit_at bm (unat i + m) = b" by (simp add: run_at_def)
      then show ?thesis by (simp add: bit_at_def)
    qed
    then show "\<forall>m < unat n. BitmapGetBit (Bytes bm) (i + of_nat m) = b" by blast
  qed
  finally show ?thesis by (simp add: scan_run_iff)
qed

lemma BitmapScanInternal_correct:
  assumes "n \<noteq> 0" and "start \<le> stop" and "stop \<le> BitCount bm" and "usable bm"
  shows "\<exists>r. BitmapScanInternal bm start stop n b = Some r \<and>
    (if r = MAX_DWORD
     then \<forall>k. unat start \<le> k \<and> k + unat n \<le> unat stop \<longrightarrow> \<not> run_at bm b k (unat n)
     else unat start \<le> unat r \<and> unat r + unat n \<le> unat stop \<and> run_at bm b (unat r) (unat n) \<and>
       (\<forall>k. unat start \<le> k \<and> k < unat r \<longrightarrow> \<not> run_at bm b k (unat n)))"
proof (cases "stop - start < n")
  case True
  then have "unat stop < unat start + unat n"
    using assms(2) by (simp add: word_less_nat_alt unat_sub)
  with True show ?thesis using assms by (auto simp: BitmapScanInternal_def)
next
  case False
  then have ns: "unat start + unat n \<le> unat stop"
    using assms(2) by (simp add: word_less_nat_alt unat_sub word_le_nat_alt)
  let ?l = "stop - n"
  have ul: "unat ?l = unat stop - unat n"
    using ns by (intro unat_sub) (simp add: word_le_nat_alt)
  have np: "0 < unat n" using assms(1) by (simp add: unat_gt_0)
  have lm: "?l < MAX_DWORD"
    using ul np ns unat_less_2p [of stop] by (simp add: word_less_nat_alt)
  have sl: "start \<le> ?l + 1"
    using unat_succ [OF lm] ul ns by (simp add: word_le_nat_alt)
  have eq: "BitmapScanInternal bm start stop n b = scan_loop (Bytes bm) b n ?l start"
    using False assms by (simp add: BitmapScanInternal_def usable_def)
  have nat: "\<not> run_at bm b k (unat n)"
    if "\<forall>i. start \<le> i \<and> i \<le> j \<longrightarrow> \<not> scan_run (Bytes bm) b n i 0" "unat start \<le> k" "k \<le> unat j" for k j
  proof -
    have "unat (of_nat k :: DWORD) = k"
      using that(3) unat_less_2p [of j] by (simp add: unat_of_nat)
    with that show ?thesis
      by (metis scan_run_run_at word_le_nat_alt)
  qed
  from scan_loop_correct [OF lm sl, of "Bytes bm" b n] consider
      (found) r where "scan_loop (Bytes bm) b n ?l start = Some r" "start \<le> r" "r \<le> ?l"
        "scan_run (Bytes bm) b n r 0"
        "\<forall>k. start \<le> k \<and> k < r \<longrightarrow> \<not> scan_run (Bytes bm) b n k 0"
    | (none) "scan_loop (Bytes bm) b n ?l start = Some MAX_DWORD"
        "\<forall>k. start \<le> k \<and> k \<le> ?l \<longrightarrow> \<not> scan_run (Bytes bm) b n k 0"
    by blast
  then show ?thesis
  proof cases
    case found
    have "\<not> run_at bm b k (unat n)" if "unat start \<le> k" "k < unat r" for k
    proof -
      have "unat (of_nat k :: DWORD) = k"
        using that(2) unat_less_2p [of r] by (simp add: unat_of_nat)
      with that found(5) show ?thesis by (metis scan_run_run_at word_le_nat_alt word_less_nat_alt)
    qed
    moreover have "r \<noteq> MAX_DWORD" using found(3) lm by auto
    ultimately show ?thesis
      using found ul ns eq by (auto simp: scan_run_run_at word_le_nat_alt)
  next
    case none
    then show ?thesis using eq nat [OF none(2)] ul by auto
  qed
qed

lemma bit_at_ChangeBits:
  assumes "unat Index + unat n \<le> 2 ^ 32" and "k < 2 ^ 32"
  shows "bit_at (bm\<lparr>Bytes := BitmapChangeBits (Bytes bm) Index b n\<rparr>) k \<longleftrightarrow>
    (if unat Index \<le> k \<and> k < unat Index + unat n then b else bit_at bm k)"
proof -
  have uk: "unat (of_nat k :: DWORD) = k" using assms(2) by (simp add: unat_of_nat)
  have "of_nat k - Index < n \<longleftrightarrow> unat Index \<le> k \<and> k < unat Index + unat n"
  proof (cases "unat Index \<le> k")
    case True
    then have "unat (of_nat k - Index) = k - unat Index"
      using unat_sub [of Index "of_nat k"] uk by (simp add: word_le_nat_alt)
    with True show ?thesis by (auto simp: word_less_nat_alt)
  next
    case False
    have "unat (of_nat k - Index) = 2 ^ 32 + k - unat Index"
      using False uk by (simp add: unat_sub_if')
    with False assms(1) show ?thesis by (auto simp: word_less_nat_alt)
  qed
  then show ?thesis by (simp add: bit_at_def BitmapGetBit_ChangeBits)
qed

section \<open>Interface: an allocator of index ranges\<close>

text \<open>
  What the physical memory manager and the virtual memory reservations rely on. \<open>avail s k\<close>
  says that index \<open>k\<close> can be handed out; \<open>take s start n\<close> hands out the first run of
  \<open>n\<close> available indices at or after \<open>start\<close>, or answers \<open>fail\<close>; \<open>give\<close> puts a run back.
\<close>

locale range_allocator =
  fixes inv :: "'s \<Rightarrow> bool"
    and limit :: "'s \<Rightarrow> nat"
    and avail :: "'s \<Rightarrow> nat \<Rightarrow> bool"
    and take :: "'s \<Rightarrow> 'i::len word \<Rightarrow> 'i word \<Rightarrow> ('i word \<times> 's) option"
    and give :: "'s \<Rightarrow> 'i word \<Rightarrow> 'i word \<Rightarrow> 's option"
    and fail :: "'i word"
  assumes take_ok: "inv s \<Longrightarrow> n \<noteq> 0 \<Longrightarrow> unat start \<le> limit s \<Longrightarrow>
      \<exists>r s'. take s start n = Some (r, s') \<and> inv s' \<and> limit s' = limit s \<and>
        (if r = fail
         then s' = s \<and> (\<forall>k. unat start \<le> k \<and> k + unat n \<le> limit s \<longrightarrow>
           (\<exists>j. k \<le> j \<and> j < k + unat n \<and> \<not> avail s j))
         else unat start \<le> unat r \<and> unat r + unat n \<le> limit s \<and>
           (\<forall>j. unat r \<le> j \<and> j < unat r + unat n \<longrightarrow> avail s j) \<and>
           (\<forall>k. unat start \<le> k \<and> k < unat r \<longrightarrow> (\<exists>j. k \<le> j \<and> j < k + unat n \<and> \<not> avail s j)) \<and>
           (\<forall>j. avail s' j \<longleftrightarrow> avail s j \<and> \<not> (unat r \<le> j \<and> j < unat r + unat n)))"
    and give_ok: "inv s \<Longrightarrow> n \<noteq> 0 \<Longrightarrow> unat k + unat n \<le> limit s \<Longrightarrow>
      \<exists>s'. give s k n = Some s' \<and> inv s' \<and> limit s' = limit s \<and>
        (\<forall>j. avail s' j \<longleftrightarrow> avail s j \<or> (unat k \<le> j \<and> j < unat k + unat n))"
    and avail_limit: "avail s j \<Longrightarrow> j < limit s"
begin

definition held :: "'i word \<Rightarrow> 'i word \<Rightarrow> nat set" where
  "held r n = {unat r ..< unat r + unat n}"

lemma take_total: "inv s \<Longrightarrow> n \<noteq> 0 \<Longrightarrow> unat start \<le> limit s \<Longrightarrow> take s start n \<noteq> None"
  using take_ok [of s n start] by auto

lemma take_some:
  assumes "inv s" and "n \<noteq> 0" and "unat start \<le> limit s" and "take s start n = Some (r, s')"
    and "r \<noteq> fail"
  shows "inv s' \<and> limit s' = limit s \<and> unat start \<le> unat r \<and> held r n \<subseteq> {j. avail s j} \<and>
    {j. avail s' j} = {j. avail s j} - held r n"
  using take_ok [OF assms(1-3)] assms(4,5) by (auto simp: held_def)

lemma take_first:
  assumes "inv s" and "n \<noteq> 0" and "unat start \<le> limit s" and "take s start n = Some (r, s')"
    and "r \<noteq> fail" and "unat start \<le> k" and "k < unat r"
  shows "\<not> {k ..< k + unat n} \<subseteq> {j. avail s j}"
  using take_ok [OF assms(1-3)] assms(4-7) by fastforce

lemma take_fail_iff:
  assumes "inv s" and "n \<noteq> 0" and "unat start \<le> limit s" and "take s start n = Some (r, s')"
  shows "r = fail \<longleftrightarrow> (\<forall>k. unat start \<le> k \<longrightarrow> \<not> {k ..< k + unat n} \<subseteq> {j. avail s j})"
proof -
  have run: "{k ..< k + unat n} \<subseteq> {j. avail s j} \<longleftrightarrow>
      (\<forall>j. k \<le> j \<and> j < k + unat n \<longrightarrow> avail s j)" for k by auto
  have lim: "k + unat n \<le> limit s" if "\<forall>j. k \<le> j \<and> j < k + unat n \<longrightarrow> avail s j" for k
  proof -
    have "0 < unat n" using assms(2) by (simp add: unat_gt_0)
    then have "avail s (k + unat n - 1)" using that by simp
    then have "k + unat n - 1 < limit s" by (rule avail_limit)
    with \<open>0 < unat n\<close> show ?thesis by simp
  qed
  show ?thesis
  proof (cases "r = fail")
    case True
    with take_ok [OF assms(1-3)] assms(4) lim show ?thesis by (simp add: run) blast
  next
    case False
    with take_ok [OF assms(1-3)] assms(4) show ?thesis by (simp add: run) blast
  qed
qed

lemma take_give:
  assumes "inv s" and "n \<noteq> 0" and "unat start \<le> limit s" and "take s start n = Some (r, s')"
    and "r \<noteq> fail"
  shows "\<exists>s''. give s' r n = Some s'' \<and> inv s'' \<and> {j. avail s'' j} = {j. avail s j}"
proof -
  have t: "inv s'" "limit s' = limit s" "held r n \<subseteq> {j. avail s j}"
      "{j. avail s' j} = {j. avail s j} - held r n"
    using take_some [OF assms] by blast+
  have l: "unat r + unat n \<le> limit s'"
    using take_ok [OF assms(1-3)] assms(4,5) by auto
  from give_ok [OF t(1) assms(2) l] obtain s'' where
    "give s' r n = Some s''" "inv s''"
      "\<forall>j. avail s'' j \<longleftrightarrow> avail s' j \<or> (unat r \<le> j \<and> j < unat r + unat n)" by blast
  moreover from this(3) have "{j. avail s'' j} = {j. avail s' j} \<union> held r n"
    by (simp add: held_def set_eq_iff)
  ultimately show ?thesis using t(3,4) by auto
qed

text \<open>A sequence of requests: what is handed out never overlaps.\<close>

fun take_all :: "'s \<Rightarrow> ('i word \<times> 'i word) list \<Rightarrow> (nat set list \<times> 's) option" where
  "take_all s [] = Some ([], s)"
| "take_all s ((start, n) # reqs) = take s start n \<bind> (\<lambda>(r, s).
     map_option (\<lambda>(rs, s). (if r = fail then rs else held r n # rs, s)) (take_all s reqs))"

lemma take_all_disjoint:
  "inv s \<Longrightarrow> \<forall>(start, n) \<in> set reqs. n \<noteq> 0 \<and> unat start \<le> limit s \<Longrightarrow>
   \<exists>rs s'. take_all s reqs = Some (rs, s') \<and> inv s' \<and> \<Union> (set rs) \<subseteq> {j. avail s j} \<and>
     {j. avail s' j} = {j. avail s j} - \<Union> (set rs) \<and>
     (\<forall>a b. a < b \<and> b < length rs \<longrightarrow> rs ! a \<inter> rs ! b = {})"
proof (induction reqs arbitrary: s)
  case Nil
  then show ?case by simp
next
  case (Cons q reqs)
  obtain start n where q: "q = (start, n)" by (cases q)
  with Cons.prems have n: "n \<noteq> 0" "unat start \<le> limit s" by auto
  from take_ok [OF Cons.prems(1) n] obtain r s1 where
    t: "take s start n = Some (r, s1)" "inv s1" "limit s1 = limit s" by blast
  from Cons.IH [OF t(2)] Cons.prems(2) t(3) obtain rs s2 where
    ih: "take_all s1 reqs = Some (rs, s2)" "inv s2" "\<Union> (set rs) \<subseteq> {j. avail s1 j}"
      "{j. avail s2 j} = {j. avail s1 j} - \<Union> (set rs)"
      "\<forall>a b. a < b \<and> b < length rs \<longrightarrow> rs ! a \<inter> rs ! b = {}"
    by auto
  show ?case
  proof (cases "r = fail")
    case True
    with take_ok [OF Cons.prems(1) n] t(1) have "s1 = s" by auto
    with True t ih q show ?thesis by auto
  next
    case False
    from take_some [OF Cons.prems(1) n t(1) False] have
      h: "held r n \<subseteq> {j. avail s j}" "{j. avail s1 j} = {j. avail s j} - held r n" by auto
    have "(held r n # rs) ! a \<inter> (held r n # rs) ! b = {}"
      if "a < b" "b < length (held r n # rs)" for a b
    proof (cases a)
      case 0
      with that have "(held r n # rs) ! b \<in> set rs" by (cases b) auto
      with 0 ih(3) h(2) show ?thesis by auto
    next
      case (Suc a')
      with that ih(5) show ?thesis by (cases b) auto
    qed
    moreover have "take_all s (q # reqs) = Some (held r n # rs, s2)"
      using t ih q False by simp
    ultimately show ?thesis using ih h by (intro exI [of _ "held r n # rs"] exI [of _ s2]) auto
  qed
qed

end

definition free_at :: "bool \<Rightarrow> BITMAP \<Rightarrow> nat \<Rightarrow> bool" where
  "free_at b bm k \<longleftrightarrow> k < unat (BitCount bm) \<and> bit_at bm k = b"

lemma free_at_ChangeBits:
  assumes "unat Index + unat n \<le> unat (BitCount bm)"
  shows "free_at b (bm\<lparr>Bytes := BitmapChangeBits (Bytes bm) Index c n\<rparr>) k \<longleftrightarrow>
    (if unat Index \<le> k \<and> k < unat Index + unat n then c = b else free_at b bm k)"
proof (cases "k < unat (BitCount bm)")
  case True
  then have "k < 2 ^ 32" using unat_less_2p [of "BitCount bm"] by simp
  moreover have "unat Index + unat n \<le> 2 ^ 32"
    using assms unat_less_2p [of "BitCount bm"] by simp
  ultimately show ?thesis using True bit_at_ChangeBits [of Index n k] by (auto simp: free_at_def)
next
  case False
  with assms show ?thesis by (auto simp: free_at_def)
qed

lemma run_at_free:
  assumes "k + n \<le> unat (BitCount bm)"
  shows "run_at bm b k n \<longleftrightarrow> (\<forall>j. k \<le> j \<and> j < k + n \<longrightarrow> free_at b bm j)"
  using assms by (auto simp: run_at_def free_at_def)

lemma BitmapScanFromAndFlip_take:
  assumes "usable bm" and "n \<noteq> 0" and "unat start \<le> unat (BitCount bm)"
  shows "\<exists>r bm'. BitmapScanFromAndFlip bm start n b = Some (r, bm') \<and> usable bm' \<and>
    unat (BitCount bm') = unat (BitCount bm) \<and>
    (if r = MAX_DWORD
     then bm' = bm \<and> (\<forall>k. unat start \<le> k \<and> k + unat n \<le> unat (BitCount bm) \<longrightarrow>
       (\<exists>j. k \<le> j \<and> j < k + unat n \<and> \<not> free_at b bm j))
     else unat start \<le> unat r \<and> unat r + unat n \<le> unat (BitCount bm) \<and>
       (\<forall>j. unat r \<le> j \<and> j < unat r + unat n \<longrightarrow> free_at b bm j) \<and>
       (\<forall>k. unat start \<le> k \<and> k < unat r \<longrightarrow> (\<exists>j. k \<le> j \<and> j < k + unat n \<and> \<not> free_at b bm j)) \<and>
       (\<forall>j. free_at b bm' j \<longleftrightarrow> free_at b bm j \<and> \<not> (unat r \<le> j \<and> j < unat r + unat n)))"
proof -
  have sle: "start \<le> BitCount bm" using assms(3) by (simp add: word_le_nat_alt)
  obtain r where r: "BitmapScanInternal bm start (BitCount bm) n b = Some r" and
    ok: "if r = MAX_DWORD
     then \<forall>k. unat start \<le> k \<and> k + unat n \<le> unat (BitCount bm) \<longrightarrow> \<not> run_at bm b k (unat n)
     else unat start \<le> unat r \<and> unat r + unat n \<le> unat (BitCount bm) \<and> run_at bm b (unat r) (unat n) \<and>
       (\<forall>k. unat start \<le> k \<and> k < unat r \<longrightarrow> \<not> run_at bm b k (unat n))"
    using BitmapScanInternal_correct [OF assms(2) sle order_refl assms(1), of b] by blast
  show ?thesis
  proof (cases "r = MAX_DWORD")
    case True
    then have "BitmapScanFromAndFlip bm start n b = Some (MAX_DWORD, bm)"
      using r sle assms(2) by (simp add: BitmapScanFromAndFlip_def BitmapScanFromToAndFlip_def)
    then show ?thesis using True ok assms(1) by (auto simp: run_at_free)
  next
    case False
    let ?bm = "bm\<lparr>Bytes := BitmapChangeBits (Bytes bm) r (\<not> b) n\<rparr>"
    have "BitmapScanFromAndFlip bm start n b = Some (r, ?bm)"
      using False r sle assms(2) by (simp add: BitmapScanFromAndFlip_def BitmapScanFromToAndFlip_def)
    moreover have "\<forall>j. free_at b ?bm j \<longleftrightarrow> free_at b bm j \<and> \<not> (unat r \<le> j \<and> j < unat r + unat n)"
      using False ok by (simp add: free_at_ChangeBits)
    moreover have "\<forall>k. unat start \<le> k \<and> k < unat r \<longrightarrow> (\<exists>j. k \<le> j \<and> j < k + unat n \<and> \<not> free_at b bm j)"
      using False ok by (auto simp: run_at_free)
    ultimately show ?thesis
      using False ok assms(1) by (auto simp: run_at_free usable_def)
  qed
qed

lemma BitmapSetBitsValue_give:
  assumes "usable bm" and "n \<noteq> 0" and "unat k + unat n \<le> unat (BitCount bm)"
  shows "\<exists>bm'. BitmapSetBitsValue bm k n b = Some bm' \<and> usable bm' \<and>
    unat (BitCount bm') = unat (BitCount bm) \<and>
    (\<forall>j. free_at b bm' j \<longleftrightarrow> free_at b bm j \<or> (unat k \<le> j \<and> j < unat k + unat n))"
proof -
  have "0 < unat n" using assms(2) by (simp add: unat_gt_0)
  then have "k < BitCount bm" "k \<le> BitCount bm - n"
    using assms(3) by (simp_all add: word_less_nat_alt word_le_nat_alt unat_sub)
  then have "BitmapSetBitsValue bm k n b = Some (bm\<lparr>Bytes := BitmapChangeBits (Bytes bm) k b n\<rparr>)"
    using assms(1) by (simp add: BitmapSetBitsValue_def usable_def)
  then show ?thesis using assms by (auto simp: free_at_ChangeBits usable_def)
qed

interpretation ba: range_allocator usable "\<lambda>bm. unat (BitCount bm)" "free_at b"
  "\<lambda>bm start n. BitmapScanFromAndFlip bm start n b" "\<lambda>bm k n. BitmapSetBitsValue bm k n b" MAX_DWORD
  for b
proof (unfold_locales, goal_cases)
  case (1 bm n start)
  then show ?case by (rule BitmapScanFromAndFlip_take)
next
  case (2 bm n k)
  then show ?case by (rule BitmapSetBitsValue_give)
next
  case (3 bm j)
  then show ?case by (simp add: free_at_def)
qed

text \<open>A fresh bitmap of \<open>N\<close> clear bits, as its clients set it up.\<close>

lemma fresh_bitmap:
  assumes "N \<noteq> 0" and "addr \<noteq> NULL"
  shows "\<exists>sz bm bm'. BitmapPreinit bm0 N = Some (sz, bm) \<and> BitmapInitEx bm addr False = Some bm' \<and>
    usable bm' \<and> BitmapBuffer bm' = addr \<and> BitCount bm' = N \<and> unat sz = (unat N + 7) div 8 \<and> (\<forall>k < unat N. \<not> bit_at bm' k)"
proof -
  let ?sz = "ucast (AlignAddressUpper (ucast N) 8 div 8) :: DWORD"
  have up: "unat (ucast N :: QWORD) = unat N" by (rule unat_ucast_up) simp
  have N: "unat N < 2 ^ 32" using unat_less_2p [of N] by simp
  have "unat (ucast N + 7 :: QWORD) = unat N + 7"
    using N up by (subst unat_plus_if') simp
  moreover have "AlignAddressUpper (ucast N) 8 = (ucast N + 7) AND NOT (mask 3)"
    by (simp add: AlignAddressUpper_def mask_eq_exp_minus_1 add.commute)
  ultimately have al: "unat (AlignAddressUpper (ucast N) 8) = (unat N + 7) div 8 * 8"
    by (simp add: unat_and_not_mask)
  have sz: "unat ?sz = (unat N + 7) div 8"
    using N by (subst unat_ucast_down) (simp_all add: unat_div al)
  have clear: "\<not> bit_at \<lparr>BitmapBuffer = addr, BufferSize = ?sz, BitCount = N,
      Bytes = (\<lambda>i. if i < ?sz then 0 else by i)\<rparr> k" if "k < unat N" for k "by"
  proof -
    have "unat (of_nat k div 8 :: DWORD) = k div 8"
      using that N by (simp add: unat_div unat_of_nat_small)
    then have "of_nat k div 8 < ?sz" using that sz by (simp add: word_less_nat_alt)
    then show ?thesis by (simp add: bit_at_def BitmapGetBit_bit)
  qed
  have "BitmapPreinit bm0 N = Some (?sz, bm0\<lparr>BitmapBuffer := NULL, BufferSize := ?sz, BitCount := N\<rparr>)"
    using assms by (simp add: BitmapPreinit_def)
  moreover have "BitmapInitEx (bm0\<lparr>BitmapBuffer := NULL, BufferSize := ?sz, BitCount := N\<rparr>) addr False =
      Some \<lparr>BitmapBuffer = addr, BufferSize = ?sz, BitCount = N,
            Bytes = (\<lambda>i. if i < ?sz then 0 else Bytes bm0 i)\<rparr>"
    using assms by (cases bm0) (simp add: BitmapInitEx_def cong: if_cong)
  ultimately show ?thesis using assms clear sz by (simp add: usable_def)
qed

section \<open>Properties\<close>

text \<open>
  Writing a range of bits changes exactly the bits of the range: afterwards every index of
  the bitmap reads the written value inside the range and its old value outside, also where the
  range starts or ends in the middle of a byte.
\<close>

theorem BitmapSetBitsValue_get:
  assumes "BitmapBuffer bm \<noteq> NULL" and "n \<noteq> 0" and "unat i + unat n \<le> unat (BitCount bm)"
    and "k < BitCount bm"
  shows "\<exists>bm'. BitmapSetBitsValue bm i n b = Some bm' \<and> BitCount bm' = BitCount bm \<and>
    BitmapGetBitValue bm' k =
      (if unat i \<le> unat k \<and> unat k < unat i + unat n then Some b else BitmapGetBitValue bm k)"
proof -
  have "0 < unat n" using assms(2) by (simp add: unat_gt_0)
  then have "i < BitCount bm" "i \<le> BitCount bm - n"
    using assms(3) by (simp_all add: word_less_nat_alt word_le_nat_alt unat_sub)
  then have "BitmapSetBitsValue bm i n b = Some (bm\<lparr>Bytes := BitmapChangeBits (Bytes bm) i b n\<rparr>)"
    using assms(1) by (simp add: BitmapSetBitsValue_def)
  moreover have "unat i + unat n \<le> 2 ^ 32"
    using assms(3) unat_less_2p [of "BitCount bm"] by simp
  moreover have "unat k < 2 ^ 32" using unat_less_2p [of k] by simp
  ultimately show ?thesis
    using assms(1,4) bit_at_ChangeBits [of i n "unat k" bm b]
    by (simp add: BitmapGetBitValue_def bit_at_def)
qed

definition small_bitmap :: BITMAP where
  "small_bitmap = \<lparr>BitmapBuffer = 0x1000, BufferSize = 3, BitCount = 20, Bytes = (\<lambda>_. 0)\<rparr>"

theorem BitmapSetBitsValue_get_witness:
  "\<exists>bm'. BitmapSetBitsValue small_bitmap 6 5 True = Some bm' \<and> BitCount bm' = 20 \<and>
     BitmapGetBitValue bm' 10 = Some True"
  using BitmapSetBitsValue_get [of small_bitmap 5 6 10 True]
  by (simp add: small_bitmap_def)

text \<open>
  C2. Scanning for clear (or set) bits and flipping them is a correct first-fit allocation: it
  returns; it answers \<open>MAX_DWORD\<close>, and changes nothing, exactly when no run of the requested
  length exists between the start index and the end of the bitmap; otherwise it answers the
  lowest index at which such a run starts, and flips exactly the bits of this run.
\<close>

theorem BitmapScanFromAndFlip_first_fit:
  assumes "BitmapBuffer bm \<noteq> NULL" and "n \<noteq> 0" and "start \<le> BitCount bm"
  shows "\<exists>r bm'. BitmapScanFromAndFlip bm start n b = Some (r, bm') \<and>
    BitCount bm' = BitCount bm \<and>
    (r = MAX_DWORD \<longrightarrow> bm' = bm) \<and>
    (r = MAX_DWORD \<longleftrightarrow>
      (\<nexists>k. unat start \<le> k \<and> k + unat n \<le> unat (BitCount bm) \<and> run_at bm b k (unat n))) \<and>
    (r \<noteq> MAX_DWORD \<longrightarrow>
      unat r = (LEAST k. unat start \<le> k \<and> k + unat n \<le> unat (BitCount bm) \<and> run_at bm b k (unat n)) \<and>
      (\<forall>j < unat (BitCount bm).
        bit_at bm' j = (if unat r \<le> j \<and> j < unat r + unat n then \<not> b else bit_at bm j)))"
proof -
  have u: "usable bm" using assms(1) by (simp add: usable_def)
  have st: "unat start \<le> unat (BitCount bm)" using assms(3) by (simp add: word_le_nat_alt)
  note take = BitmapScanFromAndFlip_take [OF u assms(2) st, of b]
  let ?fits = "\<lambda>k. unat start \<le> k \<and> k + unat n \<le> unat (BitCount bm) \<and> run_at bm b k (unat n)"
  obtain r bm' where t: "BitmapScanFromAndFlip bm start n b = Some (r, bm')"
      "BitCount bm' = BitCount bm" and
    c: "if r = MAX_DWORD then bm' = bm \<and> (\<forall>k. \<not> ?fits k)
        else ?fits (unat r) \<and> (\<forall>k. unat start \<le> k \<and> k < unat r \<longrightarrow> \<not> ?fits k) \<and>
          (\<forall>j. free_at b bm' j \<longleftrightarrow> free_at b bm j \<and> \<not> (unat r \<le> j \<and> j < unat r + unat n))"
  proof -
    from take obtain r bm' where r: "BitmapScanFromAndFlip bm start n b = Some (r, bm')"
        "unat (BitCount bm') = unat (BitCount bm)" by blast
    from r(2) have "BitCount bm' = BitCount bm" by (simp only: word_unat_eq_iff)
    note r = r(1) this
    show ?thesis
      by (rule that [OF r]) (use take r in \<open>auto simp: run_at_free\<close>)
  qed
  have least: "unat r = (LEAST k. ?fits k)" if "r \<noteq> MAX_DWORD"
    using c that by (intro Least_equality [symmetric]) (auto simp: not_less [symmetric])
  have bits: "bit_at bm' j = (if unat r \<le> j \<and> j < unat r + unat n then \<not> b else bit_at bm j)"
    if "r \<noteq> MAX_DWORD" "j < unat (BitCount bm)" for j
  proof -
    from c that have "free_at b bm' j \<longleftrightarrow> free_at b bm j \<and> \<not> (unat r \<le> j \<and> j < unat r + unat n)"
      by simp
    moreover have "free_at b bm j" if "unat r \<le> j \<and> j < unat r + unat n"
      using c that \<open>r \<noteq> MAX_DWORD\<close> run_at_free [of "unat r" "unat n" bm b] by simp
    ultimately show ?thesis using that t(2) by (auto simp: free_at_def)
  qed
  have fails: "r = MAX_DWORD \<longleftrightarrow> (\<nexists>k. ?fits k)" and same: "r = MAX_DWORD \<longrightarrow> bm' = bm"
    using c by (simp_all split: if_splits) blast
  have flips: "r \<noteq> MAX_DWORD \<longrightarrow> unat r = (LEAST k. ?fits k) \<and> (\<forall>j < unat (BitCount bm).
      bit_at bm' j = (if unat r \<le> j \<and> j < unat r + unat n then \<not> b else bit_at bm j))"
    using least bits by blast
  show ?thesis
    by (rule exI [of _ r], rule exI [of _ bm']) (intro conjI t fails same flips)
qed

theorem BitmapScanFromAndFlip_first_fit_witness:
  "\<exists>r bm'. BitmapScanFromAndFlip small_bitmap 3 9 False = Some (r, bm') \<and> BitCount bm' = 20"
  using BitmapScanFromAndFlip_first_fit [of small_bitmap 9 3 False]
  by (auto simp: small_bitmap_def)

end
