(* ===== verification/Pmm.thy ===== *)
theory Pmm
  imports Bitmap
begin

text \<open>
  The physical memory manager, \<^verbatim>\<open>HAL9000/src/pmm.c\<close>: it reads the firmware's memory map,
  keeps one bit per page frame (set = reserved) and hands out and takes back runs of frames.

  The module's global \<open>m_pmmData\<close> is the record \<open>PMM_DATA\<close>. Every access to the bitmap is
  made between \<open>LockAcquire\<close> and \<open>LockRelease\<close> of \<open>AllocationLock\<close>, so each operation
  is one atomic step and the lock itself is left out. Log messages are left out.
\<close>

section \<open>The state\<close>

record INT15_MEMORY_MAP_ENTRY =
  BaseAddress :: QWORD
  Length :: QWORD
  EntryType :: DWORD
  ExtendedAttributes :: DWORD

record MEMORY_REGION_LIST =
  RegionType :: DWORD
  NumberOfEntries :: DWORD

record PMM_DATA =
  HighestPhysicalAddressAvailable :: QWORD
  HighestPhysicalAddressPresent :: QWORD
  PhysicalMemorySize :: QWORD
  MemoryRegionList :: "MEMORY_REGION_LIST list"
  AllocationBitmap :: BITMAP

abbreviation MemoryMapTypeUsableRAM :: DWORD where "MemoryMapTypeUsableRAM \<equiv> 1"
abbreviation MemoryMapTypeMax :: nat where "MemoryMapTypeMax \<equiv> 6"
abbreviation MEMORY_MAP_ENTRY_EA_VALID_ENTRY :: DWORD where "MEMORY_MAP_ENTRY_EA_VALID_ENTRY \<equiv> 1"
abbreviation MB_SIZE :: QWORD where "MB_SIZE \<equiv> 0x100000"

section \<open>Operations\<close>

definition PmmPreinitSystem :: "PMM_DATA \<Rightarrow> PMM_DATA" where
  "PmmPreinitSystem d =
     \<lparr>HighestPhysicalAddressAvailable = 0, HighestPhysicalAddressPresent = 0, PhysicalMemorySize = 0,
      MemoryRegionList =
        map (\<lambda>i. \<lparr>RegionType = (if unat MemoryMapTypeUsableRAM \<le> i then of_nat i else 0),
                  NumberOfEntries = 0\<rparr>) [0..<MemoryMapTypeMax],
      AllocationBitmap = BitmapUninit (AllocationBitmap d)\<rparr>"

definition PmmReserveMemoryEx :: "PMM_DATA \<Rightarrow> DWORD \<Rightarrow> QWORD \<Rightarrow> (QWORD \<times> PMM_DATA) option" where
  "PmmReserveMemoryEx d NoOfFrames MinPhysAddr =
     (if NoOfFrames = 0 then Some (NULL, d)
      else if \<not> IsAddressAligned MinPhysAddr PAGE_SIZE then Some (NULL, d)
      else let startIdx = MinPhysAddr div PAGE_SIZE in
        if startIdx > ucast MAX_DWORD then Some (NULL, d)
        else do {
          (idx, bm) \<leftarrow> BitmapScanFromAndFlip (AllocationBitmap d) (ucast startIdx) NoOfFrames False;
          let d = d\<lparr>AllocationBitmap := bm\<rparr>;
          (if idx = MAX_DWORD then Some (NULL, d) else Some (ucast idx * PAGE_SIZE, d))
        })"

definition PmmReserveMemory :: "PMM_DATA \<Rightarrow> DWORD \<Rightarrow> (QWORD \<times> PMM_DATA) option" where
  "PmmReserveMemory d Frames = PmmReserveMemoryEx d Frames NULL"

definition PmmReleaseMemory :: "PMM_DATA \<Rightarrow> QWORD \<Rightarrow> DWORD \<Rightarrow> PMM_DATA option" where
  "PmmReleaseMemory d PhysicalAddr NoOfFrames = do {
     ASSERT (IsAddressAligned PhysicalAddr PAGE_SIZE);
     let index = PhysicalAddr div PAGE_SIZE;
     ASSERT (index \<le> ucast MAX_DWORD);
     bm \<leftarrow> BitmapSetBitsValue (AllocationBitmap d) (ucast index) NoOfFrames False;
     Some (d\<lparr>AllocationBitmap := bm\<rparr>)
   }"

definition PmmGetTotalSystemMemory :: "PMM_DATA \<Rightarrow> QWORD" where
  "PmmGetTotalSystemMemory d = PhysicalMemorySize d"

definition PmmGetHighestPhysicalMemoryAddressPresent :: "PMM_DATA \<Rightarrow> QWORD" where
  "PmmGetHighestPhysicalMemoryAddressPresent d = HighestPhysicalAddressPresent d"

definition PmmGetHighestPhysicalMemoryAddressAvailable :: "PMM_DATA \<Rightarrow> QWORD" where
  "PmmGetHighestPhysicalMemoryAddressAvailable d = HighestPhysicalAddressAvailable d"

text \<open>
  The loop of \<open>_PmmDetermineMemoryLimits\<close> over the map, with its four accumulators. The code
  indexes \<open>MemoryRegions\<close> by the type field without checking it: a type outside the array
  corrupts whatever follows and is the result \<open>None\<close>.
\<close>

fun limits_loop ::
  "INT15_MEMORY_MAP_ENTRY list \<Rightarrow> QWORD \<Rightarrow> QWORD \<Rightarrow> QWORD \<Rightarrow> MEMORY_REGION_LIST list \<Rightarrow>
     (QWORD \<times> QWORD \<times> QWORD \<times> MEMORY_REGION_LIST list) option" where
  "limits_loop [] sz present available regions = Some (sz, present, available, regions)"
| "limits_loop (e # es) sz present available regions =
     (let memoryType = EntryType e;
          top = BaseAddress e + Length e;
          present = (if top > present then top else present)
      in if \<not> IsBooleanFlagOn (ExtendedAttributes e) MEMORY_MAP_ENTRY_EA_VALID_ENTRY
         then limits_loop es sz present available regions
         else if unat memoryType \<ge> length regions then None
         else let r = regions ! unat memoryType;
                  regions = regions[unat memoryType := r\<lparr>NumberOfEntries := NumberOfEntries r + 1\<rparr>]
           in if MemoryMapTypeUsableRAM \<noteq> memoryType
              then limits_loop es sz present available regions
              else limits_loop es (sz + Length e) present
                     (if top > available then top else available) regions)"

definition PmmDetermineMemoryLimits ::
  "INT15_MEMORY_MAP_ENTRY list \<Rightarrow> MEMORY_REGION_LIST list \<Rightarrow>
     (QWORD \<times> QWORD \<times> QWORD \<times> MEMORY_REGION_LIST list) option" where
  "PmmDetermineMemoryLimits MemoryMap MemoryRegions = do {
     ASSERT (length MemoryMap \<noteq> 0);
     limits_loop MemoryMap 0 0 0 MemoryRegions
   }"

fun release_loop :: "INT15_MEMORY_MAP_ENTRY list \<Rightarrow> PMM_DATA \<Rightarrow> PMM_DATA option" where
  "release_loop [] d = Some d"
| "release_loop (e # es) d =
     (if \<not> IsBooleanFlagOn (ExtendedAttributes e) MEMORY_MAP_ENTRY_EA_VALID_ENTRY then release_loop es d
      else if MemoryMapTypeUsableRAM \<noteq> EntryType e then release_loop es d
      else if BaseAddress e < 1 * MB_SIZE then release_loop es d
      else do {
        let physAddr = AlignAddressUpper (BaseAddress e) PAGE_SIZE;
        let noOfFrames = Length e div PAGE_SIZE;
        ASSERT (noOfFrames \<le> ucast MAX_DWORD);
        d \<leftarrow> PmmReleaseMemory d physAddr (ucast noOfFrames);
        release_loop es d
      })"

definition PmmInitializeAllocationBitmap ::
  "PMM_DATA \<Rightarrow> PVOID \<Rightarrow> QWORD \<Rightarrow> INT15_MEMORY_MAP_ENTRY list \<Rightarrow> (DWORD \<times> PMM_DATA) option" where
  "PmmInitializeAllocationBitmap d CurrentVirtualAddress HighestMemoryAddress MemoryEntries = do {
     ASSERT (CurrentVirtualAddress \<noteq> NULL);
     ASSERT (HighestMemoryAddress \<noteq> 0);
     let noOfPhysicalFrames = HighestMemoryAddress div PAGE_SIZE;
     ASSERT (noOfPhysicalFrames \<le> ucast MAX_DWORD);
     (bitmapSize, bm) \<leftarrow> BitmapPreinit (AllocationBitmap d) (ucast noOfPhysicalFrames);
     bm \<leftarrow> BitmapInitEx bm CurrentVirtualAddress False;
     let d = d\<lparr>AllocationBitmap := bm\<rparr>;
     (_, d) \<leftarrow> PmmReserveMemory d (BitmapGetMaxElementCount bm);
     d \<leftarrow> release_loop MemoryEntries d;
     Some (bitmapSize, d)
   }"

text \<open>
  The memory map and its length are the list of its entries (\<open>None\<close> for a null pointer);
  \<open>SizeReserved\<close> is the address of the result, returned as the second component.
\<close>

definition PmmInitSystem ::
  "PMM_DATA \<Rightarrow> PVOID \<Rightarrow> INT15_MEMORY_MAP_ENTRY list option \<Rightarrow> PVOID \<Rightarrow>
     (STATUS \<times> DWORD \<times> PMM_DATA) option" where
  "PmmInitSystem d BaseAddr MemoryEntries SizeReserved =
     (if BaseAddr = NULL then Some (STATUS_INVALID_PARAMETER1, 0, d)
      else case MemoryEntries of None \<Rightarrow> Some (STATUS_INVALID_PARAMETER2, 0, d)
      | Some entries \<Rightarrow>
        if length entries = 0 then Some (STATUS_INVALID_PARAMETER3, 0, d)
        else if SizeReserved = NULL then Some (STATUS_INVALID_PARAMETER4, 0, d)
        else do {
          (sz, present, available, regions) \<leftarrow> PmmDetermineMemoryLimits entries (MemoryRegionList d);
          let d = d\<lparr>PhysicalMemorySize := sz, HighestPhysicalAddressPresent := present,
                    HighestPhysicalAddressAvailable := available, MemoryRegionList := regions\<rparr>;
          (sizeReserved, d) \<leftarrow>
            PmmInitializeAllocationBitmap d BaseAddr (HighestPhysicalAddressPresent d) entries;
          Some (STATUS_SUCCESS, ucast (AlignAddressUpper (ucast sizeReserved) PAGE_SIZE), d)
        })"

section \<open>The set of free frames\<close>

definition pmm_ok :: "PMM_DATA \<Rightarrow> bool" where
  "pmm_ok d \<longleftrightarrow> usable (AllocationBitmap d)"

definition frames :: "PMM_DATA \<Rightarrow> nat" where
  "frames d = unat (BitCount (AllocationBitmap d))"

definition free_frames :: "PMM_DATA \<Rightarrow> nat set" where
  "free_frames d = {k. free_at False (AllocationBitmap d) k}"

abbreviation frame_of :: "QWORD \<Rightarrow> nat" where
  "frame_of pa \<equiv> unat pa div 4096"

section \<open>Reserving and releasing frames\<close>

lemma frame_start:
  "IsAddressAligned pa PAGE_SIZE \<Longrightarrow> frame_of pa < 2 ^ 32 \<Longrightarrow>
   unat (ucast (pa div PAGE_SIZE) :: DWORD) = frame_of pa \<and> \<not> pa div PAGE_SIZE > ucast MAX_DWORD"
  by (simp add: unat_ucast_mod unat_div word_less_nat_alt word_le_nat_alt)

lemma unat_frame_addr: "unat (ucast (idx :: DWORD) * PAGE_SIZE :: QWORD) = unat idx * 4096"
proof -
  have "unat idx * 4096 < 2 ^ 64" using unat_less_2p [of idx] by simp
  then show ?thesis by (simp add: unat_word_ariths unat_ucast_up)
qed

lemma PmmReserveMemoryEx_scan:
  assumes "n \<noteq> 0" and "IsAddressAligned lo PAGE_SIZE" and "frame_of lo < 2 ^ 32"
  shows "PmmReserveMemoryEx d n lo =
    BitmapScanFromAndFlip (AllocationBitmap d) (ucast (lo div PAGE_SIZE)) n False \<bind> (\<lambda>(idx, bm).
      Some (if idx = MAX_DWORD then NULL else ucast idx * PAGE_SIZE, d\<lparr>AllocationBitmap := bm\<rparr>))"
  using assms frame_start [OF assms(2,3)]
  by (auto simp: PmmReserveMemoryEx_def Let_def intro!: arg_cong2 [where f = Option.bind])

lemma PmmReserveMemoryEx_correct:
  assumes ok: "pmm_ok d" and n: "n \<noteq> 0" and al: "IsAddressAligned lo PAGE_SIZE"
    and le: "frame_of lo \<le> frames d"
  shows "\<exists>pa d'. PmmReserveMemoryEx d n lo = Some (pa, d') \<and> pmm_ok d' \<and> frames d' = frames d \<and>
    ((pa = NULL \<and> d' = d \<and> (\<forall>k \<ge> frame_of lo. \<not> {k ..< k + unat n} \<subseteq> free_frames d)) \<or>
     (IsAddressAligned pa PAGE_SIZE \<and> lo \<le> pa \<and>
      {frame_of pa ..< frame_of pa + unat n} \<subseteq> free_frames d \<and>
      free_frames d' = free_frames d - {frame_of pa ..< frame_of pa + unat n} \<and>
      (\<forall>k. frame_of lo \<le> k \<and> k < frame_of pa \<longrightarrow> \<not> {k ..< k + unat n} \<subseteq> free_frames d)))"
proof -
  let ?bm = "AllocationBitmap d"
  have lt: "frame_of lo < 2 ^ 32"
    using le unat_less_2p [of "BitCount ?bm"] by (simp add: frames_def)
  let ?s = "ucast (lo div PAGE_SIZE) :: DWORD"
  have us: "unat ?s = frame_of lo" using frame_start [OF al lt] by simp
  have inv: "usable ?bm" using ok by (simp add: pmm_ok_def)
  have st: "unat ?s \<le> unat (BitCount ?bm)" using us le by (simp add: frames_def)
  from ba.take_ok [OF inv n st, of False] obtain r bm where
    t: "BitmapScanFromAndFlip ?bm ?s n False = Some (r, bm)" "usable bm"
      "unat (BitCount bm) = unat (BitCount ?bm)" by blast
  have eq: "PmmReserveMemoryEx d n lo =
      Some (if r = MAX_DWORD then NULL else ucast r * PAGE_SIZE, d\<lparr>AllocationBitmap := bm\<rparr>)"
    using PmmReserveMemoryEx_scan [OF n al lt] t(1) by simp
  show ?thesis
  proof (cases "r = MAX_DWORD")
    case True
    have "\<forall>k \<ge> frame_of lo. \<not> {k ..< k + unat n} \<subseteq> free_frames d"
      using ba.take_fail_iff [OF inv n st t(1)] True us by (simp add: free_frames_def)
    moreover have "d\<lparr>AllocationBitmap := bm\<rparr> = d"
      using ba.take_ok [OF inv n st, of False] t(1) True by simp
    ultimately show ?thesis using eq True ok by simp
  next
    case False
    note some = ba.take_some [OF inv n st t(1) False]
    have f: "unat (ucast r * PAGE_SIZE :: QWORD) div 4096 = unat r"
      by (simp add: unat_frame_addr)
    have "IsAddressAligned (ucast r * PAGE_SIZE) PAGE_SIZE"
      by (simp add: IsAddressAligned_page unat_frame_addr)
    moreover have "lo \<le> ucast r * PAGE_SIZE"
    proof -
      have "unat lo = frame_of lo * 4096" using al by (simp add: IsAddressAligned_page)
      then show ?thesis using some us by (simp add: word_le_nat_alt unat_frame_addr)
    qed
    moreover have "\<not> {k ..< k + unat n} \<subseteq> free_frames d" if "frame_of lo \<le> k" "k < unat r" for k
      using ba.take_first [OF inv n st t(1) False, of k] that us by (simp add: free_frames_def)
    ultimately show ?thesis
      using eq False some t
      by (intro exI [of _ "ucast r * PAGE_SIZE"] exI [of _ "d\<lparr>AllocationBitmap := bm\<rparr>"])
        (simp add: f ba.held_def free_frames_def pmm_ok_def frames_def)
  qed
qed

lemma PmmReleaseMemory_correct:
  assumes ok: "pmm_ok d" and al: "IsAddressAligned pa PAGE_SIZE"
    and le: "frame_of pa + unat n \<le> frames d" and lt: "frame_of pa < frames d"
  shows "\<exists>d'. PmmReleaseMemory d pa n = Some d' \<and> pmm_ok d' \<and> frames d' = frames d \<and>
    free_frames d' = free_frames d \<union> {frame_of pa ..< frame_of pa + unat n}"
proof -
  let ?bm = "AllocationBitmap d"
  have f32: "frame_of pa < 2 ^ 32"
    using lt unat_less_2p [of "BitCount ?bm"] by (simp add: frames_def)
  let ?s = "ucast (pa div PAGE_SIZE) :: DWORD"
  have us: "unat ?s = frame_of pa" "pa div PAGE_SIZE \<le> ucast MAX_DWORD"
    using frame_start [OF al f32] by (simp_all add: not_less)
  have inv: "usable ?bm" using ok by (simp add: pmm_ok_def)
  obtain bm where t: "BitmapSetBitsValue ?bm ?s n False = Some bm" "usable bm"
      "unat (BitCount bm) = unat (BitCount ?bm)"
      "{k. free_at False bm k} = {k. free_at False ?bm k} \<union> {frame_of pa ..< frame_of pa + unat n}"
  proof (cases "n = 0")
    case True
    have "?s < BitCount ?bm" using us lt by (simp add: word_less_nat_alt frames_def)
    then have "BitmapSetBitsValue ?bm ?s n False = Some ?bm"
      using True inv
      by (simp add: BitmapSetBitsValue_def usable_def BitmapChangeBits_def change_bits_loop.simps
          ASSERT_def less_imp_le)
    with True inv that show ?thesis by simp
  next
    case False
    with ba.give_ok [OF inv False, of ?s False] le us(1) show ?thesis
      by (auto simp: frames_def set_eq_iff intro: that)
  qed
  have "PmmReleaseMemory d pa n = Some (d\<lparr>AllocationBitmap := bm\<rparr>)"
    using al us(2) t(1) by (simp add: PmmReleaseMemory_def)
  with t show ?thesis by (simp add: pmm_ok_def frames_def free_frames_def)
qed

section \<open>Start-up\<close>

text \<open>
  \<open>usable_ram e\<close>: the entry is valid usable RAM above the first megabyte. \<open>region_frames e\<close>:
  the frames that start-up releases for it.
\<close>

definition usable_ram :: "INT15_MEMORY_MAP_ENTRY \<Rightarrow> bool" where
  "usable_ram e \<longleftrightarrow> IsBooleanFlagOn (ExtendedAttributes e) MEMORY_MAP_ENTRY_EA_VALID_ENTRY \<and>
     EntryType e = MemoryMapTypeUsableRAM \<and> MB_SIZE \<le> BaseAddress e"

definition region_frames :: "INT15_MEMORY_MAP_ENTRY \<Rightarrow> nat set" where
  "region_frames e = (let first = (unat (BaseAddress e) + 4095) div 4096
                      in {first ..< first + unat (Length e) div 4096})"

definition region_fits :: "nat \<Rightarrow> INT15_MEMORY_MAP_ENTRY \<Rightarrow> bool" where
  "region_fits n e \<longleftrightarrow> unat (BaseAddress e) + 4095 < 2 ^ 64 \<and>
     (let first = (unat (BaseAddress e) + 4095) div 4096
      in first < n \<and> first + unat (Length e) div 4096 \<le> n)"

lemma release_loop_correct:
  "pmm_ok d \<Longrightarrow> \<forall>e \<in> set es. usable_ram e \<longrightarrow> region_fits (frames d) e \<Longrightarrow>
   \<exists>d'. release_loop es d = Some d' \<and> pmm_ok d' \<and> frames d' = frames d \<and>
     free_frames d' = free_frames d \<union> (\<Union>e \<in> {e \<in> set es. usable_ram e}. region_frames e) \<and>
     PhysicalMemorySize d' = PhysicalMemorySize d \<and>
     HighestPhysicalAddressPresent d' = HighestPhysicalAddressPresent d \<and>
     HighestPhysicalAddressAvailable d' = HighestPhysicalAddressAvailable d"
proof (induction es arbitrary: d)
  case Nil
  then show ?case by simp
next
  case (Cons e es)
  show ?case
  proof (cases "usable_ram e")
    case False
    then have skip: "release_loop (e # es) d = release_loop es d"
      by (auto simp: usable_ram_def not_less)
    have un: "{x \<in> set (e # es). usable_ram x} = {x \<in> set es. usable_ram x}"
      using False by auto
    show ?thesis
      unfolding skip un by (rule Cons.IH) (use Cons.prems in auto)
  next
    case True
    let ?f = "(unat (BaseAddress e) + 4095) div 4096"
    let ?n = "unat (Length e) div 4096"
    from True Cons.prems(2) have fit: "unat (BaseAddress e) + 4095 < 2 ^ 64" "?f < frames d"
        "?f + ?n \<le> frames d"
      by (auto simp: region_fits_def Let_def)
    let ?pa = "AlignAddressUpper (BaseAddress e) PAGE_SIZE"
    have pa: "frame_of ?pa = ?f" by (simp add: unat_AlignAddressUpper_page [OF fit(1)])
    have n32: "?n < 2 ^ 32"
      using fit(3) unat_less_2p [of "BitCount (AllocationBitmap d)"] by (simp add: frames_def)
    have un: "unat (ucast (Length e div PAGE_SIZE) :: DWORD) = ?n"
      using n32 by (subst unat_ucast_down) (simp_all add: unat_div)
    have le: "Length e div PAGE_SIZE \<le> ucast MAX_DWORD"
      using n32 by (simp add: word_le_nat_alt unat_div)
    obtain d1 where d1: "PmmReleaseMemory d ?pa (ucast (Length e div PAGE_SIZE)) = Some d1"
        "pmm_ok d1" "frames d1 = frames d" "free_frames d1 = free_frames d \<union> region_frames e"
      using PmmReleaseMemory_correct [OF Cons.prems(1), of ?pa "ucast (Length e div PAGE_SIZE)"] fit
      by (auto simp: pa un region_frames_def Let_def)
    have same: "PhysicalMemorySize d1 = PhysicalMemorySize d"
        "HighestPhysicalAddressPresent d1 = HighestPhysicalAddressPresent d"
        "HighestPhysicalAddressAvailable d1 = HighestPhysicalAddressAvailable d"
      using d1(1) by (auto simp: PmmReleaseMemory_def bind_Some_iff Let_def)
    have step: "release_loop (e # es) d = release_loop es d1"
      using True d1(1) le by (auto simp: usable_ram_def not_less)
    have "\<forall>e \<in> set es. usable_ram e \<longrightarrow> region_fits (frames d1) e"
      using Cons.prems(2) d1(3) by simp
    from Cons.IH [OF d1(2) this] obtain d2 where d2:
      "release_loop es d1 = Some d2" "pmm_ok d2" "frames d2 = frames d1"
      "free_frames d2 = free_frames d1 \<union> (\<Union>e \<in> {e \<in> set es. usable_ram e}. region_frames e)"
      "PhysicalMemorySize d2 = PhysicalMemorySize d1"
      "HighestPhysicalAddressPresent d2 = HighestPhysicalAddressPresent d1"
      "HighestPhysicalAddressAvailable d2 = HighestPhysicalAddressAvailable d1" by blast
    have un: "{x \<in> set (e # es). usable_ram x} = insert e {x \<in> set es. usable_ram x}"
      using True by auto
    show ?thesis
      unfolding step un using d2 d1 same by (simp add: Un_assoc)
  qed
qed

definition present_top :: "QWORD \<Rightarrow> INT15_MEMORY_MAP_ENTRY list \<Rightarrow> QWORD" where
  "present_top p es = foldl (\<lambda>m e. max m (BaseAddress e + Length e)) p es"

definition valid_ram :: "INT15_MEMORY_MAP_ENTRY \<Rightarrow> bool" where
  "valid_ram e \<longleftrightarrow> IsBooleanFlagOn (ExtendedAttributes e) MEMORY_MAP_ENTRY_EA_VALID_ENTRY \<and>
     EntryType e = MemoryMapTypeUsableRAM"

lemma present_top_simps [simp]:
  "present_top p [] = p"
  "present_top p (e # es) = present_top (max p (BaseAddress e + Length e)) es"
  by (simp_all add: present_top_def)

lemma limits_loop_correct:
  "\<forall>e \<in> set es. unat (EntryType e) < length regions \<Longrightarrow>
   \<exists>regions'. limits_loop es sz present available regions =
     Some (sz + sum_list (map Length (filter valid_ram es)), present_top present es,
           present_top available (filter valid_ram es), regions') \<and> length regions' = length regions"
proof (induction es arbitrary: sz present available regions)
  case Nil
  then show ?case by simp
next
  case (Cons e es)
  have mx: "(if t > m then t else m) = max m t" for t m :: QWORD
    by (auto simp: max_def)
  let ?t = "BaseAddress e + Length e"
  let ?r = "regions[unat (EntryType e) := (regions ! unat (EntryType e))
    \<lparr>NumberOfEntries := NumberOfEntries (regions ! unat (EntryType e)) + 1\<rparr>]"
  have tl: "\<forall>e \<in> set es. unat (EntryType e) < length regions" "\<forall>e \<in> set es. unat (EntryType e) < length ?r"
    and hd: "\<not> length regions \<le> unat (EntryType e)"
    using Cons.prems by auto
  consider (bad) "\<not> IsBooleanFlagOn (ExtendedAttributes e) MEMORY_MAP_ENTRY_EA_VALID_ENTRY"
    | (other) "IsBooleanFlagOn (ExtendedAttributes e) MEMORY_MAP_ENTRY_EA_VALID_ENTRY"
        "EntryType e \<noteq> MemoryMapTypeUsableRAM"
    | (ram) "IsBooleanFlagOn (ExtendedAttributes e) MEMORY_MAP_ENTRY_EA_VALID_ENTRY"
        "EntryType e = MemoryMapTypeUsableRAM" by blast
  then show ?case
  proof cases
    case bad
    then show ?thesis
      using Cons.IH [OF tl(1), of sz "max present ?t" available]
      by (simp add: Let_def mx valid_ram_def)
  next
    case other
    then show ?thesis
      using Cons.IH [OF tl(2), of sz "max present ?t" available] hd
      by (simp add: Let_def mx valid_ram_def)
  next
    case ram
    then show ?thesis
      using Cons.IH [OF tl(2), of "sz + Length e" "max present ?t" "max available ?t"] hd
      by (simp add: Let_def mx valid_ram_def add.assoc)
  qed
qed

lemma present_top_ge: "q \<le> present_top q es"
proof (induction es arbitrary: q)
  case (Cons e es)
  have "q \<le> max q (BaseAddress e + Length e)" by simp
  also note Cons.IH
  finally show ?case by simp
qed simp

lemma present_top_upper: "e \<in> set es \<Longrightarrow> BaseAddress e + Length e \<le> present_top p es"
proof (induction es arbitrary: p)
  case Nil
  then show ?case by simp
next
  case (Cons a es)
  show ?case
  proof (cases "e = a")
    case True
    have "BaseAddress e + Length e \<le> max p (BaseAddress e + Length e)" by simp
    also have "\<dots> \<le> present_top p (a # es)"
      using True present_top_ge by simp
    finally show ?thesis .
  next
    case False
    with Cons show ?thesis by simp
  qed
qed

lemma present_top_bound:
  "\<forall>e \<in> set es. BaseAddress e + Length e \<le> m \<Longrightarrow> p \<le> m \<Longrightarrow> present_top p es \<le> m"
  by (induction es arbitrary: p) auto

lemma reserve_all:
  assumes "pmm_ok d" and "frames d \<noteq> 0" and "\<forall>k < frames d. \<not> bit_at (AllocationBitmap d) k"
  shows "\<exists>d'. PmmReserveMemory d (BitCount (AllocationBitmap d)) = Some (NULL, d') \<and> pmm_ok d' \<and>
    frames d' = frames d \<and> free_frames d' = {} \<and>
    PhysicalMemorySize d' = PhysicalMemorySize d \<and>
    HighestPhysicalAddressPresent d' = HighestPhysicalAddressPresent d \<and>
    HighestPhysicalAddressAvailable d' = HighestPhysicalAddressAvailable d"
proof -
  let ?N = "BitCount (AllocationBitmap d)"
  have n: "?N \<noteq> 0" using assms(2) by (auto simp: frames_def)
  have free: "free_frames d = {0 ..< frames d}"
    using assms(3) by (auto simp: free_frames_def free_at_def frames_def)
  obtain pa d' where r: "PmmReserveMemoryEx d ?N NULL = Some (pa, d')" "pmm_ok d'" "frames d' = frames d"
    and c: "(pa = NULL \<and> d' = d \<and> (\<forall>k \<ge> 0. \<not> {k ..< k + unat ?N} \<subseteq> free_frames d)) \<or>
     (IsAddressAligned pa PAGE_SIZE \<and> {frame_of pa ..< frame_of pa + unat ?N} \<subseteq> free_frames d \<and>
      free_frames d' = free_frames d - {frame_of pa ..< frame_of pa + unat ?N})"
    using PmmReserveMemoryEx_correct [OF assms(1) n, of NULL] by (auto simp: IsAddressAligned_page)
  have "{0 ..< 0 + unat ?N} \<subseteq> free_frames d" using free by (simp add: frames_def)
  with c have a: "IsAddressAligned pa PAGE_SIZE" "free_frames d' = free_frames d - {frame_of pa ..< frame_of pa + unat ?N}"
    and sub: "{frame_of pa ..< frame_of pa + unat ?N} \<subseteq> {0 ..< unat ?N}"
    using free by (auto simp: frames_def)
  have "0 < unat ?N" using n by (simp add: unat_gt_0)
  with sub have "frame_of pa = 0"
    using subsetD [OF sub, of "frame_of pa + unat ?N - 1"] by auto
  with a have "pa = NULL" by (simp add: IsAddressAligned_page unat_eq_zero dvd_div_eq_0_iff)
  moreover have "free_frames d' = {}" using a free \<open>frame_of pa = 0\<close> by (simp add: frames_def)
  moreover have "PhysicalMemorySize d' = PhysicalMemorySize d \<and>
      HighestPhysicalAddressPresent d' = HighestPhysicalAddressPresent d \<and>
      HighestPhysicalAddressAvailable d' = HighestPhysicalAddressAvailable d"
    using r(1) by (auto simp: PmmReserveMemoryEx_def Let_def bind_Some_iff split: if_splits)
  ultimately show ?thesis using r by (simp add: PmmReserveMemory_def)
qed

lemma PmmInitSystem_correct:
  assumes base: "base \<noteq> NULL" and out: "SizeReserved \<noteq> NULL" and es: "es \<noteq> []"
    and types: "\<forall>e \<in> set es. unat (EntryType e) < length (MemoryRegionList d)"
    and pages: "1 \<le> frame_of (present_top 0 es)" "frame_of (present_top 0 es) < 2 ^ 32"
    and fits: "\<forall>e \<in> set es. usable_ram e \<longrightarrow> region_fits (frame_of (present_top 0 es)) e"
  shows "\<exists>sz d'. PmmInitSystem d base (Some es) SizeReserved = Some (STATUS_SUCCESS, sz, d') \<and>
    pmm_ok d' \<and> frames d' = frame_of (present_top 0 es) \<and>
    free_frames d' = (\<Union>e \<in> {e \<in> set es. usable_ram e}. region_frames e) \<and>
    PhysicalMemorySize d' = sum_list (map Length (filter valid_ram es)) \<and>
    HighestPhysicalAddressPresent d' = present_top 0 es \<and>
    HighestPhysicalAddressAvailable d' = present_top 0 (filter valid_ram es)"
proof -
  let ?hi = "present_top 0 es"
  let ?sz = "sum_list (map Length (filter valid_ram es))"
  let ?av = "present_top 0 (filter valid_ram es)"
  obtain rg where lim: "PmmDetermineMemoryLimits es (MemoryRegionList d) = Some (?sz, ?hi, ?av, rg)"
    using limits_loop_correct [OF types, of 0 0 0] es by (auto simp: PmmDetermineMemoryLimits_def)
  let ?d = "d\<lparr>PhysicalMemorySize := ?sz, HighestPhysicalAddressPresent := ?hi,
              HighestPhysicalAddressAvailable := ?av, MemoryRegionList := rg\<rparr>"
  let ?N = "ucast (?hi div PAGE_SIZE) :: DWORD"
  have uN: "unat ?N = frame_of ?hi"
    using pages(2) by (subst unat_ucast_down) (simp_all add: unat_div)
  have N: "?N \<noteq> 0" using uN pages(1) by (metis not_one_le_zero unat_0)
  have h0: "?hi \<noteq> 0" using pages(1) by (metis div_0 not_one_le_zero unat_0)
  have h32: "?hi div PAGE_SIZE \<le> ucast MAX_DWORD"
    using pages(2) by (simp add: word_le_nat_alt unat_div)
  from fresh_bitmap [OF N base] obtain bsz bm1 bm2 where
    bm: "BitmapPreinit (AllocationBitmap ?d) ?N = Some (bsz, bm1)" "BitmapInitEx bm1 base False = Some bm2"
      "usable bm2" "BitCount bm2 = ?N" "\<forall>k < unat ?N. \<not> bit_at bm2 k" by blast
  let ?d2 = "?d\<lparr>AllocationBitmap := bm2\<rparr>"
  have d2: "pmm_ok ?d2" "frames ?d2 = frame_of ?hi" using bm uN by (simp_all add: pmm_ok_def frames_def)
  have "frames ?d2 \<noteq> 0" "\<forall>k < frames ?d2. \<not> bit_at (AllocationBitmap ?d2) k"
    using d2(2) pages(1) bm(5) uN by simp_all
  from reserve_all [OF d2(1) this] obtain d3 where
    d3: "PmmReserveMemory ?d2 (BitCount bm2) = Some (NULL, d3)" "pmm_ok d3" "frames d3 = frame_of ?hi"
      "free_frames d3 = {}" "PhysicalMemorySize d3 = ?sz" "HighestPhysicalAddressPresent d3 = ?hi"
      "HighestPhysicalAddressAvailable d3 = ?av"
    using d2(2) by auto
  have "\<forall>e \<in> set es. usable_ram e \<longrightarrow> region_fits (frames d3) e" using fits d3(3) by simp
  from release_loop_correct [OF d3(2) this] obtain d4 where
    d4: "release_loop es d3 = Some d4" "pmm_ok d4" "frames d4 = frame_of ?hi"
      "free_frames d4 = (\<Union>e \<in> {e \<in> set es. usable_ram e}. region_frames e)"
      "PhysicalMemorySize d4 = ?sz" "HighestPhysicalAddressPresent d4 = ?hi"
      "HighestPhysicalAddressAvailable d4 = ?av"
    using d3 by auto
  have "PmmInitializeAllocationBitmap ?d base ?hi es = Some (bsz, d4)"
    using base h0 h32 bm(1,2) d3(1) d4(1)
    by (simp add: PmmInitializeAllocationBitmap_def BitmapGetMaxElementCount_def)
  then have "PmmInitSystem d base (Some es) SizeReserved =
      Some (STATUS_SUCCESS, ucast (AlignAddressUpper (ucast bsz) PAGE_SIZE), d4)"
    using base es out lim by (simp add: PmmInitSystem_def)
  with d4 show ?thesis by blast
qed

lemma frame_inside: "k < b + l div 4096 \<longleftrightarrow> (k + 1) * 4096 \<le> 4096 * b + l" for k b l :: nat
proof -
  have "(k + 1) * 4096 \<le> 4096 * b + l \<longleftrightarrow> k + 1 \<le> (4096 * b + l) div 4096"
    by (simp only: less_eq_div_iff_mult_less_eq [of 4096] zero_less_numeral)
  also have "(4096 * b + l) div 4096 = b + l div 4096" by simp
  finally show ?thesis by auto
qed

section \<open>Properties\<close>

text \<open>
  C3. Reserving frames never halts and is a correct first-fit allocation: either it answers NULL,
  changes nothing, and there is no run of that many free frames above the minimum address; or it
  answers a page-aligned address not below the minimum, every frame of the run was free, exactly
  these frames stop being free, and no run that starts between the minimum and the answer was free
  as a whole: it is the lowest one. (Frame 0 is never free after start-up, so NULL is not ambiguous.)
\<close>

theorem PmmReserveMemoryEx_allocates:
  assumes "pmm_ok d" and "0 \<notin> free_frames d" and "n \<noteq> 0" and "IsAddressAligned lo PAGE_SIZE"
    and "frame_of lo \<le> frames d"
  shows "\<exists>pa d'. PmmReserveMemoryEx d n lo = Some (pa, d') \<and> pmm_ok d' \<and> 0 \<notin> free_frames d' \<and>
    (pa = NULL \<longleftrightarrow> (\<forall>k \<ge> frame_of lo. \<not> {k ..< k + unat n} \<subseteq> free_frames d)) \<and>
    (pa = NULL \<longrightarrow> d' = d) \<and>
    (pa \<noteq> NULL \<longrightarrow> IsAddressAligned pa PAGE_SIZE \<and> lo \<le> pa \<and>
      {frame_of pa ..< frame_of pa + unat n} \<subseteq> free_frames d \<and>
      free_frames d' = free_frames d - {frame_of pa ..< frame_of pa + unat n} \<and>
      (\<forall>k. frame_of lo \<le> k \<and> k < frame_of pa \<longrightarrow> \<not> {k ..< k + unat n} \<subseteq> free_frames d))"
proof -
  have np: "0 < unat n" using assms(3) by (simp add: unat_gt_0)
  obtain pa d' where r: "PmmReserveMemoryEx d n lo = Some (pa, d')" "pmm_ok d'" and
    c: "(pa = NULL \<and> d' = d \<and> (\<forall>k \<ge> frame_of lo. \<not> {k ..< k + unat n} \<subseteq> free_frames d)) \<or>
     (IsAddressAligned pa PAGE_SIZE \<and> lo \<le> pa \<and>
      {frame_of pa ..< frame_of pa + unat n} \<subseteq> free_frames d \<and>
      free_frames d' = free_frames d - {frame_of pa ..< frame_of pa + unat n} \<and>
      (\<forall>k. frame_of lo \<le> k \<and> k < frame_of pa \<longrightarrow> \<not> {k ..< k + unat n} \<subseteq> free_frames d))"
    using PmmReserveMemoryEx_correct [OF assms(1,3,4,5)] by blast
  have nz: "pa \<noteq> NULL" if "{frame_of pa ..< frame_of pa + unat n} \<subseteq> free_frames d"
    using that assms(2) np by auto
  have run: "\<not> (\<forall>k \<ge> frame_of lo. \<not> {k ..< k + unat n} \<subseteq> free_frames d)"
    if "lo \<le> pa" "{frame_of pa ..< frame_of pa + unat n} \<subseteq> free_frames d"
    using that by (auto simp: word_le_nat_alt intro: div_le_mono)
  from c show ?thesis
  proof
    assume "pa = NULL \<and> d' = d \<and> (\<forall>k \<ge> frame_of lo. \<not> {k ..< k + unat n} \<subseteq> free_frames d)"
    with r assms(2) show ?thesis by blast
  next
    assume *: "IsAddressAligned pa PAGE_SIZE \<and> lo \<le> pa \<and>
      {frame_of pa ..< frame_of pa + unat n} \<subseteq> free_frames d \<and>
      free_frames d' = free_frames d - {frame_of pa ..< frame_of pa + unat n} \<and>
      (\<forall>k. frame_of lo \<le> k \<and> k < frame_of pa \<longrightarrow> \<not> {k ..< k + unat n} \<subseteq> free_frames d)"
    then have "pa \<noteq> NULL" using nz by blast
    moreover have "0 \<notin> free_frames d'" using * assms(2) by blast
    ultimately show ?thesis using r * run by blast
  qed
qed

definition demo_pmm :: PMM_DATA where
  "demo_pmm = \<lparr>HighestPhysicalAddressAvailable = 0, HighestPhysicalAddressPresent = 0,
     PhysicalMemorySize = 0,
     MemoryRegionList = replicate MemoryMapTypeMax \<lparr>RegionType = 0, NumberOfEntries = 0\<rparr>,
     AllocationBitmap = \<lparr>BitmapBuffer = 0x5000, BufferSize = 3, BitCount = 24,
                          Bytes = (\<lambda>i. if i = 0 then 0xFF else 0)\<rparr>\<rparr>"

lemma demo_pmm_ok: "pmm_ok demo_pmm" "0 \<notin> free_frames demo_pmm" "frames demo_pmm = 24"
  by (simp_all add: demo_pmm_def pmm_ok_def usable_def free_frames_def free_at_def frames_def
      bit_at_def BitmapGetBit_def IsBooleanFlagOn_def)

theorem PmmReserveMemoryEx_allocates_witness:
  "\<exists>pa d'. PmmReserveMemoryEx demo_pmm 5 0x2000 = Some (pa, d') \<and> pmm_ok d' \<and> 0 \<notin> free_frames d'"
  using PmmReserveMemoryEx_allocates [OF demo_pmm_ok(1,2), of 5 "0x2000"]
  by (auto simp: demo_pmm_ok IsAddressAligned_page)

text \<open>
  Releasing what was reserved never halts and restores the set of free frames.
\<close>

theorem Pmm_reserve_release:
  assumes "pmm_ok d" and "n \<noteq> 0" and "IsAddressAligned lo PAGE_SIZE" and "frame_of lo \<le> frames d"
    and "PmmReserveMemoryEx d n lo = Some (pa, d1)" and "pa \<noteq> NULL"
  shows "\<exists>d2. PmmReleaseMemory d1 pa n = Some d2 \<and> pmm_ok d2 \<and> free_frames d2 = free_frames d"
proof -
  from PmmReserveMemoryEx_correct [OF assms(1-4)] assms(5,6) have
    r: "pmm_ok d1" "frames d1 = frames d" "IsAddressAligned pa PAGE_SIZE"
      "{frame_of pa ..< frame_of pa + unat n} \<subseteq> free_frames d"
      "free_frames d1 = free_frames d - {frame_of pa ..< frame_of pa + unat n}" by auto
  have np: "0 < unat n" using assms(2) by (simp add: unat_gt_0)
  have bound: "k < frames d" if "k \<in> free_frames d" for k
    using that by (simp add: free_frames_def free_at_def frames_def)
  have "frame_of pa \<in> free_frames d" "frame_of pa + unat n - 1 \<in> free_frames d"
    using r(4) np by (auto intro!: subsetD [OF r(4)])
  with bound np have "frame_of pa < frames d1" "frame_of pa + unat n \<le> frames d1"
    using r(2) by (force, force)
  from PmmReleaseMemory_correct [OF r(1,3) this(2,1)] r(4,5) show ?thesis by auto
qed

theorem Pmm_reserve_release_witness:
  "\<exists>d1 d2. PmmReserveMemoryEx demo_pmm 5 0x2000 = Some (0x8000, d1) \<and>
     PmmReleaseMemory d1 0x8000 5 = Some d2 \<and> free_frames d2 = free_frames demo_pmm"
proof -
  have "\<exists>d1. PmmReserveMemoryEx demo_pmm 5 0x2000 = Some (0x8000, d1)"
    by (simp add: PmmReserveMemoryEx_def IsAddressAligned_def demo_pmm_def BitmapScanFromAndFlip_def
        BitmapScanFromToAndFlip_def BitmapScanInternal_def scan_loop.simps scan_run.simps
        BitmapGetBit_def IsBooleanFlagOn_def)
  then obtain d1 where "PmmReserveMemoryEx demo_pmm 5 0x2000 = Some (0x8000, d1)" by blast
  with Pmm_reserve_release [OF demo_pmm_ok(1), of 5 "0x2000" "0x8000" d1] show ?thesis
    by (auto simp: demo_pmm_ok IsAddressAligned_page)
qed


definition demo_map :: "INT15_MEMORY_MAP_ENTRY list" where
  "demo_map = [\<lparr>BaseAddress = 0, Length = 0x9FC00, EntryType = 1, ExtendedAttributes = 1\<rparr>,
               \<lparr>BaseAddress = 0x100000, Length = 0x300800, EntryType = 1, ExtendedAttributes = 1\<rparr>,
               \<lparr>BaseAddress = 0x500000, Length = 0x1000, EntryType = 2, ExtendedAttributes = 1\<rparr>]"


text \<open>
  Without the alignment hypothesis this fails: the start of a region is rounded up, but the number
  of its frames is not recomputed, so a region that starts inside a page releases a frame that it
  does not contain completely.
\<close>

definition unaligned_region :: INT15_MEMORY_MAP_ENTRY where
  "unaligned_region =
     \<lparr>BaseAddress = 0x100800, Length = 0x1000, EntryType = 1, ExtendedAttributes = 1\<rparr>"

lemma unaligned_region_overshoots:
  "usable_ram unaligned_region \<and> 0x101 \<in> region_frames unaligned_region \<and>
   unat (BaseAddress unaligned_region) + unat (Length unaligned_region) < (0x101 + 1) * 4096"
  by (simp add: unaligned_region_def usable_ram_def region_frames_def IsBooleanFlagOn_def)

end
