(* ===== verification/VmReservation.thy ===== *)
theory VmReservation
  imports Bitmap "HOL-Library.Signed_Division"
begin

text \<open>
  Virtual memory reservations, \<^verbatim>\<open>HAL9000/src/vm_reservation_space.c\<close>: a growing array of
  reservations, each an address range with its rights and a bitmap of its committed pages.

  The array behind \<open>ReservationList\<close> is the function \<open>Entries\<close>; entry \<open>i\<close> lies at
  address \<open>ReservationList + 56 * i\<close> and the loops stop at \<open>BitmapAddressStart\<close> as in the
  code. All operations hold \<open>ReservationLock\<close> for the whole access, so each is one atomic step
  and the lock is left out. The current CPU's \<open>VmmMemoryAccess\<close> flag is passed as
  \<open>pCpu\<close> (\<open>None\<close> when there is no PCPU yet). The calls that leave the module when a
  reservation is released are returned as a list of effects.
\<close>

section \<open>The state\<close>

datatype VMM_RESERVATION_STATE =
  VmmReservationStateFree | VmmReservationStateUsed | VmmReservationStateLast

record VMM_RESERVATION =
  StartVa :: PVOID
  Size :: QWORD
  PageRights :: DWORD
  State :: VMM_RESERVATION_STATE
  Uncacheable :: bool
  BackingFile :: PVOID
  CommitBitmap :: BITMAP

record VMM_RESERVATION_SPACE =
  FreeVirtualAddressPointer :: PVOID
  StartOfVirtualAddressSpace :: PVOID
  BitmapAddressStart :: PVOID
  ReservedAreaSize :: QWORD
  FreeBitmapAddress :: PVOID
  ReservationList :: PVOID
  Entries :: "nat \<Rightarrow> VMM_RESERVATION"

datatype vm_effect = MmuUnmapMemoryEx PVOID DWORD | IoCloseFile PVOID

abbreviation sizeof_VMM_RESERVATION :: nat where "sizeof_VMM_RESERVATION \<equiv> 56"

abbreviation PAGE_RIGHTS_WRITE :: DWORD where "PAGE_RIGHTS_WRITE \<equiv> 1"
abbreviation PAGE_RIGHTS_EXECUTE :: DWORD where "PAGE_RIGHTS_EXECUTE \<equiv> 2"
abbreviation PAGE_RIGHTS_READWRITE :: DWORD where "PAGE_RIGHTS_READWRITE \<equiv> 1"
abbreviation VMM_ALLOC_TYPE_RESERVE :: DWORD where "VMM_ALLOC_TYPE_RESERVE \<equiv> 1"
abbreviation VMM_ALLOC_TYPE_COMMIT :: DWORD where "VMM_ALLOC_TYPE_COMMIT \<equiv> 2"
abbreviation VMM_FREE_TYPE_DECOMMIT :: DWORD where "VMM_FREE_TYPE_DECOMMIT \<equiv> 1"
abbreviation VMM_FREE_TYPE_RELEASE :: DWORD where "VMM_FREE_TYPE_RELEASE \<equiv> 2"

definition in_list :: "VMM_RESERVATION_SPACE \<Rightarrow> nat \<Rightarrow> bool" where
  "in_list rs i \<longleftrightarrow>
     unat (ReservationList rs) + sizeof_VMM_RESERVATION * i < unat (BitmapAddressStart rs)"

definition set_entry :: "nat \<Rightarrow> VMM_RESERVATION \<Rightarrow> VMM_RESERVATION_SPACE \<Rightarrow> VMM_RESERVATION_SPACE" where
  "set_entry i r rs = rs\<lparr>Entries := (Entries rs)(i := r)\<rparr>"

section \<open>Operations\<close>

definition CalculatePercentage :: "QWORD \<Rightarrow> WORD \<Rightarrow> QWORD option" where
  "CalculatePercentage WholeValue HundredsOfPercentage = do {
     ASSERT (HundredsOfPercentage \<le> 10000);
     ASSERT (HundredsOfPercentage \<noteq> 0 \<and> MAX_QWORD div ucast HundredsOfPercentage \<ge> WholeValue);
     Some (WholeValue * ucast HundredsOfPercentage div 10000)
   }"

definition VmReservationSpaceInit ::
  "PVOID \<Rightarrow> PVOID \<Rightarrow> QWORD \<Rightarrow> VMM_RESERVATION_SPACE \<Rightarrow> VMM_RESERVATION_SPACE option" where
  "VmReservationSpaceInit ReservationMetadataBaseAddress ReservationBaseAddress ReservationMetadataSize rs = do {
     ASSERT (ReservationMetadataBaseAddress \<noteq> NULL);
     ASSERT (IsAddressAligned ReservationMetadataBaseAddress PAGE_SIZE);
     ASSERT (ReservationMetadataSize \<noteq> 0);
     sizeForReservationList \<leftarrow> CalculatePercentage ReservationMetadataSize 2000;
     let rs = rs\<lparr>ReservationList := ReservationMetadataBaseAddress\<rparr>;
     let rs = rs\<lparr>BitmapAddressStart := ReservationMetadataBaseAddress + sizeForReservationList\<rparr>;
     let rs = rs\<lparr>FreeBitmapAddress := BitmapAddressStart rs\<rparr>;
     let rs = rs\<lparr>FreeVirtualAddressPointer :=
       (if ReservationBaseAddress = NULL then ReservationMetadataBaseAddress + ReservationMetadataSize
        else ReservationBaseAddress)\<rparr>;
     let rs = rs\<lparr>StartOfVirtualAddressSpace := FreeVirtualAddressPointer rs\<rparr>;
     Some (rs\<lparr>ReservedAreaSize := ReservationMetadataSize\<rparr>)
   }"

definition VmReservationSpaceFinishInit :: "VMM_RESERVATION_SPACE \<Rightarrow> VMM_RESERVATION_SPACE" where
  "VmReservationSpaceFinishInit rs =
     set_entry 0 ((Entries rs 0)\<lparr>State := VmmReservationStateLast\<rparr>) rs"

definition VmReservationSpaceDetermineNextFreeVirtualAddress ::
  "VMM_RESERVATION_SPACE \<Rightarrow> QWORD \<Rightarrow> PVOID \<times> VMM_RESERVATION_SPACE" where
  "VmReservationSpaceDetermineNextFreeVirtualAddress rs sz =
     (FreeVirtualAddressPointer rs, rs\<lparr>FreeVirtualAddressPointer := FreeVirtualAddressPointer rs + sz\<rparr>)"

function find_loop :: "VMM_RESERVATION_SPACE \<Rightarrow> PVOID \<Rightarrow> QWORD \<Rightarrow> nat \<Rightarrow> nat option" where
  "find_loop rs Address sz i =
     (if State (Entries rs i) \<noteq> VmmReservationStateLast \<and> in_list rs i then
        (if State (Entries rs i) = VmmReservationStateFree then find_loop rs Address sz (i + 1)
         else if CHECK_BOUNDS Address sz (StartVa (Entries rs i)) (Size (Entries rs i)) then Some i
         else find_loop rs Address sz (i + 1))
      else None)"
  by pat_completeness auto
termination
  by (relation "measure (\<lambda>(rs, a, sz, i). unat (BitmapAddressStart rs) - sizeof_VMM_RESERVATION * i)")
    (auto simp: in_list_def)

declare find_loop.simps [simp del]

definition VmFindReservation ::
  "VMM_RESERVATION_SPACE \<Rightarrow> PVOID \<Rightarrow> QWORD \<Rightarrow> (STATUS \<times> nat option) option" where
  "VmFindReservation rs Address sz = do {
     ASSERT (Address \<noteq> NULL);
     ASSERT (sz \<noteq> 0);
     (case find_loop rs Address sz 0 of
        None \<Rightarrow> Some (STATUS_ELEMENT_NOT_FOUND, None)
      | Some i \<Rightarrow> Some (STATUS_SUCCESS, Some i))
   }"

definition VmInitializeReservation ::
  "VMM_RESERVATION_SPACE \<Rightarrow> PVOID \<Rightarrow> QWORD \<Rightarrow> DWORD \<Rightarrow> bool \<Rightarrow> PVOID \<Rightarrow> nat \<Rightarrow>
     VMM_RESERVATION_SPACE option" where
  "VmInitializeReservation rs Address sz Rights Uncach FileObject i = do {
     ASSERT (Address \<noteq> NULL);
     ASSERT (sz \<noteq> 0);
     ASSERT (IsAddressAligned Address PAGE_SIZE);
     ASSERT (IsAddressAligned sz PAGE_SIZE);
     let noOfPages = sz div PAGE_SIZE;
     let r = (Entries rs i)\<lparr>State := VmmReservationStateUsed, StartVa := Address, Size := sz,
                            PageRights := Rights, Uncacheable := Uncach, BackingFile := FileObject\<rparr>;
     ASSERT (noOfPages \<le> ucast MAX_DWORD);
     (bitmapSize, bm) \<leftarrow> BitmapPreinit (CommitBitmap r) (ucast noOfPages);
     ASSERT (bitmapSize \<noteq> 0);
     ASSERT (IsAddressAligned (FreeBitmapAddress rs) PAGE_SIZE);
     bm \<leftarrow> BitmapInitEx bm (FreeBitmapAddress rs) False;
     ASSERT (CHECK_BOUNDS (FreeBitmapAddress rs) (AlignAddressUpper (ucast bitmapSize) PAGE_SIZE)
                          (ReservationList rs) (ReservedAreaSize rs));
     let rs = set_entry i (r\<lparr>CommitBitmap := bm\<rparr>) rs;
     Some (rs\<lparr>FreeBitmapAddress := FreeBitmapAddress rs + AlignAddressUpper (ucast bitmapSize) PAGE_SIZE\<rparr>)
   }"

function first_free_loop :: "VMM_RESERVATION_SPACE \<Rightarrow> nat \<Rightarrow> nat option \<times> VMM_RESERVATION_SPACE" where
  "first_free_loop rs i =
     (if in_list rs i then
        (if State (Entries rs i) = VmmReservationStateFree then (Some i, rs)
         else if State (Entries rs i) = VmmReservationStateLast then
           (let rs = set_entry i ((Entries rs i)\<lparr>State := VmmReservationStateFree\<rparr>) rs;
                rs = set_entry (i + 1) ((Entries rs (i + 1))\<lparr>State := VmmReservationStateLast\<rparr>) rs
            in (Some i, rs))
         else first_free_loop rs (i + 1))
      else (None, rs))"
  by pat_completeness auto
termination
  by (relation "measure (\<lambda>(rs, i). unat (BitmapAddressStart rs) - sizeof_VMM_RESERVATION * i)")
    (auto simp: in_list_def)

declare first_free_loop.simps [simp del]

definition VmFindFirstFreeReservation ::
  "VMM_RESERVATION_SPACE \<Rightarrow> nat option \<times> VMM_RESERVATION_SPACE" where
  "VmFindFirstFreeReservation rs = first_free_loop rs 0"

definition page_index :: "PVOID \<Rightarrow> PVOID \<Rightarrow> QWORD" where
  "page_index Address Start = word_of_int (sint (Address - Start) sdiv 4096)"

definition VmCommitReservation :: "PVOID \<Rightarrow> QWORD \<Rightarrow> VMM_RESERVATION \<Rightarrow> VMM_RESERVATION option" where
  "VmCommitReservation Address sz r = do {
     ASSERT (Address \<noteq> NULL);
     ASSERT (sz \<noteq> 0);
     ASSERT (IsAddressAligned Address PAGE_SIZE);
     ASSERT (IsAddressAligned sz PAGE_SIZE);
     let noOfPages = sz div PAGE_SIZE;
     let startIndex = page_index Address (StartVa r);
     ASSERT (noOfPages \<le> ucast MAX_DWORD);
     ASSERT (startIndex \<le> ucast MAX_DWORD);
     bm \<leftarrow> BitmapSetBitsValue (CommitBitmap r) (ucast startIndex) (ucast noOfPages) True;
     Some (r\<lparr>CommitBitmap := bm\<rparr>)
   }"

definition VmDecommitReservation :: "PVOID \<Rightarrow> QWORD \<Rightarrow> VMM_RESERVATION \<Rightarrow> VMM_RESERVATION option" where
  "VmDecommitReservation Address sz r = do {
     ASSERT (Address \<noteq> NULL);
     ASSERT (sz \<noteq> 0);
     ASSERT (IsAddressAligned Address PAGE_SIZE);
     ASSERT (IsAddressAligned sz PAGE_SIZE);
     let noOfPages = sz div PAGE_SIZE;
     let startIndex = page_index Address (StartVa r);
     ASSERT (noOfPages \<le> ucast MAX_DWORD);
     ASSERT (startIndex \<le> ucast MAX_DWORD);
     bm \<leftarrow> BitmapSetBitsValue (CommitBitmap r) (ucast startIndex) (ucast noOfPages) False;
     Some (r\<lparr>CommitBitmap := bm\<rparr>)
   }"

definition VmIsVaCommited :: "VMM_RESERVATION \<Rightarrow> PVOID \<Rightarrow> bool option" where
  "VmIsVaCommited r Address = do {
     ASSERT (Address \<noteq> NULL);
     let pageNo = page_index Address (StartVa r);
     ASSERT (pageNo \<le> ucast MAX_DWORD);
     BitmapGetBitValue (CommitBitmap r) (ucast pageNo)
   }"

definition VmUninitializeReservation :: "VMM_RESERVATION \<Rightarrow> vm_effect list option" where
  "VmUninitializeReservation r = do {
     let pBitmapBuffer = BitmapBuffer (CommitBitmap r);
     ASSERT (IsAddressAligned pBitmapBuffer PAGE_SIZE);
     let bitmapSize = BufferSize (CommitBitmap r);
     Some (MmuUnmapMemoryEx pBitmapBuffer bitmapSize #
           (if BackingFile r \<noteq> NULL then [IoCloseFile (BackingFile r)] else []))
   }"

definition VmChangeVaReservationState ::
  "VMM_RESERVATION_SPACE \<Rightarrow> PVOID \<Rightarrow> QWORD \<Rightarrow> DWORD \<Rightarrow> DWORD \<Rightarrow> bool \<Rightarrow> PVOID \<Rightarrow>
     (STATUS \<times> VMM_RESERVATION_SPACE) option" where
  "VmChangeVaReservationState rs Address sz AllocationType Rights Uncach FileObject = do {
     ASSERT (Address \<noteq> NULL);
     ASSERT (sz \<noteq> 0);
     ASSERT ((AllocationType = VMM_ALLOC_TYPE_RESERVE) \<noteq> (AllocationType = VMM_ALLOC_TYPE_COMMIT));
     ASSERT (IsAddressAligned Address PAGE_SIZE);
     ASSERT (IsAddressAligned sz PAGE_SIZE);
     (status, found) \<leftarrow> VmFindReservation rs Address sz;
     (if status = STATUS_ELEMENT_NOT_FOUND \<and> AllocationType \<noteq> VMM_ALLOC_TYPE_RESERVE
      then Some (STATUS_MEMORY_IS_NOT_RESERVED, rs)
      else if status \<noteq> STATUS_ELEMENT_NOT_FOUND \<and> SUCCEEDED status \<and>
              AllocationType = VMM_ALLOC_TYPE_RESERVE
      then Some (STATUS_MEMORY_ALREADY_RESERVED, rs)
      else if status \<noteq> STATUS_ELEMENT_NOT_FOUND \<and> \<not> SUCCEEDED status then Some (status, rs)
      else if AllocationType = VMM_ALLOC_TYPE_RESERVE then
        (case VmFindFirstFreeReservation rs of
           (None, rs) \<Rightarrow> None
         | (Some i, rs) \<Rightarrow> do {
             rs \<leftarrow> VmInitializeReservation rs Address sz Rights Uncach FileObject i;
             Some (STATUS_SUCCESS, rs)
           })
      else
        (case found of
           None \<Rightarrow> None
         | Some i \<Rightarrow>
             if PageRights (Entries rs i) \<noteq> Rights
             then Some (STATUS_MEMORY_CONFLICTING_ACCESS_RIGHTS, rs)
             else if Uncacheable (Entries rs i) \<noteq> Uncach
             then Some (STATUS_MEMORY_CONFLICTING_CACHEABILITY, rs)
             else do {
               r \<leftarrow> VmCommitReservation Address sz (Entries rs i);
               Some (STATUS_SUCCESS, set_entry i r rs)
             }))
   }"

text \<open>
  \<open>VmReservationCanAddressBeAccessed\<close> answers the rights, the cacheability, the backing file
  and the file offset when the page fault can be solved, and \<open>None\<close> inside when it cannot.
\<close>

definition VmReservationCanAddressBeAccessed ::
  "VMM_RESERVATION_SPACE \<Rightarrow> bool option \<Rightarrow> PVOID \<Rightarrow> DWORD \<Rightarrow>
     (DWORD \<times> bool \<times> PVOID \<times> QWORD) option option" where
  "VmReservationCanAddressBeAccessed rs pCpu FaultingAddress RightsRequested =
     (if FaultingAddress = NULL then Some None
      else if CHECK_BOUNDS FaultingAddress 1 (ReservationList rs) (ReservedAreaSize rs) then
        (if pCpu \<noteq> Some False then
           (if \<not> IsBooleanFlagOn RightsRequested PAGE_RIGHTS_EXECUTE
            then Some (Some (PAGE_RIGHTS_READWRITE, False, NULL, 0)) else Some None)
         else Some None)
      else do {
        (status, found) \<leftarrow> VmFindReservation rs FaultingAddress 1;
        (case found of
           None \<Rightarrow> Some None
         | Some i \<Rightarrow> do {
             let r = Entries rs i;
             bIsVaCommited \<leftarrow> VmIsVaCommited r FaultingAddress;
             let fileOffset = (if BackingFile r \<noteq> NULL
                               then AlignAddressLower (FaultingAddress - StartVa r) PAGE_SIZE else 0);
             Some (if bIsVaCommited \<and> IsBooleanFlagOn (PageRights r) RightsRequested
                   then Some (PageRights r, Uncacheable r, BackingFile r, fileOffset) else None)
           })
      })"

definition VmReservationSpaceAllocRegion ::
  "VMM_RESERVATION_SPACE \<Rightarrow> bool option \<Rightarrow> PVOID \<Rightarrow> QWORD \<Rightarrow> DWORD \<Rightarrow> DWORD \<Rightarrow> bool \<Rightarrow> PVOID \<Rightarrow>
     (STATUS \<times> (PVOID \<times> QWORD) option \<times> bool option \<times> VMM_RESERVATION_SPACE) option" where
  "VmReservationSpaceAllocRegion rs pCpu BaseAddress sz AllocType Rights Uncach FileObject = do {
     ASSERT (sz \<noteq> 0);
     ASSERT (IsFlagOn AllocType (VMM_ALLOC_TYPE_COMMIT OR VMM_ALLOC_TYPE_RESERVE));
     let aligned = AlignAddressLower BaseAddress PAGE_SIZE;
     (if BaseAddress \<noteq> NULL \<and> aligned < StartOfVirtualAddressSpace rs
      then Some (STATUS_MEMORY_CANNOT_BE_RESERVED, None, pCpu, rs)
      else do {
        let alignedSize = (if BaseAddress \<noteq> NULL then AlignAddressUpper (sz + (BaseAddress - aligned)) PAGE_SIZE
                           else AlignAddressUpper sz PAGE_SIZE);
        let (pBaseAddress, rs) = (if BaseAddress \<noteq> NULL then (aligned, rs)
                          else VmReservationSpaceDetermineNextFreeVirtualAddress rs alignedSize);
        (status, rs) \<leftarrow>
          (if IsBooleanFlagOn AllocType VMM_ALLOC_TYPE_RESERVE
           then VmChangeVaReservationState rs pBaseAddress alignedSize VMM_ALLOC_TYPE_RESERVE
                  Rights Uncach FileObject
           else Some (STATUS_SUCCESS, rs));
        (status, rs) \<leftarrow>
          (if SUCCEEDED status \<and> IsBooleanFlagOn AllocType VMM_ALLOC_TYPE_COMMIT
           then VmChangeVaReservationState rs pBaseAddress alignedSize VMM_ALLOC_TYPE_COMMIT
                  Rights Uncach FileObject
           else Some (status, rs));
        Some (status, if SUCCEEDED status then Some (pBaseAddress, alignedSize) else None,
              map_option (\<lambda>_. False) pCpu, rs)
      })
   }"

definition VMM_RESERVATION_ZERO :: "VMM_RESERVATION \<Rightarrow> VMM_RESERVATION" where
  "VMM_RESERVATION_ZERO r =
     \<lparr>StartVa = 0, Size = 0, PageRights = 0, State = VmmReservationStateFree, Uncacheable = False,
      BackingFile = NULL, CommitBitmap = BitmapUninit (CommitBitmap r)\<rparr>"

definition VmReservationSpaceFreeRegion ::
  "VMM_RESERVATION_SPACE \<Rightarrow> bool option \<Rightarrow> PVOID \<Rightarrow> QWORD \<Rightarrow> DWORD \<Rightarrow>
     (PVOID \<times> QWORD \<times> vm_effect list \<times> bool option \<times> VMM_RESERVATION_SPACE) option" where
  "VmReservationSpaceFreeRegion rs pCpu Address sz FreeType = do {
     ASSERT (Address \<noteq> NULL);
     ASSERT ((IsBooleanFlagOn FreeType VMM_FREE_TYPE_RELEASE \<and> sz = 0) \<or>
             (IsBooleanFlagOn FreeType VMM_FREE_TYPE_DECOMMIT \<and> sz \<noteq> 0));
     ASSERT (IsBooleanFlagOn FreeType VMM_FREE_TYPE_RELEASE \<noteq>
             IsBooleanFlagOn FreeType VMM_FREE_TYPE_DECOMMIT);
     (status, found) \<leftarrow> VmFindReservation rs Address 1;
     ASSERT (SUCCEEDED status);
     (case found of None \<Rightarrow> None
      | Some i \<Rightarrow>
          let r = Entries rs i in
          if IsBooleanFlagOn FreeType VMM_FREE_TYPE_RELEASE then do {
            let rs = set_entry i ((VMM_RESERVATION_ZERO r)\<lparr>State := VmmReservationStateFree\<rparr>) rs;
            effects \<leftarrow> VmUninitializeReservation r;
            Some (StartVa r, Size r, effects, map_option (\<lambda>_. False) pCpu, rs)
          }
          else do {
            let alignedAddress = AlignAddressLower Address PAGE_SIZE;
            let alignedSize = AlignAddressUpper (sz + (Address - alignedAddress)) PAGE_SIZE;
            r \<leftarrow> VmDecommitReservation alignedAddress alignedSize r;
            Some (alignedAddress, alignedSize, [], map_option (\<lambda>_. False) pCpu, set_entry i r rs)
          })
   }"

text \<open>
  The loop over the pages of the range; the counter is 64 bits wide and would wrap for a size
  above \<open>2 ^ 64 - PAGE_SIZE\<close>, so it is a partial function.
\<close>

partial_function (option) all_commited_loop :: "VMM_RESERVATION \<Rightarrow> PVOID \<Rightarrow> QWORD \<Rightarrow> QWORD \<Rightarrow> bool option" where
  "all_commited_loop r Address sz i =
     (if i < sz then do {
        c \<leftarrow> VmIsVaCommited r (Address + i);
        (if \<not> c then Some False else all_commited_loop r Address sz (i + PAGE_SIZE))
      }
      else Some True)"

definition VmReservationReturnRightsForAddress ::
  "VMM_RESERVATION_SPACE \<Rightarrow> PVOID \<Rightarrow> QWORD \<Rightarrow> (STATUS \<times> DWORD option) option" where
  "VmReservationReturnRightsForAddress rs Address sz = do {
     ASSERT (Address \<noteq> NULL);
     ASSERT (sz \<noteq> 0);
     (status, found) \<leftarrow> VmFindReservation rs Address sz;
     (case found of
        None \<Rightarrow> Some (STATUS_MEMORY_IS_NOT_COMMITED, None)
      | Some i \<Rightarrow> do {
          bFullyCommited \<leftarrow> all_commited_loop (Entries rs i) Address sz 0;
          Some (if bFullyCommited then STATUS_SUCCESS else STATUS_MEMORY_IS_NOT_COMMITED,
                Some (PageRights (Entries rs i)))
        })
   }"

section \<open>The reservations in use\<close>

text \<open>
  \<open>reserved rs i\<close>: entry \<open>i\<close> is in use and the loops reach it. \<open>hit\<close> adds that it covers
  the range. \<open>space_ok\<close> is the invariant of the module.
\<close>

definition live :: "VMM_RESERVATION_SPACE \<Rightarrow> nat \<Rightarrow> bool" where
  "live rs i \<longleftrightarrow> (\<forall>j \<le> i. State (Entries rs j) \<noteq> VmmReservationStateLast \<and> in_list rs j)"

definition reserved :: "VMM_RESERVATION_SPACE \<Rightarrow> nat \<Rightarrow> bool" where
  "reserved rs i \<longleftrightarrow> live rs i \<and> State (Entries rs i) = VmmReservationStateUsed"

definition hit :: "VMM_RESERVATION_SPACE \<Rightarrow> PVOID \<Rightarrow> QWORD \<Rightarrow> nat \<Rightarrow> bool" where
  "hit rs a sz i \<longleftrightarrow> reserved rs i \<and> CHECK_BOUNDS a sz (StartVa (Entries rs i)) (Size (Entries rs i))"

definition reservation_ok :: "VMM_RESERVATION \<Rightarrow> bool" where
  "reservation_ok r \<longleftrightarrow> StartVa r \<noteq> NULL \<and> 4096 dvd unat (StartVa r) \<and> 4096 dvd unat (Size r) \<and>
     Size r \<noteq> 0 \<and> unat (StartVa r) + unat (Size r) < 2 ^ 64 \<and> usable (CommitBitmap r) \<and>
     unat (BitCount (CommitBitmap r)) = unat (Size r) div 4096 \<and>
     4096 dvd unat (BitmapBuffer (CommitBitmap r))"

definition space_ok :: "VMM_RESERVATION_SPACE \<Rightarrow> bool" where
  "space_ok rs \<longleftrightarrow> (\<forall>i. reserved rs i \<longrightarrow> reservation_ok (Entries rs i)) \<and>
     4096 dvd unat (FreeBitmapAddress rs) \<and> FreeBitmapAddress rs \<noteq> NULL"

lemma live_mono: "live rs j \<Longrightarrow> i \<le> j \<Longrightarrow> live rs i"
  by (auto simp: live_def)

lemma find_loop_correct:
  "\<forall>j < i. State (Entries rs j) \<noteq> VmmReservationStateLast \<and> in_list rs j \<Longrightarrow>
   case find_loop rs a sz i of
     None \<Rightarrow> \<forall>k \<ge> i. \<not> hit rs a sz k
   | Some k \<Rightarrow> i \<le> k \<and> hit rs a sz k \<and> (\<forall>j. i \<le> j \<and> j < k \<longrightarrow> \<not> hit rs a sz j)"
proof (induction rs a sz i rule: find_loop.induct)
  case (1 rs a sz i)
  let ?E = "Entries rs i"
  show ?case
  proof (cases "State ?E \<noteq> VmmReservationStateLast \<and> in_list rs i")
    case False
    then have "\<not> live rs k" if "i \<le> k" for k using that by (auto simp: live_def)
    then show ?thesis using False by (subst find_loop.simps) (auto simp: hit_def reserved_def)
  next
    case go: True
    with 1(3) have up: "\<forall>j < i + 1. State (Entries rs j) \<noteq> VmmReservationStateLast \<and> in_list rs j"
      by (auto simp: less_Suc_eq)
    then have liv: "live rs i" by (auto simp: live_def)
    have step: "case find_loop rs a sz (i + 1) of None \<Rightarrow> \<forall>k \<ge> i. \<not> hit rs a sz k
      | Some k \<Rightarrow> i \<le> k \<and> hit rs a sz k \<and> (\<forall>j. i \<le> j \<and> j < k \<longrightarrow> \<not> hit rs a sz j)"
      if "case find_loop rs a sz (i + 1) of None \<Rightarrow> \<forall>k \<ge> i + 1. \<not> hit rs a sz k
          | Some k \<Rightarrow> i + 1 \<le> k \<and> hit rs a sz k \<and> (\<forall>j. i + 1 \<le> j \<and> j < k \<longrightarrow> \<not> hit rs a sz j)"
        and "\<not> hit rs a sz i"
    proof -
      have ge: "i \<le> k \<longleftrightarrow> k = i \<or> i + 1 \<le> k" for k by auto
      show ?thesis
        using that by (cases "find_loop rs a sz (i + 1)") (simp_all only: option.case ge, blast+)
    qed
    consider (free) "State ?E = VmmReservationStateFree"
      | (within) "State ?E = VmmReservationStateUsed" "CHECK_BOUNDS a sz (StartVa ?E) (Size ?E)"
      | (outside) "State ?E = VmmReservationStateUsed" "\<not> CHECK_BOUNDS a sz (StartVa ?E) (Size ?E)"
      using go by (cases "State ?E") auto
    then show ?thesis
    proof cases
      case free
      then have "\<not> hit rs a sz i" by (simp add: hit_def reserved_def)
      with step 1(1) [OF go free up] free go show ?thesis by (subst find_loop.simps) simp
    next
      case within
      then have "hit rs a sz i" using liv by (simp add: hit_def reserved_def)
      with within go show ?thesis by (subst find_loop.simps) auto
    next
      case outside
      then have "\<not> hit rs a sz i" by (simp add: hit_def)
      moreover have "State ?E \<noteq> VmmReservationStateFree" using outside by simp
      ultimately show ?thesis
        using step 1(2) [OF go _ outside(2) up] outside go by (subst find_loop.simps) simp
    qed
  qed
qed

lemma VmFindReservation_cases:
  assumes "a \<noteq> NULL" and "sz \<noteq> 0"
  obtains (found) i where "VmFindReservation rs a sz = Some (STATUS_SUCCESS, Some i)"
      "hit rs a sz i" "\<And>j. j < i \<Longrightarrow> \<not> hit rs a sz j"
  | (none) "VmFindReservation rs a sz = Some (STATUS_ELEMENT_NOT_FOUND, None)"
      "\<And>j. \<not> hit rs a sz j"
  using find_loop_correct [of 0 rs a sz] assms
  by (cases "find_loop rs a sz 0") (auto simp: VmFindReservation_def)

lemma VmFindReservation_none:
  "a \<noteq> NULL \<Longrightarrow> sz \<noteq> 0 \<Longrightarrow> (\<And>j. \<not> hit rs a sz j) \<Longrightarrow>
   VmFindReservation rs a sz = Some (STATUS_ELEMENT_NOT_FOUND, None)"
  by (rule VmFindReservation_cases [of a sz rs]) auto

lemma VmFindReservation_some:
  assumes "a \<noteq> NULL" and "sz \<noteq> 0" and "hit rs a sz i" and "\<And>j. j < i \<Longrightarrow> \<not> hit rs a sz j"
  shows "VmFindReservation rs a sz = Some (STATUS_SUCCESS, Some i)"
proof (rule VmFindReservation_cases [OF assms(1,2), of rs])
  fix k assume "VmFindReservation rs a sz = Some (STATUS_SUCCESS, Some k)" "hit rs a sz k"
    "\<And>j. j < k \<Longrightarrow> \<not> hit rs a sz j"
  moreover from this(2,3) assms(3,4) have "k = i" by (metis linorder_less_linear)
  ultimately show ?thesis by simp
next
  assume "\<And>j. \<not> hit rs a sz j"
  with assms(3) show ?thesis by blast
qed

text \<open>The first slot that can take a new reservation.\<close>

definition slot :: "VMM_RESERVATION_SPACE \<Rightarrow> nat \<Rightarrow> bool" where
  "slot rs i \<longleftrightarrow> (\<forall>j < i. reserved rs j) \<and> in_list rs i \<and> State (Entries rs i) \<noteq> VmmReservationStateUsed"

lemma reserved_below: "\<forall>j < i. reserved rs j \<Longrightarrow> j < i \<Longrightarrow> live rs j"
  by (simp add: reserved_def)

lemma first_free_loop_slot:
  "slot rs k \<Longrightarrow> i \<le> k \<Longrightarrow> first_free_loop rs i =
    (Some k,
     if State (Entries rs k) = VmmReservationStateFree then rs
     else set_entry (k + 1) ((Entries rs (k + 1))\<lparr>State := VmmReservationStateLast\<rparr>)
           (set_entry k ((Entries rs k)\<lparr>State := VmmReservationStateFree\<rparr>) rs))"
proof (induction rs i rule: first_free_loop.induct)
  case (1 rs i)
  show ?case
  proof (cases "i = k")
    case True
    with 1(2) show ?thesis
      by (subst first_free_loop.simps)
        (auto simp: slot_def Let_def set_entry_def intro: VMM_RESERVATION_STATE.exhaust [of "State (Entries rs k)"])
  next
    case False
    with 1(2,3) have "i < k" and r: "reserved rs i" by (auto simp: slot_def)
    then have st: "State (Entries rs i) = VmmReservationStateUsed" "in_list rs i"
      by (auto simp: reserved_def live_def)
    with 1(1) [OF st(2)] 1(2) \<open>i < k\<close> show ?thesis by (subst first_free_loop.simps) simp
  qed
qed

section \<open>Pages of a reservation\<close>

lemma sdiv_page: "int n sdiv 4096 = int (n div 4096)"
  by (cases "n = 0") (simp_all add: signed_divide_int_def zdiv_int)

lemma page_index_unat:
  assumes "s \<le> a" and "unat a - unat s < 2 ^ 63"
  shows "unat (page_index a s) = (unat a - unat s) div 4096"
proof -
  have d: "unat (a - s) = unat a - unat s" using assms(1) by (simp add: unat_sub word_le_nat_alt)
  then have "sint (a - s) = int (unat a - unat s)"
    using assms(2) by (subst sint_unat) simp_all
  then have "page_index a s = word_of_int (int ((unat a - unat s) div 4096))"
    by (simp only: page_index_def sdiv_page)
  moreover have "(unat a - unat s) div 4096 < 2 ^ 64" using assms(2) by simp
  ultimately show ?thesis by (simp add: unat_of_nat_small)
qed

definition page_no :: "VMM_RESERVATION \<Rightarrow> PVOID \<Rightarrow> nat" where
  "page_no r a = (unat a - unat (StartVa r)) div 4096"

definition covers :: "VMM_RESERVATION \<Rightarrow> PVOID \<Rightarrow> QWORD \<Rightarrow> bool" where
  "covers r a sz \<longleftrightarrow> unat (StartVa r) \<le> unat a \<and> unat a + unat sz \<le> unat (StartVa r) + unat (Size r)"

lemma reservation_size: "reservation_ok r \<Longrightarrow> unat (Size r) < 2 ^ 44"
proof -
  assume ok: "reservation_ok r"
  have "unat (Size r) div 4096 < 2 ^ 32"
    using ok unat_less_2p [of "BitCount (CommitBitmap r)"] by (simp add: reservation_ok_def)
  moreover have "4096 dvd unat (Size r)" using ok by (simp add: reservation_ok_def)
  ultimately show ?thesis by auto
qed

lemma CHECK_BOUNDS_covers:
  assumes "reservation_ok r" and "unat a + unat sz < 2 ^ 64"
  shows "CHECK_BOUNDS a sz (StartVa r) (Size r) \<longleftrightarrow> covers r a sz"
proof -
  have "unat (StartVa r + Size r) = unat (StartVa r) + unat (Size r)"
    using assms(1) by (intro unat_plus_simple) (simp add: reservation_ok_def)
  moreover have "unat (a + sz) = unat a + unat sz"
    using assms(2) by (intro unat_plus_simple) simp
  ultimately show ?thesis by (simp add: CHECK_BOUNDS_def covers_def word_le_nat_alt)
qed

lemma covers_page:
  assumes ok: "reservation_ok r" and cov: "covers r a sz" and sz: "sz \<noteq> 0"
  shows "unat (page_index a (StartVa r)) = page_no r a"
    and "page_no r a < unat (BitCount (CommitBitmap r))"
    and "page_index a (StartVa r) \<le> ucast MAX_DWORD"
    and "unat (ucast (page_index a (StartVa r)) :: DWORD) = page_no r a"
proof -
  have z: "0 < unat sz" using sz by (simp add: unat_gt_0)
  have lt: "unat a - unat (StartVa r) < unat (Size r)" using cov z by (auto simp: covers_def)
  with reservation_size [OF ok] show 1: "unat (page_index a (StartVa r)) = page_no r a"
    using cov by (simp add: page_index_unat page_no_def covers_def word_le_nat_alt)
  show 2: "page_no r a < unat (BitCount (CommitBitmap r))"
    using lt ok by (auto simp: reservation_ok_def page_no_def elim!: dvdE)
  then have "page_no r a < 2 ^ 32"
    using unat_less_2p [of "BitCount (CommitBitmap r)"] by simp
  with 1 show "page_index a (StartVa r) \<le> ucast MAX_DWORD"
    and "unat (ucast (page_index a (StartVa r)) :: DWORD) = page_no r a"
    by (simp_all add: word_le_nat_alt unat_ucast_down)
qed

lemma VmIsVaCommited_bit:
  assumes ok: "reservation_ok r" and cov: "covers r a sz" and sz: "sz \<noteq> 0" and a: "a \<noteq> NULL"
  shows "VmIsVaCommited r a = Some (bit_at (CommitBitmap r) (page_no r a))"
proof -
  note p = covers_page [OF ok cov sz]
  have "(ucast (page_index a (StartVa r)) :: DWORD) = of_nat (page_no r a)"
    using p(4) by (metis of_nat_unat ucast_id)
  moreover have "(ucast (page_index a (StartVa r)) :: DWORD) < BitCount (CommitBitmap r)"
    using p(2,4) by (simp add: word_less_nat_alt)
  ultimately show ?thesis
    using a p(3) ok
    by (simp add: VmIsVaCommited_def BitmapGetBitValue_def bit_at_def reservation_ok_def usable_def)
qed

lemma ChangeBits_pages:
  assumes ok: "reservation_ok r" and cov: "covers r a sz" and sz: "sz \<noteq> 0"
    and al: "4096 dvd unat a" "4096 dvd unat sz"
  shows "\<exists>bm. BitmapSetBitsValue (CommitBitmap r) (ucast (page_index a (StartVa r)))
      (ucast (sz div PAGE_SIZE)) b = Some bm \<and> sz div PAGE_SIZE \<le> ucast MAX_DWORD \<and>
    reservation_ok (r\<lparr>CommitBitmap := bm\<rparr>) \<and>
    (\<forall>k < unat (BitCount (CommitBitmap r)). bit_at bm k =
      (if page_no r a \<le> k \<and> k < page_no r a + unat sz div 4096 then b else bit_at (CommitBitmap r) k))"
proof -
  note p = covers_page [OF ok cov sz]
  let ?n = "ucast (sz div PAGE_SIZE) :: DWORD"
  have z: "0 < unat sz" using sz by (simp add: unat_gt_0)
  have end_le: "page_no r a + unat sz div 4096 \<le> unat (BitCount (CommitBitmap r))"
    using cov al ok by (auto simp: reservation_ok_def page_no_def covers_def elim!: dvdE)
  then have n32: "unat sz div 4096 < 2 ^ 32"
    using unat_less_2p [of "BitCount (CommitBitmap r)"] by simp
  then have un: "unat ?n = unat sz div 4096" and le: "sz div PAGE_SIZE \<le> ucast MAX_DWORD"
    by (simp_all add: unat_ucast_down unat_div word_le_nat_alt)
  have "0 < unat ?n" using un z al(2) by (auto elim!: dvdE)
  then have n: "?n \<noteq> 0" by auto
  have u: "usable (CommitBitmap r)" using ok by (simp add: reservation_ok_def)
  have fit: "unat (ucast (page_index a (StartVa r)) :: DWORD) + unat ?n \<le> unat (BitCount (CommitBitmap r))"
    using end_le un p(4) by simp
  from BitmapSetBitsValue_give [OF u n fit, of b] obtain bm where
    bm: "BitmapSetBitsValue (CommitBitmap r) (ucast (page_index a (StartVa r))) ?n b = Some bm"
      "usable bm" "unat (BitCount bm) = unat (BitCount (CommitBitmap r))" by blast
  have "bm = CommitBitmap r\<lparr>Bytes := BitmapChangeBits (Bytes (CommitBitmap r))
      (ucast (page_index a (StartVa r))) b ?n\<rparr>"
    using bm(1) by (auto simp: BitmapSetBitsValue_def bind_Some_iff)
  moreover have "k < 2 ^ 32" if "k < unat (BitCount (CommitBitmap r))" for k
    using that unat_less_2p [of "BitCount (CommitBitmap r)"] by simp
  moreover have "page_no r a + unat sz div 4096 \<le> 2 ^ 32"
    using end_le unat_less_2p [of "BitCount (CommitBitmap r)"] by simp
  ultimately have bits: "\<forall>k < unat (BitCount (CommitBitmap r)). bit_at bm k =
      (if page_no r a \<le> k \<and> k < page_no r a + unat sz div 4096 then b else bit_at (CommitBitmap r) k)"
    using p(4) un by (simp add: bit_at_ChangeBits)
  have "BitmapBuffer bm = BitmapBuffer (CommitBitmap r)"
    using bm(1) by (auto simp: BitmapSetBitsValue_def bind_Some_iff)
  then have "reservation_ok (r\<lparr>CommitBitmap := bm\<rparr>)"
    using ok bm by (simp add: reservation_ok_def)
  with bm(1) le bits show ?thesis by blast
qed

section \<open>Reserving\<close>

definition bitmap_room :: "VMM_RESERVATION_SPACE \<Rightarrow> QWORD \<Rightarrow> bool" where
  "bitmap_room rs sz \<longleftrightarrow> ReservationList rs \<le> FreeBitmapAddress rs \<and>
     unat (ReservationList rs) + unat (ReservedAreaSize rs) < 2 ^ 64 \<and>
     unat (FreeBitmapAddress rs) + ((unat sz div 4096 + 7) div 8 + 4095) div 4096 * 4096
       \<le> unat (ReservationList rs) + unat (ReservedAreaSize rs)"

lemma VmInitializeReservation_correct:
  assumes a: "a \<noteq> NULL" "4096 dvd unat a" and sz: "sz \<noteq> 0" "4096 dvd unat sz"
    and pages: "unat sz div 4096 < 2 ^ 32" and nowrap: "unat a + unat sz < 2 ^ 64"
    and fba: "4096 dvd unat (FreeBitmapAddress rs)" "FreeBitmapAddress rs \<noteq> NULL"
    and room: "bitmap_room rs sz"
  shows "\<exists>r fb. VmInitializeReservation rs a sz rights unc fobj i =
      Some ((set_entry i r rs)\<lparr>FreeBitmapAddress := fb\<rparr>) \<and>
    reservation_ok r \<and> State r = VmmReservationStateUsed \<and> StartVa r = a \<and> Size r = sz \<and>
    PageRights r = rights \<and> Uncacheable r = unc \<and> BackingFile r = fobj \<and>
    (\<forall>k < unat sz div 4096. \<not> bit_at (CommitBitmap r) k) \<and> 4096 dvd unat fb \<and> fb \<noteq> NULL"
proof -
  let ?N = "ucast (sz div PAGE_SIZE) :: DWORD"
  have uN: "unat ?N = unat sz div 4096"
    using pages by (simp add: unat_ucast_down unat_div)
  have N: "?N \<noteq> 0" using uN sz by (auto elim!: dvdE simp: unat_eq_zero)
  have le: "sz div PAGE_SIZE \<le> ucast MAX_DWORD" using pages by (simp add: word_le_nat_alt unat_div)
  obtain bs bm1 bm2 where bm: "BitmapPreinit (CommitBitmap (Entries rs i)) ?N = Some (bs, bm1)"
      "BitmapInitEx bm1 (FreeBitmapAddress rs) False = Some bm2" "usable bm2" "BitCount bm2 = ?N"
      "BitmapBuffer bm2 = FreeBitmapAddress rs"
      "unat bs = (unat ?N + 7) div 8" "\<forall>k < unat ?N. \<not> bit_at bm2 k"
    using fresh_bitmap [OF N fba(2), of "CommitBitmap (Entries rs i)"] by blast
  have "0 < unat ?N" using N by (simp add: unat_gt_0)
  then have "0 < unat bs" unfolding bm(6) by (simp add: div_greater_zero_iff)
  then have bs0: "bs \<noteq> 0" by auto
  let ?up = "AlignAddressUpper (ucast bs) PAGE_SIZE"
  have ubs: "unat (ucast bs :: QWORD) = unat bs" by (simp add: unat_ucast_up)
  have "unat (ucast bs :: QWORD) + 4095 < 2 ^ 64" using ubs unat_less_2p [of bs] by simp
  then have up: "unat ?up = ((unat sz div 4096 + 7) div 8 + 4095) div 4096 * 4096"
    using ubs bm(6) uN by (simp add: unat_AlignAddressUpper_page)
  have fb: "unat (FreeBitmapAddress rs + ?up) = unat (FreeBitmapAddress rs) + unat ?up"
    using room up by (intro unat_plus_simple) (simp add: bitmap_room_def)
  have "unat (ReservationList rs + ReservedAreaSize rs) =
      unat (ReservationList rs) + unat (ReservedAreaSize rs)"
    using room by (intro unat_plus_simple) (simp add: bitmap_room_def)
  then have cb: "CHECK_BOUNDS (FreeBitmapAddress rs) ?up (ReservationList rs) (ReservedAreaSize rs)"
    using room fb up by (simp add: CHECK_BOUNDS_def bitmap_room_def word_le_nat_alt)
  let ?r = "(Entries rs i)\<lparr>State := VmmReservationStateUsed, StartVa := a, Size := sz, PageRights := rights,
      Uncacheable := unc, BackingFile := fobj, CommitBitmap := bm2\<rparr>"
  have "VmInitializeReservation rs a sz rights unc fobj i =
      Some ((set_entry i ?r rs)\<lparr>FreeBitmapAddress := FreeBitmapAddress rs + ?up\<rparr>)"
    using a sz le bm(1,2) bs0 fba cb
    by (simp add: VmInitializeReservation_def IsAddressAligned_page set_entry_def)
  moreover have "reservation_ok ?r"
    using a sz nowrap bm uN fba by (simp add: reservation_ok_def)
  moreover have "4096 dvd unat (FreeBitmapAddress rs + ?up)"
    unfolding fb up by (intro dvd_add fba(1)) simp
  moreover have "FreeBitmapAddress rs + ?up \<noteq> NULL"
    using fb fba(2) by (metis add_eq_0_iff_both_eq_0 unat_0 unat_eq_zero)
  ultimately show ?thesis using bm(7) uN
    by (intro exI [of _ ?r] exI [of _ "FreeBitmapAddress rs + ?up"]) simp
qed

text \<open>The entries after a reservation was written into the first free slot.\<close>

lemma slot_reserved:
  assumes sl: "slot rs i" and used: "State r = VmmReservationStateUsed"
    and rs': "rs' = (set_entry i r (snd (VmFindFirstFreeReservation rs)))\<lparr>FreeBitmapAddress := fb\<rparr>"
  shows "Entries rs' i = r \<and> reserved rs' i \<and>
    (\<forall>j. j \<noteq> i \<longrightarrow> (reserved rs' j \<longleftrightarrow> reserved rs j) \<and> (reserved rs j \<longrightarrow> Entries rs' j = Entries rs j)) \<and>
    FreeVirtualAddressPointer rs' = FreeVirtualAddressPointer rs \<and>
    ReservationList rs' = ReservationList rs \<and> ReservedAreaSize rs' = ReservedAreaSize rs"
proof -
  have below: "\<forall>j < i. State (Entries rs j) = VmmReservationStateUsed \<and> in_list rs j"
    using sl by (auto simp: slot_def reserved_def live_def)
  have il: "in_list rs i" using sl by (simp add: slot_def)
  note ff = first_free_loop_slot [OF sl, of 0]
  show ?thesis
  proof (cases "State (Entries rs i) = VmmReservationStateFree")
    case True
    then have rs'': "rs' = (set_entry i r rs)\<lparr>FreeBitmapAddress := fb\<rparr>"
      using ff rs' by (simp add: VmFindFirstFreeReservation_def)
    have E: "Entries rs' = (Entries rs)(i := r)" and L: "in_list rs' j = in_list rs j" for j
      by (simp_all add: rs'' set_entry_def in_list_def)
    have st: "State (Entries rs' j) = VmmReservationStateLast \<longleftrightarrow>
        State (Entries rs j) = VmmReservationStateLast" for j
      using used True by (simp add: E)
    have lv: "live rs' j \<longleftrightarrow> live rs j" for j
      by (simp add: live_def st L)
    have "live rs i"
      using below il True by (auto simp: live_def order_le_less)
    with lv used show ?thesis by (simp add: reserved_def E) (simp add: rs'' set_entry_def)
  next
    case False
    then have last: "State (Entries rs i) = VmmReservationStateLast"
      using sl by (cases "State (Entries rs i)") (auto simp: slot_def)
    have rs'': "rs' = (set_entry i r (set_entry (i + 1) ((Entries rs (i + 1))\<lparr>State := VmmReservationStateLast\<rparr>)
        (set_entry i ((Entries rs i)\<lparr>State := VmmReservationStateFree\<rparr>) rs)))\<lparr>FreeBitmapAddress := fb\<rparr>"
      using ff rs' False by (simp add: VmFindFirstFreeReservation_def)
    have nl: "\<not> live rs j" if "i \<le> j" for j using that last by (auto simp: live_def)
    have nl': "\<not> live rs' j" if "i < j" for j
      using that by (auto simp: live_def rs'' set_entry_def intro!: exI [of _ "i + 1"])
    have lb: "live rs j" "live rs' j" if "j < i" for j
      using that below by (auto simp: live_def rs'' set_entry_def in_list_def)
    have "live rs' i"
      using below il used by (auto simp: live_def rs'' set_entry_def in_list_def order_le_less)
    moreover have "(reserved rs' j \<longleftrightarrow> reserved rs j) \<and> (reserved rs j \<longrightarrow> Entries rs' j = Entries rs j)"
      if "j \<noteq> i" for j
    proof (cases "j < i")
      case True
      then show ?thesis using lb [OF True] by (auto simp: reserved_def rs'' set_entry_def)
    next
      case False
      with that have "i < j" by simp
      then show ?thesis using nl nl' by (auto simp: reserved_def)
    qed
    ultimately show ?thesis using used by (auto simp: rs'' reserved_def set_entry_def)
  qed
qed

lemma reserve_correct:
  assumes ok: "space_ok rs" and sl: "slot rs i" and none: "\<And>j. \<not> hit rs a sz j"
    and a: "a \<noteq> NULL" "4096 dvd unat a" and sz: "sz \<noteq> 0" "4096 dvd unat sz"
    and pages: "unat sz div 4096 < 2 ^ 32" and nowrap: "unat a + unat sz < 2 ^ 64"
    and room: "bitmap_room rs sz"
  shows "\<exists>rs'. VmChangeVaReservationState rs a sz VMM_ALLOC_TYPE_RESERVE rights unc fobj =
      Some (STATUS_SUCCESS, rs') \<and> space_ok rs' \<and> reserved rs' i \<and>
    StartVa (Entries rs' i) = a \<and> Size (Entries rs' i) = sz \<and>
    PageRights (Entries rs' i) = rights \<and> Uncacheable (Entries rs' i) = unc \<and>
    BackingFile (Entries rs' i) = fobj \<and>
    (\<forall>k < unat sz div 4096. \<not> bit_at (CommitBitmap (Entries rs' i)) k) \<and>
    (\<forall>j. j \<noteq> i \<longrightarrow> (reserved rs' j \<longleftrightarrow> reserved rs j) \<and> (reserved rs j \<longrightarrow> Entries rs' j = Entries rs j)) \<and>
    FreeVirtualAddressPointer rs' = FreeVirtualAddressPointer rs \<and>
    ReservationList rs' = ReservationList rs \<and> ReservedAreaSize rs' = ReservedAreaSize rs"
proof -
  have find: "VmFindReservation rs a sz = Some (STATUS_ELEMENT_NOT_FOUND, None)"
    using a(1) sz(1) none by (rule VmFindReservation_none)
  obtain rs1 where ff: "VmFindFirstFreeReservation rs = (Some i, rs1)"
    using first_free_loop_slot [OF sl, of 0] by (simp add: VmFindFirstFreeReservation_def)
  have same: "FreeBitmapAddress rs1 = FreeBitmapAddress rs \<and> ReservationList rs1 = ReservationList rs \<and>
      ReservedAreaSize rs1 = ReservedAreaSize rs"
    using ff first_free_loop_slot [OF sl, of 0]
    by (auto simp: VmFindFirstFreeReservation_def set_entry_def split: if_splits)
  have fba: "4096 dvd unat (FreeBitmapAddress rs1)" "FreeBitmapAddress rs1 \<noteq> NULL"
    using ok same by (simp_all add: space_ok_def)
  have "bitmap_room rs1 sz" using room same by (simp add: bitmap_room_def)
  from VmInitializeReservation_correct [OF a sz pages nowrap fba this] obtain r fb where
    r: "VmInitializeReservation rs1 a sz rights unc fobj i = Some ((set_entry i r rs1)\<lparr>FreeBitmapAddress := fb\<rparr>)"
      "reservation_ok r" "State r = VmmReservationStateUsed" "StartVa r = a" "Size r = sz"
      "PageRights r = rights" "Uncacheable r = unc" "BackingFile r = fobj"
      "\<forall>k < unat sz div 4096. \<not> bit_at (CommitBitmap r) k" "4096 dvd unat fb" "fb \<noteq> NULL"
    by blast
  define rs' where "rs' = (set_entry i r rs1)\<lparr>FreeBitmapAddress := fb\<rparr>"
  have after: "Entries rs' i = r \<and> reserved rs' i \<and>
    (\<forall>j. j \<noteq> i \<longrightarrow> (reserved rs' j \<longleftrightarrow> reserved rs j) \<and> (reserved rs j \<longrightarrow> Entries rs' j = Entries rs j)) \<and>
    FreeVirtualAddressPointer rs' = FreeVirtualAddressPointer rs \<and>
    ReservationList rs' = ReservationList rs \<and> ReservedAreaSize rs' = ReservedAreaSize rs"
    by (rule slot_reserved [OF sl r(3)]) (simp add: rs'_def ff)
  have "VmChangeVaReservationState rs a sz VMM_ALLOC_TYPE_RESERVE rights unc fobj = Some (STATUS_SUCCESS, rs')"
    using a sz find ff r(1) by (simp add: rs'_def VmChangeVaReservationState_def IsAddressAligned_page)
  moreover have "space_ok rs'"
    unfolding space_ok_def
  proof (intro conjI allI impI)
    fix j assume "reserved rs' j"
    with after ok r(2) show "reservation_ok (Entries rs' j)"
      unfolding space_ok_def by metis
  qed (use r(10,11) in \<open>simp_all add: rs'_def\<close>)
  ultimately show ?thesis using after r by (intro exI [of _ rs']) simp
qed

section \<open>Committing, decommitting and accessing\<close>

lemma set_bitmap_reserved [simp]:
  "reserved (set_entry i ((Entries rs i)\<lparr>CommitBitmap := bm\<rparr>) rs) j \<longleftrightarrow> reserved rs j"
  by (auto simp: reserved_def live_def set_entry_def in_list_def)

lemma set_bitmap_ok:
  "space_ok rs \<Longrightarrow> reservation_ok ((Entries rs i)\<lparr>CommitBitmap := bm\<rparr>) \<Longrightarrow>
   space_ok (set_entry i ((Entries rs i)\<lparr>CommitBitmap := bm\<rparr>) rs)"
  unfolding space_ok_def set_bitmap_reserved by (auto simp: set_entry_def)

definition first_hit :: "VMM_RESERVATION_SPACE \<Rightarrow> PVOID \<Rightarrow> QWORD \<Rightarrow> nat \<Rightarrow> bool" where
  "first_hit rs a sz i \<longleftrightarrow> reserved rs i \<and> covers (Entries rs i) a sz \<and>
     (\<forall>j < i. reserved rs j \<longrightarrow> \<not> covers (Entries rs j) a sz)"

lemma hit_covers:
  assumes "space_ok rs" and "unat a + unat sz < 2 ^ 64"
  shows "hit rs a sz i \<longleftrightarrow> reserved rs i \<and> covers (Entries rs i) a sz"
  using assms CHECK_BOUNDS_covers [OF _ assms(2)] by (auto simp: hit_def space_ok_def)

lemma find_first_hit:
  assumes "space_ok rs" and "unat a + unat sz < 2 ^ 64" and "a \<noteq> NULL" and "sz \<noteq> 0"
    and "first_hit rs a sz i"
  shows "VmFindReservation rs a sz = Some (STATUS_SUCCESS, Some i)"
  using assms hit_covers [OF assms(1,2)] by (intro VmFindReservation_some) (auto simp: first_hit_def)

lemma find_no_hit:
  assumes "space_ok rs" and "unat a + unat sz < 2 ^ 64" and "a \<noteq> NULL" and "sz \<noteq> 0"
    and "\<nexists>i. reserved rs i \<and> covers (Entries rs i) a sz"
  shows "VmFindReservation rs a sz = Some (STATUS_ELEMENT_NOT_FOUND, None)"
  using assms hit_covers [OF assms(1,2)] by (intro VmFindReservation_none) auto

lemma first_hit_exists:
  assumes "reserved rs i" and "covers (Entries rs i) a sz"
  shows "\<exists>i. first_hit rs a sz i"
proof -
  define j where "j = (LEAST j. reserved rs j \<and> covers (Entries rs j) a sz)"
  have "reserved rs j \<and> covers (Entries rs j) a sz"
    unfolding j_def by (rule LeastI [of _ i]) (use assms in simp)
  moreover have "\<forall>k < j. \<not> (reserved rs k \<and> covers (Entries rs k) a sz)"
    unfolding j_def using not_less_Least by blast
  ultimately show ?thesis by (auto simp: first_hit_def)
qed

lemma commit_correct:
  assumes ok: "space_ok rs" and nowrap: "unat a + unat sz < 2 ^ 64"
    and a: "a \<noteq> NULL" "4096 dvd unat a" and sz: "sz \<noteq> 0" "4096 dvd unat sz"
    and fh: "first_hit rs a sz i"
    and rights: "PageRights (Entries rs i) = rights" and unc: "Uncacheable (Entries rs i) = unc"
  shows "\<exists>bm. VmChangeVaReservationState rs a sz VMM_ALLOC_TYPE_COMMIT rights unc fobj =
      Some (STATUS_SUCCESS, set_entry i ((Entries rs i)\<lparr>CommitBitmap := bm\<rparr>) rs) \<and>
    reservation_ok ((Entries rs i)\<lparr>CommitBitmap := bm\<rparr>) \<and>
    (\<forall>k < unat (Size (Entries rs i)) div 4096. bit_at bm k \<longleftrightarrow>
      (page_no (Entries rs i) a \<le> k \<and> k < page_no (Entries rs i) a + unat sz div 4096) \<or>
      bit_at (CommitBitmap (Entries rs i)) k)"
proof -
  let ?r = "Entries rs i"
  have r: "reservation_ok ?r" "covers ?r a sz"
    using ok fh by (auto simp: space_ok_def first_hit_def)
  from ChangeBits_pages [OF r sz(1) a(2) sz(2), of True] obtain bm where
    bm: "BitmapSetBitsValue (CommitBitmap ?r) (ucast (page_index a (StartVa ?r))) (ucast (sz div PAGE_SIZE)) True
        = Some bm" "sz div PAGE_SIZE \<le> ucast MAX_DWORD" "reservation_ok (?r\<lparr>CommitBitmap := bm\<rparr>)"
      "\<forall>k < unat (BitCount (CommitBitmap ?r)). bit_at bm k =
        (if page_no ?r a \<le> k \<and> k < page_no ?r a + unat sz div 4096 then True else bit_at (CommitBitmap ?r) k)"
    by blast
  have "VmCommitReservation a sz ?r = Some (?r\<lparr>CommitBitmap := bm\<rparr>)"
    using a sz bm(1,2) covers_page(3) [OF r sz(1)]
    by (simp add: VmCommitReservation_def IsAddressAligned_page)
  then have "VmChangeVaReservationState rs a sz VMM_ALLOC_TYPE_COMMIT rights unc fobj =
      Some (STATUS_SUCCESS, set_entry i (?r\<lparr>CommitBitmap := bm\<rparr>) rs)"
    using a sz rights unc find_first_hit [OF ok nowrap a(1) sz(1) fh]
    by (simp add: VmChangeVaReservationState_def IsAddressAligned_page status_defs SUCCEEDED_def)
  moreover have "unat (BitCount (CommitBitmap ?r)) = unat (Size ?r) div 4096"
    using r(1) by (simp add: reservation_ok_def)
  ultimately show ?thesis using bm(3,4) by (intro exI [of _ bm]) auto
qed

text \<open>
  When a page may be accessed: the first reservation that covers it has it committed and grants
  the requested rights.
\<close>

definition accessible :: "VMM_RESERVATION_SPACE \<Rightarrow> nat \<Rightarrow> PVOID \<Rightarrow> DWORD \<Rightarrow> bool" where
  "accessible rs i a rights \<longleftrightarrow> first_hit rs a 1 i \<and>
     bit_at (CommitBitmap (Entries rs i)) (page_no (Entries rs i) a) \<and>
     IsBooleanFlagOn (PageRights (Entries rs i)) rights"

lemma outside_metadata_nowrap:
  "\<not> CHECK_BOUNDS a 1 b s \<Longrightarrow> unat a + unat (1 :: QWORD) < 2 ^ 64"
proof -
  assume "\<not> CHECK_BOUNDS a 1 b s"
  then have "a \<noteq> - 1" by (auto simp: CHECK_BOUNDS_def)
  then have "a < - 1" by (simp only: word_order.not_eq_extremum)
  then show ?thesis by (simp add: word_less_nat_alt unsigned_minus_1_eq_mask mask_eq_exp_minus_1)
qed

lemma access_first_hit:
  assumes ok: "space_ok rs" and a: "a \<noteq> NULL"
    and out: "\<not> CHECK_BOUNDS a 1 (ReservationList rs) (ReservedAreaSize rs)"
    and fh: "first_hit rs a 1 i"
  shows "VmReservationCanAddressBeAccessed rs pCpu a rights =
    Some (if accessible rs i a rights
          then Some (PageRights (Entries rs i), Uncacheable (Entries rs i), BackingFile (Entries rs i),
            if BackingFile (Entries rs i) = NULL then 0
            else AlignAddressLower (a - StartVa (Entries rs i)) PAGE_SIZE)
          else None)"
proof -
  have r: "reservation_ok (Entries rs i)" "covers (Entries rs i) a 1"
    using ok fh by (auto simp: space_ok_def first_hit_def)
  have nowrap: "unat a + unat (1 :: QWORD) < 2 ^ 64"
    using out by (rule outside_metadata_nowrap)
  show ?thesis
    using a out find_first_hit [OF ok nowrap a _ fh] VmIsVaCommited_bit [OF r _ a] fh
    by (simp add: VmReservationCanAddressBeAccessed_def accessible_def Let_def)
qed

lemma access_no_hit:
  assumes ok: "space_ok rs" and a: "a \<noteq> NULL"
    and out: "\<not> CHECK_BOUNDS a 1 (ReservationList rs) (ReservedAreaSize rs)"
    and none: "\<nexists>i. first_hit rs a 1 i"
  shows "VmReservationCanAddressBeAccessed rs pCpu a rights = Some None"
proof -
  have "\<nexists>i. reserved rs i \<and> covers (Entries rs i) a 1" using none first_hit_exists by blast
  moreover have "unat a + unat (1 :: QWORD) < 2 ^ 64"
    using out by (rule outside_metadata_nowrap)
  ultimately show ?thesis
    using a out find_no_hit [OF ok _ a, of 1]
    by (simp add: VmReservationCanAddressBeAccessed_def)
qed

section \<open>Allocating a region\<close>

text \<open>Every reservation lies below the pointer that the next anonymous allocation takes.\<close>

definition below_pointer :: "VMM_RESERVATION_SPACE \<Rightarrow> bool" where
  "below_pointer rs \<longleftrightarrow> (\<forall>i. reserved rs i \<longrightarrow>
     unat (StartVa (Entries rs i)) + unat (Size (Entries rs i)) \<le> unat (FreeVirtualAddressPointer rs))"

lemma not_covered_above:
  "below_pointer rs \<Longrightarrow> unat (FreeVirtualAddressPointer rs) \<le> unat a \<Longrightarrow> sz \<noteq> 0 \<Longrightarrow> reserved rs j \<Longrightarrow>
   \<not> covers (Entries rs j) a sz"
  by (auto simp: below_pointer_def covers_def unat_gt_0 [symmetric] dest!: spec [of _ j])

lemma alloc_correct:
  assumes ok: "space_ok rs" and bp: "below_pointer rs" and sl: "slot rs i"
    and sz: "sz \<noteq> 0" "unat sz + 4095 < 2 ^ 44"
    and ptr: "FreeVirtualAddressPointer rs \<noteq> NULL" "4096 dvd unat (FreeVirtualAddressPointer rs)"
      "unat (FreeVirtualAddressPointer rs) + unat sz + 4095 < 2 ^ 64"
    and room: "bitmap_room rs (AlignAddressUpper sz PAGE_SIZE)"
  shows "\<exists>asz rs'. VmReservationSpaceAllocRegion rs pCpu NULL sz
      (VMM_ALLOC_TYPE_RESERVE OR VMM_ALLOC_TYPE_COMMIT) rights unc fobj =
        Some (STATUS_SUCCESS, Some (FreeVirtualAddressPointer rs, asz), map_option (\<lambda>_. False) pCpu, rs') \<and>
      sz \<le> asz \<and> IsAddressAligned asz PAGE_SIZE \<and> space_ok rs' \<and> below_pointer rs' \<and>
      FreeVirtualAddressPointer rs' = FreeVirtualAddressPointer rs + asz \<and>
      ReservationList rs' = ReservationList rs \<and> ReservedAreaSize rs' = ReservedAreaSize rs \<and>
      (\<forall>j. j \<noteq> i \<longrightarrow> (reserved rs' j \<longleftrightarrow> reserved rs j) \<and> (reserved rs j \<longrightarrow> Entries rs' j = Entries rs j)) \<and>
      (\<forall>x. FreeVirtualAddressPointer rs \<le> x \<and> x < FreeVirtualAddressPointer rs + asz \<longrightarrow>
        first_hit rs' x 1 i \<and> bit_at (CommitBitmap (Entries rs' i)) (page_no (Entries rs' i) x)) \<and>
      PageRights (Entries rs' i) = rights \<and> Uncacheable (Entries rs' i) = unc \<and>
      BackingFile (Entries rs' i) = fobj"
proof -
  let ?p = "FreeVirtualAddressPointer rs"
  define asz where "asz = AlignAddressUpper sz PAGE_SIZE"
  have ua: "unat asz = (unat sz + 4095) div 4096 * 4096"
    unfolding asz_def using sz(2) by (intro unat_AlignAddressUpper_page) simp
  have u0: "0 < unat sz" using sz(1) by (simp add: unat_gt_0)
  then have a0: "0 < unat asz" and asz: "asz \<noteq> 0" "4096 dvd unat asz" "sz \<le> asz"
    using ua by (auto simp: word_le_nat_alt unat_gt_0 [symmetric] div_greater_zero_iff)
  have pages: "unat asz div 4096 < 2 ^ 32" using ua sz(2) by simp
  have fin: "unat ?p + unat asz < 2 ^ 64" using ua ptr(3) by simp
  let ?rs = "rs\<lparr>FreeVirtualAddressPointer := ?p + asz\<rparr>"
  have up: "unat (?p + asz) = unat ?p + unat asz" using fin by (intro unat_plus_simple) simp
  have keep: "reserved ?rs j \<longleftrightarrow> reserved rs j" "slot ?rs j \<longleftrightarrow> slot rs j" for j
    by (simp_all add: reserved_def live_def in_list_def slot_def)
  have ok1: "space_ok ?rs" using ok by (simp add: space_ok_def keep)
  have none: "\<not> hit ?rs ?p asz j" for j
    using not_covered_above [OF bp _ asz(1), of ?p j] fin
    by (auto simp: hit_covers [OF ok1] keep)
  have sl1: "slot ?rs i" using sl by (simp add: keep)
  have room1: "bitmap_room ?rs asz" using room by (simp add: bitmap_room_def asz_def)
  from reserve_correct [OF ok1 sl1 none ptr(1,2) asz(1,2) pages fin room1, where rights = rights and unc = unc and fobj = fobj]
  obtain rs1 where r1: "VmChangeVaReservationState ?rs ?p asz VMM_ALLOC_TYPE_RESERVE rights unc fobj =
        Some (STATUS_SUCCESS, rs1)" "space_ok rs1" "reserved rs1 i"
      "StartVa (Entries rs1 i) = ?p" "Size (Entries rs1 i) = asz" "PageRights (Entries rs1 i) = rights"
      "Uncacheable (Entries rs1 i) = unc" "BackingFile (Entries rs1 i) = fobj"
      "\<forall>j. j \<noteq> i \<longrightarrow> (reserved rs1 j \<longleftrightarrow> reserved rs j) \<and> (reserved rs j \<longrightarrow> Entries rs1 j = Entries rs j)"
      "FreeVirtualAddressPointer rs1 = ?p + asz" "ReservationList rs1 = ReservationList rs"
      "ReservedAreaSize rs1 = ReservedAreaSize rs"
    unfolding keep by auto
  have other: "\<not> covers (Entries rs1 j) x n" if "j \<noteq> i" "reserved rs1 j" "unat ?p \<le> unat x" "n \<noteq> 0" for j x n
    using not_covered_above [OF bp that(3,4), of j] r1(9) that by auto
  have "first_hit rs1 ?p asz i"
    using r1(3-5) other [OF _ _ order_refl asz(1)] by (auto simp: first_hit_def covers_def)
  from commit_correct [OF r1(2) fin ptr(1,2) asz(1,2) this r1(6,7), of fobj] obtain bm where
    bm: "VmChangeVaReservationState rs1 ?p asz VMM_ALLOC_TYPE_COMMIT rights unc fobj =
        Some (STATUS_SUCCESS, set_entry i ((Entries rs1 i)\<lparr>CommitBitmap := bm\<rparr>) rs1)"
      "reservation_ok ((Entries rs1 i)\<lparr>CommitBitmap := bm\<rparr>)"
      "\<forall>k < unat asz div 4096. bit_at bm k"
    using r1(4,5) by (auto simp: page_no_def)
  define rs2 where "rs2 = set_entry i ((Entries rs1 i)\<lparr>CommitBitmap := bm\<rparr>) rs1"
  have E: "Entries rs2 i = (Entries rs1 i)\<lparr>CommitBitmap := bm\<rparr>" "\<And>j. j \<noteq> i \<Longrightarrow> Entries rs2 j = Entries rs1 j"
      "FreeVirtualAddressPointer rs2 = ?p + asz" "ReservationList rs2 = ReservationList rs"
      "ReservedAreaSize rs2 = ReservedAreaSize rs"
    using r1(10-12) by (simp_all add: rs2_def set_entry_def)
  have R: "reserved rs2 j \<longleftrightarrow> reserved rs1 j" for j by (simp add: rs2_def)
  have alloc: "VmReservationSpaceAllocRegion rs pCpu NULL sz
      (VMM_ALLOC_TYPE_RESERVE OR VMM_ALLOC_TYPE_COMMIT) rights unc fobj =
      Some (STATUS_SUCCESS, Some (?p, asz), map_option (\<lambda>_. False) pCpu, rs2)"
    using sz(1) r1(1) bm(1)
    by (simp add: VmReservationSpaceAllocRegion_def IsFlagOn_def IsBooleanFlagOn_def rs2_def
        VmReservationSpaceDetermineNextFreeVirtualAddress_def flip: asz_def)
  have ok2: "space_ok rs2" unfolding rs2_def using r1(2) bm(2) by (rule set_bitmap_ok)
  have bp2: "below_pointer rs2" unfolding below_pointer_def
  proof (intro allI impI)
    fix j assume "reserved rs2 j"
    then show "unat (StartVa (Entries rs2 j)) + unat (Size (Entries rs2 j)) \<le> unat (FreeVirtualAddressPointer rs2)"
      using bp r1(4,5,9) E R up by (cases "j = i") (force simp: below_pointer_def)+
  qed
  have hits: "first_hit rs2 x 1 i \<and> bit_at (CommitBitmap (Entries rs2 i)) (page_no (Entries rs2 i) x)"
    if x: "?p \<le> x" "x < ?p + asz" for x
  proof -
    have ux: "unat ?p \<le> unat x" "unat x < unat ?p + unat asz"
      using x up by (simp_all add: word_le_nat_alt word_less_nat_alt)
    have "covers (Entries rs2 i) x 1" using ux r1(4,5) E(1) by (simp add: covers_def)
    moreover have "page_no (Entries rs2 i) x < unat asz div 4096"
      using ux r1(4) E(1) asz(2) by (auto simp: page_no_def elim!: dvdE)
    ultimately show ?thesis
      using bm(3) other [OF _ _ ux(1), of _ 1] r1(3) E R by (auto simp: first_hit_def)
  qed
  have "IsAddressAligned asz PAGE_SIZE" using asz(2) by (simp add: IsAddressAligned_page)
  then show ?thesis
    using alloc asz(3) ok2 bp2 hits r1(6-9) E R
    by (intro exI [of _ asz] exI [of _ rs2]) simp
qed

section \<open>Properties\<close>

definition demo_reservation :: VMM_RESERVATION where
  "demo_reservation = \<lparr>StartVa = 0x10000000, Size = 0x4000, PageRights = PAGE_RIGHTS_READWRITE,
     State = VmmReservationStateUsed, Uncacheable = False, BackingFile = NULL,
     CommitBitmap = \<lparr>BitmapBuffer = 0x110000, BufferSize = 1, BitCount = 4, Bytes = (\<lambda>_. 3)\<rparr>\<rparr>"

definition demo_space :: VMM_RESERVATION_SPACE where
  "demo_space = \<lparr>FreeVirtualAddressPointer = 0x20000000, StartOfVirtualAddressSpace = 0x10000000,
     BitmapAddressStart = 0x110000, ReservedAreaSize = 0x100000, FreeBitmapAddress = 0x111000,
     ReservationList = 0x100000,
     Entries = (\<lambda>i. if i = 0 then demo_reservation
                    else demo_reservation\<lparr>State := VmmReservationStateLast\<rparr>)\<rparr>"

lemma demo_reserved [simp]: "reserved demo_space i \<longleftrightarrow> i = 0"
  by (auto simp: reserved_def live_def demo_space_def demo_reservation_def in_list_def)

lemma demo_entry: "Entries demo_space 0 = demo_reservation"
  by (simp add: demo_space_def)

lemma demo_space_ok: "space_ok demo_space"
proof -
  have "reservation_ok demo_reservation"
    by (simp add: reservation_ok_def demo_reservation_def usable_def dvd_eq_mod_eq_0)
  then show ?thesis
    unfolding space_ok_def demo_reserved by (simp add: demo_entry) (simp add: demo_space_def)
qed

lemma demo_hit: "first_hit demo_space 0x10001234 1 0"
  by (simp add: first_hit_def demo_entry covers_def demo_reservation_def)

text \<open>
  C5. The page-fault check never halts on a well-formed reservation space and lets an access
  through exactly when the first reservation that covers the address has the page committed and
  grants every requested right; it then reports this reservation's rights, cacheability and
  backing file. (Addresses of the metadata area itself are handled apart, by the code and here.)
\<close>

theorem VmReservationCanAddressBeAccessed_iff:
  assumes "space_ok rs" and "a \<noteq> NULL"
    and "\<not> CHECK_BOUNDS a 1 (ReservationList rs) (ReservedAreaSize rs)"
  shows "\<exists>res. VmReservationCanAddressBeAccessed rs pCpu a rights = Some res \<and>
    (res \<noteq> None \<longleftrightarrow> (\<exists>i. accessible rs i a rights)) \<and>
    (\<forall>i. accessible rs i a rights \<longrightarrow> (\<exists>off.
      res = Some (PageRights (Entries rs i), Uncacheable (Entries rs i), BackingFile (Entries rs i), off)))"
proof (cases "\<exists>i. first_hit rs a 1 i")
  case True
  then obtain i where i: "first_hit rs a 1 i" by blast
  have uniq: "j = i" if "accessible rs j a rights" for j
  proof -
    have "\<not> j < i" "\<not> i < j" using that i by (auto simp: accessible_def first_hit_def)
    then show ?thesis by simp
  qed
  show ?thesis
  proof (cases "accessible rs i a rights")
    case True
    let ?E = "Entries rs i"
    obtain off where "VmReservationCanAddressBeAccessed rs pCpu a rights = Some (Some
        (PageRights ?E, Uncacheable ?E, BackingFile ?E, off))"
      using access_first_hit [OF assms i] True by simp
    moreover have "\<exists>off'. Some (PageRights ?E, Uncacheable ?E, BackingFile ?E, off) =
        Some (PageRights (Entries rs j), Uncacheable (Entries rs j), BackingFile (Entries rs j), off')"
      if "accessible rs j a rights" for j
      unfolding uniq [OF that] by blast
    ultimately show ?thesis using True by blast
  next
    case False
    with uniq have "\<not> accessible rs j a rights" for j by blast
    then show ?thesis using access_first_hit [OF assms i] by simp
  qed
next
  case False
  then have "\<not> accessible rs i a rights" for i by (simp add: accessible_def)
  then show ?thesis using access_no_hit [OF assms] False by simp
qed

theorem VmReservationCanAddressBeAccessed_iff_witness:
  "\<exists>res. VmReservationCanAddressBeAccessed demo_space (Some False) 0x10001234 PAGE_RIGHTS_WRITE = Some res \<and>
     res \<noteq> None"
proof -
  have "accessible demo_space 0 0x10001234 PAGE_RIGHTS_WRITE"
    using demo_hit by (simp add: accessible_def demo_entry demo_reservation_def page_no_def bit_at_def
        BitmapGetBit_def IsBooleanFlagOn_def)
  with VmReservationCanAddressBeAccessed_iff [OF demo_space_ok, of "0x10001234" "Some False" PAGE_RIGHTS_WRITE]
  show ?thesis by (auto simp: CHECK_BOUNDS_def demo_space_def)
qed

text \<open>
  An anonymous allocation that reserves and commits succeeds when there is a free slot and
  room for the commit bitmap: it returns the free pointer and the size rounded up to pages,
  keeps the invariants, leaves every existing reservation as it was, and from then on every
  address of the returned range passes the page-fault check for all granted rights.
\<close>

theorem VmReservationSpaceAllocRegion_grants:
  assumes "space_ok rs" and "below_pointer rs" and sl: "slot rs i"
    and "sz \<noteq> 0" and "unat sz + 4095 < 2 ^ 44"
    and "FreeVirtualAddressPointer rs \<noteq> NULL" and "4096 dvd unat (FreeVirtualAddressPointer rs)"
    and "unat (FreeVirtualAddressPointer rs) + unat sz + 4095 < 2 ^ 64"
    and "bitmap_room rs (AlignAddressUpper sz PAGE_SIZE)"
  shows "\<exists>asz cpu rs'. VmReservationSpaceAllocRegion rs pCpu NULL sz
      (VMM_ALLOC_TYPE_RESERVE OR VMM_ALLOC_TYPE_COMMIT) rights unc fobj =
        Some (STATUS_SUCCESS, Some (FreeVirtualAddressPointer rs, asz), cpu, rs') \<and>
    sz \<le> asz \<and> IsAddressAligned asz PAGE_SIZE \<and> space_ok rs' \<and> below_pointer rs' \<and>
    (\<forall>j. reserved rs j \<longrightarrow> reserved rs' j \<and> Entries rs' j = Entries rs j) \<and>
    (\<forall>x r. FreeVirtualAddressPointer rs \<le> x \<longrightarrow> x < FreeVirtualAddressPointer rs + asz \<longrightarrow>
      \<not> CHECK_BOUNDS x 1 (ReservationList rs) (ReservedAreaSize rs) \<longrightarrow> IsBooleanFlagOn rights r \<longrightarrow>
      (\<exists>off. VmReservationCanAddressBeAccessed rs' cpu x r = Some (Some (rights, unc, fobj, off))))"
proof -
  let ?p = "FreeVirtualAddressPointer rs"
  from alloc_correct [OF assms, of pCpu rights unc fobj] obtain asz rs' where
    al: "VmReservationSpaceAllocRegion rs pCpu NULL sz
      (VMM_ALLOC_TYPE_RESERVE OR VMM_ALLOC_TYPE_COMMIT) rights unc fobj =
        Some (STATUS_SUCCESS, Some (?p, asz), map_option (\<lambda>_. False) pCpu, rs')"
      "sz \<le> asz" "IsAddressAligned asz PAGE_SIZE" "space_ok rs'" "below_pointer rs'" and
    md: "ReservationList rs' = ReservationList rs" "ReservedAreaSize rs' = ReservedAreaSize rs" and
    old: "\<forall>j. j \<noteq> i \<longrightarrow> (reserved rs' j \<longleftrightarrow> reserved rs j) \<and> (reserved rs j \<longrightarrow> Entries rs' j = Entries rs j)" and
    hits: "\<forall>x. ?p \<le> x \<and> x < ?p + asz \<longrightarrow>
        first_hit rs' x 1 i \<and> bit_at (CommitBitmap (Entries rs' i)) (page_no (Entries rs' i) x)" and
    new: "PageRights (Entries rs' i) = rights" "Uncacheable (Entries rs' i) = unc"
      "BackingFile (Entries rs' i) = fobj"
    by blast
  have ni: "\<not> reserved rs i" using sl by (auto simp: slot_def reserved_def)
  have keep: "\<forall>j. reserved rs j \<longrightarrow> reserved rs' j \<and> Entries rs' j = Entries rs j"
    using old ni by metis
  have "\<exists>off. VmReservationCanAddressBeAccessed rs' (map_option (\<lambda>_. False) pCpu) x r =
      Some (Some (rights, unc, fobj, off))"
    if x: "?p \<le> x" "x < ?p + asz" "\<not> CHECK_BOUNDS x 1 (ReservationList rs) (ReservedAreaSize rs)"
      "IsBooleanFlagOn rights r" for x r
  proof -
    have fh: "first_hit rs' x 1 i" and cm: "bit_at (CommitBitmap (Entries rs' i)) (page_no (Entries rs' i) x)"
      using hits x(1,2) by blast+
    have "x \<noteq> NULL" using x(1) assms(6) by auto
    moreover have "\<not> CHECK_BOUNDS x 1 (ReservationList rs') (ReservedAreaSize rs')"
      using x(3) md by simp
    moreover have "accessible rs' i x r" using fh cm new x(4) by (simp add: accessible_def)
    ultimately show ?thesis using access_first_hit [OF al(4) _ _ fh] new by simp
  qed
  with al keep show ?thesis by blast
qed

theorem VmReservationSpaceAllocRegion_grants_witness:
  "\<exists>asz cpu rs'. VmReservationSpaceAllocRegion demo_space (Some False) NULL 0x2345
      (VMM_ALLOC_TYPE_RESERVE OR VMM_ALLOC_TYPE_COMMIT) PAGE_RIGHTS_READWRITE False NULL =
        Some (STATUS_SUCCESS, Some (0x20000000, asz), cpu, rs') \<and> space_ok rs'"
proof -
  have "below_pointer demo_space"
    unfolding below_pointer_def demo_reserved
    by (simp add: demo_entry demo_reservation_def) (simp add: demo_space_def)
  moreover have "slot demo_space 1"
    unfolding slot_def demo_reserved by (simp add: demo_space_def demo_reservation_def in_list_def)
  moreover have "bitmap_room demo_space (AlignAddressUpper 0x2345 PAGE_SIZE)"
    by (simp add: bitmap_room_def demo_space_def AlignAddressUpper_def)
  moreover have "FreeVirtualAddressPointer demo_space = 0x20000000" by (simp add: demo_space_def)
  ultimately show ?thesis
    using VmReservationSpaceAllocRegion_grants [OF demo_space_ok, of 1 "0x2345" "Some False"
        PAGE_RIGHTS_READWRITE False NULL]
    by (auto simp: dvd_eq_mod_eq_0)
qed

lemma clear_entry_reserved:
  assumes "State r = VmmReservationStateFree" and "State (Entries rs i) \<noteq> VmmReservationStateLast"
  shows "reserved (set_entry i r rs) j \<longleftrightarrow> j \<noteq> i \<and> reserved rs j"
proof -
  have "State (Entries (set_entry i r rs) k) = VmmReservationStateLast \<longleftrightarrow>
      State (Entries rs k) = VmmReservationStateLast" for k
    using assms by (simp add: set_entry_def)
  moreover have "in_list (set_entry i r rs) k = in_list rs k" for k
    by (simp add: set_entry_def in_list_def)
  ultimately have "live (set_entry i r rs) j \<longleftrightarrow> live rs j" by (simp add: live_def)
  then show ?thesis using assms(1) by (auto simp: reserved_def set_entry_def)
qed

lemma free_region_correct:
  assumes ok: "space_ok rs" and a: "a \<noteq> NULL" and nowrap: "unat a + 1 < 2 ^ 64"
    and fh: "first_hit rs a 1 i"
  shows "\<exists>cpu rs'. VmReservationSpaceFreeRegion rs pCpu a 0 VMM_FREE_TYPE_RELEASE =
      Some (StartVa (Entries rs i), Size (Entries rs i),
        MmuUnmapMemoryEx (BitmapBuffer (CommitBitmap (Entries rs i))) (BufferSize (CommitBitmap (Entries rs i))) #
          (if BackingFile (Entries rs i) = NULL then [] else [IoCloseFile (BackingFile (Entries rs i))]),
        cpu, rs') \<and>
    space_ok rs' \<and> (\<forall>x r. \<not> accessible rs' i x r) \<and>
    (\<forall>j. j \<noteq> i \<longrightarrow> (reserved rs' j \<longleftrightarrow> reserved rs j) \<and> Entries rs' j = Entries rs j)"
proof -
  let ?r = "Entries rs i"
  let ?z = "(VMM_RESERVATION_ZERO ?r)\<lparr>State := VmmReservationStateFree\<rparr>"
  let ?rs = "set_entry i ?z rs"
  have r: "reserved rs i" "reservation_ok ?r" using ok fh by (auto simp: space_ok_def first_hit_def)
  then have st: "State ?r \<noteq> VmmReservationStateLast" by (simp add: reserved_def)
  have res: "reserved ?rs j \<longleftrightarrow> j \<noteq> i \<and> reserved rs j" for j
    by (rule clear_entry_reserved [OF _ st]) simp
  have find: "VmFindReservation rs a 1 = Some (STATUS_SUCCESS, Some i)"
    using find_first_hit [OF ok _ a _ fh] nowrap by simp
  have un: "VmUninitializeReservation ?r =
      Some (MmuUnmapMemoryEx (BitmapBuffer (CommitBitmap ?r)) (BufferSize (CommitBitmap ?r)) #
        (if BackingFile ?r = NULL then [] else [IoCloseFile (BackingFile ?r)]))"
    using r(2) by (simp add: VmUninitializeReservation_def IsAddressAligned_page reservation_ok_def)
  have free: "VmReservationSpaceFreeRegion rs pCpu a 0 VMM_FREE_TYPE_RELEASE =
      Some (StartVa ?r, Size ?r, MmuUnmapMemoryEx (BitmapBuffer (CommitBitmap ?r)) (BufferSize (CommitBitmap ?r)) #
        (if BackingFile ?r = NULL then [] else [IoCloseFile (BackingFile ?r)]),
        map_option (\<lambda>_. False) pCpu, ?rs)"
    using a find by (simp add: VmReservationSpaceFreeRegion_def IsBooleanFlagOn_def un Let_def)
  have E: "Entries ?rs j = Entries rs j" if "j \<noteq> i" for j using that by (simp add: set_entry_def)
  have "space_ok ?rs"
    using ok E unfolding space_ok_def res by (auto simp: set_entry_def)
  moreover have "\<not> accessible ?rs i x rq" for x rq
    by (simp add: accessible_def first_hit_def res)
  ultimately show ?thesis using free res E by blast
qed

text \<open>
  Releasing the reservation that covers an address never halts: it reports the whole
  reserved range for unmapping, unmaps the commit bitmap, closes the backing file exactly when
  there is one, and afterwards this reservation grants no access to any address while every other
  reservation is unchanged.
\<close>

theorem VmReservationSpaceFreeRegion_releases:
  assumes ok: "space_ok rs" and a: "a \<noteq> NULL" and nowrap: "unat a + 1 < 2 ^ 64"
    and fh: "first_hit rs a 1 i"
  shows "\<exists>cpu rs'. VmReservationSpaceFreeRegion rs pCpu a 0 VMM_FREE_TYPE_RELEASE =
      Some (StartVa (Entries rs i), Size (Entries rs i),
        MmuUnmapMemoryEx (BitmapBuffer (CommitBitmap (Entries rs i))) (BufferSize (CommitBitmap (Entries rs i))) #
          (if BackingFile (Entries rs i) = NULL then [] else [IoCloseFile (BackingFile (Entries rs i))]),
        cpu, rs') \<and>
    space_ok rs' \<and> (\<forall>x r. \<not> accessible rs' i x r) \<and>
    (\<forall>j. j \<noteq> i \<longrightarrow> (reserved rs' j \<longleftrightarrow> reserved rs j) \<and> Entries rs' j = Entries rs j)"
  using assms by (rule free_region_correct)

theorem VmReservationSpaceFreeRegion_releases_witness:
  "\<exists>cpu rs'. VmReservationSpaceFreeRegion demo_space (Some False) 0x10001234 0 VMM_FREE_TYPE_RELEASE =
     Some (0x10000000, 0x4000, [MmuUnmapMemoryEx 0x110000 1], cpu, rs') \<and> space_ok rs'"
  using VmReservationSpaceFreeRegion_releases [OF demo_space_ok _ _ demo_hit, of "Some False"]
  by (auto simp: demo_entry demo_reservation_def)

text \<open>
  The check for an existing reservation only finds one that covers the whole requested range, so
  a range that begins inside a reservation and ends behind it is reserved a second time.
\<close>

lemma overlapping_reservation_accepted:
  "\<exists>rs'. VmChangeVaReservationState demo_space 0x10002000 0x4000 VMM_ALLOC_TYPE_RESERVE 1 False NULL =
     Some (STATUS_SUCCESS, rs') \<and> reserved rs' 0 \<and> reserved rs' 1 \<and>
     covers (Entries rs' 0) 0x10003000 1 \<and> covers (Entries rs' 1) 0x10003000 1"
proof -
  have sl: "slot demo_space 1"
    unfolding slot_def demo_reserved by (simp add: demo_space_def demo_reservation_def in_list_def)
  have none: "\<not> hit demo_space 0x10002000 0x4000 j" for j
    by (simp add: hit_def) (auto simp: demo_entry demo_reservation_def CHECK_BOUNDS_def)
  have room: "bitmap_room demo_space 0x4000" by (simp add: bitmap_room_def demo_space_def)
  from reserve_correct [OF demo_space_ok sl none _ _ _ _ _ _ room, of 1 False NULL] obtain rs' where
    "VmChangeVaReservationState demo_space 0x10002000 0x4000 VMM_ALLOC_TYPE_RESERVE 1 False NULL =
       Some (STATUS_SUCCESS, rs')" "reserved rs' 1" "StartVa (Entries rs' 1) = 0x10002000"
      "Size (Entries rs' 1) = 0x4000" "reserved rs' 0" "Entries rs' 0 = demo_reservation"
    by (auto simp: dvd_eq_mod_eq_0 demo_entry)
  then show ?thesis by (auto simp: covers_def demo_reservation_def)
qed

end
