(* ===== verification/Spinlocks.thy ===== *)
theory Spinlocks
  imports Prelude
begin

text \<open>
  The exclusive locks of the kernel: \<^verbatim>\<open>CommonLib/src/spinlock.c\<close>,
  \<^verbatim>\<open>monlock.c\<close> and the dispatch table of \<^verbatim>\<open>lock_common.c\<close>.

  The first half gives every operation as a call that is not interfered with: the state of the
  CPU that makes the call (its identity and interrupt flag) and the lock are passed explicitly,
  and spinning on a lock that nobody can release meanwhile is the result \<open>None\<close>. The
  second half runs the memory accesses of \<open>SpinlockAcquire\<close> and \<open>SpinlockRelease\<close> of any
  number of CPUs in any interleaving.
\<close>

section \<open>The operations\<close>

record SPINLOCK =
  State :: BYTE
  Holder :: PVOID
  FunctionWhichTookLock :: PVOID

record MONITOR_LOCK =
  Lock :: SPINLOCK

record CPU =
  CpuId :: PVOID
  IntrOn :: bool

abbreviation LOCK_TAKEN :: BYTE where "LOCK_TAKEN \<equiv> 1"
abbreviation LOCK_FREE :: BYTE where "LOCK_FREE \<equiv> 0"

definition CpuIntrDisable :: "CPU \<Rightarrow> bool \<times> CPU" where
  "CpuIntrDisable cpu = (IntrOn cpu, cpu\<lparr>IntrOn := False\<rparr>)"

definition CpuIntrSetState :: "bool \<Rightarrow> CPU \<Rightarrow> CPU" where
  "CpuIntrSetState s cpu = cpu\<lparr>IntrOn := s\<rparr>"

definition InterlockedCompareExchange8 :: "BYTE \<Rightarrow> BYTE \<Rightarrow> BYTE \<Rightarrow> BYTE \<times> BYTE" where
  "InterlockedCompareExchange8 dest new comparand =
     (dest, if dest = comparand then new else dest)"

definition SpinlockInit :: "SPINLOCK \<Rightarrow> SPINLOCK" where
  "SpinlockInit l = \<lparr>State = LOCK_FREE, Holder = NULL, FunctionWhichTookLock = NULL\<rparr>"

definition SpinlockAcquire :: "CPU \<Rightarrow> PVOID \<Rightarrow> SPINLOCK \<Rightarrow> (bool \<times> CPU \<times> SPINLOCK) option" where
  "SpinlockAcquire cpu ret l = do {
     let (intr, cpu) = CpuIntrDisable cpu;
     ASSERT (CpuId cpu \<noteq> Holder l);
     let (old, st) = InterlockedCompareExchange8 (State l) LOCK_TAKEN LOCK_FREE;
     (if old = LOCK_TAKEN then None
      else do {
        let l = l\<lparr>State := st\<rparr>;
        ASSERT (FunctionWhichTookLock l = NULL);
        ASSERT (Holder l = NULL);
        let l = l\<lparr>Holder := CpuId cpu\<rparr>;
        let l = l\<lparr>FunctionWhichTookLock := ret\<rparr>;
        ASSERT (State l = LOCK_TAKEN);
        Some (intr, cpu, l)
      })
   }"

definition SpinlockTryAcquire :: "CPU \<Rightarrow> SPINLOCK \<Rightarrow> bool \<times> bool \<times> CPU \<times> SPINLOCK" where
  "SpinlockTryAcquire cpu l =
     (let (intr, cpu) = CpuIntrDisable cpu;
          (old, st) = InterlockedCompareExchange8 (State l) LOCK_TAKEN LOCK_FREE;
          l = l\<lparr>State := st\<rparr>;
          acquired = (old = LOCK_FREE)
      in (acquired, intr, if \<not> acquired then CpuIntrSetState intr cpu else cpu, l))"

definition SpinlockIsOwner :: "CPU \<Rightarrow> SPINLOCK \<Rightarrow> bool" where
  "SpinlockIsOwner cpu l \<longleftrightarrow> CpuId cpu = Holder l"

definition SpinlockRelease :: "CPU \<Rightarrow> SPINLOCK \<Rightarrow> bool \<Rightarrow> (CPU \<times> SPINLOCK) option" where
  "SpinlockRelease cpu l OldIntrState = do {
     ASSERT (CpuId cpu = Holder l);
     ASSERT (\<not> IntrOn cpu);
     let l = l\<lparr>Holder := NULL\<rparr>;
     let l = l\<lparr>FunctionWhichTookLock := NULL\<rparr>;
     let l = l\<lparr>State := LOCK_FREE\<rparr>;
     Some (CpuIntrSetState OldIntrState cpu, l)
   }"

text \<open>
  The monitor lock embeds a spinlock and waits with \<open>monitor\<close>/\<open>mwait\<close> instead of
  \<open>pause\<close>. Its loop ends only when the exchange saw \<open>LOCK_FREE\<close>.
\<close>

definition MonitorLockInit :: "MONITOR_LOCK \<Rightarrow> MONITOR_LOCK" where
  "MonitorLockInit m =
     m\<lparr>Lock := \<lparr>State = LOCK_FREE, Holder = NULL, FunctionWhichTookLock = NULL\<rparr>\<rparr>"

definition MonitorLockAcquire :: "CPU \<Rightarrow> PVOID \<Rightarrow> MONITOR_LOCK \<Rightarrow> (bool \<times> CPU \<times> MONITOR_LOCK) option" where
  "MonitorLockAcquire cpu ret m = do {
     let (intr, cpu) = CpuIntrDisable cpu;
     ASSERT (CpuId cpu \<noteq> Holder (Lock m));
     let (old, st) = InterlockedCompareExchange8 (State (Lock m)) LOCK_TAKEN LOCK_FREE;
     (if old \<noteq> LOCK_FREE then None
      else do {
        let l = (Lock m)\<lparr>State := st\<rparr>;
        ASSERT (FunctionWhichTookLock l = NULL);
        ASSERT (Holder l = NULL);
        let l = l\<lparr>Holder := CpuId cpu\<rparr>;
        let l = l\<lparr>FunctionWhichTookLock := ret\<rparr>;
        ASSERT (State l = LOCK_TAKEN);
        Some (intr, cpu, m\<lparr>Lock := l\<rparr>)
      })
   }"

definition MonitorLockTryAcquire :: "CPU \<Rightarrow> MONITOR_LOCK \<Rightarrow> bool \<times> bool \<times> CPU \<times> MONITOR_LOCK" where
  "MonitorLockTryAcquire cpu m =
     (let (intr, cpu) = CpuIntrDisable cpu;
          (old, st) = InterlockedCompareExchange8 (State (Lock m)) LOCK_TAKEN LOCK_FREE;
          m = m\<lparr>Lock := (Lock m)\<lparr>State := st\<rparr>\<rparr>;
          acquired = (old = LOCK_FREE)
      in (acquired, intr, if \<not> acquired then CpuIntrSetState intr cpu else cpu, m))"

definition MonitorLockIsOwner :: "CPU \<Rightarrow> MONITOR_LOCK \<Rightarrow> bool" where
  "MonitorLockIsOwner cpu m \<longleftrightarrow> CpuId cpu = Holder (Lock m)"

definition MonitorLockRelease :: "CPU \<Rightarrow> MONITOR_LOCK \<Rightarrow> bool \<Rightarrow> (CPU \<times> MONITOR_LOCK) option" where
  "MonitorLockRelease cpu m OldIntrState = do {
     ASSERT (CpuId cpu = Holder (Lock m));
     ASSERT (\<not> IntrOn cpu);
     let l = (Lock m)\<lparr>Holder := NULL\<rparr>;
     let l = l\<lparr>FunctionWhichTookLock := NULL\<rparr>;
     let l = l\<lparr>State := LOCK_FREE\<rparr>;
     Some (CpuIntrSetState OldIntrState cpu, m\<lparr>Lock := l\<rparr>)
   }"

text \<open>
  The \<open>LOCK\<close> union is the same bytes under both views, which is the monitor lock record. The
  global function pointers are a record that \<open>LockSystemInit\<close> fills.
\<close>

record LOCK_OPS =
  LockInit :: "MONITOR_LOCK \<Rightarrow> MONITOR_LOCK"
  LockAcquire :: "CPU \<Rightarrow> PVOID \<Rightarrow> MONITOR_LOCK \<Rightarrow> (bool \<times> CPU \<times> MONITOR_LOCK) option"
  LockTryAcquire :: "CPU \<Rightarrow> MONITOR_LOCK \<Rightarrow> bool \<times> bool \<times> CPU \<times> MONITOR_LOCK"
  LockIsOwner :: "CPU \<Rightarrow> MONITOR_LOCK \<Rightarrow> bool"
  LockRelease :: "CPU \<Rightarrow> MONITOR_LOCK \<Rightarrow> bool \<Rightarrow> (CPU \<times> MONITOR_LOCK) option"

definition LockSystemInit :: "bool \<Rightarrow> LOCK_OPS" where
  "LockSystemInit MonitorSupport =
     (if MonitorSupport then
        \<lparr>LockInit = MonitorLockInit, LockAcquire = MonitorLockAcquire,
         LockTryAcquire = MonitorLockTryAcquire, LockIsOwner = MonitorLockIsOwner,
         LockRelease = MonitorLockRelease\<rparr>
      else
        \<lparr>LockInit = (\<lambda>m. m\<lparr>Lock := SpinlockInit (Lock m)\<rparr>),
         LockAcquire = (\<lambda>cpu ret m. map_option (\<lambda>(i, c, l). (i, c, m\<lparr>Lock := l\<rparr>)) (SpinlockAcquire cpu ret (Lock m))),
         LockTryAcquire = (\<lambda>cpu m. case SpinlockTryAcquire cpu (Lock m) of (a, i, c, l) \<Rightarrow> (a, i, c, m\<lparr>Lock := l\<rparr>)),
         LockIsOwner = (\<lambda>cpu m. SpinlockIsOwner cpu (Lock m)),
         LockRelease = (\<lambda>cpu m s. map_option (\<lambda>(c, l). (c, m\<lparr>Lock := l\<rparr>)) (SpinlockRelease cpu (Lock m) s))\<rparr>)"

section \<open>Interface: an exclusive lock\<close>

text \<open>
  What the users of a lock rely on. \<open>section_with\<close> is the pattern of every critical section
  in the kernel: acquire, run the body with interrupts off, release.
\<close>

locale exclusive_lock =
  fixes acquire :: "CPU \<Rightarrow> PVOID \<Rightarrow> 'l \<Rightarrow> (bool \<times> CPU \<times> 'l) option"
    and release :: "CPU \<Rightarrow> 'l \<Rightarrow> bool \<Rightarrow> (CPU \<times> 'l) option"
    and is_free :: "'l \<Rightarrow> bool"
    and owner :: "'l \<Rightarrow> PVOID \<Rightarrow> bool"
  assumes acquire_free: "is_free l \<Longrightarrow> CpuId cpu \<noteq> NULL \<Longrightarrow>
      \<exists>l'. acquire cpu ret l = Some (IntrOn cpu, cpu\<lparr>IntrOn := False\<rparr>, l') \<and> owner l' (CpuId cpu) \<and> \<not> is_free l'"
    and acquire_taken: "owner l c \<Longrightarrow> acquire cpu ret l = None"
    and release_owner: "owner l (CpuId cpu) \<Longrightarrow> \<not> IntrOn cpu \<Longrightarrow>
      \<exists>l'. release cpu l s = Some (cpu\<lparr>IntrOn := s\<rparr>, l') \<and> is_free l'"
    and release_other: "owner l c \<Longrightarrow> c \<noteq> CpuId cpu \<Longrightarrow> release cpu l s = None"
begin

definition section_with :: "CPU \<Rightarrow> PVOID \<Rightarrow> 'l \<Rightarrow> ('a \<Rightarrow> ('b \<times> 'a) option) \<Rightarrow> 'a \<Rightarrow> ('b \<times> CPU \<times> 'l \<times> 'a) option" where
  "section_with cpu ret l body s = do {
     (intr, cpu, l) \<leftarrow> acquire cpu ret l;
     (r, s) \<leftarrow> body s;
     (cpu, l) \<leftarrow> release cpu l intr;
     Some (r, cpu, l, s)
   }"

lemma section_with_ok:
  assumes "is_free l" and "CpuId cpu \<noteq> NULL" and "body s = Some (r, s')"
  shows "\<exists>l'. section_with cpu ret l body s = Some (r, cpu, l', s') \<and> is_free l'"
proof -
  obtain l1 where a: "acquire cpu ret l = Some (IntrOn cpu, cpu\<lparr>IntrOn := False\<rparr>, l1)" "owner l1 (CpuId cpu)"
    using acquire_free [OF assms(1,2)] by blast
  then obtain l2 where "release (cpu\<lparr>IntrOn := False\<rparr>) l1 (IntrOn cpu) = Some (cpu, l2)" "is_free l2"
    using release_owner [of l1 "cpu\<lparr>IntrOn := False\<rparr>" "IntrOn cpu"] by auto
  with a assms(3) show ?thesis by (simp add: section_with_def)
qed

lemma section_with_nested_halts:
  "is_free l \<Longrightarrow> CpuId cpu \<noteq> NULL \<Longrightarrow>
   \<exists>i c l'. acquire cpu ret l = Some (i, c, l') \<and> section_with c ret' l' body s = None"
  using acquire_free [of l cpu ret] acquire_taken by (force simp: section_with_def)

end

definition lock_free :: "MONITOR_LOCK \<Rightarrow> bool" where
  "lock_free m \<longleftrightarrow> State (Lock m) = LOCK_FREE \<and> Holder (Lock m) = NULL \<and> FunctionWhichTookLock (Lock m) = NULL"

definition lock_owner :: "MONITOR_LOCK \<Rightarrow> PVOID \<Rightarrow> bool" where
  "lock_owner m c \<longleftrightarrow> State (Lock m) = LOCK_TAKEN \<and> Holder (Lock m) = c \<and> c \<noteq> NULL"

lemmas spinlock_defs =
  SpinlockAcquire_def SpinlockRelease_def SpinlockTryAcquire_def MonitorLockAcquire_def
  MonitorLockRelease_def MonitorLockTryAcquire_def CpuIntrDisable_def CpuIntrSetState_def
  InterlockedCompareExchange8_def lock_free_def lock_owner_def

interpretation lk: exclusive_lock "LockAcquire (LockSystemInit b)" "LockRelease (LockSystemInit b)"
  lock_free lock_owner for b
  by unfold_locales (cases b; auto simp: LockSystemInit_def spinlock_defs)+

section \<open>All interleavings of the spinlock\<close>

text \<open>
  One lock, any number of CPUs. A step of CPU \<open>c\<close> is one access to shared memory of
  \<open>SpinlockAcquire\<close> or \<open>SpinlockRelease\<close>, in the order of the code; the program counter
  names the access that comes next. Outside of the functions a CPU may start an acquire, and
  \<open>Inside\<close>, holding the lock, it may start the release. A failed assertion stops the CPU in
  \<open>Halted\<close>. \<open>ret c\<close> is the return address stored by CPU \<open>c\<close>.
\<close>

datatype spin_pc =
    Outside | AcqCheckHolder | AcqExchange | AcqCheckFunction | AcqCheckFree | AcqSetHolder
  | AcqSetFunction | AcqCheckState | Inside
  | RelCheckHolder | RelClearHolder | RelClearFunction | RelExchange | RelIntr | Halted

record spin_system =
  SLock :: SPINLOCK
  Pc :: "PVOID \<Rightarrow> spin_pc"
  Intr :: "PVOID \<Rightarrow> bool"
  Saved :: "PVOID \<Rightarrow> bool"

definition goto :: "PVOID \<Rightarrow> spin_pc \<Rightarrow> spin_system \<Rightarrow> spin_system" where
  "goto c p s = s\<lparr>Pc := (Pc s)(c := p)\<rparr>"

definition check :: "PVOID \<Rightarrow> bool \<Rightarrow> spin_pc \<Rightarrow> spin_system \<Rightarrow> spin_system" where
  "check c b p s = goto c (if b then p else Halted) s"

definition spin_step :: "(PVOID \<Rightarrow> PVOID) \<Rightarrow> PVOID \<Rightarrow> spin_system \<Rightarrow> spin_system" where
  "spin_step ret c s =
     (let l = SLock s in
      case Pc s c of
        Outside \<Rightarrow> goto c AcqCheckHolder
          (s\<lparr>Saved := (Saved s)(c := Intr s c), Intr := (Intr s)(c := False)\<rparr>)
      | AcqCheckHolder \<Rightarrow> check c (c \<noteq> Holder l) AcqExchange s
      | AcqExchange \<Rightarrow>
          (case InterlockedCompareExchange8 (State l) LOCK_TAKEN LOCK_FREE of (old, st) \<Rightarrow>
             goto c (if old = LOCK_TAKEN then AcqExchange else AcqCheckFunction) (s\<lparr>SLock := l\<lparr>State := st\<rparr>\<rparr>))
      | AcqCheckFunction \<Rightarrow> check c (FunctionWhichTookLock l = NULL) AcqCheckFree s
      | AcqCheckFree \<Rightarrow> check c (Holder l = NULL) AcqSetHolder s
      | AcqSetHolder \<Rightarrow> goto c AcqSetFunction (s\<lparr>SLock := l\<lparr>Holder := c\<rparr>\<rparr>)
      | AcqSetFunction \<Rightarrow> goto c AcqCheckState (s\<lparr>SLock := l\<lparr>FunctionWhichTookLock := ret c\<rparr>\<rparr>)
      | AcqCheckState \<Rightarrow> check c (State l = LOCK_TAKEN) Inside s
      | Inside \<Rightarrow> goto c RelCheckHolder s
      | RelCheckHolder \<Rightarrow> check c (c = Holder l \<and> \<not> Intr s c) RelClearHolder s
      | RelClearHolder \<Rightarrow> goto c RelClearFunction (s\<lparr>SLock := l\<lparr>Holder := NULL\<rparr>\<rparr>)
      | RelClearFunction \<Rightarrow> goto c RelExchange (s\<lparr>SLock := l\<lparr>FunctionWhichTookLock := NULL\<rparr>\<rparr>)
      | RelExchange \<Rightarrow> goto c RelIntr (s\<lparr>SLock := l\<lparr>State := LOCK_FREE\<rparr>\<rparr>)
      | RelIntr \<Rightarrow> goto c Outside (s\<lparr>Intr := (Intr s)(c := Saved s c)\<rparr>)
      | Halted \<Rightarrow> s)"

definition spin_init :: "SPINLOCK \<Rightarrow> (PVOID \<Rightarrow> bool) \<Rightarrow> spin_system" where
  "spin_init l intr = \<lparr>SLock = SpinlockInit l, Pc = (\<lambda>_. Outside), Intr = intr, Saved = intr\<rparr>"

text \<open>Every schedule is a list of CPU identities; no CPU has the identity NULL.\<close>

definition spin_run :: "(PVOID \<Rightarrow> PVOID) \<Rightarrow> PVOID list \<Rightarrow> spin_system \<Rightarrow> spin_system" where
  "spin_run ret cs s = fold (spin_step ret) cs s"

definition waiting :: "spin_pc \<Rightarrow> bool" where
  "waiting p \<longleftrightarrow> p \<in> {Outside, AcqCheckHolder, AcqExchange, RelIntr}"

definition lock_matches :: "(PVOID \<Rightarrow> PVOID) \<Rightarrow> SPINLOCK \<Rightarrow> PVOID \<Rightarrow> spin_pc \<Rightarrow> bool" where
  "lock_matches ret l c p \<longleftrightarrow> State l = LOCK_TAKEN \<and>
     Holder l = (if p \<in> {AcqCheckFunction, AcqCheckFree, AcqSetHolder, RelClearFunction, RelExchange} then NULL else c) \<and>
     FunctionWhichTookLock l =
       (if p \<in> {AcqCheckFunction, AcqCheckFree, AcqSetHolder, AcqSetFunction, RelExchange} then NULL else ret c) \<and>
     \<not> waiting p \<and> p \<noteq> Halted"

definition spin_inv :: "(PVOID \<Rightarrow> PVOID) \<Rightarrow> spin_system \<Rightarrow> bool" where
  "spin_inv ret s \<longleftrightarrow>
     (\<forall>c. Pc s c \<noteq> Outside \<longrightarrow> \<not> Intr s c) \<and>
     ((\<forall>c. waiting (Pc s c)) \<and> SLock s = \<lparr>State = LOCK_FREE, Holder = NULL, FunctionWhichTookLock = NULL\<rparr> \<or>
      (\<exists>h. h \<noteq> NULL \<and> lock_matches ret (SLock s) h (Pc s h) \<and> (\<forall>c. c \<noteq> h \<longrightarrow> waiting (Pc s c))))"

lemmas spin_step_simps = spin_step_def goto_def check_def waiting_def InterlockedCompareExchange8_def

lemma spin_step_others: "d \<noteq> c \<Longrightarrow> Pc (spin_step ret c s) d = Pc s d \<and> Intr (spin_step ret c s) d = Intr s d"
  by (simp add: spin_step_simps Let_def split: spin_pc.split prod.split)

lemma spin_step_intr:
  "\<forall>d. Pc s d \<noteq> Outside \<longrightarrow> \<not> Intr s d \<Longrightarrow> Pc (spin_step ret c s) d \<noteq> Outside \<Longrightarrow> \<not> Intr (spin_step ret c s) d"
  by (cases "d = c"; cases "Pc s c") (auto simp: spin_step_simps Let_def split: if_splits)

lemma spin_step_waiting:
  assumes "waiting (Pc s c)" and "State (SLock s) = LOCK_TAKEN" and "Holder (SLock s) \<noteq> c"
  shows "SLock (spin_step ret c s) = SLock s" and "waiting (Pc (spin_step ret c s) c)"
  using assms by (auto simp: spin_step_simps Let_def)

lemma spin_step_owner:
  assumes "lock_matches ret (SLock s) c (Pc s c)" and "c \<noteq> NULL" and "\<not> Intr s c"
  shows "lock_matches ret (SLock (spin_step ret c s)) c (Pc (spin_step ret c s) c) \<or>
    (SLock (spin_step ret c s) = \<lparr>State = LOCK_FREE, Holder = NULL, FunctionWhichTookLock = NULL\<rparr> \<and>
     waiting (Pc (spin_step ret c s) c))"
  using assms by (cases "Pc s c") (auto simp: spin_step_simps lock_matches_def)

lemma spin_step_free:
  assumes "SLock s = \<lparr>State = LOCK_FREE, Holder = NULL, FunctionWhichTookLock = NULL\<rparr>"
    and "waiting (Pc s c)" and "c \<noteq> NULL"
  shows "lock_matches ret (SLock (spin_step ret c s)) c (Pc (spin_step ret c s) c) \<or>
    (SLock (spin_step ret c s) = \<lparr>State = LOCK_FREE, Holder = NULL, FunctionWhichTookLock = NULL\<rparr> \<and>
     waiting (Pc (spin_step ret c s) c))"
  using assms by (cases "Pc s c") (auto simp: spin_step_simps lock_matches_def)

lemma spin_step_inv:
  assumes "spin_inv ret s" and "c \<noteq> NULL"
  shows "spin_inv ret (spin_step ret c s)"
proof -
  have i: "\<forall>d. Pc s d \<noteq> Outside \<longrightarrow> \<not> Intr s d" using assms(1) by (simp add: spin_inv_def)
  let ?s = "spin_step ret c s"
  have self: "spin_inv ret ?s"
    if "lock_matches ret (SLock ?s) c (Pc ?s c) \<or>
      (SLock ?s = \<lparr>State = LOCK_FREE, Holder = NULL, FunctionWhichTookLock = NULL\<rparr> \<and> waiting (Pc ?s c))"
      and "\<forall>d. d \<noteq> c \<longrightarrow> waiting (Pc s d)"
  proof -
    have "\<forall>d. d \<noteq> c \<longrightarrow> waiting (Pc ?s d)" using that(2) spin_step_others by simp
    with that(1) assms(2) spin_step_intr [OF i] show ?thesis unfolding spin_inv_def by metis
  qed
  from assms(1) consider
      (free) "\<forall>d. waiting (Pc s d)" "SLock s = \<lparr>State = LOCK_FREE, Holder = NULL, FunctionWhichTookLock = NULL\<rparr>"
    | (owner) "lock_matches ret (SLock s) c (Pc s c)" "\<forall>d. d \<noteq> c \<longrightarrow> waiting (Pc s d)"
    | (other) h where "h \<noteq> NULL" "h \<noteq> c" "lock_matches ret (SLock s) h (Pc s h)" "\<forall>d. d \<noteq> h \<longrightarrow> waiting (Pc s d)"
    unfolding spin_inv_def by blast
  then show ?thesis
  proof cases
    case free
    then show ?thesis using spin_step_free [OF free(2) _ assms(2)] self by blast
  next
    case owner
    have "\<not> Intr s c" using owner(1) i by (auto simp: lock_matches_def waiting_def)
    with owner show ?thesis using spin_step_owner [OF owner(1) assms(2)] self by blast
  next
    case other
    have w: "waiting (Pc s c)" using other(2,4) by metis
    have l: "State (SLock s) = LOCK_TAKEN" "Holder (SLock s) \<noteq> c"
      using other(1-3) assms(2) by (auto simp: lock_matches_def split: if_splits)
    have "\<forall>d. d \<noteq> h \<longrightarrow> waiting (Pc ?s d)"
    proof (intro allI impI)
      fix d assume "d \<noteq> h"
      then show "waiting (Pc ?s d)"
        using spin_step_waiting(2) [OF w l] spin_step_others other(4) by (cases "d = c") auto
    qed
    moreover have "lock_matches ret (SLock ?s) h (Pc ?s h)"
      using other(2,3) spin_step_waiting(1) [OF w l] spin_step_others [of h c] by simp
    ultimately show ?thesis
      using other(1) spin_step_intr [OF i] unfolding spin_inv_def by blast
  qed
qed

lemma spin_run_inv: "spin_inv ret s \<Longrightarrow> NULL \<notin> set cs \<Longrightarrow> spin_inv ret (spin_run ret cs s)"
  unfolding spin_run_def by (induction cs arbitrary: s) (auto simp: spin_step_inv)

lemma spin_init_inv: "spin_inv ret (spin_init l intr)"
  by (simp add: spin_inv_def spin_init_def SpinlockInit_def waiting_def)

section \<open>Properties\<close>

text \<open>
  C6. Under every interleaving of any number of CPUs, at most one CPU is between acquire and
  release, the lock records this CPU as its holder, its interrupts are off, and no assertion of
  \<open>SpinlockAcquire\<close> or \<open>SpinlockRelease\<close> ever fails (the holder and function fields are
  cleared before the state is released, so the next owner finds them empty).
\<close>

theorem spinlock_mutual_exclusion:
  assumes "NULL \<notin> set cs" and "s = spin_run ret cs (spin_init l intr)"
  shows "Pc s c \<noteq> Halted \<and> (Pc s c = Inside \<longrightarrow> Holder (SLock s) = c \<and> \<not> Intr s c \<and>
    (\<forall>d. Pc s d = Inside \<longrightarrow> d = c))"
proof -
  have inv: "spin_inv ret s" unfolding assms(2) by (rule spin_run_inv [OF spin_init_inv assms(1)])
  then have "\<forall>c. Pc s c \<noteq> Outside \<longrightarrow> \<not> Intr s c" by (simp add: spin_inv_def)
  moreover from inv consider "\<forall>c. waiting (Pc s c)"
    | h where "lock_matches ret (SLock s) h (Pc s h)" "\<forall>d. d \<noteq> h \<longrightarrow> waiting (Pc s d)"
    unfolding spin_inv_def by blast
  then have "Pc s c \<noteq> Halted \<and> (Pc s c = Inside \<longrightarrow> Holder (SLock s) = c \<and> (\<forall>d. Pc s d = Inside \<longrightarrow> d = c))"
  proof cases
    case 1
    then have "waiting (Pc s c)" by blast
    then show ?thesis by (auto simp: waiting_def)
  next
    case 2
    have only: "d = h" if "Pc s d = Inside \<or> Pc s d = Halted" for d
    proof (rule ccontr)
      assume "d \<noteq> h"
      with 2(2) have "waiting (Pc s d)" by blast
      with that show False by (auto simp: waiting_def)
    qed
    have "Pc s c \<noteq> Halted"
    proof
      assume "Pc s c = Halted"
      with only 2(1) show False by (auto simp: lock_matches_def)
    qed
    moreover have "Holder (SLock s) = c \<and> (\<forall>d. Pc s d = Inside \<longrightarrow> d = c)" if "Pc s c = Inside"
    proof -
      have "c = h" using only that by blast
      with that 2(1) only show ?thesis by (auto simp: lock_matches_def)
    qed
    ultimately show ?thesis by blast
  qed
  ultimately show ?thesis by auto
qed

theorem spinlock_mutual_exclusion_witness:
  "Pc (spin_run (\<lambda>_. 99) [1, 2, 1, 1, 2, 1, 2, 1, 1, 1, 1, 2]
     (spin_init \<lparr>State = 7, Holder = 1, FunctionWhichTookLock = 5\<rparr> (\<lambda>_. True))) 2 \<noteq> Halted"
  using spinlock_mutual_exclusion [of "[1, 2, 1, 1, 2, 1, 2, 1, 1, 1, 1, 2]" _ "\<lambda>_. 99"
    "\<lparr>State = 7, Holder = 1, FunctionWhichTookLock = 5\<rparr>" "\<lambda>_. True" 2]
  by simp

text \<open>
  Whichever lock the system selected, a critical section on a free lock works: acquiring
  it succeeds, turns interrupts off and makes the CPU the owner; acquiring it again on the same
  CPU never returns (it is not recursive); releasing it restores the interrupt state of before
  and leaves the lock free.
\<close>

theorem lock_critical_section:
  assumes "lock_free m" and "CpuId cpu \<noteq> NULL"
  shows "\<exists>intr cpu' m1 m2. LockAcquire (LockSystemInit b) cpu ret m = Some (intr, cpu', m1) \<and>
    \<not> IntrOn cpu' \<and> LockIsOwner (LockSystemInit b) cpu' m1 \<and>
    LockAcquire (LockSystemInit b) cpu' ret' m1 = None \<and>
    LockRelease (LockSystemInit b) cpu' m1 intr = Some (cpu, m2) \<and> lock_free m2"
proof -
  obtain m1 where a: "LockAcquire (LockSystemInit b) cpu ret m = Some (IntrOn cpu, cpu\<lparr>IntrOn := False\<rparr>, m1)"
      "lock_owner m1 (CpuId cpu)"
    using lk.acquire_free [OF assms, of b ret] by blast
  then obtain m2 where r: "LockRelease (LockSystemInit b) (cpu\<lparr>IntrOn := False\<rparr>) m1 (IntrOn cpu) = Some (cpu, m2)"
      "lock_free m2"
    using lk.release_owner [of m1 "cpu\<lparr>IntrOn := False\<rparr>" b "IntrOn cpu"] by auto
  have "LockIsOwner (LockSystemInit b) (cpu\<lparr>IntrOn := False\<rparr>) m1"
    using a(2) by (simp add: LockSystemInit_def lock_owner_def MonitorLockIsOwner_def SpinlockIsOwner_def)
  with a r lk.acquire_taken [OF a(2)] show ?thesis
    by (intro exI [of _ "IntrOn cpu"] exI [of _ "cpu\<lparr>IntrOn := False\<rparr>"] exI [of _ m1] exI [of _ m2]) simp
qed

theorem lock_critical_section_witness:
  "\<exists>intr cpu' m1. LockAcquire (LockSystemInit True) \<lparr>CpuId = 7, IntrOn = True\<rparr> 99
     (MonitorLockInit \<lparr>Lock = \<lparr>State = 7, Holder = 1, FunctionWhichTookLock = 5\<rparr>\<rparr>) = Some (intr, cpu', m1) \<and> \<not> IntrOn cpu'"
  using lock_critical_section [of "MonitorLockInit \<lparr>Lock = \<lparr>State = 7, Holder = 1, FunctionWhichTookLock = 5\<rparr>\<rparr>" "\<lparr>CpuId = 7, IntrOn = True\<rparr>" True 99 99]
  by (simp add: lock_free_def MonitorLockInit_def) blast

text \<open>
  A lock taken with the try operation cannot be released: the holder is not recorded, so the
  release asserts.
\<close>

lemma try_acquired_lock_cannot_be_released:
  "CpuId cpu \<noteq> NULL \<Longrightarrow>
   case SpinlockTryAcquire cpu (SpinlockInit l) of
     (acquired, intr, cpu', l') \<Rightarrow> acquired \<and> SpinlockRelease cpu' l' intr = None"
  by (auto simp: spinlock_defs SpinlockInit_def)

end
