(* ===== verification/RwLocks.thy ===== *)
theory RwLocks
  imports Spinlocks
begin

text \<open>
  The reader-writer spinlock, \<^verbatim>\<open>CommonLib/src/rw_spinlock.c\<close>, and the recursive one
  on top of it, \<^verbatim>\<open>rec_rw_spinlock.c\<close>.

  The reader-writer lock is three adjacent 16-bit counters, and the code compares and exchanges
  two neighbours at once through a 32-bit access. As for the spinlock, the operations are given
  first as calls that are not interfered with, then as interleaved memory accesses.
\<close>

section \<open>The operations\<close>

record RW_SPINLOCK =
  WaitingWriters :: WORD
  ActiveWriter :: WORD
  ActiveReaders :: WORD

record REC_RW_SPINLOCK =
  RwSpinlock :: RW_SPINLOCK
  CurrentRecursivityDepth :: BYTE
  MaxRecursivityDepth :: BYTE
  RecHolder :: PVOID

text \<open>
  \<open>_InterlockedCompareExchange\<close> on the double word that starts at the first of two adjacent
  words, of which the first is the low half.
\<close>

definition InterlockedCompareExchange ::
  "WORD \<times> WORD \<Rightarrow> DWORD \<Rightarrow> DWORD \<Rightarrow> DWORD \<times> WORD \<times> WORD" where
  "InterlockedCompareExchange d new comparand =
     (let old = ucast (fst d) OR push_bit 16 (ucast (snd d)) in
      if old = comparand then (old, ucast new, ucast (drop_bit 16 new)) else (old, d))"

definition RwSpinlockInit :: RW_SPINLOCK where
  "RwSpinlockInit = \<lparr>WaitingWriters = 0, ActiveWriter = 0, ActiveReaders = 0\<rparr>"

definition RwSpinlockAcquire :: "CPU \<Rightarrow> RW_SPINLOCK \<Rightarrow> bool \<Rightarrow> (bool \<times> CPU \<times> RW_SPINLOCK) option" where
  "RwSpinlockAcquire cpu l Exclusive = do {
     let (intr, cpu) = CpuIntrDisable cpu;
     (if Exclusive then do {
        let l = l\<lparr>WaitingWriters := WaitingWriters l + 1\<rparr>;
        let (old, a, r) = InterlockedCompareExchange (ActiveWriter l, ActiveReaders l) 1 0;
        (if old \<noteq> 0 then None
         else do {
           let l = l\<lparr>ActiveWriter := a, ActiveReaders := r\<rparr>;
           let l = l\<lparr>WaitingWriters := WaitingWriters l - 1\<rparr>;
           Some (intr, cpu, l)
         })
      }
      else do {
        let pseudoActiveWriter = ucast MAX_WORD + 1;
        let (old, w, a) = InterlockedCompareExchange (WaitingWriters l, ActiveWriter l) pseudoActiveWriter 0;
        (if old \<noteq> 0 then None
         else do {
           let l = l\<lparr>WaitingWriters := w, ActiveWriter := a\<rparr>;
           let l = l\<lparr>ActiveReaders := ActiveReaders l + 1\<rparr>;
           ASSERT (ActiveWriter l = 1);
           let l = l\<lparr>ActiveWriter := ActiveWriter l - 1\<rparr>;
           Some (intr, cpu, l)
         })
      })
   }"

definition RwSpinlockRelease :: "CPU \<Rightarrow> RW_SPINLOCK \<Rightarrow> bool \<Rightarrow> bool \<Rightarrow> (CPU \<times> RW_SPINLOCK) option" where
  "RwSpinlockRelease cpu l IntrState Exclusive = do {
     l \<leftarrow> (if Exclusive then do {
             ASSERT (ActiveWriter l = 1);
             Some (l\<lparr>ActiveWriter := ActiveWriter l - 1\<rparr>)
           }
           else Some (l\<lparr>ActiveReaders := ActiveReaders l - 1\<rparr>));
     Some (CpuIntrSetState IntrState cpu, l)
   }"

definition RecRwSpinlockInit :: "BYTE \<Rightarrow> REC_RW_SPINLOCK" where
  "RecRwSpinlockInit RecursivityDepth =
     \<lparr>RwSpinlock = RwSpinlockInit, CurrentRecursivityDepth = 0,
      MaxRecursivityDepth = (if RecursivityDepth = 0 then 2 else RecursivityDepth), RecHolder = NULL\<rparr>"

definition RecRwSpinlockAcquire ::
  "CPU \<Rightarrow> REC_RW_SPINLOCK \<Rightarrow> bool \<Rightarrow> (bool \<times> CPU \<times> REC_RW_SPINLOCK) option" where
  "RecRwSpinlockAcquire cpu l Exclusive = do {
     let (intr, cpu) = CpuIntrDisable cpu;
     (if Exclusive \<and> RecHolder l = CpuId cpu then do {
        ASSERT (CurrentRecursivityDepth l < MaxRecursivityDepth l);
        Some (intr, cpu, l\<lparr>CurrentRecursivityDepth := CurrentRecursivityDepth l + 1\<rparr>)
      }
      else do {
        (_, cpu, rw) \<leftarrow> RwSpinlockAcquire cpu (RwSpinlock l) Exclusive;
        let l = l\<lparr>RwSpinlock := rw\<rparr>;
        ASSERT (RecHolder l = NULL);
        ASSERT (CurrentRecursivityDepth l = 0);
        (if Exclusive
         then Some (intr, cpu, l\<lparr>CurrentRecursivityDepth := 1, RecHolder := CpuId cpu\<rparr>)
         else Some (intr, cpu, l))
      })
   }"

definition RecRwSpinlockRelease ::
  "CPU \<Rightarrow> REC_RW_SPINLOCK \<Rightarrow> bool \<Rightarrow> bool \<Rightarrow> (CPU \<times> REC_RW_SPINLOCK) option" where
  "RecRwSpinlockRelease cpu l IntrState Exclusive = do {
     ASSERT (\<not> IntrOn cpu);
     l \<leftarrow> (if Exclusive then do {
             ASSERT (CpuId cpu = RecHolder l);
             Some (l\<lparr>CurrentRecursivityDepth := CurrentRecursivityDepth l - 1\<rparr>)
           }
           else Some l);
     (if CurrentRecursivityDepth l = 0 \<or> \<not> Exclusive then do {
        let l = l\<lparr>RecHolder := NULL\<rparr>;
        (cpu, rw) \<leftarrow> RwSpinlockRelease cpu (RwSpinlock l) IntrState Exclusive;
        Some (cpu, l\<lparr>RwSpinlock := rw\<rparr>)
      }
      else Some (cpu, l))
   }"

section \<open>The double-word exchange\<close>

lemma join_eq_0: "(ucast lo OR push_bit 16 (ucast hi) :: DWORD) = 0 \<longleftrightarrow> lo = 0 \<and> hi = 0"
  for lo hi :: WORD
proof
  assume a: "(ucast lo OR push_bit 16 (ucast hi) :: DWORD) = 0"
  have "bit (ucast lo OR push_bit 16 (ucast hi) :: DWORD) n = bit lo n" if "n < 16" for n
    using that by (simp add: bit_simps)
  moreover have "bit (ucast lo OR push_bit 16 (ucast hi) :: DWORD) (n + 16) = bit hi n" if "n < 16" for n
    using that bit_imp_le_length [of lo "n + 16"] by (auto simp: bit_simps)
  ultimately show "lo = 0 \<and> hi = 0" unfolding a by (auto intro!: bit_word_eqI)
qed simp

lemma exchange_writer:
  "InterlockedCompareExchange (a, r) 1 0 = (if a = 0 \<and> r = 0 then (0, 1, 0)
     else (ucast a OR push_bit 16 (ucast r), a, r))"
  by (simp add: InterlockedCompareExchange_def join_eq_0 Let_def)

lemma exchange_reader:
  "InterlockedCompareExchange (w, a) (ucast MAX_WORD + 1) 0 = (if w = 0 \<and> a = 0 then (0, 0, 1)
     else (ucast w OR push_bit 16 (ucast a), w, a))"
  by (simp add: InterlockedCompareExchange_def join_eq_0 Let_def drop_bit_eq_div)

section \<open>All interleavings of the reader-writer lock\<close>

text \<open>
  A step of a CPU is one access to the counters, in the order of the code; the second component
  of a step says whether an idle CPU that starts an acquire asks for exclusive access.
\<close>

datatype rw_pc =
    RwIdle | WIncWaiting | WExchange | WDecWaiting | WInside | WRelCheck | WRelDec
  | RExchange | RIncReaders | RCheckWriter | RDecWriter | RInside | RRelDec | RwHalted

record rw_system =
  RwLock :: RW_SPINLOCK
  RwPc :: "PVOID \<Rightarrow> rw_pc"

definition rw_goto :: "PVOID \<Rightarrow> rw_pc \<Rightarrow> rw_system \<Rightarrow> rw_system" where
  "rw_goto c p s = s\<lparr>RwPc := (RwPc s)(c := p)\<rparr>"

definition rw_step :: "PVOID \<times> bool \<Rightarrow> rw_system \<Rightarrow> rw_system" where
  "rw_step ce s =
     (let (c, e) = ce; l = RwLock s in
      case RwPc s c of
        RwIdle \<Rightarrow> rw_goto c (if e then WIncWaiting else RExchange) s
      | WIncWaiting \<Rightarrow> rw_goto c WExchange (s\<lparr>RwLock := l\<lparr>WaitingWriters := WaitingWriters l + 1\<rparr>\<rparr>)
      | WExchange \<Rightarrow>
          (case InterlockedCompareExchange (ActiveWriter l, ActiveReaders l) 1 0 of (old, a, r) \<Rightarrow>
             rw_goto c (if old \<noteq> 0 then WExchange else WDecWaiting)
               (s\<lparr>RwLock := l\<lparr>ActiveWriter := a, ActiveReaders := r\<rparr>\<rparr>))
      | WDecWaiting \<Rightarrow> rw_goto c WInside (s\<lparr>RwLock := l\<lparr>WaitingWriters := WaitingWriters l - 1\<rparr>\<rparr>)
      | WInside \<Rightarrow> rw_goto c WRelCheck s
      | WRelCheck \<Rightarrow> rw_goto c (if ActiveWriter l = 1 then WRelDec else RwHalted) s
      | WRelDec \<Rightarrow> rw_goto c RwIdle (s\<lparr>RwLock := l\<lparr>ActiveWriter := ActiveWriter l - 1\<rparr>\<rparr>)
      | RExchange \<Rightarrow>
          (case InterlockedCompareExchange (WaitingWriters l, ActiveWriter l) (ucast MAX_WORD + 1) 0 of (old, w, a) \<Rightarrow>
             rw_goto c (if old \<noteq> 0 then RExchange else RIncReaders)
               (s\<lparr>RwLock := l\<lparr>WaitingWriters := w, ActiveWriter := a\<rparr>\<rparr>))
      | RIncReaders \<Rightarrow> rw_goto c RCheckWriter (s\<lparr>RwLock := l\<lparr>ActiveReaders := ActiveReaders l + 1\<rparr>\<rparr>)
      | RCheckWriter \<Rightarrow> rw_goto c (if ActiveWriter l = 1 then RDecWriter else RwHalted) s
      | RDecWriter \<Rightarrow> rw_goto c RInside (s\<lparr>RwLock := l\<lparr>ActiveWriter := ActiveWriter l - 1\<rparr>\<rparr>)
      | RInside \<Rightarrow> rw_goto c RRelDec s
      | RRelDec \<Rightarrow> rw_goto c RwIdle (s\<lparr>RwLock := l\<lparr>ActiveReaders := ActiveReaders l - 1\<rparr>\<rparr>)
      | RwHalted \<Rightarrow> s)"

definition rw_init :: rw_system where
  "rw_init = \<lparr>RwLock = RwSpinlockInit, RwPc = (\<lambda>_. RwIdle)\<rparr>"

definition rw_run :: "(PVOID \<times> bool) list \<Rightarrow> rw_system \<Rightarrow> rw_system" where
  "rw_run cs s = fold rw_step cs s"

text \<open>
  The counters count program counters. \<open>writing\<close>: an active writer; \<open>pretending\<close>: a reader
  that still pretends to be one; \<open>reading\<close>: counted in \<open>ActiveReaders\<close>.
\<close>

definition waiting_pcs :: "rw_pc set" where "waiting_pcs = {WExchange, WDecWaiting}"
definition writing :: "rw_pc set" where "writing = {WDecWaiting, WInside, WRelCheck, WRelDec}"
definition pretending :: "rw_pc set" where "pretending = {RIncReaders, RCheckWriter, RDecWriter}"
definition reading :: "rw_pc set" where "reading = {RCheckWriter, RDecWriter, RInside, RRelDec}"

lemmas pc_sets = waiting_pcs_def writing_def pretending_def reading_def

definition at :: "rw_system \<Rightarrow> PVOID set \<Rightarrow> rw_pc set \<Rightarrow> nat" where
  "at s C X = card {c \<in> C. RwPc s c \<in> X}"

definition rw_inv :: "PVOID set \<Rightarrow> rw_system \<Rightarrow> bool" where
  "rw_inv C s \<longleftrightarrow>
     unat (WaitingWriters (RwLock s)) = at s C waiting_pcs \<and>
     unat (ActiveWriter (RwLock s)) = at s C (writing \<union> pretending) \<and> at s C (writing \<union> pretending) \<le> 1 \<and>
     unat (ActiveReaders (RwLock s)) = at s C reading \<and>
     (0 < at s C writing \<longrightarrow> at s C reading = 0) \<and> (\<forall>c. RwPc s c \<noteq> RwHalted)"

lemma at_goto:
  assumes "finite C" and "c \<in> C"
  shows "at (rw_goto c p s) C X + of_bool (RwPc s c \<in> X) = at s C X + of_bool (p \<in> X)"
proof -
  let ?A = "{d \<in> C - {c}. RwPc s d \<in> X}"
  have fin: "finite ?A" using assms(1) by simp
  have "{d \<in> C. RwPc s d \<in> X} = (if RwPc s c \<in> X then insert c ?A else ?A)"
    and "{d \<in> C. RwPc (rw_goto c p s) d \<in> X} = (if p \<in> X then insert c ?A else ?A)"
    using assms(2) by (auto simp: rw_goto_def)
  then show ?thesis using fin by (simp add: at_def)
qed

lemma at_lock [simp]: "at (s\<lparr>RwLock := l\<rparr>) C X = at s C X"
  by (simp add: at_def)

lemma goto_lock: "rw_goto c p (s\<lparr>RwLock := l\<rparr>) = (rw_goto c p s)\<lparr>RwLock := l\<rparr>"
  by (simp add: rw_goto_def)

lemma RwLock_goto [simp]: "RwLock (rw_goto c p s) = RwLock s"
  by (simp add: rw_goto_def)

lemma at_mem: "finite C \<Longrightarrow> c \<in> C \<Longrightarrow> RwPc s c \<in> X \<Longrightarrow> 0 < at s C X"
  by (auto simp: at_def card_gt_0_iff)

lemma at_less: "finite C \<Longrightarrow> c \<in> C \<Longrightarrow> RwPc s c \<notin> X \<Longrightarrow> at s C X < card C"
  unfolding at_def by (intro psubset_card_mono) auto

lemma at_mono: "finite C \<Longrightarrow> X \<subseteq> Y \<Longrightarrow> at s C X \<le> at s C Y"
  unfolding at_def by (intro card_mono) auto

lemma at_one: "finite C \<Longrightarrow> at s C X \<le> 1 \<Longrightarrow> c \<in> C \<Longrightarrow> d \<in> C \<Longrightarrow> RwPc s c \<in> X \<Longrightarrow> RwPc s d \<in> X \<Longrightarrow> c = d"
  unfolding at_def by (auto simp: card_le_Suc0_iff_eq)

lemma at_disjoint:
  "finite C \<Longrightarrow> X \<inter> Y = {} \<Longrightarrow> at s C (X \<union> Y) = at s C X + at s C Y"
proof -
  assume a: "finite C" "X \<inter> Y = {}"
  have "{c \<in> C. RwPc s c \<in> X \<union> Y} = {c \<in> C. RwPc s c \<in> X} \<union> {c \<in> C. RwPc s c \<in> Y}" by auto
  then show ?thesis using a unfolding at_def by (simp only:) (rule card_Un_disjoint, auto)
qed

lemma at_goto':
  "finite C \<Longrightarrow> c \<in> C \<Longrightarrow>
   at (rw_goto c p s) C X = at s C X + of_bool (p \<in> X) - of_bool (RwPc s c \<in> X)"
  using at_goto [of C c p s X] by simp

lemma rw_inv_goto:
  assumes "finite C" and "c \<in> C" and "rw_inv C s" and "p \<noteq> RwHalted"
    and "unat (WaitingWriters l) = at (rw_goto c p s) C waiting_pcs"
    and "unat (ActiveWriter l) = at (rw_goto c p s) C (writing \<union> pretending)"
    and "at (rw_goto c p s) C (writing \<union> pretending) \<le> 1"
    and "unat (ActiveReaders l) = at (rw_goto c p s) C reading"
    and "0 < at (rw_goto c p s) C writing \<Longrightarrow> at (rw_goto c p s) C reading = 0"
  shows "rw_inv C ((rw_goto c p s)\<lparr>RwLock := l\<rparr>)"
  using assms unfolding rw_inv_def by (simp add: rw_goto_def)

lemma rw_step_inv:
  assumes fin: "finite C" "card C < 2 ^ 16" and c: "c \<in> C" and inv: "rw_inv C s"
  shows "rw_inv C (rw_step (c, e) s)"
proof -
  let ?l = "RwLock s"
  let ?q = "RwPc s c"
  have i: "unat (WaitingWriters ?l) = at s C waiting_pcs" "unat (ActiveWriter ?l) = at s C (writing \<union> pretending)"
      "at s C (writing \<union> pretending) \<le> 1" "unat (ActiveReaders ?l) = at s C reading"
      "0 < at s C writing \<Longrightarrow> at s C reading = 0" "?q \<noteq> RwHalted"
    using inv by (auto simp: rw_inv_def)
  have wp: "at s C (writing \<union> pretending) = at s C writing + at s C pretending"
    by (rule at_disjoint [OF fin(1)]) (auto simp: pc_sets)
  note mem = at_mem [OF fin(1) c]
  note less = at_less [OF fin(1) c]
  note go = rw_inv_goto [OF fin(1) c inv] and cnt = at_goto' [OF fin(1) c]
  have self: "(rw_goto c p s)\<lparr>RwLock := ?l\<rparr> = rw_goto c p s" for p by (simp add: rw_goto_def)
  have inc: "unat (v + 1) = unat v + 1" if "unat v < card C" for v :: WORD
  proof -
    have "unat v + unat (1 :: WORD) < 2 ^ LENGTH(16)" using that fin(2) by simp
    then show ?thesis by (subst unat_plus_simple) simp_all
  qed
  show ?thesis
  proof (cases ?q)
    case RwIdle
    then have "rw_inv C ((rw_goto c (if e then WIncWaiting else RExchange) s)\<lparr>RwLock := ?l\<rparr>)"
      by (intro go) (use i in \<open>simp_all add: cnt, simp_all add: pc_sets split: if_splits\<close>)
    then have "rw_inv C (rw_goto c (if e then WIncWaiting else RExchange) s)" by (simp only: self)
    with RwIdle show ?thesis by (simp add: rw_step_def Let_def)
  next
    case WIncWaiting
    then have "at s C waiting_pcs < card C" by (intro less) (simp add: pc_sets)
    then have "unat (WaitingWriters ?l + 1) = at s C waiting_pcs + 1" using inc i(1) by simp
    with WIncWaiting have "rw_inv C ((rw_goto c WExchange s)\<lparr>RwLock := ?l\<lparr>WaitingWriters := WaitingWriters ?l + 1\<rparr>\<rparr>)"
      by (intro go) (use i in \<open>simp_all add: cnt, simp_all add: pc_sets\<close>)
    with WIncWaiting show ?thesis by (simp add: rw_step_def Let_def goto_lock)
  next
    case WExchange
    show ?thesis
    proof (cases "ActiveWriter ?l = 0 \<and> ActiveReaders ?l = 0")
      case True
      then have "at s C (writing \<union> pretending) = 0" "at s C reading = 0" using i(2,4) by auto
      with wp WExchange have "rw_inv C ((rw_goto c WDecWaiting s)\<lparr>RwLock := ?l\<lparr>ActiveWriter := 1, ActiveReaders := 0\<rparr>\<rparr>)"
        by (intro go) (use i in \<open>simp_all add: cnt, simp_all add: pc_sets\<close>)
      with WExchange True show ?thesis by (simp add: rw_step_def Let_def goto_lock exchange_writer)
    next
      case False
      have "rw_goto c WExchange s = s" using WExchange by (simp add: rw_goto_def fun_upd_idem)
      with False WExchange inv show ?thesis
        using exchange_writer [of "ActiveWriter ?l" "ActiveReaders ?l"] join_eq_0 [of "ActiveWriter ?l" "ActiveReaders ?l"]
        by (auto simp: rw_step_def Let_def)
    qed
  next
    case WDecWaiting
    then have "0 < at s C waiting_pcs" by (intro mem) (simp add: pc_sets)
    then have "unat (WaitingWriters ?l - 1) = at s C waiting_pcs - 1" using i(1) by (simp add: unat_pred)
    with WDecWaiting have "rw_inv C ((rw_goto c WInside s)\<lparr>RwLock := ?l\<lparr>WaitingWriters := WaitingWriters ?l - 1\<rparr>\<rparr>)"
      by (intro go) (use i in \<open>simp_all add: cnt, simp_all add: pc_sets\<close>)
    with WDecWaiting show ?thesis by (simp add: rw_step_def Let_def goto_lock)
  next
    case WInside
    then have "rw_inv C ((rw_goto c WRelCheck s)\<lparr>RwLock := ?l\<rparr>)"
      by (intro go) (use i in \<open>simp_all add: cnt, simp_all add: pc_sets\<close>)
    with WInside show ?thesis by (simp add: self rw_step_def Let_def)
  next
    case WRelCheck
    then have "0 < at s C (writing \<union> pretending)" by (intro mem) (simp add: pc_sets)
    then have "unat (ActiveWriter ?l) = 1" using i(2,3) by simp
    then have a: "ActiveWriter ?l = 1" by (simp add: word_unat_eq_iff)
    from WRelCheck have "rw_inv C ((rw_goto c WRelDec s)\<lparr>RwLock := ?l\<rparr>)"
      by (intro go) (use i in \<open>simp_all add: cnt, simp_all add: pc_sets\<close>)
    with WRelCheck a show ?thesis by (simp add: self rw_step_def Let_def)
  next
    case WRelDec
    then have "0 < at s C (writing \<union> pretending)" by (intro mem) (simp add: pc_sets)
    then have "unat (ActiveWriter ?l - 1) = at s C (writing \<union> pretending) - 1" using i(2) by (simp add: unat_pred)
    with WRelDec have "rw_inv C ((rw_goto c RwIdle s)\<lparr>RwLock := ?l\<lparr>ActiveWriter := ActiveWriter ?l - 1\<rparr>\<rparr>)"
      by (intro go) (use i in \<open>simp_all add: cnt, simp_all add: pc_sets\<close>)
    with WRelDec show ?thesis by (simp add: rw_step_def Let_def goto_lock)
  next
    case RExchange
    show ?thesis
    proof (cases "WaitingWriters ?l = 0 \<and> ActiveWriter ?l = 0")
      case True
      then have "at s C (writing \<union> pretending) = 0" "at s C waiting_pcs = 0" using i(1,2) by auto
      with wp RExchange have "rw_inv C ((rw_goto c RIncReaders s)\<lparr>RwLock := ?l\<lparr>WaitingWriters := 0, ActiveWriter := 1\<rparr>\<rparr>)"
        by (intro go) (use i in \<open>simp_all add: cnt, simp_all add: pc_sets\<close>)
      with RExchange True show ?thesis
        using exchange_reader [of 0 0] by (simp add: rw_step_def Let_def goto_lock)
    next
      case False
      have "rw_goto c RExchange s = s" using RExchange by (simp add: rw_goto_def fun_upd_idem)
      with False RExchange inv show ?thesis
        using exchange_reader [of "WaitingWriters ?l" "ActiveWriter ?l"] join_eq_0 [of "WaitingWriters ?l" "ActiveWriter ?l"]
        by (auto simp: rw_step_def Let_def)
    qed
  next
    case RIncReaders
    then have "at s C reading < card C" by (intro less) (simp add: pc_sets)
    then have r: "unat (ActiveReaders ?l + 1) = at s C reading + 1" using inc i(4) by simp
    from RIncReaders have "0 < at s C pretending" by (intro mem) (simp add: pc_sets)
    with wp i(3) have "at s C writing = 0" by simp
    with r RIncReaders have "rw_inv C ((rw_goto c RCheckWriter s)\<lparr>RwLock := ?l\<lparr>ActiveReaders := ActiveReaders ?l + 1\<rparr>\<rparr>)"
      by (intro go) (use i in \<open>simp_all add: cnt, simp_all add: pc_sets\<close>)
    with RIncReaders show ?thesis by (simp add: rw_step_def Let_def goto_lock)
  next
    case RCheckWriter
    then have "0 < at s C (writing \<union> pretending)" by (intro mem) (simp add: pc_sets)
    then have "unat (ActiveWriter ?l) = 1" using i(2,3) by simp
    then have a: "ActiveWriter ?l = 1" by (simp add: word_unat_eq_iff)
    from RCheckWriter have "rw_inv C ((rw_goto c RDecWriter s)\<lparr>RwLock := ?l\<rparr>)"
      by (intro go) (use i in \<open>simp_all add: cnt, simp_all add: pc_sets\<close>)
    with RCheckWriter a show ?thesis by (simp add: self rw_step_def Let_def)
  next
    case RDecWriter
    then have "0 < at s C (writing \<union> pretending)" by (intro mem) (simp add: pc_sets)
    then have "unat (ActiveWriter ?l - 1) = at s C (writing \<union> pretending) - 1" using i(2) by (simp add: unat_pred)
    with RDecWriter have "rw_inv C ((rw_goto c RInside s)\<lparr>RwLock := ?l\<lparr>ActiveWriter := ActiveWriter ?l - 1\<rparr>\<rparr>)"
      by (intro go) (use i in \<open>simp_all add: cnt, simp_all add: pc_sets\<close>)
    with RDecWriter show ?thesis by (simp add: rw_step_def Let_def goto_lock)
  next
    case RInside
    then have "rw_inv C ((rw_goto c RRelDec s)\<lparr>RwLock := ?l\<rparr>)"
      by (intro go) (use i in \<open>simp_all add: cnt, simp_all add: pc_sets\<close>)
    with RInside show ?thesis by (simp add: self rw_step_def Let_def)
  next
    case RRelDec
    then have "0 < at s C reading" by (intro mem) (simp add: pc_sets)
    then have "unat (ActiveReaders ?l - 1) = at s C reading - 1" using i(4) by (simp add: unat_pred)
    with RRelDec have "rw_inv C ((rw_goto c RwIdle s)\<lparr>RwLock := ?l\<lparr>ActiveReaders := ActiveReaders ?l - 1\<rparr>\<rparr>)"
      by (intro go) (use i in \<open>simp_all add: cnt, simp_all add: pc_sets\<close>)
    with RRelDec show ?thesis by (simp add: rw_step_def Let_def goto_lock)
  next
    case RwHalted
    with i(6) show ?thesis by simp
  qed
qed

lemma rw_init_inv: "rw_inv C rw_init"
  by (auto simp: rw_inv_def rw_init_def RwSpinlockInit_def at_def pc_sets)

lemma rw_run_inv:
  "finite C \<Longrightarrow> card C < 2 ^ 16 \<Longrightarrow> fst ` set cs \<subseteq> C \<Longrightarrow> rw_inv C s \<Longrightarrow> rw_inv C (rw_run cs s)"
  unfolding rw_run_def by (induction cs arbitrary: s) (auto simp: rw_step_inv)

lemma rw_outside: "fst ` set cs \<subseteq> C \<Longrightarrow> c \<notin> C \<Longrightarrow> RwPc (rw_run cs s) c = RwPc s c"
proof (induction cs arbitrary: s)
  case (Cons ce cs)
  have "RwPc (rw_step ce s) c = RwPc s c"
    using Cons.prems by (cases ce) (auto simp: rw_step_def rw_goto_def Let_def split: rw_pc.split prod.split)
  with Cons show ?case by (simp add: rw_run_def)
qed (simp add: rw_run_def)

section \<open>Properties\<close>

text \<open>
  C7. Under every interleaving of fewer than 65536 CPUs, a CPU that holds the reader-writer lock
  exclusively holds it alone: no second writer and no reader is inside. No assertion of the
  acquire and release functions fails, and the counters never wrap.
\<close>

theorem rw_mutual_exclusion:
  assumes "finite C" and "card C < 2 ^ 16" and "fst ` set cs \<subseteq> C" and "s = rw_run cs rw_init"
  shows "RwPc s c \<noteq> RwHalted \<and>
    (RwPc s c = WInside \<longrightarrow> (\<forall>d. d \<noteq> c \<longrightarrow> RwPc s d \<noteq> WInside \<and> RwPc s d \<noteq> RInside)) \<and>
    unat (ActiveReaders (RwLock s)) = card {d. RwPc s d \<in> {RCheckWriter, RDecWriter, RInside, RRelDec}}"
proof -
  have inv: "rw_inv C s"
    unfolding assms(4) by (rule rw_run_inv [OF assms(1-3) rw_init_inv])
  have idle: "RwPc s d = RwIdle" if "d \<notin> C" for d
    unfolding assms(4) using rw_outside [OF assms(3) that] by (simp add: rw_init_def)
  have excl: "RwPc s d \<noteq> WInside \<and> RwPc s d \<noteq> RInside" if w: "RwPc s c = WInside" and d: "d \<noteq> c" for d
  proof (cases "d \<in> C")
    case False
    then show ?thesis using idle by simp
  next
    case True
    have cC: "c \<in> C" using idle [of c] w by fastforce
    have "0 < at s C writing" using at_mem [OF assms(1) cC] w by (simp add: pc_sets)
    then have "at s C reading = 0" using inv by (simp add: rw_inv_def)
    then have "RwPc s d \<notin> reading" using at_mem [OF assms(1) True] by fastforce
    moreover have "RwPc s d \<noteq> WInside"
      using at_one [OF assms(1) _ cC True, of s "writing \<union> pretending"] inv w d
      by (auto simp: rw_inv_def pc_sets)
    ultimately show ?thesis by (auto simp: pc_sets)
  qed
  have "{d. RwPc s d \<in> reading} = {d \<in> C. RwPc s d \<in> reading}"
    using idle by (fastforce simp: pc_sets)
  then have "unat (ActiveReaders (RwLock s)) = card {d. RwPc s d \<in> reading}"
    using inv by (simp add: rw_inv_def at_def)
  with excl inv show ?thesis by (simp add: rw_inv_def pc_sets)
qed

theorem rw_mutual_exclusion_witness:
  "RwPc (rw_run [(1, True), (2, False), (1, True), (2, False), (1, True), (1, True)] rw_init) 1 \<noteq> RwHalted"
  using rw_mutual_exclusion [of "{1, 2}" "[(1, True), (2, False), (1, True), (2, False), (1, True), (1, True)]"]
  by (simp add: card_insert_if)

fun rec_acquire :: "nat \<Rightarrow> CPU \<Rightarrow> REC_RW_SPINLOCK \<Rightarrow> (bool list \<times> CPU \<times> REC_RW_SPINLOCK) option" where
  "rec_acquire 0 cpu l = Some ([], cpu, l)"
| "rec_acquire (Suc k) cpu l = do {
     (is, cpu, l) \<leftarrow> rec_acquire k cpu l;
     (i, cpu, l) \<leftarrow> RecRwSpinlockAcquire cpu l True;
     Some (i # is, cpu, l)
   }"

fun rec_release :: "bool list \<Rightarrow> CPU \<Rightarrow> REC_RW_SPINLOCK \<Rightarrow> (CPU \<times> REC_RW_SPINLOCK) option" where
  "rec_release [] cpu l = Some (cpu, l)"
| "rec_release (i # is) cpu l = do {
     (cpu, l) \<leftarrow> RecRwSpinlockRelease cpu l i True;
     rec_release is cpu l
   }"

definition held_lock :: "REC_RW_SPINLOCK \<Rightarrow> PVOID \<Rightarrow> nat \<Rightarrow> REC_RW_SPINLOCK" where
  "held_lock l c k = l\<lparr>RwSpinlock := \<lparr>WaitingWriters = 0, ActiveWriter = 1, ActiveReaders = 0\<rparr>,
     CurrentRecursivityDepth := of_nat k, RecHolder := c\<rparr>"

definition rec_free :: "REC_RW_SPINLOCK \<Rightarrow> bool" where
  "rec_free l \<longleftrightarrow> RwSpinlock l = RwSpinlockInit \<and> CurrentRecursivityDepth l = 0 \<and> RecHolder l = NULL"

lemma rec_acquire_held:
  assumes "rec_free l" and "CpuId cpu \<noteq> NULL"
  shows "k < unat (MaxRecursivityDepth l) \<Longrightarrow>
    rec_acquire (Suc k) cpu l =
      Some (replicate k False @ [IntrOn cpu], cpu\<lparr>IntrOn := False\<rparr>, held_lock l (CpuId cpu) (Suc k))"
proof (induction k)
  case 0
  then show ?case using assms
    by (simp add: RecRwSpinlockAcquire_def RwSpinlockAcquire_def CpuIntrDisable_def rec_free_def
        RwSpinlockInit_def exchange_writer held_lock_def)
next
  case (Suc k)
  have "unat (of_nat (Suc k) :: BYTE) = Suc k"
    using Suc.prems by (intro unat_of_nat_le [of _ "MaxRecursivityDepth l"]) simp
  then have "(of_nat (Suc k) :: BYTE) < MaxRecursivityDepth l"
    using Suc.prems by (simp only: word_less_nat_alt)
  with Suc show ?case
    by (subst rec_acquire.simps)
      (simp del: of_nat_Suc rec_acquire.simps add: RecRwSpinlockAcquire_def CpuIntrDisable_def held_lock_def,
       simp add: add.commute)
qed

lemma rec_release_held:
  assumes "rec_free l" and "CpuId cpu \<noteq> NULL"
  shows "Suc k < 256 \<Longrightarrow>
    rec_release (replicate k False @ [i]) (cpu\<lparr>IntrOn := False\<rparr>) (held_lock l (CpuId cpu) (Suc k)) =
      Some (cpu\<lparr>IntrOn := i\<rparr>, l)"
proof (induction k)
  case 0
  then show ?case using assms
    by (cases l) (simp add: RecRwSpinlockRelease_def RwSpinlockRelease_def CpuIntrSetState_def held_lock_def
        rec_free_def RwSpinlockInit_def)
next
  case (Suc k)
  have "unat (of_nat (Suc k) :: BYTE) = Suc k" using Suc.prems by (intro unat_of_nat_small) simp
  then have nz: "(of_nat (Suc k) :: BYTE) \<noteq> 0" by (metis unat_0 nat.distinct(1))
  have "RecRwSpinlockRelease (cpu\<lparr>IntrOn := False\<rparr>) (held_lock l (CpuId cpu) (Suc (Suc k))) False True =
      Some (cpu\<lparr>IntrOn := False\<rparr>, held_lock l (CpuId cpu) (Suc k))"
    using nz by (simp add: RecRwSpinlockRelease_def held_lock_def)
  with Suc show ?case by simp
qed

text \<open>
  The recursive lock counts: a CPU that acquires it exclusively \<open>k\<close> times, with \<open>k\<close> not
  above the configured depth, and releases it \<open>k\<close> times, gets back its interrupt state and leaves
  the lock exactly as it was; one acquire more than the configured depth halts.
\<close>

theorem rec_rw_spinlock_counts:
  assumes "rec_free l" and "CpuId cpu \<noteq> NULL" and "k \<le> unat (MaxRecursivityDepth l)"
  shows "\<exists>is cpu' l'. rec_acquire k cpu l = Some (is, cpu', l') \<and> rec_release is cpu' l' = Some (cpu, l) \<and>
    (0 < k \<longrightarrow> \<not> IntrOn cpu' \<and>
      (RecRwSpinlockAcquire cpu' l' True = None \<longleftrightarrow> k = unat (MaxRecursivityDepth l)))"
proof (cases k)
  case 0
  then show ?thesis by simp
next
  case (Suc n)
  have m: "k < 256" using assms(3) unat_less_2p [of "MaxRecursivityDepth l"] by simp
  have "unat (of_nat k :: BYTE) = k" using m by (intro unat_of_nat_small) simp
  then have "(of_nat k :: BYTE) < MaxRecursivityDepth l \<longleftrightarrow> k < unat (MaxRecursivityDepth l)"
    by (simp only: word_less_nat_alt)
  then have "RecRwSpinlockAcquire (cpu\<lparr>IntrOn := False\<rparr>) (held_lock l (CpuId cpu) k) True = None \<longleftrightarrow>
      k = unat (MaxRecursivityDepth l)"
    using assms(3) by (auto simp: RecRwSpinlockAcquire_def CpuIntrDisable_def held_lock_def ASSERT_def)
  then show ?thesis
    using rec_acquire_held [OF assms(1,2), of n] rec_release_held [OF assms(1,2), of n "IntrOn cpu"] Suc assms(3) m
    by (simp del: rec_acquire.simps)
qed

theorem rec_rw_spinlock_counts_witness:
  "\<exists>is cpu' l'. rec_acquire 2 \<lparr>CpuId = 7, IntrOn = True\<rparr> (RecRwSpinlockInit 0) = Some (is, cpu', l') \<and>
     rec_release is cpu' l' = Some (\<lparr>CpuId = 7, IntrOn = True\<rparr>, RecRwSpinlockInit 0)"
proof -
  have "rec_free (RecRwSpinlockInit 0)" "unat (MaxRecursivityDepth (RecRwSpinlockInit 0)) = 2"
    by (simp_all add: rec_free_def RecRwSpinlockInit_def)
  with rec_rw_spinlock_counts [of "RecRwSpinlockInit 0" "\<lparr>CpuId = 7, IntrOn = True\<rparr>" 2] show ?thesis
    by (simp del: rec_acquire.simps) blast
qed

end
