(* ===== verification/Memory.thy ===== *)
theory Memory
  imports Prelude
begin

text \<open>
  The byte operations of \<^verbatim>\<open>CommonLib/src/memory.c\<close> on an explicit memory, a function
  from addresses to bytes. Counters keep the width the code gives them. The multi-byte stores of
  \<open>memcpy\<close> read all their source bytes before they write; \<open>__movsq\<close> moves one quadword
  after the other, upwards.
\<close>

section \<open>The operations\<close>

type_synonym mem = "PVOID \<Rightarrow> BYTE"

function memset_loop :: "PVOID \<Rightarrow> BYTE \<Rightarrow> DWORD \<Rightarrow> DWORD \<Rightarrow> mem \<Rightarrow> mem" where
  "memset_loop address val sz i m =
     (if i < sz then memset_loop address val sz (i + 1) (m(address + ucast i := val)) else m)"
  by pat_completeness auto
termination
  by (relation "measure (\<lambda>(address, val, sz, i, m). unat sz - unat i)")
    (auto intro: counter_decreases)

declare memset_loop.simps [simp del]

definition memset :: "mem \<Rightarrow> PVOID \<Rightarrow> BYTE \<Rightarrow> DWORD \<Rightarrow> mem" where
  "memset m address val sz = (if address = NULL then m else memset_loop address val sz 0 m)"

definition copied :: "mem \<Rightarrow> PVOID \<Rightarrow> PVOID \<Rightarrow> QWORD \<Rightarrow> mem" where
  "copied m dst src n = (\<lambda>p. if p - dst < n then m (src + (p - dst)) else m p)"

fun movsq :: "PVOID \<Rightarrow> PVOID \<Rightarrow> nat \<Rightarrow> mem \<Rightarrow> mem" where
  "movsq dst src 0 m = m"
| "movsq dst src (Suc k) m = movsq (dst + 8) (src + 8) k (copied m dst src 8)"

definition memcpy_tail :: "mem \<Rightarrow> PVOID \<Rightarrow> PVOID \<Rightarrow> QWORD \<Rightarrow> mem \<times> PVOID \<times> PVOID" where
  "memcpy_tail m dst src unalignedCount =
     (let (m, dst, src) = (if unalignedCount AND 0x4 \<noteq> 0 then (copied m dst src 4, dst + 4, src + 4)
                           else (m, dst, src));
          (m, dst, src) = (if unalignedCount AND 0x2 \<noteq> 0 then (copied m dst src 2, dst + 2, src + 2)
                           else (m, dst, src))
      in (if unalignedCount AND 0x1 \<noteq> 0 then (copied m dst src 1, dst + 1, src + 1)
          else (m, dst, src)))"

definition memcpy :: "mem \<Rightarrow> PVOID \<Rightarrow> PVOID \<Rightarrow> QWORD \<Rightarrow> mem option" where
  "memcpy m Destination Source Count =
     (if Destination = NULL \<or> Source = NULL then Some m
      else
        let unalignedCount = Count AND 0x7;
            alignedCount = Count - unalignedCount;
            (m, dst, src) = memcpy_tail m Destination Source unalignedCount
        in if alignedCount \<noteq> 0 then do {
             ASSERT (IsAddressAligned alignedCount 8);
             Some (movsq (Destination + unalignedCount) (Source + unalignedCount)
                         (unat (alignedCount div 8)) m)
           }
           else Some m)"

function memmove_loop :: "PVOID \<Rightarrow> PVOID \<Rightarrow> QWORD \<Rightarrow> QWORD \<Rightarrow> mem \<Rightarrow> mem" where
  "memmove_loop dst src Count i m =
     (if i < Count then memmove_loop dst src Count (i + 1) (m(dst + i := m (src + i))) else m)"
  by pat_completeness auto
termination
  by (relation "measure (\<lambda>(dst, src, Count, i, m). unat Count - unat i)")
    (auto intro: counter_decreases)

declare memmove_loop.simps [simp del]

definition memmove :: "mem \<Rightarrow> PVOID \<Rightarrow> PVOID \<Rightarrow> QWORD \<Rightarrow> mem" where
  "memmove m Destination Source Count =
     (if Destination = NULL \<or> Source = NULL then m
      else memmove_loop Destination Source Count 0 m)"

text \<open>
  \<open>memcmp\<close> counts in a 64-bit signed integer up to a 32-bit size, so the counter never wraps
  and is a natural number. The results are C \<open>int\<close>s.
\<close>

function memcmp_loop :: "mem \<Rightarrow> PVOID \<Rightarrow> PVOID \<Rightarrow> nat \<Rightarrow> nat \<Rightarrow> int" where
  "memcmp_loop m p1 p2 sz i =
     (if i < sz then
        (if m (p1 + of_nat i) \<noteq> m (p2 + of_nat i) then uint (m (p1 + of_nat i)) - uint (m (p2 + of_nat i))
         else memcmp_loop m p1 p2 sz (i + 1))
      else 0)"
  by pat_completeness auto
termination
  by (relation "measure (\<lambda>(m, p1, p2, sz, i). sz - i)") auto

declare memcmp_loop.simps [simp del]

definition memcmp :: "mem \<Rightarrow> PVOID \<Rightarrow> PVOID \<Rightarrow> DWORD \<Rightarrow> int" where
  "memcmp m ptr1 ptr2 sz =
     (if ptr1 = NULL \<or> ptr2 = NULL then sint sz else memcmp_loop m ptr1 ptr2 (unat sz) 0)"

function memscan_loop :: "mem \<Rightarrow> PVOID \<Rightarrow> DWORD \<Rightarrow> BYTE \<Rightarrow> DWORD \<Rightarrow> DWORD" where
  "memscan_loop m buffer sz val i =
     (if i < sz then
        (if m (buffer + ucast i) \<noteq> val then i else memscan_loop m buffer sz val (i + 1))
      else i)"
  by pat_completeness auto
termination
  by (relation "measure (\<lambda>(m, buffer, sz, val, i). unat sz - unat i)")
    (auto intro: counter_decreases)

declare memscan_loop.simps [simp del]

definition memscan :: "mem \<Rightarrow> PVOID \<Rightarrow> DWORD \<Rightarrow> BYTE \<Rightarrow> int" where
  "memscan m buffer sz val = (if buffer = NULL then 0 else sint (memscan_loop m buffer sz val 0))"

section \<open>Correctness\<close>

lemma ucast_succ: "i < n \<Longrightarrow> (ucast (i + 1) :: QWORD) = ucast i + 1"
  for i n :: DWORD
proof -
  assume a: "i < n"
  have "unat (ucast (i + 1) :: QWORD) = Suc (unat i)" using unat_succ [OF a] by (simp add: unat_ucast_up)
  moreover have "unat (ucast i + 1 :: QWORD) = Suc (unat i)"
    using unat_less_2p [of i] by (subst unat_plus_simple) (simp_all add: unat_ucast_up)
  ultimately show ?thesis by (simp add: word_unat_eq_iff)
qed

lemma word_le_succ: "i < n \<Longrightarrow> i + 1 \<le> k \<longleftrightarrow> i \<le> k \<and> i \<noteq> k"
  for i n k :: "'a::len word"
  using unat_succ [of i n] by (auto simp: word_le_nat_alt word_unat_eq_iff)

lemma word_succ_le: "i < n \<Longrightarrow> i + 1 \<le> k \<longleftrightarrow> i < k"
  for i n k :: "'a::len word"
  using unat_succ [of i n] by (auto simp: word_le_nat_alt word_less_nat_alt)

lemma ucast_less_iff: "(ucast i :: QWORD) < ucast n \<longleftrightarrow> i < n"
  for i n :: DWORD
  by (simp add: word_less_nat_alt unat_ucast_up)

lemma memset_loop_spec:
  "i \<le> sz \<Longrightarrow> memset_loop a v sz i m =
     (\<lambda>p. if ucast i \<le> p - a \<and> p - a < ucast sz then v else m p)"
proof (induction a v sz i m rule: memset_loop.induct)
  case (1 a v sz i m)
  show ?case
  proof (cases "i < sz")
    case True
    have u: "(ucast (i + 1) :: QWORD) = ucast i + 1" by (rule ucast_succ [OF True])
    have lt: "(ucast i :: QWORD) < ucast sz" using True by (simp add: ucast_less_iff)
    have "memset_loop a v sz i m = memset_loop a v sz (i + 1) (m(a + ucast i := v))"
      using True by (subst memset_loop.simps) simp
    also have "\<dots> = (\<lambda>p. if ucast (i + 1) \<le> p - a \<and> p - a < ucast sz then v else (m(a + ucast i := v)) p)"
      by (rule 1(1) [OF True unat_succ_le [OF True]])
    also have "\<dots> = (\<lambda>p. if ucast i \<le> p - a \<and> p - a < ucast sz then v else m p)"
    proof
      fix p
      have "p = a + ucast i \<longleftrightarrow> ucast i = p - a" by auto
      then show "(if ucast (i + 1) \<le> p - a \<and> p - a < ucast sz then v else (m(a + ucast i := v)) p) =
          (if ucast i \<le> p - a \<and> p - a < ucast sz then v else m p)"
        using lt by (auto simp: u word_le_succ [OF lt])
    qed
    finally show ?thesis .
  next
    case False
    then have "\<not> (ucast i \<le> p - a \<and> p - a < ucast sz)" for p :: PVOID
      using ucast_less_iff [of i sz] by (meson le_less_trans)
    then have eq: "(\<lambda>p. if ucast i \<le> p - a \<and> p - a < ucast sz then v else m p) = m"
      by (simp only: if_False)
    show ?thesis using False by (subst memset_loop.simps) (simp add: eq)
  qed
qed

lemma memset_spec:
  "a \<noteq> NULL \<Longrightarrow> memset m a v n = (\<lambda>p. if p - a < ucast n then v else m p)"
  by (simp add: memset_def memset_loop_spec)

text \<open>Copying in two pieces, from below, when source and destination do not overlap.\<close>

definition apart :: "PVOID \<Rightarrow> PVOID \<Rightarrow> QWORD \<Rightarrow> bool" where
  "apart d s n \<longleftrightarrow> (\<forall>x y. x < n \<longrightarrow> y < n \<longrightarrow> d + x \<noteq> s + y)"

lemma sub_less_iff:
  fixes x a b :: "'a::len word"
  assumes "unat a + unat b < 2 ^ LENGTH('a)"
  shows "x - a < b \<longleftrightarrow> a \<le> x \<and> x < a + b"
proof (cases "a \<le> x")
  case True
  then have "unat (x - a) = unat x - unat a" by (simp add: unat_sub word_le_nat_alt)
  with True show ?thesis using unat_plus_simple [OF assms]
    by (auto simp: word_less_nat_alt word_le_nat_alt)
next
  case False
  then have "unat (x - a) = 2 ^ LENGTH('a) + unat x - unat a"
    by (simp add: unat_sub_if' word_le_nat_alt)
  then have "unat b \<le> unat (x - a)" using assms by simp
  with False show ?thesis by (simp add: word_less_nat_alt not_less)
qed

lemma copied_append:
  assumes "unat a + unat b < 2 ^ 64" and "apart d s (a + b)"
  shows "copied (copied m d s a) (d + a) (s + a) b = copied m d s (a + b)"
proof
  fix p
  define x where "x = p - d"
  have p: "p = d + x" by (simp add: x_def)
  have ab: "unat (a + b) = unat a + unat b" using assms(1) by (intro unat_plus_simple) simp
  have iff: "x - a < b \<longleftrightarrow> a \<le> x \<and> x < a + b" by (rule sub_less_iff) (use assms(1) in simp)
  have le: "a \<le> a + b" by (simp add: word_le_nat_alt ab)
  show "copied (copied m d s a) (d + a) (s + a) b p = copied m d s (a + b) p"
  proof (cases "x < a + b")
    case True
    have "\<not> s + x - d < a"
    proof
      assume "s + x - d < a"
      then have "s + x - d < a + b" using le by simp
      then have "d + (s + x - d) \<noteq> s + x" using assms(2) True unfolding apart_def by blast
      then show False by simp
    qed
    then show ?thesis using True iff
      by (auto simp: copied_def p algebra_simps not_less)
  next
    case False
    then have "\<not> x < a" "\<not> x - a < b" using le iff by auto
    with False show ?thesis by (simp add: copied_def p algebra_simps)
  qed
qed

lemma copied_0 [simp]: "copied m d s 0 = m"
  by (simp add: copied_def)

lemma apart_mono: "apart d s n \<Longrightarrow> k \<le> n \<Longrightarrow> apart d s k"
  unfolding apart_def by (meson less_le_trans)

lemma apart_shift:
  assumes "unat a + unat b < 2 ^ 64" and "apart d s (a + b)"
  shows "apart (d + a) (s + a) b"
  unfolding apart_def
proof (intro allI impI)
  fix x y :: QWORD assume xy: "x < b" "y < b"
  have ab: "unat (a + b) = unat a + unat b" using assms(1) by (intro unat_plus_simple) simp
  have lt: "a + z < a + b" if "z < b" for z
  proof -
    have "unat (a + z) = unat a + unat z"
      using assms(1) that by (intro unat_plus_simple) (simp add: word_less_nat_alt)
    with that ab show ?thesis by (simp add: word_less_nat_alt)
  qed
  have "d + (a + x) \<noteq> s + (a + y)"
    using assms(2) lt [OF xy(1)] lt [OF xy(2)] unfolding apart_def by blast
  then show "d + a + x \<noteq> s + a + y" by (simp add: add.assoc)
qed

lemma movsq_spec:
  "8 * k < 2 ^ 64 \<Longrightarrow> apart d s (of_nat (8 * k)) \<Longrightarrow> movsq d s k m = copied m d s (of_nat (8 * k))"
proof (induction k arbitrary: d s m)
  case 0
  then show ?case by simp
next
  case (Suc k)
  have u: "unat (of_nat (8 * k) :: QWORD) = 8 * k" using Suc.prems by (intro unat_of_nat_small) simp
  have split: "(of_nat (8 * Suc k) :: QWORD) = 8 + of_nat (8 * k)" by simp
  have nw: "unat (8 :: QWORD) + unat (of_nat (8 * k) :: QWORD) < 2 ^ 64"
    unfolding u using Suc.prems by simp
  have ap: "apart d s (8 + of_nat (8 * k))" using Suc.prems(2) unfolding split .
  have "movsq d s (Suc k) m = copied (copied m d s 8) (d + 8) (s + 8) (of_nat (8 * k))"
    using Suc.IH [OF _ apart_shift [OF nw ap]] Suc.prems by simp
  also have "\<dots> = copied m d s (8 + of_nat (8 * k))" by (rule copied_append [OF nw ap])
  finally show ?case unfolding split .
qed


text \<open>The low three bits of the count select the pieces of 4, 2 and 1 bytes.\<close>

lemma low_bits_cases:
  fixes u :: QWORD
  assumes "unat u < 8"
  obtains "u = 0" | "u = 1" | "u = 2" | "u = 3" | "u = 4" | "u = 5" | "u = 6" | "u = 7"
proof -
  have "unat u = 0 \<or> unat u = 1 \<or> unat u = 2 \<or> unat u = 3 \<or> unat u = 4 \<or> unat u = 5 \<or>
      unat u = 6 \<or> unat u = 7"
    using assms by linarith
  then have "u = 0 \<or> u = 1 \<or> u = 2 \<or> u = 3 \<or> u = 4 \<or> u = 5 \<or> u = 6 \<or> u = 7"
    by (simp add: word_unat_eq_iff)
  then show thesis using that by blast
qed

lemma copied_pieces:
  assumes "apart d s (of_nat (a + b))" and "a + b < 2 ^ 64"
  shows "copied (copied m d s (of_nat a)) (d + of_nat a) (s + of_nat a) (of_nat b) =
    copied m d s (of_nat (a + b))"
proof -
  have "unat (of_nat a :: QWORD) = a" "unat (of_nat b :: QWORD) = b"
    using assms(2) by (simp_all add: unat_of_nat_small)
  then show ?thesis
    using copied_append [of "of_nat a" "of_nat b" d s m] assms by simp
qed

lemma copied_tail:
  assumes "unat u < 8" and "apart d s u"
  shows "fst (memcpy_tail m d s u) = copied m d s u"
  using assms(1)
proof (cases rule: low_bits_cases)
  case 4
  with assms(2) show ?thesis using copied_pieces [of d s 2 1] by (simp add: memcpy_tail_def)
next
  case 6
  with assms(2) show ?thesis using copied_pieces [of d s 4 1] by (simp add: memcpy_tail_def)
next
  case 7
  with assms(2) show ?thesis using copied_pieces [of d s 4 2] by (simp add: memcpy_tail_def)
next
  case 8
  have "apart d s 6" using assms(2) 8 by (auto intro: apart_mono)
  then show ?thesis using 8 assms(2) copied_pieces [of d s 4 2] copied_pieces [of d s 6 1]
    by (simp add: memcpy_tail_def add.commute [of 6])
qed (simp_all add: memcpy_tail_def)

lemma aligned_part:
  fixes n :: QWORD
  shows "unat (n AND 7) = unat n mod 8" and "unat (n - (n AND 7)) = unat n div 8 * 8"
    and "IsAddressAligned (n - (n AND 7)) 8"
proof -
  have m: "(7 :: QWORD) = mask 3" by (simp add: mask_eq_exp_minus_1)
  show u: "unat (n AND 7) = unat n mod 8" using unat_and_mask [of n 3] by (simp add: m)
  have e: "n - (n AND 7) = n AND NOT (mask 3)" by (metis and_plus_and_not add_diff_cancel_left' m)
  show "unat (n - (n AND 7)) = unat n div 8 * 8" using unat_and_not_mask [of n 3] by (simp add: e)
  show "IsAddressAligned (n - (n AND 7)) 8"
    unfolding IsAddressAligned_def e by (simp add: m bit_eq_iff bit_simps)
qed

text \<open>
  \<open>memcpy\<close> between two buffers that are not NULL and do not overlap never halts
  (its own alignment assertion holds for every count) and copies exactly the bytes asked for:
  the first \<open>Count\<close> bytes of the destination become those of the source, and no other byte
  of the memory changes. The count need not be a multiple of the quadword the copy works in.
\<close>

theorem memcpy_copies:
  assumes "Destination \<noteq> NULL" and "Source \<noteq> NULL" and "apart Destination Source Count"
  shows "memcpy m Destination Source Count =
    Some (\<lambda>p. if p - Destination < Count then m (Source + (p - Destination)) else m p)"
proof -
  define u where "u = Count AND 7"
  define al where "al = Count - u"
  have un: "unat u = unat Count mod 8" "unat al = unat Count div 8 * 8" and al: "IsAddressAligned al 8"
    unfolding u_def al_def by (rule aligned_part)+
  have c: "Count = u + al" by (simp add: al_def)
  have nw: "unat u + unat al < 2 ^ 64" using unat_less_2p [of Count] by (simp add: un)
  have ap: "apart Destination Source (u + al)" using assms(3) unfolding c .
  have "apart Destination Source u"
    by (rule apart_mono [OF assms(3)]) (simp add: word_le_nat_alt un)
  note tail = copied_tail [OF _ this, of m]
  have k: "8 * unat (al div 8) = unat al" by (simp add: unat_div un)
  have "movsq (Destination + u) (Source + u) (unat (al div 8)) (copied m Destination Source u) =
      copied (copied m Destination Source u) (Destination + u) (Source + u) al"
    using movsq_spec [of "unat (al div 8)" "Destination + u" "Source + u"] apart_shift [OF nw ap]
      unat_less_2p [of al] unfolding k by simp
  also have "\<dots> = copied m Destination Source Count"
    unfolding c by (rule copied_append [OF nw ap])
  finally have mv: "movsq (Destination + u) (Source + u) (unat (al div 8))
      (copied m Destination Source u) = copied m Destination Source Count" .
  have "memcpy m Destination Source Count = Some (copied m Destination Source Count)"
  proof -
    have eq: "memcpy m Destination Source Count =
        (if al \<noteq> 0 then do {
           ASSERT (IsAddressAligned al 8);
           Some (movsq (Destination + u) (Source + u) (unat (al div 8))
                  (fst (memcpy_tail m Destination Source u)))
         }
         else Some (fst (memcpy_tail m Destination Source u)))"
      using assms(1,2) by (simp add: memcpy_def Let_def split_beta u_def al_def)
    have tl: "fst (memcpy_tail m Destination Source u) = copied m Destination Source u"
      by (rule tail) (simp add: un)
    show ?thesis
    proof (cases "al = 0")
      case True
      with eq tl c show ?thesis by simp
    next
      case False
      with al show ?thesis unfolding eq tl mv by simp
    qed
  qed
  then show ?thesis by (simp add: copied_def)
qed


lemma memcpy_copies_witness:
  "memcpy (\<lambda>p. ucast p) 0x2000 0x1000 13 =
     Some (\<lambda>p. if p - 0x2000 < 13 then ucast (0x1000 + (p - 0x2000)) else ucast p)"
proof (rule memcpy_copies)
  show "apart 0x2000 0x1000 13"
    unfolding apart_def
  proof (intro allI impI)
    fix x y :: QWORD assume "x < 13" "y < 13"
    then have "unat x < 13" "unat y < 13" by (simp_all add: word_less_nat_alt)
    then have "unat (0x2000 + x) \<noteq> unat (0x1000 + y)" by (simp add: unat_plus_if')
    then show "0x2000 + x \<noteq> 0x1000 + y" by metis
  qed
qed simp_all

text \<open>
  The forward loop of \<open>memmove\<close>. Byte \<open>k\<close> of the source is still unwritten when it is read
  as long as the destination does not start inside the source.
\<close>

lemma memmove_loop_spec:
  "Count \<le> d - s \<or> d = s \<Longrightarrow> i \<le> Count \<Longrightarrow> memmove_loop d s Count i m =
     (\<lambda>p. if i \<le> p - d \<and> p - d < Count then m (s + (p - d)) else m p)"
proof (induction d s Count i m rule: memmove_loop.induct)
  case (1 d s Count i m)
  show ?case
  proof (cases "i < Count")
    case True
    let ?m = "m(d + i := m (s + i))"
    have "memmove_loop d s Count i m = memmove_loop d s Count (i + 1) ?m"
      using True by (subst memmove_loop.simps) simp
    also have "\<dots> = (\<lambda>p. if i + 1 \<le> p - d \<and> p - d < Count then ?m (s + (p - d)) else ?m p)"
      by (rule 1(1) [OF True 1(2) unat_succ_le [OF True]])
    also have "\<dots> = (\<lambda>p. if i \<le> p - d \<and> p - d < Count then m (s + (p - d)) else m p)"
    proof
      fix p
      define x where "x = p - d"
      have p: "p = d + x" by (simp add: x_def)
      have unread: "s + x \<noteq> d + i" if "i < x" "x < Count" "d \<noteq> s"
      proof
        assume "s + x = d + i"
        then have "d - s = x - i" by (simp add: algebra_simps eq_diff_eq)
        moreover have "x - i \<le> x" using that(1) by (simp add: word_sub_le)
        ultimately show False using 1(2) that by auto
      qed
      show "(if i + 1 \<le> p - d \<and> p - d < Count then ?m (s + (p - d)) else ?m p) =
          (if i \<le> p - d \<and> p - d < Count then m (s + (p - d)) else m p)"
        using True unread by (auto simp: p word_succ_le [OF True])
    qed
    finally show ?thesis .
  next
    case False
    then have "\<not> (i \<le> p - d \<and> p - d < Count)" for p by (meson le_less_trans)
    then have eq: "(\<lambda>p. if i \<le> p - d \<and> p - d < Count then m (s + (p - d)) else m p) = m"
      by (simp only: if_False)
    show ?thesis using False by (subst memmove_loop.simps) (simp add: eq)
  qed
qed

text \<open>
  \<open>memmove\<close> of buffers that are not NULL is a faithful copy, the overlapping part included,
  as long as the destination does not start strictly inside the source: in particular for every
  move towards lower addresses. The bytes outside the destination are unchanged.
\<close>

theorem memmove_copies:
  assumes "Destination \<noteq> NULL" and "Source \<noteq> NULL"
    and "Count \<le> Destination - Source \<or> Destination = Source"
  shows "memmove m Destination Source Count =
    (\<lambda>p. if p - Destination < Count then m (Source + (p - Destination)) else m p)"
  using assms by (simp add: memmove_def memmove_loop_spec)

lemma memmove_copies_witness:
  "memmove (\<lambda>p. ucast p) 0x1000 0x1004 16 =
     (\<lambda>p. if p - 0x1000 < 16 then ucast (0x1004 + (p - 0x1000)) else (ucast p :: BYTE))"
  by (rule memmove_copies) simp_all

text \<open>
  The remaining overlap, a destination strictly inside the source, is the case for which
  \<open>memmove\<close> differs from \<open>memcpy\<close> in the C library, and the loop does not handle it: moving a
  buffer up by one byte fills the destination with its first byte.
\<close>

lemma memmove_up_smears:
  "i \<le> n \<Longrightarrow> m (s + i) = v \<Longrightarrow> n \<noteq> MAX_QWORD \<Longrightarrow> memmove_loop (s + 1) s n i m =
     (\<lambda>p. if i \<le> p - (s + 1) \<and> p - (s + 1) < n then v else m p)"
proof (induction "s + 1" s n i m rule: memmove_loop.induct)
  case (1 s n i m)
  note IH = 1(1) and v = 1(3)
  show ?case
  proof (cases "i < n")
    case True
    let ?m = "m(s + 1 + i := v)"
    have "memmove_loop (s + 1) s n i m = memmove_loop (s + 1) s n (i + 1) ?m"
      using True 1(3) by (subst memmove_loop.simps) simp
    also have "\<dots> = (\<lambda>p. if i + 1 \<le> p - (s + 1) \<and> p - (s + 1) < n then v else ?m p)"
      using IH [OF True unat_succ_le [OF True]] v 1(4)
      by (simp add: add.assoc add.commute [of 1] cong: if_cong)
    also have "\<dots> = (\<lambda>p. if i \<le> p - (s + 1) \<and> p - (s + 1) < n then v else m p)"
    proof
      fix p
      have "p = s + 1 + i \<longleftrightarrow> i = p - (s + 1)" by (auto simp: algebra_simps)
      then show "(if i + 1 \<le> p - (s + 1) \<and> p - (s + 1) < n then v else ?m p) =
          (if i \<le> p - (s + 1) \<and> p - (s + 1) < n then v else m p)"
        using True by (auto simp: word_le_succ [OF True])
    qed
    finally show ?thesis .
  next
    case False
    then have "\<not> (i \<le> p - (s + 1) \<and> p - (s + 1) < n)" for p by (meson le_less_trans)
    then have eq: "(\<lambda>p. if i \<le> p - (s + 1) \<and> p - (s + 1) < n then v else m p) = m"
      by (simp only: if_False)
    show ?thesis using False by (subst memmove_loop.simps) (simp add: eq)
  qed
qed

lemma memmove_overlap_not_copied:
  "s \<noteq> NULL \<Longrightarrow> s + 1 \<noteq> NULL \<Longrightarrow> memmove m (s + 1) s 2 (s + 2) = m s"
  using memmove_up_smears [of 0 2 m s "m s"] by (simp add: memmove_def)

text \<open>Comparison and scanning return the first difference.\<close>

lemma memcmp_loop_spec:
  "i \<le> n \<Longrightarrow>
   (\<forall>k. i \<le> k \<and> k < n \<longrightarrow> m (p + of_nat k) = m (q + of_nat k)) \<and> memcmp_loop m p q n i = 0 \<or>
   (\<exists>k. i \<le> k \<and> k < n \<and> (\<forall>j. i \<le> j \<and> j < k \<longrightarrow> m (p + of_nat j) = m (q + of_nat j)) \<and>
     m (p + of_nat k) \<noteq> m (q + of_nat k) \<and>
     memcmp_loop m p q n i = uint (m (p + of_nat k)) - uint (m (q + of_nat k)))"
proof (induction m p q n i rule: memcmp_loop.induct)
  case (1 m p q n i)
  note unf = memcmp_loop.simps [of m p q n i]
  have split: "i \<le> j \<longleftrightarrow> j = i \<or> i + 1 \<le> j" for j by auto
  show ?case
  proof (cases "i < n \<and> m (p + of_nat i) = m (q + of_nat i)")
    case True
    then have lt: "i < n" and here: "\<not> m (p + of_nat i) \<noteq> m (q + of_nat i)" by simp_all
    from True have eq: "memcmp_loop m p q n i = memcmp_loop m p q n (i + 1)" unfolding unf by simp
    show ?thesis using 1(1) [OF lt here] lt here unfolding eq split by fastforce
  next
    case False
    show ?thesis
    proof (cases "i < n")
      case True
      with False show ?thesis unfolding unf by auto
    next
      case False
      with 1(2) show ?thesis unfolding unf by auto
    qed
  qed
qed

lemma byte_diff_0: "uint a - uint b = 0 \<longleftrightarrow> a = b"
  for a b :: BYTE
  by (simp add: word_uint_eq_iff)

text \<open>
  \<open>memcmp\<close> of two buffers that are not NULL is 0 exactly when their first \<open>sz\<close> bytes
  agree; otherwise its sign is the order of the first pair of bytes that differ.
\<close>

theorem memcmp_orders:
  assumes "ptr1 \<noteq> NULL" and "ptr2 \<noteq> NULL"
  shows "(memcmp m ptr1 ptr2 sz = 0 \<longleftrightarrow>
        (\<forall>k < unat sz. m (ptr1 + of_nat k) = m (ptr2 + of_nat k))) \<and>
      (memcmp m ptr1 ptr2 sz < 0 \<longleftrightarrow>
        (\<exists>k < unat sz. (\<forall>j < k. m (ptr1 + of_nat j) = m (ptr2 + of_nat j)) \<and>
          m (ptr1 + of_nat k) < m (ptr2 + of_nat k)))"
proof -
  let ?eq = "\<lambda>k. m (ptr1 + of_nat k) = m (ptr2 + of_nat k)"
  let ?less = "\<lambda>k. m (ptr1 + of_nat k) < m (ptr2 + of_nat k)"
  consider (same) "\<forall>k < unat sz. ?eq k" "memcmp m ptr1 ptr2 sz = 0"
    | (diff) k where "k < unat sz" "\<forall>j < k. ?eq j" "\<not> ?eq k"
      "memcmp m ptr1 ptr2 sz = uint (m (ptr1 + of_nat k)) - uint (m (ptr2 + of_nat k))"
    using memcmp_loop_spec [of 0 "unat sz" m ptr1 ptr2] assms by (auto simp: memcmp_def)
  then show ?thesis
  proof cases
    case same
    then show ?thesis by auto
  next
    case (diff k)
    have "memcmp m ptr1 ptr2 sz \<noteq> 0" using diff(3) unfolding diff(4) by (simp only: byte_diff_0 not_False_eq_True)
    moreover have "memcmp m ptr1 ptr2 sz < 0 \<longleftrightarrow> ?less k"
      unfolding diff(4) by (simp add: word_less_def)
    moreover have "(\<exists>k < unat sz. (\<forall>j < k. ?eq j) \<and> ?less k) \<longleftrightarrow> ?less k"
      using diff(1-3) by (metis linorder_neqE_nat order_less_irrefl)
    ultimately show ?thesis using diff(1,3) by blast
  qed
qed

lemma memcmp_orders_witness:
  "(memcmp (\<lambda>p. if p = 0x2001 then 5 else 3) 0x1000 0x2000 4 = 0 \<longleftrightarrow>
        (\<forall>k < unat (4 :: DWORD). (if (0x1000 :: PVOID) + of_nat k = 0x2001 then 5 else 3 :: BYTE) =
          (if (0x2000 :: PVOID) + of_nat k = 0x2001 then 5 else 3))) \<and>
      (memcmp (\<lambda>p. if p = 0x2001 then 5 else 3) 0x1000 0x2000 4 < 0 \<longleftrightarrow>
        (\<exists>k < unat (4 :: DWORD). (\<forall>j < k. (if (0x1000 :: PVOID) + of_nat j = 0x2001 then 5 else 3 :: BYTE) =
            (if (0x2000 :: PVOID) + of_nat j = 0x2001 then 5 else 3)) \<and>
          (if (0x1000 :: PVOID) + of_nat k = 0x2001 then 5 else 3 :: BYTE) <
            (if (0x2000 :: PVOID) + of_nat k = 0x2001 then 5 else 3)))"
  by (rule memcmp_orders [of "0x1000" "0x2000" "\<lambda>p. if p = 0x2001 then 5 else 3" 4]) simp_all

text \<open>\<open>memscan\<close> is the length of the prefix filled with \<open>val\<close>.\<close>

lemma memscan_loop_spec:
  "i \<le> sz \<Longrightarrow> i \<le> memscan_loop m b sz v i \<and> memscan_loop m b sz v i \<le> sz \<and>
     (\<forall>k. i \<le> k \<and> k < memscan_loop m b sz v i \<longrightarrow> m (b + ucast k) = v) \<and>
     (memscan_loop m b sz v i < sz \<longrightarrow> m (b + ucast (memscan_loop m b sz v i)) \<noteq> v)"
proof (induction m b sz v i rule: memscan_loop.induct)
  case (1 m b sz v i)
  note unf = memscan_loop.simps [of m b sz v i]
  show ?case
  proof (cases "i < sz \<and> m (b + ucast i) = v")
    case True
    then have lt: "i < sz" and eq: "memscan_loop m b sz v i = memscan_loop m b sz v (i + 1)"
      unfolding unf by simp_all
    have split: "i \<le> k \<longleftrightarrow> k = i \<or> i + 1 \<le> k" for k using word_succ_le [OF lt, of k] by auto
    show ?thesis
      using 1(1) [OF lt _ unat_succ_le [OF lt]] True unfolding eq split by auto
  next
    case False
    with 1(2) show ?thesis unfolding unf by auto
  qed
qed

section \<open>Blocks, strings and integers in memory\<close>

text \<open>
  \<open>put m a bs\<close> is the memory with the block \<open>bs\<close> stored at \<open>a\<close>; \<open>str_at m a cs\<close>
  says that the zero-terminated string \<open>cs\<close> is stored at \<open>a\<close>. Integers are stored
  least significant byte first.
\<close>

fun put :: "mem \<Rightarrow> PVOID \<Rightarrow> BYTE list \<Rightarrow> mem" where
  "put m a [] = m"
| "put m a (b # bs) = put (m(a := b)) (a + 1) bs"

fun str_at :: "mem \<Rightarrow> PVOID \<Rightarrow> BYTE list \<Rightarrow> bool" where
  "str_at m a [] \<longleftrightarrow> m a = 0"
| "str_at m a (c # cs) \<longleftrightarrow> c \<noteq> 0 \<and> m a = c \<and> str_at m (a + 1) cs"

fun read_le :: "mem \<Rightarrow> PVOID \<Rightarrow> nat \<Rightarrow> nat" where
  "read_le m a 0 = 0"
| "read_le m a (Suc n) = unat (m a) + 256 * read_le m (a + 1) n"

fun bytes_le :: "nat \<Rightarrow> nat \<Rightarrow> BYTE list" where
  "bytes_le 0 v = []"
| "bytes_le (Suc n) v = of_nat v # bytes_le n (v div 256)"

definition read64 :: "mem \<Rightarrow> PVOID \<Rightarrow> QWORD" where "read64 m a = of_nat (read_le m a 8)"
definition read32 :: "mem \<Rightarrow> PVOID \<Rightarrow> DWORD" where "read32 m a = of_nat (read_le m a 4)"
definition write64 :: "mem \<Rightarrow> PVOID \<Rightarrow> QWORD \<Rightarrow> mem" where "write64 m a v = put m a (bytes_le 8 (unat v))"
definition write32 :: "mem \<Rightarrow> PVOID \<Rightarrow> DWORD \<Rightarrow> mem" where "write32 m a v = put m a (bytes_le 4 (unat v))"

lemma put_apply:
  "length bs \<le> 2 ^ 64 \<Longrightarrow>
   put m a bs p = (if unat (p - a) < length bs then bs ! unat (p - a) else m p)"
proof (induction bs arbitrary: m a)
  case Nil
  then show ?case by simp
next
  case (Cons b bs)
  have step: "unat (p - a) = Suc (unat (p - (a + 1)))" if "p \<noteq> a"
  proof -
    have "0 < unat (p - a)" using that by (simp add: unat_gt_0)
    then show ?thesis using unat_pred [of "p - a"] by (simp add: algebra_simps)
  qed
  show ?case
  proof (cases "p = a")
    case True
    have "unat (p - (a + 1)) = 2 ^ 64 - 1" using True by (simp add: unsigned_minus_1_eq_mask mask_eq_exp_minus_1)
    then have "\<not> unat (p - (a + 1)) < length bs" using Cons.prems by simp
    then show ?thesis using Cons True by simp
  next
    case False
    then show ?thesis using Cons step [OF False] by simp
  qed
qed

lemma length_bytes_le [simp]: "length (bytes_le n v) = n"
  by (induction n arbitrary: v) simp_all

lemma put_upd:
  assumes "k < length bs" and "length bs \<le> 2 ^ 64"
  shows "(put m a bs)(a + of_nat k := v) = put m a (bs[k := v])"
proof
  fix p
  have u: "unat (of_nat k :: PVOID) = k" using assms by (intro unat_of_nat_small) simp
  have "p = a + of_nat k \<longleftrightarrow> p - a = of_nat k" by (auto simp: algebra_simps)
  also have "\<dots> \<longleftrightarrow> unat (p - a) = k" by (simp add: word_unat_eq_iff u)
  finally show "((put m a bs)(a + of_nat k := v)) p = put m a (bs[k := v]) p"
    using assms by (simp add: put_apply nth_list_update)
qed

lemma put_append: "put m a (bs @ cs) = put (put m a bs) (a + of_nat (length bs)) cs"
  by (induction bs arbitrary: m a) (simp_all add: algebra_simps)

lemma put_snoc: "(put m a bs)(a + of_nat (length bs) := v) = put m a (bs @ [v])"
  by (simp add: put_append)

lemma put_at: "k < length bs \<Longrightarrow> length bs \<le> 2 ^ 64 \<Longrightarrow> put m a bs (a + of_nat k) = bs ! k"
  by (simp add: put_apply unat_of_nat_small)

lemma put_put:
  "length cs \<le> length bs \<Longrightarrow> length bs \<le> 2 ^ 64 \<Longrightarrow>
   put (put m a cs) a bs = put m a bs"
  by (rule ext) (simp add: put_apply)

lemma str_at_nth:
  "str_at m a cs \<longleftrightarrow> 0 \<notin> set cs \<and> (\<forall>k < length cs. m (a + of_nat k) = cs ! k) \<and> m (a + of_nat (length cs)) = 0"
proof (induction cs arbitrary: a)
  case Nil
  then show ?case by simp
next
  case (Cons c cs)
  have "(\<forall>k < length (c # cs). m (a + of_nat k) = (c # cs) ! k) \<longleftrightarrow>
      m a = c \<and> (\<forall>k < length cs. m (a + 1 + of_nat k) = cs ! k)"
    by (simp add: All_less_Suc2 algebra_simps)
  then show ?case using Cons [of "a + 1"] by (auto simp: algebra_simps)
qed

lemma str_at_put: "0 \<notin> set cs \<Longrightarrow> length cs < 2 ^ 64 \<Longrightarrow> str_at (put m a (cs @ [0])) a cs"
  using put_at [of _ "cs @ [0]" m a] by (auto simp: str_at_nth nth_append)

lemma read_le_put: "length bs < 2 ^ 64 \<Longrightarrow> n = length bs \<Longrightarrow>
  read_le (put m a bs) a n = foldr (\<lambda>b v. unat b + 256 * v) bs 0"
proof (induction bs arbitrary: m a n)
  case Nil
  then show ?case by simp
next
  case (Cons b bs)
  then show ?case using put_at [of 0 "b # bs" m a] by simp
qed

lemma foldr_bytes_le: "foldr (\<lambda>b v. unat b + 256 * v) (bytes_le n v) 0 = v mod 256 ^ n"
proof (induction n arbitrary: v)
  case 0
  then show ?case by simp
next
  case (Suc n)
  have "v mod 256 ^ Suc n = v mod 256 + 256 * (v div 256 mod 256 ^ n)"
    by (simp add: mod_mult2_eq)
  then show ?case using Suc by (simp add: unat_of_nat)
qed

lemma read64_write64 [simp]: "read64 (write64 m a v) a = v"
proof -
  have "unat v mod 256 ^ 8 = unat v" using unat_less_2p [of v] by (intro mod_less) simp
  then show ?thesis by (simp add: read64_def write64_def read_le_put foldr_bytes_le)
qed

lemma read32_write32 [simp]: "read32 (write32 m a v) a = v"
proof -
  have "unat v mod 256 ^ 4 = unat v" using unat_less_2p [of v] by (intro mod_less) simp
  then show ?thesis by (simp add: read32_def write32_def read_le_put foldr_bytes_le)
qed

text \<open>An index kept in a 32-bit counter.\<close>

lemma index_step:
  fixes i :: DWORD and a :: PVOID
  assumes "Suc (unat i) < 2 ^ 32"
  shows "a + ucast (i + 1) = a + ucast i + 1" and "unat (i + 1) = Suc (unat i)"
proof -
  have "i < MAX_DWORD" using assms by (simp add: word_less_nat_alt)
  then show "a + ucast (i + 1) = a + ucast i + 1" by (simp add: ucast_succ add.assoc)
  show "unat (i + 1) = Suc (unat i)" using \<open>i < MAX_DWORD\<close> by (rule unat_succ)
qed

lemma ucast_eq_of_nat: "(ucast i :: QWORD) = of_nat (unat i)"
  for i :: DWORD
  using unat_less_2p [of i] by (simp add: word_unat_eq_iff unat_ucast_up unat_of_nat_small)

lemma ucast_of_nat_up: "k < 2 ^ 32 \<Longrightarrow> (ucast (of_nat k :: DWORD) :: QWORD) = of_nat k"
  by (simp add: word_unat_eq_iff unat_ucast_up unat_of_nat_small)

end
