(* ===== verification/StrUtils.thy ===== *)
theory StrUtils
  imports Memory
begin

text \<open>
  \<^verbatim>\<open>CommonLib/src/strutils.c\<close>: conversion between integers and their text in a numeric base.
  Characters are signed bytes. A \<open>while\<close> loop whose end depends on the base or on the
  terminator of a string is a \<open>partial_function\<close>: a call that never returns is \<open>None\<close>.
\<close>

section \<open>The operations\<close>

abbreviation LOWER_UPPER_DIFF :: BYTE where "LOWER_UPPER_DIFF \<equiv> 0x20"

definition isascii :: "BYTE \<Rightarrow> bool" where
  "isascii c \<longleftrightarrow> 0x1F < sint c \<and> sint c < 0x80"

definition tolower :: "BYTE \<Rightarrow> BYTE" where
  "tolower c = c OR LOWER_UPPER_DIFF"

definition swap :: "mem \<Rightarrow> PVOID \<Rightarrow> PVOID \<Rightarrow> mem" where
  "swap m a b =
     (let m = m(a := m a XOR m b);
          m = m(b := m b XOR m a)
      in m(a := m a XOR m b))"

partial_function (option) itoa_digits ::
    "PVOID \<Rightarrow> DWORD \<Rightarrow> QWORD \<Rightarrow> DWORD \<Rightarrow> mem \<Rightarrow> (mem \<times> DWORD) option" where
  "itoa_digits buffer base value index m =
     (if value \<noteq> 0 then
        let digit = (ucast (value mod ucast base) :: DWORD);
            c = (if 9 < sint digit then ucast (digit - 10) + 0x41 else ucast digit + 0x30 :: BYTE)
        in itoa_digits buffer base (value div ucast base) (index + 1)
             (m(buffer + ucast index := c))
      else Some (m, index))"

function reverse_loop :: "PVOID \<Rightarrow> DWORD \<Rightarrow> DWORD \<Rightarrow> mem \<Rightarrow> mem" where
  "reverse_loop buffer index i m =
     (if i < index div 2
      then reverse_loop buffer index (i + 1)
             (swap m (buffer + ucast i) (buffer + ucast (index - i - 1)))
      else m)"
  by pat_completeness auto
termination
  by (relation "measure (\<lambda>(buffer, index, i, m). unat (index div 2) - unat i)")
    (auto intro: counter_decreases)

declare reverse_loop.simps [simp del]

definition itoa :: "mem \<Rightarrow> PVOID \<Rightarrow> bool \<Rightarrow> PVOID \<Rightarrow> DWORD \<Rightarrow> bool \<Rightarrow> mem option" where
  "itoa m valueAddress signedValue buffer base is64BitValue = do {
     ASSERT (NULL \<noteq> valueAddress);
     ASSERT (NULL \<noteq> buffer);
     ASSERT (0 \<noteq> base);
     let negative = (signedValue \<and>
           (if is64BitValue then 0 > sint (read64 m valueAddress)
            else 0 > sint (read32 m valueAddress)));
     let value = (if is64BitValue
           then (if negative then - read64 m valueAddress else read64 m valueAddress)
           else (if negative then scast (- read32 m valueAddress) else ucast (read32 m valueAddress)));
     let (m, index) = (if value = 0 then (m(buffer := 0x30), 1) else (m, 0));
     (m, index) \<leftarrow> itoa_digits buffer base value index m;
     let (m, index) = (if negative then (m(buffer + ucast index := 0x2D), index + 1) else (m, index));
     let m = m(buffer + ucast index := 0);
     Some (reverse_loop buffer index 0 m)
   }"

definition atoi_char :: "BYTE \<Rightarrow> BYTE" where
  "atoi_char b =
     (let c = tolower b
      in if 0x30 \<le> sint c \<and> sint c \<le> 0x39 then c - 0x30
         else if 0x61 \<le> sint c \<and> sint c \<le> 0x7A then c - 0x61 + 10
         else MAX_BYTE)"

partial_function (option) atoi_loop ::
    "mem \<Rightarrow> PVOID \<Rightarrow> DWORD \<Rightarrow> DWORD \<Rightarrow> QWORD \<Rightarrow> QWORD option" where
  "atoi_loop m buffer base i value =
     (if m (buffer + ucast i) \<noteq> 0 then do {
        ASSERT (isascii (m (buffer + ucast i)));
        let currentCharValue = atoi_char (m (buffer + ucast i));
        ASSERT (ucast currentCharValue < base);
        atoi_loop m buffer base (i + 1) (value * ucast base + ucast currentCharValue)
      }
      else Some value)"

definition atoi :: "mem \<Rightarrow> PVOID \<Rightarrow> PVOID \<Rightarrow> DWORD \<Rightarrow> bool \<Rightarrow> mem option" where
  "atoi m valueAddress buffer base is64BitValue = do {
     ASSERT (NULL \<noteq> valueAddress);
     ASSERT (NULL \<noteq> buffer);
     ASSERT (0 \<noteq> base);
     let negative = (m buffer = 0x2D);
     value \<leftarrow> atoi_loop m buffer base (if negative then 1 else 0) 0;
     let value = (if negative then - value else value);
     if is64BitValue then Some (write64 m valueAddress value)
     else do {
       ASSERT (negative \<or> \<not> negative \<and> value \<le> ucast MAX_DWORD);
       Some (write32 m valueAddress (ucast value))
     }
   }"

section \<open>The text of a number\<close>

definition digit_char :: "nat \<Rightarrow> BYTE" where
  "digit_char d = (if 9 < d then of_nat (d - 10) + 0x41 else of_nat d + 0x30)"

fun digits_le :: "nat \<Rightarrow> nat \<Rightarrow> BYTE list" where
  "digits_le base n =
     (if n = 0 \<or> base < 2 then [] else digit_char (n mod base) # digits_le base (n div base))"

declare digits_le.simps [simp del]

definition numeral_text :: "nat \<Rightarrow> nat \<Rightarrow> BYTE list" where
  "numeral_text base n = (if n = 0 then [0x30] else rev (digits_le base n))"

definition number_text :: "nat \<Rightarrow> int \<Rightarrow> BYTE list" where
  "number_text base n =
     (if n < 0 then [0x2D] else []) @ numeral_text base (nat \<bar>n\<bar>)"

definition number_at :: "mem \<Rightarrow> PVOID \<Rightarrow> bool \<Rightarrow> bool \<Rightarrow> int" where
  "number_at m a signedValue is64BitValue =
     (if is64BitValue then (if signedValue then sint (read64 m a) else uint (read64 m a))
      else (if signedValue then sint (read32 m a) else uint (read32 m a)))"

lemma swap_spec: "a \<noteq> b \<Longrightarrow> swap m a b = m(a := m b, b := m a)"
  by (rule ext) (simp add: swap_def Let_def xor.left_commute xor.commute)

lemma swap_put:
  assumes "i < length bs" "j < length bs" "i \<noteq> j" "length bs < 2 ^ 64"
  shows "swap (put m a bs) (a + of_nat i) (a + of_nat j) = put m a (bs[i := bs ! j, j := bs ! i])"
proof -
  have "unat (of_nat i :: PVOID) = i" "unat (of_nat j :: PVOID) = j"
    using assms by (simp_all add: unat_of_nat_small)
  then have "a + of_nat i \<noteq> a + of_nat j" using assms(3) by (metis add_left_cancel)
  then show ?thesis using assms by (simp add: swap_spec put_at put_upd)
qed

lemma reverse_loop_put:
  assumes "length (xs @ mid @ ys @ zs) < 2 ^ 32" and "length xs = unat i" and "length ys = unat i"
    and "unat index = length (xs @ mid @ ys)"
  shows "reverse_loop buffer index i (put m buffer (xs @ mid @ ys @ zs)) =
    put m buffer (xs @ rev mid @ ys @ zs)"
  using assms
proof (induction "length mid" arbitrary: xs mid ys i rule: less_induct)
  case less
  note unf = reverse_loop.simps [of buffer index i]
  have half: "unat (index div 2) = unat index div 2" by (simp add: unat_div)
  show ?case
  proof (cases "i < index div 2")
    case True
    then have "2 * unat i + 2 \<le> unat index" by (simp add: word_less_nat_alt half)
    then have len: "2 \<le> length mid" using less.prems by simp
    define b c mid' where "b = hd mid" and "c = last mid" and "mid' = butlast (tl mid)"
    have mid: "mid = b # mid' @ [c]"
      using len by (cases mid; cases "tl mid" rule: rev_cases) (simp_all add: b_def c_def mid'_def)
    let ?n = "unat i" and ?j = "Suc (length xs + length mid')"
    have ui: "unat (index - i - 1) = ?j" and uj: "unat (i + 1) = Suc ?n"
    proof -
      have le: "i \<le> index" using True by (simp add: word_le_nat_alt word_less_nat_alt half)
      have d: "unat (index - i) = unat index - unat i" by (rule unat_sub) (fact le)
      show "unat (index - i - 1) = ?j"
        using less.prems by (subst unat_pred) (simp_all add: d mid)
      show "unat (i + 1) = Suc ?n" by (rule unat_succ [OF True])
    qed
    have at: "buffer + ucast i = buffer + of_nat (length xs)"
      "buffer + ucast (index - i - 1) = buffer + of_nat ?j"
      using less.prems(2) ui by (simp_all only: ucast_eq_of_nat)
    have "reverse_loop buffer index i (put m buffer (xs @ mid @ ys @ zs)) =
        reverse_loop buffer index (i + 1)
          (swap (put m buffer (xs @ mid @ ys @ zs)) (buffer + of_nat (length xs)) (buffer + of_nat ?j))"
      unfolding unf using True at by simp
    also have "swap (put m buffer (xs @ mid @ ys @ zs)) (buffer + of_nat (length xs)) (buffer + of_nat ?j) =
        put m buffer ((xs @ [c]) @ mid' @ (b # ys) @ zs)"
      using less.prems by (subst swap_put) (simp_all add: mid list_update_append nth_append)
    also have "reverse_loop buffer index (i + 1) \<dots> =
        put m buffer ((xs @ [c]) @ rev mid' @ (b # ys) @ zs)"
      by (rule less.hyps) (use less.prems uj in \<open>simp_all add: mid\<close>)
    finally show ?thesis by (simp add: mid)
  next
    case False
    then have "unat index div 2 \<le> unat i" by (simp add: word_less_nat_alt half)
    then have "length mid \<le> 1" using less.prems by simp
    then have "rev mid = mid" by (cases mid) auto
    then show ?thesis using False unf by simp
  qed
qed


text \<open>The digit loop stores the digits, least significant first.\<close>

lemma digit_code:
  fixes base :: DWORD and x :: QWORD
  assumes "0 < unat base" and "unat base \<le> 36"
  defines "d \<equiv> ucast (x mod ucast base) :: DWORD"
  shows "(if 9 < sint d then ucast (d - 10) + 0x41 else ucast d + 0x30) =
    digit_char (unat x mod unat base)"
proof -
  have lt: "unat x mod unat base < unat base" using assms(1) by simp
  have ud: "unat d = unat x mod unat base"
    using lt assms(2) by (simp add: d_def unat_ucast_mod unat_mod)
  have small: "unat d < 36" using ud lt assms(2) by simp
  have s: "sint d = int (unat d)" using small by (intro sint_unat) simp
  define k where "k = unat d"
  have g: "(ucast w :: BYTE) = of_nat (unat w)" for w :: DWORD
    by (simp add: word_unat_eq_iff unat_ucast_mod unat_of_nat del: of_nat_unat)
  have cd: "(ucast d :: BYTE) = of_nat k" unfolding k_def by (rule g)
  have "unat (d - 10) = k - 10" if "9 < k"
    using that by (subst unat_sub) (simp_all add: word_le_nat_alt k_def)
  then have "(ucast (d - 10) :: BYTE) = of_nat (k - 10)" if "9 < k"
    using that g [of "d - 10"] by simp
  with cd show ?thesis by (simp add: s digit_char_def ud [symmetric] k_def [symmetric])
qed

lemma digits_le_length: "2 \<le> base \<Longrightarrow> n < 2 ^ k \<Longrightarrow> length (digits_le base n) \<le> k"
proof (induction base n arbitrary: k rule: digits_le.induct)
  case (1 base n)
  show ?case
  proof (cases "n = 0")
    case True
    then show ?thesis by (simp add: digits_le.simps)
  next
    case False
    then obtain k' where k: "k = Suc k'" using 1(3) by (cases k) auto
    have "n div base \<le> n div 2" using 1(2) by (simp add: div_le_mono2)
    then have "n div base < 2 ^ k'" using 1(3) k by simp
    then show ?thesis using 1(1) [of k'] 1(2) False k by (subst digits_le.simps) simp
  qed
qed

lemma itoa_digits_put:
  assumes "2 \<le> unat base" and "unat base \<le> 36"
  shows "unat x < 2 ^ k \<Longrightarrow> length bs + k < 2 ^ 32 \<Longrightarrow>
    itoa_digits buffer base x (of_nat (length bs)) (put m buffer bs) =
      Some (put m buffer (bs @ digits_le (unat base) (unat x)),
            of_nat (length (bs @ digits_le (unat base) (unat x))))"
proof (induction k arbitrary: x bs)
  case 0
  then have "x = 0" by (simp add: unat_eq_zero)
  then show ?case by (simp add: itoa_digits.simps digits_le.simps)
next
  case (Suc k)
  let ?b = "unat base" and ?v = "unat x"
  show ?case
  proof (cases "x = 0")
    case True
    then show ?thesis by (simp add: itoa_digits.simps digits_le.simps)
  next
    case False
    let ?c = "digit_char (?v mod ?b)"
    have dv: "unat (x div ucast base) = ?v div ?b" by (simp add: unat_div unat_ucast_up)
    have "?v div ?b \<le> ?v div 2" using assms(1) by (simp add: div_le_mono2)
    then have small: "unat (x div ucast base) < 2 ^ k" using Suc.prems(1) by (simp add: dv)
    have at: "buffer + ucast (of_nat (length bs) :: DWORD) = buffer + of_nat (length bs)"
      using Suc.prems(2) by (simp add: ucast_of_nat_up)
    have "itoa_digits buffer base x (of_nat (length bs)) (put m buffer bs) =
        itoa_digits buffer base (x div ucast base) (of_nat (length (bs @ [?c])))
          (put m buffer (bs @ [?c]))"
      using False digit_code [of base x] assms
      by (subst itoa_digits.simps) (simp add: at put_snoc Let_def add.commute [of 1])
    also have "\<dots> = Some (put m buffer ((bs @ [?c]) @ digits_le ?b (?v div ?b)),
        of_nat (length ((bs @ [?c]) @ digits_le ?b (?v div ?b))))"
      using Suc.IH [OF small, of "bs @ [?c]"] Suc.prems(2) unfolding dv by simp
    also have "(bs @ [?c]) @ digits_le ?b (?v div ?b) = bs @ digits_le ?b ?v"
      using False assms(1) by (simp add: digits_le.simps [of ?b ?v] unat_eq_zero)
    finally show ?thesis .
  qed
qed


text \<open>The sign and the magnitude the conversion works with.\<close>

lemma unat_uminus_neg:
  fixes r :: "'a::len word"
  assumes "sint r < 0"
  shows "unat (- r) = nat (- sint r)"
proof -
  have "- r = word_of_int (- sint r)" by simp
  then have "uint (- r) = - sint r mod 2 ^ LENGTH('a)" by (simp only: uint_word_of_int)
  moreover have "- sint r < 2 ^ LENGTH('a)"
  proof -
    have "- sint r \<le> 2 ^ (LENGTH('a) - 1)" using sint_ge [of r] by linarith
    also have "\<dots> < 2 ^ LENGTH('a)" by (rule power_strict_increasing) simp_all
    finally show ?thesis .
  qed
  ultimately show ?thesis using assms unfolding unat_eq_nat_uint by simp
qed

lemma unat_scast_uminus_neg:
  fixes r :: DWORD
  assumes "sint r < 0" and "r \<noteq> 0x80000000"
  shows "unat (scast (- r) :: QWORD) = nat (- sint r)"
proof -
  have "unat (- r) = nat (- sint r)" by (rule unat_uminus_neg [OF assms(1)])
  moreover have "- sint r < 2 ^ 31"
  proof (rule ccontr)
    assume "\<not> - sint r < 2 ^ 31"
    then have "sint r = - (2 ^ 31)" using sint_ge [of r] by simp
    then have "r = word_of_int (- (2 ^ 31))" by (metis of_int_sint scast_id)
    with assms(2) show False by simp
  qed
  ultimately have "unat (- r) < 2 ^ 31" using assms(1) by simp
  then have "sint (- r) = int (unat (- r))" by (intro sint_unat) simp
  then have "(scast (- r) :: QWORD) = of_nat (unat (- r))"
    by (metis of_int_of_nat_eq of_int_sint)
  then show ?thesis using \<open>unat (- r) = nat (- sint r)\<close> \<open>unat (- r) < 2 ^ 31\<close>
    by (simp add: unat_of_nat_small)
qed

definition itoa_value :: "mem \<Rightarrow> PVOID \<Rightarrow> bool \<Rightarrow> bool \<Rightarrow> QWORD" where
  "itoa_value m a signedValue is64BitValue =
     (let negative = number_at m a signedValue is64BitValue < 0
      in if is64BitValue then (if negative then - read64 m a else read64 m a)
         else (if negative then scast (- read32 m a) else ucast (read32 m a)))"

lemma unat_itoa_value:
  assumes "is64BitValue \<or> \<not> signedValue \<or> read32 m a \<noteq> 0x80000000"
  shows "unat (itoa_value m a signedValue is64BitValue) = nat \<bar>number_at m a signedValue is64BitValue\<bar>"
  using assms unat_uminus_neg [of "read64 m a"] unat_scast_uminus_neg [of "read32 m a"]
    unat_nonneg [of "read64 m a"] unat_nonneg [of "read32 m a"]
  by (auto simp: itoa_value_def number_at_def unat_ucast_up simp flip: unat_eq_nat_uint)


lemma reverse_whole:
  assumes "length es < 2 ^ 31"
  shows "reverse_loop buffer (of_nat (length es)) 0 (put m buffer (es @ [0])) =
    put m buffer (rev es @ [0])"
proof -
  have "unat (of_nat (length es) :: DWORD) = length es"
    using assms by (intro unat_of_nat_small) simp
  then show ?thesis
    using reverse_loop_put [of "[]" es "[]" "[0]" 0 "of_nat (length es)" buffer m] assms by simp
qed

lemma length_numeral_text: "2 \<le> base \<Longrightarrow> n < 2 ^ 64 \<Longrightarrow> length (numeral_text base n) \<le> 64"
  using digits_le_length [of base n 64] by (simp add: numeral_text_def)

lemma itoa_text:
  fixes base :: DWORD
  assumes "valueAddress \<noteq> NULL" and "buffer \<noteq> NULL" and "2 \<le> unat base" and "unat base \<le> 36"
  shows "itoa m valueAddress signedValue buffer base is64BitValue =
    Some (put m buffer ((if number_at m valueAddress signedValue is64BitValue < 0 then [0x2D] else []) @
      numeral_text (unat base) (unat (itoa_value m valueAddress signedValue is64BitValue)) @ [0]))"
proof -
  let ?v = "itoa_value m valueAddress signedValue is64BitValue"
  let ?neg = "number_at m valueAddress signedValue is64BitValue < 0"
  let ?b = "unat base"
  define ds where "ds = (if ?v = 0 then [0x30] else digits_le ?b (unat ?v))"
  have neg: "?neg \<longleftrightarrow> signedValue \<and> (if is64BitValue then 0 > sint (read64 m valueAddress)
      else 0 > sint (read32 m valueAddress))"
    by (simp add: number_at_def)
  have base0: "base \<noteq> 0" using assms(3) by auto
  have v: "unat ?v < 2 ^ 64" using unat_less_2p [of ?v] by simp
  have len: "length ds \<le> 64"
    using digits_le_length [OF assms(3) v] by (simp add: ds_def)
  have digits: "itoa_digits buffer base ?v (if ?v = 0 then 1 else 0) (if ?v = 0 then m(buffer := 0x30) else m) =
      Some (put m buffer ds, of_nat (length ds))"
  proof (cases "?v = 0")
    case True
    then show ?thesis by (simp add: itoa_digits.simps ds_def)
  next
    case False
    then show ?thesis
      using itoa_digits_put [OF assms(3,4) v, of "[]" buffer m] by (simp add: ds_def)
  qed
  define es where "es = ds @ (if ?neg then [0x2D] else [])"
  have at: "buffer + ucast (of_nat k :: DWORD) = buffer + of_nat k" if "k \<le> 70" for k
    using that by (simp add: ucast_of_nat_up)
  have sign: "(if ?neg then ((put m buffer ds)(buffer + ucast (of_nat (length ds) :: DWORD) := 0x2D),
        of_nat (length ds) + 1) else (put m buffer ds, of_nat (length ds))) =
      (put m buffer es, of_nat (length es) :: DWORD)"
    using len by (simp add: at put_snoc es_def add.commute [of 1])
  have fin: "(put m buffer es)(buffer + ucast (of_nat (length es) :: DWORD) := 0) = put m buffer (es @ [0])"
  proof -
    have "length es \<le> 70" using len by (simp add: es_def)
    from at [OF this] show ?thesis by (simp only: put_snoc)
  qed
  have rl: "reverse_loop buffer (of_nat (length es)) 0 (put m buffer (es @ [0])) =
      put m buffer (rev es @ [0])"
    by (rule reverse_whole) (use len in \<open>simp add: es_def\<close>)
  have "rev es = (if ?neg then [0x2D] else []) @ numeral_text ?b (unat ?v)"
    by (simp add: es_def ds_def numeral_text_def unat_eq_zero)
  moreover have "itoa m valueAddress signedValue buffer base is64BitValue = Some (put m buffer (rev es @ [0]))"
  proof -
    have val: "(if is64BitValue
           then (if ?neg then - read64 m valueAddress else read64 m valueAddress)
           else (if ?neg then scast (- read32 m valueAddress) else ucast (read32 m valueAddress))) = ?v"
      by (simp add: itoa_value_def)
    show ?thesis
    proof (cases "?v = 0")
      case True
      then show ?thesis
        using assms(1,2) base0 digits
        by (simp add: itoa_def Let_def val neg [symmetric] sign fin rl split del: if_split)
    next
      case False
      then show ?thesis
        using assms(1,2) base0 digits
        by (simp add: itoa_def Let_def val neg [symmetric] sign fin rl split del: if_split)
    qed
  qed
  ultimately show ?thesis by simp
qed


text \<open>
  \<open>itoa\<close> in any base from 2 to 36 returns and writes the text of the number it is given,
  its sign, its digits most significant first and the terminating zero, and no other byte of the
  memory. At most 66 bytes are written. The value is a 32- or 64-bit integer, signed or not; the
  one excluded value is the smallest signed 32-bit integer.
\<close>

theorem itoa_prints:
  fixes base :: DWORD
  assumes "valueAddress \<noteq> NULL" and "buffer \<noteq> NULL" and "2 \<le> unat base" and "unat base \<le> 36"
    and "is64BitValue \<or> \<not> signedValue \<or> read32 m valueAddress \<noteq> 0x80000000"
  shows "itoa m valueAddress signedValue buffer base is64BitValue = Some (put m buffer
      (number_text (unat base) (number_at m valueAddress signedValue is64BitValue) @ [0])) \<and>
    length (number_text (unat base) (number_at m valueAddress signedValue is64BitValue) @ [0]) \<le> 66"
proof
  show "itoa m valueAddress signedValue buffer base is64BitValue = Some (put m buffer
      (number_text (unat base) (number_at m valueAddress signedValue is64BitValue) @ [0]))"
    using itoa_text [OF assms(1-4), of m signedValue is64BitValue] unat_itoa_value [OF assms(5)]
    by (simp add: number_text_def)
  have "length (numeral_text (unat base) (unat (itoa_value m valueAddress signedValue is64BitValue))) \<le> 64"
    using assms(3) unat_less_2p [of "itoa_value m valueAddress signedValue is64BitValue"]
    by (intro length_numeral_text) simp_all
  then show "length (number_text (unat base) (number_at m valueAddress signedValue is64BitValue) @ [0]) \<le> 66"
    using unat_itoa_value [OF assms(5)] by (auto simp: number_text_def abs_if split: if_splits)
qed

lemma itoa_prints_witness:
  "itoa (write64 (\<lambda>_. 0) 0x1000 (- 255)) 0x1000 True 0x2000 16 True =
     Some (put (write64 (\<lambda>_. 0) 0x1000 (- 255)) 0x2000 [0x2D, 0x46, 0x46, 0])"
  using itoa_prints [of "0x1000" "0x2000" 16 True True "write64 (\<lambda>_. 0) 0x1000 (- 255)"]
  by (simp add: number_at_def number_text_def numeral_text_def digits_le.simps digit_char_def)

text \<open>
  The smallest signed 32-bit integer is its own negation, which the code then sign-extends: the
  text is that of \<open>- (2 ^ 64 - 2 ^ 31)\<close>.
\<close>

lemma itoa_smallest_int32:
  fixes base :: DWORD
  assumes "valueAddress \<noteq> NULL" and "buffer \<noteq> NULL" and "2 \<le> unat base" and "unat base \<le> 36"
    and "read32 m valueAddress = 0x80000000"
  shows "itoa m valueAddress True buffer base False =
    Some (put m buffer (number_text (unat base) (- (2 ^ 64 - 2 ^ 31)) @ [0]))"
  using itoa_text [OF assms(1-4), of m True False] assms(5)
  by (simp add: number_text_def itoa_value_def number_at_def)

text \<open>Reading a text back.\<close>

lemma digit_char_ok:
  assumes "d < 36"
  shows "atoi_char (digit_char d) = of_nat d" and "isascii (digit_char d)"
    and "digit_char d \<noteq> 0" and "digit_char d \<noteq> 0x2D"
proof -
  have "\<forall>d \<in> set [0..<36]. atoi_char (digit_char d) = of_nat d \<and> isascii (digit_char d) \<and>
      digit_char d \<noteq> 0 \<and> digit_char d \<noteq> 0x2D"
    by code_simp
  with assms show "atoi_char (digit_char d) = of_nat d" and "isascii (digit_char d)"
    and "digit_char d \<noteq> 0" and "digit_char d \<noteq> 0x2D" by auto
qed

lemma atoi_loop_str:
  "str_at m (buffer + ucast i) cs \<Longrightarrow> unat i + length cs < 2 ^ 32 \<Longrightarrow>
   \<forall>c \<in> set cs. isascii c \<and> unat (atoi_char c) < unat base \<Longrightarrow>
   atoi_loop m buffer base i v =
     Some (foldl (\<lambda>v c. v * ucast base + ucast (atoi_char c)) v cs)"
proof (induction cs arbitrary: i v)
  case Nil
  then show ?case by (simp add: atoi_loop.simps)
next
  case (Cons c cs)
  have "(ucast (atoi_char c) :: DWORD) < base"
    using Cons.prems(3) by (simp add: word_less_nat_alt unat_ucast_up)
  then show ?case
    using Cons.prems Cons.IH [of "i + 1"] index_step(1) [of i buffer] index_step(2) [of i]
    by (subst atoi_loop.simps) (simp add: Let_def)
qed

lemma digits_le_set: "2 \<le> base \<Longrightarrow> set (digits_le base n) \<subseteq> digit_char ` {..<base}"
proof (induction base n rule: digits_le.induct)
  case (1 base n)
  then show ?case by (subst digits_le.simps) auto
qed

lemma numeral_text_set: "2 \<le> base \<Longrightarrow> set (numeral_text base n) \<subseteq> digit_char ` {..<base}"
proof -
  assume b: "2 \<le> base"
  have "(0x30 :: BYTE) = digit_char 0" by (simp add: digit_char_def)
  with b digits_le_set [OF b] show ?thesis by (auto simp: numeral_text_def)
qed

lemma foldr_digits_le:
  "2 \<le> base \<Longrightarrow> base \<le> 36 \<Longrightarrow>
   foldr (\<lambda>c v. v * of_nat base + ucast (atoi_char c)) (digits_le base n) 0 = (of_nat n :: QWORD)"
proof (induction base n rule: digits_le.induct)
  case (1 base n)
  show ?case
  proof (cases "n = 0")
    case True
    then show ?thesis by (simp add: digits_le.simps)
  next
    case False
    have "n mod base < base" using 1(2) by simp
    with 1(3) have d: "n mod base < 36" by linarith
    then have "(ucast (of_nat (n mod base) :: BYTE) :: QWORD) = of_nat (n mod base)"
      by (simp add: word_unat_eq_iff unat_ucast_up unat_of_nat_small)
    moreover have "(of_nat n :: QWORD) = of_nat (n div base) * of_nat base + of_nat (n mod base)"
      by (metis div_mult_mod_eq of_nat_add of_nat_mult)
    ultimately show ?thesis
      using 1 False digit_char_ok(1) [OF d] by (subst digits_le.simps) simp
  qed
qed

lemma foldl_numeral_text:
  "2 \<le> base \<Longrightarrow> base \<le> 36 \<Longrightarrow>
   foldl (\<lambda>v c. v * of_nat base + ucast (atoi_char c)) 0 (numeral_text base n) = (of_nat n :: QWORD)"
  using foldr_digits_le [of base n] digit_char_ok(1) [of 0]
  by (simp add: numeral_text_def foldl_conv_foldr digit_char_def)


lemma ucast_word_of_int: "(ucast (word_of_int n :: QWORD) :: DWORD) = word_of_int n"
  by transfer (simp add: take_bit_take_bit)

lemma atoi_number_text:
  fixes base :: DWORD
  assumes "valueAddress \<noteq> NULL" and "buffer \<noteq> NULL" and "2 \<le> unat base" and "unat base \<le> 36"
    and "\<bar>n\<bar> < 2 ^ 64" and "is64BitValue \<or> n < 2 ^ 32"
  shows "atoi (put m buffer (number_text (unat base) n @ [0])) valueAddress buffer base is64BitValue =
    Some (let m = put m buffer (number_text (unat base) n @ [0])
          in if is64BitValue then write64 m valueAddress (word_of_int n)
             else write32 m valueAddress (word_of_int n))"
proof -
  let ?t = "numeral_text (unat base) (nat \<bar>n\<bar>)"
  let ?m = "put m buffer (number_text (unat base) n @ [0])"
  have base0: "base \<noteq> 0" using assms(3) by auto
  have len: "length ?t \<le> 64" using assms(3,5) by (intro length_numeral_text) simp_all
  have chars: "\<forall>c \<in> set ?t. isascii c \<and> unat (atoi_char c) < unat base \<and> c \<noteq> 0 \<and> c \<noteq> 0x2D"
  proof
    fix c assume "c \<in> set ?t"
    then obtain d where d: "d < unat base" "c = digit_char d"
      using numeral_text_set [OF assms(3)] by blast
    then have "d < 36" using assms(4) by simp
    with d digit_char_ok [OF this]
    show "isascii c \<and> unat (atoi_char c) < unat base \<and> c \<noteq> 0 \<and> c \<noteq> 0x2D"
      by (simp add: unat_of_nat_small)
  qed
  have ne: "?t \<noteq> []" using assms(3) by (simp add: numeral_text_def digits_le.simps)
  have str: "str_at ?m buffer (number_text (unat base) n)"
    using chars len by (intro str_at_put) (auto simp: number_text_def)
  have neg: "?m buffer = 0x2D \<longleftrightarrow> n < 0"
  proof (cases "n < 0")
    case True
    with str show ?thesis by (simp add: number_text_def)
  next
    case False
    obtain c cs where t: "?t = c # cs" using ne by (cases ?t) auto
    with chars have "c \<noteq> 0x2D" by auto
    moreover have "?m buffer = c" using str False t by (simp add: number_text_def)
    ultimately show ?thesis using False by simp
  qed
  have "str_at ?m (buffer + ucast (if n < 0 then 1 else 0 :: DWORD)) ?t"
    using str by (simp add: number_text_def split: if_splits)
  then have loop: "atoi_loop ?m buffer base (if n < 0 then 1 else 0) 0 = Some (of_nat (nat \<bar>n\<bar>))"
    using len chars assms(3,4) foldl_numeral_text [of "unat base" "nat \<bar>n\<bar>"]
    by (subst atoi_loop_str) auto
  have sign: "(if n < 0 then - word_of_int \<bar>n\<bar> else word_of_int \<bar>n\<bar>) = (word_of_int n :: QWORD)"
    by simp
  have fits: "n < 0 \<or> \<not> n < 0 \<and> word_of_int n \<le> (ucast MAX_DWORD :: QWORD)" if "\<not> is64BitValue"
    using that assms(6) by (auto simp: word_le_def uint_word_of_int_eq take_bit_int_eq_self)
  show ?thesis
    using assms(1,2) base0 fits
    by (cases is64BitValue)
      (simp_all add: atoi_def Let_def neg loop sign ucast_word_of_int split del: if_split)
qed

text \<open>
  C8. Printing an integer with \<open>itoa\<close> and parsing the text with \<open>atoi\<close> gives the integer back,
  in every base from 2 to 36, for 32- and 64-bit, signed and unsigned values (the smallest signed
  32-bit integer excepted): neither call fails an assertion, and the number stored at the
  destination is the number that was printed.
\<close>

theorem itoa_atoi:
  fixes base :: DWORD
  assumes "valueAddress \<noteq> NULL" and "buffer \<noteq> NULL" and "2 \<le> unat base" and "unat base \<le> 36"
    and "is64BitValue \<or> \<not> signedValue \<or> read32 m valueAddress \<noteq> 0x80000000"
    and "resultAddress \<noteq> NULL"
  shows "\<exists>m' m''. itoa m valueAddress signedValue buffer base is64BitValue = Some m' \<and>
    atoi m' resultAddress buffer base is64BitValue = Some m'' \<and>
    number_at m'' resultAddress signedValue is64BitValue = number_at m valueAddress signedValue is64BitValue"
proof -
  let ?n = "number_at m valueAddress signedValue is64BitValue"
  have bound: "\<bar>?n\<bar> < 2 ^ 64" and small: "is64BitValue \<or> ?n < 2 ^ 32"
    using sint_ge [of "read64 m valueAddress"] sint_lt [of "read64 m valueAddress"]
      uint_lt2p [of "read64 m valueAddress"] uint_lt2p [of "read32 m valueAddress"]
      sint_ge [of "read32 m valueAddress"] sint_lt [of "read32 m valueAddress"]
    by (auto simp: number_at_def abs_if)
  have back64: "word_of_int ?n = read64 m valueAddress" if is64BitValue
    using that by (simp add: number_at_def)
  have back32: "word_of_int ?n = read32 m valueAddress" if "\<not> is64BitValue"
    using that by (simp add: number_at_def)
  note printed = itoa_text [OF assms(1-4), of m signedValue is64BitValue]
  have text_eq: "(if ?n < 0 then [0x2D] else []) @ numeral_text (unat base)
      (unat (itoa_value m valueAddress signedValue is64BitValue)) @ [0] = number_text (unat base) ?n @ [0]"
    using unat_itoa_value [OF assms(5)] by (simp add: number_text_def)
  show ?thesis
    unfolding printed text_eq
    using atoi_number_text [OF assms(6,2,3,4) bound small] back64 back32
    by (cases is64BitValue) (simp_all add: Let_def number_at_def [of _ resultAddress] number_at_def [of m])
qed

lemma itoa_atoi_witness:
  "\<exists>m' m''. itoa (write32 (\<lambda>_. 0) 0x1000 (- 7)) 0x1000 True 0x2000 10 False = Some m' \<and>
    atoi m' 0x1000 0x2000 10 False = Some m'' \<and>
    number_at m'' 0x1000 True False = number_at (write32 (\<lambda>_. 0) 0x1000 (- 7)) 0x1000 True False"
  by (rule itoa_atoi) simp_all

end
