(* ===== verification/CString.thy ===== *)
theory CString
  imports StrUtils
begin

text \<open>
  \<^verbatim>\<open>CommonLib/src/string.c\<close>: zero-terminated strings and formatted output on the byte memory.
  Positions in a string are 32-bit counters. Characters are signed bytes, and results of C type
  \<open>int\<close> are integers. A scan that never meets the terminator does not return: \<open>None\<close>.
\<close>

section \<open>The operations\<close>

abbreviation INVALID_STRING_SIZE :: DWORD where "INVALID_STRING_SIZE \<equiv> MAX_DWORD"

subsection \<open>Comparison\<close>

partial_function (option) strcmp_loop ::
    "(BYTE \<Rightarrow> BYTE) \<Rightarrow> mem \<Rightarrow> PVOID \<Rightarrow> PVOID \<Rightarrow> DWORD \<Rightarrow> int option" where
  "strcmp_loop key m str1 str2 i =
     (let c1 = m (str1 + ucast i); c2 = m (str2 + ucast i)
      in if c1 \<noteq> 0 \<and> c2 \<noteq> 0 then
           (if sint (key c1) > sint (key c2) then Some 1
            else if sint (key c1) < sint (key c2) then Some (- 1)
            else strcmp_loop key m str1 str2 (i + 1))
         else if c1 \<noteq> 0 then Some 1
         else if c2 \<noteq> 0 then Some (- 1)
         else Some 0)"

definition strcmp :: "mem \<Rightarrow> PVOID \<Rightarrow> PVOID \<Rightarrow> int option" where
  "strcmp m str1 str2 =
     (if str1 = NULL then Some (sint STATUS_INVALID_PARAMETER1)
      else if str2 = NULL then Some (sint STATUS_INVALID_PARAMETER2)
      else strcmp_loop (\<lambda>c. c) m str1 str2 0)"

definition stricmp :: "mem \<Rightarrow> PVOID \<Rightarrow> PVOID \<Rightarrow> int option" where
  "stricmp m str1 str2 =
     (if str1 = NULL then Some (sint STATUS_INVALID_PARAMETER1)
      else if str2 = NULL then Some (sint STATUS_INVALID_PARAMETER2)
      else strcmp_loop tolower m str1 str2 0)"

function strncmp_loop ::
    "(BYTE \<Rightarrow> BYTE) \<Rightarrow> mem \<Rightarrow> PVOID \<Rightarrow> PVOID \<Rightarrow> DWORD \<Rightarrow> DWORD \<Rightarrow> int" where
  "strncmp_loop key m str1 str2 len i =
     (let c1 = m (str1 + ucast i); c2 = m (str2 + ucast i)
      in if i < len \<and> c1 \<noteq> 0 \<and> c2 \<noteq> 0 then
           (if sint (key c1) > sint (key c2) then 1
            else if sint (key c1) < sint (key c2) then - 1
            else strncmp_loop key m str1 str2 len (i + 1))
         else if i = len then 0
         else if c1 \<noteq> 0 then 1
         else - 1)"
  by pat_completeness auto
termination
  by (relation "measure (\<lambda>(key, m, str1, str2, len, i). unat len - unat i)")
    (auto intro: counter_decreases)

declare strncmp_loop.simps [simp del]

definition strncmp :: "mem \<Rightarrow> PVOID \<Rightarrow> PVOID \<Rightarrow> DWORD \<Rightarrow> int" where
  "strncmp m str1 str2 len =
     (if str1 = NULL then sint STATUS_INVALID_PARAMETER1
      else if str2 = NULL then sint STATUS_INVALID_PARAMETER2
      else if len = 0 then sint STATUS_INVALID_PARAMETER3
      else strncmp_loop (\<lambda>c. c) m str1 str2 len 0)"

definition strnicmp :: "mem \<Rightarrow> PVOID \<Rightarrow> PVOID \<Rightarrow> DWORD \<Rightarrow> int" where
  "strnicmp m str1 str2 len =
     (if str1 = NULL then sint STATUS_INVALID_PARAMETER1
      else if str2 = NULL then sint STATUS_INVALID_PARAMETER2
      else if len = 0 then sint STATUS_INVALID_PARAMETER3
      else strncmp_loop tolower m str1 str2 len 0)"

subsection \<open>Search, length, copy\<close>

partial_function (option) strchr_loop ::
    "mem \<Rightarrow> PVOID \<Rightarrow> BYTE \<Rightarrow> DWORD \<Rightarrow> PVOID option" where
  "strchr_loop m str c i =
     (if m (str + ucast i) \<noteq> 0 then
        (if m (str + ucast i) = c then Some (str + ucast i) else strchr_loop m str c (i + 1))
      else Some str)"

definition strchr :: "mem \<Rightarrow> PVOID \<Rightarrow> BYTE \<Rightarrow> PVOID option" where
  "strchr m str c = (if str = NULL then Some NULL else strchr_loop m str c 0)"

partial_function (option) strrchr_loop ::
    "mem \<Rightarrow> PVOID \<Rightarrow> BYTE \<Rightarrow> DWORD \<Rightarrow> PVOID \<Rightarrow> PVOID option" where
  "strrchr_loop m str c i charIndex =
     (if m (str + ucast i) \<noteq> 0 then
        strrchr_loop m str c (i + 1) (if m (str + ucast i) = c then str + ucast i else charIndex)
      else Some charIndex)"

definition strrchr :: "mem \<Rightarrow> PVOID \<Rightarrow> BYTE \<Rightarrow> PVOID option" where
  "strrchr m str c = (if str = NULL then Some NULL else strrchr_loop m str c 0 str)"

partial_function (option) strlen_loop :: "mem \<Rightarrow> PVOID \<Rightarrow> DWORD \<Rightarrow> DWORD option" where
  "strlen_loop m str i =
     (if m (str + ucast i) \<noteq> 0 then strlen_loop m str (i + 1) else Some i)"

definition strlen :: "mem \<Rightarrow> PVOID \<Rightarrow> DWORD option" where
  "strlen m str = (if str = NULL then Some INVALID_STRING_SIZE else strlen_loop m str 0)"

function strlen_s_loop :: "mem \<Rightarrow> PVOID \<Rightarrow> DWORD \<Rightarrow> DWORD \<Rightarrow> DWORD" where
  "strlen_s_loop m str maxLen i =
     (if i < maxLen \<and> m (str + ucast i) \<noteq> 0 then strlen_s_loop m str maxLen (i + 1) else i)"
  by pat_completeness auto
termination
  by (relation "measure (\<lambda>(m, str, maxLen, i). unat maxLen - unat i)")
    (auto intro: counter_decreases)

declare strlen_s_loop.simps [simp del]

definition strlen_s :: "mem \<Rightarrow> PVOID \<Rightarrow> DWORD \<Rightarrow> DWORD" where
  "strlen_s m str maxLen = (if str = NULL then INVALID_STRING_SIZE else strlen_s_loop m str maxLen 0)"

partial_function (option) strcpy_loop :: "PVOID \<Rightarrow> PVOID \<Rightarrow> DWORD \<Rightarrow> mem \<Rightarrow> mem option" where
  "strcpy_loop dst src i m =
     (if m (src + ucast i) \<noteq> 0
      then strcpy_loop dst src (i + 1) (m(dst + ucast i := m (src + ucast i)))
      else Some (m(dst + ucast i := 0)))"

definition strcpy :: "mem \<Rightarrow> PVOID \<Rightarrow> PVOID \<Rightarrow> mem option" where
  "strcpy m dst src = do {
     ASSERT (NULL \<noteq> dst);
     ASSERT (NULL \<noteq> src);
     strcpy_loop dst src 0 m
   }"

function strncpy_loop :: "PVOID \<Rightarrow> PVOID \<Rightarrow> DWORD \<Rightarrow> DWORD \<Rightarrow> mem \<Rightarrow> mem" where
  "strncpy_loop dst src len i m =
     (if i < len \<and> m (src + ucast i) \<noteq> 0
      then strncpy_loop dst src len (i + 1) (m(dst + ucast i := m (src + ucast i)))
      else m(dst + ucast i := 0))"
  by pat_completeness auto
termination
  by (relation "measure (\<lambda>(dst, src, len, i, m). unat len - unat i)")
    (auto intro: counter_decreases)

declare strncpy_loop.simps [simp del]

definition strncpy :: "mem \<Rightarrow> PVOID \<Rightarrow> PVOID \<Rightarrow> DWORD \<Rightarrow> mem option" where
  "strncpy m dst src len = do {
     ASSERT (NULL \<noteq> dst);
     ASSERT (NULL \<noteq> src);
     ASSERT (0 \<noteq> len);
     Some (strncpy_loop dst src len 0 m)
   }"

subsection \<open>Splitting\<close>

text \<open>
  \<open>strtok_s\<close> keeps its position in the caller's variable \<open>*context\<close>, which the model takes and
  returns; the address of that variable is not NULL in any call. The inner loop asks whether
  a character is one of the delimiters.
\<close>

partial_function (option) is_delimiter :: "mem \<Rightarrow> BYTE \<Rightarrow> PVOID \<Rightarrow> DWORD \<Rightarrow> bool option" where
  "is_delimiter m c delimiters j =
     (if m (delimiters + ucast j) \<noteq> 0 then
        (if c = m (delimiters + ucast j) then Some True else is_delimiter m c delimiters (j + 1))
      else Some False)"

partial_function (option) strtok_loop ::
    "mem \<Rightarrow> PVOID \<Rightarrow> PVOID \<Rightarrow> DWORD \<Rightarrow> (mem \<times> PVOID) option" where
  "strtok_loop m pStr delimiters i =
     (if m (pStr + ucast i) \<noteq> 0 then do {
        found \<leftarrow> is_delimiter m (m (pStr + ucast i)) delimiters 0;
        if found then Some (m(pStr + ucast i := 0), pStr + ucast (i + 1))
        else strtok_loop m pStr delimiters (i + 1)
      }
      else Some (m, pStr + ucast i))"

definition strtok_s :: "mem \<Rightarrow> PVOID \<Rightarrow> PVOID \<Rightarrow> PVOID \<Rightarrow> (mem \<times> PVOID \<times> PVOID) option" where
  "strtok_s m strToken delimiters context =
     (if delimiters = NULL then Some (m, context, NULL)
      else if context = NULL \<and> strToken = NULL then Some (m, context, NULL)
      else
        let pStr = (if context = NULL then strToken else context)
        in if m pStr = 0 then Some (m, context, NULL)
           else do {
             (m, context) \<leftarrow> strtok_loop m pStr delimiters 0;
             Some (m, context, pStr)
           })"

partial_function (option) strcelem_loop ::
    "mem \<Rightarrow> BYTE \<Rightarrow> PVOID \<Rightarrow> PVOID \<Rightarrow> DWORD \<Rightarrow> DWORD option" where
  "strcelem_loop m delimiter curPosition pPrevValue noOfElements =
     (if curPosition \<noteq> pPrevValue then do {
        let prev = curPosition + 1;
        next \<leftarrow> strchr m prev delimiter;
        strcelem_loop m delimiter next prev (noOfElements + 1)
      }
      else Some noOfElements)"

definition strcelem :: "mem \<Rightarrow> PVOID \<Rightarrow> BYTE \<Rightarrow> DWORD option" where
  "strcelem m str delimiter =
     (if str = NULL then Some INVALID_STRING_SIZE
      else do {
        cur \<leftarrow> strchr m str delimiter;
        strcelem_loop m delimiter cur str 1
      })"

subsection \<open>Formatted output\<close>

text \<open>
  The locals \<open>temp\<close> (65 bytes) and \<open>temp_value\<close> (8 bytes) of \<open>vsnprintf\<close> live on
  the stack; their addresses are parameters. The variable arguments are the 8-byte stack slots from
  \<open>argptr\<close> upwards. \<open>vsnprintf_digits\<close> reads the width of a conversion: it returns the number,
  the fill character, the position before the conversion character, and that character.
  \<open>vsnprintf_convert\<close> is the \<open>switch\<close> on it: the memory with the converted text, the remaining
  arguments and the address of the text.
\<close>

definition va_arg_DWORD :: "mem \<Rightarrow> PVOID \<Rightarrow> QWORD" where
  "va_arg_DWORD m argptr = ucast (read32 m argptr)"

definition va_arg_QWORD :: "mem \<Rightarrow> PVOID \<Rightarrow> QWORD" where
  "va_arg_QWORD m argptr = read64 m argptr"

definition va_arg_char :: "mem \<Rightarrow> PVOID \<Rightarrow> QWORD" where
  "va_arg_char m argptr = scast (m argptr)"

abbreviation STACKITEM_SIZE :: QWORD where "STACKITEM_SIZE \<equiv> 8"
abbreviation VSNPRINTF_BUFFER_SIZE :: nat where "VSNPRINTF_BUFFER_SIZE \<equiv> 65"

partial_function (option) vsnprintf_digits ::
    "mem \<Rightarrow> PVOID \<Rightarrow> DWORD \<Rightarrow> DWORD \<Rightarrow> bool \<Rightarrow> BYTE \<Rightarrow> (DWORD \<times> BYTE \<times> DWORD \<times> BYTE) option" where
  "vsnprintf_digits m inputBuffer index digits firstSpecificator fillChar =
     (let next = m (inputBuffer + ucast (index + 1))
      in if 0x30 \<le> sint next \<and> sint next \<le> 0x39 then
           vsnprintf_digits m inputBuffer (index + 1) (digits * 10 + scast next - 0x30) False
             (if firstSpecificator \<and> next = 0x30 then 0x30 else fillChar)
         else Some (digits, fillChar, index, next))"

definition vsnprintf_convert ::
    "mem \<Rightarrow> PVOID \<Rightarrow> PVOID \<Rightarrow> PVOID \<Rightarrow> BYTE \<Rightarrow> (STATUS + mem \<times> PVOID \<times> PVOID) option" where
  "vsnprintf_convert m temp temp_value argptr next =
     (let argptr' = argptr + STACKITEM_SIZE;
          number = (\<lambda>v signedValue base is64BitValue. do {
            m \<leftarrow> itoa (write64 m temp_value v) temp_value signedValue temp base is64BitValue;
            Some (Inr (m, argptr', temp))
          })
      in if next = 0x62 then number (va_arg_DWORD m argptr) False 2 False
         else if next = 0x42 then number (va_arg_QWORD m argptr) False 2 True
         else if next = 0x75 then number (va_arg_DWORD m argptr) False 10 False
         else if next = 0x55 then number (va_arg_QWORD m argptr) False 10 True
         else if next = 0x64 then number (va_arg_DWORD m argptr) True 10 False
         else if next = 0x44 then number (va_arg_QWORD m argptr) True 10 True
         else if next = 0x78 then number (va_arg_DWORD m argptr) False 16 False
         else if next = 0x58 then number (va_arg_QWORD m argptr) False 16 True
         else if next = 0x63 then do {
           m \<leftarrow> strncpy (write64 m temp_value (va_arg_char m argptr)) temp temp_value 1;
           Some (Inr (m, argptr', temp))
         }
         else if next = 0x73 \<or> next = 0x53 then Some (Inr (m, argptr', va_arg_QWORD m argptr))
         else Some (Inl STATUS_PARSE_FAILED))"

definition vsnprintf_emit ::
    "mem \<Rightarrow> PVOID \<Rightarrow> DWORD \<Rightarrow> DWORD \<Rightarrow> PVOID \<Rightarrow> DWORD \<Rightarrow> BYTE \<Rightarrow> BYTE \<Rightarrow> (STATUS + mem \<times> DWORD) option" where
  "vsnprintf_emit m outputBuffer buffSize outBufferOffset temp_str digits fillChar next = do {
     temp_len \<leftarrow> strlen m temp_str;
     ASSERT (temp_len \<noteq> INVALID_STRING_SIZE);
     let charsToCopy = (if next = 0x53 then min digits temp_len else temp_len);
     if outBufferOffset + temp_len \<ge> buffSize then Some (Inl STATUS_BUFFER_TOO_SMALL)
     else do {
       let fillSpaces = (if digits > temp_len then digits - temp_len else 0);
       if outBufferOffset + temp_len + fillSpaces \<ge> buffSize then Some (Inl STATUS_BUFFER_TOO_SMALL)
       else do {
         let (m, outBufferOffset) = (if fillSpaces \<noteq> 0
           then (memset m (outputBuffer + ucast outBufferOffset) fillChar fillSpaces,
                 outBufferOffset + fillSpaces)
           else (m, outBufferOffset));
         m \<leftarrow> (if charsToCopy \<noteq> 0
              then strncpy m (outputBuffer + ucast outBufferOffset) temp_str charsToCopy
              else Some m);
         Some (Inr (m, outBufferOffset + charsToCopy))
       }
     }
   }"

partial_function (option) vsnprintf_loop ::
    "PVOID \<Rightarrow> DWORD \<Rightarrow> PVOID \<Rightarrow> PVOID \<Rightarrow> PVOID \<Rightarrow> mem \<Rightarrow> DWORD \<Rightarrow> DWORD \<Rightarrow> DWORD \<Rightarrow> PVOID \<Rightarrow>
     (mem \<times> STATUS) option" where
  "vsnprintf_loop outputBuffer buffSize inputBuffer temp temp_value m index param_index
      outBufferOffset argptr =
     (if m (inputBuffer + ucast index) \<noteq> 0 then
        (if m (inputBuffer + ucast index) = 0x25 then do {
           (digits, fillChar, index, next) \<leftarrow> vsnprintf_digits m inputBuffer index 0 True 0x20;
           converted \<leftarrow> vsnprintf_convert m temp temp_value argptr next;
           case converted of Inl status \<Rightarrow> Some (m, status)
           | Inr (m, argptr, temp_str) \<Rightarrow> do {
               emitted \<leftarrow> vsnprintf_emit m outputBuffer buffSize outBufferOffset temp_str digits
                           fillChar next;
               case emitted of Inl status \<Rightarrow> Some (m, status)
               | Inr (m, outBufferOffset) \<Rightarrow>
                   vsnprintf_loop outputBuffer buffSize inputBuffer temp temp_value m (index + 2)
                     (param_index + 1) outBufferOffset argptr
             }
         }
         else if outBufferOffset + 1 \<ge> buffSize then
           Some (m(outputBuffer + ucast outBufferOffset := 0), STATUS_BUFFER_TOO_SMALL)
         else
           vsnprintf_loop outputBuffer buffSize inputBuffer temp temp_value
             (m(outputBuffer + ucast outBufferOffset := m (inputBuffer + ucast index)))
             (index + 1) param_index (outBufferOffset + 1) argptr)
      else Some (m(outputBuffer + ucast outBufferOffset := 0), param_index - 1))"

definition vsnprintf ::
    "PVOID \<Rightarrow> PVOID \<Rightarrow> mem \<Rightarrow> PVOID \<Rightarrow> DWORD \<Rightarrow> PVOID \<Rightarrow> PVOID \<Rightarrow> (mem \<times> STATUS) option" where
  "vsnprintf temp temp_value m outputBuffer buffSize inputBuffer argptr =
     (if outputBuffer = NULL then Some (m, STATUS_INVALID_PARAMETER1)
      else if buffSize = 0 then Some (m, STATUS_INVALID_PARAMETER2)
      else if inputBuffer = NULL then Some (m, STATUS_INVALID_PARAMETER3)
      else vsnprintf_loop outputBuffer buffSize inputBuffer temp temp_value m 0 1 0 argptr)"

text \<open>
  \<open>snprintf\<close> passes the stack slots after its last named parameter, whose address is
  \<open>lastArg\<close>.
\<close>

definition snprintf ::
    "PVOID \<Rightarrow> PVOID \<Rightarrow> mem \<Rightarrow> PVOID \<Rightarrow> DWORD \<Rightarrow> PVOID \<Rightarrow> PVOID \<Rightarrow> (mem \<times> STATUS) option" where
  "snprintf temp temp_value m outputBuffer buffSize inputBuffer lastArg =
     vsnprintf temp temp_value m outputBuffer buffSize inputBuffer (lastArg + STACKITEM_SIZE)"

section \<open>Comparison\<close>

text \<open>What the comparison loops compute, on the texts of the strings.\<close>

fun lexcmp :: "(BYTE \<Rightarrow> BYTE) \<Rightarrow> BYTE list \<Rightarrow> BYTE list \<Rightarrow> int" where
  "lexcmp key [] [] = 0"
| "lexcmp key [] (y # ys) = - 1"
| "lexcmp key (x # xs) [] = 1"
| "lexcmp key (x # xs) (y # ys) =
     (if sint (key x) > sint (key y) then 1
      else if sint (key x) < sint (key y) then - 1
      else lexcmp key xs ys)"

definition char_less :: "(BYTE \<times> BYTE) set" where
  "char_less = {(a, b). sint a < sint b}"

lemma sint_eq_iff: "sint a = sint b \<longleftrightarrow> a = b"
  for a b :: "'a::len word"
  by (metis of_int_sint scast_id)

lemma lexcmp_values: "lexcmp key xs ys \<in> {- 1, 0, 1}"
  by (induction key xs ys rule: lexcmp.induct) simp_all

lemma lexcmp_eq_0: "lexcmp key xs ys = 0 \<longleftrightarrow> map key xs = map key ys"
  by (induction key xs ys rule: lexcmp.induct) (auto simp flip: sint_eq_iff)

lemma lexcmp_less:
  "lexcmp key xs ys = - 1 \<longleftrightarrow> (map key xs, map key ys) \<in> lexord char_less"
  by (induction key xs ys rule: lexcmp.induct) (auto simp: char_less_def simp flip: sint_eq_iff)

lemma str_at_end: "str_at m a cs \<Longrightarrow> m a = 0 \<longleftrightarrow> cs = []"
  by (cases cs) auto

lemma strcmp_loop_str:
  "str_at m (a + ucast i) xs \<Longrightarrow> str_at m (b + ucast i) ys \<Longrightarrow>
   unat i + length xs < 2 ^ 32 \<Longrightarrow> unat i + length ys < 2 ^ 32 \<Longrightarrow>
   strcmp_loop key m a b i = Some (lexcmp key xs ys)"
proof (induction key xs ys arbitrary: i rule: lexcmp.induct)
  case (4 key x xs y ys)
  show ?case
    using 4 index_step(1) [of i a] index_step(1) [of i b] index_step(2) [of i]
    by (subst strcmp_loop.simps) (simp add: Let_def add.assoc)
qed (subst strcmp_loop.simps, simp add: Let_def)+

text \<open>
  On two zero-terminated strings shorter than \<open>2 ^ 32\<close>, \<open>strcmp\<close> and \<open>stricmp\<close> return
  -1, 0 or 1. \<open>strcmp\<close> is 0 exactly for equal strings and -1 exactly when the first string comes
  before the second in the lexicographic order of signed characters; \<open>stricmp\<close> does the same on
  the strings folded by \<open>tolower\<close>.
\<close>

theorem strcmp_orders:
  assumes "str1 \<noteq> NULL" and "str2 \<noteq> NULL"
    and "str_at m str1 xs" and "str_at m str2 ys" and "length xs < 2 ^ 32" and "length ys < 2 ^ 32"
  shows "(\<exists>r \<in> {- 1, 0, 1}. strcmp m str1 str2 = Some r \<and> (r = 0 \<longleftrightarrow> xs = ys) \<and>
        (r = - 1 \<longleftrightarrow> (xs, ys) \<in> lexord char_less)) \<and>
      (\<exists>r \<in> {- 1, 0, 1}. stricmp m str1 str2 = Some r \<and> (r = 0 \<longleftrightarrow> map tolower xs = map tolower ys) \<and>
        (r = - 1 \<longleftrightarrow> (map tolower xs, map tolower ys) \<in> lexord char_less))"
proof -
  have loop: "strcmp_loop key m str1 str2 0 = Some (lexcmp key xs ys)" for key
    by (rule strcmp_loop_str) (use assms in simp_all)
  have spec: "\<exists>r \<in> {- 1, 0, 1}. lexcmp key xs ys = r \<and> (r = 0 \<longleftrightarrow> map key xs = map key ys) \<and>
      (r = - 1 \<longleftrightarrow> (map key xs, map key ys) \<in> lexord char_less)" for key
    using lexcmp_values [of key xs ys] lexcmp_eq_0 [of key xs ys] lexcmp_less [of key xs ys] by metis
  show ?thesis
    using spec [of "\<lambda>c. c"] spec [of tolower] assms(1,2)
    by (simp add: strcmp_def stricmp_def loop) blast
qed

lemma strcmp_orders_witness:
  "\<exists>r. strcmp (put (put (\<lambda>_. 0) 0x1000 [0x61, 0x62]) 0x2000 [0x61]) 0x1000 0x2000 = Some r \<and>
      (r = 0 \<longleftrightarrow> [0x61, 0x62] = [0x61 :: BYTE])"
  using strcmp_orders [of "0x1000" "0x2000" "put (put (\<lambda>_. 0) 0x1000 [0x61, 0x62]) 0x2000 [0x61]"
      "[0x61, 0x62]" "[0x61]"]
  by auto

text \<open>
  \<open>strncmp\<close> agrees with the comparison of the two prefixes, except for two strings that are
  equal and shorter than the length: the loop leaves before \<open>i = len\<close> and the final test takes
  the second string to be the bigger one.
\<close>

lemma strncmp_loop_str:
  "str_at m (a + ucast i) xs \<Longrightarrow> str_at m (b + ucast i) ys \<Longrightarrow>
   unat i + length xs < 2 ^ 32 \<Longrightarrow> unat i + length ys < 2 ^ 32 \<Longrightarrow> n = unat len - unat i \<Longrightarrow> i \<le> len \<Longrightarrow>
   strncmp_loop key m a b len i =
     (if map key xs = map key ys \<and> length xs < n then - 1 else lexcmp key (take n xs) (take n ys))"
proof (induction key xs ys arbitrary: i n rule: lexcmp.induct)
  case (4 key x xs y ys)
  show ?case
  proof (cases "i < len")
    case True
    define n' where "n' = unat len - unat i - 1"
    have n: "n = Suc n'" using 4(6) True by (simp add: word_less_nat_alt n'_def)
    have n': "n' = unat len - unat (i + 1)" by (simp add: unat_succ [OF True] n'_def)
    have nw: "Suc (unat i) < 2 ^ 32" using 4(4) by simp
    have IH: "strncmp_loop key m a b len (i + 1) =
        (if map key xs = map key ys \<and> length xs < n' then - 1 else lexcmp key (take n' xs) (take n' ys))"
      if "sint (key x) = sint (key y)"
      by (rule 4(1)) (use that 4(2-5) n' unat_succ_le [OF True] index_step(1) [OF nw, of a]
          index_step(1) [OF nw, of b] index_step(2) [OF nw] in \<open>simp_all add: add.assoc\<close>)
    have keq: "key x = key y \<longleftrightarrow> sint (key x) = sint (key y)" by (simp add: sint_eq_iff)
    have c: "m (a + ucast i) = x" "m (b + ucast i) = y" "x \<noteq> 0" "y \<noteq> 0" using 4(2,3) by simp_all
    show ?thesis
      unfolding n using True c IH
      by (subst strncmp_loop.simps) (simp add: Let_def keq)
  next
    case False
    with 4 show ?thesis by (subst strncmp_loop.simps) (simp add: Let_def)
  qed
next
  case (1 key)
  then show ?case by (subst strncmp_loop.simps) (auto simp: Let_def word_le_nat_alt word_unat_eq_iff)
next
  case (2 key y ys)
  then show ?case
    by (subst strncmp_loop.simps) (auto simp: Let_def word_le_nat_alt word_unat_eq_iff take_Cons')
next
  case (3 key x xs)
  then show ?case
    by (subst strncmp_loop.simps) (auto simp: Let_def word_le_nat_alt word_unat_eq_iff take_Cons')
qed

lemma strncmp_equal_strings:
  assumes "str1 \<noteq> NULL" and "str2 \<noteq> NULL" and "str_at m str1 xs" and "str_at m str2 xs"
    and "length xs < unat len"
  shows "strncmp m str1 str2 len = - 1"
proof -
  have "length xs < 2 ^ 32" using assms(5) unat_less_2p [of len] by simp
  then have "strncmp_loop (\<lambda>c. c) m str1 str2 len 0 =
      (if map (\<lambda>c. c) xs = map (\<lambda>c. c) xs \<and> length xs < unat len then - 1
       else lexcmp (\<lambda>c. c) (take (unat len) xs) (take (unat len) xs))"
    by (intro strncmp_loop_str) (use assms in simp_all)
  then have "strncmp_loop (\<lambda>c. c) m str1 str2 len 0 = - 1" using assms(5) by (simp only: simp_thms if_True)
  moreover have "len \<noteq> 0" using assms(5) by auto
  ultimately show ?thesis using assms(1,2) by (simp add: strncmp_def)
qed

section \<open>Length and copy\<close>

lemma strlen_loop_str:
  "str_at m (a + ucast i) cs \<Longrightarrow> unat i + length cs < 2 ^ 32 \<Longrightarrow>
   strlen_loop m a i = Some (i + of_nat (length cs))"
proof (induction cs arbitrary: i)
  case Nil
  then show ?case by (subst strlen_loop.simps) simp
next
  case (Cons c cs)
  then show ?case
    using index_step(1) [of i a] index_step(2) [of i] Cons.IH [of "i + 1"]
    by (subst strlen_loop.simps) (simp add: add.assoc)
qed

lemma strlen_str:
  "str \<noteq> NULL \<Longrightarrow> str_at m str cs \<Longrightarrow> length cs < 2 ^ 32 \<Longrightarrow> strlen m str = Some (of_nat (length cs))"
  using strlen_loop_str [of m str 0 cs] by (simp add: strlen_def)

lemma strlen_s_loop_str:
  "str_at m (a + ucast i) cs \<Longrightarrow> unat i + length cs < 2 ^ 32 \<Longrightarrow> i \<le> n \<Longrightarrow>
   strlen_s_loop m a n i = min n (i + of_nat (length cs))"
proof (induction cs arbitrary: i)
  case Nil
  then show ?case by (subst strlen_s_loop.simps) (simp add: min_def)
next
  case (Cons c cs)
  have nw: "Suc (unat i) < 2 ^ 32" using Cons.prems(2) by simp
  have "unat (of_nat (length (c # cs)) :: DWORD) = length (c # cs)"
    by (rule unat_of_nat_small) (use Cons.prems(2) in simp)
  then have "unat (i + of_nat (length (c # cs))) = unat i + length (c # cs)"
    using Cons.prems(2) by (subst unat_plus_simple) (simp_all only: len_of_numeral_defs, simp_all)
  then have "\<not> i < n \<Longrightarrow> min n (i + of_nat (length (c # cs))) = i"
    using Cons.prems(3) by (simp add: min_def word_le_nat_alt)
  then show ?case
    using Cons.prems index_step(1) [OF nw, of a] index_step(2) [OF nw] Cons.IH [of "i + 1"]
      unat_succ_le [of i n]
    by (subst strlen_s_loop.simps) (auto simp: add.assoc)
qed

text \<open>
  A copy reads each character before the store that may overwrite it, as long as the destination
  does not start inside the rest of the source.
\<close>

definition copy_safe :: "PVOID \<Rightarrow> PVOID \<Rightarrow> nat \<Rightarrow> bool" where
  "copy_safe dst src n \<longleftrightarrow> dst = src \<or> n < unat (dst - src)"

lemma str_at_upd:
  "\<forall>k \<le> length cs. p \<noteq> a + of_nat k \<Longrightarrow> str_at (m(p := v)) a cs = str_at m a cs"
proof (induction cs arbitrary: a)
  case Nil
  then show ?case by simp
next
  case (Cons c cs)
  have "p \<noteq> a" using Cons.prems [rule_format, of 0] by simp
  moreover have "p \<noteq> a + 1 + of_nat k" if "k \<le> length cs" for k
    using Cons.prems that by (auto simp: add.assoc dest: spec [of _ "Suc k"])
  ultimately show ?case using Cons.IH [of "a + 1"] by simp
qed

lemma copy_safe_step:
  assumes "copy_safe d s (Suc n)" and "n < 2 ^ 32" and "str_at m (s + 1) cs" and "length cs = n"
  shows "copy_safe (d + 1) (s + 1) n" and "str_at (m(d := m s)) (s + 1) cs"
proof -
  show "copy_safe (d + 1) (s + 1) n" using assms(1) by (auto simp: copy_safe_def)
  have "d \<noteq> s + 1 + of_nat k" if "k \<le> n" and "d \<noteq> s" for k
  proof
    assume "d = s + 1 + of_nat k"
    then have "d - s = of_nat (Suc k)" by simp
    then have "unat (d - s) = Suc k" using that(1) assms(2) by (simp add: unat_of_nat_small del: of_nat_Suc)
    with assms(1) that show False by (simp add: copy_safe_def)
  qed
  then show "str_at (m(d := m s)) (s + 1) cs"
    using assms(3,4) by (cases "d = s") (auto simp: str_at_upd)
qed

lemma strncpy_loop_str:
  "str_at m (src + ucast i) cs \<Longrightarrow> unat i + length cs < 2 ^ 32 \<Longrightarrow> i \<le> len \<Longrightarrow>
   copy_safe (dst + ucast i) (src + ucast i) (length cs) \<Longrightarrow>
   strncpy_loop dst src len i m = put m (dst + ucast i) (take (unat len - unat i) cs @ [0])"
proof (induction cs arbitrary: i m)
  case Nil
  then show ?case by (subst strncpy_loop.simps) simp
next
  case (Cons c cs)
  show ?case
  proof (cases "i < len")
    case True
    let ?m = "m(dst + ucast i := m (src + ucast i))"
    have nw: "Suc (unat i) < 2 ^ 32" using Cons.prems(2) by simp
    note idx = index_step(1) [OF nw] index_step(2) [OF nw]
    have "copy_safe (dst + ucast i + 1) (src + ucast i + 1) (length cs)"
      and "str_at ?m (src + ucast i + 1) cs"
      using copy_safe_step [of "dst + ucast i" "src + ucast i" "length cs" m cs] Cons.prems by simp_all
    then have "strncpy_loop dst src len (i + 1) ?m =
        put ?m (dst + ucast (i + 1)) (take (unat len - unat (i + 1)) cs @ [0])"
      using Cons.prems unat_succ_le [OF True] idx(2)
      by (intro Cons.IH) (simp_all only: idx(1), simp_all)
    moreover have "take (unat len - unat i) (c # cs) = c # take (unat len - unat (i + 1)) cs"
    proof -
      have "unat len - unat i = Suc (unat len - unat (i + 1))"
        using True by (simp add: idx(2) word_less_nat_alt)
      then show ?thesis by simp
    qed
    ultimately show ?thesis
      using Cons.prems True by (subst strncpy_loop.simps) (simp add: idx(1))
  next
    case False
    then show ?thesis using Cons.prems by (subst strncpy_loop.simps) (simp add: word_less_nat_alt)
  qed
qed

lemma strcpy_loop_str:
  "str_at m (src + ucast i) cs \<Longrightarrow> unat i + length cs < 2 ^ 32 \<Longrightarrow>
   copy_safe (dst + ucast i) (src + ucast i) (length cs) \<Longrightarrow>
   strcpy_loop dst src i m = Some (put m (dst + ucast i) (cs @ [0]))"
proof (induction cs arbitrary: i m)
  case Nil
  then show ?case by (subst strcpy_loop.simps) simp
next
  case (Cons c cs)
  let ?m = "m(dst + ucast i := m (src + ucast i))"
  have nw: "Suc (unat i) < 2 ^ 32" using Cons.prems(2) by simp
  note idx = index_step(1) [OF nw] index_step(2) [OF nw]
  have "copy_safe (dst + ucast i + 1) (src + ucast i + 1) (length cs)"
    and "str_at ?m (src + ucast i + 1) cs"
    using copy_safe_step [of "dst + ucast i" "src + ucast i" "length cs" m cs] Cons.prems by simp_all
  then have "strcpy_loop dst src (i + 1) ?m = Some (put ?m (dst + ucast (i + 1)) (cs @ [0]))"
    using Cons.prems idx(2) by (intro Cons.IH) (simp_all only: idx(1), simp_all)
  then show ?case
    using Cons.prems by (subst strcpy_loop.simps) (simp add: idx(1))
qed

text \<open>
  Copying a zero-terminated string to a destination that does not start inside it succeeds:
  \<open>strcpy\<close> stores the whole string and its terminator, \<open>strncpy\<close> with a non-zero length the first
  \<open>len\<close> characters (all of them when the string is shorter) and a terminator, so that the
  destination needs room for \<open>len + 1\<close> bytes; every other byte of the memory is unchanged.
\<close>

theorem strncpy_copies:
  assumes "dst \<noteq> NULL" and "src \<noteq> NULL" and "len \<noteq> 0"
    and "str_at m src cs" and "length cs < 2 ^ 32" and "copy_safe dst src (length cs)"
  shows "strncpy m dst src len = Some (put m dst (take (unat len) cs @ [0])) \<and>
    strcpy m dst src = Some (put m dst (cs @ [0]))"
  using assms strncpy_loop_str [of m src 0 cs len dst] strcpy_loop_str [of m src 0 cs dst]
  by (simp add: strncpy_def strcpy_def)

lemma strncpy_copies_witness:
  "strncpy (put (\<lambda>_. 1) 0x1000 [0x61, 0x62, 0x63, 0]) 0x2000 0x1000 2 =
     Some (put (put (\<lambda>_. 1) 0x1000 [0x61, 0x62, 0x63, 0]) 0x2000 [0x61, 0x62, 0])"
  using strncpy_copies [of "0x2000" "0x1000" 2 "put (\<lambda>_. 1) 0x1000 [0x61, 0x62, 0x63, 0]" "[0x61, 0x62, 0x63]"]
  by (simp add: copy_safe_def)

section \<open>Splitting\<close>

lemma is_delimiter_str:
  "str_at m (ds + ucast j) es \<Longrightarrow> unat j + length es < 2 ^ 32 \<Longrightarrow>
   is_delimiter m c ds j = Some (c \<in> set es)"
proof (induction es arbitrary: j)
  case Nil
  then show ?case by (subst is_delimiter.simps) simp
next
  case (Cons e es)
  have nw: "Suc (unat j) < 2 ^ 32" using Cons.prems(2) by simp
  have "is_delimiter m c ds (j + 1) = Some (c \<in> set es)"
    using Cons.prems index_step(2) [OF nw]
    by (intro Cons.IH) (simp_all only: index_step(1) [OF nw], simp_all)
  then show ?case using Cons.prems by (subst is_delimiter.simps) simp
qed

lemma strtok_loop_str:
  assumes "str_at m ds es" and "length es < 2 ^ 32"
  shows "str_at m (p + ucast i) cs \<Longrightarrow> unat i + length cs < 2 ^ 32 \<Longrightarrow>
    strtok_loop m p ds i =
      (let k = of_nat (length (takeWhile (\<lambda>c. c \<notin> set es) cs)); q = p + ucast i + k
       in if \<forall>c \<in> set cs. c \<notin> set es then Some (m, q) else Some (m(q := 0), q + 1))"
proof (induction cs arbitrary: i)
  case Nil
  then show ?case by (subst strtok_loop.simps) simp
next
  case (Cons c cs)
  have nw: "Suc (unat i) < 2 ^ 32" using Cons.prems(2) by simp
  have del: "is_delimiter m c ds 0 = Some (c \<in> set es)"
    using is_delimiter_str [of m ds 0 es c] assms by simp
  have c: "c \<noteq> 0" "m (p + ucast i) = c" and cs: "str_at m (p + ucast (i + 1)) cs"
    using Cons.prems(1) by (simp_all add: index_step(1) [OF nw])
  have IH: "strtok_loop m p ds (i + 1) =
      (let k = of_nat (length (takeWhile (\<lambda>c. c \<notin> set es) cs)); q = p + ucast (i + 1) + k
       in if \<forall>c \<in> set cs. c \<notin> set es then Some (m, q) else Some (m(q := 0), q + 1))"
    using Cons.prems(2) by (intro Cons.IH cs) (simp add: index_step(2) [OF nw])
  show ?case
  proof (cases "c \<in> set es")
    case True
    with c del show ?thesis
      by (subst strtok_loop.simps) (simp add: Let_def index_step(1) [OF nw])
  next
    case False
    with c del show ?thesis
      by (subst strtok_loop.simps) (simp add: IH Let_def index_step(1) [OF nw] add.assoc)
  qed
qed

lemma str_at_append:
  "str_at m a (xs @ ys) \<longleftrightarrow> 0 \<notin> set xs \<and> (\<forall>k < length xs. m (a + of_nat k) = xs ! k) \<and>
     str_at m (a + of_nat (length xs)) ys"
proof (induction xs arbitrary: a)
  case Nil
  then show ?case by simp
next
  case (Cons x xs)
  then show ?case by (auto simp: All_less_Suc2 add.assoc)
qed

text \<open>
  \<open>strtok_s\<close> on a non-empty string (the first argument when the context is NULL, else the
  context) returns that address, where it leaves the longest prefix without a delimiter as a
  zero-terminated string, and a new context at which the rest of the string after that delimiter
  starts (the empty rest when there was none). It overwrites at most the one byte of the
  delimiter, so that repeated calls deliver the fields of the string one after the other.
\<close>

theorem strtok_s_splits:
  assumes "delimiters \<noteq> NULL" and "context \<noteq> NULL \<or> strToken \<noteq> NULL"
    and "p = (if context = NULL then strToken else context)"
    and "str_at m p cs" and "cs \<noteq> []" and "length cs < 2 ^ 32"
    and "str_at m delimiters ds" and "length ds < 2 ^ 32"
  shows "\<exists>m' context'. strtok_s m strToken delimiters context = Some (m', context', p) \<and>
    str_at m' p (takeWhile (\<lambda>c. c \<notin> set ds) cs) \<and>
    str_at m' context' (tl (dropWhile (\<lambda>c. c \<notin> set ds) cs)) \<and>
    (\<forall>q. q \<noteq> p + of_nat (length (takeWhile (\<lambda>c. c \<notin> set ds) cs)) \<longrightarrow> m' q = m q)"
proof -
  define ts where "ts = takeWhile (\<lambda>c. c \<notin> set ds) cs"
  define rs where "rs = dropWhile (\<lambda>c. c \<notin> set ds) cs"
  define q where "q = p + of_nat (length ts)"
  have cs: "cs = ts @ rs" by (simp add: ts_def rs_def)
  have len: "length ts + length rs < 2 ^ 32" using assms(6) by (simp add: cs)
  have "m p \<noteq> 0" using assms(4,5) str_at_end by blast
  then have run: "strtok_s m strToken delimiters context =
      do { (m, context) \<leftarrow> strtok_loop m p delimiters 0; Some (m, context, p) }"
    using assms(1-3) by (auto simp: strtok_s_def Let_def)
  have loop: "strtok_loop m p delimiters 0 =
      (if \<forall>c \<in> set cs. c \<notin> set ds then Some (m, q) else Some (m(q := 0), q + 1))"
    using strtok_loop_str [OF assms(7,8), of p 0 cs] assms(4,6)
    by (simp add: Let_def q_def ts_def)
  have parts: "0 \<notin> set ts" "\<forall>k < length ts. m (p + of_nat k) = ts ! k" "str_at m q rs"
    using assms(4) by (simp_all add: cs str_at_append q_def)
  show ?thesis
  proof (cases "\<forall>c \<in> set cs. c \<notin> set ds")
    case True
    then have "ts = cs" "rs = []" by (simp_all add: ts_def rs_def)
    then show ?thesis
      using True assms(4) parts by (simp add: run loop flip: ts_def rs_def)
  next
    case False
    then obtain r rs' where rs: "rs = r # rs'" by (cases rs) (auto simp: rs_def)
    have other: "p + of_nat k \<noteq> q" if "k < length ts" for k
    proof
      assume "p + of_nat k = q"
      then have "(of_nat k :: PVOID) = of_nat (length ts)" by (simp add: q_def)
      moreover have "unat (of_nat k :: PVOID) = k" "unat (of_nat (length ts) :: PVOID) = length ts"
        using that len by (simp_all add: unat_of_nat_small)
      ultimately show False using that by simp
    qed
    have "str_at (m(q := 0)) p ts"
      using parts other by (simp add: str_at_nth flip: q_def)
    moreover have "str_at (m(q := 0)) (q + 1) rs'"
    proof -
      have "q \<noteq> q + 1 + of_nat k" if "k \<le> length rs'" for k
      proof
        assume "q = q + 1 + of_nat k"
        then have "(of_nat (Suc k) :: PVOID) = 0" by (simp add: add.assoc)
        moreover have "unat (of_nat (Suc k) :: PVOID) = Suc k"
          using that len rs by (intro unat_of_nat_small) simp
        ultimately show False by simp
      qed
      then show ?thesis using parts(3) rs by (simp add: str_at_upd)
    qed
    moreover have "strtok_loop m p delimiters 0 = Some (m(q := 0), q + 1)"
      unfolding loop if_not_P [OF False] by (rule refl)
    ultimately show ?thesis by (simp add: run rs q_def flip: ts_def rs_def)
  qed
qed

lemma strtok_s_splits_witness:
  "\<exists>m' context'. strtok_s (put (put (\<lambda>_. 0) 0x1000 [0x61, 0x2C, 0x62]) 0x2000 [0x2C]) 0x1000 0x2000 NULL =
      Some (m', context', 0x1000) \<and>
    str_at m' 0x1000 (takeWhile (\<lambda>c. c \<notin> set [0x2C]) [0x61, 0x2C, 0x62]) \<and>
    str_at m' context' (tl (dropWhile (\<lambda>c. c \<notin> set [0x2C]) [0x61, 0x2C, 0x62])) \<and>
    (\<forall>q. q \<noteq> 0x1000 + of_nat (length (takeWhile (\<lambda>c. c \<notin> set [0x2C :: BYTE]) [0x61, 0x2C, 0x62])) \<longrightarrow>
      m' q = put (put (\<lambda>_. 0) 0x1000 [0x61, 0x2C, 0x62]) 0x2000 [0x2C] q)"
  by (rule strtok_s_splits) simp_all

text \<open>
  \<open>strchr\<close> finds the first occurrence, and returns the string itself when there is none. For
  \<open>strcelem\<close> the two cases are the same when the first character is a delimiter, so it counts
  the fields only of a string in which no field but the last is empty.
\<close>

lemma strchr_loop_str:
  "str_at m (a + ucast i) cs \<Longrightarrow> unat i + length cs < 2 ^ 32 \<Longrightarrow>
   strchr_loop m a c i = Some (if c \<in> set cs
     then a + ucast i + of_nat (length (takeWhile (\<lambda>x. x \<noteq> c) cs)) else a)"
proof (induction cs arbitrary: i)
  case Nil
  then show ?case by (subst strchr_loop.simps) simp
next
  case (Cons x cs)
  have nw: "Suc (unat i) < 2 ^ 32" using Cons.prems(2) by simp
  have "strchr_loop m a c (i + 1) = Some (if c \<in> set cs
     then a + ucast (i + 1) + of_nat (length (takeWhile (\<lambda>x. x \<noteq> c) cs)) else a)"
    using Cons.prems index_step(2) [OF nw]
    by (intro Cons.IH) (simp_all only: index_step(1) [OF nw], simp_all)
  then show ?case
    using Cons.prems by (subst strchr_loop.simps) (simp add: index_step(1) [OF nw] add.assoc)
qed

definition separated :: "BYTE \<Rightarrow> BYTE list \<Rightarrow> bool" where
  "separated d cs \<longleftrightarrow> (\<forall>us vs. cs = us @ d # vs \<longrightarrow> us \<noteq> [] \<and> (vs = [] \<or> hd vs \<noteq> d))"

lemma strcelem_loop_str:
  "str_at m p cs \<Longrightarrow> length cs < 2 ^ 32 \<Longrightarrow> p \<noteq> NULL \<Longrightarrow> separated d cs \<Longrightarrow>
   \<forall>k \<le> length cs. p + of_nat k \<noteq> NULL \<Longrightarrow> strchr m p d = Some cur \<Longrightarrow>
   strcelem_loop m d cur p n = Some (n + of_nat (count_list cs d))"
proof (induction "length cs" arbitrary: p cs cur n rule: less_induct)
  case less
  have cur: "cur = (if d \<in> set cs then p + of_nat (length (takeWhile (\<lambda>x. x \<noteq> d) cs)) else p)"
    using strchr_loop_str [of m p 0 cs d] less.prems by (auto simp: strchr_def split: if_splits)
  show ?case
  proof (cases "d \<in> set cs")
    case False
    then show ?thesis using cur
      by (subst strcelem_loop.simps) (simp add: count_notin)
  next
    case True
    define ts where "ts = takeWhile (\<lambda>x. x \<noteq> d) cs"
    have "dropWhile (\<lambda>x. x \<noteq> d) cs \<noteq> []" using True by (simp add: dropWhile_eq_Nil_conv)
    then obtain rs where "dropWhile (\<lambda>x. x \<noteq> d) cs = d # rs"
      using hd_dropWhile by (metis (mono_tags, lifting) list.collapse)
    then have cs: "cs = ts @ d # rs" unfolding ts_def by (metis takeWhile_dropWhile_id)
    have ts: "d \<notin> set ts" by (auto simp: ts_def dest: set_takeWhileD)
    have sep: "ts \<noteq> []" "rs = [] \<or> hd rs \<noteq> d"
      using less.prems(4) cs unfolding separated_def by blast+
    have q: "cur = p + of_nat (length ts)" using cur True by (simp add: ts_def)
    have "cur \<noteq> p"
    proof
      assume "cur = p"
      then have "(of_nat (length ts) :: PVOID) = 0" by (simp add: q)
      moreover have "unat (of_nat (length ts) :: PVOID) = length ts"
        using less.prems(2) cs by (intro unat_of_nat_small) simp
      ultimately show False using sep(1) by simp
    qed
    have str: "str_at m (cur + 1) rs" using less.prems(1) by (simp add: cs str_at_append q)
    have nonnull: "cur + 1 + of_nat k \<noteq> NULL" if "k \<le> length rs" for k
      using less.prems(5) [rule_format, of "length ts + 1 + k"] that
      by (simp add: cs q add_ac)
    have sep': "separated d rs"
      unfolding separated_def
    proof (intro allI impI conjI)
      fix us vs assume rs: "rs = us @ d # vs"
      then show "us \<noteq> []" using sep(2) by auto
      have "cs = (ts @ d # us) @ d # vs" by (simp add: cs rs)
      then show "vs = [] \<or> hd vs \<noteq> d" using less.prems(4) unfolding separated_def by blast
    qed
    have "cur + 1 \<noteq> NULL" using nonnull [of 0] by simp
    then obtain cur' where cur': "strchr m (cur + 1) d = Some cur'"
      using strchr_loop_str [of m "cur + 1" 0 rs d] str less.prems(2) cs by (simp add: strchr_def)
    have "strcelem_loop m d cur' (cur + 1) (n + 1) = Some (n + 1 + of_nat (count_list rs d))"
      by (rule less.hyps [OF _ str _ _ sep' _ cur'])
        (use less.prems(2) cs nonnull \<open>cur + 1 \<noteq> NULL\<close> in simp_all)
    then show ?thesis
      using \<open>cur \<noteq> p\<close> cur' ts
      by (subst strcelem_loop.simps) (simp add: Let_def cs count_notin)
  qed
qed

lemma strcelem_counts:
  assumes "str_at m p cs" and "length cs < 2 ^ 32" and "separated d cs"
    and "\<forall>k \<le> length cs. p + of_nat k \<noteq> NULL"
  shows "strcelem m p d = Some (1 + of_nat (count_list cs d))"
proof -
  have nn: "p \<noteq> NULL" using assms(4) [rule_format, of 0] by simp
  obtain cur where cur: "strchr m p d = Some cur"
    using strchr_loop_str [of m p 0 cs d] assms(1,2) nn by (simp add: strchr_def)
  with strcelem_loop_str [OF assms(1,2) nn assms(3,4) cur, of 1] nn
  show ?thesis by (simp add: strcelem_def)
qed

lemma strcelem_leading_delimiter:
  assumes "str_at m p (d # cs)" and "p \<noteq> NULL"
  shows "strcelem m p d = Some 1"
proof -
  have "strchr m p d = Some p"
    using assms by (simp add: strchr_def) (subst strchr_loop.simps, simp)
  then show ?thesis using assms(2) by (simp add: strcelem_def) (subst strcelem_loop.simps, simp)
qed

end
