(* ===== verification/Heap.thy ===== *)
theory Heap
  imports Memory Lists
begin

text \<open>
  The kernel heap, \<^verbatim>\<open>HAL9000/src/heap.c\<close>. An allocated block is a header
  (\<open>HEAP_ENTRY\<close>, 32 bytes), the data, and a magic number behind the data. The headers are in a
  list ordered by address. The state holds the fields of the headers and the tails by address,
  the links in the store of the list library, and the bytes of the data. \<open>FreeAddress\<close> is the
  end of the last block; an allocation goes there if it fits and otherwise into a gap between two
  consecutive blocks, searched for from \<open>EntryToRestartSearch\<close> on.
\<close>

section \<open>State\<close>

record HEAP_HEADER =
  Magic :: DWORD
  HeapSizeMaximum :: QWORD
  HeapSizeRemaining :: QWORD
  BaseAddress :: QWORD
  FreeAddress :: QWORD
  HeapNumberOfAllocations :: QWORD
  EntryToRestartSearch :: PVOID

record heap_state =
  Header :: HEAP_HEADER
  EntryMagic :: "PVOID \<Rightarrow> DWORD"
  EntryTag :: "PVOID \<Rightarrow> DWORD"
  EntrySize :: "PVOID \<Rightarrow> DWORD"
  EntryOffset :: "PVOID \<Rightarrow> DWORD"
  TailMagic :: "PVOID \<Rightarrow> DWORD"
  Links :: list_store
  Bytes :: mem

abbreviation HEAP_MINIMUM_SIZE :: QWORD where "HEAP_MINIMUM_SIZE \<equiv> 0x10000"
abbreviation HEAP_MAGIC :: DWORD where "HEAP_MAGIC \<equiv> 0xACE2302E"
abbreviation HEAP_FREE_PATTERN :: BYTE where "HEAP_FREE_PATTERN \<equiv> 0xAF"
abbreviation HEAP_DEFAULT_ALIGNMENT :: DWORD where "HEAP_DEFAULT_ALIGNMENT \<equiv> 16"
abbreviation SIZEOF_HEAP_HEADER :: QWORD where "SIZEOF_HEAP_HEADER \<equiv> 0x48"
abbreviation SIZEOF_HEAP_ENTRY :: QWORD where "SIZEOF_HEAP_ENTRY \<equiv> 0x20"
abbreviation SIZEOF_HEAP_TAIL :: QWORD where "SIZEOF_HEAP_TAIL \<equiv> 4"
abbreviation PoolAllocateZeroMemory :: DWORD where "PoolAllocateZeroMemory \<equiv> 0x2"
abbreviation PoolAllocatePanicIfFail :: DWORD where "PoolAllocatePanicIfFail \<equiv> 0x4"

text \<open>The addresses of the list head in the heap header and of the links in an entry.\<close>

definition HeapAllocations :: "heap_state \<Rightarrow> PVOID" where
  "HeapAllocations h = BaseAddress (Header h) + 0x38"

definition entry_link :: "PVOID \<Rightarrow> PVOID" where "entry_link e = e + 0x10"

definition CONTAINING_RECORD :: "PVOID \<Rightarrow> PVOID" where "CONTAINING_RECORD p = p - 0x10"

section \<open>Operations\<close>

text \<open>
  The heap is set up on the region that \<open>VmmAllocRegion\<close> answers with; here the allocator is an
  argument, from the size to the address of a committed region or to NULL (the allocation itself is
  in the theory \<open>VmRegions\<close>). \<open>HeapHeader\<close> is the address of the caller's variable for the result.
\<close>

definition HeapInitializeSystem ::
    "(QWORD \<Rightarrow> PVOID) \<Rightarrow> heap_state \<Rightarrow> QWORD \<Rightarrow> PVOID \<Rightarrow> STATUS \<times> heap_state" where
  "HeapInitializeSystem VmmAllocRegion h MemoryAvailable HeapHeader =
     (if NULL = HeapHeader then (STATUS_INVALID_PARAMETER2, h)
      else if MemoryAvailable < HEAP_MINIMUM_SIZE then (STATUS_HEAP_TOO_SMALL, h)
      else
        let baseAddress = VmmAllocRegion MemoryAvailable
        in if baseAddress = NULL then (STATUS_MEMORY_CANNOT_BE_RESERVED, h)
           else
             let h = h\<lparr>Header := \<lparr>Magic = HEAP_MAGIC,
                   HeapSizeMaximum = MemoryAvailable,
                   HeapSizeRemaining = MemoryAvailable - SIZEOF_HEAP_HEADER,
                   BaseAddress = baseAddress,
                   FreeAddress = baseAddress + SIZEOF_HEAP_HEADER,
                   HeapNumberOfAllocations = 0,
                   EntryToRestartSearch = baseAddress + 0x38\<rparr>\<rparr>
             in (STATUS_SUCCESS, h\<lparr>Links := InitializeListHead (Links h) (HeapAllocations h)\<rparr>))"

text \<open>
  \<open>_InitHeapEntry\<close> returns the first address behind the new block, 0 when it does not fit, and
  the address of the new header.
\<close>

definition InitHeapEntry ::
    "heap_state \<Rightarrow> PVOID \<Rightarrow> DWORD \<Rightarrow> DWORD \<Rightarrow> DWORD \<Rightarrow> bool \<Rightarrow> QWORD \<Rightarrow>
     (QWORD \<times> PVOID \<times> heap_state) option" where
  "InitHeapEntry h HeapEntry Tag sz Alignment AddToLinkedList SizeAvailable =
     (let unalignedDataAddress = HeapEntry + SIZEOF_HEAP_ENTRY;
          dataAddress = AlignAddressUpper unalignedDataAddress (ucast Alignment);
          heapEntrySize = (ucast (ucast sz + SIZEOF_HEAP_ENTRY + SIZEOF_HEAP_TAIL) :: DWORD)
      in if SizeAvailable < dataAddress - unalignedDataAddress + ucast heapEntrySize
         then Some (0, HeapEntry, h)
         else do {
           let e = dataAddress - SIZEOF_HEAP_ENTRY;
           let h = h\<lparr>EntryMagic := (EntryMagic h)(e := HEAP_MAGIC),
                     EntrySize := (EntrySize h)(e := sz),
                     EntryTag := (EntryTag h)(e := Tag)\<rparr>;
           links \<leftarrow> (if AddToLinkedList then InsertTailList (Links h) (HeapAllocations h) (entry_link e)
                    else Some (Links h));
           let tail = dataAddress + ucast sz;
           let h = h\<lparr>Links := links,
                     EntryOffset := (EntryOffset h)(e := ucast (dataAddress - e)),
                     TailMagic := (TailMagic h)(tail := HEAP_MAGIC),
                     Header := (Header h)
                       \<lparr>HeapSizeRemaining := HeapSizeRemaining (Header h) - ucast heapEntrySize,
                        HeapNumberOfAllocations := HeapNumberOfAllocations (Header h) + 1\<rparr>\<rparr>;
           Some (tail + SIZEOF_HEAP_TAIL, e, h)
         })"

definition ValidateHeapEntry :: "heap_state \<Rightarrow> PVOID \<Rightarrow> DWORD \<Rightarrow> bool option" where
  "ValidateHeapEntry h HeapEntry Tag = do {
     ASSERT (NULL \<noteq> HeapEntry);
     ASSERT (0 \<noteq> Tag);
     let totalSize = (ucast (SIZEOF_HEAP_ENTRY + ucast (EntrySize h HeapEntry) + SIZEOF_HEAP_TAIL) :: DWORD);
     let pHeapTail = HeapEntry + ucast totalSize - SIZEOF_HEAP_TAIL;
     Some (EntryMagic h HeapEntry = HEAP_MAGIC \<and> TailMagic h pHeapTail = HEAP_MAGIC \<and>
           EntryTag h HeapEntry \<noteq> 0 \<and> Tag = EntryTag h HeapEntry)
   }"

text \<open>
  The loop over the gaps. The result is the new entry and state, or the inner \<open>None\<close> when no gap
  is large enough; \<open>pCurHeapEntry\<close> keeps its value when the loop skips the list head.
\<close>

partial_function (option) heap_search ::
    "heap_state \<Rightarrow> DWORD \<Rightarrow> DWORD \<Rightarrow> DWORD \<Rightarrow> QWORD \<Rightarrow> PVOID \<Rightarrow> PVOID \<Rightarrow> PVOID \<Rightarrow> PVOID \<Rightarrow>
     (PVOID \<times> heap_state) option option" where
  "heap_search h Tag AllocationSize alignment sizeRequired pPreviousEntry pPreviousHeapEntry
      pCurEntry pCurHeapEntry =
     (if EntryToRestartSearch (Header h) \<noteq> pCurEntry then
        if pCurEntry = HeapAllocations h \<or> pPreviousEntry = HeapAllocations h
        then heap_search h Tag AllocationSize alignment sizeRequired pCurEntry pCurHeapEntry
               (Flink (Links h) pCurEntry) pCurHeapEntry
        else do {
          ASSERT (NULL \<noteq> pPreviousHeapEntry);
          let pCurHeapEntry = CONTAINING_RECORD pCurEntry;
          let startAddress = pPreviousHeapEntry + SIZEOF_HEAP_ENTRY +
                ucast (EntrySize h pPreviousHeapEntry) + SIZEOF_HEAP_TAIL;
          let sizeBetweenEntries = pCurHeapEntry - startAddress;
          if sint sizeBetweenEntries \<ge> sint sizeRequired then do {
            (tempAddress, pNewHeapEntry, h') \<leftarrow>
              InitHeapEntry h startAddress Tag AllocationSize alignment False sizeBetweenEntries;
            if tempAddress = 0
            then heap_search h Tag AllocationSize alignment sizeRequired pCurEntry pCurHeapEntry
                   (Flink (Links h) pCurEntry) pCurHeapEntry
            else do {
              valid \<leftarrow> ValidateHeapEntry h' pPreviousHeapEntry (EntryTag h' pPreviousHeapEntry);
              ASSERT valid;
              links \<leftarrow> InsertHeadList (Links h') pPreviousEntry (entry_link pNewHeapEntry);
              Some (Some (pNewHeapEntry, h'\<lparr>Links := links,
                Header := (Header h')\<lparr>EntryToRestartSearch := entry_link pNewHeapEntry\<rparr>\<rparr>))
            }
          }
          else heap_search h Tag AllocationSize alignment sizeRequired pCurEntry pCurHeapEntry
                 (Flink (Links h) pCurEntry) pCurHeapEntry
        }
      else Some None)"

text \<open>
  The body of the \<open>__try\<close> block: a status and, on success, the new entry. The \<open>__finally\<close> block
  asserts success when the flags ask for it and clears the data; on failure it only writes to the
  log.
\<close>

definition heap_allocate ::
    "heap_state \<Rightarrow> DWORD \<Rightarrow> DWORD \<Rightarrow> DWORD \<Rightarrow> (STATUS \<times> PVOID \<times> heap_state) option" where
  "heap_allocate h AllocationSize Tag AllocationAlignment =
     (if AllocationSize = 0 then Some (STATUS_INVALID_PARAMETER2, NULL, h)
      else if Tag = 0 then Some (STATUS_INVALID_PARAMETER3, NULL, h)
      else
        let alignment = (if AllocationAlignment = 0 then HEAP_DEFAULT_ALIGNMENT else AllocationAlignment);
            sizeRequired = ucast AllocationSize + SIZEOF_HEAP_ENTRY + SIZEOF_HEAP_TAIL;
            hdr = Header h
        in if sizeRequired > HeapSizeRemaining hdr then Some (STATUS_HEAP_NO_MORE_MEMORY, NULL, h)
           else
             let remainingSizeUntilEnd =
                   BaseAddress hdr + HeapSizeMaximum hdr - FreeAddress hdr - SIZEOF_HEAP_ENTRY
             in do {
               (tempAddress, pNewHeapEntry, h) \<leftarrow>
                 (if sint sizeRequired \<le> sint remainingSizeUntilEnd
                  then InitHeapEntry h (FreeAddress hdr) Tag AllocationSize alignment True remainingSizeUntilEnd
                  else Some (0, NULL, h));
               if tempAddress \<noteq> 0
               then Some (STATUS_SUCCESS, pNewHeapEntry, h\<lparr>Header := (Header h)\<lparr>FreeAddress := tempAddress\<rparr>\<rparr>)
               else
                 let remainingSizeBeforeCurrent =
                       HeapSizeRemaining (Header h) - remainingSizeUntilEnd - SIZEOF_HEAP_ENTRY
                 in if sint sizeRequired > sint remainingSizeBeforeCurrent
                    then Some (STATUS_HEAP_NO_MORE_MEMORY, NULL, h)
                    else do {
                      is_empty \<leftarrow> IsListEmpty (Links h) (HeapAllocations h);
                      ASSERT (\<not> is_empty);
                      let pPreviousEntry = Flink (Links h) (EntryToRestartSearch (Header h));
                      found \<leftarrow> heap_search h Tag AllocationSize alignment sizeRequired pPreviousEntry
                        (CONTAINING_RECORD pPreviousEntry) (Flink (Links h) pPreviousEntry) NULL;
                      (case found of
                         None \<Rightarrow> Some (STATUS_HEAP_NO_MORE_MEMORY, NULL, h)
                       | Some (pNewHeapEntry, h) \<Rightarrow> Some (STATUS_SUCCESS, pNewHeapEntry, h))
                    }
             })"

definition HeapAllocatePoolWithTag ::
    "heap_state \<Rightarrow> DWORD \<Rightarrow> DWORD \<Rightarrow> DWORD \<Rightarrow> DWORD \<Rightarrow> (PVOID \<times> heap_state) option" where
  "HeapAllocatePoolWithTag h Flags AllocationSize Tag AllocationAlignment = do {
     (status, pNewHeapEntry, h) \<leftarrow> heap_allocate h AllocationSize Tag AllocationAlignment;
     let mappedAddress = (if SUCCEEDED status then pNewHeapEntry + ucast (EntryOffset h pNewHeapEntry) else NULL);
     ASSERT (IsFlagOn Flags PoolAllocatePanicIfFail \<longrightarrow> SUCCEEDED status \<and> NULL \<noteq> mappedAddress);
     Some (mappedAddress,
       if SUCCEEDED status \<and> IsFlagOn Flags PoolAllocateZeroMemory
       then h\<lparr>Bytes := memset (Bytes h) mappedAddress 0 AllocationSize\<rparr> else h)
   }"

text \<open>
  Freeing overwrites the whole block, header and tail included, with the free pattern.
\<close>

definition free_pattern :: "heap_state \<Rightarrow> PVOID \<Rightarrow> DWORD \<Rightarrow> heap_state" where
  "free_pattern h e sz = h
     \<lparr>EntryMagic := (EntryMagic h)(e := 0xAFAFAFAF), EntryTag := (EntryTag h)(e := 0xAFAFAFAF),
      EntrySize := (EntrySize h)(e := 0xAFAFAFAF), EntryOffset := (EntryOffset h)(e := 0xAFAFAFAF),
      TailMagic := (TailMagic h)(e + ucast sz - SIZEOF_HEAP_TAIL := 0xAFAFAFAF),
      Links := set_Flink (entry_link e) 0xAFAFAFAFAFAFAFAF
                 (set_Blink (entry_link e) 0xAFAFAFAFAFAFAFAF (Links h)),
      Bytes := memset (Bytes h) e HEAP_FREE_PATTERN sz\<rparr>"

definition HeapFreePoolWithTag :: "heap_state \<Rightarrow> PVOID \<Rightarrow> DWORD \<Rightarrow> heap_state option" where
  "HeapFreePoolWithTag h MemoryAddress Tag = do {
     ASSERT (NULL \<noteq> MemoryAddress);
     ASSERT (0 \<noteq> Tag);
     let e = MemoryAddress - SIZEOF_HEAP_ENTRY;
     let endAddress = MemoryAddress + ucast (EntrySize h e) + SIZEOF_HEAP_TAIL;
     valid \<leftarrow> ValidateHeapEntry h e Tag;
     ASSERT valid;
     let pListEntry = Blink (Links h) (entry_link e);
     let previousAddress =
       (if pListEntry \<noteq> HeapAllocations h \<and> pListEntry \<noteq> NULL
        then CONTAINING_RECORD pListEntry + SIZEOF_HEAP_ENTRY +
             ucast (EntrySize h (CONTAINING_RECORD pListEntry)) + SIZEOF_HEAP_TAIL
        else BaseAddress (Header h) + SIZEOF_HEAP_HEADER);
     (_, links) \<leftarrow> RemoveEntryList (Links h) (entry_link e);
     let h = h\<lparr>Links := links\<rparr>;
     let heapEntrySize = ucast (EntrySize h e) + SIZEOF_HEAP_ENTRY + SIZEOF_HEAP_TAIL;
     ASSERT (heapEntrySize \<le> ucast MAX_DWORD);
     let h = free_pattern h e (ucast heapEntrySize);
     let hdr = (Header h)\<lparr>HeapSizeRemaining := HeapSizeRemaining (Header h) + heapEntrySize,
                          HeapNumberOfAllocations := HeapNumberOfAllocations (Header h) - 1\<rparr>;
     Some (h\<lparr>Header := (if endAddress = FreeAddress hdr then hdr\<lparr>FreeAddress := previousAddress\<rparr> else hdr)\<rparr>)
   }"

section \<open>The invariant\<close>

text \<open>
  The size of a block with its header and tail, and the address behind it, as numbers. The
  invariant states of the entries \<open>es\<close>, in list order: they are linked from the list head, lie
  one behind the other without overlap between the heap header and \<open>FreeAddress\<close>, their magic
  numbers are intact, and the counters of the header agree with them. Heaps are smaller than 4 GB,
  so that block sizes do not wrap in the 32-bit variables that hold them, and end 8 GB below the
  top of the address space, so that no address calculation wraps.
\<close>

definition block_size :: "heap_state \<Rightarrow> PVOID \<Rightarrow> nat" where
  "block_size h e = 0x24 + unat (EntrySize h e)"

definition block_end :: "heap_state \<Rightarrow> PVOID \<Rightarrow> nat" where
  "block_end h e = unat e + block_size h e"

definition entry_ok :: "heap_state \<Rightarrow> PVOID \<Rightarrow> bool" where
  "entry_ok h e \<longleftrightarrow> EntryMagic h e = HEAP_MAGIC \<and> EntryTag h e \<noteq> 0 \<and> EntryOffset h e = 0x20 \<and>
     TailMagic h (e + 0x20 + ucast (EntrySize h e)) = HEAP_MAGIC"

definition heap_bounds :: "heap_state \<Rightarrow> bool" where
  "heap_bounds h \<longleftrightarrow> 0 < unat (BaseAddress (Header h)) \<and> 0x48 \<le> unat (HeapSizeMaximum (Header h)) \<and>
     unat (HeapSizeMaximum (Header h)) < 2 ^ 32 \<and>
     unat (BaseAddress (Header h)) + unat (HeapSizeMaximum (Header h)) + 2 ^ 33 < 2 ^ 64"

definition heap_top :: "heap_state \<Rightarrow> nat" where
  "heap_top h = unat (BaseAddress (Header h)) + unat (HeapSizeMaximum (Header h))"

definition heap_start :: "heap_state \<Rightarrow> nat" where
  "heap_start h = unat (BaseAddress (Header h)) + 0x48"

definition blocks_ok :: "heap_state \<Rightarrow> PVOID list \<Rightarrow> bool" where
  "blocks_ok h es \<longleftrightarrow> sorted_wrt (\<lambda>a b. block_end h a \<le> unat b) es \<and>
     (\<forall>e \<in> set es. entry_ok h e \<and> heap_start h \<le> unat e \<and> block_end h e \<le> unat (FreeAddress (Header h)))"

definition heap_ok :: "heap_state \<Rightarrow> PVOID list \<Rightarrow> bool" where
  "heap_ok h es \<longleftrightarrow> heap_bounds h \<and> blocks_ok h es \<and>
     dll (Links h) (HeapAllocations h) (map entry_link es) \<and>
     unat (FreeAddress (Header h)) = (if es = [] then heap_start h else block_end h (last es)) \<and>
     unat (FreeAddress (Header h)) \<le> heap_top h \<and>
     unat (HeapSizeRemaining (Header h)) + 0x48 + sum_list (map (block_size h) es) =
       unat (HeapSizeMaximum (Header h)) \<and>
     HeapNumberOfAllocations (Header h) = of_nat (length es)"

definition restart_ok :: "heap_state \<Rightarrow> PVOID list \<Rightarrow> bool" where
  "restart_ok h es \<longleftrightarrow> EntryToRestartSearch (Header h) \<in> set (HeapAllocations h # map entry_link es)"

lemma heap_ok_restart [simp]:
  "heap_ok (h\<lparr>Header := (Header h)\<lparr>EntryToRestartSearch := r\<rparr>\<rparr>) es = heap_ok h es"
proof -
  have "block_size (h\<lparr>Header := x\<rparr>) = block_size h" "block_end (h\<lparr>Header := x\<rparr>) = block_end h"
    "entry_ok (h\<lparr>Header := x\<rparr>) = entry_ok h" for x
    by (simp_all add: fun_eq_iff block_size_def block_end_def entry_ok_def)
  then show ?thesis
    by (simp add: heap_ok_def heap_bounds_def blocks_ok_def heap_start_def heap_top_def HeapAllocations_def)
qed

section \<open>Placing an entry\<close>

lemma AlignAddressUpper_between:
  assumes "g \<noteq> 0" and "unat x + unat g < 2 ^ 64"
  shows "\<exists>d. AlignAddressUpper x g = x + d \<and> unat d < unat g"
    and "AlignAddressUpper x g AND (g - 1) = 0"
proof -
  define m where "m = g - 1"
  have m: "unat m = unat g - 1" "0 < unat g"
    using assms(1) unat_pred [of g] by (simp_all add: m_def unat_gt_0)
  define r where "r = (x + m) AND m"
  have "AlignAddressUpper x g = (x + m) AND NOT m"
    by (simp add: AlignAddressUpper_def m_def add_diff_eq)
  also have "\<dots> = x + m - r"
    unfolding r_def by (metis and_plus_and_not add_diff_cancel_left')
  finally have eq: "AlignAddressUpper x g = x + (m - r)" by simp
  have "r \<le> m" by (simp add: r_def word_and_le1)
  then have "unat (m - r) < unat g" using m by (simp add: unat_sub word_le_nat_alt)
  with eq show "\<exists>d. AlignAddressUpper x g = x + d \<and> unat d < unat g" by blast
  show "AlignAddressUpper x g AND (g - 1) = 0"
    by (simp add: AlignAddressUpper_def bit_eq_iff bit_simps)
qed

definition placed :: "heap_state \<Rightarrow> PVOID \<Rightarrow> DWORD \<Rightarrow> DWORD \<Rightarrow> list_store \<Rightarrow> heap_state" where
  "placed h e Tag sz links = h
     \<lparr>EntryMagic := (EntryMagic h)(e := HEAP_MAGIC), EntrySize := (EntrySize h)(e := sz),
      EntryTag := (EntryTag h)(e := Tag), Links := links, EntryOffset := (EntryOffset h)(e := 0x20),
      TailMagic := (TailMagic h)(e + 0x20 + ucast sz := HEAP_MAGIC),
      Header := (Header h)\<lparr>HeapSizeRemaining := HeapSizeRemaining (Header h) - (0x24 + ucast sz),
        HeapNumberOfAllocations := HeapNumberOfAllocations (Header h) + 1\<rparr>\<rparr>"

lemma block_size_word:
  fixes sz :: DWORD
  assumes "unat sz + 0x24 < 2 ^ 32"
  shows "(ucast (ucast (0x24 + ucast sz :: QWORD) :: DWORD) :: QWORD) = 0x24 + ucast sz"
    and "unat (0x24 + ucast sz :: QWORD) = unat sz + 0x24"
proof -
  have q: "unat (0x24 + ucast sz :: QWORD) = unat sz + 0x24"
    using assms by (subst unat_plus_simple) (simp_all add: unat_ucast_up)
  then show "unat (0x24 + ucast sz :: QWORD) = unat sz + 0x24" .
  then show "(ucast (ucast (0x24 + ucast sz :: QWORD) :: DWORD) :: QWORD) = 0x24 + ucast sz"
    using q assms by (simp add: word_unat_eq_iff unat_ucast_mod)
qed

lemma InitHeapEntry_cases:
  fixes sz al :: DWORD
  assumes al: "al \<noteq> 0" and sz: "unat sz + 0x24 < 2 ^ 32" and a: "unat a + 2 ^ 33 < 2 ^ 64"
  shows "InitHeapEntry h a Tag sz al add v = Some (0, a, h) \<and> unat v < unat sz + 0x24 + unat al \<or>
    (\<exists>e. unat a \<le> unat e \<and> unat e + 0x24 + unat sz \<le> unat a + unat v \<and>
      IsAddressAligned (e + 0x20) (ucast al) \<and>
      InitHeapEntry h a Tag sz al add v = do {
        links \<leftarrow> (if add then InsertTailList (Links h) (HeapAllocations h) (entry_link e) else Some (Links h));
        Some (e + 0x20 + ucast sz + 4, e, placed h e Tag sz links) })"
proof -
  let ?g = "ucast al :: QWORD"
  have g: "?g \<noteq> 0" "unat ?g = unat al" "unat al < 2 ^ 32"
    using al unat_less_2p [of al] by (simp_all add: unat_ucast_up unat_eq_zero flip: unat_eq_zero)
  have x: "unat (a + 0x20) = unat a + 0x20" using a by (subst unat_plus_simple) simp_all
  then have "unat (a + 0x20) + unat ?g < 2 ^ 64" using a g(2,3) by simp
  note align = AlignAddressUpper_between [OF g(1) this]
  obtain d where d: "AlignAddressUpper (a + 0x20) ?g = a + 0x20 + d" "unat d < unat al"
    using align(1) g(2) by auto
  define e where "e = a + d"
  have e: "unat e = unat a + unat d"
    using a d(2) g(3) unfolding e_def by (subst unat_plus_simple) simp_all
  have ed: "e - a = d" by (simp add: e_def)
  have data: "AlignAddressUpper (a + 0x20) ?g = e + 0x20" using d(1) by (simp add: e_def)
  have need: "unat (d + (0x24 + ucast sz)) = unat d + unat sz + 0x24"
    using d(2) g(3) sz by (subst unat_plus_simple) (simp_all add: block_size_word(2) [OF sz])
  have aligned: "IsAddressAligned (e + 0x20) ?g"
    using align(2) by (simp add: IsAddressAligned_def data)
  show ?thesis
  proof (cases "v < d + (0x24 + ucast sz)")
    case True
    then have "InitHeapEntry h a Tag sz al add v = Some (0, a, h)"
      by (simp add: InitHeapEntry_def Let_def d(1) block_size_word(1) [OF sz])
    moreover have "unat v < unat sz + 0x24 + unat al"
      using True d(2) by (simp add: word_less_nat_alt need)
    ultimately show ?thesis by blast
  next
    case False
    then have "unat e + 0x24 + unat sz \<le> unat a + unat v" by (simp add: word_less_nat_alt need e)
    moreover have "InitHeapEntry h a Tag sz al add v = do {
        links \<leftarrow> (if add then InsertTailList (Links h) (HeapAllocations h) (entry_link e) else Some (Links h));
        Some (e + 0x20 + ucast sz + 4, e, placed h e Tag sz links) }"
      using False by (simp add: InitHeapEntry_def Let_def data block_size_word(1) [OF sz] ed
        placed_def HeapAllocations_def)
    ultimately show ?thesis using aligned e by (intro disjI2 exI [of _ e]) simp
  qed
qed


lemma block_end_less: "unat e < block_end h e"
  by (simp add: block_end_def block_size_def)

text \<open>
  Placing a block in front of \<open>vs\<close> and behind \<open>us\<close> keeps the invariant; \<open>FreeAddress\<close> moves
  exactly when the block is the last one.
\<close>

lemma heap_ok_placed:
  fixes h us vs e Tag sz links free
  defines "h' \<equiv> (placed h e Tag sz links)\<lparr>Header := (Header (placed h e Tag sz links))\<lparr>FreeAddress := free\<rparr>\<rparr>"
  assumes ok: "heap_ok h (us @ vs)" and tag: "Tag \<noteq> 0"
    and low: "heap_start h \<le> unat e" "\<forall>u \<in> set us. block_end h u \<le> unat e"
    and high: "\<forall>v \<in> set vs. unat e + 0x24 + unat sz \<le> unat v" "unat e + 0x24 + unat sz \<le> heap_top h"
    and fits: "unat sz + 0x24 \<le> unat (HeapSizeRemaining (Header h))"
    and links: "dll links (HeapAllocations h) (map entry_link (us @ e # vs))"
    and free: "unat free = (if vs = [] then unat e + 0x24 + unat sz else unat (FreeAddress (Header h)))"
  shows "heap_ok h' (us @ e # vs)"
proof -
  have bounds: "heap_bounds h" and blocks: "blocks_ok h (us @ vs)" using ok by (simp_all add: heap_ok_def)
  have new: "e \<notin> set (us @ vs)"
    using low(2) high(1) block_end_less [of e h] by (auto simp: not_le)
  have size: "block_size h' x = (if x = e then 0x24 + unat sz else block_size h x)" for x
    by (simp add: h'_def placed_def block_size_def)
  have "end": "block_end h' x = (if x = e then unat e + 0x24 + unat sz else block_end h x)" for x
    by (simp add: block_end_def size)
  have hdr: "BaseAddress (Header h') = BaseAddress (Header h)"
      "HeapSizeMaximum (Header h') = HeapSizeMaximum (Header h)"
      "FreeAddress (Header h') = free" "Links h' = links"
      "HeapNumberOfAllocations (Header h') = HeapNumberOfAllocations (Header h) + 1"
      "HeapSizeRemaining (Header h') = HeapSizeRemaining (Header h) - (0x24 + ucast sz)"
    by (simp_all add: h'_def placed_def)
  then have same: "heap_start h' = heap_start h" "heap_top h' = heap_top h"
      "HeapAllocations h' = HeapAllocations h" "heap_bounds h'"
    using bounds by (simp_all add: heap_start_def heap_top_def HeapAllocations_def heap_bounds_def)
  have entry: "entry_ok h' x" if "x = e \<or> entry_ok h x" for x
    using that tag by (auto simp: entry_ok_def h'_def placed_def)
  have old_free: "block_end h x \<le> unat free" if "x \<in> set (us @ vs)" for x
  proof (cases "vs = []")
    case True
    with that low(2) have "block_end h x \<le> unat e" by simp
    then show ?thesis by (simp add: free True)
  next
    case False
    with that blocks show ?thesis by (auto simp: free blocks_ok_def)
  qed
  have new_free: "unat e + 0x24 + unat sz \<le> unat free"
  proof (cases vs)
    case (Cons v vs')
    then have "unat e + 0x24 + unat sz \<le> unat v" using high(1) by simp
    also have "unat v \<le> block_end h v" by (rule less_imp_le [OF block_end_less])
    also have "\<dots> \<le> unat free" by (rule old_free) (simp add: Cons)
    finally show ?thesis .
  qed (simp add: free)
  have "sorted_wrt (\<lambda>a b. block_end h a \<le> unat b) (us @ vs)" using blocks by (simp add: blocks_ok_def)
  then have "sorted_wrt (\<lambda>a b. block_end h' a \<le> unat b) (us @ e # vs)"
    using new low(2) high(1)
    by (auto simp: sorted_wrt_append "end" intro: sorted_wrt_mono_rel [rotated])
  then have blocks': "blocks_ok h' (us @ e # vs)"
    using blocks entry old_free new_free low(1) new
    by (auto simp: blocks_ok_def same hdr "end")
  have last': "unat free = block_end h' (last (us @ e # vs))"
  proof (cases "vs = []")
    case False
    then have "last vs \<noteq> e" using new last_in_set by fastforce
    with False show ?thesis using ok by (simp add: free "end" heap_ok_def)
  qed (simp add: free "end")
  have "unat (FreeAddress (Header h)) \<le> heap_top h" using ok by (simp add: heap_ok_def)
  then have top: "unat free \<le> heap_top h" using high(2) by (simp add: free)
  have sums: "sum_list (map (block_size h') us) = sum_list (map (block_size h) us)"
      "sum_list (map (block_size h') vs) = sum_list (map (block_size h) vs)"
      "block_size h' e = 0x24 + unat sz"
    using new by (auto simp: size intro!: arg_cong [where f = sum_list])
  have "unat (HeapSizeRemaining (Header h) - (0x24 + ucast sz)) =
      unat (HeapSizeRemaining (Header h)) - (0x24 + unat sz)"
  proof -
    have small: "unat sz + 0x24 < 2 ^ 32"
      using fits ok by (simp add: heap_ok_def heap_bounds_def)
    then show ?thesis using fits block_size_word(2) [OF small]
      by (subst unat_sub) (simp_all add: word_le_nat_alt)
  qed
  then have "unat (HeapSizeRemaining (Header h')) + 0x48 + sum_list (map (block_size h') (us @ e # vs)) =
      unat (HeapSizeMaximum (Header h'))"
    using ok fits by (simp add: heap_ok_def hdr sums)
  then show ?thesis
    using same blocks' links last' top ok by (simp add: heap_ok_def hdr)
qed


section \<open>Allocation\<close>

text \<open>
  What a successful allocation of a block \<open>e\<close> does: the block is put at its place in the ordered
  list, aligned as asked, nothing else of the blocks or of their data changes, and the invariant
  holds of the longer list.
\<close>

definition allocated :: "heap_state \<Rightarrow> heap_state \<Rightarrow> PVOID list \<Rightarrow> PVOID \<Rightarrow> DWORD \<Rightarrow> DWORD \<Rightarrow> DWORD \<Rightarrow> bool" where
  "allocated h h' es e sz Tag al \<longleftrightarrow>
     (\<exists>us vs. es = us @ vs \<and> heap_ok h' (us @ e # vs) \<and> restart_ok h' (us @ e # vs)) \<and>
     e \<notin> set es \<and> IsAddressAligned (e + 0x20) (ucast al) \<and>
     EntrySize h' = (EntrySize h)(e := sz) \<and> EntryTag h' = (EntryTag h)(e := Tag) \<and>
     EntryOffset h' = (EntryOffset h)(e := 0x20) \<and> Bytes h' = Bytes h \<and>
     BaseAddress (Header h') = BaseAddress (Header h) \<and>
     HeapSizeMaximum (Header h') = HeapSizeMaximum (Header h)"

lemma entry_link_inject [simp]: "entry_link a = entry_link b \<longleftrightarrow> a = b"
  by (simp add: entry_link_def)

lemma CONTAINING_RECORD_link [simp]: "CONTAINING_RECORD (entry_link e) = e"
  by (simp add: CONTAINING_RECORD_def entry_link_def)

lemma heap_okD:
  assumes "heap_ok h es"
  shows "heap_bounds h" and "blocks_ok h es" and "dll (Links h) (HeapAllocations h) (map entry_link es)"
    and "unat (FreeAddress (Header h)) \<le> heap_top h" and "heap_top h + 2 ^ 33 < 2 ^ 64"
    and "heap_start h \<le> unat (FreeAddress (Header h))"
    and "\<forall>e \<in> set es. entry_ok h e \<and> heap_start h \<le> unat e \<and> block_end h e \<le> unat (FreeAddress (Header h))"
proof -
  show b: "heap_bounds h" "blocks_ok h es" "dll (Links h) (HeapAllocations h) (map entry_link es)"
    "unat (FreeAddress (Header h)) \<le> heap_top h" using assms by (simp_all add: heap_ok_def)
  show "heap_top h + 2 ^ 33 < 2 ^ 64" using b(1) by (simp add: heap_bounds_def heap_top_def)
  show all: "\<forall>e \<in> set es. entry_ok h e \<and> heap_start h \<le> unat e \<and> block_end h e \<le> unat (FreeAddress (Header h))"
    using b(2) by (simp add: blocks_ok_def)
  show "heap_start h \<le> unat (FreeAddress (Header h))"
  proof (cases "es = []")
    case False
    then have "heap_start h \<le> unat (last es)" using all by simp
    also have "\<dots> \<le> unat (FreeAddress (Header h))"
      using all False block_end_less [of "last es" h] by (meson last_in_set less_imp_le order_trans)
    finally show ?thesis .
  qed (use assms in \<open>simp add: heap_ok_def\<close>)
qed

lemma link_fresh:
  assumes ok: "heap_ok h es" and e: "heap_start h \<le> unat e" "unat e < heap_top h" "e \<notin> set es"
  shows "entry_link e \<noteq> NULL" and "entry_link e \<notin> set (HeapAllocations h # map entry_link es)"
proof -
  have u: "unat (entry_link e) = unat e + 0x10"
    using e(2) heap_okD(5) [OF ok] unfolding entry_link_def by (subst unat_plus_simple) simp_all
  then show "entry_link e \<noteq> NULL" by (metis add_eq_0_iff_both_eq_0 unat_0 zero_neq_numeral)
  have "unat (HeapAllocations h) = unat (BaseAddress (Header h)) + 0x38"
    using heap_okD(5) [OF ok] unfolding HeapAllocations_def heap_top_def
    by (subst unat_plus_simple) simp_all
  with u e(1) have "entry_link e \<noteq> HeapAllocations h" by (auto simp: heap_start_def)
  with e(3) show "entry_link e \<notin> set (HeapAllocations h # map entry_link es)" by auto
qed

lemma remaining_until_end:
  assumes "heap_ok h es"
  defines "rem \<equiv> BaseAddress (Header h) + HeapSizeMaximum (Header h) - FreeAddress (Header h) - 0x20"
  shows "sint rem = int (heap_top h) - int (unat (FreeAddress (Header h)) + 0x20)"
    and "0 \<le> sint rem \<Longrightarrow> int (unat rem) = sint rem"
proof -
  note d = heap_okD [OF assms(1)]
  have t: "unat (BaseAddress (Header h) + HeapSizeMaximum (Header h)) = heap_top h"
    using d(5) by (subst unat_plus_simple) (simp_all add: heap_top_def)
  have f: "unat (FreeAddress (Header h) + 0x20) = unat (FreeAddress (Header h)) + 0x20"
    using d(4,5) by (subst unat_plus_simple) simp_all
  have "rem = (BaseAddress (Header h) + HeapSizeMaximum (Header h)) - (FreeAddress (Header h) + 0x20)"
    by (simp add: rem_def)
  also have "sint \<dots> = int (heap_top h) - int (unat (FreeAddress (Header h)) + 0x20)"
  proof -
    have "heap_top h \<le> unat (FreeAddress (Header h)) + 2 ^ 32"
      using d(1,6) by (simp add: heap_bounds_def heap_top_def heap_start_def)
    then show ?thesis using d(4) by (subst sint_diff_near) (simp_all only: t f, simp_all)
  qed
  finally show "sint rem = int (heap_top h) - int (unat (FreeAddress (Header h)) + 0x20)" .
  show "0 \<le> sint rem \<Longrightarrow> int (unat rem) = sint rem" using unat_nonneg [of rem] by simp
qed


lemma required_size:
  fixes sz :: DWORD
  assumes "unat sz + 0x24 < 2 ^ 32"
  shows "sint (0x24 + ucast sz :: QWORD) = int (unat sz + 0x24)"
  using sint_unat [of "0x24 + ucast sz :: QWORD"] block_size_word(2) [OF assms] assms
  by (simp del: of_nat_add)

lemma unat_behind_block:
  assumes "heap_ok h es" and "x \<in> set es"
  shows "unat (x + 0x20 + ucast (EntrySize h x) + 4) = block_end h x"
proof -
  have "block_end h x + 2 ^ 33 < 2 ^ 64"
    using heap_okD(4,5,7) [OF assms(1)] assms(2) by (meson add_le_mono1 le_less_trans order_trans)
  then have small: "unat x + 0x24 + unat (EntrySize h x) < 2 ^ 64"
    by (simp add: block_end_def block_size_def)
  have "unat (0x24 + ucast (EntrySize h x) :: QWORD) = 0x24 + unat (EntrySize h x)"
    using small by (subst unat_plus_simple) (simp_all add: unat_ucast_up)
  moreover have "x + 0x20 + ucast (EntrySize h x) + 4 = x + (0x24 + ucast (EntrySize h x))" by simp
  ultimately show ?thesis
    using small by (simp only:) (subst unat_plus_simple; simp add: block_end_def block_size_def)
qed

lemma entry_size_bound:
  assumes "heap_ok h es" and "x \<in> set es"
  shows "unat (EntrySize h x) + 0x24 < 2 ^ 32" and "x \<noteq> NULL"
proof -
  have e: "heap_start h \<le> unat x" "block_end h x \<le> heap_top h"
    using heap_okD(4,7) [OF assms(1)] assms(2) by (auto intro: order_trans)
  then show "unat (EntrySize h x) + 0x24 < 2 ^ 32"
    using heap_okD(1) [OF assms(1)]
    by (simp add: block_end_def block_size_def heap_start_def heap_top_def heap_bounds_def)
  show "x \<noteq> NULL" using e(1) by (auto simp: heap_start_def)
qed

lemma ValidateHeapEntry_ok:
  assumes "entry_ok h x" and "x \<noteq> NULL" and "unat (EntrySize h x) + 0x24 < 2 ^ 32"
  shows "ValidateHeapEntry h x Tag = (if Tag = 0 then None else Some (Tag = EntryTag h x))"
proof -
  have c: "0x20 + (x + ucast (EntrySize h x)) = x + 0x20 + ucast (EntrySize h x)" by (simp add: add_ac)
  show ?thesis
    using assms block_size_word(1) [OF assms(3)]
    by (simp add: ValidateHeapEntry_def entry_ok_def Let_def add.commute [of _ "0x24"] ASSERT_bind c)
qed

lemma heap_allocates_at_end:
  fixes sz al :: DWORD
  defines "rem h \<equiv> BaseAddress (Header h) + HeapSizeMaximum (Header h) - FreeAddress (Header h) - 0x20"
  assumes ok: "heap_ok h es" "restart_ok h es" and args: "Tag \<noteq> 0" "al \<noteq> 0"
    and fits: "unat sz + 0x24 \<le> unat (HeapSizeRemaining (Header h))"
    and room: "int (unat sz + 0x24) \<le> sint (rem h)"
  shows "InitHeapEntry h (FreeAddress (Header h)) Tag sz al True (rem h) = Some (0, FreeAddress (Header h), h) \<and>
      unat (rem h) < unat sz + 0x24 + unat al \<or>
    (\<exists>t e h'. InitHeapEntry h (FreeAddress (Header h)) Tag sz al True (rem h) = Some (t, e, h') \<and> t \<noteq> 0 \<and>
      allocated h (h'\<lparr>Header := (Header h')\<lparr>FreeAddress := t\<rparr>\<rparr>) es e sz Tag al)"
proof -
  note d = heap_okD [OF ok(1)]
  have sz: "unat sz + 0x24 < 2 ^ 32"
    using fits ok(1) by (simp add: heap_ok_def heap_bounds_def)
  have free: "unat (FreeAddress (Header h)) + 2 ^ 33 < 2 ^ 64" using d(4,5) by linarith
  have rem: "int (unat (rem h)) = int (heap_top h) - int (unat (FreeAddress (Header h)) + 0x20)"
    using remaining_until_end [OF ok(1)] room unfolding rem_def by linarith
  consider (no) "InitHeapEntry h (FreeAddress (Header h)) Tag sz al True (rem h) = Some (0, FreeAddress (Header h), h)"
      "unat (rem h) < unat sz + 0x24 + unat al"
    | (yes) e where "unat (FreeAddress (Header h)) \<le> unat e"
      "unat e + 0x24 + unat sz \<le> unat (FreeAddress (Header h)) + unat (rem h)"
      "IsAddressAligned (e + 0x20) (ucast al)"
      "InitHeapEntry h (FreeAddress (Header h)) Tag sz al True (rem h) = do {
        links \<leftarrow> InsertTailList (Links h) (HeapAllocations h) (entry_link e);
        Some (e + 0x20 + ucast sz + 4, e, placed h e Tag sz links) }"
    using InitHeapEntry_cases [OF args(2) sz free, of h Tag True "rem h"] by auto
  then show ?thesis
  proof cases
    case no
    then show ?thesis by blast
  next
    case yes
    have top: "unat e + 0x24 + unat sz + 0x20 \<le> heap_top h" using yes(2) rem by linarith
    have low: "\<forall>u \<in> set es. block_end h u \<le> unat e" using d(7) yes(1) by (meson order_trans)
    then have new: "e \<notin> set es" using block_end_less [of e h] by (meson less_le_trans less_irrefl)
    have start: "heap_start h \<le> unat e" using d(6) yes(1) by (rule order_trans)
    note fresh = link_fresh [OF ok(1) start _ new]
    obtain links where links: "InsertTailList (Links h) (HeapAllocations h) (entry_link e) = Some links"
        "dll links (HeapAllocations h) (map entry_link es @ [entry_link e])"
      using InsertTailList_dll [OF d(3), of "entry_link e"] fresh top by auto
    define t where "t = e + 0x20 + ucast sz + 4"
    have t: "unat t = unat e + 0x24 + unat sz"
    proof -
      have "t = e + (0x24 + ucast sz)" by (simp add: t_def)
      then show ?thesis
        using top d(5) by (simp only:) (subst unat_plus_simple; simp add: block_size_word(2) [OF sz])
    qed
    have "heap_ok ((placed h e Tag sz links)\<lparr>Header := (Header (placed h e Tag sz links))\<lparr>FreeAddress := t\<rparr>\<rparr>) (es @ e # [])"
      by (rule heap_ok_placed) (use ok(1) args start low top fits links(2) t in simp_all)
    moreover have "t \<noteq> 0" using t by (metis add_is_0 unat_0 zero_neq_numeral)
    moreover have "restart_ok ((placed h e Tag sz links)\<lparr>Header := (Header (placed h e Tag sz links))\<lparr>FreeAddress := t\<rparr>\<rparr>) (es @ [e])"
      using ok(2) by (auto simp: restart_ok_def placed_def HeapAllocations_def)
    ultimately have "allocated h ((placed h e Tag sz links)\<lparr>Header := (Header (placed h e Tag sz links))\<lparr>FreeAddress := t\<rparr>\<rparr>) es e sz Tag al"
      using new yes(3) unfolding allocated_def by (auto simp: placed_def)
    then show ?thesis using yes(4) links(1) \<open>t \<noteq> 0\<close> by (simp add: t_def)
  qed
qed


text \<open>
  One gap: the previous entry \<open>x\<close> and the next one \<open>y\<close> in the list. When the new block fits, the
  checks the code makes on \<open>x\<close> succeed and the list stays ordered.
\<close>

lemma heap_allocates_in_gap:
  fixes sz al :: DWORD
  defines "gap h x y \<equiv> y - (x + 0x20 + ucast (EntrySize h x) + 4)"
  assumes ok: "heap_ok h (us @ x # y # vs)" "restart_ok h (us @ x # y # vs)"
    and args: "Tag \<noteq> 0" "al \<noteq> 0"
    and fits: "unat sz + 0x24 \<le> unat (HeapSizeRemaining (Header h))"
    and room: "int (unat sz + 0x24) \<le> sint (gap h x y)"
  shows "InitHeapEntry h (x + 0x20 + ucast (EntrySize h x) + 4) Tag sz al False (gap h x y) =
      Some (0, x + 0x20 + ucast (EntrySize h x) + 4, h) \<or>
    (\<exists>t e h' links. InitHeapEntry h (x + 0x20 + ucast (EntrySize h x) + 4) Tag sz al False (gap h x y) = Some (t, e, h') \<and>
      t \<noteq> 0 \<and> ValidateHeapEntry h' x (EntryTag h' x) = Some True \<and>
      InsertHeadList (Links h') (entry_link x) (entry_link e) = Some links \<and>
      allocated h (h'\<lparr>Links := links, Header := (Header h')\<lparr>EntryToRestartSearch := entry_link e\<rparr>\<rparr>)
        (us @ x # y # vs) e sz Tag al)"
proof -
  let ?es = "us @ x # y # vs" and ?a' = "x + 0x20 + ucast (EntrySize h x) + 4"
  define A where "A = ?a'"
  note d = heap_okD [OF ok(1)]
  have sz: "unat sz + 0x24 < 2 ^ 32" using fits ok(1) by (simp add: heap_ok_def heap_bounds_def)
  have a: "unat A = block_end h x" unfolding A_def by (rule unat_behind_block [OF ok(1)]) simp
  have bound: "block_end h x \<le> unat y" using d(2) by (simp add: blocks_ok_def sorted_wrt_append)
  have ytop: "unat y < heap_top h"
    using d(4,7) block_end_less [of y h] by fastforce
  have gap: "unat (gap h x y) = unat y - block_end h x"
    unfolding gap_def A_def [symmetric] using bound by (subst unat_sub) (simp_all only: word_le_nat_alt a)
  have small: "unat A + 2 ^ 33 < 2 ^ 64" using a bound ytop d(5) by linarith
  consider (no) "InitHeapEntry h A Tag sz al False (gap h x y) = Some (0, A, h)"
    | (yes) e where "block_end h x \<le> unat e" "unat e + 0x24 + unat sz \<le> unat y"
      "IsAddressAligned (e + 0x20) (ucast al)"
      "InitHeapEntry h A Tag sz al False (gap h x y) =
        Some (e + 0x20 + ucast sz + 4, e, placed h e Tag sz (Links h))"
    using InitHeapEntry_cases [OF args(2) sz small, of h Tag False "gap h x y"] bound by (auto simp: a gap)
  then show ?thesis
  proof cases
    case no
    then show ?thesis unfolding A_def [symmetric] by blast
  next
    case yes
    have blocks: "sorted_wrt (\<lambda>a b. block_end h a \<le> unat b) ?es" using d(2) by (simp add: blocks_ok_def)
    have low: "\<forall>u \<in> set (us @ [x]). block_end h u \<le> unat e"
    proof
      fix u assume "u \<in> set (us @ [x])"
      then have "u = x \<or> block_end h u \<le> unat x" using blocks by (auto simp: sorted_wrt_append)
      then show "block_end h u \<le> unat e" using yes(1) block_end_less [of x h] by auto
    qed
    have high: "\<forall>v \<in> set (y # vs). unat e + 0x24 + unat sz \<le> unat v"
    proof
      fix v assume "v \<in> set (y # vs)"
      then have "v = y \<or> block_end h y \<le> unat v" using blocks by (auto simp: sorted_wrt_append)
      then show "unat e + 0x24 + unat sz \<le> unat v" using yes(2) block_end_less [of y h] by auto
    qed
    have new: "e \<notin> set ?es" using low high block_end_less [of e h] by fastforce
    have start: "heap_start h \<le> unat e"
      using d(7) low block_end_less [of x h] by fastforce
    have top: "unat e + 0x24 + unat sz \<le> heap_top h" using yes(2) ytop by simp
    note fresh = link_fresh [OF ok(1) start _ new]
    obtain links where links: "InsertHeadList (Links h) (entry_link x) (entry_link e) = Some links"
        "dll links (HeapAllocations h) (map entry_link (us @ [x]) @ entry_link e # map entry_link (y # vs))"
      using insert_after_dll [of "Links h" "HeapAllocations h" "map entry_link (us @ [x])"
          "map entry_link (y # vs)" "entry_link e"] d(3) fresh top by auto
    let ?t = "e + 0x20 + ucast sz + 4"
    have t: "unat ?t = unat e + 0x24 + unat sz"
    proof -
      have "?t = e + (0x24 + ucast sz)" by simp
      then show ?thesis
        using top d(5) by (simp only:) (subst unat_plus_simple; simp add: block_size_word(2) [OF sz])
    qed
    then have "?t \<noteq> 0" by (metis add_is_0 unat_0 zero_neq_numeral)
    define h' where "h' = (placed h e Tag sz links)\<lparr>Header := (Header (placed h e Tag sz links))\<lparr>FreeAddress := FreeAddress (Header h)\<rparr>\<rparr>"
    have ok': "heap_ok h' ((us @ [x]) @ e # (y # vs))"
      unfolding h'_def
      by (rule heap_ok_placed) (use ok(1) args start low high top fits links(2) in simp_all)
    define h2 where "h2 = (placed h e Tag sz (Links h))\<lparr>Links := links,
        Header := (Header (placed h e Tag sz (Links h)))\<lparr>EntryToRestartSearch := entry_link e\<rparr>\<rparr>"
    have "h2 = h'\<lparr>Header := (Header h')\<lparr>EntryToRestartSearch := entry_link e\<rparr>\<rparr>"
      by (rule heap_state.equality) (simp_all add: h2_def h'_def placed_def)
    with ok' have "heap_ok h2 ((us @ [x]) @ e # (y # vs))" by (simp del: append_assoc)
    moreover have "restart_ok h2 ((us @ [x]) @ e # (y # vs))"
      by (simp add: restart_ok_def h2_def)
    ultimately have "\<exists>us' vs'. ?es = us' @ vs' \<and> heap_ok h2 (us' @ e # vs') \<and> restart_ok h2 (us' @ e # vs')"
      by (intro exI [of _ "us @ [x]"] exI [where x = "y # vs"] conjI) simp_all
    then have "allocated h h2 ?es e sz Tag al"
      using new yes(3) unfolding allocated_def by (simp add: h2_def placed_def)
    moreover have "ValidateHeapEntry (placed h e Tag sz (Links h)) x (EntryTag (placed h e Tag sz (Links h)) x) = Some True"
    proof -
      have "entry_ok (placed h e Tag sz (Links h)) x" "EntrySize (placed h e Tag sz (Links h)) x = EntrySize h x"
        "EntryTag (placed h e Tag sz (Links h)) x \<noteq> 0"
        using d(7) new by (auto simp: entry_ok_def placed_def)
      with entry_size_bound [OF ok(1), of x] show ?thesis by (simp add: ValidateHeapEntry_ok)
    qed
    ultimately show ?thesis unfolding A_def [symmetric] using yes(4) links(1) \<open>?t \<noteq> 0\<close>
      by (intro disjI2 exI [of _ ?t] exI [of _ e] exI [of _ "placed h e Tag sz (Links h)"] exI [of _ links])
        (simp add: h2_def placed_def)
  qed
qed


text \<open>
  The search. The previous entry and the current one are neighbours in the list, or one of them is
  the list head. The pointer \<open>pPreviousHeapEntry\<close> belongs to the previous entry except right
  after the list head was skipped: then it is what \<open>pCurHeapEntry\<close> was before, the last entry, for
  which the gap has a negative size, or NULL, on which the code asserts.
\<close>

definition search_inv ::
    "heap_state \<Rightarrow> PVOID list \<Rightarrow> PVOID \<Rightarrow> PVOID \<Rightarrow> PVOID \<Rightarrow> PVOID \<Rightarrow> bool" where
  "search_inv h es prev prevHE cur curHE \<longleftrightarrow>
     (\<exists>us x y vs. es = us @ x # y # vs \<and> prev = entry_link x \<and> cur = entry_link y \<and>
        (prevHE = x \<or> prevHE = NULL \<or> us = [] \<and> prevHE = last es)) \<or>
     prev = entry_link (last es) \<and> cur = HeapAllocations h \<and> curHE \<in> {NULL, last es} \<or>
     prev = HeapAllocations h \<and> cur = entry_link (hd es) \<and> curHE \<in> {NULL, last es}"

lemma Flink_next: "dll st h (us @ x # vs) \<Longrightarrow> Flink st x = hd (vs @ [h])"
  using dll_ends [of st x "vs @ h # us"] dll_rotate [of st h us x vs] by (cases vs) auto

lemma Flink_link:
  assumes "heap_ok h (us @ x # vs)"
  shows "Flink (Links h) (entry_link x) = (if vs = [] then HeapAllocations h else entry_link (hd vs))"
  using Flink_next [of "Links h" "HeapAllocations h" "map entry_link us" "entry_link x" "map entry_link vs"]
    heap_okD(3) [OF assms] by (cases vs) simp_all

lemma search_inv_next:
  assumes "heap_ok h es" and "es = us @ y # vs"
  shows "search_inv h es (entry_link y) y (Flink (Links h) (entry_link y)) y"
  using assms Flink_link [of h us y vs]
  by (cases vs) (auto simp: search_inv_def)

lemma search_inv_skip:
  assumes ok: "heap_ok h es" "es \<noteq> []" and inv: "search_inv h es prev prevHE cur curHE"
    and skip: "cur = HeapAllocations h \<or> prev = HeapAllocations h"
  shows "search_inv h es cur curHE (Flink (Links h) cur) curHE"
proof -
  have d: "dll (Links h) (HeapAllocations h) (map entry_link es)" by (rule heap_okD [OF ok(1)])
  then have nohead: "HeapAllocations h \<notin> entry_link ` set es" using dll_not_null by fastforce
  with inv skip consider (head) "cur = HeapAllocations h" "curHE \<in> {NULL, last es}"
    | (first) "cur = entry_link (hd es)" "curHE \<in> {NULL, last es}"
    by (auto simp: search_inv_def)
  then show ?thesis
  proof cases
    case head
    have "Flink (Links h) (HeapAllocations h) = entry_link (hd es)"
      using dll_ends [OF d] ok(2) by (cases es) simp_all
    with head show ?thesis by (simp add: search_inv_def)
  next
    case first
    obtain x xs where es: "es = x # xs" using ok(2) by (cases es) auto
    have fl: "Flink (Links h) cur = (if xs = [] then HeapAllocations h else entry_link (hd xs))"
      using Flink_link [of h "[]" x xs] ok(1) first es by simp
    show ?thesis
    proof (cases xs)
      case Nil
      with first es fl show ?thesis by (simp add: search_inv_def)
    next
      case (Cons y ys)
      have "\<exists>us x' y' vs. es = us @ x' # y' # vs \<and> cur = entry_link x' \<and>
          Flink (Links h) cur = entry_link y' \<and>
          (curHE = x' \<or> curHE = NULL \<or> us = [] \<and> curHE = last es)"
        by (rule exI [of _ "[]"], rule exI [of _ x], rule exI [of _ y], rule exI [of _ ys])
          (use first es fl Cons in auto)
      then show ?thesis by (simp add: search_inv_def)
    qed
  qed
qed

lemma stale_gap:
  assumes "heap_ok h es" and "y \<in> set es"
  shows "sint (y - (last es + 0x20 + ucast (EntrySize h (last es)) + 4)) < 0"
proof -
  have l: "last es \<in> set es" using assms(2) by (cases es) auto
  note d = heap_okD [OF assms(1)]
  have "unat y < block_end h (last es)"
  proof -
    have "unat y < block_end h y" by (rule block_end_less)
    also have "\<dots> \<le> block_end h (last es)"
      using d(7) assms by (auto simp: heap_ok_def split: if_splits)
    finally show ?thesis .
  qed
  moreover have "block_end h (last es) \<le> unat y + 2 ^ 62"
  proof -
    have "block_end h (last es) \<le> heap_top h" using d(4,7) l by (auto intro: order_trans)
    moreover have "heap_start h \<le> unat y" using d(7) assms(2) by simp
    ultimately show ?thesis using d(1) by (simp add: heap_bounds_def heap_top_def heap_start_def)
  qed
  moreover define A where "A = last es + 0x20 + ucast (EntrySize h (last es)) + 4"
  ultimately have "unat y < unat A" "unat A \<le> unat y + 2 ^ 62"
    unfolding A_def unat_behind_block [OF assms(1) l] by simp_all
  then have "sint (y - A) = int (unat y) - int (unat A)" by (intro sint_diff_near) simp_all
  also have "\<dots> < 0" using \<open>unat y < unat A\<close> by (simp only: diff_less_0_iff_less of_nat_less_iff)
  finally show ?thesis unfolding A_def .
qed

lemma heap_search_sound:
  assumes "heap_search h Tag sz al req prev prevHE cur curHE = Some r"
  shows "heap_ok h es \<Longrightarrow> restart_ok h es \<Longrightarrow> es \<noteq> [] \<Longrightarrow> Tag \<noteq> 0 \<Longrightarrow> al \<noteq> 0 \<Longrightarrow>
    unat sz + 0x24 \<le> unat (HeapSizeRemaining (Header h)) \<Longrightarrow> sint req = int (unat sz + 0x24) \<Longrightarrow>
    search_inv h es prev prevHE cur curHE \<Longrightarrow>
    case r of None \<Rightarrow> True | Some (e, h') \<Rightarrow> allocated h h' es e sz Tag al"
  using assms
proof (induction h Tag sz al req prev prevHE cur curHE r rule: heap_search.raw_induct [rotated, consumes 1, case_names 1])
  case (1 search h Tag sz al req prev prevHE cur curHE r)
  note IH = 1(1) and body = 1(2) and ok = 1(3-5) and args = 1(6,7) and fits = 1(8) and req = 1(9) and inv = 1(10)
  note again = IH [OF _ ok args fits req]
  have nohead: "HeapAllocations h \<notin> entry_link ` set es"
    using heap_okD(3) [OF ok(1)] dll_not_null by fastforce
  show ?case
  proof (cases "cur = HeapAllocations h \<or> prev = HeapAllocations h")
    case True
    then show ?thesis
      using body again search_inv_skip [OF ok(1,3) inv] by (auto split: if_splits)
  next
    case False
    with inv obtain us x y vs where es: "es = us @ x # y # vs" and prev: "prev = entry_link x"
      and cur: "cur = entry_link y" and he: "prevHE = x \<or> prevHE = NULL \<or> us = [] \<and> prevHE = last es"
      unfolding search_inv_def by blast
    have "next": "search_inv h es cur y (Flink (Links h) cur) y"
      unfolding cur by (rule search_inv_next [OF ok(1), of "us @ [x]" y vs]) (simp add: es)
    have body': "(if EntryToRestartSearch (Header h) \<noteq> cur then do {
          ASSERT (NULL \<noteq> prevHE);
          let start = prevHE + 0x20 + ucast (EntrySize h prevHE) + 4;
          if sint (y - start) \<ge> sint req then do {
            (t, e, h') \<leftarrow> InitHeapEntry h start Tag sz al False (y - start);
            if t = 0 then search h Tag sz al req cur y (Flink (Links h) cur) y
            else do {
              valid \<leftarrow> ValidateHeapEntry h' prevHE (EntryTag h' prevHE);
              ASSERT valid;
              links \<leftarrow> InsertHeadList (Links h') prev (entry_link e);
              Some (Some (e, h'\<lparr>Links := links, Header := (Header h')\<lparr>EntryToRestartSearch := entry_link e\<rparr>\<rparr>))
            }
          }
          else search h Tag sz al req cur y (Flink (Links h) cur) y
        } else Some None) = Some r"
    proof -
      have cr: "CONTAINING_RECORD cur = y" by (simp add: cur)
      show ?thesis using body unfolding if_not_P [OF False] cr Let_def .
    qed
    show ?thesis
    proof (cases "EntryToRestartSearch (Header h) = cur \<or> prevHE = NULL")
      case True
      with body' show ?thesis by (auto simp: Let_def ASSERT_bind split: if_splits)
    next
      case go: False
      define A where "A = prevHE + 0x20 + ucast (EntrySize h prevHE) + 4"
      have rest: "case r of None \<Rightarrow> True | Some (e, h') \<Rightarrow> allocated h h' es e sz Tag al"
        if "search h Tag sz al req cur y (Flink (Links h) cur) y = Some r"
        using that by (rule again) (rule "next")
      show ?thesis
      proof (cases "sint (y - A) \<ge> sint req")
        case False
        with body' go rest show ?thesis by (simp add: Let_def A_def)
      next
        case True
        have x: "prevHE = x"
        proof (rule ccontr)
          assume "prevHE \<noteq> x"
          with he go have "prevHE = last es" by blast
          then have "sint (y - A) < 0" using stale_gap [OF ok(1), of y] by (simp add: A_def es)
          with True req show False by linarith
        qed
        have room: "int (unat sz + 0x24) \<le> sint (y - (x + 0x20 + ucast (EntrySize h x) + 4))"
          using True req unfolding A_def x by simp
        from heap_allocates_in_gap [OF ok(1,2) [unfolded es] args fits room]
        show ?thesis
        proof (elim disjE exE conjE)
          assume "InitHeapEntry h (x + 0x20 + ucast (EntrySize h x) + 4) Tag sz al False
              (y - (x + 0x20 + ucast (EntrySize h x) + 4)) =
            Some (0, x + 0x20 + ucast (EntrySize h x) + 4, h)"
          with body' go True rest show ?thesis unfolding A_def x by (simp add: Let_def)
        next
          fix t e h' links
          assume "InitHeapEntry h (x + 0x20 + ucast (EntrySize h x) + 4) Tag sz al False
              (y - (x + 0x20 + ucast (EntrySize h x) + 4)) = Some (t, e, h')" "t \<noteq> 0"
            "ValidateHeapEntry h' x (EntryTag h' x) = Some True"
            "InsertHeadList (Links h') (entry_link x) (entry_link e) = Some links"
            "allocated h (h'\<lparr>Links := links, Header := (Header h')\<lparr>EntryToRestartSearch := entry_link e\<rparr>\<rparr>)
              (us @ x # y # vs) e sz Tag al"
          with body' go True show ?thesis unfolding A_def x prev by (auto simp: Let_def es)
        qed
      qed
    qed
  qed
qed


lemma restart_successor:
  assumes ok: "heap_ok h es" "restart_ok h es" "es \<noteq> []"
  defines "prev \<equiv> Flink (Links h) (EntryToRestartSearch (Header h))"
  shows "search_inv h es prev (CONTAINING_RECORD prev) (Flink (Links h) prev) NULL"
proof -
  have d: "dll (Links h) (HeapAllocations h) (map entry_link es)" by (rule heap_okD [OF ok(1)])
  have first: "Flink (Links h) (HeapAllocations h) = entry_link (hd es)"
    using dll_ends [OF d] ok(3) by (cases es) simp_all
  have from_entry: "search_inv h es (entry_link y) y (Flink (Links h) (entry_link y)) NULL"
    if "es = us @ y # vs" for us y vs
    using that ok(1) Flink_link [of h us y vs] by (cases vs) (auto simp: search_inv_def)
  have "prev = HeapAllocations h \<or> (\<exists>y \<in> set es. prev = entry_link y)"
  proof (cases "EntryToRestartSearch (Header h) = HeapAllocations h")
    case True
    then show ?thesis using first ok(3) by (auto simp: prev_def)
  next
    case False
    then obtain us x vs where "es = us @ x # vs" "EntryToRestartSearch (Header h) = entry_link x"
      using ok(2) by (auto simp: restart_ok_def in_set_conv_decomp)
    then show ?thesis using Flink_link [of h us x vs] ok(1) by (cases vs) (auto simp: prev_def)
  qed
  then show ?thesis
  proof (elim disjE bexE)
    assume "prev = HeapAllocations h"
    then show ?thesis using first by (simp add: search_inv_def)
  next
    fix y assume "y \<in> set es" "prev = entry_link y"
    then show ?thesis using from_entry by (auto simp: in_set_conv_decomp)
  qed
qed

text \<open>
  The second half of the allocation: nothing was placed at the end of the heap.
\<close>

definition search_between ::
    "heap_state \<Rightarrow> DWORD \<Rightarrow> DWORD \<Rightarrow> DWORD \<Rightarrow> QWORD \<Rightarrow> QWORD \<Rightarrow> (STATUS \<times> PVOID \<times> heap_state) option" where
  "search_between h sz Tag al req rem =
     (if sint req > sint (HeapSizeRemaining (Header h) - rem - SIZEOF_HEAP_ENTRY)
      then Some (STATUS_HEAP_NO_MORE_MEMORY, NULL, h)
      else do {
        is_empty \<leftarrow> IsListEmpty (Links h) (HeapAllocations h);
        ASSERT (\<not> is_empty);
        let prev = Flink (Links h) (EntryToRestartSearch (Header h));
        found \<leftarrow> heap_search h Tag sz al req prev (CONTAINING_RECORD prev) (Flink (Links h) prev) NULL;
        (case found of
           None \<Rightarrow> Some (STATUS_HEAP_NO_MORE_MEMORY, NULL, h)
         | Some (e, h) \<Rightarrow> Some (STATUS_SUCCESS, e, h))
      })"

lemma required_fits:
  fixes sz :: DWORD
  assumes "heap_ok h es" and "ucast sz + 0x20 + 4 \<le> HeapSizeRemaining (Header h)"
  shows "unat sz + 0x24 \<le> unat (HeapSizeRemaining (Header h))"
    and "sint (ucast sz + 0x20 + 4 :: QWORD) = int (unat sz + 0x24)"
proof -
  have c: "(ucast sz + 0x20 + 4 :: QWORD) = 0x24 + ucast sz" by simp
  have "unat (HeapSizeRemaining (Header h)) < 2 ^ 32"
    using assms(1) by (simp add: heap_ok_def heap_bounds_def)
  have u: "unat (0x24 + ucast sz :: QWORD) = unat sz + 0x24"
    using unat_less_2p [of sz] by (subst unat_plus_simple) (simp_all add: unat_ucast_up)
  show fits: "unat sz + 0x24 \<le> unat (HeapSizeRemaining (Header h))"
    using assms(2) unfolding c word_le_nat_alt u .
  then show "sint (ucast sz + 0x20 + 4 :: QWORD) = int (unat sz + 0x24)"
    using required_size [of sz] \<open>_ < 2 ^ 32\<close> unfolding c by simp
qed

lemma search_between_sound:
  assumes ok: "heap_ok h es" "restart_ok h es" and args: "Tag \<noteq> 0" "al \<noteq> 0"
    and fits: "unat sz + 0x24 \<le> unat (HeapSizeRemaining (Header h))" "sint req = int (unat sz + 0x24)"
    and run: "search_between h sz Tag al req rem = Some (status, e, h')"
  shows "status = STATUS_HEAP_NO_MORE_MEMORY \<and> h' = h \<or>
    status = STATUS_SUCCESS \<and> allocated h h' es e sz Tag al"
proof (cases "sint req > sint (HeapSizeRemaining (Header h) - rem - SIZEOF_HEAP_ENTRY)")
  case True
  then show ?thesis using run by (simp add: search_between_def)
next
  case False
  define prev where "prev = Flink (Links h) (EntryToRestartSearch (Header h))"
  have "IsListEmpty (Links h) (HeapAllocations h) = Some (map entry_link es = [])"
    by (rule IsListEmpty_dll) (rule heap_okD [OF ok(1)])
  with run False obtain found where ne: "es \<noteq> []"
    and search: "heap_search h Tag sz al req prev (CONTAINING_RECORD prev) (Flink (Links h) prev) NULL = Some found"
    and res: "(case found of None \<Rightarrow> Some (STATUS_HEAP_NO_MORE_MEMORY, NULL, h)
        | Some (e, h) \<Rightarrow> Some (STATUS_SUCCESS, e, h)) = Some (status, e, h')"
    unfolding search_between_def if_not_P [OF False] prev_def Let_def by (auto simp: bind_Some_iff)
  have "case found of None \<Rightarrow> True | Some (e, h') \<Rightarrow> allocated h h' es e sz Tag al"
    by (rule heap_search_sound [OF search ok ne args fits])
      (unfold prev_def, rule restart_successor [OF ok ne])
  with res show ?thesis by (cases found) auto
qed

lemma heap_allocate_sound:
  assumes ok: "heap_ok h es" "restart_ok h es"
    and run: "heap_allocate h sz Tag al = Some (status, e, h')"
  shows "status \<in> {STATUS_INVALID_PARAMETER2, STATUS_INVALID_PARAMETER3, STATUS_HEAP_NO_MORE_MEMORY} \<and> h' = h \<or>
    status = STATUS_SUCCESS \<and> allocated h h' es e sz Tag (if al = 0 then HEAP_DEFAULT_ALIGNMENT else al)"
proof (cases "sz = 0 \<or> Tag = 0 \<or> ucast sz + 0x20 + 4 > HeapSizeRemaining (Header h)")
  case True
  then show ?thesis using run by (auto simp: heap_allocate_def Let_def split: if_splits)
next
  case False
  define g where "g = (if al = 0 then HEAP_DEFAULT_ALIGNMENT else al)"
  define rem where "rem = BaseAddress (Header h) + HeapSizeMaximum (Header h) - FreeAddress (Header h) - 0x20"
  define req where "req = (ucast sz + 0x20 + 4 :: QWORD)"
  have g: "g \<noteq> 0" and tag: "Tag \<noteq> 0" using False by (simp_all add: g_def)
  note sz = required_fits [OF ok(1), of sz]
  have fits: "unat sz + 0x24 \<le> unat (HeapSizeRemaining (Header h))" and req: "sint req = int (unat sz + 0x24)"
    using False sz unfolding req_def by (simp_all only: not_less de_Morgan_disj simp_thms)
  have guards: "sz \<noteq> 0" "\<not> req > HeapSizeRemaining (Header h)" using False by (simp_all only: req_def de_Morgan_disj simp_thms)
  define place where "place = (if sint req \<le> sint rem
      then InitHeapEntry h (FreeAddress (Header h)) Tag sz g True rem else Some (0, NULL, h))"
  have end_alloc: "(\<exists>p. place = Some (0, p, h)) \<or> (\<exists>t e h'. place = Some (t, e, h') \<and> t \<noteq> 0 \<and>
      allocated h (h'\<lparr>Header := (Header h')\<lparr>FreeAddress := t\<rparr>\<rparr>) es e sz Tag g)"
    using heap_allocates_at_end [OF ok tag g fits]
    unfolding place_def req rem_def by (cases "int (unat sz + 0x24) \<le> sint rem") (auto simp: rem_def)
  have body: "heap_allocate h sz Tag al = do {
      (t, e, h') \<leftarrow> place;
      if t \<noteq> 0 then Some (STATUS_SUCCESS, e, h'\<lparr>Header := (Header h')\<lparr>FreeAddress := t\<rparr>\<rparr>)
      else search_between h' sz Tag g req rem }"
    using guards tag unfolding heap_allocate_def Let_def place_def search_between_def
      g_def [symmetric] req_def [symmetric] rem_def [symmetric]
    by (simp only: if_False if_True not_False_eq_True)
  show ?thesis using end_alloc
  proof (elim disjE exE conjE)
    fix p assume "place = Some (0, p, h)"
    then have "search_between h sz Tag g req rem = Some (status, e, h')" using run body by simp
    from search_between_sound [OF ok tag g fits req this] show ?thesis
      by (auto simp: g_def split del: if_split)
  next
    fix t e1 h1
    assume "place = Some (t, e1, h1)" "t \<noteq> 0" "allocated h (h1\<lparr>Header := (Header h1)\<lparr>FreeAddress := t\<rparr>\<rparr>) es e1 sz Tag g"
    then show ?thesis using run body by (simp add: g_def)
  qed
qed

end
