(* ===== verification/HeapSpec.thy ===== *)
theory HeapSpec
  imports Heap
begin

text \<open>
  What the operations of the kernel heap promise, over the invariant \<open>heap_ok\<close> of the theory
  \<open>Heap\<close>: initialisation establishes it, allocation and freeing keep it, the data of the other
  blocks is untouched, a request that fits behind the last block succeeds, and freeing undoes an
  allocation.
\<close>

section \<open>Blocks do not overlap\<close>

definition data_kept :: "heap_state \<Rightarrow> heap_state \<Rightarrow> PVOID list \<Rightarrow> bool" where
  "data_kept h h' es \<longleftrightarrow> (\<forall>b \<in> set es. EntrySize h' b = EntrySize h b \<and> EntryTag h' b = EntryTag h b \<and>
     (\<forall>i < unat (EntrySize h b). Bytes h' (b + 0x20 + of_nat i) = Bytes h (b + 0x20 + of_nat i)))"

lemma sorted_wrt_pair:
  assumes "sorted_wrt P xs" and "a \<in> set xs" and "b \<in> set xs" and "a \<noteq> b"
  shows "P a b \<or> P b a"
  using assms by (induction xs) auto

lemma data_address:
  assumes "heap_ok h es" and "b \<in> set es" and "i < unat (EntrySize h b)"
  shows "unat (b + 0x20 + of_nat i) = unat b + 0x20 + i"
proof -
  have "block_end h b + 2 ^ 33 < 2 ^ 64"
    using heap_okD(4,5,7) [OF assms(1)] assms(2) by (meson add_le_mono1 le_less_trans order_trans)
  then have small: "unat b + 0x24 + unat (EntrySize h b) < 2 ^ 64"
    by (simp add: block_end_def block_size_def)
  have i: "unat (of_nat i :: QWORD) = i"
    using assms(3) unat_less_2p [of "EntrySize h b"] by (intro unat_of_nat_small) simp
  have b: "unat (b + 0x20) = unat b + 0x20" using small by (subst unat_plus_simple) simp_all
  show ?thesis using small assms(3) by (subst unat_plus_simple) (simp_all only: i b, simp_all)
qed

lemma other_block:
  assumes ok: "heap_ok h es" and ab: "a \<in> set es" "b \<in> set es" "a \<noteq> b" and i: "i < unat (EntrySize h b)"
  shows "\<not> b + 0x20 + of_nat i - a < 0x24 + ucast (EntrySize h a)"
    and "\<not> b + 0x20 + of_nat i - (a + 0x20) < ucast (EntrySize h a)"
proof -
  define A where "A = b + 0x20 + of_nat i"
  define s where "s = unat (EntrySize h a)"
  have A: "unat A = unat b + 0x20 + i" unfolding A_def by (rule data_address [OF ok ab(2) i])
  have s: "unat (0x24 + ucast (EntrySize h a) :: QWORD) = s + 0x24" "unat (ucast (EntrySize h a) :: QWORD) = s"
    using entry_size_bound(1) [OF ok ab(1)] block_size_word(2) [of "EntrySize h a"]
    by (simp_all add: s_def unat_ucast_up)
  have enda: "block_end h a = unat a + 0x24 + s" and endb: "unat b + 0x24 + i < block_end h b"
    using i by (simp_all add: block_end_def block_size_def s_def)
  have "block_end h a + 2 ^ 33 < 2 ^ 64"
    using heap_okD(4,5,7) [OF ok] ab(1) by (meson add_le_mono1 le_less_trans order_trans)
  then have small: "unat a + 0x24 + s < 2 ^ 64" by (simp add: enda)
  have a20: "unat (a + 0x20) = unat a + 0x20" using small by (subst unat_plus_simple) simp_all
  have "block_end h a \<le> unat b \<or> block_end h b \<le> unat a"
    using heap_okD(2) [OF ok] ab by (intro sorted_wrt_pair) (auto simp: blocks_ok_def)
  then have out: "unat A < unat a \<or> unat a + 0x24 + s \<le> unat A"
    using A enda endb by linarith
  show "\<not> b + 0x20 + of_nat i - a < 0x24 + ucast (EntrySize h a)"
  proof -
    have "unat (a + (0x24 + ucast (EntrySize h a))) = unat a + (s + 0x24)"
      using small by (subst unat_plus_simple) (simp_all only: s, simp_all)
    moreover have "unat a + unat (0x24 + ucast (EntrySize h a) :: QWORD) < 2 ^ LENGTH(64)"
      using small by (simp only: s) simp
    ultimately show ?thesis unfolding A_def [symmetric]
      using out by (subst sub_less_iff) (simp_all only: word_le_nat_alt word_less_nat_alt, linarith)
  qed
  show "\<not> b + 0x20 + of_nat i - (a + 0x20) < ucast (EntrySize h a)"
  proof -
    have "unat (a + 0x20 + ucast (EntrySize h a)) = unat a + 0x20 + s"
      using small by (subst unat_plus_simple) (simp_all only: s a20, simp_all)
    moreover have "unat (a + 0x20) + unat (ucast (EntrySize h a) :: QWORD) < 2 ^ LENGTH(64)"
      using small by (simp only: s a20) simp
    ultimately show ?thesis unfolding A_def [symmetric]
      using out by (subst sub_less_iff) (simp_all only: word_le_nat_alt word_less_nat_alt a20, linarith)
  qed
qed

section \<open>Initialisation\<close>

definition no_heap :: heap_state where
  "no_heap = \<lparr>Header = \<lparr>Magic = 0, HeapSizeMaximum = 0, HeapSizeRemaining = 0, BaseAddress = 0,
       FreeAddress = 0, HeapNumberOfAllocations = 0, EntryToRestartSearch = 0\<rparr>,
     EntryMagic = \<lambda>_. 0, EntryTag = \<lambda>_. 0, EntrySize = \<lambda>_. 0, EntryOffset = \<lambda>_. 0,
     TailMagic = \<lambda>_. 0, Links = \<lparr>Flink = \<lambda>_. 0, Blink = \<lambda>_. 0\<rparr>, Bytes = \<lambda>_. 0\<rparr>"

definition small_heap :: heap_state where
  "small_heap = snd (HeapInitializeSystem (\<lambda>_. 0x100000) no_heap 0x10000 0x5000)"

lemma small_heap_ok: "heap_ok small_heap []"
  and small_heap_restart: "restart_ok small_heap []"
proof -
  have h: "Header small_heap = \<lparr>Magic = HEAP_MAGIC, HeapSizeMaximum = 0x10000, HeapSizeRemaining = 0xFFB8,
      BaseAddress = 0x100000, FreeAddress = 0x100048, HeapNumberOfAllocations = 0, EntryToRestartSearch = 0x100038\<rparr>"
    "Links small_heap = InitializeListHead (Links no_heap) 0x100038"
    by (simp_all add: small_heap_def HeapInitializeSystem_def Let_def HeapAllocations_def)
  have "dll (Links small_heap) 0x100038 []" unfolding h by (rule InitializeListHead_dll) simp
  then show "heap_ok small_heap []"
    by (simp add: heap_ok_def h HeapAllocations_def heap_bounds_def blocks_ok_def heap_start_def heap_top_def)
  show "restart_ok small_heap []" by (simp add: restart_ok_def h HeapAllocations_def)
qed

lemma small_heap_room: "unat (FreeAddress (Header small_heap)) = 0x100048" "heap_top small_heap = 0x110000"
    "unat (HeapSizeRemaining (Header small_heap)) = 0xFFB8"
  by (simp_all add: small_heap_def HeapInitializeSystem_def Let_def HeapAllocations_def heap_top_def)

text \<open>
  C9. Initialising the heap on a region of at least \<open>HEAP_MINIMUM_SIZE\<close> bytes (and less than
  4 GB, below the top of the address space) establishes the invariant with no block: all but the
  header is free, the list is empty, and the search restarts at the list head. Without a variable for
  the result nothing is done.
\<close>

theorem HeapInitializeSystem_establishes:
  assumes "HEAP_MINIMUM_SIZE \<le> n" and "unat n < 2 ^ 32" and "VmmAllocRegion n \<noteq> NULL"
    and "unat (VmmAllocRegion n) + unat n + 2 ^ 33 < 2 ^ 64"
  shows "if HeapHeader = NULL
    then HeapInitializeSystem VmmAllocRegion h n HeapHeader = (STATUS_INVALID_PARAMETER2, h)
    else \<exists>h'. HeapInitializeSystem VmmAllocRegion h n HeapHeader = (STATUS_SUCCESS, h') \<and>
      heap_ok h' [] \<and> restart_ok h' [] \<and>
      BaseAddress (Header h') = VmmAllocRegion n \<and> HeapSizeMaximum (Header h') = n"
proof -
  define b where "b = VmmAllocRegion n"
  have b: "b \<noteq> NULL" "unat b + unat n + 2 ^ 33 < 2 ^ 64" using assms by (simp_all add: b_def)
  define h' where "h' = snd (HeapInitializeSystem VmmAllocRegion h n 1)"
  have run: "HeapInitializeSystem VmmAllocRegion h n HeapHeader =
      (if HeapHeader = NULL then (STATUS_INVALID_PARAMETER2, h) else (STATUS_SUCCESS, h'))"
    using leD [OF assms(1)] b(1) by (simp add: h'_def HeapInitializeSystem_def Let_def b_def)
  have h': "Header h' = \<lparr>Magic = HEAP_MAGIC, HeapSizeMaximum = n, HeapSizeRemaining = n - 0x48,
      BaseAddress = b, FreeAddress = b + 0x48, HeapNumberOfAllocations = 0, EntryToRestartSearch = b + 0x38\<rparr>"
    "Links h' = InitializeListHead (Links h) (b + 0x38)"
    using leD [OF assms(1)] b(1) by (simp_all add: h'_def HeapInitializeSystem_def Let_def b_def HeapAllocations_def)
  have n: "0x10000 \<le> unat n" using assms(1) by (simp add: word_le_nat_alt)
  have u: "unat (b + 0x48) = unat b + 0x48" "unat (b + 0x38) = unat b + 0x38"
    using b(2) by (subst unat_plus_simple; simp)+
  have r: "unat (n - 0x48) = unat n - 0x48"
    using n by (subst unat_sub) (simp_all add: word_le_nat_alt)
  have "b + 0x38 \<noteq> NULL" using u(2) by (metis add_is_0 unat_0 zero_neq_numeral)
  then have "dll (Links h') (HeapAllocations h') []"
    using InitializeListHead_dll by (simp add: h' HeapAllocations_def)
  moreover have "0 < unat b" using b(1) by (simp add: unat_gt_0)
  ultimately have "heap_ok h' []"
    using b(2) n assms(2) u(1) r
    by (simp add: heap_ok_def h' heap_bounds_def blocks_ok_def heap_start_def heap_top_def)
  moreover from this have "restart_ok h' []" "BaseAddress (Header h') = b" "HeapSizeMaximum (Header h') = n"
    by (simp_all add: h' restart_ok_def HeapAllocations_def)
  ultimately show ?thesis using run by (auto simp: b_def)
qed

theorem HeapInitializeSystem_establishes_witness:
  "\<exists>h'. HeapInitializeSystem (\<lambda>_. 0x100000) no_heap 0x10000 0x5000 = (STATUS_SUCCESS, h') \<and>
    heap_ok h' [] \<and> restart_ok h' [] \<and>
    BaseAddress (Header h') = 0x100000 \<and> HeapSizeMaximum (Header h') = 0x10000"
  using HeapInitializeSystem_establishes [where n = "0x10000" and VmmAllocRegion = "\<lambda>_. 0x100000" and h = no_heap and HeapHeader = "0x5000"] by simp


section \<open>Allocation\<close>

text \<open>
  A block \<open>e\<close> has been added to the blocks \<open>es\<close> and the caller got its data address \<open>p\<close>.
\<close>

definition new_block ::
    "heap_state \<Rightarrow> heap_state \<Rightarrow> PVOID list \<Rightarrow> PVOID \<Rightarrow> PVOID list \<Rightarrow> DWORD \<Rightarrow> DWORD \<Rightarrow> bool" where
  "new_block h h' es p es' sz Tag \<longleftrightarrow>
     (\<exists>us vs. es = us @ vs \<and> es' = us @ (p - 0x20) # vs) \<and> p \<noteq> NULL \<and> p - 0x20 \<notin> set es \<and>
     EntrySize h' (p - 0x20) = sz \<and> EntryTag h' (p - 0x20) = Tag \<and>
     heap_ok h' es' \<and> restart_ok h' es' \<and> data_kept h h' es \<and>
     BaseAddress (Header h') = BaseAddress (Header h) \<and>
     HeapSizeMaximum (Header h') = HeapSizeMaximum (Header h)"

lemma heap_ok_bytes [simp]: "heap_ok (h\<lparr>Bytes := m\<rparr>) es = heap_ok h es"
  and restart_ok_bytes [simp]: "restart_ok (h\<lparr>Bytes := m\<rparr>) es = restart_ok h es"
proof -
  have "block_size (h\<lparr>Bytes := m\<rparr>) = block_size h" "block_end (h\<lparr>Bytes := m\<rparr>) = block_end h"
    "entry_ok (h\<lparr>Bytes := m\<rparr>) = entry_ok h"
    by (simp_all add: fun_eq_iff block_size_def block_end_def entry_ok_def)
  then show "heap_ok (h\<lparr>Bytes := m\<rparr>) es = heap_ok h es" "restart_ok (h\<lparr>Bytes := m\<rparr>) es = restart_ok h es"
    by (simp_all add: heap_ok_def heap_bounds_def blocks_ok_def heap_start_def heap_top_def
      HeapAllocations_def restart_ok_def)
qed

lemma entry_ok_header [simp]: "entry_ok (h\<lparr>Header := x\<rparr>) e = entry_ok h e"
  by (simp add: entry_ok_def)

lemma unat_data_start:
  assumes "heap_ok h es" and "e \<in> set es"
  shows "unat (e + 0x20) = unat e + 0x20" and "e + 0x20 \<noteq> NULL"
proof -
  have "block_end h e + 2 ^ 33 < 2 ^ 64"
    using heap_okD(4,5,7) [OF assms(1)] assms(2) by (meson add_le_mono1 le_less_trans order_trans)
  then show u: "unat (e + 0x20) = unat e + 0x20"
    by (subst unat_plus_simple) (simp_all add: block_end_def block_size_def)
  show "e + 0x20 \<noteq> NULL" using u by (metis add_is_0 unat_0 zero_neq_numeral)
qed

lemma new_block_cleared:
  assumes "allocated h h1 es e sz Tag al"
  defines "h2 \<equiv> h1\<lparr>Bytes := memset (Bytes h1) (e + 0x20) 0 sz\<rparr>"
  shows "\<exists>es'. new_block h h1 es (e + 0x20) es' sz Tag \<and> new_block h h2 es (e + 0x20) es' sz Tag"
    and "\<forall>i < unat sz. Bytes h2 (e + 0x20 + of_nat i) = 0"
proof -
  from assms(1) obtain us vs where es: "es = us @ vs" and ok: "heap_ok h1 (us @ e # vs)" "restart_ok h1 (us @ e # vs)"
    and new: "e \<notin> set es"
    and same: "EntrySize h1 = (EntrySize h)(e := sz)" "EntryTag h1 = (EntryTag h)(e := Tag)" "Bytes h1 = Bytes h"
      "BaseAddress (Header h1) = BaseAddress (Header h)" "HeapSizeMaximum (Header h1) = HeapSizeMaximum (Header h)"
    unfolding allocated_def by blast
  have nn: "e + 0x20 \<noteq> NULL" using unat_data_start(2) [OF ok(1)] by simp
  have bytes: "Bytes h2 = (\<lambda>p. if p - (e + 0x20) < ucast sz then 0 else Bytes h p)"
    unfolding h2_def memset_spec [OF nn] same(3) by simp
  have kept1: "data_kept h h1 es" using same new by (auto simp: data_kept_def)
  have "Bytes h2 (b + 0x20 + of_nat i) = Bytes h (b + 0x20 + of_nat i)"
    if "b \<in> set es" "i < unat (EntrySize h b)" for b i
  proof -
    have "\<not> b + 0x20 + of_nat i - (e + 0x20) < ucast (EntrySize h1 e)"
      using that new es by (intro other_block(2) [OF ok(1)]) (auto simp: same)
    then show ?thesis by (simp only: bytes same fun_upd_same if_False)
  qed
  then have kept2: "data_kept h h2 es" using kept1 by (simp add: data_kept_def h2_def)
  have "new_block h h1 es (e + 0x20) (us @ e # vs) sz Tag"
    using es ok new same nn kept1 by (auto simp: new_block_def)
  moreover have "new_block h h2 es (e + 0x20) (us @ e # vs) sz Tag"
    using es ok new same nn kept2 by (auto simp: new_block_def h2_def)
  ultimately show "\<exists>es'. new_block h h1 es (e + 0x20) es' sz Tag \<and> new_block h h2 es (e + 0x20) es' sz Tag" by blast
  show "\<forall>i < unat sz. Bytes h2 (e + 0x20 + of_nat i) = 0"
  proof (intro allI impI)
    fix i assume i: "i < unat sz"
    then have "unat (of_nat i :: QWORD) = i"
      using unat_less_2p [of sz] by (intro unat_of_nat_small) simp
    then have lt: "(of_nat i :: QWORD) < ucast sz" using i by (simp add: word_less_nat_alt unat_ucast_up)
    have "e + 0x20 + of_nat i - (e + 0x20) = (of_nat i :: QWORD)" by (rule add_diff_cancel_left')
    then show "Bytes h2 (e + 0x20 + of_nat i) = 0"
      using lt by (simp only: bytes if_True)
  qed
qed

lemma allocated_offset: "allocated h h' es e sz Tag al \<Longrightarrow> EntryOffset h' e = 0x20"
  by (simp add: allocated_def)

lemma HeapAllocatePoolWithTag_success:
  assumes "heap_allocate h sz Tag al = Some (STATUS_SUCCESS, e, h1)" and "allocated h h1 es e sz Tag g"
  shows "\<exists>h' es'. HeapAllocatePoolWithTag h Flags sz Tag al = Some (e + 0x20, h') \<and>
    new_block h h' es (e + 0x20) es' sz Tag \<and>
    (IsFlagOn Flags PoolAllocateZeroMemory \<longrightarrow> (\<forall>i < unat sz. Bytes h' (e + 0x20 + of_nat i) = 0))"
proof -
  obtain es' where nb: "new_block h h1 es (e + 0x20) es' sz Tag"
    "new_block h (h1\<lparr>Bytes := memset (Bytes h1) (e + 0x20) 0 sz\<rparr>) es (e + 0x20) es' sz Tag"
    using new_block_cleared(1) [OF assms(2)] by blast
  have nn: "e + 0x20 \<noteq> NULL" using nb(1) by (simp add: new_block_def)
  show ?thesis
    using nb nn new_block_cleared(2) [OF assms(2)] assms(1) allocated_offset [OF assms(2)]
    by (cases "IsFlagOn Flags PoolAllocateZeroMemory")
      (auto simp: HeapAllocatePoolWithTag_def Let_def ASSERT_bind)
qed

lemma heap_allocate_succeeds:
  assumes ok: "heap_ok h es" "restart_ok h es" and args: "sz \<noteq> 0" "Tag \<noteq> 0"
    and fits: "unat (FreeAddress (Header h)) + 0x44 + unat sz +
      unat (if al = 0 then HEAP_DEFAULT_ALIGNMENT else al) \<le> heap_top h"
    and room: "unat sz + 0x24 \<le> unat (HeapSizeRemaining (Header h))"
  shows "\<exists>e h1. heap_allocate h sz Tag al = Some (STATUS_SUCCESS, e, h1) \<and>
    allocated h h1 es e sz Tag (if al = 0 then HEAP_DEFAULT_ALIGNMENT else al)"
proof -
  define g where "g = (if al = 0 then HEAP_DEFAULT_ALIGNMENT else al)"
  define rem where "rem = BaseAddress (Header h) + HeapSizeMaximum (Header h) - FreeAddress (Header h) - 0x20"
  have g: "g \<noteq> 0" by (simp add: g_def)
  have rem: "sint rem = int (heap_top h) - int (unat (FreeAddress (Header h)) + 0x20)"
    using remaining_until_end(1) [OF ok(1)] unfolding rem_def .
  have f: "unat (FreeAddress (Header h)) + 0x44 + unat sz + unat g \<le> heap_top h"
    using fits unfolding g_def .
  have req: "int (unat sz + 0x24) \<le> sint rem" "unat sz + 0x24 + unat g \<le> unat rem"
  proof -
    show "int (unat sz + 0x24) \<le> sint rem" using f rem by linarith
    then have "int (unat rem) = sint rem"
      using remaining_until_end(2) [OF ok(1)] unfolding rem_def by linarith
    then show "unat sz + 0x24 + unat g \<le> unat rem" using f rem by linarith
  qed
  obtain t e h1 where placed: "InitHeapEntry h (FreeAddress (Header h)) Tag sz g True rem = Some (t, e, h1)"
    and t: "t \<noteq> 0" and new: "allocated h (h1\<lparr>Header := (Header h1)\<lparr>FreeAddress := t\<rparr>\<rparr>) es e sz Tag g"
    using heap_allocates_at_end [OF ok args(2) g room] req unfolding rem_def by auto
  have small: "unat sz + 0x24 < 2 ^ 32" using room ok(1) by (simp add: heap_ok_def heap_bounds_def)
  have c: "(ucast sz + 0x20 + 4 :: QWORD) = 0x24 + ucast sz" by simp
  have guards: "\<not> ucast sz + 0x20 + 4 > HeapSizeRemaining (Header h)"
      "sint (ucast sz + 0x20 + 4 :: QWORD) \<le> sint rem"
    unfolding c required_size [OF small] word_less_nat_alt block_size_word(2) [OF small]
    using room req(1) by simp_all
  have "heap_allocate h sz Tag al = Some (STATUS_SUCCESS, e, h1\<lparr>Header := (Header h1)\<lparr>FreeAddress := t\<rparr>\<rparr>)"
    unfolding heap_allocate_def Let_def g_def [symmetric] rem_def [symmetric]
      if_not_P [OF args(1)] if_not_P [OF args(2)] if_not_P [OF guards(1)] if_P [OF guards(2)] placed
    using t by simp
  then show ?thesis using new unfolding g_def by blast
qed

lemma heap_allocate_refuses:
  assumes ok: "heap_ok h es" and args: "sz \<noteq> 0" "Tag \<noteq> 0"
    and no_gaps: "unat (FreeAddress (Header h)) + unat (HeapSizeRemaining (Header h)) = heap_top h"
    and big: "heap_top h < unat (FreeAddress (Header h)) + 0x44 + unat sz"
  shows "heap_allocate h sz Tag al = Some (STATUS_HEAP_NO_MORE_MEMORY, NULL, h)"
proof -
  define rem where "rem = BaseAddress (Header h) + HeapSizeMaximum (Header h) - FreeAddress (Header h) - 0x20"
  define req :: QWORD where "req = ucast sz + SIZEOF_HEAP_ENTRY + SIZEOF_HEAP_TAIL"
  have c: "req = 0x24 + ucast sz" by (simp add: req_def)
  have u: "unat req = unat sz + 0x24"
    using unat_less_2p [of sz] unfolding c by (subst unat_plus_simple) (simp_all add: unat_ucast_up)
  note d = heap_okD [OF ok]
  have top: "unat (BaseAddress (Header h) + HeapSizeMaximum (Header h)) = heap_top h"
    using d(5) by (subst unat_plus_simple) (simp_all add: heap_top_def)
  have "unat (FreeAddress (Header h) + HeapSizeRemaining (Header h)) = heap_top h"
    using no_gaps d(5) by (subst unat_plus_simple) simp_all
  then have "BaseAddress (Header h) + HeapSizeMaximum (Header h) = FreeAddress (Header h) + HeapSizeRemaining (Header h)"
    using top by (simp add: word_unat_eq_iff)
  then have zero: "HeapSizeRemaining (Header h) - rem - 0x20 = 0" by (simp add: rem_def)
  show ?thesis
  proof (cases "req > HeapSizeRemaining (Header h)")
    case True
    then show ?thesis
      unfolding heap_allocate_def Let_def req_def [symmetric] if_not_P [OF args(1)] if_not_P [OF args(2)] by simp
  next
    case False
    have small: "unat sz + 0x24 < 2 ^ 32"
      using False u ok by (simp add: word_less_nat_alt heap_ok_def heap_bounds_def)
    have s: "sint req = int (unat sz + 0x24)" unfolding c by (rule required_size [OF small])
    have g: "\<not> sint req \<le> sint rem"
      using remaining_until_end(1) [OF ok] big unfolding s rem_def by linarith
    have z: "sint req > sint (HeapSizeRemaining (Header h) - rem - 0x20)" unfolding zero s sint_0 by linarith
    show ?thesis
      unfolding heap_allocate_def Let_def req_def [symmetric] rem_def [symmetric]
        if_not_P [OF args(1)] if_not_P [OF args(2)] if_not_P [OF False] if_not_P [OF g]
      using z by simp
  qed
qed

text \<open>
  C10. An allocation that returns either returns NULL and leaves the heap as it was, or it returns
  the data address of a new block: aligned as asked (to 16 bytes by default), of the size and tag
  asked for, at its place in the ordered list of blocks, apart from every other block, whose sizes,
  tags and data are unchanged; all zero if that was asked for. The invariant is kept in both cases.
\<close>

theorem HeapAllocatePoolWithTag_correct:
  assumes ok: "heap_ok h es" "restart_ok h es"
    and run: "HeapAllocatePoolWithTag h Flags sz Tag al = Some (p, h')"
  shows "p = NULL \<and> h' = h \<and> \<not> IsFlagOn Flags PoolAllocatePanicIfFail \<or>
    (\<exists>es'. new_block h h' es p es' sz Tag \<and>
      IsAddressAligned p (ucast (if al = 0 then HEAP_DEFAULT_ALIGNMENT else al)) \<and>
      (IsFlagOn Flags PoolAllocateZeroMemory \<longrightarrow> (\<forall>i < unat sz. Bytes h' (p + of_nat i) = 0)))"
proof -
  obtain status e h1 where alloc: "heap_allocate h sz Tag al = Some (status, e, h1)"
    using run by (auto simp: HeapAllocatePoolWithTag_def bind_Some_iff)
  have run': "(SUCCEEDED status \<or> \<not> IsFlagOn Flags PoolAllocatePanicIfFail \<and> p = NULL \<and> h' = h1)"
    using run alloc by (auto simp: HeapAllocatePoolWithTag_def Let_def ASSERT_bind split: if_splits)
  from heap_allocate_sound [OF ok alloc] show ?thesis
  proof (elim disjE conjE)
    assume "status \<in> {STATUS_INVALID_PARAMETER2, STATUS_INVALID_PARAMETER3, STATUS_HEAP_NO_MORE_MEMORY}" "h1 = h"
    then show ?thesis using run' by (auto simp: SUCCEEDED_def status_defs FAIL_MASK_def)
  next
    assume st: "status = STATUS_SUCCESS"
      and new: "allocated h h1 es e sz Tag (if al = 0 then HEAP_DEFAULT_ALIGNMENT else al)"
    have aligned: "IsAddressAligned (e + 0x20) (ucast (if al = 0 then HEAP_DEFAULT_ALIGNMENT else al))"
      using new unfolding allocated_def by blast
    from HeapAllocatePoolWithTag_success [OF alloc [unfolded st] new, of Flags] run
    show ?thesis using aligned by (intro disjI2) auto
  qed
qed

theorem HeapAllocatePoolWithTag_correct_witness:
  "\<exists>p h' es'. HeapAllocatePoolWithTag small_heap PoolAllocateZeroMemory 100 7 0 = Some (p, h') \<and>
    new_block small_heap h' [] p es' 100 7 \<and> IsAddressAligned p 16 \<and> (\<forall>i < 100. Bytes h' (p + of_nat i) = 0)"
proof -
  obtain e h1 where "heap_allocate small_heap 100 7 0 = Some (STATUS_SUCCESS, e, h1)"
    "allocated small_heap h1 [] e 100 7 (if (0 :: DWORD) = 0 then HEAP_DEFAULT_ALIGNMENT else 0)"
    using heap_allocate_succeeds [OF small_heap_ok small_heap_restart, where sz = 100 and Tag = 7 and al = 0]
      small_heap_room by auto
  from HeapAllocatePoolWithTag_success [OF this, of PoolAllocateZeroMemory]
  obtain p h' where run: "HeapAllocatePoolWithTag small_heap PoolAllocateZeroMemory 100 7 0 = Some (p, h')"
    "p \<noteq> NULL" by (auto simp: new_block_def)
  from HeapAllocatePoolWithTag_correct [OF small_heap_ok small_heap_restart run(1)] run
  show ?thesis by (auto simp: IsFlagOn_def)
qed

text \<open>
  C11. When a request is certain to succeed: if the bytes behind the last block suffice for the size,
  the largest padding that the alignment can ask for, the tail and \<^emph>\<open>two\<close> headers, the call returns,
  whatever the flags, with a new block. One header would do, but the code takes its size off the rest
  of the heap and then counts it again as part of the block. The second header is not a mere
  precaution of the statement: as long as the heap has no gaps, a request that leaves no room for it is
  refused and nothing is changed (the system halts if the caller asked for that), although the block
  itself may fit.
\<close>

theorem HeapAllocatePoolWithTag_succeeds:
  assumes ok: "heap_ok h es" "restart_ok h es" and args: "sz \<noteq> 0" "Tag \<noteq> 0"
  shows "(unat (FreeAddress (Header h)) + 0x44 + unat sz +
        unat (if al = 0 then HEAP_DEFAULT_ALIGNMENT else al) \<le> heap_top h \<and>
      unat sz + 0x24 \<le> unat (HeapSizeRemaining (Header h)) \<longrightarrow>
      (\<exists>p h' es'. HeapAllocatePoolWithTag h Flags sz Tag al = Some (p, h') \<and> new_block h h' es p es' sz Tag)) \<and>
    (unat (FreeAddress (Header h)) + unat (HeapSizeRemaining (Header h)) = heap_top h \<and>
      heap_top h < unat (FreeAddress (Header h)) + 0x44 + unat sz \<longrightarrow>
      HeapAllocatePoolWithTag h Flags sz Tag al =
        (if IsFlagOn Flags PoolAllocatePanicIfFail then None else Some (NULL, h)))"
proof (intro conjI impI; elim conjE)
  assume "unat (FreeAddress (Header h)) + 0x44 + unat sz +
        unat (if al = 0 then HEAP_DEFAULT_ALIGNMENT else al) \<le> heap_top h"
    "unat sz + 0x24 \<le> unat (HeapSizeRemaining (Header h))"
  from heap_allocate_succeeds [OF ok args this] obtain e h1 where
    "heap_allocate h sz Tag al = Some (STATUS_SUCCESS, e, h1)"
    "allocated h h1 es e sz Tag (if al = 0 then HEAP_DEFAULT_ALIGNMENT else al)" by blast
  from HeapAllocatePoolWithTag_success [OF this, of Flags]
  show "\<exists>p h' es'. HeapAllocatePoolWithTag h Flags sz Tag al = Some (p, h') \<and> new_block h h' es p es' sz Tag" by blast
next
  assume "unat (FreeAddress (Header h)) + unat (HeapSizeRemaining (Header h)) = heap_top h"
    "heap_top h < unat (FreeAddress (Header h)) + 0x44 + unat sz"
  from heap_allocate_refuses [OF ok(1) args this]
  show "HeapAllocatePoolWithTag h Flags sz Tag al =
        (if IsFlagOn Flags PoolAllocatePanicIfFail then None else Some (NULL, h))"
    by (simp add: HeapAllocatePoolWithTag_def SUCCEEDED_def status_defs FAIL_MASK_def ASSERT_bind)
qed

text \<open>
  In a new heap of 64 KB, 100 bytes are there; \<open>0xFF94\<close> bytes are not, although with a header and a tail
  they are exactly the \<open>0xFFB8\<close> bytes behind the header of the heap.
\<close>

theorem HeapAllocatePoolWithTag_succeeds_witness:
  "(\<exists>p h' es'. HeapAllocatePoolWithTag small_heap 0 100 7 0 = Some (p, h') \<and> new_block small_heap h' [] p es' 100 7) \<and>
   HeapAllocatePoolWithTag small_heap 0 0xFF94 7 1 = Some (NULL, small_heap) \<and>
   unat (HeapSizeRemaining (Header small_heap)) = 0x20 + 0xFF94 + 4"
  using HeapAllocatePoolWithTag_succeeds [OF small_heap_ok small_heap_restart, where sz = 100 and Tag = 7 and al = 0 and Flags = 0]
    HeapAllocatePoolWithTag_succeeds [OF small_heap_ok small_heap_restart, where sz = "0xFF94" and Tag = 7 and al = 1 and Flags = 0]
  by (simp add: small_heap_room IsFlagOn_def)

section \<open>Freeing\<close>

lemma block_end_last:
  "sorted_wrt (\<lambda>a b. block_end h a \<le> unat b) xs \<Longrightarrow> x \<in> set xs \<Longrightarrow> block_end h x \<le> block_end h (last xs)"
proof (induction xs rule: rev_induct)
  case (snoc y xs)
  then show ?case using block_end_less [of y h] by (fastforce simp: sorted_wrt_append)
qed simp

lemma heap_ok_removed:
  fixes h us vs e links free
  assumes ok: "heap_ok h (us @ e # vs)"
    and links: "dll links (HeapAllocations h) (map entry_link (us @ vs))"
    and hdr: "HeapAllocations h' = HeapAllocations h" "Links h' = links"
      "BaseAddress (Header h') = BaseAddress (Header h)" "HeapSizeMaximum (Header h') = HeapSizeMaximum (Header h)"
      "HeapSizeRemaining (Header h') = HeapSizeRemaining (Header h) + (0x24 + ucast (EntrySize h e))"
      "HeapNumberOfAllocations (Header h') = HeapNumberOfAllocations (Header h) - 1"
    and free: "unat (FreeAddress (Header h')) =
      (if us @ vs = [] then heap_start h else block_end h (last (us @ vs)))"
    and entries: "\<And>x. x \<in> set (us @ vs) \<Longrightarrow> entry_ok h' x \<and> EntrySize h' x = EntrySize h x"
  shows "heap_ok h' (us @ vs)"
proof -
  note d = heap_okD [OF ok]
  have size: "block_size h' x = block_size h x" "block_end h' x = block_end h x" if "x \<in> set (us @ vs)" for x
    using entries [OF that] by (simp_all add: block_end_def block_size_def)
  have same: "heap_start h' = heap_start h" "heap_top h' = heap_top h" "heap_bounds h'"
    using d(1) by (simp_all add: heap_start_def heap_top_def heap_bounds_def hdr)
  have sorted: "sorted_wrt (\<lambda>a b. block_end h a \<le> unat b) (us @ e # vs)" using d(2) by (simp add: blocks_ok_def)
  then have sorted_rest: "sorted_wrt (\<lambda>a b. block_end h a \<le> unat b) (us @ vs)"
    by (auto simp: sorted_wrt_append)
  then have sorted': "sorted_wrt (\<lambda>a b. block_end h' a \<le> unat b) (us @ vs)"
    by (rule sorted_wrt_mono_rel [rotated]) (simp add: size)
  have low: "block_end h x \<le> unat (FreeAddress (Header h'))" if x: "x \<in> set (us @ vs)" for x
  proof -
    have "block_end h x \<le> block_end h (last (us @ vs))" by (rule block_end_last [OF sorted_rest x])
    then show ?thesis using x by (auto simp: free)
  qed
  have blocks: "blocks_ok h' (us @ vs)"
    unfolding blocks_ok_def
  proof (intro conjI ballI)
    fix x assume x: "x \<in> set (us @ vs)"
    then have "x \<in> set (us @ e # vs)" by auto
    with d(7) show "heap_start h' \<le> unat x" unfolding same by blast
    show "entry_ok h' x" using entries [OF x] by blast
    show "block_end h' x \<le> unat (FreeAddress (Header h'))" unfolding size(2) [OF x] by (rule low [OF x])
  qed (rule sorted')
  have "unat (FreeAddress (Header h')) \<le> heap_top h"
  proof (cases "us @ vs = []")
    case False
    then have "last (us @ vs) \<in> set (us @ vs)" by (rule last_in_set)
    moreover have "set (us @ vs) \<subseteq> set (us @ e # vs)" by auto
    ultimately have "block_end h (last (us @ vs)) \<le> unat (FreeAddress (Header h))" using d(7) by blast
    then show ?thesis using d(4) unfolding free if_not_P [OF False] by (rule order_trans)
  next
    case True
    then show ?thesis using d(4,6) by (simp add: free)
  qed
  moreover have "unat (HeapSizeRemaining (Header h')) + 0x48 + sum_list (map (block_size h') (us @ vs)) =
      unat (HeapSizeMaximum (Header h'))"
  proof -
    have sz: "unat (EntrySize h e) + 0x24 < 2 ^ 32" by (rule entry_size_bound [OF ok]) simp
    have total: "unat (HeapSizeRemaining (Header h)) + 0x48 + sum_list (map (block_size h) (us @ e # vs)) =
        unat (HeapSizeMaximum (Header h))" using ok by (simp add: heap_ok_def)
    have "unat (HeapSizeMaximum (Header h)) < 2 ^ 32" using d(1) by (simp add: heap_bounds_def)
    then have "unat (HeapSizeRemaining (Header h')) = unat (HeapSizeRemaining (Header h)) + block_size h e"
      using total unfolding hdr
      by (subst unat_plus_simple) (simp_all only: block_size_word(2) [OF sz], simp_all add: block_size_def)
    moreover have "sum_list (map (block_size h') (us @ vs)) = sum_list (map (block_size h) (us @ vs))"
      by (intro arg_cong [where f = sum_list] map_cong) (simp_all add: size)
    moreover have "sum_list (map (block_size h) (us @ e # vs)) =
        block_size h e + sum_list (map (block_size h) (us @ vs))" by simp
    ultimately show ?thesis using total unfolding hdr(4) by linarith
  qed
  moreover have "HeapNumberOfAllocations (Header h') = of_nat (length (us @ vs))"
    using ok by (simp add: heap_ok_def hdr)
  moreover have "unat (FreeAddress (Header h')) =
      (if us @ vs = [] then heap_start h' else block_end h' (last (us @ vs)))"
    unfolding free same(1) by (rule if_cong) (simp_all only: size(2) last_in_set not_False_eq_True)
  ultimately show ?thesis unfolding heap_ok_def hdr(1,2) same(2)
    using same(3) blocks links by (intro conjI)
qed

lemma Blink_link:
  assumes "heap_ok h (us @ e # vs)"
  shows "Blink (Links h) (entry_link e) = last (HeapAllocations h # map entry_link us)"
proof -
  have "dll (Links h) (entry_link e) (map entry_link vs @ HeapAllocations h # map entry_link us)"
    using heap_okD(3) [OF assms] by (simp add: dll_rotate [symmetric])
  from dll_ends [OF this] show ?thesis by simp
qed

lemma tails_apart:
  assumes ok: "heap_ok h es" and ab: "a \<in> set es" "b \<in> set es" "a \<noteq> b"
  shows "a + 0x20 + ucast (EntrySize h a) \<noteq> b + 0x20 + ucast (EntrySize h b)"
proof
  assume "a + 0x20 + ucast (EntrySize h a) = b + 0x20 + ucast (EntrySize h b)"
  then have "block_end h a = block_end h b"
    using unat_behind_block [OF ok ab(1)] unat_behind_block [OF ok ab(2)] by simp
  moreover have "block_end h a \<le> unat b \<or> block_end h b \<le> unat a"
    using heap_okD(2) [OF ok] ab by (intro sorted_wrt_pair) (auto simp: blocks_ok_def)
  ultimately show False using block_end_less [of a h] block_end_less [of b h] by linarith
qed

text \<open>
  The state after the block \<open>e\<close> of size \<open>n\<close>, with header and tail, has been unlinked and
  overwritten, up to the header of the heap.
\<close>

lemma free_pattern_keeps:
  assumes ok: "heap_ok h (us @ e # vs)"
    and links: "dll links (HeapAllocations h) (map entry_link (us @ vs))"
  defines "h1 \<equiv> free_pattern (h\<lparr>Links := links\<rparr>) e (ucast (0x24 + ucast (EntrySize h e) :: QWORD))"
  shows "dll (Links h1) (HeapAllocations h) (map entry_link (us @ vs))"
    and "Header h1 = Header h"
    and "x \<in> set (us @ vs) \<Longrightarrow> entry_ok h1 x \<and> EntrySize h1 x = EntrySize h x \<and> EntryTag h1 x = EntryTag h x"
    and "data_kept h h1 (us @ vs)"
    and "EntryMagic h1 e \<noteq> HEAP_MAGIC"
proof -
  have e: "e \<in> set (us @ e # vs)" by simp
  note sz = entry_size_bound [OF ok e]
  note d = heap_okD [OF ok]
  have "distinct (us @ e # vs)" using dll_not_null [OF d(3)] distinct_map by blast
  then have other: "x \<noteq> e \<and> x \<in> set (us @ e # vs)" if "x \<in> set (us @ vs)" for x using that by auto
  have head: "entry_link e \<noteq> HeapAllocations h" using dll_not_null [OF d(3)] by auto
  show "Header h1 = Header h" "EntryMagic h1 e \<noteq> HEAP_MAGIC" by (simp_all add: h1_def free_pattern_def)
  have "same_outside {entry_link e} links (Links h1)"
    by (simp add: h1_def free_pattern_def same_outside_def)
  then show "dll (Links h1) (HeapAllocations h) (map entry_link (us @ vs))"
    by (rule dll_frame [OF links]) (use head \<open>distinct (us @ e # vs)\<close> in auto)
  have tail: "e + ucast (ucast (0x24 + ucast (EntrySize h e) :: QWORD) :: DWORD) - 4 = e + 0x20 + ucast (EntrySize h e)"
    unfolding block_size_word(1) [OF sz(1)] by simp
  have keeps: "entry_ok h1 x \<and> EntrySize h1 x = EntrySize h x \<and> EntryTag h1 x = EntryTag h x"
    if "x \<in> set (us @ vs)" for x
  proof -
    from other [OF that] d(7) have x: "x \<noteq> e" "entry_ok h x" by blast+
    have "x + 0x20 + ucast (EntrySize h x) \<noteq> e + 0x20 + ucast (EntrySize h e)"
      using other [OF that] by (intro tails_apart [OF ok _ e]) blast+
    then show ?thesis using x unfolding h1_def free_pattern_def heap_state.simps tail by (simp add: entry_ok_def)
  qed
  then show "x \<in> set (us @ vs) \<Longrightarrow> entry_ok h1 x \<and> EntrySize h1 x = EntrySize h x \<and> EntryTag h1 x = EntryTag h x" .
  have "Bytes h1 = memset (Bytes h) e HEAP_FREE_PATTERN (ucast (0x24 + ucast (EntrySize h e) :: QWORD))"
    by (simp add: h1_def free_pattern_def)
  then have bytes: "Bytes h1 = (\<lambda>p. if p - e < 0x24 + ucast (EntrySize h e) then HEAP_FREE_PATTERN else Bytes h p)"
    unfolding memset_spec [OF sz(2)] block_size_word(1) [OF sz(1)] .
  have "Bytes h1 (b + 0x20 + of_nat i) = Bytes h (b + 0x20 + of_nat i)"
    if "b \<in> set (us @ vs)" "i < unat (EntrySize h b)" for b i
  proof -
    have "\<not> b + 0x20 + of_nat i - e < 0x24 + ucast (EntrySize h e)"
      using other [OF that(1)] that(2) by (intro other_block(1) [OF ok e]) auto
    then show ?thesis by (simp only: bytes if_False)
  qed
  with keeps show "data_kept h h1 (us @ vs)" unfolding data_kept_def by blast
qed

text \<open>
  C13. Freeing a block with its own tag returns. Exactly this block leaves the list, the invariant
  holds of the others, whose sizes, tags and data are unchanged, and the memory of the block counts
  as free again; when it was the last block, \<open>FreeAddress\<close> moves back to the end of the
  one before. The search restarts at a linked entry only if the block was not the one to restart at.
  A second free of the same address, with whatever tag, stops the system.
\<close>

theorem HeapFreePoolWithTag_correct:
  assumes ok: "heap_ok h (us @ e # vs)"
  shows "\<exists>h'. HeapFreePoolWithTag h (e + 0x20) (EntryTag h e) = Some h' \<and>
    heap_ok h' (us @ vs) \<and> data_kept h h' (us @ vs) \<and>
    (restart_ok h (us @ e # vs) \<and> EntryToRestartSearch (Header h) \<noteq> entry_link e \<longrightarrow> restart_ok h' (us @ vs)) \<and>
    (\<forall>Tag. HeapFreePoolWithTag h' (e + 0x20) Tag = None)"
proof -
  note d = heap_okD [OF ok]
  have e: "e \<in> set (us @ e # vs)" by simp
  have entry: "entry_ok h e" using d(7) by simp
  note sz = entry_size_bound [OF ok e]
  note prev = Blink_link [OF ok]
  define n where "n = (ucast (EntrySize h e) + 0x20 + 4 :: QWORD)"
  have n: "n = 0x24 + ucast (EntrySize h e)" "ucast (ucast n :: DWORD) = n" "n \<le> ucast MAX_DWORD"
  proof -
    show c: "n = 0x24 + ucast (EntrySize h e)" by (simp add: n_def)
    then show "ucast (ucast n :: DWORD) = n" using block_size_word(1) [OF sz(1)] by simp
    have "unat n \<le> unat (ucast MAX_DWORD :: QWORD)"
      using sz(1) unfolding c block_size_word(2) [OF sz(1)] by simp
    then show "n \<le> ucast MAX_DWORD" by (simp only: word_le_nat_alt)
  qed
  have "dll (Links h) (HeapAllocations h) (map entry_link us @ entry_link e # map entry_link vs)"
    using d(3) by simp
  from RemoveEntryList_dll [OF this] obtain links where
    links: "RemoveEntryList (Links h) (entry_link e) = Some (us @ vs = [], links)"
      "dll links (HeapAllocations h) (map entry_link (us @ vs))" by auto
  define h1 where "h1 = free_pattern (h\<lparr>Links := links\<rparr>) e (ucast n)"
  note h1 = free_pattern_keeps [OF ok links(2), folded n(1), folded h1_def]
  define before where "before = (if us = [] then BaseAddress (Header h) + 0x48
    else last us + 0x20 + ucast (EntrySize h (last us)) + 4)"
  define hdr where "hdr = (Header h)\<lparr>HeapSizeRemaining := HeapSizeRemaining (Header h) + n,
    HeapNumberOfAllocations := HeapNumberOfAllocations (Header h) - 1\<rparr>"
  define h' where "h' = h1\<lparr>Header := (if vs = [] then hdr\<lparr>FreeAddress := before\<rparr> else hdr)\<rparr>"
  have free: "unat (FreeAddress (Header h)) = block_end h (last (e # vs))"
    using ok by (simp add: heap_ok_def)
  have "end": "e + 0x20 + ucast (EntrySize h e) + 4 = FreeAddress (Header h) \<longleftrightarrow> vs = []"
  proof -
    have "block_end h e < block_end h (last vs)" if "vs \<noteq> []"
    proof -
      have "block_end h e \<le> unat (last vs)"
        using d(2) last_in_set [OF that] by (simp add: blocks_ok_def sorted_wrt_append)
      then show ?thesis using block_end_less [of "last vs" h] by simp
    qed
    then show ?thesis unfolding word_unat_eq_iff unat_behind_block [OF ok e] free by auto
  qed
  have valid: "ValidateHeapEntry h e (EntryTag h e) = Some True"
    using entry ValidateHeapEntry_ok [OF entry sz(2,1)] by (simp add: entry_ok_def)
  have before: "(if Blink (Links h) (entry_link e) \<noteq> HeapAllocations h \<and> Blink (Links h) (entry_link e) \<noteq> NULL
      then CONTAINING_RECORD (Blink (Links h) (entry_link e)) + 0x20 +
        ucast (EntrySize h (CONTAINING_RECORD (Blink (Links h) (entry_link e)))) + 4
      else BaseAddress (Header h) + 0x48) = before"
  proof (cases us rule: rev_cases)
    case (snoc ws x)
    then show ?thesis using dll_not_null [OF d(3)] unfolding prev before_def by auto
  qed (use prev in \<open>simp add: before_def\<close>)
  have nn: "e + 0x20 \<noteq> NULL" by (rule unat_data_start [OF ok e])
  have tag: "EntryTag h e \<noteq> 0" using entry by (simp add: entry_ok_def)
  have run: "HeapFreePoolWithTag h (e + 0x20) (EntryTag h e) = Some h'"
    unfolding HeapFreePoolWithTag_def Let_def add_diff_cancel_right' valid before
    using nn tag n(3) links(1) h1(2)
    by (simp add: ASSERT_bind h'_def hdr_def free_pattern_def h1_def n_def "end" [simplified])
  have links': "dll (Links h') (HeapAllocations h) (map entry_link (us @ vs))" using h1(1) by (simp add: h'_def)
  have "heap_ok h' (us @ vs)"
  proof (rule heap_ok_removed [OF ok links'])
    have us: "unat before = (if us = [] then heap_start h else block_end h (last us))"
    proof (cases us rule: rev_cases)
      case (snoc ws x)
      then show ?thesis using unat_behind_block [OF ok, of x] by (simp add: before_def)
    next
      case Nil
      have "heap_start h < 2 ^ 64" using d(5,6,4) by linarith
      then have "unat (BaseAddress (Header h) + 0x48) = heap_start h"
        unfolding heap_start_def by (subst unat_plus_simple) simp_all
      with Nil show ?thesis by (simp add: before_def)
    qed
    show "unat (FreeAddress (Header h')) = (if us @ vs = [] then heap_start h else block_end h (last (us @ vs)))"
      using free us by (simp add: h'_def hdr_def)
  qed (use h1 in \<open>simp_all add: h'_def hdr_def n(1) HeapAllocations_def\<close>)
  moreover have "data_kept h h' (us @ vs)" using h1(4) by (simp add: data_kept_def h'_def)
  moreover have "restart_ok h' (us @ vs)"
    if "restart_ok h (us @ e # vs)" "EntryToRestartSearch (Header h) \<noteq> entry_link e"
    using that by (auto simp: restart_ok_def h'_def hdr_def HeapAllocations_def)
  moreover have "HeapFreePoolWithTag h' (e + 0x20) Tag = None" for Tag
    using h1(5) nn by (auto simp: HeapFreePoolWithTag_def ValidateHeapEntry_def h'_def Let_def ASSERT_bind)
  ultimately show ?thesis using run by blast
qed

theorem HeapFreePoolWithTag_correct_witness:
  "\<exists>p h h'. HeapAllocatePoolWithTag small_heap 0 100 7 0 = Some (p, h) \<and>
    HeapFreePoolWithTag h p 7 = Some h' \<and> heap_ok h' [] \<and> HeapFreePoolWithTag h' p 7 = None"
proof -
  obtain e h1 where "heap_allocate small_heap 100 7 0 = Some (STATUS_SUCCESS, e, h1)"
    "allocated small_heap h1 [] e 100 7 (if (0 :: DWORD) = 0 then HEAP_DEFAULT_ALIGNMENT else 0)"
    using heap_allocate_succeeds [OF small_heap_ok small_heap_restart, where sz = 100 and Tag = 7 and al = 0]
      small_heap_room by auto
  from HeapAllocatePoolWithTag_success [OF this, of 0] obtain h es' where
    run: "HeapAllocatePoolWithTag small_heap 0 100 7 0 = Some (e + 0x20, h)"
    and new: "new_block small_heap h [] (e + 0x20) es' 100 7" by auto
  then have "heap_ok h ([] @ e # [])" "EntryTag h e = 7" by (auto simp: new_block_def)
  with HeapFreePoolWithTag_correct [OF this(1)] run show ?thesis by auto
qed

section \<open>The search for a gap can stop the system\<close>

text \<open>
  C12. When the restart entry is the last but one of at least four, and a request does not fit
  behind the last block, the allocation fails the assertion on \<open>pPreviousHeapEntry\<close> and the
  system stops, although enough memory is free: right after skipping the list head, the loop takes
  the previous entry from \<open>pCurHeapEntry\<close>, which is still NULL.
\<close>

theorem HeapAllocatePoolWithTag_halts:
  assumes ok: "heap_ok h (x # y # us @ [r, z])" and restart: "EntryToRestartSearch (Header h) = entry_link r"
    and args: "sz \<noteq> 0" "Tag \<noteq> 0" and fits: "unat sz + 0x24 \<le> unat (HeapSizeRemaining (Header h))"
    and no_end: "heap_top h < unat (FreeAddress (Header h)) + 0x44 + unat sz"
    and between: "heap_top h + 0x24 + unat sz \<le> unat (HeapSizeRemaining (Header h)) + unat (FreeAddress (Header h))"
  shows "HeapAllocatePoolWithTag h Flags sz Tag al = None"
proof -
  note d = heap_okD [OF ok]
  define g where "g = (if al = 0 then HEAP_DEFAULT_ALIGNMENT else al)"
  define rem where "rem = BaseAddress (Header h) + HeapSizeMaximum (Header h) - FreeAddress (Header h) - 0x20"
  define req where "req = (ucast sz + 0x20 + 4 :: QWORD)"
  have small: "unat sz + 0x24 < 2 ^ 32" using fits ok by (simp add: heap_ok_def heap_bounds_def)
  have c: "req = 0x24 + ucast sz" by (simp add: req_def)
  have req: "sint req = int (unat sz + 0x24)" unfolding c by (rule required_size [OF small])
  have guards: "\<not> req > HeapSizeRemaining (Header h)"
    unfolding c word_less_nat_alt block_size_word(2) [OF small] using fits by simp
  have g2: "\<not> sint req \<le> sint rem"
    using remaining_until_end(1) [OF ok] no_end unfolding req rem_def by linarith
  have g3: "\<not> sint req > sint (HeapSizeRemaining (Header h) - rem - 0x20)"
  proof -
    have top: "unat (BaseAddress (Header h) + HeapSizeMaximum (Header h)) = heap_top h"
      using d(5) by (subst unat_plus_simple) (simp_all add: heap_top_def)
    have less: "unat (HeapSizeRemaining (Header h)) < 2 ^ 32" "heap_top h \<le> unat (FreeAddress (Header h)) + 2 ^ 32"
      using ok d(1,6) by (simp_all add: heap_ok_def heap_bounds_def heap_top_def heap_start_def)
    have sum: "unat (HeapSizeRemaining (Header h) + FreeAddress (Header h)) =
        unat (HeapSizeRemaining (Header h)) + unat (FreeAddress (Header h))"
      using less d(4,5) by (subst unat_plus_simple) simp_all
    have "HeapSizeRemaining (Header h) - rem - 0x20 =
        HeapSizeRemaining (Header h) + FreeAddress (Header h) - (BaseAddress (Header h) + HeapSizeMaximum (Header h))"
      by (simp add: rem_def)
    also have "sint \<dots> = int (unat (HeapSizeRemaining (Header h)) + unat (FreeAddress (Header h))) - int (heap_top h)"
      using less d(4) by (subst sint_diff_near) (simp_all only: top sum, simp_all)
    finally show ?thesis using between unfolding req by linarith
  qed
  have links: "Flink (Links h) (entry_link r) = entry_link z" "Flink (Links h) (entry_link z) = HeapAllocations h"
    "Flink (Links h) (HeapAllocations h) = entry_link x" "Flink (Links h) (entry_link x) = entry_link y"
    using Flink_link [of h "x # y # us" r "[z]"] Flink_link [of h "x # y # us @ [r]" z "[]"]
      Flink_link [of h "[]" x "y # us @ [r, z]"] dll_ends [OF d(3)] ok by simp_all
  have neq: "entry_link r \<noteq> HeapAllocations h" "entry_link x \<noteq> HeapAllocations h" "entry_link y \<noteq> HeapAllocations h"
    "r \<noteq> x" "r \<noteq> y"
    using dll_not_null [OF d(3)] by auto
  have search: "heap_search h Tag sz g req (entry_link z) z (HeapAllocations h) NULL = None"
    using neq links restart
    by (subst heap_search.simps, simp, subst heap_search.simps, simp, subst heap_search.simps, simp)
  have ne: "IsListEmpty (Links h) (HeapAllocations h) = Some False"
    using IsListEmpty_dll [OF d(3)] by simp
  have "search_between h sz Tag g req rem = None"
    unfolding search_between_def if_not_P [OF g3] ne restart links Let_def CONTAINING_RECORD_link search by simp
  moreover have "heap_allocate h sz Tag al = search_between h sz Tag g req rem"
    using guards args g2 unfolding heap_allocate_def Let_def search_between_def
      g_def [symmetric] req_def [symmetric] rem_def [symmetric]
    by (simp del: not_le not_less)
  ultimately show ?thesis by (simp add: HeapAllocatePoolWithTag_def)
qed

definition stuck_heap :: heap_state where
  "stuck_heap = \<lparr>Header = \<lparr>Magic = HEAP_MAGIC, HeapSizeMaximum = 0x10000, HeapSizeRemaining = 0xFBB8,
       BaseAddress = 0x100000, FreeAddress = 0x110000, HeapNumberOfAllocations = 4, EntryToRestartSearch = 0x102010\<rparr>,
     EntryMagic = \<lambda>_. HEAP_MAGIC, EntryTag = \<lambda>_. 7, EntrySize = \<lambda>_. 220, EntryOffset = \<lambda>_. 0x20,
     TailMagic = \<lambda>_. HEAP_MAGIC,
     Links = \<lparr>Flink = (\<lambda>_. 0)(0x100038 := 0x100060, 0x100060 := 0x101010, 0x101010 := 0x102010,
                0x102010 := 0x10FF10, 0x10FF10 := 0x100038),
              Blink = (\<lambda>_. 0)(0x100038 := 0x10FF10, 0x10FF10 := 0x102010, 0x102010 := 0x101010,
                0x101010 := 0x100060, 0x100060 := 0x100038)\<rparr>, Bytes = \<lambda>_. 0\<rparr>"

lemma stuck_heap_ok: "heap_ok stuck_heap (0x100050 # 0x101000 # [] @ [0x102000, 0x10FF00])"
  by (simp add: heap_ok_def stuck_heap_def HeapAllocations_def heap_bounds_def blocks_ok_def heap_start_def
    heap_top_def block_size_def block_end_def entry_ok_def dll_def entry_link_def)

theorem HeapAllocatePoolWithTag_halts_witness:
  "HeapAllocatePoolWithTag stuck_heap 0 100 7 0 = None \<and> unat (HeapSizeRemaining (Header stuck_heap)) = 0xFBB8"
  using HeapAllocatePoolWithTag_halts [OF stuck_heap_ok, of 100 7 0 0]
  by (simp add: stuck_heap_def entry_link_def heap_top_def)

end
