(* ===== verification/RefCnt.thy ===== *)
theory RefCnt
  imports Prelude
begin

text \<open>
  Reference counted objects, \<^verbatim>\<open>CommonLib/src/ref_cnt.c\<close>. The counter is changed by one interlocked
  instruction per call; everything after it in the call works on the value that this instruction
  returned. The calls of concurrent users therefore take effect in the order of these
  instructions, and a history of the object is a list of calls. The free function is known by its
  address; a call of it is an effect with its context.
\<close>

record REF_COUNT =
  ReferenceCount :: DWORD
  FreeFunction :: PVOID
  Context :: PVOID

text \<open>A call of the free function: its address and the context.\<close>

type_synonym free_call = "PVOID \<times> PVOID"

definition RfcPreInit :: "REF_COUNT \<Rightarrow> REF_COUNT" where
  "RfcPreInit Object = \<lparr>ReferenceCount = 0, FreeFunction = NULL, Context = NULL\<rparr>"

definition RfcInit :: "REF_COUNT option \<Rightarrow> PVOID \<Rightarrow> PVOID \<Rightarrow> STATUS \<times> REF_COUNT option" where
  "RfcInit Object Free Ctx = (case Object of
     None \<Rightarrow> (STATUS_INVALID_PARAMETER1, None)
   | Some o1 \<Rightarrow> (STATUS_SUCCESS, Some (o1\<lparr>FreeFunction := Free, Context := Ctx, ReferenceCount := 1\<rparr>)))"

definition RfcReference :: "REF_COUNT \<Rightarrow> (DWORD \<times> REF_COUNT) option" where
  "RfcReference Object = do {
     let newRefCount = ReferenceCount Object + 1;
     ASSERT (MAX_DWORD > newRefCount);
     ASSERT (1 \<le> newRefCount);
     Some (newRefCount, Object\<lparr>ReferenceCount := newRefCount\<rparr>)
   }"

definition RfcDereference :: "REF_COUNT \<Rightarrow> (DWORD \<times> REF_COUNT \<times> free_call list) option" where
  "RfcDereference Object = do {
     let newRefCount = ReferenceCount Object - 1;
     ASSERT (MAX_DWORD \<noteq> newRefCount);
     Some (newRefCount, Object\<lparr>ReferenceCount := newRefCount\<rparr>,
       if newRefCount = 0 \<and> FreeFunction Object \<noteq> NULL then [(FreeFunction Object, Context Object)] else [])
   }"

section \<open>Histories\<close>

datatype rfc_op = Reference | Dereference

fun rfc_run :: "rfc_op list \<Rightarrow> REF_COUNT \<Rightarrow> (REF_COUNT \<times> free_call list) option" where
  "rfc_run [] Object = Some (Object, [])"
| "rfc_run (Reference # ops) Object = do {
     (_, Object) \<leftarrow> RfcReference Object;
     rfc_run ops Object }"
| "rfc_run (Dereference # ops) Object = do {
     (_, Object, calls) \<leftarrow> RfcDereference Object;
     (Object, calls') \<leftarrow> rfc_run ops Object;
     Some (Object, calls @ calls') }"

text \<open>
  The number of references held after a history, given the number before it; \<open>None\<close> when a call
  was made without holding a reference, or the number reaches the limit.
\<close>

fun held_after :: "rfc_op list \<Rightarrow> nat \<Rightarrow> nat option" where
  "held_after [] n = Some n"
| "held_after (Reference # ops) n = (if 0 < n \<and> n + 1 < 2 ^ 32 - 1 then held_after ops (n + 1) else None)"
| "held_after (Dereference # ops) n = (if 0 < n then held_after ops (n - 1) else None)"

lemma held_after_0 [simp]: "held_after ops 0 = (if ops = [] then Some 0 else None)"
proof (cases ops)
  case (Cons c cs)
  then show ?thesis by (cases c) simp_all
qed simp

lemma RfcReference_held:
  assumes "unat (ReferenceCount Object) = n" and "n + 1 < 2 ^ 32 - 1"
  shows "RfcReference Object = Some (of_nat (n + 1), Object\<lparr>ReferenceCount := of_nat (n + 1)\<rparr>)"
    and "unat (of_nat (n + 1) :: DWORD) = n + 1"
proof -
  show u: "unat (of_nat (n + 1) :: DWORD) = n + 1" using assms(2) by (intro unat_of_nat_small) simp
  have new: "ReferenceCount Object + 1 = (of_nat (n + 1) :: DWORD)" using assms(1) by auto
  show "RfcReference Object = Some (of_nat (n + 1), Object\<lparr>ReferenceCount := of_nat (n + 1)\<rparr>)"
    unfolding RfcReference_def Let_def new word_less_nat_alt word_le_nat_alt u using assms(2) by simp
qed

lemma RfcDereference_held:
  assumes "unat (ReferenceCount Object) = n" and "0 < n"
  shows "RfcDereference Object = Some (of_nat (n - 1), Object\<lparr>ReferenceCount := of_nat (n - 1)\<rparr>,
      if n = 1 \<and> FreeFunction Object \<noteq> NULL then [(FreeFunction Object, Context Object)] else [])"
    and "unat (of_nat (n - 1) :: DWORD) = n - 1"
proof -
  have n: "n < 2 ^ 32" using unat_less_2p [of "ReferenceCount Object"] assms(1) by simp
  show u: "unat (of_nat (n - 1) :: DWORD) = n - 1" using n by (intro unat_of_nat_small) simp
  have new: "ReferenceCount Object - 1 = (of_nat (n - 1) :: DWORD)"
    unfolding word_unat_eq_iff by (simp only: u unat_pred assms)
  have "unat (MAX_DWORD) \<noteq> unat (of_nat (n - 1) :: DWORD)" using n by (simp only: u) simp
  then have "MAX_DWORD \<noteq> (of_nat (n - 1) :: DWORD)" by (auto simp only:)
  moreover have "(of_nat (n - 1) :: DWORD) = 0 \<longleftrightarrow> n = 1"
    unfolding word_unat_eq_iff u using assms(2) by (simp, arith)
  ultimately show "RfcDereference Object = Some (of_nat (n - 1), Object\<lparr>ReferenceCount := of_nat (n - 1)\<rparr>,
      if n = 1 \<and> FreeFunction Object \<noteq> NULL then [(FreeFunction Object, Context Object)] else [])"
    unfolding RfcDereference_def Let_def new by (simp add: ASSERT_bind)
qed

lemma rfc_run_held:
  "held_after ops n = Some k \<Longrightarrow> unat (ReferenceCount Object) = n \<Longrightarrow> 0 < n \<Longrightarrow>
   rfc_run ops Object = Some (Object\<lparr>ReferenceCount := of_nat k\<rparr>,
     if k = 0 \<and> FreeFunction Object \<noteq> NULL then [(FreeFunction Object, Context Object)] else []) \<and> k < 2 ^ 32"
proof (induction ops arbitrary: n Object)
  case Nil
  then show ?case using unat_less_2p [of "ReferenceCount Object"] by auto
next
  case (Cons c ops)
  show ?case
  proof (cases c)
    case Reference
    with Cons.prems have next_n: "held_after ops (n + 1) = Some k" "n + 1 < 2 ^ 32 - 1"
      by (auto split: if_splits)
    note step = RfcReference_held [OF Cons.prems(2) next_n(2)]
    from step Cons.IH [OF next_n(1), of "Object\<lparr>ReferenceCount := of_nat (n + 1)\<rparr>"] show ?thesis
      by (simp add: Reference)
  next
    case Dereference
    with Cons.prems have prev_n: "held_after ops (n - 1) = Some k" by simp
    note step = RfcDereference_held [OF Cons.prems(2,3)]
    show ?thesis
    proof (cases "n = 1")
      case True
      with prev_n have "ops = []" "k = 0" by (auto split: if_splits)
      with step True show ?thesis by (simp add: Dereference)
    next
      case False
      with Cons.prems(3) have "0 < n - 1" by simp
      from Cons.IH [OF prev_n _ this, of "Object\<lparr>ReferenceCount := of_nat (n - 1)\<rparr>"] step False
      show ?thesis by (simp add: Dereference)
    qed
  qed
qed

text \<open>
  C14. An initialised object starts with one reference. However the calls of its users interleave,
  as long as each call is made by somebody who holds a reference and there are fewer than
  \<open>MAX_DWORD\<close> of them, no assertion fails, the counter is the number of references held,
  and the free function is called exactly once, with its context, when the last one is given up,
  and never before.
\<close>

theorem rfc_freed_once:
  assumes "RfcInit (Some Object) Free Ctx = (status, Some Object')"
    and "held_after ops 1 = Some k" and "Free \<noteq> NULL"
  shows "\<exists>final. rfc_run ops Object' = Some (final, if k = 0 then [(Free, Ctx)] else []) \<and>
    unat (ReferenceCount final) = k"
proof -
  have "Object' = Object\<lparr>FreeFunction := Free, Context := Ctx, ReferenceCount := 1\<rparr>"
    using assms(1) by (simp add: RfcInit_def)
  with rfc_run_held [OF assms(2), of Object'] assms(3) show ?thesis
    by (simp add: unat_of_nat_small)
qed

definition no_object :: REF_COUNT where
  "no_object = \<lparr>ReferenceCount = 0, FreeFunction = NULL, Context = NULL\<rparr>"

theorem rfc_freed_once_witness:
  "\<exists>final. rfc_run [Reference, Dereference, Reference, Dereference, Dereference]
      (no_object\<lparr>FreeFunction := 0x4000, Context := 0x20, ReferenceCount := 1\<rparr>) = Some (final, [(0x4000, 0x20)]) \<and>
    unat (ReferenceCount final) = 0"
  by (rule rfc_freed_once [of no_object "0x4000" "0x20" STATUS_SUCCESS _ _ 0, simplified])
    (simp_all add: RfcInit_def)

text \<open>
  The second assertion of \<open>RfcReference\<close> is meant to catch a reference to an object without any,
  but it tests the counter after the increment: an object that was freed is referenced again
  without an error.
\<close>

lemma RfcReference_after_free:
  assumes "ReferenceCount Object = 0"
  shows "RfcReference Object = Some (1, Object\<lparr>ReferenceCount := 1\<rparr>)"
  using assms by (simp add: RfcReference_def)

end
