(* ===== verification/Event.thy ===== *)
theory Event
  imports Prelude
begin

text \<open>
  Spinning events, \<^verbatim>\<open>CommonLib/src/event.c\<close>. The state is one byte that is only touched by
  interlocked instructions. A waiter repeats one compare-and-exchange until it saw the signal, a poll
  does it once; the interleaved system counts the signals, and the waiters and polls that saw one.
\<close>

type_synonym EVENT_TYPE = DWORD

abbreviation EventTypeNotification :: EVENT_TYPE where "EventTypeNotification \<equiv> 0"
abbreviation EventTypeSynchronization :: EVENT_TYPE where "EventTypeSynchronization \<equiv> 1"
abbreviation EventTypeReserved :: EVENT_TYPE where "EventTypeReserved \<equiv> 2"
abbreviation EVENT_STATE_NOT_SIGNALED :: BYTE where "EVENT_STATE_NOT_SIGNALED \<equiv> 0"
abbreviation EVENT_STATE_SIGNALED :: BYTE where "EVENT_STATE_SIGNALED \<equiv> 1"

record EVENT =
  State :: BYTE
  EventType :: EVENT_TYPE

definition EvtInitialize :: "EVENT option \<Rightarrow> EVENT_TYPE \<Rightarrow> bool \<Rightarrow> STATUS \<times> EVENT option" where
  "EvtInitialize Event Type Signaled = (case Event of
     None \<Rightarrow> (STATUS_INVALID_PARAMETER1, None)
   | Some e \<Rightarrow>
       if sint Type \<ge> sint EventTypeReserved then (STATUS_INVALID_PARAMETER2, Event)
       else (STATUS_SUCCESS, Some (e\<lparr>EventType := Type,
         State := if Signaled then EVENT_STATE_SIGNALED else EVENT_STATE_NOT_SIGNALED\<rparr>)))"

definition EvtSignal :: "EVENT \<Rightarrow> EVENT" where
  "EvtSignal Event = Event\<lparr>State := EVENT_STATE_SIGNALED\<rparr>"

definition EvtClearSignal :: "EVENT \<Rightarrow> EVENT" where
  "EvtClearSignal Event = Event\<lparr>State := EVENT_STATE_NOT_SIGNALED\<rparr>"

definition EvtIsSignaled :: "EVENT \<Rightarrow> bool \<times> EVENT" where
  "EvtIsSignaled Event =
     (let exchangeValue = (if EventTypeNotification = EventType Event then EVENT_STATE_SIGNALED
                           else EVENT_STATE_NOT_SIGNALED);
          initialValue = State Event
      in (initialValue = EVENT_STATE_SIGNALED,
          if initialValue = EVENT_STATE_SIGNALED then Event\<lparr>State := exchangeValue\<rparr> else Event))"

text \<open>
  One turn of the loop of \<open>EvtWaitForSignal\<close>: the same compare-and-exchange; the loop ends when it
  returns \<open>EVENT_STATE_SIGNALED\<close>.
\<close>

definition EvtWaitForSignal_turn :: "EVENT \<Rightarrow> bool \<times> EVENT" where
  "EvtWaitForSignal_turn Event =
     (let exchangeValue = (if EventTypeNotification = EventType Event then EVENT_STATE_SIGNALED
                           else EVENT_STATE_NOT_SIGNALED);
          old = State Event
      in (EVENT_STATE_SIGNALED = old, if old = EVENT_STATE_SIGNALED then Event\<lparr>State := exchangeValue\<rparr> else Event))"

lemma sync_type_valid [simp]: "\<not> EventTypeReserved \<le> EventTypeSynchronization"
  by (simp add: word_le_nat_alt)

section \<open>Interleavings\<close>

record evt_system =
  Evt :: EVENT
  Waiting :: nat
  Passed :: nat
  Signals :: nat

inductive evt_step :: "evt_system \<Rightarrow> evt_system \<Rightarrow> bool" where
  signal: "evt_step s (s\<lparr>Evt := EvtSignal (Evt s), Signals := Signals s + 1\<rparr>)"
| clear: "evt_step s (s\<lparr>Evt := EvtClearSignal (Evt s)\<rparr>)"
| start_wait: "evt_step s (s\<lparr>Waiting := Waiting s + 1\<rparr>)"
| turn: "0 < Waiting s \<Longrightarrow> EvtWaitForSignal_turn (Evt s) = (through, e) \<Longrightarrow>
    evt_step s (if through then s\<lparr>Evt := e, Waiting := Waiting s - 1, Passed := Passed s + 1\<rparr>
                else s\<lparr>Evt := e\<rparr>)"
| poll: "EvtIsSignaled (Evt s) = (through, e) \<Longrightarrow>
    evt_step s (s\<lparr>Evt := e, Passed := Passed s + (if through then 1 else 0)\<rparr>)"

inductive evt_run :: "evt_system \<Rightarrow> evt_system \<Rightarrow> bool" where
  refl: "evt_run s s"
| trans: "evt_run s t \<Longrightarrow> evt_step t u \<Longrightarrow> evt_run s u"

inductive_cases evt_stepE: "evt_step s t"

lemma EventType_signal [simp]: "EventType (EvtSignal e) = EventType e"
  and EventType_clear [simp]: "EventType (EvtClearSignal e) = EventType e"
  and State_signal [simp]: "State (EvtSignal e) = EVENT_STATE_SIGNALED"
  and State_clear [simp]: "State (EvtClearSignal e) = EVENT_STATE_NOT_SIGNALED"
  by (simp_all add: EvtSignal_def EvtClearSignal_def)

text \<open>The number of waiters that may still pass without a new signal.\<close>

definition pending :: "evt_system \<Rightarrow> nat" where
  "pending s = (if State (Evt s) = EVENT_STATE_SIGNALED then 1 else 0)"

lemma sync_step:
  assumes "evt_step s t" and "EventType (Evt s) = EventTypeSynchronization"
  shows "EventType (Evt t) = EventTypeSynchronization \<and>
    Passed t + pending t + Signals s \<le> Passed s + pending s + Signals t"
  using assms
  by (cases rule: evt_step.cases) (auto simp: pending_def EvtWaitForSignal_turn_def EvtIsSignaled_def Let_def split: if_splits)

lemma notification_step:
  assumes "evt_step s t" and "EventType (Evt s) = EventTypeNotification" and "t \<noteq> s\<lparr>Evt := EvtClearSignal (Evt s)\<rparr>"
  shows "EventType (Evt t) = EventTypeNotification \<and>
    (State (Evt s) = EVENT_STATE_SIGNALED \<longrightarrow> State (Evt t) = EVENT_STATE_SIGNALED)"
  using assms
  by (cases rule: evt_step.cases) (auto simp: EvtWaitForSignal_turn_def EvtIsSignaled_def Let_def split: if_splits)

definition evt_start :: "EVENT \<Rightarrow> evt_system" where
  "evt_start e = \<lparr>Evt = e, Waiting = 0, Passed = 0, Signals = 0\<rparr>"

text \<open>
  C15. A synchronization event is seen at most once per signal (once more if it was created
  signaled), by a waiter that gets through or by a poll that answers yes, whatever the interleaving
  of signals, clears, polls and waiting CPUs.
\<close>

theorem sync_event_one_per_signal:
  assumes "EvtInitialize (Some junk) EventTypeSynchronization Signaled = (status, Some e)"
    and "evt_run (evt_start e) s"
  shows "Passed s \<le> Signals s + (if Signaled then 1 else 0)"
proof -
  have e: "EventType e = EventTypeSynchronization" "State e = (if Signaled then 1 else 0)"
    using assms(1) by (auto simp: EvtInitialize_def)
  have "EventType (Evt s) = EventTypeSynchronization \<and>
      Passed s + pending s \<le> Signals s + (if Signaled then 1 else 0)"
    using assms(2)
  proof (induction "evt_start e" s)
    case refl
    then show ?case using e by (simp add: evt_start_def pending_def)
  next
    case (trans t u)
    with sync_step [of t u] show ?case by fastforce
  qed
  then show ?thesis by simp
qed

definition no_event :: EVENT where "no_event = \<lparr>State = 0, EventType = 0\<rparr>"

text \<open>Two CPUs wait, one signal comes, one of them gets through, and a poll sees no signal any more.\<close>

definition demo_evt :: "BYTE \<Rightarrow> nat \<Rightarrow> nat \<Rightarrow> nat \<Rightarrow> evt_system" where
  "demo_evt st w p g = \<lparr>Evt = \<lparr>State = st, EventType = EventTypeSynchronization\<rparr>, Waiting = w, Passed = p, Signals = g\<rparr>"

lemma evt_run_demo: "evt_run (evt_start \<lparr>State = 0, EventType = 1\<rparr>) (demo_evt 0 1 1 1)"
proof -
  note d = demo_evt_def numeral_2_eq_2
  have s1: "evt_step (demo_evt 0 0 0 0) (demo_evt 0 1 0 0)" and s2: "evt_step (demo_evt 0 1 0 0) (demo_evt 0 2 0 0)"
    and s3: "evt_step (demo_evt 0 2 0 0) (demo_evt 1 2 0 1)"
    using start_wait [of "demo_evt 0 0 0 0"] start_wait [of "demo_evt 0 1 0 0"] signal [of "demo_evt 0 2 0 0"]
    by (simp_all add: d EvtSignal_def)
  have s4: "evt_step (demo_evt 1 2 0 1) (demo_evt 0 1 1 1)"
    using turn [of "demo_evt 1 2 0 1" True "\<lparr>State = 0, EventType = 1\<rparr>"] by (simp add: d EvtWaitForSignal_turn_def)
  have s5: "evt_step (demo_evt 0 1 1 1) (demo_evt 0 1 1 1)"
    using poll [of "demo_evt 0 1 1 1" False "\<lparr>State = 0, EventType = 1\<rparr>"] by (simp add: d EvtIsSignaled_def)
  have "evt_start \<lparr>State = 0, EventType = 1\<rparr> = demo_evt 0 0 0 0" by (simp add: evt_start_def d)
  with s1 s2 s3 s4 s5 show ?thesis by (metis evt_run.refl evt_run.trans)
qed

theorem sync_event_one_per_signal_witness:
  "evt_run (evt_start \<lparr>State = 0, EventType = 1\<rparr>) (demo_evt 0 1 1 1) \<and>
   0 < Passed (demo_evt 0 1 1 1) \<and> Passed (demo_evt 0 1 1 1) \<le> Signals (demo_evt 0 1 1 1)"
proof (intro conjI evt_run_demo)
  show "0 < Passed (demo_evt 0 1 1 1)" by (simp add: demo_evt_def)
  have "EvtInitialize (Some no_event) EventTypeSynchronization False = (STATUS_SUCCESS, Some \<lparr>State = 0, EventType = 1\<rparr>)"
    by (simp add: EvtInitialize_def no_event_def)
  from sync_event_one_per_signal [OF this evt_run_demo]
  show "Passed (demo_evt 0 1 1 1) \<le> Signals (demo_evt 0 1 1 1)" by simp
qed

end
