(* ===== verification/Timer.thy ===== *)
theory Timer
  imports Prelude
begin

text \<open>
  Executive timers, \<^verbatim>\<open>HAL9000/src/ex_timer.c\<close>. A timer is a record; waiting is a loop that reads the
  clock and yields the processor until the trigger time is reached or the timer was stopped. The
  clock and what other threads do to the timer while the waiter is off the processor are
  parameters: \<open>clock i\<close> and \<open>world i\<close> for the \<open>i\<close>-th turn.
\<close>

text \<open>An enumeration is a signed 32-bit integer.\<close>

type_synonym EX_TIMER_TYPE = DWORD

abbreviation ExTimerTypeAbsolute :: EX_TIMER_TYPE where "ExTimerTypeAbsolute \<equiv> 0"
abbreviation ExTimerTypeRelativeOnce :: EX_TIMER_TYPE where "ExTimerTypeRelativeOnce \<equiv> 1"
abbreviation ExTimerTypeRelativePeriodic :: EX_TIMER_TYPE where "ExTimerTypeRelativePeriodic \<equiv> 2"
abbreviation ExTimerTypeMax :: EX_TIMER_TYPE where "ExTimerTypeMax \<equiv> ExTimerTypeRelativePeriodic"

record EX_TIMER =
  TriggerTimeUs :: QWORD
  ReloadTimeUs :: QWORD
  Type :: EX_TIMER_TYPE
  TimerStarted :: bool
  TimerUninited :: bool

definition ZERO_TIMER :: EX_TIMER where
  "ZERO_TIMER = \<lparr>TriggerTimeUs = 0, ReloadTimeUs = 0, Type = 0, TimerStarted = False, TimerUninited = False\<rparr>"

text \<open>\<open>now\<close> is the system time when the function reads it; \<open>None\<close> for a timer is the NULL pointer.\<close>

definition ExTimerInit :: "QWORD \<Rightarrow> EX_TIMER option \<Rightarrow> EX_TIMER_TYPE \<Rightarrow> QWORD \<Rightarrow> STATUS \<times> EX_TIMER option" where
  "ExTimerInit now Timer T Time = (case Timer of
     None \<Rightarrow> (STATUS_INVALID_PARAMETER1, None)
   | Some _ \<Rightarrow>
       if sint T > sint ExTimerTypeMax then (STATUS_INVALID_PARAMETER2, Timer)
       else let t = ZERO_TIMER\<lparr>Type := T\<rparr>
            in (STATUS_SUCCESS,
                Some (if Type t \<noteq> ExTimerTypeAbsolute then t\<lparr>TriggerTimeUs := now + Time, ReloadTimeUs := Time\<rparr>
                      else t\<lparr>TriggerTimeUs := Time\<rparr>)))"

definition ExTimerStart :: "EX_TIMER \<Rightarrow> EX_TIMER" where
  "ExTimerStart Timer = (if TimerUninited Timer then Timer else Timer\<lparr>TimerStarted := True\<rparr>)"

definition ExTimerStop :: "EX_TIMER \<Rightarrow> EX_TIMER" where
  "ExTimerStop Timer = (if TimerUninited Timer then Timer else Timer\<lparr>TimerStarted := False\<rparr>)"

text \<open>
  The waiting loop from turn \<open>i\<close>: it reads the clock, and yields when it goes on. The result is
  the timer and the number of the turn in which the loop ended.
\<close>

partial_function (option) wait_loop ::
    "(nat \<Rightarrow> QWORD) \<Rightarrow> (nat \<Rightarrow> EX_TIMER \<Rightarrow> EX_TIMER) \<Rightarrow> nat \<Rightarrow> EX_TIMER \<Rightarrow> (EX_TIMER \<times> nat) option" where
  "wait_loop clock world i Timer =
     (if clock i < TriggerTimeUs Timer \<and> TimerStarted Timer then wait_loop clock world (Suc i) (world i Timer)
      else Some (Timer, i))"

definition ExTimerWait ::
    "(nat \<Rightarrow> QWORD) \<Rightarrow> (nat \<Rightarrow> EX_TIMER \<Rightarrow> EX_TIMER) \<Rightarrow> EX_TIMER \<Rightarrow> (EX_TIMER \<times> nat) option" where
  "ExTimerWait clock world Timer = (if TimerUninited Timer then Some (Timer, 0) else wait_loop clock world 0 Timer)"

definition ExTimerUninit :: "EX_TIMER \<Rightarrow> EX_TIMER" where
  "ExTimerUninit Timer = (let Timer = ExTimerStop Timer in Timer\<lparr>TimerUninited := True\<rparr>)"

text \<open>The result is an INT64: the 64-bit difference, read as a signed number.\<close>

definition ExTimerCompareTimers :: "EX_TIMER \<Rightarrow> EX_TIMER \<Rightarrow> QWORD" where
  "ExTimerCompareTimers FirstElem SecondElem = TriggerTimeUs FirstElem - TriggerTimeUs SecondElem"

text \<open>The timer as the waiter finds it in turn \<open>i\<close>.\<close>

fun timer_at :: "(nat \<Rightarrow> EX_TIMER \<Rightarrow> EX_TIMER) \<Rightarrow> EX_TIMER \<Rightarrow> nat \<Rightarrow> EX_TIMER" where
  "timer_at world Timer 0 = Timer"
| "timer_at world Timer (Suc i) = world i (timer_at world Timer i)"

lemma wait_loop_goes_on:
  assumes "\<forall>j. i \<le> j \<and> j < n \<longrightarrow> clock j < TriggerTimeUs (timer_at world T j) \<and> TimerStarted (timer_at world T j)"
    and "i \<le> n"
  shows "wait_loop clock world i (timer_at world T i) = wait_loop clock world n (timer_at world T n)"
  using assms(2,1)
proof (induction rule: inc_induct)
  case (step k)
  have "wait_loop clock world k (timer_at world T k) = wait_loop clock world (Suc k) (timer_at world T (Suc k))"
    using step by (subst wait_loop.simps) simp
  then show ?case using step by simp
qed simp

lemma wait_loop_ends:
  assumes "\<exists>n. \<not> (clock n < TriggerTimeUs (timer_at world T n) \<and> TimerStarted (timer_at world T n))"
  shows "\<exists>n. wait_loop clock world 0 T = Some (timer_at world T n, n) \<and>
    \<not> (clock n < TriggerTimeUs (timer_at world T n) \<and> TimerStarted (timer_at world T n)) \<and>
    (\<forall>i < n. clock i < TriggerTimeUs (timer_at world T i) \<and> TimerStarted (timer_at world T i))"
proof -
  from assms obtain n where n: "\<not> (clock n < TriggerTimeUs (timer_at world T n) \<and> TimerStarted (timer_at world T n))"
    "\<forall>i < n. clock i < TriggerTimeUs (timer_at world T i) \<and> TimerStarted (timer_at world T i)"
    using exists_least_iff [of "\<lambda>n. \<not> (clock n < TriggerTimeUs (timer_at world T n) \<and> TimerStarted (timer_at world T n))"]
    by blast
  have "wait_loop clock world 0 (timer_at world T 0) = wait_loop clock world n (timer_at world T n)"
    by (rule wait_loop_goes_on) (use n in auto)
  moreover have "wait_loop clock world n (timer_at world T n) = Some (timer_at world T n, n)"
    by (subst wait_loop.simps) (use n(1) in auto)
  ultimately show ?thesis using n by auto
qed

text \<open>
  \<open>ExTimerCompareTimers\<close> orders two timers by their trigger times as long as these are less than
  \<open>2 ^ 63\<close> microseconds apart: then the result is the exact difference. For times further apart
  the difference wraps and its sign is always the wrong one.
\<close>

theorem ExTimerCompareTimers_orders:
  "let d = uint (TriggerTimeUs a) - uint (TriggerTimeUs b); r = sint (ExTimerCompareTimers a b)
   in if - (2 ^ 63) \<le> d \<and> d < 2 ^ 63 then r = d else (r < 0) \<noteq> (d < 0)"
proof -
  let ?a = "TriggerTimeUs a" and ?b = "TriggerTimeUs b"
  have u: "0 \<le> uint ?a" "uint ?a < 2 ^ 64" "0 \<le> uint ?b" "uint ?b < 2 ^ 64"
    using uint_bounded [of ?a] uint_bounded [of ?b] by simp_all
  have "sint (?a - ?b) = signed_take_bit 63 (uint ?a - uint ?b)"
    by (simp add: sint_uint uint_word_arith_bintrs signed_take_bit_take_bit)
  also have "\<dots> = (uint ?a - uint ?b + 2 ^ 63) mod 2 ^ 64 - 2 ^ 63"
    by (simp add: signed_take_bit_eq_take_bit_shift take_bit_eq_mod)
  finally have r: "sint (ExTimerCompareTimers a b) = (uint ?a - uint ?b + 2 ^ 63) mod 2 ^ 64 - 2 ^ 63"
    by (simp add: ExTimerCompareTimers_def)
  define d where "d = uint ?a - uint ?b"
  have d: "- (2 ^ 64) < d" "d < 2 ^ 64" using u unfolding d_def by linarith+
  consider "- (2 ^ 63) \<le> d \<and> d < 2 ^ 63" | "2 ^ 63 \<le> d" | "d < - (2 ^ 63)" by linarith
  then show ?thesis
  proof cases
    case 1
    then have "(d + 2 ^ 63) mod 2 ^ 64 = d + 2 ^ 63" by (intro mod_pos_pos_trivial) simp_all
    with 1 show ?thesis unfolding Let_def r by (simp flip: d_def)
  next
    case 2
    have "(d + 2 ^ 63) mod 2 ^ 64 = (d + 2 ^ 63 - 2 ^ 64) mod 2 ^ 64" by (rule minus_mod_self2 [symmetric])
    also have "\<dots> = d + 2 ^ 63 - 2 ^ 64" using 2 d by (intro mod_pos_pos_trivial) simp_all
    finally show ?thesis using 2 d unfolding Let_def r by (simp flip: d_def)
  next
    case 3
    have "(d + 2 ^ 63) mod 2 ^ 64 = (d + 2 ^ 63 + 2 ^ 64) mod 2 ^ 64" by (rule mod_add_self2 [symmetric])
    also have "\<dots> = d + 2 ^ 63 + 2 ^ 64" using 3 d by (intro mod_pos_pos_trivial) simp_all
    finally show ?thesis using 3 d unfolding Let_def r by (simp flip: d_def)
  qed
qed

text \<open>
  C20. \<open>ExTimerWait\<close> returns if the clock reaches the trigger time: on an uninitialised timer at once,
  otherwise in the first turn in which the trigger time is reached or another thread has stopped the
  timer, and not before. Other threads may start and stop the timer but not change its trigger time.
\<close>

theorem ExTimerWait_returns:
  assumes "\<exists>n. TriggerTimeUs T \<le> clock n" and "\<forall>i t. TriggerTimeUs (world i t) = TriggerTimeUs t"
  shows "\<exists>n. ExTimerWait clock world T = Some (timer_at world T n, n) \<and>
    (TimerUninited T \<and> n = 0 \<or> TriggerTimeUs T \<le> clock n \<or> \<not> TimerStarted (timer_at world T n)) \<and>
    (\<forall>i < n. clock i < TriggerTimeUs T \<and> TimerStarted (timer_at world T i))"
proof -
  have same: "TriggerTimeUs (timer_at world T n) = TriggerTimeUs T" for n
    using assms(2) by (induction n) simp_all
  have "\<exists>n. \<not> (clock n < TriggerTimeUs (timer_at world T n) \<and> TimerStarted (timer_at world T n))"
    using assms(1) unfolding same by (meson leD)
  from wait_loop_ends [OF this] show ?thesis
    unfolding same ExTimerWait_def by (cases "TimerUninited T") force+
qed

theorem ExTimerWait_returns_witness:
  "\<exists>n. ExTimerWait (\<lambda>i. 10 * of_nat i) (\<lambda>_ t. t) (ExTimerStart (the (snd (ExTimerInit 0 (Some ZERO_TIMER) 1 25)))) =
     Some (\<lparr>TriggerTimeUs = 25, ReloadTimeUs = 25, Type = 1, TimerStarted = True, TimerUninited = False\<rparr>, n)"
proof -
  define T where "T = \<lparr>TriggerTimeUs = 25, ReloadTimeUs = 25, Type = 1, TimerStarted = True, TimerUninited = False\<rparr>"
  have T: "ExTimerStart (the (snd (ExTimerInit 0 (Some ZERO_TIMER) 1 25))) = T"
    by (simp add: ExTimerInit_def ExTimerStart_def ZERO_TIMER_def T_def Let_def)
  have at: "timer_at (\<lambda>_ t. t) T n = T" for n by (induction n) simp_all
  have "TriggerTimeUs T \<le> 10 * of_nat 3" by (simp add: T_def)
  then have "\<exists>n. TriggerTimeUs T \<le> 10 * of_nat n" by blast
  from ExTimerWait_returns [OF this, of "\<lambda>_ t. t"] show ?thesis unfolding T at by (auto simp: T_def)
qed

end
