(* ===== verification/Queues.thy ===== *)
theory Queues
  imports Lists
begin

text \<open>
  Several lists in one store of links. The thread system keeps the ready list and the waiting
  lists of mutexes and events through the same link of a thread, so an operation on one list must
  leave the others alone. \<open>queues st H Q\<close> says that the lists with the heads \<open>H\<close> hold the entries
  \<open>Q\<close> and have no entry in common. The facts rest on the interface of the list library.
\<close>

named_theorems queue_intros \<open>how the list operations act on a family of lists\<close>

definition queues :: "list_store \<Rightarrow> PVOID set \<Rightarrow> (PVOID \<Rightarrow> PVOID list) \<Rightarrow> bool" where
  "queues st H Q \<longleftrightarrow> (\<forall>h \<in> H. dll st h (Q h)) \<and>
     (\<forall>h \<in> H. \<forall>k \<in> H. h \<noteq> k \<longrightarrow> set (h # Q h) \<inter> set (k # Q k) = {})"

definition queued :: "PVOID set \<Rightarrow> (PVOID \<Rightarrow> PVOID list) \<Rightarrow> PVOID set" where
  "queued H Q = H \<union> (\<Union>h \<in> H. set (Q h))"

lemma queues_dll: "queues st H Q \<Longrightarrow> h \<in> H \<Longrightarrow> dll st h (Q h)"
  by (simp add: queues_def)

lemma queues_disjoint:
  "queues st H Q \<Longrightarrow> h \<in> H \<Longrightarrow> k \<in> H \<Longrightarrow> h \<noteq> k \<Longrightarrow> set (h # Q h) \<inter> set (k # Q k) = {}"
  unfolding queues_def by blast

lemma queues_distinct:
  assumes "queues st H Q" and "h \<in> H"
  shows "distinct (Q h)" and "NULL \<notin> set (Q h)" and "h \<notin> set (Q h)" and "h \<noteq> NULL"
  using dll_not_null [OF queues_dll [OF assms]] by blast+

lemma queues_only_one:
  "queues st H Q \<Longrightarrow> h \<in> H \<Longrightarrow> k \<in> H \<Longrightarrow> e \<in> set (Q h) \<Longrightarrow> e \<in> set (Q k) \<Longrightarrow> h = k"
  using queues_disjoint [of st H Q h k] by auto

text \<open>An operation on the list \<open>h\<close> that leaves every list apart from \<open>h\<close> and \<open>e\<close> alone.\<close>

lemma queues_update:
  assumes q: "queues st H Q" and h: "h \<in> H" and new: "dll st' h xs"
    and sub: "set xs \<subseteq> insert e (set (Q h))" and e: "e \<in> set (h # Q h) \<or> e \<notin> queued H Q"
    and frame: "\<And>k ys. dll st k ys \<Longrightarrow> set (k # ys) \<inter> set (e # h # Q h) = {} \<Longrightarrow> dll st' k ys"
  shows "queues st' H (Q(h := xs))"
proof -
  have other: "set (k # Q k) \<inter> set (e # h # Q h) = {}" if "k \<in> H" "k \<noteq> h" for k
    using queues_disjoint [OF q that(1) h that(2)] e that h by (auto simp: queued_def)
  show ?thesis
    unfolding queues_def
  proof (intro conjI ballI impI)
    fix k assume "k \<in> H"
    then show "dll st' k ((Q(h := xs)) k)"
      using new frame [OF queues_dll [OF q]] other by (cases "k = h") auto
  next
    fix j k assume jk: "j \<in> H" "k \<in> H" "j \<noteq> k"
    have sub': "set (h # xs) \<subseteq> set (e # h # Q h)" using sub by auto
    show "set (j # (Q(h := xs)) j) \<inter> set (k # (Q(h := xs)) k) = {}"
      using queues_disjoint [OF q jk] other [OF jk(1)] other [OF jk(2)] sub' jk(3)
      by (cases "j = h"; cases "k = h") (simp_all, blast+)
  qed
qed

lemma queues_enq [queue_intros]:
  assumes q: "queues st H Q" and h: "h \<in> H" and e: "e \<noteq> NULL" "e \<notin> queued H Q"
  shows "\<exists>st'. InsertTailList st h e = Some st' \<and> queues st' H (Q(h := Q h @ [e]))"
proof -
  have "e \<notin> set (h # Q h)" using e(2) h by (auto simp: queued_def)
  from lq.enq_ok [OF queues_dll [OF q h] e(1) this] obtain st' where
    st': "InsertTailList st h e = Some st'" "dll st' h (Q h @ [e])"
    and frame: "\<forall>k ys. dll st k ys \<and> set (k # ys) \<inter> set (e # h # Q h) = {} \<longrightarrow> dll st' k ys" by blast
  have "queues st' H (Q(h := Q h @ [e]))"
    by (rule queues_update [OF q h st'(2), of e]) (use e frame in auto)
  with st'(1) show ?thesis by blast
qed

lemma queues_deq_Nil [queue_intros]:
  "queues st H Q \<Longrightarrow> h \<in> H \<Longrightarrow> Q h = [] \<Longrightarrow> RemoveHeadList st h = Some (h, st)"
  using lq.deq_Nil queues_dll by fastforce

lemma queues_deq_Cons [queue_intros]:
  assumes q: "queues st H Q" and h: "h \<in> H" and x: "Q h = x # xs"
  shows "\<exists>st'. RemoveHeadList st h = Some (x, st') \<and> queues st' H (Q(h := xs)) \<and> x \<noteq> h \<and>
    x \<notin> queued H (Q(h := xs))"
proof -
  from lq.deq_Cons [of st h x xs] queues_dll [OF q h] obtain st' where
    st': "RemoveHeadList st h = Some (x, st')" "dll st' h xs"
    and frame: "\<forall>k ys. dll st k ys \<and> set (k # ys) \<inter> set (h # xs) = {} \<longrightarrow> dll st' k ys"
    unfolding x by blast
  have q': "queues st' H (Q(h := xs))"
    by (rule queues_update [OF q h st'(2), of h]) (use x frame in auto)
  have "x \<notin> set (h # xs)" using queues_distinct [OF q h] x by auto
  moreover have "x \<notin> set (k # Q k)" if "k \<in> H" "k \<noteq> h" for k
    using queues_disjoint [OF q that(1) h that(2)] x by auto
  ultimately have "x \<noteq> h" "x \<notin> queued H (Q(h := xs))" by (auto simp: queued_def)
  with st'(1) q' show ?thesis by blast
qed

lemma queued_enq: "h \<in> H \<Longrightarrow> queued H (Q(h := Q h @ [e])) = insert e (queued H Q)"
  by (auto simp: queued_def split: if_splits)

end
