(* ===== verification/Threads.thy ===== *)
theory Threads
  imports Queues RefCnt
begin

text \<open>
  The thread system, \<^verbatim>\<open>HAL9000/src/thread.c\<close>, and what it shares a control flow with: the executive
  events of \<^verbatim>\<open>ex_event.c\<close> and the thread lists of \<^verbatim>\<open>process.c\<close>. Threads, events and processes are
  records by address; their list links are in one store. A CPU is the address of its PCPU.

  A function that switches threads returns in another thread. What the old thread still has to do
  is kept as its \<open>continuation\<close>; \<open>ThreadResume\<close> runs the rest of the call the current thread is in.
  Every function runs between two switches without interference: the code holds the lock of each
  structure it changes and interrupts are off around a switch. Of a lock only the holder is kept
  where the code asks for it, as it does for \<open>BlockLock\<close>; the locks themselves are in the theory
  \<open>Spinlocks\<close>. Stacks and names are addresses; memory that is handed back, page-table switches and
  cleared memory are listed in \<open>Calls\<close>.
\<close>

section \<open>State\<close>

datatype THREAD_STATE = ThreadStateRunning | ThreadStateReady | ThreadStateBlocked | ThreadStateDying

text \<open>
  Where a thread is that does not run: at its start, behind the switch in \<open>ThreadYield\<close>, in
  \<open>MutexAcquire\<close>, in \<open>ExEventWaitForSignal\<close> or in the loop of the idle thread. The truth value is
  the local variable \<open>oldState\<close> of the function.
\<close>

datatype continuation =
  Running
| Starting
| InThreadYield bool
| InMutexAcquire PVOID bool
| InEventWait PVOID bool
| InIdleThread

text \<open>What \<open>ThreadSwitch\<close> and \<open>ThreadStart\<close> load from the stack of a thread that has not run yet.\<close>

record initial_frame =
  Rcx :: QWORD
  Rdx :: QWORD
  Rip :: QWORD
  CS :: WORD
  RFLAGS :: QWORD
  Rsp :: QWORD
  SS :: WORD

datatype kernel_call =
  MmuFreeStack PVOID PVOID
| ExFreePoolWithTag PVOID
| memzero PVOID QWORD
| VmmChangeCr3 PVOID bool
| ProcessFree free_call PVOID
| WriteStack PVOID initial_frame

record THREAD =
  RefCnt :: REF_COUNT
  Id :: QWORD
  Name :: PVOID
  Priority :: DWORD
  State :: THREAD_STATE
  ExitStatus :: STATUS
  Flags :: DWORD
  BlockLock :: PVOID
  TickCountCompleted :: QWORD
  UninterruptedTicks :: QWORD
  TickCountEarly :: QWORD
  InitialStackBase :: PVOID
  StackSize :: DWORD
  Stack :: PVOID
  UserStack :: PVOID
  Process :: PVOID
  Continue :: continuation

record EX_EVENT =
  EventType :: DWORD
  Signaled :: bool

record PROCESS =
  ProcessRefCnt :: REF_COUNT
  ProcessId :: QWORD
  TerminationStatus :: STATUS
  NumberOfThreads :: DWORD
  ActiveThreads :: DWORD
  KernelSpace :: bool

record THREADING_DATA =
  RunningThreadTicks :: DWORD
  IdleThread :: PVOID
  CurrentThread :: PVOID
  PreviousThread :: PVOID
  YieldOnInterruptReturn :: bool
  IdleTicks :: QWORD
  KernelTicks :: QWORD

record thread_system =
  Threads :: "PVOID \<Rightarrow> THREAD"
  Events :: "PVOID \<Rightarrow> EX_EVENT"
  Processes :: "PVOID \<Rightarrow> PROCESS"
  Cpus :: "PVOID \<Rightarrow> THREADING_DATA"
  IntrOn :: "PVOID \<Rightarrow> bool"
  Links :: list_store
  ReadyThreadsList :: PVOID
  AllThreadsList :: PVOID
  CurrentTid :: QWORD
  Calls :: "kernel_call list"

abbreviation THREAD_FLAG_FORCE_TERMINATE_PENDING :: DWORD where "THREAD_FLAG_FORCE_TERMINATE_PENDING \<equiv> 1"
abbreviation THREAD_FLAG_FORCE_TERMINATED :: DWORD where "THREAD_FLAG_FORCE_TERMINATED \<equiv> 2"
abbreviation THREAD_TIME_SLICE :: DWORD where "THREAD_TIME_SLICE \<equiv> 1"
abbreviation TID_INCREMENT :: QWORD where "TID_INCREMENT \<equiv> 4"
abbreviation ThreadPriorityDefault :: DWORD where "ThreadPriorityDefault \<equiv> 16"
abbreviation ThreadPriorityMaximum :: DWORD where "ThreadPriorityMaximum \<equiv> 31"
abbreviation ExEventTypeNotification :: DWORD where "ExEventTypeNotification \<equiv> 0"
abbreviation ExEventTypeSynchronization :: DWORD where "ExEventTypeSynchronization \<equiv> 1"
abbreviation ExEventTypeReserved :: DWORD where "ExEventTypeReserved \<equiv> 2"
abbreviation STACK_DEFAULT_SIZE :: DWORD where "STACK_DEFAULT_SIZE \<equiv> 0x4000"
abbreviation SIZEOF_THREAD :: QWORD where "SIZEOF_THREAD \<equiv> 0x148"

text \<open>The addresses of the fields of a thread, an event and a process that are list links or events.\<close>

definition AllList :: "PVOID \<Rightarrow> PVOID" where "AllList t = t + 0xD8"
definition ReadyList :: "PVOID \<Rightarrow> PVOID" where "ReadyList t = t + 0xE8"
definition ProcessList :: "PVOID \<Rightarrow> PVOID" where "ProcessList t = t + 0xF8"
definition TerminationEvt :: "PVOID \<Rightarrow> PVOID" where "TerminationEvt t = t + 0x38"
definition WaitingList :: "PVOID \<Rightarrow> PVOID" where "WaitingList evt = evt + 0x40"
definition ProcessTerminationEvt :: "PVOID \<Rightarrow> PVOID" where "ProcessTerminationEvt p = p + 0x38"
definition ThreadList :: "PVOID \<Rightarrow> PVOID" where "ThreadList p = p + 0xD8"

definition THREAD_of_ReadyList :: "PVOID \<Rightarrow> PVOID" where "THREAD_of_ReadyList link = link - 0xE8"
definition THREAD_of_ProcessList :: "PVOID \<Rightarrow> PVOID" where "THREAD_of_ProcessList link = link - 0xF8"

definition upd_thread :: "PVOID \<Rightarrow> (THREAD \<Rightarrow> THREAD) \<Rightarrow> thread_system \<Rightarrow> thread_system" where
  "upd_thread t f s = s\<lparr>Threads := (Threads s)(t := f (Threads s t))\<rparr>"

definition upd_cpu :: "PVOID \<Rightarrow> (THREADING_DATA \<Rightarrow> THREADING_DATA) \<Rightarrow> thread_system \<Rightarrow> thread_system" where
  "upd_cpu c f s = s\<lparr>Cpus := (Cpus s)(c := f (Cpus s c))\<rparr>"

definition upd_event :: "PVOID \<Rightarrow> (EX_EVENT \<Rightarrow> EX_EVENT) \<Rightarrow> thread_system \<Rightarrow> thread_system" where
  "upd_event e f s = s\<lparr>Events := (Events s)(e := f (Events s e))\<rparr>"

definition upd_process :: "PVOID \<Rightarrow> (PROCESS \<Rightarrow> PROCESS) \<Rightarrow> thread_system \<Rightarrow> thread_system" where
  "upd_process p f s = s\<lparr>Processes := (Processes s)(p := f (Processes s p))\<rparr>"

definition call :: "kernel_call \<Rightarrow> thread_system \<Rightarrow> thread_system" where
  "call k s = s\<lparr>Calls := Calls s @ [k]\<rparr>"

definition set_intr :: "PVOID \<Rightarrow> bool \<Rightarrow> thread_system \<Rightarrow> thread_system" where
  "set_intr c b s = s\<lparr>IntrOn := (IntrOn s)(c := b)\<rparr>"

abbreviation GetCurrentThread :: "PVOID \<Rightarrow> thread_system \<Rightarrow> PVOID" where
  "GetCurrentThread c s \<equiv> CurrentThread (Cpus s c)"

section \<open>Waking threads: events\<close>

definition ThreadSystemPreinit :: "thread_system \<Rightarrow> thread_system" where
  "ThreadSystemPreinit s =
     (let s = s\<lparr>Links := InitializeListHead (Links s) (AllThreadsList s)\<rparr>
      in s\<lparr>Links := InitializeListHead (Links s) (ReadyThreadsList s)\<rparr>)"

definition ThreadSystemGetNextTid :: "thread_system \<Rightarrow> QWORD \<times> thread_system" where
  "ThreadSystemGetNextTid s = (CurrentTid s, s\<lparr>CurrentTid := CurrentTid s + TID_INCREMENT\<rparr>)"

text \<open>
  Taking the \<open>BlockLock\<close> of a thread. If this CPU holds it the lock asserts; if another one does,
  the call spins until that CPU has switched away from the thread, which is a later step.
\<close>

definition BlockLockAcquire :: "PVOID \<Rightarrow> PVOID \<Rightarrow> thread_system \<Rightarrow> thread_system option" where
  "BlockLockAcquire c t s = do {
     ASSERT (BlockLock (Threads s t) = NULL);
     Some (upd_thread t (\<lambda>x. x\<lparr>BlockLock := c\<rparr>) s)
   }"

definition BlockLockRelease :: "PVOID \<Rightarrow> PVOID \<Rightarrow> thread_system \<Rightarrow> thread_system option" where
  "BlockLockRelease c t s = do {
     ASSERT (BlockLock (Threads s t) = c);
     Some (upd_thread t (\<lambda>x. x\<lparr>BlockLock := NULL\<rparr>) s)
   }"

definition ThreadUnblock :: "PVOID \<Rightarrow> PVOID \<Rightarrow> thread_system \<Rightarrow> thread_system option" where
  "ThreadUnblock c Thread s = do {
     ASSERT (NULL \<noteq> Thread);
     s \<leftarrow> BlockLockAcquire c Thread s;
     ASSERT (ThreadStateBlocked = State (Threads s Thread));
     let s = upd_thread Thread (\<lambda>x. x\<lparr>State := ThreadStateReady\<rparr>) s;
     links \<leftarrow> InsertTailList (Links s) (ReadyThreadsList s) (ReadyList Thread);
     BlockLockRelease c Thread (s\<lparr>Links := links\<rparr>)
   }"

definition ExEventInit :: "PVOID \<Rightarrow> DWORD \<Rightarrow> bool \<Rightarrow> thread_system \<Rightarrow> STATUS \<times> thread_system" where
  "ExEventInit Event Type Sig s =
     (if Event = NULL then (STATUS_INVALID_PARAMETER1, s)
      else if sint Type \<ge> sint ExEventTypeReserved then (STATUS_INVALID_PARAMETER2, s)
      else (STATUS_SUCCESS, upd_event Event (\<lambda>e. e\<lparr>EventType := Type, Signaled := Sig\<rparr>)
              (s\<lparr>Links := InitializeListHead (Links s) (WaitingList Event)\<rparr>)))"

text \<open>The loop over the waiting list; the thread to wake up is a constant in the code.\<close>

definition pThreadToSignal :: PVOID where "pThreadToSignal = 0xFFFF700000003000"

partial_function (option) signal_loop :: "PVOID \<Rightarrow> PVOID \<Rightarrow> thread_system \<Rightarrow> thread_system option" where
  "signal_loop c Event s = do {
     (pEntry, links) \<leftarrow> RemoveHeadList (Links s) (WaitingList Event);
     let s = s\<lparr>Links := links\<rparr>;
     (if pEntry \<noteq> WaitingList Event then do {
        s \<leftarrow> ThreadUnblock c pThreadToSignal s;
        (if ExEventTypeSynchronization = EventType (Events s Event) then Some s
         else signal_loop c Event s)
      }
      else Some s)
   }"

definition ExEventSignal :: "PVOID \<Rightarrow> PVOID \<Rightarrow> thread_system \<Rightarrow> thread_system option" where
  "ExEventSignal c Event s = do {
     ASSERT (NULL \<noteq> Event);
     signal_loop c Event (upd_event Event (\<lambda>e. e\<lparr>Signaled := True\<rparr>) s)
   }"

definition ExEventClearSignal :: "PVOID \<Rightarrow> thread_system \<Rightarrow> thread_system option" where
  "ExEventClearSignal Event s = do {
     ASSERT (NULL \<noteq> Event);
     Some (upd_event Event (\<lambda>e. e\<lparr>Signaled := False\<rparr>) s)
   }"

section \<open>The thread list of a process\<close>

definition ProcessReference :: "PVOID \<Rightarrow> thread_system \<Rightarrow> thread_system option" where
  "ProcessReference p s = do {
     ASSERT (NULL \<noteq> p);
     (_, r) \<leftarrow> RfcReference (ProcessRefCnt (Processes s p));
     Some (upd_process p (\<lambda>x. x\<lparr>ProcessRefCnt := r\<rparr>) s)
   }"

definition ProcessDereference :: "PVOID \<Rightarrow> thread_system \<Rightarrow> thread_system option" where
  "ProcessDereference p s = do {
     ASSERT (NULL \<noteq> p);
     (_, r, calls) \<leftarrow> RfcDereference (ProcessRefCnt (Processes s p));
     let s = upd_process p (\<lambda>x. x\<lparr>ProcessRefCnt := r\<rparr>) s;
     Some (s\<lparr>Calls := Calls s @ map (\<lambda>f. ProcessFree f p) calls\<rparr>)
   }"

definition ProcessInsertThreadInList :: "PVOID \<Rightarrow> PVOID \<Rightarrow> thread_system \<Rightarrow> thread_system option" where
  "ProcessInsertThreadInList p Thread s = do {
     ASSERT (p \<noteq> NULL);
     ASSERT (Thread \<noteq> NULL);
     let s = upd_thread Thread (\<lambda>x. x\<lparr>Process := p\<rparr>) s;
     ASSERT (NumberOfThreads (Processes s p) < MAX_DWORD);
     let s = upd_process p (\<lambda>x. x\<lparr>NumberOfThreads := NumberOfThreads x + 1,
                                        ActiveThreads := ActiveThreads x + 1\<rparr>) s;
     ASSERT (ActiveThreads (Processes s p) \<le> NumberOfThreads (Processes s p));
     links \<leftarrow> InsertTailList (Links s) (ThreadList p) (ProcessList Thread);
     ProcessReference p (s\<lparr>Links := links\<rparr>)
   }"

definition ProcessNotifyThreadTermination :: "PVOID \<Rightarrow> PVOID \<Rightarrow> thread_system \<Rightarrow> thread_system option" where
  "ProcessNotifyThreadTermination c Thread s = do {
     ASSERT (Thread \<noteq> NULL);
     let p = Process (Threads s Thread);
     ASSERT (p \<noteq> NULL);
     let s = upd_process p (\<lambda>x. x\<lparr>ActiveThreads := ActiveThreads x - 1\<rparr>) s;
     (if ActiveThreads (Processes s p) = 0
      then ExEventSignal c (ProcessTerminationEvt p)
             (upd_process p (\<lambda>x. x\<lparr>TerminationStatus := ExitStatus (Threads s Thread)\<rparr>) s)
      else Some s)
   }"

definition ProcessRemoveThreadFromList :: "PVOID \<Rightarrow> thread_system \<Rightarrow> thread_system option" where
  "ProcessRemoveThreadFromList Thread s = do {
     ASSERT (Thread \<noteq> NULL);
     let p = Process (Threads s Thread);
     ASSERT (p \<noteq> NULL);
     let remainingThreads = NumberOfThreads (Processes s p) - 1;
     let s = upd_process p (\<lambda>x. x\<lparr>NumberOfThreads := remainingThreads\<rparr>) s;
     ASSERT (remainingThreads \<noteq> MAX_DWORD);
     (_, links) \<leftarrow> RemoveEntryList (Links s) (ProcessList Thread);
     s \<leftarrow> ProcessDereference p (s\<lparr>Links := links\<rparr>);
     (if remainingThreads = 0 then ProcessDereference p s else Some s)
   }"

definition ProcessActivatePagingTables :: "PVOID \<Rightarrow> bool \<Rightarrow> thread_system \<Rightarrow> thread_system option" where
  "ProcessActivatePagingTables p InvalidateAddressSpace s = do {
     ASSERT (p \<noteq> NULL);
     ASSERT (0 < ProcessId (Processes s p) \<and> ProcessId (Processes s p) < 0x1000);
     Some (call (VmmChangeCr3 p InvalidateAddressSpace) s)
   }"

section \<open>The scheduler\<close>

text \<open>
  Destroying a thread: the free function of its reference count. The stacks, the name and the
  thread itself are handed back; of the process only its list and counters change here.
\<close>

definition ThreadDestroy :: "PVOID \<Rightarrow> PVOID \<Rightarrow> thread_system \<Rightarrow> thread_system option" where
  "ThreadDestroy Thread Ctx s = do {
     ASSERT (NULL \<noteq> Thread);
     ASSERT (NULL = Ctx);
     let t = Threads s Thread;
     let s = (if UserStack t \<noteq> NULL
              then upd_thread Thread (\<lambda>x. x\<lparr>UserStack := NULL\<rparr>) (call (MmuFreeStack (UserStack t) (Process t)) s)
              else s);
     s \<leftarrow> ProcessRemoveThreadFromList Thread s;
     let s = (if Name t \<noteq> NULL
              then upd_thread Thread (\<lambda>x. x\<lparr>Name := NULL\<rparr>) (call (ExFreePoolWithTag (Name t)) s)
              else s);
     let s = (if Stack t \<noteq> NULL
              then upd_thread Thread (\<lambda>x. x\<lparr>Stack := NULL\<rparr>) (call (MmuFreeStack (Stack t) NULL) s)
              else s);
     Some (call (ExFreePoolWithTag Thread) s)
   }"

definition ThreadReference :: "PVOID \<Rightarrow> thread_system \<Rightarrow> thread_system option" where
  "ThreadReference Thread s = do {
     ASSERT (NULL \<noteq> Thread);
     (_, r) \<leftarrow> RfcReference (RefCnt (Threads s Thread));
     Some (upd_thread Thread (\<lambda>x. x\<lparr>RefCnt := r\<rparr>) s)
   }"

definition ThreadDereference :: "PVOID \<Rightarrow> thread_system \<Rightarrow> thread_system option" where
  "ThreadDereference Thread s = do {
     ASSERT (NULL \<noteq> Thread);
     (_, r, calls) \<leftarrow> RfcDereference (RefCnt (Threads s Thread));
     let s = upd_thread Thread (\<lambda>x. x\<lparr>RefCnt := r\<rparr>) s;
     (if calls = [] then Some s else ThreadDestroy Thread (snd (hd calls)) s)
   }"

definition SetCurrentThread :: "PVOID \<Rightarrow> PVOID \<Rightarrow> thread_system \<Rightarrow> thread_system" where
  "SetCurrentThread c Thread s = upd_cpu c (\<lambda>d. d\<lparr>CurrentThread := Thread\<rparr>) s"

definition ThreadGetReadyThread :: "PVOID \<Rightarrow> thread_system \<Rightarrow> (PVOID \<times> thread_system) option" where
  "ThreadGetReadyThread c s = do {
     ASSERT (\<not> IntrOn s c);
     (pEntry, links) \<leftarrow> RemoveHeadList (Links s) (ReadyThreadsList s);
     let s = s\<lparr>Links := links\<rparr>;
     (if pEntry = ReadyThreadsList s then Some (IdleThread (Cpus s c), s)
      else do {
        let next_thread = THREAD_of_ReadyList pEntry;
        ASSERT (State (Threads s next_thread) = ThreadStateReady);
        Some (next_thread, s)
      })
   }"

definition ThreadCleanupPostSchedule :: "PVOID \<Rightarrow> thread_system \<Rightarrow> thread_system option" where
  "ThreadCleanupPostSchedule c s = do {
     ASSERT (\<not> IntrOn s c);
     let s = upd_cpu c (\<lambda>d. d\<lparr>RunningThreadTicks := 0\<rparr>) s;
     let prevThread = PreviousThread (Cpus s c);
     (if NULL \<noteq> prevThread then
        if BlockLock (Threads s prevThread) = c then do {
          ASSERT (State (Threads s prevThread) = ThreadStateBlocked \<or> prevThread = IdleThread (Cpus s c));
          BlockLockRelease c prevThread s
        }
        else if State (Threads s prevThread) = ThreadStateDying then do {
          s \<leftarrow> ThreadDereference prevThread s;
          Some (upd_cpu c (\<lambda>d. d\<lparr>PreviousThread := NULL\<rparr>) s)
        }
        else Some s
      else Some s)
   }"

text \<open>
  \<open>ThreadSwitch\<close> continues in the next thread, whose first action, behind its own switch or in
  \<open>ThreadStart\<close>, is \<open>ThreadCleanupPostSchedule\<close>.
\<close>

definition ThreadSchedule :: "PVOID \<Rightarrow> thread_system \<Rightarrow> thread_system option" where
  "ThreadSchedule c s = do {
     ASSERT (\<not> IntrOn s c);
     let cur = GetCurrentThread c s;
     ASSERT (NULL \<noteq> cur);
     let s = upd_cpu c (\<lambda>d. d\<lparr>PreviousThread := cur\<rparr>) s;
     (next_thread, s) \<leftarrow> ThreadGetReadyThread c s;
     ASSERT (NULL \<noteq> next_thread);
     (next_thread, s) \<leftarrow>
       (if State (Threads s cur) = ThreadStateReady then
          if next_thread = IdleThread (Cpus s c)
          then Some (cur, upd_thread cur (\<lambda>x. x\<lparr>UninterruptedTicks := UninterruptedTicks x + 1\<rparr>) s)
          else if cur \<noteq> IdleThread (Cpus s c) then do {
            links \<leftarrow> InsertTailList (Links s) (ReadyThreadsList s) (ReadyList cur);
            Some (next_thread, upd_thread cur (\<lambda>x. x\<lparr>UninterruptedTicks := 0\<rparr>) (s\<lparr>Links := links\<rparr>))
          }
          else Some (next_thread, s)
        else Some (next_thread, s));
     s \<leftarrow>
       (if next_thread \<noteq> cur then do {
          s \<leftarrow> (if Process (Threads s cur) \<noteq> Process (Threads s next_thread)
                then ProcessActivatePagingTables (Process (Threads s next_thread)) False s
                else Some s);
          Some (SetCurrentThread c next_thread s)
        }
        else Some s);
     ThreadCleanupPostSchedule c s
   }"

definition ThreadExit :: "PVOID \<Rightarrow> STATUS \<Rightarrow> thread_system \<Rightarrow> thread_system option" where
  "ThreadExit c Status s = do {
     let t = GetCurrentThread c s;
     let s = set_intr c False s;
     (_, links) \<leftarrow> RemoveEntryList (Links s) (AllList t);
     let s = s\<lparr>Links := links\<rparr>;
     s \<leftarrow> (if BlockLock (Threads s t) = c then BlockLockRelease c t s else Some s);
     let s = upd_thread t (\<lambda>x. x\<lparr>State := ThreadStateDying, ExitStatus := Status\<rparr>) s;
     s \<leftarrow> ExEventSignal c (TerminationEvt t) s;
     s \<leftarrow> ProcessNotifyThreadTermination c t s;
     ThreadSchedule c s
   }"

definition ThreadForcedExit :: "PVOID \<Rightarrow> thread_system \<Rightarrow> thread_system option" where
  "ThreadForcedExit c s =
     ThreadExit c STATUS_JOB_INTERRUPTED
       (upd_thread (GetCurrentThread c s) (\<lambda>x. x\<lparr>Flags := Flags x OR THREAD_FLAG_FORCE_TERMINATED\<rparr>) s)"

text \<open>\<open>k\<close> is where the thread continues when it is scheduled again.\<close>

definition ThreadBlock :: "PVOID \<Rightarrow> continuation \<Rightarrow> thread_system \<Rightarrow> thread_system option" where
  "ThreadBlock c k s = do {
     let cur = GetCurrentThread c s;
     ASSERT (\<not> IntrOn s c);
     ASSERT (BlockLock (Threads s cur) = c);
     (if THREAD_FLAG_FORCE_TERMINATE_PENDING = Flags (Threads s cur) then ThreadForcedExit c s
      else ThreadSchedule c
        (upd_thread cur (\<lambda>x. x\<lparr>TickCountEarly := TickCountEarly x + 1, State := ThreadStateBlocked, Continue := k\<rparr>) s))
   }"

definition ThreadTakeBlockLock :: "PVOID \<Rightarrow> thread_system \<Rightarrow> thread_system option" where
  "ThreadTakeBlockLock c s = do {
     ASSERT (\<not> IntrOn s c);
     BlockLockAcquire c (GetCurrentThread c s) s
   }"

definition ThreadYield :: "PVOID \<Rightarrow> thread_system \<Rightarrow> thread_system option" where
  "ThreadYield c s = do {
     let t = GetCurrentThread c s;
     ASSERT (NULL \<noteq> t);
     let oldState = IntrOn s c;
     let s = set_intr c False s;
     let s = upd_cpu c (\<lambda>d. d\<lparr>YieldOnInterruptReturn := False\<rparr>) s;
     (if THREAD_FLAG_FORCE_TERMINATE_PENDING = Flags (Threads s t) then ThreadForcedExit c s
      else ThreadSchedule c
        (upd_thread t (\<lambda>x. x\<lparr>TickCountEarly := TickCountEarly x + 1, State := ThreadStateReady,
                            Continue := InThreadYield oldState\<rparr>) s))
   }"

definition ThreadTick :: "PVOID \<Rightarrow> thread_system \<Rightarrow> thread_system option" where
  "ThreadTick c s = do {
     ASSERT (\<not> IntrOn s c);
     let t = GetCurrentThread c s;
     let s = upd_cpu c (\<lambda>d. if IdleThread d = t then d\<lparr>IdleTicks := IdleTicks d + 1\<rparr>
                            else d\<lparr>KernelTicks := KernelTicks d + 1\<rparr>) s;
     let s = upd_thread t (\<lambda>x. x\<lparr>TickCountCompleted := TickCountCompleted x + 1\<rparr>) s;
     Some (upd_cpu c (\<lambda>d. let d = d\<lparr>RunningThreadTicks := RunningThreadTicks d + 1\<rparr>
                          in if RunningThreadTicks d \<ge> THREAD_TIME_SLICE then d\<lparr>YieldOnInterruptReturn := True\<rparr> else d) s)
   }"

definition ThreadYieldOnInterrupt :: "PVOID \<Rightarrow> thread_system \<Rightarrow> bool" where
  "ThreadYieldOnInterrupt c s = YieldOnInterruptReturn (Cpus s c)"

definition ThreadCloseHandle :: "PVOID \<Rightarrow> thread_system \<Rightarrow> thread_system option" where
  "ThreadCloseHandle Thread s = do { ASSERT (NULL \<noteq> Thread); ThreadDereference Thread s }"

definition ThreadTerminate :: "PVOID \<Rightarrow> thread_system \<Rightarrow> thread_system option" where
  "ThreadTerminate Thread s = do {
     ASSERT (NULL \<noteq> Thread);
     Some (upd_thread Thread (\<lambda>x. x\<lparr>Flags := Flags x OR THREAD_FLAG_FORCE_TERMINATE_PENDING\<rparr>) s)
   }"

definition ThreadGetId :: "PVOID \<Rightarrow> PVOID \<Rightarrow> thread_system \<Rightarrow> QWORD" where
  "ThreadGetId c Thread s =
     (let t = (if NULL \<noteq> Thread then Thread else GetCurrentThread c s)
      in if NULL \<noteq> t then Id (Threads s t) else 0)"

definition ThreadGetPriority :: "PVOID \<Rightarrow> PVOID \<Rightarrow> thread_system \<Rightarrow> DWORD" where
  "ThreadGetPriority c Thread s =
     (let t = (if NULL \<noteq> Thread then Thread else GetCurrentThread c s)
      in if NULL \<noteq> t then Priority (Threads s t) else 0)"

definition ThreadSetPriority :: "PVOID \<Rightarrow> DWORD \<Rightarrow> thread_system \<Rightarrow> thread_system option" where
  "ThreadSetPriority c NewPriority s = do {
     ASSERT (0 \<le> NewPriority \<and> NewPriority \<le> ThreadPriorityMaximum);
     Some (upd_thread (GetCurrentThread c s) (\<lambda>x. x\<lparr>Priority := NewPriority\<rparr>) s)
   }"

section \<open>Waiting\<close>

text \<open>
  One turn of the loop of \<open>ExEventWaitForSignal\<close>: the wait is over, or the thread blocks. The
  compare-and-exchange leaves a notification signaled and clears a synchronization event.
\<close>

definition event_wait_loop :: "PVOID \<Rightarrow> PVOID \<Rightarrow> bool \<Rightarrow> thread_system \<Rightarrow> thread_system option" where
  "event_wait_loop c Event oldState s =
     (let cur = GetCurrentThread c s;
          newState = (ExEventTypeNotification = EventType (Events s Event));
          old = Signaled (Events s Event);
          s = (if old then upd_event Event (\<lambda>e. e\<lparr>Signaled := newState\<rparr>) s else s)
      in if old then Some (set_intr c oldState (upd_thread cur (\<lambda>x. x\<lparr>Continue := Running\<rparr>) s))
         else do {
           links \<leftarrow> InsertTailList (Links s) (WaitingList Event) (ReadyList cur);
           s \<leftarrow> ThreadTakeBlockLock c (s\<lparr>Links := links\<rparr>);
           ThreadBlock c (InEventWait Event oldState) s
         })"

definition ExEventWaitForSignal :: "PVOID \<Rightarrow> PVOID \<Rightarrow> thread_system \<Rightarrow> thread_system option" where
  "ExEventWaitForSignal c Event s = do {
     ASSERT (NULL \<noteq> Event);
     ASSERT (NULL \<noteq> GetCurrentThread c s);
     event_wait_loop c Event (IntrOn s c) (set_intr c False s)
   }"

text \<open>The exit status is read when the wait is over.\<close>

definition ThreadWaitForTermination :: "PVOID \<Rightarrow> PVOID \<Rightarrow> thread_system \<Rightarrow> thread_system option" where
  "ThreadWaitForTermination c Thread s = do {
     ASSERT (NULL \<noteq> Thread);
     ExEventWaitForSignal c (TerminationEvt Thread) s
   }"

definition IdleThread_turn :: "PVOID \<Rightarrow> thread_system \<Rightarrow> thread_system option" where
  "IdleThread_turn c s = do {
     let s = set_intr c False s;
     s \<leftarrow> ThreadTakeBlockLock c s;
     ThreadBlock c InIdleThread s
   }"

section \<open>Creating threads\<close>

text \<open>
  Code is known by its address; the model only needs that the address of \<open>_ThreadDestroy\<close> is not
  NULL. The results of the three allocations are parameters.
\<close>

abbreviation ThreadDestroyFunction :: PVOID where "ThreadDestroyFunction \<equiv> 1"

definition ZERO_THREAD :: THREAD where
  "ZERO_THREAD = \<lparr>RefCnt = \<lparr>ReferenceCount = 0, FreeFunction = NULL, Context = NULL\<rparr>, Id = 0, Name = NULL,
     Priority = 0, State = ThreadStateRunning, ExitStatus = 0, Flags = 0, BlockLock = NULL,
     TickCountCompleted = 0, UninterruptedTicks = 0, TickCountEarly = 0, InitialStackBase = NULL,
     StackSize = 0, Stack = NULL, UserStack = NULL, Process = NULL, Continue = Running\<rparr>"

definition ThreadInit ::
    "DWORD \<Rightarrow> bool \<Rightarrow> PVOID \<Rightarrow> PVOID \<Rightarrow> PVOID \<Rightarrow> thread_system \<Rightarrow> (STATUS \<times> PVOID \<times> thread_system) option" where
  "ThreadInit Prio AllocateKernelStack pThread pStack pName s = do {
     ASSERT (0 \<le> Prio \<and> Prio \<le> ThreadPriorityMaximum);
     (if NULL = pThread then Some (STATUS_HEAP_INSUFFICIENT_RESOURCES, NULL, s)
      else do {
        let s = call (memzero pThread (SIZEOF_THREAD * 2)) s;
        let s = upd_thread pThread
          (\<lambda>_. ZERO_THREAD\<lparr>RefCnt := \<lparr>ReferenceCount = 1, FreeFunction = ThreadDestroyFunction, Context = NULL\<rparr>\<rparr>) s;
        let (_, s) = ExEventInit (TerminationEvt pThread) ExEventTypeNotification False s;
        (if AllocateKernelStack \<and> NULL = pStack then do {
           s \<leftarrow> ThreadDereference pThread s;
           Some (STATUS_MEMORY_CANNOT_BE_COMMITED, NULL, s)
         }
         else do {
           let s = (if AllocateKernelStack
                    then upd_thread pThread (\<lambda>x. x\<lparr>Stack := pStack, InitialStackBase := pStack, StackSize := STACK_DEFAULT_SIZE\<rparr>) s
                    else s);
           (if NULL = pName then do {
              s \<leftarrow> ThreadDereference pThread s;
              Some (STATUS_HEAP_INSUFFICIENT_RESOURCES, NULL, s)
            }
            else do {
              let (tid, s) = ThreadSystemGetNextTid s;
              let s = upd_thread pThread (\<lambda>x. x\<lparr>Name := pName, Id := tid, State := ThreadStateBlocked,
                        Priority := Prio, BlockLock := NULL\<rparr>) s;
              links \<leftarrow> InsertTailList (Links s) (AllThreadsList s) (AllList pThread);
              Some (STATUS_SUCCESS, pThread, s\<lparr>Links := links\<rparr>)
            })
         })
      })
   }"

text \<open>The selectors of the GDT are parameters, as code and data selector of either ring.\<close>

definition ThreadSetupInitialState ::
    "(WORD \<times> WORD) \<Rightarrow> (WORD \<times> WORD) \<Rightarrow> PVOID \<Rightarrow> PVOID \<Rightarrow> QWORD \<Rightarrow> QWORD \<Rightarrow> bool \<Rightarrow> thread_system \<Rightarrow>
     thread_system option" where
  "ThreadSetupInitialState Supervisor Usermode Thread StartFunction FirstArgument SecondArgument KernelStack s = do {
     ASSERT (NULL \<noteq> Thread);
     ASSERT (NULL \<noteq> StartFunction);
     let pIst = Stack (Threads s Thread) - 8 * (4 + 1) - 0x28;
     ASSERT (\<not> KernelStack \<longrightarrow> UserStack (Threads s Thread) \<noteq> NULL);
     let frame = \<lparr>Rcx = FirstArgument, Rdx = SecondArgument, Rip = StartFunction,
        CS = (if KernelStack then fst Supervisor else fst Usermode OR 3), RFLAGS = 0x200 OR 0x2,
        Rsp = (if KernelStack then pIst + 0x28 else UserStack (Threads s Thread)),
        SS = (if KernelStack then snd Supervisor else snd Usermode OR 3)\<rparr>;
     let pStack = pIst - 8 - 0x90;
     Some (upd_thread Thread (\<lambda>x. x\<lparr>Stack := pStack, Continue := Starting\<rparr>) (call (WriteStack pStack frame) s))
   }"

definition ThreadSetupMainThreadUserStack :: "PVOID \<Rightarrow> PVOID \<Rightarrow> (STATUS \<times> PVOID) option" where
  "ThreadSetupMainThreadUserStack InitialStack p = do {
     ASSERT (InitialStack \<noteq> NULL);
     ASSERT (p \<noteq> NULL);
     Some (STATUS_SUCCESS, InitialStack)
   }"

text \<open>
  \<open>ThreadCreateEx\<close>. Beside the memory it gets the parameters are the address of
  \<open>_ThreadKernelFunction\<close>, and of the process the entry point and the number of arguments.
\<close>

record thread_memory =
  ThreadMemory :: PVOID
  StackMemory :: PVOID
  NameMemory :: PVOID
  UserStackMemory :: PVOID

record image_info =
  AddressOfEntryPoint :: PVOID
  NumberOfArguments :: DWORD
  KernelFunction :: PVOID
  SupervisorSelectors :: "WORD \<times> WORD"
  UsermodeSelectors :: "WORD \<times> WORD"

definition thread_start ::
    "PVOID \<Rightarrow> PVOID \<Rightarrow> PVOID \<Rightarrow> image_info \<Rightarrow> PVOID \<Rightarrow> PVOID \<Rightarrow> thread_system \<Rightarrow>
     (STATUS \<times> PVOID \<times> QWORD \<times> QWORD \<times> thread_system) option" where
  "thread_start pThread Function Ctx img p pUserStack s =
     (if \<not> KernelSpace (Processes s p) then
        let s = upd_thread pThread (\<lambda>x. x\<lparr>UserStack := pUserStack\<rparr>) s
        in if pUserStack = NULL then Some (STATUS_MEMORY_CANNOT_BE_COMMITED, NULL, 0, 0, s)
           else if Function = AddressOfEntryPoint img then do {
             ASSERT (NumberOfThreads (Processes s p) = 1);
             (status, pStack) \<leftarrow> ThreadSetupMainThreadUserStack pUserStack p;
             Some (STATUS_SUCCESS, AddressOfEntryPoint img, ucast (NumberOfArguments img),
               pStack + (0x20 + 8), upd_thread pThread (\<lambda>x. x\<lparr>UserStack := pStack\<rparr>) s)
           }
           else Some (STATUS_SUCCESS, Function, Ctx, 0,
             upd_thread pThread (\<lambda>x. x\<lparr>UserStack := pUserStack - (0x20 + 8)\<rparr>) s)
      else Some (STATUS_SUCCESS, KernelFunction img, Function, Ctx, s))"

definition ThreadCreateEx ::
    "PVOID \<Rightarrow> DWORD \<Rightarrow> PVOID \<Rightarrow> PVOID \<Rightarrow> PVOID \<Rightarrow> image_info \<Rightarrow> thread_memory \<Rightarrow> bool \<times> bool \<Rightarrow> thread_system \<Rightarrow>
     (STATUS \<times> PVOID \<times> thread_system) option" where
  "ThreadCreateEx c Prio Function Ctx p img memory nulls s =
     (if fst nulls then Some (STATUS_INVALID_PARAMETER1, NULL, s)
      else if NULL = Function then Some (STATUS_INVALID_PARAMETER3, NULL, s)
      else if snd nulls then Some (STATUS_INVALID_PARAMETER5, NULL, s)
      else if NULL = p then Some (STATUS_INVALID_PARAMETER6, NULL, s)
      else do {
        (status, pThread, s) \<leftarrow> ThreadInit Prio True (ThreadMemory memory) (StackMemory memory) (NameMemory memory) s;
        (if \<not> SUCCEEDED status then Some (status, NULL, s)
         else do {
           s \<leftarrow> ProcessInsertThreadInList p pThread s;
           s \<leftarrow> ThreadReference pThread s;
           (status, pStart, firstArg, secondArg, s) \<leftarrow>
             thread_start pThread Function Ctx img p (UserStackMemory memory) s;
           (if \<not> SUCCEEDED status then Some (status, NULL, s)
            else do {
              s \<leftarrow> ThreadSetupInitialState (SupervisorSelectors img) (UsermodeSelectors img) pThread pStart
                    firstArg secondArg (KernelSpace (Processes s p)) s;
              s \<leftarrow> (if NULL = IdleThread (Cpus s c)
                    then Some (upd_cpu c (\<lambda>d. d\<lparr>IdleThread := pThread\<rparr>)
                           (upd_thread pThread (\<lambda>x. x\<lparr>State := ThreadStateReady\<rparr>) s))
                    else ThreadUnblock c pThread s);
              Some (STATUS_SUCCESS, pThread, s)
            })
         })
      })"

end
