(* ===== verification/Mutexes.thy ===== *)
theory Mutexes
  imports Threads
begin

text \<open>
  Mutexes, \<^verbatim>\<open>HAL9000/src/mutex.c\<close>, and the rest of a call that a thread switch interrupted. A thread
  that finds the mutex held appends itself to the waiting list and blocks; a release hands the mutex
  to the first waiter and makes that thread ready.
\<close>

record MUTEX =
  CurrentRecursivityDepth :: BYTE
  MaxRecursivityDepth :: BYTE
  Holder :: PVOID

record kernel =
  Sys :: thread_system
  Mutexes :: "PVOID \<Rightarrow> MUTEX"

abbreviation MUTEX_MAX_RECURSIVITY_DEPTH :: BYTE where "MUTEX_MAX_RECURSIVITY_DEPTH \<equiv> MAX_BYTE"

definition MutexWaitingList :: "PVOID \<Rightarrow> PVOID" where "MutexWaitingList m = m + 0x48"

definition upd_mutex :: "PVOID \<Rightarrow> (MUTEX \<Rightarrow> MUTEX) \<Rightarrow> kernel \<Rightarrow> kernel" where
  "upd_mutex m f k = k\<lparr>Mutexes := (Mutexes k)(m := f (Mutexes k m))\<rparr>"

definition MutexInit :: "PVOID \<Rightarrow> bool \<Rightarrow> kernel \<Rightarrow> kernel option" where
  "MutexInit m Recursive k = do {
     ASSERT (NULL \<noteq> m);
     let s = Sys k;
     let s = s\<lparr>Links := InitializeListHead (Links s) (MutexWaitingList m)\<rparr>;
     Some (upd_mutex m (\<lambda>_. \<lparr>CurrentRecursivityDepth = 0,
       MaxRecursivityDepth = (if Recursive then MUTEX_MAX_RECURSIVITY_DEPTH else 1), Holder = NULL\<rparr>) (k\<lparr>Sys := s\<rparr>))
   }"

text \<open>The loop of \<open>MutexAcquire\<close>, up to the next switch or to the end of the call.\<close>

definition mutex_wait_loop :: "PVOID \<Rightarrow> PVOID \<Rightarrow> bool \<Rightarrow> kernel \<Rightarrow> kernel option" where
  "mutex_wait_loop c m oldState k =
     (let s = Sys k; cur = GetCurrentThread c s
      in if Holder (Mutexes k m) \<noteq> cur then do {
           links \<leftarrow> InsertTailList (Links s) (MutexWaitingList m) (ReadyList cur);
           s \<leftarrow> ThreadTakeBlockLock c (s\<lparr>Links := links\<rparr>);
           s \<leftarrow> ThreadBlock c (InMutexAcquire m oldState) s;
           Some (k\<lparr>Sys := s\<rparr>)
         }
         else Some (k\<lparr>Sys := set_intr c oldState (upd_thread cur (\<lambda>x. x\<lparr>Continue := Running\<rparr>) s)\<rparr>))"

definition MutexAcquire :: "PVOID \<Rightarrow> PVOID \<Rightarrow> kernel \<Rightarrow> kernel option" where
  "MutexAcquire c m k = do {
     ASSERT (NULL \<noteq> m);
     let cur = GetCurrentThread c (Sys k);
     ASSERT (NULL \<noteq> cur);
     (if cur = Holder (Mutexes k m) then do {
        ASSERT (CurrentRecursivityDepth (Mutexes k m) < MaxRecursivityDepth (Mutexes k m));
        Some (upd_mutex m (\<lambda>x. x\<lparr>CurrentRecursivityDepth := CurrentRecursivityDepth x + 1\<rparr>) k)
      }
      else
        let oldState = IntrOn (Sys k) c;
            k = k\<lparr>Sys := set_intr c False (Sys k)\<rparr>;
            k = (if NULL = Holder (Mutexes k m)
                 then upd_mutex m (\<lambda>x. x\<lparr>Holder := cur, CurrentRecursivityDepth := 1\<rparr>) k else k)
        in mutex_wait_loop c m oldState k)
   }"

definition MutexRelease :: "PVOID \<Rightarrow> PVOID \<Rightarrow> kernel \<Rightarrow> kernel option" where
  "MutexRelease c m k = do {
     ASSERT (NULL \<noteq> m);
     ASSERT (GetCurrentThread c (Sys k) = Holder (Mutexes k m));
     (if CurrentRecursivityDepth (Mutexes k m) > 1
      then Some (upd_mutex m (\<lambda>x. x\<lparr>CurrentRecursivityDepth := CurrentRecursivityDepth x - 1\<rparr>) k)
      else do {
        (pEntry, links) \<leftarrow> RemoveHeadList (Links (Sys k)) (MutexWaitingList m);
        let k = k\<lparr>Sys := (Sys k)\<lparr>Links := links\<rparr>\<rparr>;
        (if pEntry \<noteq> MutexWaitingList m then do {
           let pThread = THREAD_of_ReadyList pEntry;
           let k = upd_mutex m (\<lambda>x. x\<lparr>Holder := pThread, CurrentRecursivityDepth := 1\<rparr>) k;
           s \<leftarrow> ThreadUnblock c pThread (Sys k);
           Some (k\<lparr>Sys := s\<rparr>)
         }
         else Some (upd_mutex m (\<lambda>x. x\<lparr>Holder := NULL\<rparr>) k))
      })
   }"

text \<open>
  The current thread of a CPU goes on with the call it was in. The idle thread enables interrupts
  and halts until the next one; its loop then makes another turn.
\<close>

definition ThreadResume :: "PVOID \<Rightarrow> kernel \<Rightarrow> kernel option" where
  "ThreadResume c k =
     (let s = Sys k; cur = GetCurrentThread c s;
          returns = (\<lambda>oldState. Some (k\<lparr>Sys := set_intr c oldState (upd_thread cur (\<lambda>x. x\<lparr>Continue := Running\<rparr>) s)\<rparr>))
      in case Continue (Threads s cur) of
           Running \<Rightarrow> Some k
         | Starting \<Rightarrow> returns True
         | InThreadYield oldState \<Rightarrow> returns oldState
         | InMutexAcquire m oldState \<Rightarrow> mutex_wait_loop c m oldState k
         | InEventWait Event oldState \<Rightarrow>
             if ExEventTypeNotification = EventType (Events s Event) then returns oldState
             else map_option (\<lambda>s. k\<lparr>Sys := s\<rparr>) (event_wait_loop c Event oldState s)
         | InIdleThread \<Rightarrow> returns True)"

end
