(* ===== verification/Scheduling.thy ===== *)
theory Scheduling
  imports Mutexes
begin

text \<open>
  Correctness of the thread system and of mutexes. The lists are given as lists of threads: \<open>Q h\<close>
  is the list with the head \<open>h\<close>.
\<close>

section \<open>One scheduling decision\<close>

lemma ReadyList_inject [simp]: "ReadyList a = ReadyList b \<longleftrightarrow> a = b"
  by (simp add: ReadyList_def)

lemma THREAD_of_ReadyList [simp]: "THREAD_of_ReadyList (ReadyList t) = t"
  by (simp add: THREAD_of_ReadyList_def ReadyList_def)

lemmas upd_defs = upd_thread_def upd_cpu_def upd_event_def upd_process_def call_def set_intr_def

definition thread_queues :: "list_store \<Rightarrow> PVOID set \<Rightarrow> (PVOID \<Rightarrow> PVOID list) \<Rightarrow> bool" where
  "thread_queues st H Q \<longleftrightarrow> queues st H (\<lambda>h. map ReadyList (Q h))"

definition in_queue :: "PVOID set \<Rightarrow> (PVOID \<Rightarrow> PVOID list) \<Rightarrow> PVOID \<Rightarrow> bool" where
  "in_queue H Q t \<longleftrightarrow> (\<exists>h \<in> H. t \<in> set (Q h))"

lemma map_upd_queue: "(\<lambda>h. map ReadyList ((Q(k := xs)) h)) = (\<lambda>h. map ReadyList (Q h))(k := map ReadyList xs)"
  by auto

lemma thread_queues_enq:
  assumes "thread_queues st H Q" and "h \<in> H" and "ReadyList t \<noteq> NULL" and "ReadyList t \<notin> H" and "\<not> in_queue H Q t"
  shows "\<exists>st'. InsertTailList st h (ReadyList t) = Some st' \<and> thread_queues st' H (Q(h := Q h @ [t]))"
proof -
  have "ReadyList t \<notin> queued H (\<lambda>h. map ReadyList (Q h))"
    using assms(4,5) by (auto simp: queued_def in_queue_def)
  from queues_enq [OF assms(1) [unfolded thread_queues_def] assms(2,3) this] show ?thesis
    unfolding thread_queues_def map_upd_queue by simp
qed

lemma thread_queues_Nil:
  "thread_queues st H Q \<Longrightarrow> h \<in> H \<Longrightarrow> Q h = [] \<Longrightarrow> RemoveHeadList st h = Some (h, st)"
  using queues_deq_Nil [of st H "\<lambda>h. map ReadyList (Q h)" h] by (simp add: thread_queues_def)

lemma thread_queues_deq:
  assumes "thread_queues st H Q" and "h \<in> H" and "Q h = t # ts"
  shows "\<exists>st'. RemoveHeadList st h = Some (ReadyList t, st') \<and> thread_queues st' H (Q(h := ts)) \<and>
    ReadyList t \<noteq> h \<and> \<not> in_queue H (Q(h := ts)) t"
proof -
  have "map ReadyList (Q h) = ReadyList t # map ReadyList ts" using assms(3) by simp
  from queues_deq_Cons [OF assms(1) [unfolded thread_queues_def] assms(2), of "ReadyList t" "map ReadyList ts"] this
  show ?thesis unfolding thread_queues_def map_upd_queue
    by (auto simp: queued_def in_queue_def split: if_splits)
qed

text \<open>What a scheduling decision leaves of the state: \<open>u\<close> are the new tick counts.\<close>

definition switched :: "PVOID \<Rightarrow> PVOID \<Rightarrow> (PVOID \<Rightarrow> QWORD) \<Rightarrow> thread_system \<Rightarrow> thread_system \<Rightarrow> bool" where
  "switched c new u s s' \<longleftrightarrow>
     Threads s' = (\<lambda>t. (Threads s t)\<lparr>UninterruptedTicks := u t,
       BlockLock := if t = GetCurrentThread c s then NULL else BlockLock (Threads s t)\<rparr>) \<and>
     GetCurrentThread c s' = new \<and> IdleThread (Cpus s' c) = IdleThread (Cpus s c) \<and>
     (\<forall>d. d \<noteq> c \<longrightarrow> Cpus s' d = Cpus s d) \<and>
     Events s' = Events s \<and> Processes s' = Processes s \<and> IntrOn s' = IntrOn s \<and>
     ReadyThreadsList s' = ReadyThreadsList s \<and> AllThreadsList s' = AllThreadsList s"

definition process_ok :: "thread_system \<Rightarrow> PVOID \<Rightarrow> bool" where
  "process_ok s p \<longleftrightarrow> p \<noteq> NULL \<and> 0 < ProcessId (Processes s p) \<and> ProcessId (Processes s p) < 0x1000"

lemma ProcessActivatePagingTables_ok:
  "process_ok s p \<Longrightarrow> ProcessActivatePagingTables p b s = Some (call (VmmChangeCr3 p b) s)"
  by (simp add: ProcessActivatePagingTables_def process_ok_def)

definition next_thread :: "PVOID \<Rightarrow> thread_system \<Rightarrow> (PVOID \<Rightarrow> PVOID list) \<Rightarrow> PVOID" where
  "next_thread c s Q =
     (case Q (ReadyThreadsList s) of
        [] \<Rightarrow> if State (Threads s (GetCurrentThread c s)) = ThreadStateReady then GetCurrentThread c s
              else IdleThread (Cpus s c)
      | t # _ \<Rightarrow> t)"

definition requeued :: "PVOID \<Rightarrow> thread_system \<Rightarrow> (PVOID \<Rightarrow> PVOID list) \<Rightarrow> PVOID list" where
  "requeued c s Q =
     (case Q (ReadyThreadsList s) of
        [] \<Rightarrow> []
      | _ # ts \<Rightarrow> if State (Threads s (GetCurrentThread c s)) = ThreadStateReady \<and>
                     GetCurrentThread c s \<noteq> IdleThread (Cpus s c)
                  then ts @ [GetCurrentThread c s] else ts)"

lemma cleanup_result:
  assumes "\<not> IntrOn s c" and "c \<noteq> NULL" and "PreviousThread (Cpus s c) = p" and "p \<noteq> NULL"
    and "State (Threads s p) = ThreadStateReady \<and> BlockLock (Threads s p) = NULL \<or>
      State (Threads s p) = ThreadStateBlocked \<and> BlockLock (Threads s p) = c"
  shows "\<exists>s'. ThreadCleanupPostSchedule c s = Some s' \<and> Links s' = Links s \<and>
    Threads s' = (\<lambda>t. (Threads s t)\<lparr>BlockLock := if t = p then NULL else BlockLock (Threads s t)\<rparr>) \<and>
    Cpus s' = (Cpus s)(c := (Cpus s c)\<lparr>RunningThreadTicks := 0\<rparr>) \<and>
    Events s' = Events s \<and> Processes s' = Processes s \<and> IntrOn s' = IntrOn s \<and>
    ReadyThreadsList s' = ReadyThreadsList s \<and> AllThreadsList s' = AllThreadsList s"
proof (cases "BlockLock (Threads s p) = c")
  case True
  then have "ThreadCleanupPostSchedule c s =
      Some (upd_thread p (\<lambda>x. x\<lparr>BlockLock := NULL\<rparr>) (upd_cpu c (\<lambda>d. d\<lparr>RunningThreadTicks := 0\<rparr>) s))"
    using assms by (simp add: ThreadCleanupPostSchedule_def BlockLockRelease_def upd_defs Let_def)
  then show ?thesis by (simp add: upd_defs fun_eq_iff)
next
  case False
  then have free: "BlockLock (Threads s p) = NULL" and
    "ThreadCleanupPostSchedule c s = Some (upd_cpu c (\<lambda>d. d\<lparr>RunningThreadTicks := 0\<rparr>) s)"
    using assms by (auto simp: ThreadCleanupPostSchedule_def upd_defs Let_def)
  then show ?thesis by (simp add: upd_defs fun_eq_iff)
qed

definition switch_to :: "PVOID \<Rightarrow> PVOID \<Rightarrow> PVOID \<Rightarrow> thread_system \<Rightarrow> thread_system option" where
  "switch_to c cur new s = do {
     s \<leftarrow> (if new \<noteq> cur then do {
            s \<leftarrow> (if Process (Threads s cur) \<noteq> Process (Threads s new)
                  then ProcessActivatePagingTables (Process (Threads s new)) False s else Some s);
            Some (SetCurrentThread c new s)
          }
          else Some s);
     ThreadCleanupPostSchedule c s }"

lemma switch_to_result:
  assumes "\<not> IntrOn s c" and "c \<noteq> NULL" and "PreviousThread (Cpus s c) = p" and "p \<noteq> NULL"
    and "GetCurrentThread c s = p" and "new = p \<or> process_ok s (Process (Threads s new))"
    and st: "State (Threads s p) = ThreadStateReady \<and> BlockLock (Threads s p) = NULL \<or>
      State (Threads s p) = ThreadStateBlocked \<and> BlockLock (Threads s p) = c"
  shows "\<exists>s'. switch_to c p new s = Some s' \<and> Links s' = Links s \<and>
    Threads s' = (\<lambda>t. (Threads s t)\<lparr>BlockLock := if t = p then NULL else BlockLock (Threads s t)\<rparr>) \<and>
    GetCurrentThread c s' = new \<and> IdleThread (Cpus s' c) = IdleThread (Cpus s c) \<and>
    (\<forall>d. d \<noteq> c \<longrightarrow> Cpus s' d = Cpus s d) \<and>
    Events s' = Events s \<and> Processes s' = Processes s \<and> IntrOn s' = IntrOn s \<and>
    ReadyThreadsList s' = ReadyThreadsList s \<and> AllThreadsList s' = AllThreadsList s"
proof -
  define s1 where "s1 = (if new \<noteq> p \<and> Process (Threads s p) \<noteq> Process (Threads s new)
    then call (VmmChangeCr3 (Process (Threads s new)) False) s else s)"
  define s2 where "s2 = (if new \<noteq> p then SetCurrentThread c new s1 else s1)"
  have s2: "Threads s2 = Threads s" "Links s2 = Links s" "Events s2 = Events s" "Processes s2 = Processes s"
    "IntrOn s2 = IntrOn s" "ReadyThreadsList s2 = ReadyThreadsList s" "AllThreadsList s2 = AllThreadsList s"
    "PreviousThread (Cpus s2 c) = p" "GetCurrentThread c s2 = new" "IdleThread (Cpus s2 c) = IdleThread (Cpus s c)"
    "\<forall>d. d \<noteq> c \<longrightarrow> Cpus s2 d = Cpus s d"
    using assms(3,5) by (simp_all add: s2_def s1_def SetCurrentThread_def upd_cpu_def call_def)
  have "switch_to c p new s = ThreadCleanupPostSchedule c s2"
    using assms(6) by (auto simp: switch_to_def s2_def s1_def ProcessActivatePagingTables_ok)
  moreover have inv: "\<not> IntrOn s2 c" "State (Threads s2 p) = ThreadStateReady \<and> BlockLock (Threads s2 p) = NULL \<or>
      State (Threads s2 p) = ThreadStateBlocked \<and> BlockLock (Threads s2 p) = c"
    using assms(1) st by (simp_all add: s2)
  moreover note cleanup_result [OF inv(1) assms(2) s2(8) assms(4) inv(2)]
  ultimately show ?thesis using s2(9-) unfolding s2(1-7) by (elim exE conjE) simp
qed

lemma switch_to_switched:
  assumes "\<not> IntrOn s c" and "c \<noteq> NULL" and cur: "GetCurrentThread c s = cur" "cur \<noteq> NULL"
    and s2: "Threads s2 = (\<lambda>t. (Threads s t)\<lparr>UninterruptedTicks := u t\<rparr>)"
      "Cpus s2 = (Cpus s)(c := (Cpus s c)\<lparr>PreviousThread := cur\<rparr>)" "Events s2 = Events s"
      "Processes s2 = Processes s" "IntrOn s2 = IntrOn s" "ReadyThreadsList s2 = ReadyThreadsList s"
      "AllThreadsList s2 = AllThreadsList s"
    and new: "new = cur \<or> process_ok s (Process (Threads s new))"
    and st: "State (Threads s cur) = ThreadStateReady \<and> BlockLock (Threads s cur) = NULL \<or>
      State (Threads s cur) = ThreadStateBlocked \<and> BlockLock (Threads s cur) = c"
  shows "\<exists>s'. switch_to c cur new s2 = Some s' \<and> switched c new u s s' \<and> Links s' = Links s2"
proof -
  have "\<exists>s'. switch_to c cur new s2 = Some s' \<and> Links s' = Links s2 \<and>
    Threads s' = (\<lambda>t. (Threads s2 t)\<lparr>BlockLock := if t = cur then NULL else BlockLock (Threads s2 t)\<rparr>) \<and>
    GetCurrentThread c s' = new \<and> IdleThread (Cpus s' c) = IdleThread (Cpus s2 c) \<and>
    (\<forall>d. d \<noteq> c \<longrightarrow> Cpus s' d = Cpus s2 d) \<and>
    Events s' = Events s2 \<and> Processes s' = Processes s2 \<and> IntrOn s' = IntrOn s2 \<and>
    ReadyThreadsList s' = ReadyThreadsList s2 \<and> AllThreadsList s' = AllThreadsList s2"
    by (rule switch_to_result) (use assms in \<open>simp_all add: process_ok_def\<close>)
  then obtain s' where s': "switch_to c cur new s2 = Some s'" "Links s' = Links s2"
    "Threads s' = (\<lambda>t. (Threads s2 t)\<lparr>BlockLock := if t = cur then NULL else BlockLock (Threads s2 t)\<rparr>)"
    "GetCurrentThread c s' = new" "IdleThread (Cpus s' c) = IdleThread (Cpus s2 c)"
    "\<forall>d. d \<noteq> c \<longrightarrow> Cpus s' d = Cpus s2 d"
    "Events s' = Events s2" "Processes s' = Processes s2" "IntrOn s' = IntrOn s2"
    "ReadyThreadsList s' = ReadyThreadsList s2" "AllThreadsList s' = AllThreadsList s2" by blast
  have "switched c new u s s'"
    unfolding switched_def using s'(3-) s2 cur by (simp add: fun_eq_iff)
  with s' show ?thesis by blast
qed

lemma ThreadSchedule_result:
  assumes intr: "\<not> IntrOn s c" and c: "c \<noteq> NULL"
    and q: "thread_queues (Links s) H Q" and R: "ReadyThreadsList s \<in> H"
    and cur: "GetCurrentThread c s \<noteq> NULL" "GetCurrentThread c s \<notin> set (Q (ReadyThreadsList s))"
      "ReadyList (GetCurrentThread c s) \<noteq> NULL" "ReadyList (GetCurrentThread c s) \<notin> H"
    and st: "State (Threads s (GetCurrentThread c s)) = ThreadStateReady \<and> BlockLock (Threads s (GetCurrentThread c s)) = NULL \<and>
        \<not> in_queue H Q (GetCurrentThread c s) \<or>
      State (Threads s (GetCurrentThread c s)) = ThreadStateBlocked \<and> BlockLock (Threads s (GetCurrentThread c s)) = c"
    and idle: "IdleThread (Cpus s c) \<noteq> NULL" "\<not> in_queue H Q (IdleThread (Cpus s c))"
      "process_ok s (Process (Threads s (IdleThread (Cpus s c))))"
    and ready: "\<forall>t \<in> set (Q (ReadyThreadsList s)). t \<noteq> NULL \<and> State (Threads s t) = ThreadStateReady \<and>
      process_ok s (Process (Threads s t))"
  shows "\<exists>s' u. ThreadSchedule c s = Some s' \<and> switched c (next_thread c s Q) u s s' \<and>
    thread_queues (Links s') H (Q(ReadyThreadsList s := requeued c s Q))"
proof -
  let ?cur = "GetCurrentThread c s" and ?R = "ReadyThreadsList s" and ?idle = "IdleThread (Cpus s c)"
  let ?st = "State (Threads s ?cur)"
  define s1 where "s1 = upd_cpu c (\<lambda>d. d\<lparr>PreviousThread := ?cur\<rparr>) s"
  have s1: "Threads s1 = Threads s" "Links s1 = Links s" "IntrOn s1 = IntrOn s" "ReadyThreadsList s1 = ?R"
    "IdleThread (Cpus s1 c) = ?idle" by (simp_all add: s1_def upd_cpu_def)
  have s1_links: "s1\<lparr>Links := Links s\<rparr> = s1" by (simp add: s1_def upd_cpu_def)
  show ?thesis
  proof (cases "Q ?R")
    case Nil
    have pop: "RemoveHeadList (Links s) ?R = Some (?R, Links s)" by (rule thread_queues_Nil [OF q R Nil])
    have same: "Q(?R := []) = Q" using Nil by auto
    have n: "requeued c s Q = []" by (simp add: requeued_def Nil)
    define s2 where "s2 = (if ?st = ThreadStateReady
      then upd_thread ?cur (\<lambda>x. x\<lparr>UninterruptedTicks := UninterruptedTicks x + 1\<rparr>) s1 else s1)"
    have "ThreadSchedule c s = switch_to c ?cur (next_thread c s Q) s2"
      using intr cur(1) idle(1) pop
      by (simp add: ThreadSchedule_def switch_to_def ThreadGetReadyThread_def Let_def s1 s1_links
        s1_def [symmetric] next_thread_def Nil s2_def)
    moreover have "\<exists>s'. switch_to c ?cur (next_thread c s Q) s2 = Some s' \<and> switched c (next_thread c s Q)
        (\<lambda>t. if t = ?cur \<and> ?st = ThreadStateReady then UninterruptedTicks (Threads s t) + 1
          else UninterruptedTicks (Threads s t)) s s' \<and> Links s' = Links s2"
      by (rule switch_to_switched [OF intr c refl cur(1)])
        (use st idle(3) in \<open>auto simp: s2_def s1_def upd_defs next_thread_def Nil fun_eq_iff\<close>)
    moreover have "Links s2 = Links s" by (simp add: s2_def s1_def upd_defs)
    ultimately show ?thesis using q same n by auto
  next
    case (Cons n ts)
    obtain links where links: "RemoveHeadList (Links s) ?R = Some (ReadyList n, links)"
      and q1: "thread_queues links H (Q(?R := ts))" and n: "ReadyList n \<noteq> ?R" "\<not> in_queue H (Q(?R := ts)) n"
      using thread_queues_deq [OF q R Cons] by blast
    have new: "next_thread c s Q = n" by (simp add: next_thread_def Cons)
    have nst: "n \<noteq> NULL" "State (Threads s n) = ThreadStateReady" "process_ok s (Process (Threads s n))"
      using ready Cons by simp_all
    have neq: "n \<noteq> ?cur" "n \<noteq> ?idle" using cur(2) idle(2) R Cons by (auto simp: in_queue_def)
    show ?thesis
    proof (cases "?st = ThreadStateReady \<and> ?cur \<noteq> ?idle")
      case True
      then have out: "\<not> in_queue H (Q(?R := ts)) ?cur"
        using st Cons by (auto simp: in_queue_def split: if_splits)
      obtain links' where links': "InsertTailList links ?R (ReadyList ?cur) = Some links'"
        and q2: "thread_queues links' H (Q(?R := ts @ [?cur]))"
        using thread_queues_enq [OF q1 R cur(3,4) out] by auto
      define s2 where "s2 = upd_thread ?cur (\<lambda>x. x\<lparr>UninterruptedTicks := 0\<rparr>) (s1\<lparr>Links := links'\<rparr>)"
      have "ThreadSchedule c s = switch_to c ?cur n s2"
        using intr cur(1) idle(1) links links' True neq nst n(1)
        by (simp add: ThreadSchedule_def switch_to_def ThreadGetReadyThread_def Let_def s1 s1_def [symmetric] s2_def)
      moreover have "\<exists>s'. switch_to c ?cur n s2 = Some s' \<and> switched c n
          (\<lambda>t. if t = ?cur then 0 else UninterruptedTicks (Threads s t)) s s' \<and> Links s' = Links s2"
        by (rule switch_to_switched [OF intr c refl cur(1)])
          (use st nst in \<open>auto simp: s2_def s1_def upd_defs fun_eq_iff\<close>)
      moreover have "Links s2 = links'" by (simp add: s2_def upd_defs)
      moreover have "requeued c s Q = ts @ [?cur]" using True by (simp add: requeued_def Cons)
      ultimately show ?thesis using q2 new by auto
    next
      case False
      define s2 where "s2 = s1\<lparr>Links := links\<rparr>"
      have "ThreadSchedule c s = switch_to c ?cur n s2"
        using intr cur(1) idle(1) links False neq nst n(1)
        by (auto simp: ThreadSchedule_def switch_to_def ThreadGetReadyThread_def Let_def s1 s1_def [symmetric] s2_def)
      moreover have "\<exists>s'. switch_to c ?cur n s2 = Some s' \<and> switched c n
          (\<lambda>t. UninterruptedTicks (Threads s t)) s s' \<and> Links s' = Links s2"
        by (rule switch_to_switched [OF intr c refl cur(1)])
          (use st nst in \<open>auto simp: s2_def s1_def upd_defs fun_eq_iff\<close>)
      moreover have "requeued c s Q = ts" using False by (auto simp: requeued_def Cons)
      ultimately show ?thesis using q1 new by (auto simp: s2_def)
    qed
  qed
qed

section \<open>The invariant\<close>

text \<open>
  \<open>C\<close> are the CPUs, \<open>T\<close> the threads and \<open>M\<close> the mutexes. In words: the ready list and the waiting
  lists of the mutexes are disjoint lists of threads; a thread in the ready list is ready, one in
  the waiting list of a mutex is blocked in \<open>MutexAcquire\<close> of it; every CPU runs a thread of its
  own, which is in no list; every thread is on a CPU, an idle thread, or in exactly one list; a
  mutex without a holder has no waiter, and a thread inside \<open>MutexAcquire\<close> either waits for the
  mutex or has been given it. The CPUs \<open>X\<close> are about to switch.
\<close>

definition list_heads :: "PVOID set \<Rightarrow> kernel \<Rightarrow> PVOID set" where
  "list_heads M k = insert (ReadyThreadsList (Sys k)) (MutexWaitingList ` M)"

definition cpus_ok :: "PVOID set \<Rightarrow> PVOID set \<Rightarrow> kernel \<Rightarrow> bool" where
  "cpus_ok C T k \<longleftrightarrow> NULL \<notin> C \<and>
     (\<forall>c \<in> C. GetCurrentThread c (Sys k) \<in> T \<and> IdleThread (Cpus (Sys k) c) \<in> T) \<and>
     (\<forall>c \<in> C. \<forall>d \<in> C. GetCurrentThread c (Sys k) = GetCurrentThread d (Sys k) \<longrightarrow> c = d) \<and>
     (\<forall>c \<in> C. \<forall>d \<in> C. IdleThread (Cpus (Sys k) c) = IdleThread (Cpus (Sys k) d) \<longrightarrow> c = d) \<and>
     (\<forall>c \<in> C. \<forall>d \<in> C. GetCurrentThread c (Sys k) = IdleThread (Cpus (Sys k) d) \<longrightarrow> c = d)"

definition threads_ok :: "PVOID set \<Rightarrow> PVOID set \<Rightarrow> PVOID set \<Rightarrow> kernel \<Rightarrow> bool" where
  "threads_ok X T M k \<longleftrightarrow> (\<forall>t \<in> T. t \<noteq> NULL \<and> ReadyList t \<noteq> NULL \<and> ReadyList t \<notin> list_heads M k \<and>
     process_ok (Sys k) (Process (Threads (Sys k) t)) \<and>
     Flags (Threads (Sys k) t) \<noteq> THREAD_FLAG_FORCE_TERMINATE_PENDING \<and>
     (t \<notin> (\<lambda>c. GetCurrentThread c (Sys k)) ` X \<longrightarrow> BlockLock (Threads (Sys k) t) = NULL))"

definition queues_ok :: "PVOID set \<Rightarrow> PVOID set \<Rightarrow> (PVOID \<Rightarrow> PVOID list) \<Rightarrow> kernel \<Rightarrow> bool" where
  "queues_ok T M Q k \<longleftrightarrow> ReadyThreadsList (Sys k) \<notin> MutexWaitingList ` M \<and>
     thread_queues (Links (Sys k)) (list_heads M k) Q \<and> (\<forall>h \<in> list_heads M k. set (Q h) \<subseteq> T) \<and>
     (\<forall>t \<in> set (Q (ReadyThreadsList (Sys k))). State (Threads (Sys k) t) = ThreadStateReady) \<and>
     (\<forall>m \<in> M. \<forall>t \<in> set (Q (MutexWaitingList m)). State (Threads (Sys k) t) = ThreadStateBlocked \<and>
        (\<exists>b. Continue (Threads (Sys k) t) = InMutexAcquire m b))"

definition running_ok :: "PVOID set \<Rightarrow> PVOID set \<Rightarrow> PVOID set \<Rightarrow> (PVOID \<Rightarrow> PVOID list) \<Rightarrow> kernel \<Rightarrow> bool" where
  "running_ok X C M Q k \<longleftrightarrow> (\<forall>c \<in> C. \<not> in_queue (list_heads M k) Q (IdleThread (Cpus (Sys k) c))) \<and>
     (\<forall>c \<in> C - X. \<not> in_queue (list_heads M k) Q (GetCurrentThread c (Sys k)) \<and>
        (GetCurrentThread c (Sys k) \<noteq> IdleThread (Cpus (Sys k) c) \<longrightarrow>
          State (Threads (Sys k) (GetCurrentThread c (Sys k))) \<in> {ThreadStateRunning, ThreadStateReady}))"

definition no_thread_lost :: "PVOID set \<Rightarrow> PVOID set \<Rightarrow> PVOID set \<Rightarrow> (PVOID \<Rightarrow> PVOID list) \<Rightarrow> kernel \<Rightarrow> bool" where
  "no_thread_lost C T M Q k \<longleftrightarrow> (\<forall>t \<in> T. in_queue (list_heads M k) Q t \<or>
     (\<exists>c \<in> C. t = GetCurrentThread c (Sys k) \<or> t = IdleThread (Cpus (Sys k) c)))"

definition mutexes_ok :: "PVOID set \<Rightarrow> PVOID set \<Rightarrow> (PVOID \<Rightarrow> PVOID list) \<Rightarrow> kernel \<Rightarrow> bool" where
  "mutexes_ok T M Q k \<longleftrightarrow>
     (\<forall>m \<in> M. (Holder (Mutexes k m) = NULL \<longrightarrow> Q (MutexWaitingList m) = []) \<and>
        Holder (Mutexes k m) \<notin> set (Q (MutexWaitingList m))) \<and>
     (\<forall>t \<in> T. \<forall>m b. Continue (Threads (Sys k) t) = InMutexAcquire m b \<longrightarrow>
        m \<in> M \<and> (t \<in> set (Q (MutexWaitingList m)) \<or> Holder (Mutexes k m) = t)) \<and>
     (\<forall>t \<in> T. \<forall>e b. Continue (Threads (Sys k) t) \<noteq> InEventWait e b)"

definition idle_ok :: "PVOID set \<Rightarrow> PVOID set \<Rightarrow> kernel \<Rightarrow> bool" where
  "idle_ok C T k \<longleftrightarrow> (\<forall>t \<in> T. Continue (Threads (Sys k) t) = InIdleThread \<longrightarrow>
     (\<exists>c \<in> C. t = IdleThread (Cpus (Sys k) c)))"

definition sched_inv ::
    "PVOID set \<Rightarrow> PVOID set \<Rightarrow> PVOID set \<Rightarrow> PVOID set \<Rightarrow> (PVOID \<Rightarrow> PVOID list) \<Rightarrow> kernel \<Rightarrow> bool" where
  "sched_inv X C T M Q k \<longleftrightarrow> cpus_ok C T k \<and> threads_ok X T M k \<and> queues_ok T M Q k \<and>
     running_ok X C M Q k \<and> no_thread_lost C T M Q k \<and> mutexes_ok T M Q k \<and> idle_ok C T k"

lemma cpus_okD:
  assumes "cpus_ok C T k"
  shows "c \<in> C \<Longrightarrow> GetCurrentThread c (Sys k) \<in> T \<and> IdleThread (Cpus (Sys k) c) \<in> T"
    and "c \<in> C \<Longrightarrow> d \<in> C \<Longrightarrow> GetCurrentThread c (Sys k) = GetCurrentThread d (Sys k) \<Longrightarrow> c = d"
    and "c \<in> C \<Longrightarrow> d \<in> C \<Longrightarrow> IdleThread (Cpus (Sys k) c) = IdleThread (Cpus (Sys k) d) \<Longrightarrow> c = d"
    and "c \<in> C \<Longrightarrow> d \<in> C \<Longrightarrow> GetCurrentThread c (Sys k) = IdleThread (Cpus (Sys k) d) \<Longrightarrow> c = d"
    and "NULL \<notin> C"
  using assms unfolding cpus_ok_def by blast+

lemma sched_invD:
  assumes "sched_inv X C T M Q k" and "c \<in> C"
  shows "c \<noteq> NULL" and "GetCurrentThread c (Sys k) \<in> T" and "IdleThread (Cpus (Sys k) c) \<in> T"
    and "GetCurrentThread c (Sys k) \<noteq> NULL" and "IdleThread (Cpus (Sys k) c) \<noteq> NULL"
    and "thread_queues (Links (Sys k)) (list_heads M k) Q"
    and "ReadyList (GetCurrentThread c (Sys k)) \<noteq> NULL" and "ReadyList (GetCurrentThread c (Sys k)) \<notin> list_heads M k"
  using assms by (auto simp: sched_inv_def cpus_ok_def threads_ok_def queues_ok_def)

text \<open>What an update of the state must keep for each part.\<close>

definition same_frame :: "kernel \<Rightarrow> kernel \<Rightarrow> bool" where
  "same_frame k k' \<longleftrightarrow> ReadyThreadsList (Sys k') = ReadyThreadsList (Sys k) \<and>
     Processes (Sys k') = Processes (Sys k) \<and>
     (\<forall>t. Process (Threads (Sys k') t) = Process (Threads (Sys k) t) \<and>
          Flags (Threads (Sys k') t) = Flags (Threads (Sys k) t)) \<and>
     (\<forall>c. IdleThread (Cpus (Sys k') c) = IdleThread (Cpus (Sys k) c))"

lemma same_frame_heads: "same_frame k k' \<Longrightarrow> list_heads M k' = list_heads M k"
  by (simp add: same_frame_def list_heads_def)

lemma same_frame_process: "same_frame k k' \<Longrightarrow> process_ok (Sys k') (Process (Threads (Sys k') t)) =
    process_ok (Sys k) (Process (Threads (Sys k) t))"
  by (simp add: same_frame_def process_ok_def)

lemma in_queue_only_one:
  "thread_queues st H Q \<Longrightarrow> h \<in> H \<Longrightarrow> g \<in> H \<Longrightarrow> t \<in> set (Q h) \<Longrightarrow> t \<in> set (Q g) \<Longrightarrow> h = g"
  unfolding thread_queues_def by (rule queues_only_one [of _ _ _ h g "ReadyList t"]) auto

lemma thread_queues_distinct: "thread_queues st H Q \<Longrightarrow> h \<in> H \<Longrightarrow> distinct (Q h)"
  unfolding thread_queues_def using queues_distinct(1) [of st H "\<lambda>h. map ReadyList (Q h)" h]
  by (simp add: distinct_map)

text \<open>The threads in the lists after a scheduling decision.\<close>

lemma requeued_cases:
  fixes c k Q
  defines "s \<equiv> Sys k"
  defines "Q' \<equiv> Q(ReadyThreadsList s := requeued c s Q)"
  assumes q: "thread_queues (Links s) H Q" and R: "ReadyThreadsList s \<in> H"
  shows "in_queue H Q' t \<Longrightarrow> in_queue H Q t \<or> t = GetCurrentThread c s \<and>
      State (Threads s t) = ThreadStateReady \<and> t \<noteq> IdleThread (Cpus s c)"
    and "in_queue H Q t \<Longrightarrow> in_queue H Q' t \<or> t = next_thread c s Q"
    and "t \<in> set (Q' (ReadyThreadsList s)) \<Longrightarrow> t \<in> set (Q (ReadyThreadsList s)) \<or>
      t = GetCurrentThread c s \<and> State (Threads s t) = ThreadStateReady \<and> t \<noteq> IdleThread (Cpus s c)"
    and "next_thread c s Q \<in> set (Q (ReadyThreadsList s)) \<and>
        (next_thread c s Q \<noteq> GetCurrentThread c s \<longrightarrow> \<not> in_queue H Q' (next_thread c s Q)) \<or>
      Q' = Q \<and> State (Threads s (GetCurrentThread c s)) = ThreadStateReady \<and> next_thread c s Q = GetCurrentThread c s \<or>
      Q' = Q \<and> State (Threads s (GetCurrentThread c s)) \<noteq> ThreadStateReady \<and> next_thread c s Q = IdleThread (Cpus s c)"
    and "State (Threads s (GetCurrentThread c s)) = ThreadStateReady \<Longrightarrow>
      in_queue H Q' (GetCurrentThread c s) \<or> GetCurrentThread c s = IdleThread (Cpus s c) \<or>
      next_thread c s Q = GetCurrentThread c s"
proof -
  let ?R = "ReadyThreadsList s"
  have eq: "Q' = (case Q ?R of [] \<Rightarrow> Q | n # ts \<Rightarrow> Q(?R := requeued c s Q))"
    by (auto simp: Q'_def requeued_def split: list.split)
  show "in_queue H Q t \<Longrightarrow> in_queue H Q' t \<or> t = next_thread c s Q"
  proof -
    assume "in_queue H Q t"
    then obtain g where g: "g \<in> H" "t \<in> set (Q g)" by (auto simp: in_queue_def)
    show ?thesis
    proof (cases "g = ?R")
      case True
      then have "t \<in> set (Q' ?R) \<or> t = next_thread c s Q"
        using g by (auto simp: eq requeued_def next_thread_def split: list.splits)
      then show ?thesis using R by (auto simp: in_queue_def)
    next
      case False
      with g show ?thesis by (auto simp: in_queue_def Q'_def)
    qed
  qed
  show in_ready: "t \<in> set (Q' ?R) \<Longrightarrow> t \<in> set (Q ?R) \<or>
      t = GetCurrentThread c s \<and> State (Threads s t) = ThreadStateReady \<and> t \<noteq> IdleThread (Cpus s c)" for t
    by (auto simp: eq requeued_def split: list.splits if_splits)
  show "in_queue H Q' t \<Longrightarrow> in_queue H Q t \<or> t = GetCurrentThread c s \<and>
      State (Threads s t) = ThreadStateReady \<and> t \<noteq> IdleThread (Cpus s c)"
  proof -
    assume "in_queue H Q' t"
    then obtain g where g: "g \<in> H" "t \<in> set (Q' g)" by (auto simp: in_queue_def)
    show ?thesis
    proof (cases "g = ?R")
      case True
      with g in_ready [of t] R show ?thesis by (auto simp: in_queue_def)
    next
      case False
      with g show ?thesis by (auto simp: in_queue_def Q'_def)
    qed
  qed
  show "State (Threads s (GetCurrentThread c s)) = ThreadStateReady \<Longrightarrow>
      in_queue H Q' (GetCurrentThread c s) \<or> GetCurrentThread c s = IdleThread (Cpus s c) \<or>
      next_thread c s Q = GetCurrentThread c s"
    using R by (auto simp: in_queue_def eq requeued_def next_thread_def split: list.splits if_splits)
  show "next_thread c s Q \<in> set (Q ?R) \<and>
        (next_thread c s Q \<noteq> GetCurrentThread c s \<longrightarrow> \<not> in_queue H Q' (next_thread c s Q)) \<or>
      Q' = Q \<and> State (Threads s (GetCurrentThread c s)) = ThreadStateReady \<and> next_thread c s Q = GetCurrentThread c s \<or>
      Q' = Q \<and> State (Threads s (GetCurrentThread c s)) \<noteq> ThreadStateReady \<and> next_thread c s Q = IdleThread (Cpus s c)"
  proof (cases "Q ?R")
    case Nil
    then show ?thesis by (simp add: eq next_thread_def)
  next
    case (Cons n ts)
    have "n \<notin> set ts" using thread_queues_distinct [OF q R] Cons by simp
    moreover have "n \<notin> set (Q g)" if "g \<in> H" "g \<noteq> ?R" for g
      using in_queue_only_one [OF q that(1) R, of n] that(2) Cons by auto
    ultimately show ?thesis using Cons
      by (auto simp: eq next_thread_def in_queue_def requeued_def split: if_splits)
  qed
qed

lemma schedule_inv:
  assumes inv: "sched_inv {c} C T M Q k" and c: "c \<in> C" and intr: "\<not> IntrOn (Sys k) c"
    and st: "State (Threads (Sys k) (GetCurrentThread c (Sys k))) = ThreadStateReady \<and>
        BlockLock (Threads (Sys k) (GetCurrentThread c (Sys k))) = NULL \<and>
        \<not> in_queue (list_heads M k) Q (GetCurrentThread c (Sys k)) \<or>
      State (Threads (Sys k) (GetCurrentThread c (Sys k))) = ThreadStateBlocked \<and>
        BlockLock (Threads (Sys k) (GetCurrentThread c (Sys k))) = c \<and>
        (GetCurrentThread c (Sys k) = IdleThread (Cpus (Sys k) c) \<or>
          (\<exists>m \<in> M. GetCurrentThread c (Sys k) \<in> set (Q (MutexWaitingList m))))"
  shows "\<exists>s' u. ThreadSchedule c (Sys k) = Some s' \<and> switched c (next_thread c (Sys k) Q) u (Sys k) s' \<and>
    sched_inv {} C T M (Q(ReadyThreadsList (Sys k) := requeued c (Sys k) Q)) (k\<lparr>Sys := s'\<rparr>)"
proof -
  let ?s = "Sys k" and ?H = "list_heads M k" and ?R = "ReadyThreadsList (Sys k)" and ?cur = "GetCurrentThread c (Sys k)"
  define Q' where "Q' = Q(?R := requeued c ?s Q)"
  note d = sched_invD [OF inv c]
  have R: "?R \<in> ?H" by (simp add: list_heads_def)
  have parts: "cpus_ok C T k" "threads_ok {c} T M k" "queues_ok T M Q k" "running_ok {c} C M Q k"
    "no_thread_lost C T M Q k" "mutexes_ok T M Q k" "idle_ok C T k"
    using inv by (simp_all add: sched_inv_def)
  have notR: "?cur \<notin> set (Q ?R)"
  proof -
    consider "\<not> in_queue ?H Q ?cur" | "?cur = IdleThread (Cpus ?s c)"
      | m where "m \<in> M" "?cur \<in> set (Q (MutexWaitingList m))" using st by blast
    then show ?thesis
    proof cases
      case 1
      then show ?thesis using R by (auto simp: in_queue_def)
    next
      case 2
      then show ?thesis using parts(4) c R by (auto simp: running_ok_def in_queue_def)
    next
      case 3
      then have "MutexWaitingList m \<in> ?H" "MutexWaitingList m \<noteq> ?R"
        using parts(3) by (auto simp: list_heads_def queues_ok_def)
      then show ?thesis using in_queue_only_one [OF d(6) _ R 3(2)] by blast
    qed
  qed
  have ready: "\<forall>t \<in> set (Q ?R). t \<noteq> NULL \<and> State (Threads ?s t) = ThreadStateReady \<and> process_ok ?s (Process (Threads ?s t))"
    using parts(2,3) R by (fastforce simp: queues_ok_def threads_ok_def)
  have idle: "\<not> in_queue ?H Q (IdleThread (Cpus ?s c))" "process_ok ?s (Process (Threads ?s (IdleThread (Cpus ?s c))))"
    using parts(2,4) c d(3) by (simp_all add: running_ok_def threads_ok_def)
  have st': "State (Threads ?s ?cur) = ThreadStateReady \<and> BlockLock (Threads ?s ?cur) = NULL \<and> \<not> in_queue ?H Q ?cur \<or>
      State (Threads ?s ?cur) = ThreadStateBlocked \<and> BlockLock (Threads ?s ?cur) = c" using st by blast
  obtain s' u where run: "ThreadSchedule c ?s = Some s'" and sw: "switched c (next_thread c ?s Q) u ?s s'"
    and q': "thread_queues (Links s') ?H Q'"
    using ThreadSchedule_result [OF intr d(1,6) R d(4) notR d(7,8) st' d(5) idle ready] unfolding Q'_def by blast
  note rq = requeued_cases [OF d(6) R, where c = c, folded Q'_def]
  let ?k = "k\<lparr>Sys := s'\<rparr>" and ?n = "next_thread c ?s Q"
  note sw' = sw [unfolded switched_def]
  have upd: "Sys ?k = s'" "Mutexes ?k = Mutexes k" by simp_all
  have cpus': "\<forall>d. d \<noteq> c \<longrightarrow> Cpus s' d = Cpus ?s d" "IdleThread (Cpus s' c) = IdleThread (Cpus ?s c)"
    and s1: "GetCurrentThread c s' = ?n" "ReadyThreadsList s' = ?R" "Processes s' = Processes ?s"
    and th: "Threads s' = (\<lambda>t. (Threads ?s t)\<lparr>UninterruptedTicks := u t,
       BlockLock := if t = ?cur then NULL else BlockLock (Threads ?s t)\<rparr>)" using sw' by blast+
  have s2: "IdleThread (Cpus s' d) = IdleThread (Cpus ?s d)" "d \<noteq> c \<Longrightarrow> GetCurrentThread d s' = GetCurrentThread d ?s" for d
    using cpus' by (cases "d = c"; simp)+
  have s3: "State (Threads s' t) = State (Threads ?s t)" "Continue (Threads s' t) = Continue (Threads ?s t)"
    "BlockLock (Threads s' t) = (if t = ?cur then NULL else BlockLock (Threads ?s t))"
    "Flags (Threads s' t) = Flags (Threads ?s t)" "Process (Threads s' t) = Process (Threads ?s t)" for t
    by (simp_all add: th)
  note s' = s1 s2 s3
  have ne: "Q' (MutexWaitingList m) = Q (MutexWaitingList m)" if "m \<in> M" for m
  proof -
    have "MutexWaitingList m \<noteq> ?R" using parts(3) that unfolding queues_ok_def by (metis imageI)
    then show ?thesis by (simp add: Q'_def)
  qed
  have heads: "list_heads M ?k = ?H" by (simp add: list_heads_def s')
  have cur_d: "?cur \<noteq> GetCurrentThread d ?s" "?cur \<noteq> IdleThread (Cpus ?s d)" if "d \<in> C" "d \<noteq> c" for d
    using cpus_okD [OF parts(1)] c that by metis+
  have new_where: "?n \<in> set (Q ?R) \<or> ?n = ?cur \<or> ?n = IdleThread (Cpus ?s c)" using rq(4) by blast
  have "set (Q ?R) \<subseteq> T" using parts(3) R unfolding queues_ok_def by blast
  then have new_T: "?n \<in> T" using new_where d(2,3) by auto
  have new_d: "?n \<noteq> GetCurrentThread d ?s \<and> ?n \<noteq> IdleThread (Cpus ?s d)" if "d \<in> C" "d \<noteq> c" for d
  proof -
    have "\<not> in_queue ?H Q (GetCurrentThread d ?s)" "\<not> in_queue ?H Q (IdleThread (Cpus ?s d))"
      using parts(4) that by (auto simp: running_ok_def)
    moreover have "IdleThread (Cpus ?s c) \<noteq> GetCurrentThread d ?s" "IdleThread (Cpus ?s c) \<noteq> IdleThread (Cpus ?s d)"
      using cpus_okD [OF parts(1)] c that by metis+
    ultimately show ?thesis using new_where cur_d [OF that] R unfolding in_queue_def by metis
  qed
  have new_idle: "?n = IdleThread (Cpus ?s d) \<Longrightarrow> d \<in> C \<Longrightarrow> d = c" for d using new_d by blast
  have cur': "GetCurrentThread d s' = (if d = c then ?n else GetCurrentThread d ?s)" for d
    using s1(1) s2(2) by simp
  have "cpus_ok C T ?k"
  proof -
    note p = cpus_okD [OF parts(1)]
    have "\<forall>d \<in> C. (if d = c then ?n else GetCurrentThread d ?s) \<in> T \<and> IdleThread (Cpus ?s d) \<in> T"
      using p(1) new_T by simp
    moreover have "i = j" if ij: "i \<in> C" "j \<in> C"
      and eq: "(if i = c then ?n else GetCurrentThread i ?s) = (if j = c then ?n else GetCurrentThread j ?s)" for i j
    proof (cases "i = c"; cases "j = c")
      assume "i = c" "j \<noteq> c"
      then show ?thesis using eq new_d [OF ij(2)] by simp
    next
      assume "i \<noteq> c" "j = c"
      then show ?thesis using eq new_d [OF ij(1)] by simp
    next
      assume "i \<noteq> c" "j \<noteq> c"
      then show ?thesis using eq p(2) [OF ij] by simp
    qed simp
    moreover have "i = j" if ij: "i \<in> C" "j \<in> C"
      and eq: "(if i = c then ?n else GetCurrentThread i ?s) = IdleThread (Cpus ?s j)" for i j
    proof (cases "i = c")
      case True
      then show ?thesis using eq new_idle [OF _ ij(2)] by simp
    next
      case False
      then show ?thesis using eq p(4) [OF ij] by simp
    qed
    ultimately show ?thesis unfolding cpus_ok_def upd cur' s2(1) using p(3,5) by blast
  qed
  moreover have "threads_ok {} T M ?k"
    using parts(2) by (auto simp: threads_ok_def heads s' process_ok_def)
  moreover have "queues_ok T M Q' ?k"
  proof -
    have sub: "set (Q' h) \<subseteq> T" if "h \<in> ?H" for h
      using rq(3) that parts(3) d(2) by (cases "h = ?R") (auto simp: queues_ok_def Q'_def)
    have ready': "State (Threads ?s t) = ThreadStateReady" if "t \<in> set (Q' ?R)" for t
      using rq(3) [OF that] parts(3) by (auto simp: queues_ok_def)
    show ?thesis
      using parts(3) q' sub ready' unfolding queues_ok_def heads upd s' by (simp add: ne)
  qed
  moreover have "running_ok {} C M Q' ?k"
  proof -
    have idle': "\<not> in_queue ?H Q' (IdleThread (Cpus ?s d))" if d: "d \<in> C" for d
    proof
      assume "in_queue ?H Q' (IdleThread (Cpus ?s d))"
      from rq(1) [OF this] consider "in_queue ?H Q (IdleThread (Cpus ?s d))"
        | "IdleThread (Cpus ?s d) = ?cur" "?cur \<noteq> IdleThread (Cpus ?s c)" by metis
      then show False
      proof cases
        case 1
        then show False using parts(4) d unfolding running_ok_def by blast
      next
        case 2
        then show False using cur_d(2) [OF d] by metis
      qed
    qed
    have other: "\<not> in_queue ?H Q' (GetCurrentThread d ?s)" if d: "d \<in> C" "d \<noteq> c" for d
    proof
      assume "in_queue ?H Q' (GetCurrentThread d ?s)"
      from rq(1) [OF this] have "in_queue ?H Q (GetCurrentThread d ?s)" using cur_d(1) [OF d] by metis
      then show False using parts(4) d unfolding running_ok_def by blast
    qed
    have new: "\<not> in_queue ?H Q' ?n \<and> (?n \<noteq> IdleThread (Cpus ?s c) \<longrightarrow> State (Threads ?s ?n) = ThreadStateReady)"
      using rq(4)
    proof (elim disjE conjE)
      assume n: "?n \<in> set (Q ?R)" "?n \<noteq> ?cur \<longrightarrow> \<not> in_queue ?H Q' ?n"
      then have "?n \<noteq> ?cur" using notR by metis
      with n ready show ?thesis by blast
    next
      assume "Q' = Q" "State (Threads ?s ?cur) = ThreadStateReady" "?n = ?cur"
      then show ?thesis using st by simp
    next
      assume "Q' = Q" "?n = IdleThread (Cpus ?s c)"
      then show ?thesis using idle(1) by simp
    qed
    show ?thesis
      unfolding running_ok_def heads upd s2(1) s3 cur'
      using idle' other new parts(4) unfolding running_ok_def by simp
  qed
  moreover have "no_thread_lost C T M Q' ?k"
    unfolding no_thread_lost_def heads upd s2(1) cur'
  proof
    fix t assume "t \<in> T"
    with parts(5) consider "in_queue ?H Q t" | d where "d \<in> C" "t = IdleThread (Cpus ?s d)"
      | d where "d \<in> C" "d \<noteq> c" "t = GetCurrentThread d ?s" | "t = ?cur"
      unfolding no_thread_lost_def by metis
    then show "in_queue ?H Q' t \<or> (\<exists>d \<in> C. t = (if d = c then ?n else GetCurrentThread d ?s) \<or> t = IdleThread (Cpus ?s d))"
    proof cases
      case 1
      from rq(2) [OF this] show ?thesis using c by auto
    next
      case 4
      have "in_queue ?H Q' t \<or> t = IdleThread (Cpus ?s c) \<or> t = ?n"
        using st
      proof (elim disjE conjE bexE)
        assume "State (Threads ?s ?cur) = ThreadStateReady"
        from rq(5) [OF this] show ?thesis using 4 by metis
      next
        fix m assume m: "m \<in> M" "?cur \<in> set (Q (MutexWaitingList m))"
        then have "in_queue ?H Q t" unfolding in_queue_def list_heads_def 4 by blast
        from rq(2) [OF this] show ?thesis by blast
      qed (use 4 in simp)
      then show ?thesis using c by auto
    qed auto
  qed
  moreover have "mutexes_ok T M Q' ?k"
  proof -
    show ?thesis using parts(6) unfolding mutexes_ok_def upd s3 by (simp add: ne)
  qed
  moreover have "idle_ok C T ?k"
    using parts(7) by (simp add: idle_ok_def s')
  ultimately show ?thesis using run sw unfolding Q'_def by (auto simp: sched_inv_def)
qed

section \<open>Updates that keep the invariant\<close>

text \<open>
  The current thread of \<open>c\<close> and the other data of the CPU change; with \<open>X = {c}\<close> the thread may
  be in any state.
\<close>

lemma cur_not_queued:
  assumes "sched_inv {} C T M Q k" and "c \<in> C" and "h \<in> list_heads M k"
  shows "GetCurrentThread c (Sys k) \<notin> set (Q h)"
  using assms unfolding sched_inv_def running_ok_def in_queue_def by blast

lemma list_heads_mem: "m \<in> M \<Longrightarrow> MutexWaitingList m \<in> list_heads M k" "ReadyThreadsList (Sys k) \<in> list_heads M k"
  by (simp_all add: list_heads_def)

lemma sched_inv_current:
  assumes inv: "sched_inv {} C T M Q k" and c: "c \<in> C" and X: "X = {} \<or> X = {c}"
    and th: "Threads (Sys k1) = (Threads (Sys k))(GetCurrentThread c (Sys k) := x)"
    and cpu: "\<forall>d. GetCurrentThread d (Sys k1) = GetCurrentThread d (Sys k) \<and> IdleThread (Cpus (Sys k1) d) = IdleThread (Cpus (Sys k) d)"
    and same: "Links (Sys k1) = Links (Sys k)" "Processes (Sys k1) = Processes (Sys k)"
      "ReadyThreadsList (Sys k1) = ReadyThreadsList (Sys k)" "\<forall>m \<in> M. Holder (Mutexes k1 m) = Holder (Mutexes k m) \<or>
        Holder (Mutexes k m) = NULL \<and> Holder (Mutexes k1 m) = GetCurrentThread c (Sys k)"
    and x: "Process x = Process (Threads (Sys k) (GetCurrentThread c (Sys k)))"
      "Flags x = Flags (Threads (Sys k) (GetCurrentThread c (Sys k)))"
      "X = {} \<Longrightarrow> BlockLock x = NULL \<and> (GetCurrentThread c (Sys k) \<noteq> IdleThread (Cpus (Sys k) c) \<longrightarrow>
         State x \<in> {ThreadStateRunning, ThreadStateReady})"
      "\<forall>m b. Continue x = InMutexAcquire m b \<longrightarrow> m \<in> M \<and> Holder (Mutexes k1 m) = GetCurrentThread c (Sys k)"
      "\<forall>e b. Continue x \<noteq> InEventWait e b"
      "Continue x = InIdleThread \<longrightarrow> GetCurrentThread c (Sys k) = IdleThread (Cpus (Sys k) c)"
  shows "sched_inv X C T M Q k1"
proof -
  let ?s = "Sys k" and ?cur = "GetCurrentThread c (Sys k)"
  note d = sched_invD [OF inv c]
  have parts: "cpus_ok C T k" "threads_ok {} T M k" "queues_ok T M Q k" "running_ok {} C M Q k"
    "no_thread_lost C T M Q k" "mutexes_ok T M Q k" "idle_ok C T k"
    using inv by (simp_all add: sched_inv_def)
  have heads: "list_heads M k1 = list_heads M k" by (simp add: list_heads_def same)
  note offq = cur_not_queued [OF inv c]
  have ne: "t \<noteq> ?cur" if "t \<in> set (Q h)" "h \<in> list_heads M k" for t h using offq that by metis
  have "cpus_ok C T k1" using parts(1) cpu unfolding cpus_ok_def by simp
  moreover have "threads_ok X T M k1"
    using parts(2) x(1,2,3) X cpu unfolding threads_ok_def heads th process_ok_def same by auto
  moreover have "queues_ok T M Q k1"
    using parts(3) ne list_heads_mem unfolding queues_ok_def heads th same by (simp add: list_heads_mem)
  moreover have "running_ok X C M Q k1"
    unfolding running_ok_def heads th
  proof (intro conjI ballI)
    fix d assume "d \<in> C"
    then show "\<not> in_queue (list_heads M k) Q (IdleThread (Cpus (Sys k1) d))"
      using parts(4) cpu unfolding running_ok_def by simp
  next
    fix d assume "d \<in> C - X"
    then have dC: "d \<in> C" "d \<notin> X" by simp_all
    then show "\<not> in_queue (list_heads M k) Q (GetCurrentThread d (Sys k1))"
      using parts(4) cpu unfolding running_ok_def by simp
    show "GetCurrentThread d (Sys k1) \<noteq> IdleThread (Cpus (Sys k1) d) \<longrightarrow>
        State (((Threads ?s)(?cur := x)) (GetCurrentThread d (Sys k1))) \<in> {ThreadStateRunning, ThreadStateReady}"
    proof (cases "d = c")
      case True
      then show ?thesis using x(3) X dC cpu by auto
    next
      case False
      then have "GetCurrentThread d ?s \<noteq> ?cur" using cpus_okD(2) [OF parts(1) dC(1) c] by blast
      then show ?thesis using parts(4) dC cpu unfolding running_ok_def by simp
    qed
  qed
  moreover have "no_thread_lost C T M Q k1"
    using parts(5) cpu unfolding no_thread_lost_def heads by simp
  moreover have "mutexes_ok T M Q k1"
    unfolding mutexes_ok_def th
  proof (intro conjI ballI allI impI)
    fix m assume m: "m \<in> M"
    then have mh: "MutexWaitingList m \<in> list_heads M k" by (rule list_heads_mem)
    have hold: "Holder (Mutexes k1 m) = Holder (Mutexes k m) \<or>
        Holder (Mutexes k m) = NULL \<and> Holder (Mutexes k1 m) = ?cur" using same(4) m by blast
    have old: "Holder (Mutexes k m) = NULL \<longrightarrow> Q (MutexWaitingList m) = []"
      "Holder (Mutexes k m) \<notin> set (Q (MutexWaitingList m))"
      using parts(6) m unfolding mutexes_ok_def by blast+
    show "Holder (Mutexes k1 m) = NULL \<Longrightarrow> Q (MutexWaitingList m) = []" using hold old d(4) by metis
    show "Holder (Mutexes k1 m) \<notin> set (Q (MutexWaitingList m))" using hold old offq [OF mh] by metis
  next
    fix t m b assume t: "t \<in> T" and k: "Continue (((Threads ?s)(?cur := x)) t) = InMutexAcquire m b"
    have "m \<in> M \<and> (t \<in> set (Q (MutexWaitingList m)) \<or> Holder (Mutexes k1 m) = t)"
    proof (cases "t = ?cur")
      case True
      with k x(4) show ?thesis by simp
    next
      case False
      with k t parts(6) have "m \<in> M \<and> (t \<in> set (Q (MutexWaitingList m)) \<or> Holder (Mutexes k m) = t)"
        unfolding mutexes_ok_def by simp
      moreover have "t \<noteq> NULL" using parts(2) t unfolding threads_ok_def by blast
      ultimately show ?thesis using same(4) by metis
    qed
    then show "m \<in> M" "t \<in> set (Q (MutexWaitingList m)) \<or> Holder (Mutexes k1 m) = t" by blast+
  next
    fix t e b assume "t \<in> T"
    then show "Continue (((Threads ?s)(?cur := x)) t) \<noteq> InEventWait e b"
      using parts(6) x(5) unfolding mutexes_ok_def by simp
  qed
  moreover have "idle_ok C T k1"
    using parts(7) cpu x(6) c unfolding idle_ok_def th by auto
  ultimately show ?thesis by (simp add: sched_inv_def)
qed

lemma in_queue_upd:
  assumes "h \<in> H"
  shows "in_queue H (Q(h := xs)) t \<longleftrightarrow> t \<in> set xs \<or> in_queue (H - {h}) Q t"
  using assms by (auto simp: in_queue_def split: if_splits)

lemma in_queue_split: "h \<in> H \<Longrightarrow> in_queue H Q t \<longleftrightarrow> t \<in> set (Q h) \<or> in_queue (H - {h}) Q t"
  by (auto simp: in_queue_def)

lemma in_queue_enq: "h \<in> H \<Longrightarrow> in_queue H (Q(h := Q h @ [e])) t \<longleftrightarrow> in_queue H Q t \<or> t = e"
  using in_queue_split [of h H Q t] by (auto simp: in_queue_upd)

lemma sched_inv_blocked:
  assumes inv: "sched_inv {} C T M Q k" and c: "c \<in> C" and m: "m \<in> M"
    and held: "Holder (Mutexes k m) \<noteq> NULL" "Holder (Mutexes k m) \<noteq> GetCurrentThread c (Sys k)"
    and th: "Threads (Sys k1) = (Threads (Sys k))(GetCurrentThread c (Sys k) := x)"
    and cpu: "Cpus (Sys k1) = Cpus (Sys k)"
    and same: "Processes (Sys k1) = Processes (Sys k)"
      "ReadyThreadsList (Sys k1) = ReadyThreadsList (Sys k)" "Mutexes k1 = Mutexes k"
    and links: "thread_queues (Links (Sys k1)) (list_heads M k)
      (Q(MutexWaitingList m := Q (MutexWaitingList m) @ [GetCurrentThread c (Sys k)]))"
    and x: "Process x = Process (Threads (Sys k) (GetCurrentThread c (Sys k)))"
      "Flags x = Flags (Threads (Sys k) (GetCurrentThread c (Sys k)))"
      "State x = ThreadStateBlocked" "Continue x = InMutexAcquire m b"
    and busy: "GetCurrentThread c (Sys k) \<noteq> IdleThread (Cpus (Sys k) c)"
  shows "sched_inv {c} C T M (Q(MutexWaitingList m := Q (MutexWaitingList m) @ [GetCurrentThread c (Sys k)])) k1"
proof -
  let ?s = "Sys k" and ?cur = "GetCurrentThread c (Sys k)" and ?W = "MutexWaitingList m"
  define Q1 where "Q1 = Q(?W := Q ?W @ [?cur])"
  note d = sched_invD [OF inv c]
  have parts: "cpus_ok C T k" "threads_ok {} T M k" "queues_ok T M Q k" "running_ok {} C M Q k"
    "no_thread_lost C T M Q k" "mutexes_ok T M Q k" "idle_ok C T k"
    using inv by (simp_all add: sched_inv_def)
  have heads: "list_heads M k1 = list_heads M k" by (simp add: list_heads_def same)
  note offq = cur_not_queued [OF inv c]
  have ne: "t \<noteq> ?cur" if "t \<in> set (Q h)" "h \<in> list_heads M k" for t h using offq that by metis
  have Wh: "?W \<in> list_heads M k" by (rule list_heads_mem(1) [OF m])
  have WR: "?W \<noteq> ReadyThreadsList ?s" using parts(3) m unfolding queues_ok_def by (metis imageI)
  have Q1: "in_queue (list_heads M k) Q1 t \<longleftrightarrow> in_queue (list_heads M k) Q t \<or> t = ?cur" for t
    unfolding Q1_def by (rule in_queue_enq [OF Wh])
  have inj: "MutexWaitingList m' = ?W \<longleftrightarrow> m' = m" for m' by (simp add: MutexWaitingList_def)
  have "cpus_ok C T k1" using parts(1) cpu unfolding cpus_ok_def by simp
  moreover have "threads_ok {c} T M k1"
    using parts(2) x(1,2) unfolding threads_ok_def heads th process_ok_def same cpu by auto
  moreover have "queues_ok T M Q1 k1"
    unfolding queues_ok_def heads th same
  proof (intro conjI ballI)
    show "ReadyThreadsList ?s \<notin> MutexWaitingList ` M" using parts(3) unfolding queues_ok_def by blast
    show "thread_queues (Links (Sys k1)) (list_heads M k) Q1" using links by (simp add: Q1_def)
    show "set (Q1 h) \<subseteq> T" if "h \<in> list_heads M k" for h
      using parts(3) that d(2) unfolding queues_ok_def Q1_def by auto
    fix t
    show "State (((Threads ?s)(?cur := x)) t) = ThreadStateReady" if "t \<in> set (Q1 (ReadyThreadsList ?s))"
    proof -
      have "t \<in> set (Q (ReadyThreadsList ?s))" using that WR by (simp add: Q1_def)
      then show ?thesis using ne [OF _ list_heads_mem(2)] parts(3) unfolding queues_ok_def by simp
    qed
    fix m' assume m': "m' \<in> M" "t \<in> set (Q1 (MutexWaitingList m'))"
    then have "t = ?cur \<and> m' = m \<or> t \<in> set (Q (MutexWaitingList m'))" by (auto simp: Q1_def inj split: if_splits)
    then have "State (((Threads ?s)(?cur := x)) t) = ThreadStateBlocked \<and>
        (\<exists>b. Continue (((Threads ?s)(?cur := x)) t) = InMutexAcquire m' b)"
      using x(3,4) ne [OF _ list_heads_mem(1) [OF m'(1)]] parts(3) m'(1) unfolding queues_ok_def by auto
    then show "State (((Threads ?s)(?cur := x)) t) = ThreadStateBlocked"
      "\<exists>b. Continue (((Threads ?s)(?cur := x)) t) = InMutexAcquire m' b" by blast+
  qed
  moreover have "running_ok {c} C M Q1 k1"
  proof -
    have "?cur \<noteq> IdleThread (Cpus ?s e)" if "e \<in> C" for e
      using cpus_okD(4) [OF parts(1) c that] busy by blast
    moreover have "?cur \<noteq> GetCurrentThread e ?s" if "e \<in> C" "e \<noteq> c" for e
      using cpus_okD(2) [OF parts(1) c that(1)] that(2) by blast
    ultimately show ?thesis
      using parts(4) unfolding running_ok_def heads cpu Q1 th by (simp add: eq_commute [of _ ?cur])
  qed
  moreover have "no_thread_lost C T M Q1 k1"
    using parts(5) unfolding no_thread_lost_def heads cpu Q1 by blast
  moreover have "mutexes_ok T M Q1 k1"
    unfolding mutexes_ok_def th same
  proof (intro conjI ballI allI impI)
    fix m' assume m': "m' \<in> M"
    have old: "Holder (Mutexes k m') = NULL \<longrightarrow> Q (MutexWaitingList m') = []"
      "Holder (Mutexes k m') \<notin> set (Q (MutexWaitingList m'))"
      using parts(6) m' unfolding mutexes_ok_def by blast+
    show "Holder (Mutexes k m') = NULL \<Longrightarrow> Q1 (MutexWaitingList m') = []"
      using old(1) held(1) by (auto simp: Q1_def inj)
    show "Holder (Mutexes k m') \<notin> set (Q1 (MutexWaitingList m'))"
      using old(2) held(2) by (auto simp: Q1_def inj)
  next
    fix t m' b' assume t: "t \<in> T" and k: "Continue (((Threads ?s)(?cur := x)) t) = InMutexAcquire m' b'"
    have "m' \<in> M \<and> (t \<in> set (Q1 (MutexWaitingList m')) \<or> Holder (Mutexes k m') = t)"
    proof (cases "t = ?cur")
      case True
      with k x(4) m show ?thesis by (simp add: Q1_def)
    next
      case False
      with k t parts(6) have "m' \<in> M \<and> (t \<in> set (Q (MutexWaitingList m')) \<or> Holder (Mutexes k m') = t)"
        unfolding mutexes_ok_def by simp
      then show ?thesis by (auto simp: Q1_def)
    qed
    then show "m' \<in> M" "t \<in> set (Q1 (MutexWaitingList m')) \<or> Holder (Mutexes k m') = t" by blast+
  next
    fix t e b' assume "t \<in> T"
    then show "Continue (((Threads ?s)(?cur := x)) t) \<noteq> InEventWait e b'"
      using parts(6) x(4) unfolding mutexes_ok_def by simp
  qed
  moreover have "idle_ok C T k1"
    using parts(7) x(4) unfolding idle_ok_def th cpu by simp
  ultimately show ?thesis unfolding Q1_def by (simp add: sched_inv_def)
qed

lemma ThreadUnblock_ok:
  assumes "t \<noteq> NULL" and "BlockLock (Threads s t) = NULL" and "State (Threads s t) = ThreadStateBlocked"
    and "thread_queues (Links s) H Q" and "ReadyThreadsList s \<in> H" and "ReadyList t \<noteq> NULL" and "ReadyList t \<notin> H"
    and "\<not> in_queue H Q t"
  shows "\<exists>s'. ThreadUnblock c t s = Some s' \<and>
    thread_queues (Links s') H (Q(ReadyThreadsList s := Q (ReadyThreadsList s) @ [t])) \<and>
    Threads s' = (Threads s)(t := (Threads s t)\<lparr>State := ThreadStateReady\<rparr>) \<and>
    Cpus s' = Cpus s \<and> Events s' = Events s \<and> Processes s' = Processes s \<and> IntrOn s' = IntrOn s \<and>
    ReadyThreadsList s' = ReadyThreadsList s"
proof -
  obtain links where "InsertTailList (Links s) (ReadyThreadsList s) (ReadyList t) = Some links"
    "thread_queues links H (Q(ReadyThreadsList s := Q (ReadyThreadsList s) @ [t]))"
    using thread_queues_enq [OF assms(4,5,6,7,8)] by blast
  then show ?thesis using assms(1-3)
    by (simp add: ThreadUnblock_def BlockLockAcquire_def BlockLockRelease_def upd_defs Let_def fun_eq_iff)
qed

lemma sched_inv_handed_over:
  assumes inv: "sched_inv {} C T M Q k" and m: "m \<in> M" and W: "Q (MutexWaitingList m) = t # ts"
    and th: "Threads (Sys k1) = (Threads (Sys k))(t := (Threads (Sys k) t)\<lparr>State := ThreadStateReady\<rparr>)"
    and cpu: "Cpus (Sys k1) = Cpus (Sys k)"
    and same: "Processes (Sys k1) = Processes (Sys k)" "ReadyThreadsList (Sys k1) = ReadyThreadsList (Sys k)"
    and mut: "Mutexes k1 = (Mutexes k)(m := y)" "Holder y = t"
    and releasing: "\<forall>b. Continue (Threads (Sys k) (Holder (Mutexes k m))) \<noteq> InMutexAcquire m b"
    and links: "thread_queues (Links (Sys k1)) (list_heads M k)
      (Q(MutexWaitingList m := ts, ReadyThreadsList (Sys k) := Q (ReadyThreadsList (Sys k)) @ [t]))"
  shows "sched_inv {} C T M (Q(MutexWaitingList m := ts, ReadyThreadsList (Sys k) := Q (ReadyThreadsList (Sys k)) @ [t])) k1"
proof -
  let ?s = "Sys k" and ?W = "MutexWaitingList m" and ?R = "ReadyThreadsList (Sys k)"
  define Q1 where "Q1 = Q(?W := ts, ?R := Q ?R @ [t])"
  have parts: "cpus_ok C T k" "threads_ok {} T M k" "queues_ok T M Q k" "running_ok {} C M Q k"
    "no_thread_lost C T M Q k" "mutexes_ok T M Q k" "idle_ok C T k"
    using inv by (simp_all add: sched_inv_def)
  have heads: "list_heads M k1 = list_heads M k" by (simp add: list_heads_def same)
  have Wh: "?W \<in> list_heads M k" and Rh: "?R \<in> list_heads M k" using list_heads_mem m by blast+
  have WR: "MutexWaitingList m' \<noteq> ?R" if "m' \<in> M" for m' using parts(3) that unfolding queues_ok_def by (metis imageI)
  have inj: "MutexWaitingList m' = ?W \<longleftrightarrow> m' = m" for m' by (simp add: MutexWaitingList_def)
  have q: "thread_queues (Links ?s) (list_heads M k) Q" using parts(3) unfolding queues_ok_def by blast
  have only: "t \<notin> set (Q h)" if "h \<in> list_heads M k" "h \<noteq> ?W" for h
    using in_queue_only_one [OF q that(1) Wh] that(2) W by auto
  have ts: "t \<notin> set ts" using thread_queues_distinct [OF q Wh] W by simp
  have "set (Q ?W) \<subseteq> T" using parts(3) Wh unfolding queues_ok_def by blast
  then have tT: "t \<in> T" and tsT: "set ts \<subseteq> T" using W by simp_all
  have Q1: "in_queue (list_heads M k) Q1 u \<longleftrightarrow> in_queue (list_heads M k) Q u" for u
  proof -
    have "?W \<in> list_heads M k - {?R}" using Wh WR [OF m] by blast
    from in_queue_upd [OF this, of Q ts u] in_queue_split [OF this, of Q u]
      in_queue_upd [OF Rh, of "Q(?W := ts)" "Q ?R @ [t]" u] in_queue_split [OF Rh, of Q u] W
    show ?thesis unfolding Q1_def by auto
  qed
  have QW: "Q1 (MutexWaitingList m') = (if m' = m then ts else Q (MutexWaitingList m'))" if "m' \<in> M" for m'
    using WR [OF that] by (simp add: Q1_def inj)
  have "cpus_ok C T k1" using parts(1) cpu unfolding cpus_ok_def by simp
  moreover have "threads_ok {} T M k1"
    using parts(2) unfolding threads_ok_def heads th process_ok_def same cpu by auto
  moreover have "queues_ok T M Q1 k1"
    unfolding queues_ok_def heads th same
  proof (intro conjI ballI)
    show "?R \<notin> MutexWaitingList ` M" using parts(3) unfolding queues_ok_def by blast
    show "thread_queues (Links (Sys k1)) (list_heads M k) Q1" using links by (simp add: Q1_def)
    show "set (Q1 h) \<subseteq> T" if "h \<in> list_heads M k" for h
      using parts(3) that tT tsT unfolding queues_ok_def Q1_def by auto
    fix u
    show "State (((Threads ?s)(t := (Threads ?s t)\<lparr>State := ThreadStateReady\<rparr>)) u) = ThreadStateReady" if "u \<in> set (Q1 ?R)"
      using that parts(3) unfolding queues_ok_def Q1_def by auto
    fix m' assume m': "m' \<in> M" "u \<in> set (Q1 (MutexWaitingList m'))"
    then have "u \<in> set (Q (MutexWaitingList m'))" "u \<noteq> t"
      using QW [OF m'(1)] W ts only [OF list_heads_mem(1) [OF m'(1)]] by (auto simp: inj split: if_splits)
    then show "State (((Threads ?s)(t := (Threads ?s t)\<lparr>State := ThreadStateReady\<rparr>)) u) = ThreadStateBlocked"
      "\<exists>b. Continue (((Threads ?s)(t := (Threads ?s t)\<lparr>State := ThreadStateReady\<rparr>)) u) = InMutexAcquire m' b"
      using parts(3) m'(1) unfolding queues_ok_def by simp_all
  qed
  moreover have "running_ok {} C M Q1 k1"
    using parts(4) unfolding running_ok_def heads cpu Q1 th by auto
  moreover have "no_thread_lost C T M Q1 k1"
    using parts(5) unfolding no_thread_lost_def heads cpu Q1 .
  moreover have "mutexes_ok T M Q1 k1"
    unfolding mutexes_ok_def th
  proof (intro conjI ballI allI impI)
    fix m' assume m': "m' \<in> M"
    have old: "Holder (Mutexes k m') = NULL \<longrightarrow> Q (MutexWaitingList m') = []"
      "Holder (Mutexes k m') \<notin> set (Q (MutexWaitingList m'))"
      using parts(6) m' unfolding mutexes_ok_def by blast+
    have tn: "t \<noteq> NULL" using parts(2) tT unfolding threads_ok_def by blast
    show "Holder (Mutexes k1 m') = NULL \<Longrightarrow> Q1 (MutexWaitingList m') = []"
      using old(1) mut QW [OF m'] tn by (auto split: if_splits)
    show "Holder (Mutexes k1 m') \<notin> set (Q1 (MutexWaitingList m'))"
      using old(2) mut QW [OF m'] ts by auto
  next
    fix u m' b assume u: "u \<in> T" and k: "Continue (((Threads ?s)(t := (Threads ?s t)\<lparr>State := ThreadStateReady\<rparr>)) u) = InMutexAcquire m' b"
    then have old: "m' \<in> M \<and> (u \<in> set (Q (MutexWaitingList m')) \<or> Holder (Mutexes k m') = u)"
      using parts(6) unfolding mutexes_ok_def by (auto split: if_splits)
    have "u \<noteq> Holder (Mutexes k m)" if "m' = m"
      using releasing k that by (auto split: if_splits)
    then have "m' \<in> M \<and> (u \<in> set (Q1 (MutexWaitingList m')) \<or> Holder (Mutexes k1 m') = u)"
      using old mut QW W by (cases "m' = m") auto
    then show "m' \<in> M" "u \<in> set (Q1 (MutexWaitingList m')) \<or> Holder (Mutexes k1 m') = u" by blast+
  next
    fix u e b assume "u \<in> T"
    then show "Continue (((Threads ?s)(t := (Threads ?s t)\<lparr>State := ThreadStateReady\<rparr>)) u) \<noteq> InEventWait e b"
      using parts(6) unfolding mutexes_ok_def by auto
  qed
  moreover have "idle_ok C T k1"
    using parts(7) unfolding idle_ok_def th cpu by auto
  ultimately show ?thesis unfolding Q1_def by (simp add: sched_inv_def)
qed

section \<open>Every call keeps the invariant\<close>

text \<open>
  The calls whose interleavings are followed. \<open>Resume\<close> goes on with the call the current thread was
  switched away in, and \<open>Idle\<close> is a turn of the idle thread. Waiting for and signalling an executive
  event and the creation and the exit of threads are definitions of the theory \<open>Threads\<close> but
  not steps here: \<open>ExEventSignal\<close> does not keep the invariant (it loses a thread that waits, or halts).
\<close>

datatype kernel_op = Yield | Tick | Acquire PVOID | Release PVOID | Resume | Idle

fun run_op :: "PVOID \<Rightarrow> kernel_op \<Rightarrow> kernel \<Rightarrow> kernel option" where
  "run_op c Yield k = map_option (\<lambda>s. k\<lparr>Sys := s\<rparr>) (ThreadYield c (Sys k))"
| "run_op c Tick k = map_option (\<lambda>s. k\<lparr>Sys := s\<rparr>) (ThreadTick c (Sys k))"
| "run_op c (Acquire m) k = MutexAcquire c m k"
| "run_op c (Release m) k = MutexRelease c m k"
| "run_op c Resume k = ThreadResume c k"
| "run_op c Idle k = map_option (\<lambda>s. k\<lparr>Sys := s\<rparr>) (IdleThread_turn c (Sys k))"

text \<open>
  What a caller has to respect: it calls when it is not inside another call, releases only what it
  holds, does not nest deeper than the mutex allows, and only the idle thread idles and it takes
  no mutex. Ticks come with interrupts disabled.
\<close>

fun may_call :: "PVOID set \<Rightarrow> PVOID \<Rightarrow> kernel_op \<Rightarrow> kernel \<Rightarrow> bool" where
  "may_call M c Yield k \<longleftrightarrow> Continue (Threads (Sys k) (GetCurrentThread c (Sys k))) = Running"
| "may_call M c Tick k \<longleftrightarrow> \<not> IntrOn (Sys k) c"
| "may_call M c (Acquire m) k \<longleftrightarrow> m \<in> M \<and> m \<noteq> NULL \<and> Continue (Threads (Sys k) (GetCurrentThread c (Sys k))) = Running \<and>
     GetCurrentThread c (Sys k) \<noteq> IdleThread (Cpus (Sys k) c) \<and>
     (Holder (Mutexes k m) = GetCurrentThread c (Sys k) \<longrightarrow>
       CurrentRecursivityDepth (Mutexes k m) < MaxRecursivityDepth (Mutexes k m))"
| "may_call M c (Release m) k \<longleftrightarrow> m \<in> M \<and> m \<noteq> NULL \<and>
     Continue (Threads (Sys k) (GetCurrentThread c (Sys k))) = Running \<and>
     Holder (Mutexes k m) = GetCurrentThread c (Sys k)"
| "may_call M c Resume k \<longleftrightarrow> True"
| "may_call M c Idle k \<longleftrightarrow> Continue (Threads (Sys k) (GetCurrentThread c (Sys k))) = Running \<and>
     GetCurrentThread c (Sys k) = IdleThread (Cpus (Sys k) c)"

lemma current_facts:
  assumes "sched_inv {} C T M Q k" and "c \<in> C"
  shows "BlockLock (Threads (Sys k) (GetCurrentThread c (Sys k))) = NULL"
    and "Flags (Threads (Sys k) (GetCurrentThread c (Sys k))) \<noteq> THREAD_FLAG_FORCE_TERMINATE_PENDING"
    and "\<not> in_queue (list_heads M k) Q (GetCurrentThread c (Sys k))"
    and "GetCurrentThread c (Sys k) \<noteq> IdleThread (Cpus (Sys k) c) \<Longrightarrow>
      State (Threads (Sys k) (GetCurrentThread c (Sys k))) \<in> {ThreadStateRunning, ThreadStateReady}"
    and "Continue (Threads (Sys k) (GetCurrentThread c (Sys k))) \<noteq> InEventWait e b"
    and "Continue (Threads (Sys k) (GetCurrentThread c (Sys k))) = InIdleThread \<Longrightarrow>
      GetCurrentThread c (Sys k) = IdleThread (Cpus (Sys k) c)"
    and "Continue (Threads (Sys k) (GetCurrentThread c (Sys k))) = InMutexAcquire m b \<Longrightarrow>
      m \<in> M \<and> Holder (Mutexes k m) = GetCurrentThread c (Sys k)"
proof -
  note d = sched_invD [OF assms]
  have parts: "cpus_ok C T k" "threads_ok {} T M k" "running_ok {} C M Q k" "mutexes_ok T M Q k" "idle_ok C T k"
    using assms(1) by (simp_all add: sched_inv_def)
  show "BlockLock (Threads (Sys k) (GetCurrentThread c (Sys k))) = NULL"
    "Flags (Threads (Sys k) (GetCurrentThread c (Sys k))) \<noteq> THREAD_FLAG_FORCE_TERMINATE_PENDING"
    using parts(2) d(2) unfolding threads_ok_def by simp_all
  show "\<not> in_queue (list_heads M k) Q (GetCurrentThread c (Sys k))"
    "GetCurrentThread c (Sys k) \<noteq> IdleThread (Cpus (Sys k) c) \<Longrightarrow>
      State (Threads (Sys k) (GetCurrentThread c (Sys k))) \<in> {ThreadStateRunning, ThreadStateReady}"
    using parts(3) assms(2) unfolding running_ok_def by blast+
  show "Continue (Threads (Sys k) (GetCurrentThread c (Sys k))) \<noteq> InEventWait e b"
    using parts(4) d(2) unfolding mutexes_ok_def by blast
  show "Continue (Threads (Sys k) (GetCurrentThread c (Sys k))) = InIdleThread \<Longrightarrow>
      GetCurrentThread c (Sys k) = IdleThread (Cpus (Sys k) c)"
    using parts(5) d(2) cpus_okD(4) [OF parts(1) assms(2)] unfolding idle_ok_def by metis
  assume "Continue (Threads (Sys k) (GetCurrentThread c (Sys k))) = InMutexAcquire m b"
  then show "m \<in> M \<and> Holder (Mutexes k m) = GetCurrentThread c (Sys k)"
    using parts(4) d(2) cur_not_queued [OF assms list_heads_mem(1)] unfolding mutexes_ok_def by metis
qed

lemma ThreadYield_keeps:
  assumes inv: "sched_inv {} C T M Q k" and c: "c \<in> C"
  shows "\<exists>s' u. ThreadYield c (Sys k) = Some s' \<and>
    GetCurrentThread c s' = (case Q (ReadyThreadsList (Sys k)) of [] \<Rightarrow> GetCurrentThread c (Sys k) | t # _ \<Rightarrow> t) \<and>
    sched_inv {} C T M (Q(ReadyThreadsList (Sys k) := (case Q (ReadyThreadsList (Sys k)) of [] \<Rightarrow> []
      | _ # ts \<Rightarrow> if GetCurrentThread c (Sys k) = IdleThread (Cpus (Sys k) c) then ts
                  else ts @ [GetCurrentThread c (Sys k)]))) (k\<lparr>Sys := s'\<rparr>)"
proof -
  let ?s = "Sys k" and ?cur = "GetCurrentThread c (Sys k)"
  note f = current_facts [OF inv c] and d = sched_invD [OF inv c]
  define s1 where "s1 = upd_thread ?cur (\<lambda>x. x\<lparr>TickCountEarly := TickCountEarly x + 1, State := ThreadStateReady,
      Continue := InThreadYield (IntrOn ?s c)\<rparr>) (upd_cpu c (\<lambda>d. d\<lparr>YieldOnInterruptReturn := False\<rparr>) (set_intr c False ?s))"
  let ?k1 = "k\<lparr>Sys := s1\<rparr>"
  have run: "ThreadYield c ?s = ThreadSchedule c s1"
    using d(4) f(2) by (simp add: ThreadYield_def Let_def s1_def upd_defs)
  have th: "Threads s1 = (Threads ?s)(?cur := (Threads ?s ?cur)\<lparr>TickCountEarly := TickCountEarly (Threads ?s ?cur) + 1,
      State := ThreadStateReady, Continue := InThreadYield (IntrOn ?s c)\<rparr>)"
    and cpu: "GetCurrentThread e s1 = GetCurrentThread e ?s" "IdleThread (Cpus s1 e) = IdleThread (Cpus ?s e)"
    and s1: "ReadyThreadsList s1 = ReadyThreadsList ?s" "Links s1 = Links ?s" "Processes s1 = Processes ?s"
      "\<not> IntrOn s1 c" for e
    by (auto simp: s1_def upd_defs)
  have pre: "sched_inv {c} C T M Q ?k1"
    by (rule sched_inv_current [OF inv c, where x = "Threads s1 ?cur"]) (use th cpu s1 in simp_all)
  have st: "State (Threads s1 (GetCurrentThread c s1)) = ThreadStateReady \<and>
      BlockLock (Threads s1 (GetCurrentThread c s1)) = NULL \<and> \<not> in_queue (list_heads M ?k1) Q (GetCurrentThread c s1)"
    using f(1,3) th cpu s1 by (simp add: list_heads_def)
  obtain s' u where s': "ThreadSchedule c s1 = Some s'" "switched c (next_thread c s1 Q) u s1 s'"
    "sched_inv {} C T M (Q(ReadyThreadsList s1 := requeued c s1 Q)) (?k1\<lparr>Sys := s'\<rparr>)"
    using schedule_inv [OF pre c] st s1(4) by auto
  have "next_thread c s1 Q = (case Q (ReadyThreadsList ?s) of [] \<Rightarrow> ?cur | t # _ \<Rightarrow> t)"
    using st cpu s1 by (simp add: next_thread_def split: list.split)
  moreover have "requeued c s1 Q = (case Q (ReadyThreadsList ?s) of [] \<Rightarrow> []
      | _ # ts \<Rightarrow> if ?cur = IdleThread (Cpus ?s c) then ts else ts @ [?cur])"
    using st cpu s1 by (simp add: requeued_def split: list.split)
  ultimately show ?thesis using s' run s1(1) by (auto simp: switched_def)
qed

lemma ThreadTick_keeps:
  assumes inv: "sched_inv {} C T M Q k" and c: "c \<in> C" and "\<not> IntrOn (Sys k) c"
  shows "\<exists>s'. ThreadTick c (Sys k) = Some s' \<and> sched_inv {} C T M Q (k\<lparr>Sys := s'\<rparr>)"
proof -
  let ?cur = "GetCurrentThread c (Sys k)"
  note f = current_facts [OF inv c]
  obtain s' where run: "ThreadTick c (Sys k) = Some s'" using assms(3) by (simp add: ThreadTick_def Let_def)
  then have s': "Threads s' = (Threads (Sys k))(?cur := (Threads (Sys k) ?cur)
      \<lparr>TickCountCompleted := TickCountCompleted (Threads (Sys k) ?cur) + 1\<rparr>)"
    "Links s' = Links (Sys k)" "Processes s' = Processes (Sys k)" "ReadyThreadsList s' = ReadyThreadsList (Sys k)"
    "GetCurrentThread e s' = GetCurrentThread e (Sys k) \<and> IdleThread (Cpus s' e) = IdleThread (Cpus (Sys k) e)" for e
    using assms(3) by (auto simp: ThreadTick_def Let_def upd_defs)
  have "sched_inv {} C T M Q (k\<lparr>Sys := s'\<rparr>)"
    by (rule sched_inv_current [OF inv c, where x = "Threads s' ?cur"]) (use s' f in auto)
  with run show ?thesis by blast
qed

lemma returns_keeps:
  assumes inv: "sched_inv {} C T M Q k" and c: "c \<in> C"
    and mut: "\<forall>m \<in> M. Holder (Mutexes k1 m) = Holder (Mutexes k m) \<or>
      Holder (Mutexes k m) = NULL \<and> Holder (Mutexes k1 m) = GetCurrentThread c (Sys k)"
    and s1: "Sys k1 = set_intr c b (upd_thread (GetCurrentThread c (Sys k)) (\<lambda>x. x\<lparr>Continue := Running\<rparr>) s)"
      "s = Sys k \<or> s = set_intr c False (Sys k)"
  shows "sched_inv {} C T M Q k1"
proof -
  let ?cur = "GetCurrentThread c (Sys k)"
  note f = current_facts [OF inv c]
  have s': "Threads (Sys k1) = (Threads (Sys k))(?cur := (Threads (Sys k) ?cur)\<lparr>Continue := Running\<rparr>)"
    "Links (Sys k1) = Links (Sys k)" "Processes (Sys k1) = Processes (Sys k)"
    "ReadyThreadsList (Sys k1) = ReadyThreadsList (Sys k)" "Cpus (Sys k1) = Cpus (Sys k)"
    using s1 by (auto simp: upd_defs)
  show ?thesis
    by (rule sched_inv_current [OF inv c, where x = "Threads (Sys k1) ?cur"]) (use s' f mut in auto)
qed

lemma ThreadBlock_scheduled:
  assumes "\<not> IntrOn s c" and "BlockLock (Threads s (GetCurrentThread c s)) = NULL"
    and "Flags (Threads s (GetCurrentThread c s)) \<noteq> THREAD_FLAG_FORCE_TERMINATE_PENDING"
  shows "(ThreadTakeBlockLock c s \<bind> ThreadBlock c j) = ThreadSchedule c (upd_thread (GetCurrentThread c s)
    (\<lambda>x. x\<lparr>BlockLock := c, TickCountEarly := TickCountEarly x + 1, State := ThreadStateBlocked, Continue := j\<rparr>) s)"
  using assms
  by (auto simp: ThreadTakeBlockLock_def BlockLockAcquire_def ThreadBlock_def Let_def upd_defs)

lemma mutex_wait_loop_keeps:
  assumes inv: "sched_inv {} C T M Q k" and c: "c \<in> C" and m: "m \<in> M" and intr: "\<not> IntrOn (Sys k) c"
    and busy: "GetCurrentThread c (Sys k) \<noteq> IdleThread (Cpus (Sys k) c)" and held: "Holder (Mutexes k m) \<noteq> NULL"
  shows "\<exists>k' Q'. mutex_wait_loop c m old k = Some k' \<and> sched_inv {} C T M Q' k'"
proof (cases "Holder (Mutexes k m) = GetCurrentThread c (Sys k)")
  case True
  show ?thesis
    using returns_keeps [OF inv c, of "k\<lparr>Sys := set_intr c old (upd_thread (GetCurrentThread c (Sys k)) (\<lambda>x. x\<lparr>Continue := Running\<rparr>) (Sys k))\<rparr>"]
      True by (auto simp: mutex_wait_loop_def Let_def)
next
  case False
  let ?s = "Sys k" and ?cur = "GetCurrentThread c (Sys k)" and ?W = "MutexWaitingList m"
  note f = current_facts [OF inv c] and d = sched_invD [OF inv c]
  obtain links where ins: "InsertTailList (Links ?s) ?W (ReadyList ?cur) = Some links"
    and q: "thread_queues links (list_heads M k) (Q(?W := Q ?W @ [?cur]))"
    using thread_queues_enq [OF d(6) list_heads_mem(1) [OF m] d(7,8) f(3)] by blast
  define x where "x = (Threads ?s ?cur)\<lparr>BlockLock := c, TickCountEarly := TickCountEarly (Threads ?s ?cur) + 1,
    State := ThreadStateBlocked, Continue := InMutexAcquire m old\<rparr>"
  define s1 where "s1 = ?s\<lparr>Links := links, Threads := (Threads ?s)(?cur := x)\<rparr>"
  have "(ThreadTakeBlockLock c (?s\<lparr>Links := links\<rparr>) \<bind> ThreadBlock c (InMutexAcquire m old)) = ThreadSchedule c s1"
    using ThreadBlock_scheduled [of "?s\<lparr>Links := links\<rparr>" c "InMutexAcquire m old"] intr f(1,2)
    by (simp add: s1_def x_def upd_defs)
  then have run: "mutex_wait_loop c m old k = map_option (\<lambda>s. k\<lparr>Sys := s\<rparr>) (ThreadSchedule c s1)"
    using False ins by (simp add: mutex_wait_loop_def Let_def bind_assoc [symmetric] map_conv_bind_option comp_def
      del: bind_assoc)
  have pre: "sched_inv {c} C T M (Q(?W := Q ?W @ [?cur])) (k\<lparr>Sys := s1\<rparr>)"
    by (rule sched_inv_blocked [OF inv c m held False, where x = x and b = old]) (use q busy in \<open>simp_all add: s1_def x_def\<close>)
  have "?cur \<in> set ((Q(?W := Q ?W @ [?cur])) (MutexWaitingList m))" by simp
  then have "\<exists>m \<in> M. ?cur \<in> set ((Q(?W := Q ?W @ [?cur])) (MutexWaitingList m))" using m by blast
  with schedule_inv [OF pre c] intr obtain s' Q' where "ThreadSchedule c s1 = Some s'"
    "sched_inv {} C T M Q' (k\<lparr>Sys := s1, Sys := s'\<rparr>)" by (auto simp: s1_def x_def)
  with run show ?thesis by auto
qed

lemma IdleThread_turn_keeps:
  assumes inv: "sched_inv {} C T M Q k" and c: "c \<in> C"
    and idle: "GetCurrentThread c (Sys k) = IdleThread (Cpus (Sys k) c)"
  shows "\<exists>s' Q'. IdleThread_turn c (Sys k) = Some s' \<and> sched_inv {} C T M Q' (k\<lparr>Sys := s'\<rparr>)"
proof -
  let ?s = "Sys k" and ?cur = "GetCurrentThread c (Sys k)"
  note f = current_facts [OF inv c]
  define x where "x = (Threads ?s ?cur)\<lparr>BlockLock := c, TickCountEarly := TickCountEarly (Threads ?s ?cur) + 1,
    State := ThreadStateBlocked, Continue := InIdleThread\<rparr>"
  define s1 where "s1 = (set_intr c False ?s)\<lparr>Threads := (Threads ?s)(?cur := x)\<rparr>"
  have run: "IdleThread_turn c ?s = ThreadSchedule c s1"
    using ThreadBlock_scheduled [of "set_intr c False ?s" c InIdleThread] f(1,2)
    by (simp add: IdleThread_turn_def Let_def s1_def x_def upd_defs)
  have pre: "sched_inv {c} C T M Q (k\<lparr>Sys := s1\<rparr>)"
    by (rule sched_inv_current [OF inv c, where x = x]) (use idle in \<open>simp_all add: s1_def x_def set_intr_def\<close>)
  have "\<not> IntrOn s1 c" "State (Threads s1 (GetCurrentThread c s1)) = ThreadStateBlocked"
    "BlockLock (Threads s1 (GetCurrentThread c s1)) = c" "GetCurrentThread c s1 = IdleThread (Cpus s1 c)"
    using idle by (simp_all add: s1_def x_def set_intr_def)
  with schedule_inv [OF pre c] obtain s' Q' where "ThreadSchedule c s1 = Some s'"
    "sched_inv {} C T M Q' (k\<lparr>Sys := s1, Sys := s'\<rparr>)" by auto
  with run show ?thesis by auto
qed

lemma MutexAcquire_keeps:
  assumes inv: "sched_inv {} C T M Q k" and c: "c \<in> C" and may: "may_call M c (Acquire m) k"
  shows "\<exists>k' Q'. MutexAcquire c m k = Some k' \<and> sched_inv {} C T M Q' k'"
proof -
  let ?cur = "GetCurrentThread c (Sys k)"
  note f = current_facts [OF inv c] and d = sched_invD [OF inv c]
  have m: "m \<in> M" "m \<noteq> NULL" using may by simp_all
  define k0 where "k0 = k\<lparr>Sys := set_intr c False (Sys k)\<rparr>"
  consider (again) "Holder (Mutexes k m) = ?cur" | (free) "Holder (Mutexes k m) = NULL"
    | (taken) "Holder (Mutexes k m) \<noteq> NULL" "Holder (Mutexes k m) \<noteq> ?cur" by blast
  then show ?thesis
  proof cases
    case again
    define k1 where "k1 = upd_mutex m (\<lambda>x. x\<lparr>CurrentRecursivityDepth := CurrentRecursivityDepth x + 1\<rparr>) k"
    have "MutexAcquire c m k = Some k1" using again may m(2) d(4) by (simp add: MutexAcquire_def k1_def)
    moreover have "sched_inv {} C T M Q k1"
      by (rule sched_inv_current [OF inv c, where x = "Threads (Sys k) ?cur"])
        (use f in \<open>auto simp: k1_def upd_mutex_def\<close>)
    ultimately show ?thesis by blast
  next
    case free
    define k1 where "k1 = upd_mutex m (\<lambda>x. x\<lparr>Holder := ?cur, CurrentRecursivityDepth := 1\<rparr>)
      (k\<lparr>Sys := set_intr c (IntrOn (Sys k) c) (upd_thread ?cur (\<lambda>x. x\<lparr>Continue := Running\<rparr>) (set_intr c False (Sys k)))\<rparr>)"
    have "MutexAcquire c m k = Some k1"
      using free m(2) d(4) by (simp add: MutexAcquire_def Let_def mutex_wait_loop_def k1_def upd_mutex_def upd_defs)
    moreover have "sched_inv {} C T M Q k1"
      by (rule returns_keeps [OF inv c, where b = "IntrOn (Sys k) c" and s = "set_intr c False (Sys k)"])
        (use free in \<open>auto simp: k1_def upd_mutex_def\<close>)
    ultimately show ?thesis by blast
  next
    case taken
    have "MutexAcquire c m k = mutex_wait_loop c m (IntrOn (Sys k) c) k0"
      using taken m(2) d(4) by (simp add: MutexAcquire_def Let_def k0_def eq_commute [of _ "?cur"])
    moreover have k0: "sched_inv {} C T M Q k0"
      by (rule sched_inv_current [OF inv c, where x = "Threads (Sys k) ?cur"])
        (use f in \<open>auto simp: k0_def set_intr_def\<close>)
    moreover have "\<not> IntrOn (Sys k0) c" "GetCurrentThread c (Sys k0) \<noteq> IdleThread (Cpus (Sys k0) c)"
      "Holder (Mutexes k0 m) \<noteq> NULL" using may taken by (simp_all add: k0_def set_intr_def)
    ultimately show ?thesis using mutex_wait_loop_keeps [OF k0 c m(1)] by simp
  qed
qed

lemma sched_inv_free:
  assumes inv: "sched_inv {} C T M Q k" and m: "m \<in> M" and W: "Q (MutexWaitingList m) = []"
    and "\<forall>b. Continue (Threads (Sys k) (Holder (Mutexes k m))) \<noteq> InMutexAcquire m b"
  shows "sched_inv {} C T M Q (upd_mutex m (\<lambda>x. x\<lparr>Holder := NULL\<rparr>) k)"
proof -
  let ?k = "upd_mutex m (\<lambda>x. x\<lparr>Holder := NULL\<rparr>) k"
  have sys: "Sys ?k = Sys k" by (simp add: upd_mutex_def)
  have heads: "list_heads M ?k = list_heads M k" by (simp add: list_heads_def sys)
  have parts: "cpus_ok C T k" "threads_ok {} T M k" "queues_ok T M Q k" "running_ok {} C M Q k"
    "no_thread_lost C T M Q k" "mutexes_ok T M Q k" "idle_ok C T k"
    using inv by (simp_all add: sched_inv_def)
  have "mutexes_ok T M Q ?k"
    unfolding mutexes_ok_def sys
  proof (intro conjI ballI allI impI)
    fix m' assume m': "m' \<in> M"
    show "Holder (Mutexes ?k m') = NULL \<Longrightarrow> Q (MutexWaitingList m') = []"
      using parts(6) m' W unfolding mutexes_ok_def by (cases "m' = m") (simp_all add: upd_mutex_def)
    show "Holder (Mutexes ?k m') \<notin> set (Q (MutexWaitingList m'))"
      using parts(6) m' W unfolding mutexes_ok_def by (cases "m' = m") (simp_all add: upd_mutex_def)
  next
    fix t m' b assume t: "t \<in> T" "Continue (Threads (Sys k) t) = InMutexAcquire m' b"
    then have "m' \<in> M \<and> (t \<in> set (Q (MutexWaitingList m')) \<or> Holder (Mutexes k m') = t)"
      using parts(6) unfolding mutexes_ok_def by blast
    then show "m' \<in> M" "t \<in> set (Q (MutexWaitingList m')) \<or> Holder (Mutexes ?k m') = t"
      using assms(4) t(2) W by (cases "m' = m"; auto simp: upd_mutex_def)+
  qed (use parts(6) in \<open>auto simp: mutexes_ok_def\<close>)
  then show ?thesis
    using parts by (simp add: sched_inv_def cpus_ok_def threads_ok_def queues_ok_def running_ok_def
      no_thread_lost_def idle_ok_def sys heads)
qed

lemma MutexRelease_keeps:
  assumes inv: "sched_inv {} C T M Q k" and c: "c \<in> C" and may: "may_call M c (Release m) k"
  shows "\<exists>k'. MutexRelease c m k = Some k' \<and>
    (if CurrentRecursivityDepth (Mutexes k m) > 1 then
       Holder (Mutexes k' m) = GetCurrentThread c (Sys k) \<and> sched_inv {} C T M Q k'
     else case Q (MutexWaitingList m) of
       [] \<Rightarrow> Holder (Mutexes k' m) = NULL \<and> sched_inv {} C T M Q k'
     | t # ts \<Rightarrow> Holder (Mutexes k' m) = t \<and> CurrentRecursivityDepth (Mutexes k' m) = 1 \<and>
         sched_inv {} C T M (Q(MutexWaitingList m := ts,
           ReadyThreadsList (Sys k) := Q (ReadyThreadsList (Sys k)) @ [t])) k')"
proof -
  let ?cur = "GetCurrentThread c (Sys k)" and ?W = "MutexWaitingList m"
  note f = current_facts [OF inv c] and d = sched_invD [OF inv c]
  have m: "m \<in> M" "m \<noteq> NULL" "Holder (Mutexes k m) = ?cur" "Continue (Threads (Sys k) ?cur) = Running"
    using may by simp_all
  have W: "?W \<in> list_heads M k" by (rule list_heads_mem(1) [OF m(1)])
  show ?thesis
  proof (cases "CurrentRecursivityDepth (Mutexes k m) > 1")
    case True
    define k1 where "k1 = upd_mutex m (\<lambda>x. x\<lparr>CurrentRecursivityDepth := CurrentRecursivityDepth x - 1\<rparr>) k"
    have "MutexRelease c m k = Some k1" using True m by (simp add: MutexRelease_def k1_def)
    moreover have "sched_inv {} C T M Q k1"
      by (rule sched_inv_current [OF inv c, where x = "Threads (Sys k) ?cur"])
        (use f in \<open>auto simp: k1_def upd_mutex_def\<close>)
    ultimately show ?thesis using True m(3) by (simp add: k1_def upd_mutex_def)
  next
    case False
    show ?thesis
    proof (cases "Q ?W")
      case Nil
      have "RemoveHeadList (Links (Sys k)) ?W = Some (?W, Links (Sys k))"
        by (rule thread_queues_Nil [OF d(6) W Nil])
      then have "MutexRelease c m k = Some (upd_mutex m (\<lambda>x. x\<lparr>Holder := NULL\<rparr>) k)"
        using False m by (simp add: MutexRelease_def)
      moreover have "sched_inv {} C T M Q (upd_mutex m (\<lambda>x. x\<lparr>Holder := NULL\<rparr>) k)"
        by (rule sched_inv_free [OF inv m(1) Nil]) (use m in simp)
      ultimately show ?thesis using False Nil by (simp add: upd_mutex_def)
    next
      case (Cons t ts)
      obtain links where pop: "RemoveHeadList (Links (Sys k)) ?W = Some (ReadyList t, links)"
        and q1: "thread_queues links (list_heads M k) (Q(?W := ts))" and t: "ReadyList t \<noteq> ?W"
        "\<not> in_queue (list_heads M k) (Q(?W := ts)) t"
        using thread_queues_deq [OF d(6) W Cons] by blast
      have parts: "threads_ok {} T M k" "queues_ok T M Q k" using inv by (simp_all add: sched_inv_def)
      have "set (Q ?W) \<subseteq> T" using parts(2) W unfolding queues_ok_def by blast
      then have tT: "t \<in> T" using Cons by simp
      have blocked: "State (Threads (Sys k) t) = ThreadStateBlocked"
        using parts(2) m(1) Cons unfolding queues_ok_def by simp
      have ok: "t \<noteq> NULL" "BlockLock (Threads (Sys k) t) = NULL" "ReadyList t \<noteq> NULL" "ReadyList t \<notin> list_heads M k"
        using parts(1) tT unfolding threads_ok_def by simp_all
      have WR: "?W \<noteq> ReadyThreadsList (Sys k)" using parts(2) m(1) unfolding queues_ok_def by (metis imageI)
      define s1 where "s1 = (Sys k)\<lparr>Links := links\<rparr>"
      have "\<exists>s'. ThreadUnblock c t s1 = Some s' \<and>
        thread_queues (Links s') (list_heads M k) ((Q(?W := ts))(ReadyThreadsList s1 := (Q(?W := ts)) (ReadyThreadsList s1) @ [t])) \<and>
        Threads s' = (Threads s1)(t := (Threads s1 t)\<lparr>State := ThreadStateReady\<rparr>) \<and>
        Cpus s' = Cpus s1 \<and> Events s' = Events s1 \<and> Processes s' = Processes s1 \<and> IntrOn s' = IntrOn s1 \<and>
        ReadyThreadsList s' = ReadyThreadsList s1"
        by (rule ThreadUnblock_ok) (use ok blocked q1 t list_heads_mem in \<open>simp_all add: s1_def\<close>)
      then obtain s' where un: "ThreadUnblock c t s1 = Some s'"
        and q2: "thread_queues (Links s') (list_heads M k) (Q(?W := ts, ReadyThreadsList (Sys k) := Q (ReadyThreadsList (Sys k)) @ [t]))"
        and s': "Threads s' = (Threads (Sys k))(t := (Threads (Sys k) t)\<lparr>State := ThreadStateReady\<rparr>)"
          "Cpus s' = Cpus (Sys k)" "Processes s' = Processes (Sys k)" "ReadyThreadsList s' = ReadyThreadsList (Sys k)"
        using WR by (auto simp: s1_def)
      define y where "y = (Mutexes k m)\<lparr>Holder := t, CurrentRecursivityDepth := 1\<rparr>"
      define k1 where "k1 = k\<lparr>Sys := s', Mutexes := (Mutexes k)(m := y)\<rparr>"
      have "MutexRelease c m k = Some k1"
        using False m pop t(1) un by (simp add: MutexRelease_def Let_def upd_mutex_def s1_def k1_def y_def)
      moreover have "sched_inv {} C T M (Q(?W := ts, ReadyThreadsList (Sys k) := Q (ReadyThreadsList (Sys k)) @ [t])) k1"
        by (rule sched_inv_handed_over [OF inv m(1) Cons, where y = y]) (use s' q2 m in \<open>simp_all add: k1_def y_def\<close>)
      ultimately show ?thesis using False Cons by (simp add: k1_def y_def)
    qed
  qed
qed

end
