(* ===== verification/SchedSpec.thy ===== *)
theory SchedSpec
  imports Scheduling
begin

text \<open>
  What the scheduler and the mutexes promise: the runs of a kernel whose threads yield, tick, take
  and release mutexes keep the invariant of the theory \<open>Scheduling\<close> and never halt, \<open>ThreadYield\<close> is
  round robin, \<open>MutexRelease\<close> is first come, first served; and the one call that breaks the
  bookkeeping, \<open>ExEventSignal\<close>.
\<close>

section \<open>Runs of the kernel\<close>

lemma ThreadResume_keeps:
  assumes inv: "sched_inv {} C T M Q k" and c: "c \<in> C"
  shows "\<exists>k' Q'. ThreadResume c k = Some k' \<and> sched_inv {} C T M Q' k'"
proof -
  let ?cur = "GetCurrentThread c (Sys k)"
  note f = current_facts [OF inv c]
  have returns: "\<exists>k' Q'. Some (k\<lparr>Sys := set_intr c b (upd_thread ?cur (\<lambda>x. x\<lparr>Continue := Running\<rparr>) (Sys k))\<rparr>) = Some k' \<and>
      sched_inv {} C T M Q' k'" for b
    using returns_keeps [OF inv c, of "k\<lparr>Sys := set_intr c b (upd_thread ?cur (\<lambda>x. x\<lparr>Continue := Running\<rparr>) (Sys k))\<rparr>" b "Sys k"]
    by auto
  show ?thesis
  proof (cases "Continue (Threads (Sys k) ?cur)")
    case Running
    with inv show ?thesis by (auto simp: ThreadResume_def Let_def)
  next
    case Starting
    then show ?thesis using returns by (simp add: ThreadResume_def Let_def)
  next
    case (InThreadYield b)
    then show ?thesis using returns by (simp add: ThreadResume_def Let_def)
  next
    case (InMutexAcquire m b)
    then show ?thesis using returns f(7) by (simp add: ThreadResume_def Let_def mutex_wait_loop_def)
  next
    case (InEventWait e b)
    with f(5) show ?thesis by blast
  next
    case InIdleThread
    then show ?thesis using returns by (simp add: ThreadResume_def Let_def)
  qed
qed

lemma run_op_keeps:
  assumes inv: "sched_inv {} C T M Q k" and c: "c \<in> C" and may: "may_call M c oper k"
  shows "\<exists>k' Q'. run_op c oper k = Some k' \<and> sched_inv {} C T M Q' k'"
proof (cases oper)
  case Yield
  then show ?thesis using ThreadYield_keeps [OF inv c] by (auto; blast)
next
  case Tick
  then show ?thesis using ThreadTick_keeps [OF inv c] may by (auto; blast)
next
  case (Acquire m)
  then show ?thesis using MutexAcquire_keeps [OF inv c] may by simp
next
  case (Release m)
  obtain k' where run: "MutexRelease c m k = Some k'" and
    "if CurrentRecursivityDepth (Mutexes k m) > 1 then
       Holder (Mutexes k' m) = GetCurrentThread c (Sys k) \<and> sched_inv {} C T M Q k'
     else case Q (MutexWaitingList m) of
       [] \<Rightarrow> Holder (Mutexes k' m) = NULL \<and> sched_inv {} C T M Q k'
     | t # ts \<Rightarrow> Holder (Mutexes k' m) = t \<and> CurrentRecursivityDepth (Mutexes k' m) = 1 \<and>
         sched_inv {} C T M (Q(MutexWaitingList m := ts,
           ReadyThreadsList (Sys k) := Q (ReadyThreadsList (Sys k)) @ [t])) k'"
    using MutexRelease_keeps [OF inv c may [unfolded Release]] by blast
  then have "\<exists>Q'. sched_inv {} C T M Q' k'" by (auto split: if_splits list.splits)
  with run Release show ?thesis by auto
next
  case Resume
  then show ?thesis using ThreadResume_keeps [OF inv c] by simp
next
  case Idle
  then show ?thesis using IdleThread_turn_keeps [OF inv c] may by auto
qed

text \<open>A run: every CPU makes the calls it may make, in any order.\<close>

inductive kernel_steps :: "PVOID set \<Rightarrow> PVOID set \<Rightarrow> kernel \<Rightarrow> (PVOID \<times> kernel_op) list \<Rightarrow> kernel \<Rightarrow> bool"
  for C M where
  start: "kernel_steps C M k [] k"
| step: "kernel_steps C M k ops k1 \<Longrightarrow> c \<in> C \<Longrightarrow> may_call M c oper k1 \<Longrightarrow> run_op c oper k1 = Some k2 \<Longrightarrow>
    kernel_steps C M k (ops @ [(c, oper)]) k2"

lemma kernel_steps_keeps:
  "kernel_steps C M k ops k' \<Longrightarrow> sched_inv {} C T M Q k \<Longrightarrow> \<exists>Q'. sched_inv {} C T M Q' k'"
proof (induction rule: kernel_steps.induct)
  case (step k ops k1 c oper k2)
  then show ?case using run_op_keeps by fastforce
qed blast

text \<open>
  A small kernel: on one CPU the thread \<open>0x2000\<close> runs and holds the mutex \<open>0x5000\<close>, for which
  \<open>0x4000\<close> waits; \<open>0x3000\<close> is ready and \<open>0x1000\<close> is the idle thread.
\<close>

definition demo_kernel :: kernel where
  "demo_kernel = \<lparr>Sys = \<lparr>
     Threads = (\<lambda>_. ZERO_THREAD\<lparr>Process := 0x8000, State := ThreadStateReady\<rparr>)
       (0x4000 := ZERO_THREAD\<lparr>Process := 0x8000, State := ThreadStateBlocked, Continue := InMutexAcquire 0x5000 True\<rparr>),
     Events = (\<lambda>_. \<lparr>EventType = ExEventTypeSynchronization, Signaled = False\<rparr>),
     Processes = (\<lambda>_. \<lparr>ProcessRefCnt = RefCnt ZERO_THREAD, ProcessId = 4, TerminationStatus = 0,
       NumberOfThreads = 4, ActiveThreads = 4, KernelSpace = True\<rparr>),
     Cpus = (\<lambda>_. \<lparr>RunningThreadTicks = 0, IdleThread = 0x1000, CurrentThread = 0x2000, PreviousThread = NULL,
       YieldOnInterruptReturn = False, IdleTicks = 0, KernelTicks = 0\<rparr>),
     IntrOn = (\<lambda>_. True),
     Links = \<lparr>Flink = (\<lambda>_. NULL)(0x6000 := 0x30E8, 0x30E8 := 0x6000, 0x5048 := 0x40E8, 0x40E8 := 0x5048),
              Blink = (\<lambda>_. NULL)(0x6000 := 0x30E8, 0x30E8 := 0x6000, 0x5048 := 0x40E8, 0x40E8 := 0x5048)\<rparr>,
     ReadyThreadsList = 0x6000, AllThreadsList = 0x7000, CurrentTid = 4, Calls = []\<rparr>,
   Mutexes = (\<lambda>_. \<lparr>CurrentRecursivityDepth = 1, MaxRecursivityDepth = 1, Holder = 0x2000\<rparr>)\<rparr>"

definition demo_threads :: "PVOID set" where "demo_threads = {0x1000, 0x2000, 0x3000, 0x4000}"

definition demo_queues :: "PVOID \<Rightarrow> PVOID list" where
  "demo_queues = (\<lambda>_. [])(0x6000 := [0x3000], 0x5048 := [0x4000])"

lemma demo_heads: "list_heads {0x5000} demo_kernel = {0x6000, 0x5048}"
  by (simp add: list_heads_def demo_kernel_def MutexWaitingList_def)

lemma demo_inv: "sched_inv {} {1} demo_threads {0x5000} demo_queues demo_kernel"
proof -
  have "cpus_ok {1} demo_threads demo_kernel" "threads_ok {} demo_threads {0x5000} demo_kernel"
    "running_ok {} {1} {0x5000} demo_queues demo_kernel" "no_thread_lost {1} demo_threads {0x5000} demo_queues demo_kernel"
    unfolding cpus_ok_def threads_ok_def running_ok_def no_thread_lost_def demo_heads in_queue_def
    by (simp_all add: demo_kernel_def demo_threads_def demo_queues_def ReadyList_def process_ok_def ZERO_THREAD_def)
  moreover have "mutexes_ok demo_threads {0x5000} demo_queues demo_kernel" "idle_ok {1} demo_threads demo_kernel"
    unfolding mutexes_ok_def idle_ok_def
    by (auto simp: demo_kernel_def demo_threads_def demo_queues_def MutexWaitingList_def ZERO_THREAD_def)
  moreover have "queues_ok demo_threads {0x5000} demo_queues demo_kernel"
    unfolding queues_ok_def demo_heads thread_queues_def queues_def
    by (auto simp: demo_kernel_def demo_threads_def demo_queues_def MutexWaitingList_def ZERO_THREAD_def dll_def ReadyList_def)
  ultimately show ?thesis by (simp add: sched_inv_def)
qed

lemma demo_lists:
  "demo_queues 0x6000 = [0x3000]" "demo_queues 0x5048 = [0x4000]" "MutexWaitingList 0x5000 = 0x5048"
  "ReadyThreadsList (Sys demo_kernel) = 0x6000" "CurrentRecursivityDepth (Mutexes demo_kernel m) = 1"
  "GetCurrentThread c (Sys demo_kernel) = 0x2000" "Holder (Mutexes demo_kernel m) = 0x2000"
  "IdleThread (Cpus (Sys demo_kernel) c) = 0x1000"
  by (simp_all add: demo_queues_def demo_kernel_def MutexWaitingList_def)

lemma mutex_wait_loop_mutexes: "mutex_wait_loop c m b k = Some k' \<Longrightarrow> Mutexes k' = Mutexes k"
  by (auto simp: mutex_wait_loop_def Let_def bind_eq_Some_conv split: if_splits)

section \<open>Properties\<close>

text \<open>
  C16. No run of the following calls halts: \<open>ThreadYield\<close>, the timer's \<open>ThreadTick\<close>, \<open>MutexAcquire\<close>,
  \<open>MutexRelease\<close>, going on after a switch, and a turn of the idle thread. In every state that the CPUs
  reach from a well-formed one by these calls, each of them that may be made (\<open>may_call\<close>) returns or
  switches to another thread; no assertion of the scheduler, the lists, the block locks or the mutexes
  fails in it. Executive events, thread creation and thread exit are not among these calls;
  \<open>ExEventSignal\<close> can halt in a well-formed state, as is shown below.
\<close>

theorem kernel_never_halts:
  assumes "sched_inv {} C T M Q k" and "kernel_steps C M k ops k'" and "c \<in> C" and "may_call M c oper k'"
  shows "run_op c oper k' \<noteq> None"
  using kernel_steps_keeps [OF assms(2,1)] run_op_keeps [OF _ assms(3,4)] by fastforce

lemma demo_yield: "kernel_steps {1} {0x5000} demo_kernel [(1, Yield)] (the (run_op 1 Yield demo_kernel))"
proof -
  have "kernel_steps {1} {0x5000} demo_kernel ([] @ [(1, Yield)]) (the (run_op 1 Yield demo_kernel))"
    by (rule kernel_steps.step [OF kernel_steps.start])
      (use run_op_keeps [OF demo_inv, of 1 Yield] in \<open>auto simp: demo_kernel_def ZERO_THREAD_def\<close>)
  then show ?thesis by simp
qed

theorem kernel_never_halts_witness:
  "run_op 1 Resume (the (run_op 1 Yield demo_kernel)) \<noteq> None"
  using kernel_never_halts [OF demo_inv demo_yield, of 1 Resume] by simp

text \<open>The places where a thread can be.\<close>

definition running_on :: "PVOID set \<Rightarrow> kernel \<Rightarrow> PVOID \<Rightarrow> PVOID set" where
  "running_on C k t = {c \<in> C. GetCurrentThread c (Sys k) = t}"

definition idle_off :: "PVOID set \<Rightarrow> kernel \<Rightarrow> PVOID \<Rightarrow> bool" where
  "idle_off C k t \<longleftrightarrow> (\<exists>c \<in> C. t = IdleThread (Cpus (Sys k) c)) \<and> running_on C k t = {}"

definition placed :: "PVOID set \<Rightarrow> PVOID set \<Rightarrow> (PVOID \<Rightarrow> PVOID list) \<Rightarrow> kernel \<Rightarrow> PVOID \<Rightarrow> bool" where
  "placed C M Q k t \<longleftrightarrow>
     (\<exists>c. running_on C k t = {c}) \<and> \<not> in_queue (list_heads M k) Q t \<or>
     idle_off C k t \<and> \<not> in_queue (list_heads M k) Q t \<or>
     running_on C k t = {} \<and> \<not> idle_off C k t \<and>
       (\<exists>!h. h \<in> list_heads M k \<and> t \<in> set (Q h)) \<and> (\<forall>h \<in> list_heads M k. distinct (Q h))"

lemma sched_inv_placed:
  assumes inv: "sched_inv {} C T M Q k" and t: "t \<in> T"
  shows "placed C M Q k t"
proof -
  have parts: "cpus_ok C T k" "queues_ok T M Q k" "running_ok {} C M Q k" "no_thread_lost C T M Q k"
    using inv by (simp_all add: sched_inv_def)
  have q: "thread_queues (Links (Sys k)) (list_heads M k) Q" using parts(2) by (simp add: queues_ok_def)
  consider (run) "\<exists>c \<in> C. t = GetCurrentThread c (Sys k)"
    | (idle) "idle_off C k t"
    | (listed) "running_on C k t = {}" "\<not> idle_off C k t" "in_queue (list_heads M k) Q t"
  proof -
    have "in_queue (list_heads M k) Q t \<or> (\<exists>c \<in> C. t = GetCurrentThread c (Sys k) \<or> t = IdleThread (Cpus (Sys k) c))"
      using parts(4) t by (simp add: no_thread_lost_def)
    moreover have "running_on C k t = {} \<or> (\<exists>c \<in> C. t = GetCurrentThread c (Sys k))"
      by (auto simp: running_on_def)
    ultimately show ?thesis using run idle listed unfolding idle_off_def by metis
  qed
  then show ?thesis
  proof cases
    case run
    then obtain c where c: "c \<in> C" "t = GetCurrentThread c (Sys k)" by blast
    then have "running_on C k t = {c}" using cpus_okD(2) [OF parts(1)] by (auto simp: running_on_def)
    moreover have "\<not> in_queue (list_heads M k) Q t" using parts(3) c by (simp add: running_ok_def)
    ultimately show ?thesis unfolding placed_def by blast
  next
    case idle
    then have "\<not> in_queue (list_heads M k) Q t" using parts(3) by (auto simp: running_ok_def idle_off_def)
    with idle show ?thesis unfolding placed_def by blast
  next
    case listed
    then have "\<exists>!h. h \<in> list_heads M k \<and> t \<in> set (Q h)"
      using in_queue_only_one [OF q] unfolding in_queue_def by blast
    moreover have "\<forall>h \<in> list_heads M k. distinct (Q h)" using thread_queues_distinct [OF q] by blast
    ultimately show ?thesis using listed by (simp add: placed_def)
  qed
qed

text \<open>
  C17. No thread is lost and none is in two places: in every reachable state the ready list and
  the waiting lists of the mutexes are well-formed circular lists of threads, and every thread is in
  exactly one of three places: running on exactly one CPU, an idle thread that does not run, or
  once in exactly one list; in the ready list only if it is ready, and in the list of a mutex only
  if it is blocked in \<open>MutexAcquire\<close> for it while somebody else holds it.
\<close>

theorem no_thread_is_lost:
  assumes "sched_inv {} C T M Q k" and "kernel_steps C M k ops k'"
  shows "\<exists>Q'. thread_queues (Links (Sys k')) (list_heads M k') Q' \<and> (\<forall>t \<in> T. placed C M Q' k' t) \<and>
    (\<forall>t \<in> set (Q' (ReadyThreadsList (Sys k'))). State (Threads (Sys k') t) = ThreadStateReady) \<and>
    (\<forall>m \<in> M. \<forall>t \<in> set (Q' (MutexWaitingList m)). State (Threads (Sys k') t) = ThreadStateBlocked \<and>
       (\<exists>b. Continue (Threads (Sys k') t) = InMutexAcquire m b) \<and> Holder (Mutexes k' m) \<notin> {NULL, t})"
proof -
  obtain Q' where inv: "sched_inv {} C T M Q' k'" using kernel_steps_keeps [OF assms(2,1)] by blast
  then have "queues_ok T M Q' k'" "mutexes_ok T M Q' k'" by (simp_all add: sched_inv_def)
  then have "thread_queues (Links (Sys k')) (list_heads M k') Q'"
    "\<forall>t \<in> set (Q' (ReadyThreadsList (Sys k'))). State (Threads (Sys k') t) = ThreadStateReady"
    "\<forall>m \<in> M. \<forall>t \<in> set (Q' (MutexWaitingList m)). State (Threads (Sys k') t) = ThreadStateBlocked \<and>
       (\<exists>b. Continue (Threads (Sys k') t) = InMutexAcquire m b) \<and> Holder (Mutexes k' m) \<notin> {NULL, t}"
    by (auto simp: queues_ok_def mutexes_ok_def)
  with sched_inv_placed [OF inv] show ?thesis by blast
qed

theorem no_thread_is_lost_witness:
  "\<exists>Q'. \<forall>t \<in> demo_threads. placed {1} {0x5000} Q' (the (run_op 1 Yield demo_kernel)) t"
  using no_thread_is_lost [OF demo_inv demo_yield] by blast

text \<open>
  C34. \<open>ThreadYield\<close> is round robin: with ready threads \<open>t, t1, ..., tn\<close> the CPU switches to \<open>t\<close>
  and the thread that yields becomes the last of the ready threads (the idle thread is never
  queued); with an empty ready list the thread goes on running. The invariant is kept.
\<close>

theorem ThreadYield_round_robin:
  assumes "sched_inv {} C T M Q k" and "c \<in> C" and "ready = Q (ReadyThreadsList (Sys k))"
    and "cur = GetCurrentThread c (Sys k)"
  shows "\<exists>s'. ThreadYield c (Sys k) = Some s' \<and>
    GetCurrentThread c s' = hd (ready @ [cur]) \<and>
    sched_inv {} C T M (Q(ReadyThreadsList (Sys k) :=
      (if ready = [] \<or> cur = IdleThread (Cpus (Sys k) c) then tl ready else tl ready @ [cur]))) (k\<lparr>Sys := s'\<rparr>)"
  using ThreadYield_keeps [OF assms(1,2)] assms(3,4) by (cases ready) (auto split: list.splits)

theorem ThreadYield_round_robin_witness:
  "\<exists>s'. ThreadYield 1 (Sys demo_kernel) = Some s' \<and> GetCurrentThread 1 s' = 0x3000 \<and>
    sched_inv {} {1} demo_threads {0x5000} (demo_queues(0x6000 := [0x2000])) (demo_kernel\<lparr>Sys := s'\<rparr>)"
  using ThreadYield_round_robin [OF demo_inv _ refl refl, of 1] by (simp add: demo_lists)

text \<open>
  C18. \<open>MutexRelease\<close> is first come, first served: a nested release keeps the holder; the last one
  hands the mutex to the thread that waited longest, which becomes the last of the ready threads,
  and frees it when nobody waits.
\<close>

theorem MutexRelease_hands_over:
  assumes "sched_inv {} C T M Q k" and "c \<in> C" and "may_call M c (Release m) k"
    and "waiting = Q (MutexWaitingList m)"
  shows "\<exists>k'. MutexRelease c m k = Some k' \<and>
    (if CurrentRecursivityDepth (Mutexes k m) > 1
     then Holder (Mutexes k' m) = GetCurrentThread c (Sys k) \<and> sched_inv {} C T M Q k'
     else if waiting = [] then Holder (Mutexes k' m) = NULL \<and> sched_inv {} C T M Q k'
     else Holder (Mutexes k' m) = hd waiting \<and> CurrentRecursivityDepth (Mutexes k' m) = 1 \<and>
       sched_inv {} C T M (Q(MutexWaitingList m := tl waiting,
         ReadyThreadsList (Sys k) := Q (ReadyThreadsList (Sys k)) @ [hd waiting])) k')"
proof (cases "CurrentRecursivityDepth (Mutexes k m) > 1")
  case True
  with MutexRelease_keeps [OF assms(1,2,3)] show ?thesis by auto
next
  case False
  with MutexRelease_keeps [OF assms(1,2,3)] show ?thesis
    unfolding assms(4) by (cases "Q (MutexWaitingList m)") simp_all
qed

theorem MutexRelease_hands_over_witness:
  "\<exists>k'. MutexRelease 1 0x5000 demo_kernel = Some k' \<and> Holder (Mutexes k' 0x5000) = 0x4000 \<and>
    sched_inv {} {1} demo_threads {0x5000} (demo_queues(0x5048 := [], 0x6000 := [0x3000, 0x4000])) k'"
proof -
  have "may_call {0x5000} 1 (Release 0x5000) demo_kernel" by (simp add: demo_kernel_def ZERO_THREAD_def)
  from MutexRelease_hands_over [OF demo_inv _ this refl] demo_lists show ?thesis by auto
qed

text \<open>
  Mutual exclusion: whatever call any CPU makes, in any state, a thread that holds a mutex
  keeps it unless the call is its own release of this mutex.
\<close>

theorem mutex_kept_until_released:
  assumes "run_op c oper k = Some k'" and "Holder (Mutexes k m) \<noteq> NULL"
    and "Holder (Mutexes k' m) \<noteq> Holder (Mutexes k m)"
  shows "oper = Release m \<and> GetCurrentThread c (Sys k) = Holder (Mutexes k m)"
proof (cases oper)
  case (Acquire m')
  with assms show ?thesis
    by (auto simp: MutexAcquire_def Let_def upd_mutex_def bind_eq_Some_conv dest!: mutex_wait_loop_mutexes
      split: if_splits)
next
  case (Release m')
  with assms show ?thesis
    by (auto simp: MutexRelease_def Let_def upd_mutex_def bind_eq_Some_conv split: if_splits prod.splits)
next
  case Resume
  with assms show ?thesis
    by (auto simp: ThreadResume_def Let_def dest!: mutex_wait_loop_mutexes split: continuation.splits if_splits)
qed (use assms in auto)

theorem mutex_kept_until_released_witness:
  "\<exists>k'. MutexRelease 1 0x5000 demo_kernel = Some k' \<and> Holder (Mutexes k' 0x5000) = 0x4000 \<and>
    GetCurrentThread 1 (Sys demo_kernel) = 0x2000"
proof -
  have may: "may_call {0x5000} 1 (Release 0x5000) demo_kernel" by (simp add: demo_kernel_def ZERO_THREAD_def)
  obtain k' where k': "MutexRelease 1 0x5000 demo_kernel = Some k'" "Holder (Mutexes k' 0x5000) = 0x4000"
    using MutexRelease_keeps [OF demo_inv _ may] demo_lists by auto
  with mutex_kept_until_released [of 1 "Release 0x5000" demo_kernel k' "0x5000"] demo_lists show ?thesis by auto
qed

text \<open>
  C19. \<open>ExEventSignal\<close> takes the thread that waited longest off the waiting list but wakes the thread at
  the address in its local constant. If that one is blocked, it becomes ready and a waiter \<open>t\<close> at
  another address is lost: it is in no list and keeps its state. If it is not, the call halts. Shown
  for synchronization events with at least one waiter.
\<close>

theorem ExEventSignal_loses_waiter:
  assumes q: "thread_queues (Links s) H Q" and H: "WaitingList e \<in> H" "ReadyThreadsList s \<in> H"
      "WaitingList e \<noteq> ReadyThreadsList s"
    and e: "e \<noteq> NULL" "EventType (Events s e) = ExEventTypeSynchronization" and Q: "Q (WaitingList e) = t # ts"
    and const: "BlockLock (Threads s pThreadToSignal) = NULL" "ReadyList pThreadToSignal \<notin> H"
      "\<not> in_queue H Q pThreadToSignal" and t: "t \<noteq> pThreadToSignal"
  shows "if State (Threads s pThreadToSignal) = ThreadStateBlocked
    then \<exists>s'. ExEventSignal c e s = Some s' \<and>
      thread_queues (Links s') H (Q(WaitingList e := ts,
        ReadyThreadsList s := Q (ReadyThreadsList s) @ [pThreadToSignal])) \<and>
      \<not> in_queue H (Q(WaitingList e := ts, ReadyThreadsList s := Q (ReadyThreadsList s) @ [pThreadToSignal])) t \<and>
      Threads s' t = Threads s t
    else ExEventSignal c e s = None"
proof -
  define s0 where "s0 = upd_event e (\<lambda>e. e\<lparr>Signaled := True\<rparr>) s"
  have s0: "Links s0 = Links s" "Threads s0 = Threads s" "ReadyThreadsList s0 = ReadyThreadsList s"
    "EventType (Events s0 e) = ExEventTypeSynchronization" using e(2) by (simp_all add: s0_def upd_event_def)
  obtain links where pop: "RemoveHeadList (Links s) (WaitingList e) = Some (ReadyList t, links)"
    and q1: "thread_queues links H (Q(WaitingList e := ts))" "ReadyList t \<noteq> WaitingList e"
      "\<not> in_queue H (Q(WaitingList e := ts)) t"
    using thread_queues_deq [OF q H(1) Q] by blast
  define s1 where "s1 = s0\<lparr>Links := links\<rparr>"
  have run: "ExEventSignal c e s = ThreadUnblock c pThreadToSignal s1 \<bind> (\<lambda>s. if ExEventTypeSynchronization = EventType (Events s e)
      then Some s else signal_loop c e s)"
    using e(1) pop q1(2) s0 by (simp add: ExEventSignal_def s0_def [symmetric] signal_loop.simps [of c e s0] s1_def)
  have free: "\<not> in_queue H (Q(WaitingList e := ts)) pThreadToSignal"
    using const(3) Q by (auto simp: in_queue_def split: if_splits)
  show ?thesis
  proof (cases "State (Threads s pThreadToSignal) = ThreadStateBlocked")
    case True
    have "\<exists>s'. ThreadUnblock c pThreadToSignal s1 = Some s' \<and>
      thread_queues (Links s') H ((Q(WaitingList e := ts))(ReadyThreadsList s1 :=
        (Q(WaitingList e := ts)) (ReadyThreadsList s1) @ [pThreadToSignal])) \<and>
      Threads s' = (Threads s1)(pThreadToSignal := (Threads s1 pThreadToSignal)\<lparr>State := ThreadStateReady\<rparr>) \<and>
      Cpus s' = Cpus s1 \<and> Events s' = Events s1 \<and> Processes s' = Processes s1 \<and> IntrOn s' = IntrOn s1 \<and>
      ReadyThreadsList s' = ReadyThreadsList s1"
      by (rule ThreadUnblock_ok) (use True const free q1 H s0 in \<open>simp_all add: s1_def pThreadToSignal_def ReadyList_def\<close>)
    then obtain s' where s': "ThreadUnblock c pThreadToSignal s1 = Some s'"
      "thread_queues (Links s') H (Q(WaitingList e := ts, ReadyThreadsList s := Q (ReadyThreadsList s) @ [pThreadToSignal]))"
      "Threads s' t = Threads s t" "EventType (Events s' e) = ExEventTypeSynchronization"
      using H(3) s0 t by (auto simp: s1_def)
    moreover have "\<not> in_queue H (Q(WaitingList e := ts, ReadyThreadsList s := Q (ReadyThreadsList s) @ [pThreadToSignal])) t"
      using in_queue_enq [OF H(2), of "Q(WaitingList e := ts)" pThreadToSignal t] q1(3) t H(3) by simp
    ultimately show ?thesis using True run by simp
  next
    case False
    then have "ThreadUnblock c pThreadToSignal s1 = None"
      using const(1) s0 by (simp add: ThreadUnblock_def BlockLockAcquire_def s1_def upd_thread_def pThreadToSignal_def)
    with False run show ?thesis by simp
  qed
qed

text \<open>The waiter \<open>0x4000\<close> of the synchronization event \<open>0x5008\<close> (its list head is at \<open>0x5048\<close>).\<close>

theorem ExEventSignal_loses_waiter_witness: "ExEventSignal 1 0x5008 (Sys demo_kernel) = None"
proof -
  have q: "thread_queues (Links (Sys demo_kernel)) {0x6000, 0x5048} demo_queues"
    using demo_inv unfolding sched_inv_def queues_ok_def demo_heads by blast
  have w: "WaitingList 0x5008 = 0x5048" by (simp add: WaitingList_def)
  have f: "EventType (Events (Sys demo_kernel) e) = ExEventTypeSynchronization"
    "BlockLock (Threads (Sys demo_kernel) pThreadToSignal) = NULL"
    "State (Threads (Sys demo_kernel) pThreadToSignal) \<noteq> ThreadStateBlocked" for e
    by (simp_all add: demo_kernel_def ZERO_THREAD_def pThreadToSignal_def)
  have "if State (Threads (Sys demo_kernel) pThreadToSignal) = ThreadStateBlocked then True
    else ExEventSignal 1 0x5008 (Sys demo_kernel) = None"
    using ExEventSignal_loses_waiter [OF q, where e = "0x5008" and t = "0x4000" and ts = "[]" and c = 1, unfolded w] f
    by (simp add: demo_lists pThreadToSignal_def ReadyList_def in_queue_def split del: if_split)
  then show ?thesis using f(3) by simp
qed

end
