(* ===== verification/PageTables.thy ===== *)
theory PageTables
  imports Prelude
begin

text \<open>
  Page-table entries, \<^verbatim>\<open>HAL/src/pte.c\<close>, and the part of \<^verbatim>\<open>HAL9000/src/vmm.c\<close> that walks, builds and
  clears the four-level tables. Memory is a function from the virtual address of an 8-byte entry to
  the entry; the paging structures are reached at their physical address plus a constant offset.
  TLB invalidations and released frames are listed in the state.
\<close>

section \<open>Entries\<close>

text \<open>The bit-field of \<open>n\<close> bits from bit \<open>lo\<close> of a 64-bit structure: reading and assigning it.\<close>

definition get_bits :: "nat \<Rightarrow> nat \<Rightarrow> QWORD \<Rightarrow> QWORD" where
  "get_bits lo n w = drop_bit lo w AND mask n"

definition set_bits :: "nat \<Rightarrow> nat \<Rightarrow> QWORD \<Rightarrow> QWORD \<Rightarrow> QWORD" where
  "set_bits lo n v w = (w AND NOT (push_bit lo (mask n))) OR push_bit lo (v AND mask n)"

record PTE_MAP_FLAGS =
  PatIndex :: BYTE
  Writable :: bool
  Executable :: bool
  PagingStructure :: bool
  UserAccess :: bool
  GlobalPage :: bool

definition NO_FLAGS :: PTE_MAP_FLAGS where
  "NO_FLAGS = \<lparr>PatIndex = 0, Writable = False, Executable = False, PagingStructure = False,
     UserAccess = False, GlobalPage = False\<rparr>"

record paging_memory =
  Memory :: "PVOID \<Rightarrow> QWORD"
  VirtualToPhysicalOffset :: QWORD
  WriteBackIndex :: BYTE
  UncacheableIndex :: BYTE
  TlbInvalidated :: "PVOID list"
  ReleasedFrames :: "(QWORD \<times> DWORD) list"

definition PA2VA :: "paging_memory \<Rightarrow> QWORD \<Rightarrow> PVOID" where
  "PA2VA s pa = pa + VirtualToPhysicalOffset s"

definition put_entry :: "PVOID \<Rightarrow> QWORD \<Rightarrow> paging_memory \<Rightarrow> paging_memory" where
  "put_entry a e s = s\<lparr>Memory := (Memory s)(a := e)\<rparr>"

definition invlpg :: "PVOID \<Rightarrow> paging_memory \<Rightarrow> paging_memory" where
  "invlpg a s = s\<lparr>TlbInvalidated := TlbInvalidated s @ [a]\<rparr>"

definition memzero_page :: "PVOID \<Rightarrow> paging_memory \<Rightarrow> paging_memory" where
  "memzero_page a s = s\<lparr>Memory := (\<lambda>x. if x - a < PAGE_SIZE then 0 else Memory s x)\<rparr>"

text \<open>The value \<open>PteMap\<close> assembles, field by field, in an entry it has cleared.\<close>

definition pte_value :: "QWORD \<Rightarrow> PTE_MAP_FLAGS \<Rightarrow> QWORD" where
  "pte_value PhysicalAddress Flags =
     (let e = 0;
          e = set_bits 12 40 (drop_bit 12 PhysicalAddress) e;
          e = set_bits 0 1 1 e;
          e = set_bits 1 1 (of_bool (Writable Flags)) e;
          e = set_bits 63 1 (of_bool (\<not> Executable Flags)) e;
          e = set_bits 2 1 (of_bool (UserAccess Flags)) e
      in if \<not> PagingStructure Flags then
           let e = set_bits 7 1 (ucast (drop_bit 2 (PatIndex Flags) AND 1)) e;
               e = set_bits 4 1 (ucast (drop_bit 1 (PatIndex Flags) AND 1)) e;
               e = set_bits 3 1 (ucast (PatIndex Flags AND 1)) e
           in set_bits 8 1 (of_bool (GlobalPage Flags)) e
         else e)"

definition PteMap :: "PVOID \<Rightarrow> QWORD \<Rightarrow> PTE_MAP_FLAGS \<Rightarrow> paging_memory \<Rightarrow> paging_memory option" where
  "PteMap PageTable PhysicalAddress Flags s = do {
     ASSERT (NULL \<noteq> PageTable);
     Some (put_entry PageTable (pte_value PhysicalAddress Flags) s)
   }"

definition PteUnmap :: "PVOID \<Rightarrow> paging_memory \<Rightarrow> paging_memory option" where
  "PteUnmap PageTable s = do {
     ASSERT (NULL \<noteq> PageTable);
     Some (put_entry PageTable 0 s)
   }"

definition pte_address :: "QWORD \<Rightarrow> QWORD" where
  "pte_address e = push_bit 12 (get_bits 12 40 e)"

definition pte_present :: "QWORD \<Rightarrow> bool" where
  "pte_present e \<longleftrightarrow> get_bits 0 1 e = 1"

definition PteGetPhysicalAddress :: "paging_memory \<Rightarrow> PVOID \<Rightarrow> QWORD option" where
  "PteGetPhysicalAddress s PageTable = do {
     ASSERT (NULL \<noteq> PageTable);
     Some (pte_address (Memory s PageTable))
   }"

definition PteLargePageGetPhysicalAddress :: "paging_memory \<Rightarrow> PVOID \<Rightarrow> QWORD option" where
  "PteLargePageGetPhysicalAddress s PageTable = do {
     ASSERT (NULL \<noteq> PageTable);
     Some (push_bit 21 (get_bits 21 31 (Memory s PageTable)))
   }"

definition PteIsPresent :: "paging_memory \<Rightarrow> PVOID \<Rightarrow> bool option" where
  "PteIsPresent s PageTable = do {
     ASSERT (NULL \<noteq> PageTable);
     Some (pte_present (Memory s PageTable))
   }"

definition PageSizeBit :: "paging_memory \<Rightarrow> PVOID \<Rightarrow> bool" where
  "PageSizeBit s PageTable \<longleftrightarrow> get_bits 7 1 (Memory s PageTable) \<noteq> 0"

section \<open>Building the tables\<close>

record PAGING_DATA =
  BasePhysicalAddress :: QWORD
  NumberOfFrames :: DWORD
  CurrentIndex :: DWORD
  KernelSpace :: bool

definition MASK_PML4_OFFSET :: "PVOID \<Rightarrow> WORD" where "MASK_PML4_OFFSET va = ucast (drop_bit 39 va AND 0x1FF)"
definition MASK_PDPTE_OFFSET :: "PVOID \<Rightarrow> WORD" where "MASK_PDPTE_OFFSET va = ucast (drop_bit 30 va AND 0x1FF)"
definition MASK_PDE_OFFSET :: "PVOID \<Rightarrow> WORD" where "MASK_PDE_OFFSET va = ucast (drop_bit 21 va AND 0x1FF)"
definition MASK_PTE_OFFSET :: "PVOID \<Rightarrow> WORD" where "MASK_PTE_OFFSET va = ucast (drop_bit 12 va AND 0x1FF)"

text \<open>The address of an element of a table of 8-byte entries.\<close>

definition entry_at :: "PVOID \<Rightarrow> WORD \<Rightarrow> PVOID" where
  "entry_at table index = table + 8 * ucast index"

text \<open>The product is computed in 32 bits.\<close>

definition VmRetrieveNextPhysicalAddressForPagingStructure :: "PAGING_DATA \<Rightarrow> (QWORD \<times> PAGING_DATA) option" where
  "VmRetrieveNextPhysicalAddressForPagingStructure PagingData = do {
     let currentIndex = CurrentIndex PagingData;
     ASSERT (currentIndex < NumberOfFrames PagingData);
     let nextAddress = BasePhysicalAddress PagingData + ucast (currentIndex * 0x1000);
     Some (nextAddress, PagingData\<lparr>CurrentIndex := CurrentIndex PagingData + 1\<rparr>)
   }"

definition VmSetupPagingStructure ::
    "PAGING_DATA \<Rightarrow> PVOID \<Rightarrow> paging_memory \<Rightarrow> (PAGING_DATA \<times> paging_memory) option" where
  "VmSetupPagingStructure PagingData PagingStruct s = do {
     ASSERT (NULL \<noteq> PagingStruct);
     (physicalAddr, PagingData) \<leftarrow> VmRetrieveNextPhysicalAddressForPagingStructure PagingData;
     let flags = NO_FLAGS\<lparr>Writable := True, Executable := True, PagingStructure := True,
                          UserAccess := \<not> KernelSpace PagingData\<rparr>;
     s \<leftarrow> PteMap PagingStruct physicalAddr flags s;
     let s = invlpg (PA2VA s physicalAddr) s;
     Some (PagingData, memzero_page (PA2VA s physicalAddr) s)
   }"

text \<open>One level of the walk: the entry is set up if it is not present; the result is the next table.\<close>

definition next_table ::
    "PVOID \<Rightarrow> bool \<Rightarrow> PAGING_DATA \<times> paging_memory \<Rightarrow> (PVOID \<times> PAGING_DATA \<times> paging_memory) option" where
  "next_table pEntry CheckPageSize = (\<lambda>(PagingData, s). do {
     present \<leftarrow> PteIsPresent s pEntry;
     (PagingData, s) \<leftarrow> (if \<not> present then VmSetupPagingStructure PagingData pEntry s else Some (PagingData, s));
     ASSERT (CheckPageSize \<longrightarrow> \<not> PageSizeBit s pEntry);
     tempAddress \<leftarrow> PteGetPhysicalAddress s pEntry;
     Some (PA2VA s tempAddress, PagingData, s)
   })"

abbreviation PAGE_RIGHTS_WRITE :: DWORD where "PAGE_RIGHTS_WRITE \<equiv> 1"
abbreviation PAGE_RIGHTS_EXECUTE :: DWORD where "PAGE_RIGHTS_EXECUTE \<equiv> 2"

definition page_flags :: "PAGING_DATA \<Rightarrow> DWORD \<Rightarrow> bool \<Rightarrow> paging_memory \<Rightarrow> PTE_MAP_FLAGS" where
  "page_flags PagingData PageRights Uncacheable s =
     NO_FLAGS\<lparr>Executable := IsBooleanFlagOn PageRights PAGE_RIGHTS_EXECUTE,
              Writable := IsBooleanFlagOn PageRights PAGE_RIGHTS_WRITE,
              PatIndex := (if Uncacheable then UncacheableIndex s else WriteBackIndex s) AND 7,
              GlobalPage := KernelSpace PagingData,
              UserAccess := \<not> KernelSpace PagingData\<rparr>"

definition map_page ::
    "PVOID \<Rightarrow> QWORD \<Rightarrow> DWORD \<Rightarrow> bool \<Rightarrow> bool \<Rightarrow> PAGING_DATA \<times> paging_memory \<Rightarrow> (PAGING_DATA \<times> paging_memory) option" where
  "map_page tempAddress physAddr PageRights Invalidate Uncacheable = (\<lambda>(PagingData, s). do {
     let pml4Entries = entry_at (PA2VA s (BasePhysicalAddress PagingData)) (MASK_PML4_OFFSET tempAddress);
     (table, PagingData, s) \<leftarrow> next_table pml4Entries False (PagingData, s);
     (table, PagingData, s) \<leftarrow> next_table (entry_at table (MASK_PDPTE_OFFSET tempAddress)) True (PagingData, s);
     (table, PagingData, s) \<leftarrow> next_table (entry_at table (MASK_PDE_OFFSET tempAddress)) True (PagingData, s);
     let ptEntries = entry_at table (MASK_PTE_OFFSET tempAddress);
     present \<leftarrow> (if Invalidate then Some False else PteIsPresent s ptEntries);
     (if Invalidate \<or> \<not> present then do {
        s \<leftarrow> PteMap ptEntries physAddr (page_flags PagingData PageRights Uncacheable s) s;
        Some (PagingData, invlpg tempAddress s)
      }
      else Some (PagingData, s))
   })"

partial_function (option) map_loop ::
    "QWORD \<Rightarrow> QWORD \<Rightarrow> PVOID \<Rightarrow> DWORD \<Rightarrow> bool \<Rightarrow> bool \<Rightarrow> QWORD \<Rightarrow> PAGING_DATA \<times> paging_memory \<Rightarrow>
     (PAGING_DATA \<times> paging_memory) option" where
  "map_loop PhysicalAddress Size BaseAddress PageRights Invalidate Uncacheable offset ps =
     (if offset < Size then do {
        ps \<leftarrow> map_page (BaseAddress + offset) (PhysicalAddress + offset) PageRights Invalidate Uncacheable ps;
        map_loop PhysicalAddress Size BaseAddress PageRights Invalidate Uncacheable (offset + PAGE_SIZE) ps
      }
      else Some ps)"

definition VmmMapMemoryInternal ::
    "PAGING_DATA \<Rightarrow> QWORD \<Rightarrow> QWORD \<Rightarrow> PVOID \<Rightarrow> DWORD \<Rightarrow> bool \<Rightarrow> bool \<Rightarrow> paging_memory \<Rightarrow>
     (PAGING_DATA \<times> paging_memory) option" where
  "VmmMapMemoryInternal PagingData PhysicalAddress Size BaseAddress PageRights Invalidate Uncacheable s = do {
     ASSERT (IsAddressAligned PhysicalAddress PAGE_SIZE);
     ASSERT (0 \<noteq> Size \<and> IsAddressAligned Size PAGE_SIZE);
     map_loop PhysicalAddress Size BaseAddress PageRights Invalidate Uncacheable 0 (PagingData, s)
   }"

section \<open>Walking and clearing the tables\<close>

text \<open>\<open>Cr3\<close> is the raw value of the register; its field is the frame number of the first table.\<close>

definition cr3_table :: "paging_memory \<Rightarrow> QWORD \<Rightarrow> PVOID" where
  "cr3_table s Cr3 = PA2VA s (push_bit 12 (get_bits 12 40 Cr3))"

text \<open>One level of the walk of a reader: None inside is ``it was never allocated''.\<close>

definition read_table :: "paging_memory \<Rightarrow> PVOID \<Rightarrow> bool \<Rightarrow> PVOID option option" where
  "read_table s pEntry CheckPageSize = do {
     present \<leftarrow> PteIsPresent s pEntry;
     (if \<not> present then Some None
      else do {
        ASSERT (CheckPageSize \<longrightarrow> \<not> PageSizeBit s pEntry);
        tempAddress \<leftarrow> PteGetPhysicalAddress s pEntry;
        Some (Some (PA2VA s tempAddress))
      })
   }"

definition unmap_page :: "QWORD \<Rightarrow> bool \<Rightarrow> PVOID \<Rightarrow> paging_memory \<Rightarrow> paging_memory option" where
  "unmap_page Cr3 ReleaseMemory tempAddress s = do {
     t1 \<leftarrow> read_table s (entry_at (cr3_table s Cr3) (MASK_PML4_OFFSET tempAddress)) False;
     (case t1 of None \<Rightarrow> Some s | Some table \<Rightarrow> do {
        t2 \<leftarrow> read_table s (entry_at table (MASK_PDPTE_OFFSET tempAddress)) True;
        (case t2 of None \<Rightarrow> Some s | Some table \<Rightarrow> do {
           t3 \<leftarrow> read_table s (entry_at table (MASK_PDE_OFFSET tempAddress)) True;
           (case t3 of None \<Rightarrow> Some s | Some table \<Rightarrow> do {
              let ptEntries = entry_at table (MASK_PTE_OFFSET tempAddress);
              present \<leftarrow> PteIsPresent s ptEntries;
              (if \<not> present then Some s
               else do {
                 pa \<leftarrow> PteGetPhysicalAddress s ptEntries;
                 s \<leftarrow> PteUnmap ptEntries s;
                 let s = invlpg tempAddress s;
                 Some (if ReleaseMemory then s\<lparr>ReleasedFrames := ReleasedFrames s @ [(pa, 1)]\<rparr> else s)
               })
            })
         })
      })
   }"

partial_function (option) unmap_loop ::
    "QWORD \<Rightarrow> PVOID \<Rightarrow> QWORD \<Rightarrow> bool \<Rightarrow> QWORD \<Rightarrow> paging_memory \<Rightarrow> paging_memory option" where
  "unmap_loop Cr3 VirtualAddress Size ReleaseMemory offset s =
     (if offset < Size then do {
        s \<leftarrow> unmap_page Cr3 ReleaseMemory (VirtualAddress + offset) s;
        unmap_loop Cr3 VirtualAddress Size ReleaseMemory (offset + PAGE_SIZE) s
      }
      else Some s)"

definition VmmUnmapMemoryEx ::
    "QWORD \<Rightarrow> PVOID \<Rightarrow> QWORD \<Rightarrow> bool \<Rightarrow> paging_memory \<Rightarrow> paging_memory option" where
  "VmmUnmapMemoryEx Cr3 VirtualAddress Size ReleaseMemory s =
     (if NULL = VirtualAddress \<or> \<not> IsAddressAligned VirtualAddress PAGE_SIZE then Some s
      else if 0 = Size \<or> \<not> IsAddressAligned Size PAGE_SIZE then Some s
      else unmap_loop Cr3 VirtualAddress Size ReleaseMemory 0 s)"

definition VmmGetPhysicalAddress :: "QWORD \<Rightarrow> PVOID \<Rightarrow> paging_memory \<Rightarrow> QWORD option" where
  "VmmGetPhysicalAddress Cr3 VirtualAddress s = do {
     ASSERT (NULL \<noteq> VirtualAddress);
     ASSERT (IsAddressAligned VirtualAddress PAGE_SIZE);
     t1 \<leftarrow> read_table s (entry_at (cr3_table s Cr3) (MASK_PML4_OFFSET VirtualAddress)) False;
     (case t1 of None \<Rightarrow> Some NULL | Some table \<Rightarrow> do {
        t2 \<leftarrow> read_table s (entry_at table (MASK_PDPTE_OFFSET VirtualAddress)) True;
        (case t2 of None \<Rightarrow> Some NULL | Some table \<Rightarrow> do {
           let pdEntries = entry_at table (MASK_PDE_OFFSET VirtualAddress);
           present \<leftarrow> PteIsPresent s pdEntries;
           (if \<not> present then Some NULL
            else if PageSizeBit s pdEntries then do {
              pa \<leftarrow> PteLargePageGetPhysicalAddress s pdEntries;
              Some (pa + AddressOffset VirtualAddress 0x200000)
            }
            else do {
              tempAddress \<leftarrow> PteGetPhysicalAddress s pdEntries;
              let ptEntries = entry_at (PA2VA s tempAddress) (MASK_PTE_OFFSET VirtualAddress);
              present \<leftarrow> PteIsPresent s ptEntries;
              (if \<not> present then Some NULL else PteGetPhysicalAddress s ptEntries)
            })
         })
      })
   }"

end
