(* ===== verification/PageTablesSpec.thy ===== *)
theory PageTablesSpec
  imports PageTables
begin

text \<open>
  What the page tables promise. \<open>leaf_entry\<close> is the walk of the processor: the entry that
  translates an address. The invariant \<open>tables_ok\<close> says that the frames handed out so far form a
  tree; mapping and unmapping change the translation of exactly the pages they are asked to change.
\<close>

section \<open>Bit-fields\<close>

lemma bit_get_bits: "bit (get_bits lo n w) i \<longleftrightarrow> i < n \<and> bit w (lo + i)"
  by (auto simp: get_bits_def bit_simps dest: bit_imp_le_length)

lemma bit_set_bits:
  "i < 64 \<Longrightarrow> bit (set_bits lo n v w) i \<longleftrightarrow> (if lo \<le> i \<and> i < lo + n then bit v (i - lo) else bit w i)"
  by (auto simp: set_bits_def bit_simps)

lemma bit_of_bool_word: "bit (of_bool b :: QWORD) i \<longleftrightarrow> b \<and> i = 0"
  by (cases b) (auto simp: bit_simps)

lemma pte_present_bit: "pte_present e \<longleftrightarrow> bit e 0"
proof -
  have "get_bits 0 1 e = of_bool (bit e 0)"
    by (rule bit_word_eqI) (auto simp: bit_get_bits bit_of_bool_word)
  then show ?thesis by (simp add: pte_present_def)
qed

lemma bit_pte_address: "bit (pte_address e) i \<longleftrightarrow> 12 \<le> i \<and> i < 52 \<and> bit e i"
  by (auto simp: pte_address_def bit_simps bit_get_bits)

lemma page_size_bit: "get_bits 7 1 e = 0 \<longleftrightarrow> \<not> bit e 7"
proof -
  have "get_bits 7 1 e = of_bool (bit e 7)"
    by (rule bit_word_eqI) (auto simp: bit_get_bits bit_of_bool_word)
  then show ?thesis by simp
qed

lemma bit_pte_value:
  assumes "i < 64"
  shows "bit (pte_value pa fl) i \<longleftrightarrow>
    (if 12 \<le> i \<and> i < 52 then bit pa i
     else i = 0 \<or> i = 1 \<and> Writable fl \<or> i = 63 \<and> \<not> Executable fl \<or> i = 2 \<and> UserAccess fl \<or>
       \<not> PagingStructure fl \<and> (i = 7 \<and> bit (PatIndex fl) 2 \<or> i = 4 \<and> bit (PatIndex fl) 1 \<or>
         i = 3 \<and> bit (PatIndex fl) 0 \<or> i = 8 \<and> GlobalPage fl))"
  using assms
  by (auto simp: pte_value_def Let_def bit_set_bits bit_of_bool_word bit_simps)

lemma pte_value_facts:
  shows "pte_present (pte_value pa fl)"
    and "PagingStructure fl \<Longrightarrow> get_bits 7 1 (pte_value pa fl) = 0"
    and "bit (pte_address (pte_value pa fl)) i \<longleftrightarrow> 12 \<le> i \<and> i < 52 \<and> bit pa i"
  by (auto simp: pte_present_bit page_size_bit bit_pte_address bit_pte_value simp del: One_nat_def)

lemma not_present_0 [simp]: "\<not> pte_present 0"
  by (simp add: pte_present_bit)

text \<open>A frame address: page-aligned and below 2 ^ 52.\<close>

definition frame_address :: "QWORD \<Rightarrow> bool" where
  "frame_address pa \<longleftrightarrow> 4096 dvd unat pa \<and> unat pa < 2 ^ 52"

lemma bit_unat_word: "bit w i \<longleftrightarrow> odd (unat w div 2 ^ i)"
  for w :: "'a::len word"
proof -
  have "bit w i \<longleftrightarrow> bit (unat w) i" by (simp add: bit_unsigned_iff)
  then show ?thesis by (simp only: bit_iff_odd)
qed

lemma frame_address_bits:
  assumes "frame_address pa" and "bit pa i"
  shows "12 \<le> i \<and> i < 52"
proof -
  have odd: "odd (unat pa div 2 ^ i)" using assms(2) by (simp add: bit_unat_word)
  obtain q where q: "unat pa = 4096 * q" using assms(1) by (auto simp: frame_address_def)
  have "12 \<le> i"
  proof (rule ccontr)
    assume "\<not> 12 \<le> i"
    then have "(4096 :: nat) = 2 ^ i * (2 * 2 ^ (11 - i))" by (simp flip: power_add power_Suc)
    then have "unat pa = 2 ^ i * (2 * (2 ^ (11 - i) * q))" unfolding q by (simp only: ac_simps)
    then have "unat pa div 2 ^ i = 2 * (2 ^ (11 - i) * q)" by simp
    with odd show False by simp
  qed
  moreover have "i < 52"
  proof (rule ccontr)
    assume "\<not> i < 52"
    then have "(2 :: nat) ^ 52 \<le> 2 ^ i" by (intro power_increasing) simp_all
    then have "unat pa div 2 ^ i = 0" using assms(1) unfolding frame_address_def by (intro div_less) linarith
    with odd show False by simp
  qed
  ultimately show ?thesis ..
qed

lemma pte_address_value [simp]: "frame_address pa \<Longrightarrow> pte_address (pte_value pa fl) = pa"
  by (rule bit_word_eqI) (use frame_address_bits in \<open>auto simp: pte_value_facts(3)\<close>)

section \<open>Frames and slots\<close>

definition frame_pa :: "PAGING_DATA \<Rightarrow> nat \<Rightarrow> QWORD" where
  "frame_pa P i = BasePhysicalAddress P + of_nat i * 0x1000"

definition slot :: "paging_memory \<Rightarrow> PAGING_DATA \<Rightarrow> nat \<Rightarrow> nat \<Rightarrow> PVOID" where
  "slot s P i j = PA2VA s (frame_pa P i) + 8 * of_nat j"

abbreviation tab :: "paging_memory \<Rightarrow> PAGING_DATA \<Rightarrow> nat \<Rightarrow> nat \<Rightarrow> QWORD" where
  "tab s P i j \<equiv> Memory s (slot s P i j)"

text \<open>
  The frames reserved for paging structures: below 2 ^ 52, at most 4 GB, and mapped contiguously
  without wrapping around and apart from address 0.
\<close>

definition region_ok :: "paging_memory \<Rightarrow> PAGING_DATA \<Rightarrow> bool" where
  "region_ok s P \<longleftrightarrow> 4096 dvd unat (BasePhysicalAddress P) \<and>
     unat (BasePhysicalAddress P) + unat (NumberOfFrames P) * 4096 \<le> 2 ^ 52 \<and> unat (NumberOfFrames P) \<le> 2 ^ 20 \<and>
     PA2VA s (BasePhysicalAddress P) \<noteq> 0 \<and>
     unat (PA2VA s (BasePhysicalAddress P)) + unat (NumberOfFrames P) * 4096 \<le> 2 ^ 64"

lemma unat_frame_pa:
  assumes "region_ok s P" and "i < unat (NumberOfFrames P)"
  shows "unat (frame_pa P i) = unat (BasePhysicalAddress P) + i * 4096"
proof -
  have less: "unat (BasePhysicalAddress P) + i * 4096 < 2 ^ 52" using assms unfolding region_ok_def by linarith
  then have small: "i * 4096 < 2 ^ 52" "unat (BasePhysicalAddress P) + i * 4096 < 2 ^ 64"
    by (linarith, rule less_trans) simp
  have "unat (of_nat i * 0x1000 :: QWORD) = i * 4096"
    using unat_of_nat_small [of "i * 4096", where 'a = 64] small by simp
  then show ?thesis
    using small(2) unat_plus_simple [of "BasePhysicalAddress P" "of_nat i * 0x1000"] by (simp add: frame_pa_def)
qed

lemma frame_pa_address: "region_ok s P \<Longrightarrow> i < unat (NumberOfFrames P) \<Longrightarrow> frame_address (frame_pa P i)"
  unfolding frame_address_def by (simp add: unat_frame_pa) (simp add: region_ok_def)

lemma frame_pa_inject:
  "region_ok s P \<Longrightarrow> i < unat (NumberOfFrames P) \<Longrightarrow> k < unat (NumberOfFrames P) \<Longrightarrow>
    frame_pa P i = frame_pa P k \<longleftrightarrow> i = k"
  by (metis unat_frame_pa add_left_cancel mult_cancel2 zero_neq_numeral)

lemma unat_slot:
  assumes r: "region_ok s P" and i: "i < unat (NumberOfFrames P)" and j: "j < 512"
  shows "unat (slot s P i j) = unat (PA2VA s (BasePhysicalAddress P)) + i * 4096 + 8 * j"
proof -
  let ?b = "PA2VA s (BasePhysicalAddress P)"
  have bound: "unat ?b + unat (NumberOfFrames P) * 4096 \<le> 2 ^ 64" using r by (simp add: region_ok_def)
  have le: "i * 4096 + 4096 \<le> unat (NumberOfFrames P) * 4096" using i by linarith
  have eq: "slot s P i j = ?b + of_nat (i * 4096 + 8 * j)"
    by (simp add: slot_def frame_pa_def PA2VA_def algebra_simps)
  have "unat (of_nat (i * 4096 + 8 * j) :: QWORD) = i * 4096 + 8 * j"
    by (rule unat_of_nat_small) (use bound le j in simp)
  then show ?thesis
    unfolding eq using bound le j by (subst unat_plus_simple) (simp_all del: of_nat_add of_nat_mult)
qed

lemma slot_inject:
  assumes "region_ok s P" and "i < unat (NumberOfFrames P)" "j < 512" and "k < unat (NumberOfFrames P)" "l < 512"
  shows "slot s P i j = slot s P k l \<longleftrightarrow> i = k \<and> j = l"
proof
  assume "slot s P i j = slot s P k l"
  then have "i * 512 + j = k * 512 + l"
    using unat_slot [OF assms(1-3)] unat_slot [OF assms(1,4,5)] by simp
  moreover have "(i * 512 + j) div 512 = i" "(k * 512 + l) div 512 = k" using assms(3,5) by simp_all
  ultimately show "i = k \<and> j = l" by simp
qed simp

lemma slot_not_null: "region_ok s P \<Longrightarrow> i < unat (NumberOfFrames P) \<Longrightarrow> j < 512 \<Longrightarrow> slot s P i j \<noteq> NULL"
  using unat_slot [of s P i j] by (auto simp: region_ok_def unat_eq_0 simp flip: unat_eq_0)

text \<open>A slot lies in the page of a frame exactly when it is a slot of that frame.\<close>

lemma slot_in_frame:
  assumes r: "region_ok s P" and i: "i < unat (NumberOfFrames P)" and j: "j < 512" and k: "k < unat (NumberOfFrames P)"
  shows "slot s P i j - PA2VA s (frame_pa P k) < PAGE_SIZE \<longleftrightarrow> i = k"
proof -
  let ?f = "PA2VA s (frame_pa P k)"
  have f: "?f = slot s P k 0" by (simp add: slot_def)
  have u: "unat (slot s P i j) = unat (PA2VA s (BasePhysicalAddress P)) + i * 4096 + 8 * j"
    "unat ?f = unat (PA2VA s (BasePhysicalAddress P)) + k * 4096"
    using unat_slot [OF r i j] unat_slot [OF r k, of 0] f by simp_all
  show ?thesis
  proof (cases "k \<le> i")
    case True
    then have "?f \<le> slot s P i j" using u by (simp add: word_le_nat_alt)
    then have "unat (slot s P i j - ?f) = (i - k) * 4096 + 8 * j"
      using u True by (simp add: unat_sub diff_mult_distrib)
    then show ?thesis using True j by (auto simp: word_less_nat_alt)
  next
    case False
    then have lt: "i * 4096 + 4096 \<le> k * 4096" by linarith
    have "unat ?f + 4096 \<le> 2 ^ 64"
      using r k u(2) unfolding region_ok_def by linarith
    moreover have "slot s P i j < ?f" using u lt j by (simp add: word_less_nat_alt)
    then have "unat (slot s P i j - ?f) = 2 ^ 64 + unat (slot s P i j) - unat ?f"
      using unat_sub_if' [of "slot s P i j" ?f] by (simp add: word_less_nat_alt)
    ultimately have "4096 \<le> unat (slot s P i j - ?f)" by simp
    with False show ?thesis by (simp add: word_less_nat_alt)
  qed
qed

section \<open>The walk\<close>

definition ix1 :: "PVOID \<Rightarrow> nat" where "ix1 va = unat (MASK_PML4_OFFSET va)"
definition ix2 :: "PVOID \<Rightarrow> nat" where "ix2 va = unat (MASK_PDPTE_OFFSET va)"
definition ix3 :: "PVOID \<Rightarrow> nat" where "ix3 va = unat (MASK_PDE_OFFSET va)"
definition ix4 :: "PVOID \<Rightarrow> nat" where "ix4 va = unat (MASK_PTE_OFFSET va)"

lemma unat_index: "unat (ucast (drop_bit n va AND 0x1FF :: QWORD) :: WORD) = unat va div 2 ^ n mod 512"
proof -
  have "unat (drop_bit n va AND 0x1FF) = unat va div 2 ^ n mod 512"
  proof -
    have "(0x1FF :: QWORD) = mask 9" by (simp add: mask_eq_exp_minus_1)
    then have "unat (drop_bit n va AND 0x1FF) = unat (drop_bit n va) mod 2 ^ 9" by (simp only: unat_and_mask)
    also have "unat (drop_bit n va) = drop_bit n (unat va)" by (rule unat_drop_bit_eq)
    also have "\<dots> = unat va div 2 ^ n" by (rule drop_bit_eq_div)
    finally show ?thesis by simp
  qed
  then show ?thesis by (subst unat_ucast_down) simp_all
qed

lemma ix_eq:
  "ix1 va = unat va div 2 ^ 39 mod 512" "ix2 va = unat va div 2 ^ 30 mod 512"
  "ix3 va = unat va div 2 ^ 21 mod 512" "ix4 va = unat va div 2 ^ 12 mod 512"
  by (simp_all only: ix1_def ix2_def ix3_def ix4_def MASK_PML4_OFFSET_def MASK_PDPTE_OFFSET_def
    MASK_PDE_OFFSET_def MASK_PTE_OFFSET_def unat_index)

lemma ix_less [simp]: "ix1 va < 512" "ix2 va < 512" "ix3 va < 512" "ix4 va < 512"
  by (simp_all add: ix_eq)

lemma entry_at_slot:
  "entry_at (PA2VA s (frame_pa P i)) (MASK_PML4_OFFSET va) = slot s P i (ix1 va)"
  "entry_at (PA2VA s (frame_pa P i)) (MASK_PDPTE_OFFSET va) = slot s P i (ix2 va)"
  "entry_at (PA2VA s (frame_pa P i)) (MASK_PDE_OFFSET va) = slot s P i (ix3 va)"
  "entry_at (PA2VA s (frame_pa P i)) (MASK_PTE_OFFSET va) = slot s P i (ix4 va)"
  by (simp_all add: entry_at_def slot_def ix1_def ix2_def ix3_def ix4_def)

text \<open>The number of the page of a 48-bit address.\<close>

definition vpn :: "PVOID \<Rightarrow> nat" where "vpn va = unat va div 4096 mod 2 ^ 36"

lemma vpn_ix: "vpn va = ((ix1 va * 512 + ix2 va) * 512 + ix3 va) * 512 + ix4 va"
proof -
  define x where "x = unat va div 4096"
  have "ix4 va = x mod 512" "ix3 va = x div 512 mod 512" "ix2 va = x div 512 div 512 mod 512"
    "ix1 va = x div 512 div 512 div 512 mod 512"
    by (simp_all add: ix_eq x_def flip: div_mult2_eq)
  moreover have "x mod 2 ^ 36 = ((x div 512 div 512 div 512 mod 512 * 512 + x div 512 div 512 mod 512) * 512 +
      x div 512 mod 512) * 512 + x mod 512"
  proof -
    have "x mod (512 * 134217728) = 512 * (x div 512 mod 134217728) + x mod 512" by (rule mod_mult2_eq)
    moreover have "x div 512 mod (512 * 262144) = 512 * (x div 512 div 512 mod 262144) + x div 512 mod 512"
      by (rule mod_mult2_eq)
    moreover have "x div 512 div 512 mod (512 * 512) = 512 * (x div 512 div 512 div 512 mod 512) + x div 512 div 512 mod 512"
      by (rule mod_mult2_eq)
    ultimately show ?thesis by simp
  qed
  ultimately show ?thesis by (simp only: vpn_def x_def [symmetric])
qed

lemma vpn_eq_iff: "vpn va = vpn vb \<longleftrightarrow> ix1 va = ix1 vb \<and> ix2 va = ix2 vb \<and> ix3 va = ix3 vb \<and> ix4 va = ix4 vb"
proof
  assume *: "vpn va = vpn vb"
  have div: "(a * 512 + b) div 512 = a" "(a * 512 + b) mod 512 = b" if "b < 512" for a b :: nat
    using that by simp_all
  have "ix4 v = vpn v mod 512" "ix3 v = vpn v div 512 mod 512" "ix2 v = vpn v div 512 div 512 mod 512"
    "ix1 v = vpn v div 512 div 512 div 512" for v
    by (simp_all only: vpn_ix div ix_less)
  with * show "ix1 va = ix1 vb \<and> ix2 va = ix2 vb \<and> ix3 va = ix3 vb \<and> ix4 va = ix4 vb" by simp
qed (simp add: vpn_ix)

text \<open>The translation of an address: the walk of the processor from the table at \<open>root\<close>.\<close>

definition leaf_entry :: "paging_memory \<Rightarrow> QWORD \<Rightarrow> PVOID \<Rightarrow> QWORD option" where
  "leaf_entry s root va =
     (let e1 = Memory s (entry_at (PA2VA s root) (MASK_PML4_OFFSET va)) in if \<not> pte_present e1 then None
      else let e2 = Memory s (entry_at (PA2VA s (pte_address e1)) (MASK_PDPTE_OFFSET va)) in if \<not> pte_present e2 then None
      else let e3 = Memory s (entry_at (PA2VA s (pte_address e2)) (MASK_PDE_OFFSET va)) in if \<not> pte_present e3 then None
      else let e4 = Memory s (entry_at (PA2VA s (pte_address e3)) (MASK_PTE_OFFSET va)) in if \<not> pte_present e4 then None
      else Some e4)"

section \<open>The tree of tables\<close>

text \<open>
  \<open>points_to\<close>: entry \<open>j\<close> of frame \<open>i\<close> refers to the table in frame \<open>k\<close>. The invariant gives every
  frame in use its \<open>path\<close>, the list of indices that lead to it: paths are distinct, every present
  entry of an inner table leads to the frame with the extended path, and every frame but the first
  is reached so. \<open>J\<close> are the entries of the first table that belong to this tree; a process shares
  the others with the kernel.
\<close>

definition points_to :: "paging_memory \<Rightarrow> PAGING_DATA \<Rightarrow> nat \<Rightarrow> nat \<Rightarrow> nat \<Rightarrow> bool" where
  "points_to s P i j k \<longleftrightarrow> pte_present (tab s P i j) \<and> pte_address (tab s P i j) = frame_pa P k \<and>
     get_bits 7 1 (tab s P i j) = 0"

abbreviation used :: "PAGING_DATA \<Rightarrow> nat" where "used P \<equiv> unat (CurrentIndex P)"

definition inner :: "nat set \<Rightarrow> (nat \<Rightarrow> nat list) \<Rightarrow> nat \<Rightarrow> nat \<Rightarrow> bool" where
  "inner J path i j \<longleftrightarrow> j < 512 \<and> length (path i) < 3 \<and> (path i = [] \<longrightarrow> j \<in> J)"

definition tables_ok :: "nat set \<Rightarrow> (nat \<Rightarrow> nat list) \<Rightarrow> paging_memory \<Rightarrow> PAGING_DATA \<Rightarrow> bool" where
  "tables_ok J path s P \<longleftrightarrow> region_ok s P \<and> 0 < used P \<and> used P \<le> unat (NumberOfFrames P) \<and> path 0 = [] \<and>
     inj_on path {..<used P} \<and> (\<forall>i < used P. length (path i) \<le> 3) \<and>
     (\<forall>i < used P. \<forall>j. inner J path i j \<longrightarrow> pte_present (tab s P i j) \<longrightarrow>
        (\<exists>k < used P. points_to s P i j k \<and> path k = path i @ [j])) \<and>
     (\<forall>k < used P. path k \<noteq> [] \<longrightarrow>
        (\<exists>i < used P. \<exists>j. inner J path i j \<and> points_to s P i j k \<and> path k = path i @ [j]))"

lemma tables_okD:
  assumes "tables_ok J path s P"
  shows "region_ok s P" and "0 < used P" and "used P \<le> unat (NumberOfFrames P)" and "path 0 = []"
    and "i < used P \<Longrightarrow> length (path i) \<le> 3" and "i < used P \<Longrightarrow> k < used P \<Longrightarrow> path i = path k \<Longrightarrow> i = k"
    and "i < used P \<Longrightarrow> inner J path i j \<Longrightarrow> pte_present (tab s P i j) \<Longrightarrow>
      \<exists>k < used P. points_to s P i j k \<and> path k = path i @ [j]"
    and "k < used P \<Longrightarrow> path k = p @ [j] \<Longrightarrow> \<exists>i < used P. path i = p \<and> inner J path i j \<and> points_to s P i j k"
  using assms unfolding tables_ok_def by (fastforce dest: inj_onD)+

lemma base_frame: "BasePhysicalAddress P = frame_pa P 0"
  by (simp add: frame_pa_def)

text \<open>What the walk finds is what the tree says.\<close>

lemma leaf_iff:
  assumes ok: "tables_ok J path s P" and J: "ix1 va \<in> J"
  shows "leaf_entry s (BasePhysicalAddress P) va = Some e \<longleftrightarrow>
    (\<exists>i < used P. path i = [ix1 va, ix2 va, ix3 va] \<and> tab s P i (ix4 va) = e \<and> pte_present e)"
proof
  assume leaf: "leaf_entry s (BasePhysicalAddress P) va = Some e"
  then have p1: "pte_present (tab s P 0 (ix1 va))"
    unfolding leaf_entry_def base_frame entry_at_slot by (auto simp: Let_def split: if_splits)
  have "inner J path 0 (ix1 va)" using J tables_okD(4) [OF ok] by (simp add: inner_def)
  then obtain i where i: "i < used P" "points_to s P 0 (ix1 va) i" "path i = [ix1 va]"
    using tables_okD(7) [OF ok _ _ p1] tables_okD(2,4) [OF ok] by auto
  then have p2: "pte_present (tab s P i (ix2 va))"
    using leaf unfolding leaf_entry_def base_frame points_to_def entry_at_slot
    by (auto simp: Let_def entry_at_slot split: if_splits)
  have "inner J path i (ix2 va)" using i by (simp add: inner_def)
  then obtain k where k: "k < used P" "points_to s P i (ix2 va) k" "path k = [ix1 va, ix2 va]"
    using tables_okD(7) [OF ok i(1) _ p2] i(3) by auto
  then have p3: "pte_present (tab s P k (ix3 va))"
    using leaf i(2) unfolding leaf_entry_def base_frame points_to_def entry_at_slot
    by (auto simp: Let_def entry_at_slot split: if_splits)
  have "inner J path k (ix3 va)" using k by (simp add: inner_def)
  then obtain l where l: "l < used P" "points_to s P k (ix3 va) l" "path l = [ix1 va, ix2 va, ix3 va]"
    using tables_okD(7) [OF ok k(1) _ p3] k(3) by auto
  then show "\<exists>i < used P. path i = [ix1 va, ix2 va, ix3 va] \<and> tab s P i (ix4 va) = e \<and> pte_present e"
    using leaf i(2) k(2) unfolding leaf_entry_def base_frame points_to_def entry_at_slot
    by (auto simp: Let_def entry_at_slot split: if_splits)
next
  assume "\<exists>i < used P. path i = [ix1 va, ix2 va, ix3 va] \<and> tab s P i (ix4 va) = e \<and> pte_present e"
  then obtain l where l: "l < used P" "path l = [ix1 va, ix2 va] @ [ix3 va]" "tab s P l (ix4 va) = e" "pte_present e"
    by auto
  obtain k where k: "k < used P" "path k = [ix1 va] @ [ix2 va]" "points_to s P k (ix3 va) l"
    using tables_okD(8) [OF ok l(1,2)] by auto
  obtain i where i: "i < used P" "path i = [] @ [ix1 va]" "points_to s P i (ix2 va) k"
    using tables_okD(8) [OF ok k(1,2)] by auto
  obtain h where h: "h < used P" "path h = []" "points_to s P h (ix1 va) i"
    using tables_okD(8) [OF ok i(1,2)] by auto
  have "h = 0" using tables_okD(6) [OF ok h(1) tables_okD(2) [OF ok]] h(2) tables_okD(4) [OF ok] by simp
  with h i k l show "leaf_entry s (BasePhysicalAddress P) va = Some e"
    unfolding leaf_entry_def base_frame points_to_def entry_at_slot by (simp add: Let_def entry_at_slot)
qed

lemma leaf_eqI:
  assumes "\<And>e. leaf_entry s r va = Some e \<longleftrightarrow> leaf_entry s' r va = Some e"
  shows "leaf_entry s r va = leaf_entry s' r va"
  using assms by (metis not_Some_eq)

text \<open>A new table: frame \<open>n\<close> is cleared and entry \<open>j\<close> of frame \<open>i\<close> made to point to it.\<close>

lemma tables_ok_setup:
  assumes ok: "tables_ok J path s P" and i: "i < used P" "inner J path i j" and free: "\<not> pte_present (tab s P i j)"
    and room: "used P < unat (NumberOfFrames P)"
    and P': "BasePhysicalAddress P' = BasePhysicalAddress P" "NumberOfFrames P' = NumberOfFrames P" "used P' = Suc (used P)"
    and s': "VirtualToPhysicalOffset s' = VirtualToPhysicalOffset s"
      "\<And>k l. k < unat (NumberOfFrames P) \<Longrightarrow> l < 512 \<Longrightarrow> tab s' P k l =
        (if k = used P then 0 else if k = i \<and> l = j then e else tab s P k l)"
    and e: "pte_present e" "pte_address e = frame_pa P (used P)" "get_bits 7 1 e = 0"
  shows "tables_ok J (path(used P := path i @ [j])) s' P'" and "points_to s' P' i j (used P)"
    and "ix1 va \<in> J \<Longrightarrow> leaf_entry s' (BasePhysicalAddress P') va = leaf_entry s (BasePhysicalAddress P) va"
proof -
  note d = tables_okD [OF ok]
  let ?n = "used P" and ?path = "path(used P := path i @ [j])"
  have same: "frame_pa P' = frame_pa P" "slot s' P' = slot s P" "slot s' P = slot s P"
    by (simp_all add: fun_eq_iff frame_pa_def slot_def PA2VA_def P' s'(1))
  have new: "path k \<noteq> path i @ [j]" if "k < ?n" for k
  proof
    assume "path k = path i @ [j]"
    with d(8) [OF that] obtain i' where "i' < ?n" "path i' = path i" "points_to s P i' j k" by blast
    then show False using d(6) [of i' i] i(1) free by (auto simp: points_to_def)
  qed
  have tab': "tab s' P' k l = (if k = ?n then 0 else if k = i \<and> l = j then e else tab s P k l)"
    if "k \<le> ?n" "l < 512" for k l
    using s'(2) [of k l] that room by (simp add: same)
  have j: "j < 512" using i(2) by (simp add: inner_def)
  have old: "points_to s' P' k l m \<longleftrightarrow> points_to s P k l m" if "k < ?n" "l < 512" "(k, l) \<noteq> (i, j)" for k l m
    using tab' [of k l] that by (auto simp: points_to_def same)
  show here: "points_to s' P' i j ?n" using tab' [of i j] i(1) j e by (simp add: points_to_def same)
  show ok': "tables_ok J ?path s' P'"
    unfolding tables_ok_def P'(3)
  proof (intro conjI allI impI)
    show "region_ok s' P'" using d(1) by (simp add: region_ok_def P' PA2VA_def s'(1))
    show "0 < Suc ?n" by simp
    show "Suc ?n \<le> unat (NumberOfFrames P')" using room P'(2) by simp
    show "?path 0 = []" using d(2,4) by simp
    show "inj_on ?path {..<Suc ?n}"
    proof (rule inj_onI)
      fix k l assume kl: "k \<in> {..<Suc ?n}" "l \<in> {..<Suc ?n}" "?path k = ?path l"
      show "k = l"
      proof (cases "k = ?n \<or> l = ?n")
        case True
        then show ?thesis using kl new [of k] new [of l] by (auto split: if_splits)
      next
        case False
        then show ?thesis using kl d(6) [of k l] by simp
      qed
    qed
  next
    fix k assume "k < Suc ?n"
    then show "length (?path k) \<le> 3" using d(5) [of k] i(2) by (auto simp: inner_def less_Suc_eq)
  next
    fix k l assume k: "k < Suc ?n" and inn: "inner J ?path k l" and pres: "pte_present (tab s' P' k l)"
    have l: "l < 512" using inn by (simp add: inner_def)
    have kn: "k < ?n" using pres tab' [of k l] k l by (auto simp: less_Suc_eq)
    have innk: "inner J path k l" using inn kn by (simp add: inner_def)
    show "\<exists>m < Suc ?n. points_to s' P' k l m \<and> ?path m = ?path k @ [l]"
    proof (cases "k = i \<and> l = j")
      case True
      with here i(1) show ?thesis by (intro exI [of _ ?n]) simp
    next
      case False
      have "pte_present (tab s P k l)" using pres tab' [of k l] kn l False by (simp split: if_splits)
      then obtain m where "m < ?n" "points_to s P k l m" "path m = path k @ [l]" using d(7) [OF kn innk] by blast
      with old [OF kn l] False kn show ?thesis by (intro exI [of _ m]) auto
    qed
  next
    fix m assume m: "m < Suc ?n" and ne: "?path m \<noteq> []"
    show "\<exists>k < Suc ?n. \<exists>l. inner J ?path k l \<and> points_to s' P' k l m \<and> ?path m = ?path k @ [l]"
    proof (cases "m = ?n")
      case True
      with here i show ?thesis by (intro exI [of _ i]) (auto simp: inner_def)
    next
      case False
      then have mn: "m < ?n" using m by simp
      then obtain k l where kl: "k < ?n" "inner J path k l" "points_to s P k l m" "path m = path k @ [l]"
        using ne ok unfolding tables_ok_def by auto
      have "(k, l) \<noteq> (i, j)" using kl(3) free by (auto simp: points_to_def)
      moreover have "l < 512" using kl(2) by (simp add: inner_def)
      ultimately have "points_to s' P' k l m" using old [OF kl(1)] kl(3) by blast
      with kl mn show ?thesis by (intro exI [of _ k]) (auto simp: inner_def)
    qed
  qed
  assume J: "ix1 va \<in> J"
  have len: "path i \<noteq> [ix1 va, ix2 va, ix3 va]" using i(2) by (auto simp: inner_def)
  have "k < Suc ?n \<and> ?path k = [ix1 va, ix2 va, ix3 va] \<and> tab s' P' k (ix4 va) = x \<and> pte_present x \<longleftrightarrow>
      k < ?n \<and> path k = [ix1 va, ix2 va, ix3 va] \<and> tab s P k (ix4 va) = x \<and> pte_present x" for k x
    using tab' [of k "ix4 va"] len by (cases "k = ?n") (auto simp: less_Suc_eq)
  then show "leaf_entry s' (BasePhysicalAddress P') va = leaf_entry s (BasePhysicalAddress P) va"
    unfolding P'(1) by (intro leaf_eqI) (simp only: leaf_iff [OF ok J] leaf_iff [OF ok' J, unfolded P'(1,3)])
qed

text \<open>Writing an entry of a last-level table changes the translation of one page.\<close>

lemma same_page_leaf: "[ix1 va, ix2 va, ix3 va] = [ix1 vb, ix2 vb, ix3 vb] \<and> ix4 va = ix4 vb \<longleftrightarrow> vpn va = vpn vb"
  by (simp add: vpn_eq_iff)

lemma tables_ok_leaf:
  assumes ok: "tables_ok J path s P" and i: "i < used P" "path i = [ix1 vb, ix2 vb, ix3 vb]"
    and s': "VirtualToPhysicalOffset s' = VirtualToPhysicalOffset s" "Memory s' = (Memory s)(slot s P i (ix4 vb) := e)"
  shows "tables_ok J path s' P"
    and "ix1 va \<in> J \<Longrightarrow> leaf_entry s' (BasePhysicalAddress P) va =
      (if vpn va = vpn vb then if pte_present e then Some e else None else leaf_entry s (BasePhysicalAddress P) va)"
proof -
  note d = tables_okD [OF ok]
  have same: "slot s' P = slot s P" by (simp add: fun_eq_iff slot_def PA2VA_def s'(1))
  have tab': "tab s' P k l = (if k = i \<and> l = ix4 vb then e else tab s P k l)" if "k < used P" "l < 512" for k l
    using slot_inject [OF d(1), of k l i "ix4 vb"] d(3) that i(1) by (simp add: same s'(2))
  have points: "points_to s' P k l m \<longleftrightarrow> points_to s P k l m" if "k < used P" "inner J path k l" for k l m
  proof -
    have "k \<noteq> i" using that(2) i(2) by (auto simp: inner_def)
    then show ?thesis using tab' [of k l] that by (simp add: points_to_def inner_def)
  qed
  have present: "pte_present (tab s' P k l) = pte_present (tab s P k l)" if "k < used P" "inner J path k l" for k l
  proof -
    have "k \<noteq> i" using that(2) i(2) by (auto simp: inner_def)
    then show ?thesis using tab' [of k l] that by (simp add: inner_def)
  qed
  have "region_ok s' P" using d(1) by (simp add: region_ok_def PA2VA_def s'(1))
  moreover have "\<forall>k < used P. \<forall>l. inner J path k l \<longrightarrow> pte_present (tab s' P k l) \<longrightarrow>
      (\<exists>m < used P. points_to s' P k l m \<and> path m = path k @ [l])"
    using points present d(7) by blast
  moreover have "\<forall>m < used P. path m \<noteq> [] \<longrightarrow>
      (\<exists>k < used P. \<exists>l. inner J path k l \<and> points_to s' P k l m \<and> path m = path k @ [l])"
    using points ok unfolding tables_ok_def by metis
  ultimately show ok': "tables_ok J path s' P"
    using ok unfolding tables_ok_def by blast
  assume J: "ix1 va \<in> J"
  have one: "k = i" if "k < used P" "path k = [ix1 vb, ix2 vb, ix3 vb]" for k
    using d(6) [OF that(1) i(1)] that(2) i(2) by simp
  show "leaf_entry s' (BasePhysicalAddress P) va =
      (if vpn va = vpn vb then if pte_present e then Some e else None else leaf_entry s (BasePhysicalAddress P) va)"
  proof (cases "vpn va = vpn vb")
    case True
    then have ix: "ix1 va = ix1 vb" "ix2 va = ix2 vb" "ix3 va = ix3 vb" "ix4 va = ix4 vb" by (simp_all add: vpn_eq_iff)
    have "leaf_entry s' (BasePhysicalAddress P) va = Some x \<longleftrightarrow> x = e \<and> pte_present e" for x
    proof -
      have "tab s' P i (ix4 vb) = e" using tab' [OF i(1), of "ix4 vb"] by simp
      then show ?thesis unfolding leaf_iff [OF ok' J] ix using one i by blast
    qed
    then show ?thesis using True by (metis not_Some_eq)
  next
    case False
    have "tab s' P k (ix4 va) = tab s P k (ix4 va)" if "k < used P" "path k = [ix1 va, ix2 va, ix3 va]" for k
    proof -
      have ne: "\<not> (k = i \<and> ix4 va = ix4 vb)" using False that(2) i(2) unfolding vpn_eq_iff by auto
      show ?thesis by (rule trans [OF tab' [OF that(1) ix_less(4)] if_not_P [OF ne]])
    qed
    then have "k < used P \<and> path k = [ix1 va, ix2 va, ix3 va] \<and> tab s' P k (ix4 va) = x \<and> pte_present x \<longleftrightarrow>
        k < used P \<and> path k = [ix1 va, ix2 va, ix3 va] \<and> tab s P k (ix4 va) = x \<and> pte_present x" for k x
      by metis
    then have "leaf_entry s' (BasePhysicalAddress P) va = leaf_entry s (BasePhysicalAddress P) va"
      by (intro leaf_eqI) (simp only: leaf_iff [OF ok J] leaf_iff [OF ok' J])
    with False show ?thesis by simp
  qed
qed

section \<open>Mapping\<close>

text \<open>What the steps leave alone: the size of the region, the offset and the caching indices.\<close>

definition same_setup :: "PAGING_DATA \<times> paging_memory \<Rightarrow> PAGING_DATA \<times> paging_memory \<Rightarrow> bool" where
  "same_setup ps ps' \<longleftrightarrow> BasePhysicalAddress (fst ps') = BasePhysicalAddress (fst ps) \<and>
     NumberOfFrames (fst ps') = NumberOfFrames (fst ps) \<and> KernelSpace (fst ps') = KernelSpace (fst ps) \<and>
     VirtualToPhysicalOffset (snd ps') = VirtualToPhysicalOffset (snd ps) \<and>
     WriteBackIndex (snd ps') = WriteBackIndex (snd ps) \<and> UncacheableIndex (snd ps') = UncacheableIndex (snd ps) \<and>
     ReleasedFrames (snd ps') = ReleasedFrames (snd ps)"

lemma same_setup_refl [simp]: "same_setup ps ps"
  by (simp add: same_setup_def)

lemma same_setup_trans: "same_setup a b \<Longrightarrow> same_setup b c \<Longrightarrow> same_setup a c"
  by (simp add: same_setup_def)

lemma next_frame:
  assumes "region_ok s P" and "used P < unat (NumberOfFrames P)"
  shows "VmRetrieveNextPhysicalAddressForPagingStructure P =
      Some (frame_pa P (used P), P\<lparr>CurrentIndex := CurrentIndex P + 1\<rparr>)"
    and "unat (CurrentIndex P + 1) = Suc (used P)"
proof -
  have small: "used P < 2 ^ 20" using assms unfolding region_ok_def by linarith
  have "unat (CurrentIndex P * 0x1000) = used P * 4096"
    using small by (subst unat_word_ariths) simp
  have "(ucast (CurrentIndex P * 0x1000) :: QWORD) = of_nat (unat (CurrentIndex P * 0x1000))" by simp
  also have "\<dots> = of_nat (used P * 4096)" by (rule arg_cong [OF \<open>unat (CurrentIndex P * 0x1000) = used P * 4096\<close>])
  also have "\<dots> = of_nat (used P) * 0x1000" by (simp only: of_nat_mult of_nat_numeral)
  finally have "(ucast (CurrentIndex P * 0x1000) :: QWORD) = of_nat (used P) * 0x1000" .
  then show "VmRetrieveNextPhysicalAddressForPagingStructure P =
      Some (frame_pa P (used P), P\<lparr>CurrentIndex := CurrentIndex P + 1\<rparr>)"
    using assms(2) by (simp add: VmRetrieveNextPhysicalAddressForPagingStructure_def word_less_nat_alt frame_pa_def Let_def)
  show "unat (CurrentIndex P + 1) = Suc (used P)"
    using small by (subst unat_plus_simple) simp_all
qed

definition table_flags :: "PAGING_DATA \<Rightarrow> PTE_MAP_FLAGS" where
  "table_flags P = NO_FLAGS\<lparr>Writable := True, Executable := True, PagingStructure := True, UserAccess := \<not> KernelSpace P\<rparr>"

lemma setup_structure:
  assumes r: "region_ok s P" and room: "used P < unat (NumberOfFrames P)" and i: "i < used P" "j < 512"
  shows "\<exists>P' s'. VmSetupPagingStructure P (slot s P i j) s = Some (P', s') \<and> used P' = Suc (used P) \<and>
    same_setup (P, s) (P', s') \<and>
    (\<forall>k l. k < unat (NumberOfFrames P) \<longrightarrow> l < 512 \<longrightarrow> tab s' P k l =
      (if k = used P then 0 else if k = i \<and> l = j then pte_value (frame_pa P (used P)) (table_flags P) else tab s P k l))"
proof -
  let ?e = "pte_value (frame_pa P (used P)) (table_flags P)" and ?a = "PA2VA s (frame_pa P (used P))"
  define P' where "P' = P\<lparr>CurrentIndex := CurrentIndex P + 1\<rparr>"
  define s' where "s' = memzero_page ?a (invlpg ?a (put_entry (slot s P i j) ?e s))"
  have pa: "PA2VA (put_entry a e s) = PA2VA s" "PA2VA (invlpg b (put_entry a e s)) = PA2VA s" for a b e
    by (simp_all add: fun_eq_iff PA2VA_def put_entry_def invlpg_def)
  have null: "slot s P i j \<noteq> NULL" by (rule slot_not_null [OF r]) (use i room in simp_all)
  have ks: "table_flags (P\<lparr>CurrentIndex := CurrentIndex P + 1\<rparr>) = table_flags P" by (simp add: table_flags_def)
  have "VmSetupPagingStructure P (slot s P i j) s = Some (P', s')"
    using null by (simp add: VmSetupPagingStructure_def next_frame(1) [OF r room] PteMap_def Let_def pa ks P'_def s'_def
      flip: table_flags_def)
  moreover have "used P' = Suc (used P)" using next_frame(2) [OF r room] by (simp add: P'_def)
  moreover have "same_setup (P, s) (P', s')"
    by (simp add: same_setup_def P'_def s'_def memzero_page_def invlpg_def put_entry_def)
  moreover have "tab s' P k l = (if k = used P then 0 else if k = i \<and> l = j then ?e else tab s P k l)"
    if kl: "k < unat (NumberOfFrames P)" "l < 512" for k l
  proof -
    have "slot s' P k l = slot s P k l"
      by (simp add: slot_def PA2VA_def s'_def memzero_page_def invlpg_def put_entry_def)
    moreover have "slot s P k l = slot s P i j \<longleftrightarrow> k = i \<and> l = j"
      using slot_inject [OF r kl] i room by simp
    ultimately show ?thesis
      using slot_in_frame [OF r kl room] by (simp add: s'_def memzero_page_def invlpg_def put_entry_def)
  qed
  ultimately show ?thesis by blast
qed

lemma next_table_ok:
  assumes ok: "tables_ok J path s P" and i: "i < used P" "inner J path i j" and room: "used P < unat (NumberOfFrames P)"
  shows "\<exists>P' s' k path'. next_table (slot s P i j) chk (P, s) = Some (PA2VA s' (frame_pa P' k), P', s') \<and>
    k < used P' \<and> path' k = path i @ [j] \<and> tables_ok J path' s' P' \<and> same_setup (P, s) (P', s') \<and>
    used P' \<le> Suc (used P) \<and>
    (\<forall>va. ix1 va \<in> J \<longrightarrow> leaf_entry s' (BasePhysicalAddress P') va = leaf_entry s (BasePhysicalAddress P) va)"
proof -
  note d = tables_okD [OF ok]
  have j: "j < 512" using i(2) by (simp add: inner_def)
  have null: "slot s P i j \<noteq> NULL" using slot_not_null [OF d(1) _ j] i(1) d(3) by simp
  show ?thesis
  proof (cases "pte_present (tab s P i j)")
    case True
    then obtain k where k: "k < used P" "points_to s P i j k" "path k = path i @ [j]"
      using d(7) [OF i] by blast
    then have "next_table (slot s P i j) chk (P, s) = Some (PA2VA s (frame_pa P k), P, s)"
      using null by (simp add: next_table_def PteIsPresent_def PteGetPhysicalAddress_def PageSizeBit_def points_to_def)
    with k ok show ?thesis by (intro exI [of _ P] exI [of _ s] exI [of _ k] exI [of _ path]) simp
  next
    case False
    let ?e = "pte_value (frame_pa P (used P)) (table_flags P)"
    obtain P' s' where run: "VmSetupPagingStructure P (slot s P i j) s = Some (P', s')" and n: "used P' = Suc (used P)"
      and same: "same_setup (P, s) (P', s')"
      and tab': "\<And>k l. k < unat (NumberOfFrames P) \<Longrightarrow> l < 512 \<Longrightarrow> tab s' P k l =
        (if k = used P then 0 else if k = i \<and> l = j then ?e else tab s P k l)"
      using setup_structure [OF d(1) room i(1) j] by blast
    have e: "pte_present ?e" "pte_address ?e = frame_pa P (used P)" "get_bits 7 1 ?e = 0"
      using frame_pa_address [OF d(1) room] by (simp_all add: pte_value_facts table_flags_def del: One_nat_def)
    have P': "BasePhysicalAddress P' = BasePhysicalAddress P" "NumberOfFrames P' = NumberOfFrames P"
      "VirtualToPhysicalOffset s' = VirtualToPhysicalOffset s" using same by (simp_all add: same_setup_def)
    note table = tables_ok_setup [OF ok i False room P'(1,2) n P'(3) tab' e]
    have slot: "slot s' P' i j = slot s P i j" "frame_pa P' = frame_pa P"
      by (simp_all add: slot_def frame_pa_def PA2VA_def P' fun_eq_iff)
    have "next_table (slot s P i j) chk (P, s) = Some (PA2VA s' (frame_pa P' (used P)), P', s')"
      using null False run table(2)
      by (simp add: next_table_def PteIsPresent_def PteGetPhysicalAddress_def PageSizeBit_def points_to_def slot)
    with table(1,3) same n show ?thesis
      by (intro exI [of _ P'] exI [of _ s'] exI [of _ "used P"] exI [of _ "path(used P := path i @ [j])"]) simp
  qed
qed

lemma page_flags_same: "same_setup (P, s) (P', s') \<Longrightarrow> page_flags P' r u s' = page_flags P r u s"
  by (simp add: same_setup_def page_flags_def)

lemma map_page_ok:
  assumes ok: "tables_ok J path s P" and J: "ix1 va \<in> J" and room: "used P + 3 \<le> unat (NumberOfFrames P)"
  shows "\<exists>P' s' path'. map_page va pa rights forced unc (P, s) = Some (P', s') \<and> tables_ok J path' s' P' \<and>
    same_setup (P, s) (P', s') \<and> used P' \<le> used P + 3 \<and>
    (\<forall>vb. ix1 vb \<in> J \<longrightarrow> leaf_entry s' (BasePhysicalAddress P') vb =
      (if vpn vb = vpn va \<and> (forced \<or> leaf_entry s (BasePhysicalAddress P) vb = None)
       then Some (pte_value pa (page_flags P rights unc s)) else leaf_entry s (BasePhysicalAddress P) vb))"
proof -
  note d = tables_okD [OF ok]
  have in0: "inner J path 0 (ix1 va)" using J d(4) by (simp add: inner_def)
  obtain P1 s1 k1 p1 where t1: "next_table (slot s P 0 (ix1 va)) False (P, s) = Some (PA2VA s1 (frame_pa P1 k1), P1, s1)"
    and k1: "k1 < used P1" "p1 k1 = [ix1 va]" and ok1: "tables_ok J p1 s1 P1" and same1: "same_setup (P, s) (P1, s1)"
    and n1: "used P1 \<le> Suc (used P)" and leaf1: "\<forall>vb. ix1 vb \<in> J \<longrightarrow>
      leaf_entry s1 (BasePhysicalAddress P1) vb = leaf_entry s (BasePhysicalAddress P) vb"
    using next_table_ok [OF ok d(2) in0] room d(4) by force
  have N1: "NumberOfFrames P1 = NumberOfFrames P" using same1 by (simp add: same_setup_def)
  have in1: "inner J p1 k1 (ix2 va)" using k1 by (simp add: inner_def)
  obtain P2 s2 k2 p2 where t2: "next_table (slot s1 P1 k1 (ix2 va)) True (P1, s1) = Some (PA2VA s2 (frame_pa P2 k2), P2, s2)"
    and k2: "k2 < used P2" "p2 k2 = [ix1 va, ix2 va]" and ok2: "tables_ok J p2 s2 P2" and same2: "same_setup (P1, s1) (P2, s2)"
    and n2: "used P2 \<le> Suc (used P1)" and leaf2: "\<forall>vb. ix1 vb \<in> J \<longrightarrow>
      leaf_entry s2 (BasePhysicalAddress P2) vb = leaf_entry s1 (BasePhysicalAddress P1) vb"
    using next_table_ok [OF ok1 k1(1) in1] room n1 k1(2) N1 by force
  have N2: "NumberOfFrames P2 = NumberOfFrames P" using same2 N1 by (simp add: same_setup_def)
  have in2: "inner J p2 k2 (ix3 va)" using k2 by (simp add: inner_def)
  obtain P3 s3 k3 p3 where t3: "next_table (slot s2 P2 k2 (ix3 va)) True (P2, s2) = Some (PA2VA s3 (frame_pa P3 k3), P3, s3)"
    and k3: "k3 < used P3" "p3 k3 = [ix1 va, ix2 va, ix3 va]" and ok3: "tables_ok J p3 s3 P3" and same3: "same_setup (P2, s2) (P3, s3)"
    and n3: "used P3 \<le> Suc (used P2)" and leaf3: "\<forall>vb. ix1 vb \<in> J \<longrightarrow>
      leaf_entry s3 (BasePhysicalAddress P3) vb = leaf_entry s2 (BasePhysicalAddress P2) vb"
    using next_table_ok [OF ok2 k2(1) in2] room n1 n2 k2(2) N2 by force
  have same: "same_setup (P, s) (P3, s3)" using same1 same2 same3 same_setup_trans by blast
  have leaf: "leaf_entry s3 (BasePhysicalAddress P3) vb = leaf_entry s (BasePhysicalAddress P) vb" if "ix1 vb \<in> J" for vb
    using leaf1 leaf2 leaf3 that by simp
  have n: "used P3 \<le> used P + 3" using n1 n2 n3 by simp
  let ?a = "slot s3 P3 k3 (ix4 va)" and ?e = "pte_value pa (page_flags P rights unc s)"
  have null: "?a \<noteq> NULL"
    using slot_not_null [OF tables_okD(1) [OF ok3]] k3(1) tables_okD(3) [OF ok3] by simp
  have run: "map_page va pa rights forced unc (P, s) =
      (if forced \<or> \<not> pte_present (Memory s3 ?a) then Some (P3, invlpg va (put_entry ?a ?e s3)) else Some (P3, s3))"
    using null t1 t2 t3
    by (simp add: map_page_def base_frame [of P] entry_at_slot Let_def PteIsPresent_def PteMap_def page_flags_same [OF same])
  have old: "leaf_entry s (BasePhysicalAddress P) va = (if pte_present (Memory s3 ?a) then Some (Memory s3 ?a) else None)"
    using leaf_iff [OF ok3 J] tables_okD(6) [OF ok3 k3(1)] k3 unfolding leaf [OF J, symmetric]
    by (metis not_Some_eq)
  have page: "leaf_entry s (BasePhysicalAddress P) vb = leaf_entry s (BasePhysicalAddress P) va"
    if "ix1 vb \<in> J" "vpn vb = vpn va" for vb
    using leaf_iff [OF ok that(1)] leaf_iff [OF ok J] that(2) unfolding vpn_eq_iff by (metis not_Some_eq)
  show ?thesis
  proof (cases "forced \<or> \<not> pte_present (Memory s3 ?a)")
    case True
    define s4 where "s4 = invlpg va (put_entry ?a ?e s3)"
    have s4: "VirtualToPhysicalOffset s4 = VirtualToPhysicalOffset s3" "Memory s4 = (Memory s3)(?a := ?e)"
      by (simp_all add: s4_def invlpg_def put_entry_def)
    note w = tables_ok_leaf [OF ok3 k3 s4]
    have "same_setup (P, s) (P3, s4)" using same by (simp add: same_setup_def s4_def invlpg_def put_entry_def)
    moreover have "leaf_entry s4 (BasePhysicalAddress P3) vb =
      (if vpn vb = vpn va \<and> (forced \<or> leaf_entry s (BasePhysicalAddress P) vb = None) then Some ?e
       else leaf_entry s (BasePhysicalAddress P) vb)" if "ix1 vb \<in> J" for vb
      using w(2) [OF that] leaf [OF that] page [OF that] old True by (auto simp: pte_value_facts(1) split: if_splits)
    ultimately show ?thesis using run True w(1) n
      by (intro exI [of _ P3] exI [of _ s4] exI [of _ p3]) (simp add: s4_def)
  next
    case False
    have "leaf_entry s3 (BasePhysicalAddress P3) vb =
      (if vpn vb = vpn va \<and> (forced \<or> leaf_entry s (BasePhysicalAddress P) vb = None) then Some ?e
       else leaf_entry s (BasePhysicalAddress P) vb)" if "ix1 vb \<in> J" for vb
      using leaf [OF that] page [OF that] old False by simp
    with run False ok3 n same show ?thesis by (intro exI [of _ P3] exI [of _ s3] exI [of _ p3]) simp
  qed
qed

text \<open>The pages of a range: distinct as long as the range is not longer than 2 ^ 48 bytes.\<close>

abbreviation page_at :: "PVOID \<Rightarrow> nat \<Rightarrow> PVOID" where "page_at base q \<equiv> base + of_nat q * PAGE_SIZE"

lemma vpn_page_at: "vpn (page_at base q) = (vpn base + q) mod 2 ^ 36"
proof -
  have "unat (page_at base q) = (unat base + q * 4096) mod 2 ^ 64"
  proof -
    have "unat (of_nat q * 0x1000 :: QWORD) = q * 4096 mod 2 ^ 64"
      using unat_of_nat [of "q * 4096", where 'a = 64] by simp
    then show ?thesis by (simp add: unat_word_ariths(1) mod_simps)
  qed
  then have "vpn (page_at base q) = take_bit 36 (drop_bit 12 (take_bit 64 (unat base + q * 4096)))"
    by (simp add: vpn_def take_bit_eq_mod drop_bit_eq_div)
  also have "\<dots> = take_bit 36 (drop_bit 12 (unat base + q * 4096))" by (simp add: drop_bit_take_bit)
  also have "\<dots> = (unat base div 4096 + q) mod 2 ^ 36" by (simp add: take_bit_eq_mod drop_bit_eq_div add.commute)
  also have "\<dots> = (vpn base + q) mod 2 ^ 36" by (simp only: vpn_def mod_add_left_eq)
  finally show ?thesis .
qed

lemma page_at_distinct:
  assumes "q < 2 ^ 36" and "r < 2 ^ 36" and "vpn (page_at base q) = vpn (page_at base r)"
  shows "q = r"
proof -
  have eq: "(vpn base + q) mod 2 ^ 36 = (vpn base + r) mod 2 ^ 36" using assms(3) by (simp only: vpn_page_at)
  have same: "b = a" if "a \<le> b" "b < 2 ^ 36" "(vpn base + b) mod 2 ^ 36 = (vpn base + a) mod 2 ^ 36" for a b
  proof -
    have "2 ^ 36 dvd (vpn base + b) - (vpn base + a)" using that by (subst mod_eq_dvd_iff_nat [symmetric]) simp_all
    then have "2 ^ 36 dvd b - a" by simp
    moreover have "b - a < 2 ^ 36" using that(2) by linarith
    ultimately have "\<not> 0 < b - a" using nat_dvd_not_less by blast
    then show ?thesis using that(1) by simp
  qed
  show ?thesis using same [of q r] same [of r q] assms(1,2) eq by (cases "q \<le> r") simp_all
qed

lemma map_loop_ok:
  assumes "m \<le> 2 ^ 36" and "k \<le> m" and size: "unat Size = 4096 * m"
    and "tables_ok J path s P" and "\<forall>q < m. ix1 (page_at base q) \<in> J" and "used P + 3 * (m - k) \<le> unat (NumberOfFrames P)"
  shows "\<exists>P' s' path'. map_loop pa Size base rights forced unc (of_nat k * PAGE_SIZE) (P, s) = Some (P', s') \<and>
    tables_ok J path' s' P' \<and> same_setup (P, s) (P', s') \<and> used P' \<le> used P + 3 * (m - k) \<and>
    (\<forall>vb. ix1 vb \<in> J \<longrightarrow>
      (\<forall>q. k \<le> q \<and> q < m \<and> vpn vb = vpn (page_at base q) \<longrightarrow> leaf_entry s' (BasePhysicalAddress P') vb =
         (if forced \<or> leaf_entry s (BasePhysicalAddress P) vb = None
          then Some (pte_value (page_at pa q) (page_flags P rights unc s)) else leaf_entry s (BasePhysicalAddress P) vb)) \<and>
      ((\<forall>q. k \<le> q \<and> q < m \<longrightarrow> vpn vb \<noteq> vpn (page_at base q)) \<longrightarrow>
         leaf_entry s' (BasePhysicalAddress P') vb = leaf_entry s (BasePhysicalAddress P) vb))"
  using assms(2,4,6)
proof (induction "m - k" arbitrary: k path s P)
  case 0
  then have "k = m" by simp
  moreover have "\<not> of_nat m * PAGE_SIZE < Size"
  proof -
    have "unat (of_nat m * 0x1000 :: QWORD) = m * 4096"
      using unat_of_nat_small [of "m * 4096", where 'a = 64] assms(1) by simp
    then show ?thesis using size by (simp add: word_less_nat_alt)
  qed
  ultimately show ?case using 0(3)
    by (intro exI [of _ P] exI [of _ s] exI [of _ path]) (auto simp: map_loop.simps)
next
  case (Suc d)
  then have km: "k < m" by simp
  have less: "of_nat k * PAGE_SIZE < Size"
  proof -
    have "unat (of_nat k * 0x1000 :: QWORD) = k * 4096"
      using unat_of_nat_small [of "k * 4096", where 'a = 64] assms(1) km by simp
    then show ?thesis using size km by (simp add: word_less_nat_alt)
  qed
  have J: "ix1 (page_at base k) \<in> J" using assms(5) km by blast
  have "used P + 3 \<le> unat (NumberOfFrames P)" using Suc(5) km by linarith
  from map_page_ok [OF Suc(4) J this, of "page_at pa k" rights forced unc] obtain P1 s1 p1 where
    run1: "map_page (page_at base k) (page_at pa k) rights forced unc (P, s) = Some (P1, s1)" and ok1: "tables_ok J p1 s1 P1"
    and same1: "same_setup (P, s) (P1, s1)" and n1: "used P1 \<le> used P + 3"
    and leaf1: "\<And>vb. ix1 vb \<in> J \<Longrightarrow> leaf_entry s1 (BasePhysicalAddress P1) vb =
      (if vpn vb = vpn (page_at base k) \<and> (forced \<or> leaf_entry s (BasePhysicalAddress P) vb = None)
       then Some (pte_value (page_at pa k) (page_flags P rights unc s)) else leaf_entry s (BasePhysicalAddress P) vb)"
    by blast
  have room1: "used P1 + 3 * (m - Suc k) \<le> unat (NumberOfFrames P1)" using Suc(5) n1 km same1 by (simp add: same_setup_def)
  have d: "d = m - Suc k" "Suc k \<le> m" using Suc(2) km by simp_all
  from Suc(1) [OF d ok1 room1] obtain P' s' p' where run: "map_loop pa Size base rights forced unc (of_nat (Suc k) * PAGE_SIZE) (P1, s1) = Some (P', s')"
    and ok': "tables_ok J p' s' P'" and same': "same_setup (P1, s1) (P', s')" and n': "used P' \<le> used P1 + 3 * (m - Suc k)"
    and in': "\<And>vb q. ix1 vb \<in> J \<Longrightarrow> Suc k \<le> q \<Longrightarrow> q < m \<Longrightarrow> vpn vb = vpn (page_at base q) \<Longrightarrow>
      leaf_entry s' (BasePhysicalAddress P') vb = (if forced \<or> leaf_entry s1 (BasePhysicalAddress P1) vb = None
        then Some (pte_value (page_at pa q) (page_flags P1 rights unc s1)) else leaf_entry s1 (BasePhysicalAddress P1) vb)"
    and out': "\<And>vb. ix1 vb \<in> J \<Longrightarrow> (\<forall>q. Suc k \<le> q \<and> q < m \<longrightarrow> vpn vb \<noteq> vpn (page_at base q)) \<Longrightarrow>
      leaf_entry s' (BasePhysicalAddress P') vb = leaf_entry s1 (BasePhysicalAddress P1) vb"
    by blast
  have "of_nat k * PAGE_SIZE + PAGE_SIZE = (of_nat (Suc k) * PAGE_SIZE :: QWORD)" by (simp add: algebra_simps)
  then have "map_loop pa Size base rights forced unc (of_nat k * PAGE_SIZE) (P, s) = Some (P', s')"
    using less run1 run by (subst map_loop.simps) (simp add: add.commute)
  moreover have "same_setup (P, s) (P', s')" using same1 same' same_setup_trans by blast
  moreover have "used P' \<le> used P + 3 * (m - k)" using n1 n' km by linarith
  moreover have "leaf_entry s' (BasePhysicalAddress P') vb = (if forced \<or> leaf_entry s (BasePhysicalAddress P) vb = None
      then Some (pte_value (page_at pa q) (page_flags P rights unc s)) else leaf_entry s (BasePhysicalAddress P) vb)"
    if vb: "ix1 vb \<in> J" and q: "k \<le> q" "q < m" "vpn vb = vpn (page_at base q)" for vb q
  proof (cases "q = k")
    case True
    have "vpn vb \<noteq> vpn (page_at base r)" if "Suc k \<le> r" "r < m" for r
      using page_at_distinct [of k r base] that km assms(1) q(3) True by auto
    with out' [OF vb] leaf1 [OF vb] q(3) True show ?thesis by simp
  next
    case False
    have "vpn vb \<noteq> vpn (page_at base k)"
      using page_at_distinct [of k q base] q km assms(1) False by auto
    with in' [OF vb _ q(2,3)] leaf1 [OF vb] q(1) False show ?thesis by (simp add: page_flags_same [OF same1])
  qed
  moreover have "leaf_entry s' (BasePhysicalAddress P') vb = leaf_entry s (BasePhysicalAddress P) vb"
    if vb: "ix1 vb \<in> J" and q: "\<forall>q. k \<le> q \<and> q < m \<longrightarrow> vpn vb \<noteq> vpn (page_at base q)" for vb
  proof -
    have "vpn vb \<noteq> vpn (page_at base k)" using q km by blast
    with out' [OF vb] leaf1 [OF vb] q show ?thesis by simp
  qed
  ultimately show ?case using ok' by blast
qed

end
