(* ===== verification/Translation.thy ===== *)
theory Translation
  imports PageTablesSpec
begin

text \<open>
  The operations on page tables seen as operations on the translation: what \<open>VmmMapMemoryInternal\<close>,
  \<open>VmmUnmapMemoryEx\<close> and \<open>VmmGetPhysicalAddress\<close> do to and read from \<open>leaf_entry\<close>.
\<close>

section \<open>Reading\<close>

lemma leaf_entry_vpn: "vpn va = vpn vb \<Longrightarrow> leaf_entry s r va = leaf_entry s r vb"
proof -
  assume "vpn va = vpn vb"
  then have "MASK_PML4_OFFSET va = MASK_PML4_OFFSET vb" "MASK_PDPTE_OFFSET va = MASK_PDPTE_OFFSET vb"
    "MASK_PDE_OFFSET va = MASK_PDE_OFFSET vb" "MASK_PTE_OFFSET va = MASK_PTE_OFFSET vb"
    unfolding vpn_eq_iff ix1_def ix2_def ix3_def ix4_def by (simp_all only: word_unat_eq_iff)
  then show ?thesis by (simp only: leaf_entry_def)
qed

text \<open>The frame number in the register is that of the first table; the low bits are a PCID.\<close>

definition cr3_of :: "PAGING_DATA \<Rightarrow> QWORD \<Rightarrow> bool" where
  "cr3_of P Cr3 \<longleftrightarrow> pte_address Cr3 = BasePhysicalAddress P"

lemma cr3_table_frame: "cr3_of P Cr3 \<Longrightarrow> cr3_table s Cr3 = PA2VA s (frame_pa P 0)"
  by (simp add: cr3_of_def cr3_table_def pte_address_def base_frame [symmetric])

lemma cr3_of_base: "tables_ok J path s P \<Longrightarrow> cr3_of P (BasePhysicalAddress P)"
proof -
  assume "tables_ok J path s P"
  then have f: "frame_address (BasePhysicalAddress P)"
    using frame_pa_address [OF tables_okD(1), of J path s P 0] tables_okD(2,3) [of J path s P] by (simp add: base_frame)
  show ?thesis unfolding cr3_of_def
    by (rule bit_word_eqI) (use frame_address_bits [OF f] in \<open>auto simp: bit_pte_address\<close>)
qed

lemma slot_ok:
  assumes "tables_ok J path s P" and "i < used P" and "j < 512"
  shows "slot s P i j \<noteq> NULL"
  using slot_not_null [OF tables_okD(1) [OF assms(1)] _ assms(3)] tables_okD(3) [OF assms(1)] assms(2) by simp

lemma read_table_ok:
  assumes ok: "tables_ok J path s P" and i: "i < used P" "inner J path i j"
  shows "\<not> pte_present (tab s P i j) \<Longrightarrow> read_table s (slot s P i j) chk = Some None"
    and "pte_present (tab s P i j) \<Longrightarrow> \<exists>k < used P. path k = path i @ [j] \<and> points_to s P i j k \<and>
      read_table s (slot s P i j) chk = Some (Some (PA2VA s (frame_pa P k)))"
proof -
  have null: "slot s P i j \<noteq> NULL" using slot_ok [OF ok i(1)] i(2) by (simp add: inner_def)
  show "\<not> pte_present (tab s P i j) \<Longrightarrow> read_table s (slot s P i j) chk = Some None"
    using null by (simp add: read_table_def PteIsPresent_def)
  assume "pte_present (tab s P i j)"
  from tables_okD(7) [OF ok i this] obtain k where "k < used P" "points_to s P i j k" "path k = path i @ [j]" by blast
  then show "\<exists>k < used P. path k = path i @ [j] \<and> points_to s P i j k \<and>
      read_table s (slot s P i j) chk = Some (Some (PA2VA s (frame_pa P k)))"
    using null by (intro exI [of _ k])
      (simp add: read_table_def PteIsPresent_def PteGetPhysicalAddress_def PageSizeBit_def points_to_def)
qed

text \<open>How far the walk gets: it stops at an absent entry of one of the levels, or at the last table.\<close>

lemma walk_cases:
  assumes ok: "tables_ok J path s P" and J: "ix1 va \<in> J"
  obtains (absent1) "\<not> pte_present (tab s P 0 (ix1 va))" "leaf_entry s (BasePhysicalAddress P) va = None"
    | (absent2) k1 where "k1 < used P" "path k1 = [ix1 va]" "points_to s P 0 (ix1 va) k1"
        "\<not> pte_present (tab s P k1 (ix2 va))" "leaf_entry s (BasePhysicalAddress P) va = None"
    | (absent3) k1 k2 where "k1 < used P" "path k1 = [ix1 va]" "points_to s P 0 (ix1 va) k1"
        "k2 < used P" "path k2 = [ix1 va, ix2 va]" "points_to s P k1 (ix2 va) k2"
        "\<not> pte_present (tab s P k2 (ix3 va))" "leaf_entry s (BasePhysicalAddress P) va = None"
    | (last_table) k1 k2 k3 where "k1 < used P" "path k1 = [ix1 va]" "points_to s P 0 (ix1 va) k1"
        "k2 < used P" "path k2 = [ix1 va, ix2 va]" "points_to s P k1 (ix2 va) k2"
        "k3 < used P" "path k3 = [ix1 va, ix2 va, ix3 va]" "points_to s P k2 (ix3 va) k3"
        "leaf_entry s (BasePhysicalAddress P) va =
          (if pte_present (tab s P k3 (ix4 va)) then Some (tab s P k3 (ix4 va)) else None)"
proof -
  note d = tables_okD [OF ok]
  have in0: "inner J path 0 (ix1 va)" using J d(4) by (simp add: inner_def)
  show thesis
  proof (cases "pte_present (tab s P 0 (ix1 va))")
    case False
    then show thesis by (intro absent1) (simp_all add: leaf_entry_def base_frame [of P] entry_at_slot)
  next
    case True
    then obtain k1 where k1: "k1 < used P" "path k1 = [ix1 va]" "points_to s P 0 (ix1 va) k1"
      using d(7) [OF d(2) in0] d(4) by auto
    have in1: "inner J path k1 (ix2 va)" using k1 by (simp add: inner_def)
    show thesis
    proof (cases "pte_present (tab s P k1 (ix2 va))")
      case False
      with k1 show thesis
        by (intro absent2 [of k1]) (simp_all add: leaf_entry_def base_frame [of P] entry_at_slot points_to_def Let_def)
    next
      case True
      then obtain k2 where k2: "k2 < used P" "path k2 = [ix1 va, ix2 va]" "points_to s P k1 (ix2 va) k2"
        using d(7) [OF k1(1) in1] k1(2) by auto
      have in2: "inner J path k2 (ix3 va)" using k2 by (simp add: inner_def)
      show thesis
      proof (cases "pte_present (tab s P k2 (ix3 va))")
        case False
        with k1 k2 show thesis
          by (intro absent3 [of k1 k2]) (simp_all add: leaf_entry_def base_frame [of P] entry_at_slot points_to_def Let_def)
      next
        case True
        then obtain k3 where k3: "k3 < used P" "path k3 = [ix1 va, ix2 va, ix3 va]" "points_to s P k2 (ix3 va) k3"
          using d(7) [OF k2(1) in2] k2(2) by auto
        with k1 k2 show thesis
          by (intro last_table [of k1 k2 k3]) (simp_all add: leaf_entry_def base_frame [of P] entry_at_slot points_to_def Let_def)
      qed
    qed
  qed
qed

lemma read_points:
  assumes "tables_ok J path s P" and "i < used P" and "j < 512"
  shows "points_to s P i j k \<Longrightarrow> read_table s (slot s P i j) chk = Some (Some (PA2VA s (frame_pa P k)))"
    and "\<not> pte_present (tab s P i j) \<Longrightarrow> read_table s (slot s P i j) chk = Some None"
  using slot_ok [OF assms]
  by (simp_all add: read_table_def PteIsPresent_def PteGetPhysicalAddress_def PageSizeBit_def points_to_def)

lemma VmmGetPhysicalAddress_leaf:
  assumes ok: "tables_ok J path s P" and J: "ix1 va \<in> J" and cr3: "cr3_of P Cr3"
    and va: "va \<noteq> NULL" "IsAddressAligned va PAGE_SIZE"
  shows "VmmGetPhysicalAddress Cr3 va s =
    Some (case leaf_entry s (BasePhysicalAddress P) va of None \<Rightarrow> NULL | Some e \<Rightarrow> pte_address e)"
  using ok J
proof (cases rule: walk_cases)
  case absent1
  then show ?thesis using va read_points [OF ok tables_okD(2) [OF ok] ix_less(1)]
    by (simp add: VmmGetPhysicalAddress_def cr3_table_frame [OF cr3] entry_at_slot)
next
  case (absent2 k1)
  then show ?thesis using va read_points [OF ok tables_okD(2) [OF ok] ix_less(1)] read_points [OF ok absent2(1) ix_less(2)]
    by (simp add: VmmGetPhysicalAddress_def cr3_table_frame [OF cr3] entry_at_slot)
next
  case (absent3 k1 k2)
  then show ?thesis using va read_points [OF ok tables_okD(2) [OF ok] ix_less(1)] read_points [OF ok absent3(1) ix_less(2)]
      slot_ok [OF ok absent3(4) ix_less(3), of va]
    by (simp add: VmmGetPhysicalAddress_def cr3_table_frame [OF cr3] entry_at_slot PteIsPresent_def)
next
  case (last_table k1 k2 k3)
  then show ?thesis using va read_points [OF ok tables_okD(2) [OF ok] ix_less(1)] read_points [OF ok last_table(1) ix_less(2)]
      slot_ok [OF ok last_table(4) ix_less(3), of va] slot_ok [OF ok last_table(7) ix_less(4), of va]
    by (simp add: VmmGetPhysicalAddress_def cr3_table_frame [OF cr3] entry_at_slot PteIsPresent_def PageSizeBit_def
      PteGetPhysicalAddress_def points_to_def Let_def)
qed

section \<open>Unmapping\<close>

definition released :: "bool \<Rightarrow> QWORD option \<Rightarrow> (QWORD \<times> DWORD) list" where
  "released ReleaseMemory leaf =
     (case leaf of None \<Rightarrow> [] | Some e \<Rightarrow> if ReleaseMemory then [(pte_address e, 1)] else [])"

lemma unmap_absent:
  assumes "unmap_page Cr3 rel va s = Some s" and none: "leaf_entry s B va = None" and "tables_ok J path s P"
  shows "\<exists>s'. unmap_page Cr3 rel va s = Some s' \<and> tables_ok J path s' P \<and>
    (\<forall>vb. ix1 vb \<in> J \<longrightarrow> leaf_entry s' B vb = (if vpn vb = vpn va then None else leaf_entry s B vb)) \<and>
    ReleasedFrames s' = ReleasedFrames s @ released rel (leaf_entry s B va)"
proof (intro exI [of _ s] conjI allI impI)
  fix vb
  show "leaf_entry s B vb = (if vpn vb = vpn va then None else leaf_entry s B vb)"
    using none leaf_entry_vpn [of vb va s B] by simp
qed (use assms in \<open>simp_all add: released_def\<close>)

lemma unmap_page_ok:
  assumes ok: "tables_ok J path s P" and J: "ix1 va \<in> J" and cr3: "cr3_of P Cr3"
  shows "\<exists>s'. unmap_page Cr3 rel va s = Some s' \<and> tables_ok J path s' P \<and>
    (\<forall>vb. ix1 vb \<in> J \<longrightarrow> leaf_entry s' (BasePhysicalAddress P) vb =
      (if vpn vb = vpn va then None else leaf_entry s (BasePhysicalAddress P) vb)) \<and>
    ReleasedFrames s' = ReleasedFrames s @ released rel (leaf_entry s (BasePhysicalAddress P) va)"
proof -
  let ?leaf = "leaf_entry s (BasePhysicalAddress P)"
  show ?thesis
    using ok J
  proof (cases rule: walk_cases)
    case absent1
    then have stay: "unmap_page Cr3 rel va s = Some s"
      using read_points [OF ok tables_okD(2) [OF ok] ix_less(1)]
      by (simp add: unmap_page_def cr3_table_frame [OF cr3] entry_at_slot)
    show ?thesis by (rule unmap_absent [OF stay absent1(2) ok])
  next
    case (absent2 k1)
    then have stay: "unmap_page Cr3 rel va s = Some s"
      using read_points [OF ok tables_okD(2) [OF ok] ix_less(1)] read_points [OF ok absent2(1) ix_less(2)]
      by (simp add: unmap_page_def cr3_table_frame [OF cr3] entry_at_slot)
    show ?thesis by (rule unmap_absent [OF stay absent2(5) ok])
  next
    case (absent3 k1 k2)
    then have stay: "unmap_page Cr3 rel va s = Some s"
      using read_points [OF ok tables_okD(2) [OF ok] ix_less(1)] read_points [OF ok absent3(1) ix_less(2)]
        read_points [OF ok absent3(4) ix_less(3)]
      by (simp add: unmap_page_def cr3_table_frame [OF cr3] entry_at_slot)
    show ?thesis by (rule unmap_absent [OF stay absent3(8) ok])
  next
    case (last_table k1 k2 k3)
    let ?a = "slot s P k3 (ix4 va)"
    have null: "?a \<noteq> NULL" by (rule slot_ok [OF ok last_table(7) ix_less(4)])
    define s1 where "s1 = invlpg va (put_entry ?a 0 s)"
    define s' where "s' = (if rel then s1\<lparr>ReleasedFrames := ReleasedFrames s1 @ [(pte_address (Memory s ?a), 1)]\<rparr> else s1)"
    have run: "unmap_page Cr3 rel va s = (if pte_present (Memory s ?a) then Some s' else Some s)"
      using last_table null read_points [OF ok tables_okD(2) [OF ok] ix_less(1)] read_points [OF ok last_table(1) ix_less(2)]
        read_points [OF ok last_table(4) ix_less(3)]
      by (simp add: unmap_page_def cr3_table_frame [OF cr3] entry_at_slot PteIsPresent_def PteGetPhysicalAddress_def
        PteUnmap_def Let_def s1_def s'_def)
    show ?thesis
    proof (cases "pte_present (Memory s ?a)")
      case False
      then have "unmap_page Cr3 rel va s = Some s" "?leaf va = None" using run last_table(10) by simp_all
      then show ?thesis by (rule unmap_absent) (rule ok)
    next
      case True
      have s': "VirtualToPhysicalOffset s' = VirtualToPhysicalOffset s" "Memory s' = (Memory s)(?a := 0)"
        by (simp_all add: s'_def s1_def invlpg_def put_entry_def)
      have "ReleasedFrames s' = ReleasedFrames s @ released rel (?leaf va)"
        using True last_table(10) by (simp add: released_def s'_def s1_def invlpg_def put_entry_def)
      with tables_ok_leaf [OF ok last_table(7,8) s'] run True show ?thesis by auto
    qed
  qed
qed

lemma unmap_loop_ok:
  assumes "m \<le> 2 ^ 36" and "k \<le> m" and size: "unat Size = 4096 * m" and cr3: "cr3_of P Cr3"
    and "\<forall>q < m. ix1 (page_at base q) \<in> J" and "tables_ok J path s P"
  shows "\<exists>s'. unmap_loop Cr3 base Size rel (of_nat k * PAGE_SIZE) s = Some s' \<and> tables_ok J path s' P \<and>
    (\<forall>vb. ix1 vb \<in> J \<longrightarrow> leaf_entry s' (BasePhysicalAddress P) vb =
      (if \<exists>q. k \<le> q \<and> q < m \<and> vpn vb = vpn (page_at base q) then None else leaf_entry s (BasePhysicalAddress P) vb)) \<and>
    ReleasedFrames s' = ReleasedFrames s @
      concat (map (\<lambda>q. released rel (leaf_entry s (BasePhysicalAddress P) (page_at base q))) [k ..< m])"
  using assms(2,6)
proof (induction "m - k" arbitrary: k s)
  case 0
  have "unat (of_nat m * 0x1000 :: QWORD) = m * 4096"
    using unat_of_nat_small [of "m * 4096", where 'a = 64] assms(1) by simp
  then have "\<not> of_nat m * PAGE_SIZE < Size" using size by (simp add: word_less_nat_alt)
  moreover have "k = m" using 0 by simp
  ultimately show ?case using 0(3) by (intro exI [of _ s]) (auto simp: unmap_loop.simps)
next
  case (Suc d)
  let ?leaf = "leaf_entry s (BasePhysicalAddress P)"
  have km: "k < m" using Suc(2) by simp
  have "unat (of_nat k * 0x1000 :: QWORD) = k * 4096"
    using unat_of_nat_small [of "k * 4096", where 'a = 64] assms(1) km by simp
  then have less: "of_nat k * PAGE_SIZE < Size" using size km by (simp add: word_less_nat_alt)
  have J: "ix1 (page_at base k) \<in> J" using assms(5) km by blast
  obtain s1 where run1: "unmap_page Cr3 rel (page_at base k) s = Some s1" and ok1: "tables_ok J path s1 P"
    and leaf1: "\<And>vb. ix1 vb \<in> J \<Longrightarrow> leaf_entry s1 (BasePhysicalAddress P) vb =
      (if vpn vb = vpn (page_at base k) then None else ?leaf vb)"
    and rel1: "ReleasedFrames s1 = ReleasedFrames s @ released rel (?leaf (page_at base k))"
    using unmap_page_ok [OF Suc(4) J cr3] by blast
  have d: "d = m - Suc k" "Suc k \<le> m" using Suc(2) km by simp_all
  from Suc(1) [OF d ok1] obtain s' where
    run: "unmap_loop Cr3 base Size rel (of_nat (Suc k) * PAGE_SIZE) s1 = Some s'" and ok': "tables_ok J path s' P"
    and leaf': "\<And>vb. ix1 vb \<in> J \<Longrightarrow> leaf_entry s' (BasePhysicalAddress P) vb =
      (if \<exists>q. Suc k \<le> q \<and> q < m \<and> vpn vb = vpn (page_at base q) then None else leaf_entry s1 (BasePhysicalAddress P) vb)"
    and rel': "ReleasedFrames s' = ReleasedFrames s1 @
      concat (map (\<lambda>q. released rel (leaf_entry s1 (BasePhysicalAddress P) (page_at base q))) [Suc k ..< m])" by blast
  have "unmap_loop Cr3 base Size rel (of_nat k * PAGE_SIZE) s = Some s'"
    using less run1 run by (subst unmap_loop.simps) (simp add: add.commute)
  moreover have "leaf_entry s' (BasePhysicalAddress P) vb =
      (if \<exists>q. k \<le> q \<and> q < m \<and> vpn vb = vpn (page_at base q) then None else ?leaf vb)" if "ix1 vb \<in> J" for vb
  proof (cases "vpn vb = vpn (page_at base k)")
    case True
    then have "\<exists>q. k \<le> q \<and> q < m \<and> vpn vb = vpn (page_at base q)" using km by blast
    with True leaf' [OF that] leaf1 [OF that] show ?thesis by simp
  next
    case False
    then have ex: "(\<exists>q. k \<le> q \<and> q < m \<and> vpn vb = vpn (page_at base q)) \<longleftrightarrow>
        (\<exists>q. Suc k \<le> q \<and> q < m \<and> vpn vb = vpn (page_at base q))"
      by (metis Suc_leD Suc_leI le_neq_implies_less)
    show ?thesis unfolding ex leaf' [OF that] leaf1 [OF that] using False by (rule if_cong [OF refl refl if_not_P])
  qed
  moreover have "ReleasedFrames s' = ReleasedFrames s @
      concat (map (\<lambda>q. released rel (?leaf (page_at base q))) [k ..< m])"
  proof -
    have "leaf_entry s1 (BasePhysicalAddress P) (page_at base q) = ?leaf (page_at base q)" if "Suc k \<le> q" "q < m" for q
      using leaf1 [of "page_at base q"] assms(5) page_at_distinct [of k q base] that km assms(1) by auto
    then have tail: "map (\<lambda>q. released rel (leaf_entry s1 (BasePhysicalAddress P) (page_at base q))) [Suc k ..< m] =
        map (\<lambda>q. released rel (?leaf (page_at base q))) [Suc k ..< m]" by simp
    show ?thesis unfolding rel' tail rel1 upt_conv_Cons [OF km] by simp
  qed
  ultimately show ?case using ok' by blast
qed

section \<open>Empty tables\<close>

lemma tables_ok_empty:
  assumes "region_ok s P" and "used P = 1" and "0 < unat (NumberOfFrames P)" and "\<And>j. j < 512 \<Longrightarrow> tab s P 0 j = 0"
  shows "tables_ok J (\<lambda>_. []) s P"
  using assms by (auto simp: tables_ok_def inner_def inj_on_def pte_present_def get_bits_def)

definition demo_data :: PAGING_DATA where
  "demo_data = \<lparr>BasePhysicalAddress = 0x100000, NumberOfFrames = 8, CurrentIndex = 1, KernelSpace = True\<rparr>"

definition demo_memory :: paging_memory where
  "demo_memory = \<lparr>Memory = (\<lambda>_. 0), VirtualToPhysicalOffset = 0xFFFF800000000000, WriteBackIndex = 0,
     UncacheableIndex = 3, TlbInvalidated = [], ReleasedFrames = []\<rparr>"

lemma demo_fields:
  "used demo_data = 1" "unat (NumberOfFrames demo_data) = 8" "Memory demo_memory x = 0"
  "BasePhysicalAddress demo_data = 0x100000"
  by (simp_all add: demo_data_def demo_memory_def)

lemma demo_tables: "tables_ok UNIV (\<lambda>_. []) demo_memory demo_data"
  by (rule tables_ok_empty)
    (simp_all add: demo_fields region_ok_def PA2VA_def, simp_all add: demo_data_def demo_memory_def)

lemma demo_leaf: "leaf_entry demo_memory root va = None"
  by (simp add: leaf_entry_def demo_fields Let_def pte_present_def get_bits_def)

text \<open>The same tables with one page mapped.\<close>

lemma demo_mapped:
  obtains path P s e where "tables_ok UNIV path s P" "leaf_entry s (BasePhysicalAddress P) 0xFFFF900000003000 = Some e"
proof -
  have size: "unat (0x1000 :: QWORD) = 4096 * 1" by simp
  obtain P s path where ok: "tables_ok UNIV path s P" and
    "\<forall>vb q. 0 \<le> q \<and> q < 1 \<and> vpn vb = vpn (page_at 0xFFFF900000003000 q) \<longrightarrow>
       leaf_entry s (BasePhysicalAddress P) vb = Some (pte_value (page_at 0x7000 q) (page_flags demo_data 1 False demo_memory))"
    using map_loop_ok [OF _ _ size demo_tables, of 0 "0xFFFF900000003000" "0x7000" 1 False False]
    by (simp add: demo_fields demo_leaf) blast
  then have "leaf_entry s (BasePhysicalAddress P) 0xFFFF900000003000 =
      Some (pte_value (page_at 0x7000 0) (page_flags demo_data 1 False demo_memory))"
    by simp
  with ok show thesis by (rule that)
qed

section \<open>Properties\<close>

text \<open>The size of a range in pages: a multiple of the page size up to 2 ^ 48 bytes.\<close>

lemma size_pages:
  assumes "IsAddressAligned Size PAGE_SIZE" and "Size \<noteq> 0" and "unat Size \<le> 2 ^ 48"
  shows "unat Size = 4096 * (unat Size div 4096)" and "unat Size div 4096 \<le> 2 ^ 36"
  using assms by (simp_all add: IsAddressAligned_page dvd_mult_div_cancel)

text \<open>
  C21. Mapping is a refinement of updating the translation: in well-formed tables with three free
  frames per page, \<open>VmmMapMemoryInternal\<close> returns and keeps the tables well-formed; page \<open>q\<close> of the
  range is then translated by an entry for page \<open>q\<close> of the physical range with the rights and the
  caching asked for, unless it was mapped before and \<open>Invalidate\<close> is not set; and no other
  address of this tree changes its translation.
\<close>

theorem VmmMapMemoryInternal_maps:
  assumes "tables_ok J path s P" and "IsAddressAligned pa PAGE_SIZE" "IsAddressAligned Size PAGE_SIZE"
    and "Size \<noteq> 0" and "unat Size \<le> 2 ^ 48" and "\<forall>q < unat Size div 4096. ix1 (page_at base q) \<in> J"
    and "used P + 3 * (unat Size div 4096) \<le> unat (NumberOfFrames P)"
  shows "\<exists>P' s' path'. VmmMapMemoryInternal P pa Size base rights invalidate unc s = Some (P', s') \<and>
    tables_ok J path' s' P' \<and>
    (\<forall>q < unat Size div 4096. leaf_entry s' (BasePhysicalAddress P') (page_at base q) =
      (if invalidate \<or> leaf_entry s (BasePhysicalAddress P) (page_at base q) = None
       then Some (pte_value (page_at pa q) (page_flags P rights unc s))
       else leaf_entry s (BasePhysicalAddress P) (page_at base q))) \<and>
    (\<forall>va. ix1 va \<in> J \<longrightarrow> vpn va \<notin> (\<lambda>q. vpn (page_at base q)) ` {..< unat Size div 4096} \<longrightarrow>
      leaf_entry s' (BasePhysicalAddress P') va = leaf_entry s (BasePhysicalAddress P) va)"
proof -
  let ?m = "unat Size div 4096"
  note m = size_pages [OF assms(3-5)]
  have "used P + 3 * (?m - 0) \<le> unat (NumberOfFrames P)" using assms(7) by simp
  from map_loop_ok [OF m(2) le0 m(1) assms(1,6) this, of pa rights invalidate unc] obtain P' s' path' where
    run: "map_loop pa Size base rights invalidate unc 0 (P, s) = Some (P', s')" and ok: "tables_ok J path' s' P'"
    and leaf: "\<And>vb q. ix1 vb \<in> J \<Longrightarrow> q < ?m \<Longrightarrow> vpn vb = vpn (page_at base q) \<Longrightarrow> leaf_entry s' (BasePhysicalAddress P') vb =
         (if invalidate \<or> leaf_entry s (BasePhysicalAddress P) vb = None
          then Some (pte_value (page_at pa q) (page_flags P rights unc s)) else leaf_entry s (BasePhysicalAddress P) vb)"
    and other: "\<And>vb. ix1 vb \<in> J \<Longrightarrow> (\<forall>q < ?m. vpn vb \<noteq> vpn (page_at base q)) \<Longrightarrow>
         leaf_entry s' (BasePhysicalAddress P') vb = leaf_entry s (BasePhysicalAddress P) vb" by auto
  have "VmmMapMemoryInternal P pa Size base rights invalidate unc s = Some (P', s')"
    using run assms(2-4) by (simp add: VmmMapMemoryInternal_def)
  with ok leaf other assms(6) show ?thesis by blast
qed

theorem VmmMapMemoryInternal_maps_witness:
  "\<exists>P' s'. VmmMapMemoryInternal demo_data 0x7000 0x2000 0xFFFF900000003000 1 False False demo_memory = Some (P', s') \<and>
     leaf_entry s' (BasePhysicalAddress P') 0xFFFF900000004000 =
       Some (pte_value 0x8000 (page_flags demo_data 1 False demo_memory))"
proof -
  have "\<exists>P' s' path'. VmmMapMemoryInternal demo_data 0x7000 0x2000 0xFFFF900000003000 1 False False demo_memory = Some (P', s') \<and>
      tables_ok UNIV path' s' P' \<and>
      (\<forall>q < 2. leaf_entry s' (BasePhysicalAddress P') (page_at 0xFFFF900000003000 q) =
        Some (pte_value (page_at 0x7000 q) (page_flags demo_data 1 False demo_memory)))"
    using VmmMapMemoryInternal_maps [OF demo_tables, of "0x7000" "0x2000" "0xFFFF900000003000" 1 False False]
    by (simp add: demo_fields demo_leaf IsAddressAligned_page) blast
  then obtain P' s' where
    run: "VmmMapMemoryInternal demo_data 0x7000 0x2000 0xFFFF900000003000 1 False False demo_memory = Some (P', s')"
    and "\<forall>q < 2. leaf_entry s' (BasePhysicalAddress P') (page_at 0xFFFF900000003000 q) =
        Some (pte_value (page_at 0x7000 q) (page_flags demo_data 1 False demo_memory))" by blast
  from spec [OF this(2), of 1] run show ?thesis by simp
qed

text \<open>
  C22. Unmapping removes exactly the range: afterwards no page of it is translated, every other
  address of the tree keeps its translation, and with \<open>ReleaseMemory\<close> the frames of the pages that
  were mapped are handed back, each once and in order.
\<close>

theorem VmmUnmapMemoryEx_unmaps:
  assumes "tables_ok J path s P" and "cr3_of P Cr3" and "IsAddressAligned base PAGE_SIZE" "base \<noteq> NULL"
    and "IsAddressAligned Size PAGE_SIZE" "Size \<noteq> 0" "unat Size \<le> 2 ^ 48"
    and "\<forall>q < unat Size div 4096. ix1 (page_at base q) \<in> J"
  shows "\<exists>s'. VmmUnmapMemoryEx Cr3 base Size release s = Some s' \<and> tables_ok J path s' P \<and>
    (\<forall>va. ix1 va \<in> J \<longrightarrow> leaf_entry s' (BasePhysicalAddress P) va =
      (if vpn va \<in> (\<lambda>q. vpn (page_at base q)) ` {..< unat Size div 4096} then None
       else leaf_entry s (BasePhysicalAddress P) va)) \<and>
    ReleasedFrames s' = ReleasedFrames s @ concat (map (\<lambda>q. released release
      (leaf_entry s (BasePhysicalAddress P) (page_at base q))) [0 ..< unat Size div 4096])"
proof -
  let ?m = "unat Size div 4096"
  note m = size_pages [OF assms(5-7)]
  from unmap_loop_ok [OF m(2) le0 m(1) assms(2,8,1), of release] obtain s' where
    run: "unmap_loop Cr3 base Size release 0 s = Some s'" and ok: "tables_ok J path s' P"
    and leaf: "\<And>vb. ix1 vb \<in> J \<Longrightarrow> leaf_entry s' (BasePhysicalAddress P) vb =
      (if \<exists>q. 0 \<le> q \<and> q < ?m \<and> vpn vb = vpn (page_at base q) then None else leaf_entry s (BasePhysicalAddress P) vb)"
    and rel: "ReleasedFrames s' = ReleasedFrames s @
      concat (map (\<lambda>q. released release (leaf_entry s (BasePhysicalAddress P) (page_at base q))) [0 ..< ?m])" by auto
  have "VmmUnmapMemoryEx Cr3 base Size release s = Some s'"
    using run assms(3-6) by (simp add: VmmUnmapMemoryEx_def)
  moreover have "leaf_entry s' (BasePhysicalAddress P) va =
      (if vpn va \<in> (\<lambda>q. vpn (page_at base q)) ` {..< ?m} then None else leaf_entry s (BasePhysicalAddress P) va)"
    if "ix1 va \<in> J" for va using leaf [OF that] by (simp add: image_iff Bex_def)
  ultimately show ?thesis using ok rel by blast
qed

theorem VmmUnmapMemoryEx_unmaps_witness:
  "\<exists>(P :: PAGING_DATA) s e s'. leaf_entry s (BasePhysicalAddress P) 0xFFFF900000003000 = Some e \<and>
     VmmUnmapMemoryEx (BasePhysicalAddress P) 0xFFFF900000003000 0x1000 True s = Some s' \<and>
     leaf_entry s' (BasePhysicalAddress P) 0xFFFF900000003000 = None \<and>
     ReleasedFrames s' = ReleasedFrames s @ [(pte_address e, 1)]"
proof -
  obtain path P s e where ok: "tables_ok UNIV path s P" and e: "leaf_entry s (BasePhysicalAddress P) 0xFFFF900000003000 = Some e"
    by (rule demo_mapped)
  from VmmUnmapMemoryEx_unmaps [OF ok cr3_of_base [OF ok], of "0xFFFF900000003000" "0x1000" True] e
  have "\<exists>s'. VmmUnmapMemoryEx (BasePhysicalAddress P) 0xFFFF900000003000 0x1000 True s = Some s' \<and>
     leaf_entry s' (BasePhysicalAddress P) 0xFFFF900000003000 = None \<and>
     ReleasedFrames s' = ReleasedFrames s @ [(pte_address e, 1)]"
    by (fastforce simp: IsAddressAligned_page released_def lessThan_Suc)
  then obtain s' where "VmmUnmapMemoryEx (BasePhysicalAddress P) 0xFFFF900000003000 0x1000 True s = Some s'"
     "leaf_entry s' (BasePhysicalAddress P) 0xFFFF900000003000 = None"
     "ReleasedFrames s' = ReleasedFrames s @ [(pte_address e, 1)]" by (elim exE conjE)
  with e show ?thesis by (intro exI [of _ P] exI [of _ s] exI [of _ e] exI [of _ s'] conjI)
qed

end
