(* ===== verification/Vmm.thy ===== *)
theory Vmm
  imports Translation Pmm VmReservation
begin

text \<open>
  The virtual memory manager: \<^verbatim>\<open>HAL9000/src/vmm.c\<close> above the walks of \<open>PageTables\<close>, the operations
  of \<^verbatim>\<open>HAL9000/src/mmu.c\<close> that take its locks, and \<^verbatim>\<open>HAL9000/src/mdl.c\<close>.

  The state holds one physical memory manager, the memory of the paging structures, and by address
  the paging data and the reservation spaces of the kernel and of the processes. \<open>m_mmuData\<close> and
  \<open>m_vmmData\<close> are the addresses of the kernel's own; a NULL argument stands for them as in the code.
  A section under the lock of a \<open>PAGING_LOCK_DATA\<close> is one atomic step. Frames handed to
  \<open>MmuReleaseMemory\<close> are the list \<open>ReleasedFrames\<close> of the paging memory, which is the list the
  zeroing thread works off. Data that is cleared or read from a file through a virtual address, the
  pool memory given back and the files closed are listed in the state; the results of pool
  allocations and of reading a file are parameters.
\<close>

section \<open>The state\<close>

definition STATUS_INSUFFICIENT_MEMORY :: STATUS where "STATUS_INSUFFICIENT_MEMORY = 0x80100003"
definition STATUS_PHYSICAL_MEMORY_NOT_AVAILABLE :: STATUS where
  "STATUS_PHYSICAL_MEMORY_NOT_AVAILABLE = 0x80100007"
definition STATUS_PAT_LAYOUT_NOT_COMPATIBLE :: STATUS where "STATUS_PAT_LAYOUT_NOT_COMPATIBLE = 0x80100008"
definition STATUS_MEMORY_PREVENTS_USERMODE_ACCESS :: STATUS where
  "STATUS_MEMORY_PREVENTS_USERMODE_ACCESS = 0x80100011"
definition STATUS_MEMORY_INSUFFICIENT_ACCESS_RIGHTS :: STATUS where
  "STATUS_MEMORY_INSUFFICIENT_ACCESS_RIGHTS = 0x80100012"

lemma vmm_status_failed [simp]:
  "\<not> SUCCEEDED STATUS_INSUFFICIENT_MEMORY" "\<not> SUCCEEDED STATUS_PHYSICAL_MEMORY_NOT_AVAILABLE"
  "\<not> SUCCEEDED STATUS_PAT_LAYOUT_NOT_COMPATIBLE" "\<not> SUCCEEDED STATUS_MEMORY_PREVENTS_USERMODE_ACCESS"
  "\<not> SUCCEEDED STATUS_MEMORY_INSUFFICIENT_ACCESS_RIGHTS"
  by (simp_all add: SUCCEEDED_def FAIL_MASK_def STATUS_INSUFFICIENT_MEMORY_def
    STATUS_PHYSICAL_MEMORY_NOT_AVAILABLE_def STATUS_PAT_LAYOUT_NOT_COMPATIBLE_def
    STATUS_MEMORY_PREVENTS_USERMODE_ACCESS_def STATUS_MEMORY_INSUFFICIENT_ACCESS_RIGHTS_def)

abbreviation VMM_ALLOC_TYPE_NOT_LAZY :: DWORD where "VMM_ALLOC_TYPE_NOT_LAZY \<equiv> 4"
abbreviation PAGE_RIGHTS_READ :: DWORD where "PAGE_RIGHTS_READ \<equiv> 0"

text \<open>The members of \<open>PROCESS\<close> that the memory managers use.\<close>

record process_memory =
  ProcessPagingData :: PVOID
  ProcessVaSpace :: PVOID
  ProcessPcid :: WORD
  ProcessImageBase :: PVOID

record vm_system =
  PmmData :: PMM_DATA
  Paging :: paging_memory
  PagingDatas :: "PVOID \<Rightarrow> PAGING_DATA"
  VaSpaces :: "PVOID \<Rightarrow> VMM_RESERVATION_SPACE"
  m_mmuData :: PVOID
  m_vmmData :: PVOID
  Processes :: "PVOID \<Rightarrow> process_memory"
  CurrentProcess :: PVOID
  VmmMemoryAccess :: "bool option"
  IntrOff :: bool
  PageFaults :: QWORD
  Cr3Raw :: QWORD
  Cleared :: "(PVOID \<times> QWORD) list"
  PoolFreed :: "PVOID list"
  ClosedFiles :: "PVOID list"

definition kernel_or :: "PVOID \<Rightarrow> vm_system \<Rightarrow> PVOID" where
  "kernel_or PagingData s = (if PagingData = NULL then m_mmuData s else PagingData)"

definition system_or :: "PVOID \<Rightarrow> vm_system \<Rightarrow> PVOID" where
  "system_or VaSpace s = (if VaSpace = NULL then m_vmmData s else VaSpace)"

definition put_tables :: "PVOID \<Rightarrow> PAGING_DATA \<times> paging_memory \<Rightarrow> vm_system \<Rightarrow> vm_system" where
  "put_tables p ps s = s\<lparr>PagingDatas := (PagingDatas s)(p := fst ps), Paging := snd ps\<rparr>"

definition put_space :: "PVOID \<Rightarrow> VMM_RESERVATION_SPACE \<Rightarrow> vm_system \<Rightarrow> vm_system" where
  "put_space v rs s = s\<lparr>VaSpaces := (VaSpaces s)(v := rs)\<rparr>"

definition memzero_at :: "PVOID \<Rightarrow> QWORD \<Rightarrow> vm_system \<Rightarrow> vm_system" where
  "memzero_at a n s = s\<lparr>Cleared := Cleared s @ [(a, n)]\<rparr>"

section \<open>Mapping and translating under the lock\<close>

definition MmuMapMemoryInternal ::
    "QWORD \<Rightarrow> QWORD \<Rightarrow> DWORD \<Rightarrow> PVOID \<Rightarrow> bool \<Rightarrow> bool \<Rightarrow> PVOID \<Rightarrow> vm_system \<Rightarrow> vm_system option" where
  "MmuMapMemoryInternal PhysicalAddress sz Rights VirtualAddress Invalidate Uncach PagingData s = do {
     ASSERT (0 \<noteq> sz);
     ASSERT (IsAddressAligned sz PAGE_SIZE);
     ASSERT (NULL \<noteq> VirtualAddress);
     ASSERT (IsAddressAligned VirtualAddress PAGE_SIZE);
     let pPagingData = kernel_or PagingData s;
     ps \<leftarrow> VmmMapMemoryInternal (PagingDatas s pPagingData) PhysicalAddress sz VirtualAddress Rights Invalidate
             Uncach (Paging s);
     Some (put_tables pPagingData ps s)
   }"

text \<open>The size is rounded up to pages in a variable of 32 bits.\<close>

definition MmuUnmapMemoryEx :: "PVOID \<Rightarrow> QWORD \<Rightarrow> bool \<Rightarrow> PVOID \<Rightarrow> vm_system \<Rightarrow> vm_system option" where
  "MmuUnmapMemoryEx VirtualAddress sz ReleaseMemory PagingData s = do {
     ASSERT (VirtualAddress \<noteq> NULL);
     ASSERT (sz \<noteq> 0);
     let pPagingData = kernel_or PagingData s;
     let alignedVirtualAddress = AlignAddressLower VirtualAddress PAGE_SIZE;
     let alignmentDifferences = (ucast (VirtualAddress - alignedVirtualAddress) :: DWORD);
     let alignedSize = (ucast (AlignAddressUpper (sz + ucast alignmentDifferences) PAGE_SIZE) :: DWORD);
     let cr3 = BasePhysicalAddress (PagingDatas s pPagingData);
     M \<leftarrow> VmmUnmapMemoryEx cr3 alignedVirtualAddress (ucast alignedSize) ReleaseMemory (Paging s);
     Some (s\<lparr>Paging := M\<rparr>)
   }"

definition MmuReleaseMemory :: "QWORD \<Rightarrow> DWORD \<Rightarrow> vm_system \<Rightarrow> vm_system option" where
  "MmuReleaseMemory PhysicalAddr NoOfFrames s = do {
     ASSERT (IsAddressAligned PhysicalAddr PAGE_SIZE);
     ASSERT (0 \<noteq> NoOfFrames);
     Some (s\<lparr>Paging := (Paging s)\<lparr>ReleasedFrames := ReleasedFrames (Paging s) @ [(PhysicalAddr, NoOfFrames)]\<rparr>\<rparr>)
   }"

definition MmuGetPhysicalAddressEx :: "PVOID \<Rightarrow> PVOID \<Rightarrow> QWORD \<Rightarrow> vm_system \<Rightarrow> QWORD option" where
  "MmuGetPhysicalAddressEx VirtualAddress PagingData Cr3Base s =
     (if NULL = VirtualAddress then Some NULL
      else do {
        ASSERT ((PagingData \<noteq> NULL) \<noteq> (Cr3Base \<noteq> NULL));
        let alignedAddress = AlignAddressLower VirtualAddress PAGE_SIZE;
        let alignmentDifference = (ucast (AddressOffset VirtualAddress PAGE_SIZE) :: DWORD);
        let cr3 = (if PagingData \<noteq> NULL then BasePhysicalAddress (PagingDatas s PagingData) else Cr3Base);
        pa \<leftarrow> VmmGetPhysicalAddress cr3 alignedAddress (Paging s);
        Some (pa + ucast alignmentDifference)
      })"

definition MmuGetPhysicalAddress :: "PVOID \<Rightarrow> vm_system \<Rightarrow> QWORD option" where
  "MmuGetPhysicalAddress VirtualAddress s = MmuGetPhysicalAddressEx VirtualAddress NULL (Cr3Raw s) s"

definition VmmMapMemoryEx ::
    "PVOID \<Rightarrow> QWORD \<Rightarrow> QWORD \<Rightarrow> DWORD \<Rightarrow> bool \<Rightarrow> bool \<Rightarrow> vm_system \<Rightarrow> (PVOID \<times> vm_system) option" where
  "VmmMapMemoryEx PagingData PhysicalAddress sz Rights Invalidate Uncach s =
     (if PagingData = NULL then Some (NULL, s)
      else if \<not> IsAddressAligned PhysicalAddress PAGE_SIZE then Some (NULL, s)
      else if 0 = sz \<or> \<not> IsAddressAligned sz PAGE_SIZE then Some (NULL, s)
      else do {
        let (pVirtualAddress, rs) = VmReservationSpaceDetermineNextFreeVirtualAddress (VaSpaces s (m_vmmData s)) sz;
        let s = put_space (m_vmmData s) rs s;
        ASSERT (IsAddressAligned pVirtualAddress PAGE_SIZE);
        ps \<leftarrow> VmmMapMemoryInternal (PagingDatas s PagingData) PhysicalAddress sz pVirtualAddress Rights Invalidate
                Uncach (Paging s);
        Some (pVirtualAddress, put_tables PagingData ps s)
      })"

definition MmuMapMemoryEx ::
    "QWORD \<Rightarrow> QWORD \<Rightarrow> DWORD \<Rightarrow> bool \<Rightarrow> bool \<Rightarrow> PVOID \<Rightarrow> vm_system \<Rightarrow> (PVOID \<times> vm_system) option" where
  "MmuMapMemoryEx PhysicalAddress sz Rights Invalidate Uncach PagingData s = do {
     ASSERT (sz \<noteq> 0);
     let alignedPhysicalAddress = AlignAddressLower PhysicalAddress PAGE_SIZE;
     let alignmentDifferences = (ucast (AddressOffset PhysicalAddress PAGE_SIZE) :: DWORD);
     let alignedSize = AlignAddressUpper (sz + ucast alignmentDifferences) PAGE_SIZE;
     ASSERT (alignedPhysicalAddress < PmmGetHighestPhysicalMemoryAddressPresent (PmmData s) - alignedSize);
     let pPagingData = kernel_or PagingData s;
     (pCurPointer, s) \<leftarrow> VmmMapMemoryEx pPagingData alignedPhysicalAddress alignedSize Rights Invalidate Uncach s;
     Some (if NULL = pCurPointer then NULL else pCurPointer + ucast alignmentDifferences, s)
   }"

section \<open>Kernel and user addresses\<close>

definition VmIsKernelAddress :: "PVOID \<Rightarrow> bool" where
  "VmIsKernelAddress Address = IsBooleanFlagOn Address (push_bit 47 1)"

definition VmIsKernelRange :: "PVOID \<Rightarrow> QWORD \<Rightarrow> bool option" where
  "VmIsKernelRange Address RangeSize = do {
     ASSERT (RangeSize \<noteq> 0);
     Some (VmIsKernelAddress Address \<or> VmIsKernelAddress (Address + (RangeSize - 1)))
   }"

definition VmmRetrieveReservationSpaceForAddress :: "PVOID \<Rightarrow> vm_system \<Rightarrow> PVOID option" where
  "VmmRetrieveReservationSpaceForAddress VirtualAddress s =
     (if VmIsKernelAddress VirtualAddress then Some (m_vmmData s)
      else do {
        ASSERT (CurrentProcess s \<noteq> NULL);
        Some (ProcessVaSpace (Processes s (CurrentProcess s)))
      })"

definition VmmIsBufferValid :: "PVOID \<Rightarrow> QWORD \<Rightarrow> DWORD \<Rightarrow> PVOID \<Rightarrow> bool \<Rightarrow> vm_system \<Rightarrow> STATUS option" where
  "VmmIsBufferValid Buffer BufferSz RightsRequested ReservationSpace KernelAccess s = do {
     ASSERT (Buffer \<noteq> NULL);
     ASSERT (BufferSz \<noteq> 0);
     ASSERT (ReservationSpace \<noteq> NULL);
     kernel \<leftarrow> (if KernelAccess then Some False else VmIsKernelRange Buffer BufferSz);
     (if kernel then Some STATUS_MEMORY_PREVENTS_USERMODE_ACCESS
      else do {
        (status, rightsGranted) \<leftarrow> VmReservationReturnRightsForAddress (VaSpaces s ReservationSpace) Buffer BufferSz;
        (if \<not> SUCCEEDED status then Some status
         else (case rightsGranted of None \<Rightarrow> None
          | Some rights \<Rightarrow>
              Some (if \<not> IsBooleanFlagOn rights RightsRequested then STATUS_MEMORY_INSUFFICIENT_ACCESS_RIGHTS
                    else STATUS_SUCCESS)))
      })
   }"

definition MmuIsBufferValid :: "PVOID \<Rightarrow> QWORD \<Rightarrow> DWORD \<Rightarrow> PVOID \<Rightarrow> vm_system \<Rightarrow> STATUS option" where
  "MmuIsBufferValid Buffer BufferSz RightsRequested Process s =
     (if Buffer = NULL then Some STATUS_INVALID_PARAMETER1
      else if BufferSz = 0 then Some STATUS_INVALID_PARAMETER2
      else if Process = NULL then Some STATUS_INVALID_PARAMETER4
      else let p = Processes s Process
           in VmmIsBufferValid Buffer BufferSz RightsRequested (ProcessVaSpace p)
                (KernelSpace (PagingDatas s (ProcessPagingData p))) s)"

section \<open>Page faults\<close>

type_synonym file_reader = "PVOID \<Rightarrow> QWORD \<Rightarrow> QWORD \<Rightarrow> STATUS \<times> QWORD"

text \<open>The steps for an access that a reservation allows.\<close>

definition solve_access ::
    "file_reader \<Rightarrow> PVOID \<Rightarrow> PVOID \<Rightarrow> DWORD \<times> bool \<times> PVOID \<times> QWORD \<Rightarrow> vm_system \<Rightarrow> (bool \<times> vm_system) option" where
  "solve_access IoReadFile FaultingAddress PagingData = (\<lambda>(pageRights, uncach, pBackingFile, fileOffset) s. do {
     (pa, d) \<leftarrow> PmmReserveMemory (PmmData s) 1;
     ASSERT (NULL \<noteq> pa);
     let s = s\<lparr>PmmData := d\<rparr>;
     let alignedAddress = AlignAddressLower FaultingAddress PAGE_SIZE;
     s \<leftarrow> MmuMapMemoryInternal pa PAGE_SIZE pageRights alignedAddress True uncach PagingData s;
     let (status, bytesReadFromFile) =
       (if pBackingFile \<noteq> NULL then IoReadFile pBackingFile PAGE_SIZE fileOffset else (STATUS_SUCCESS, 0));
     (if \<not> SUCCEEDED status then Some (False, s)
      else do {
        ASSERT (pBackingFile \<noteq> NULL \<longrightarrow> bytesReadFromFile \<le> PAGE_SIZE);
        let s = (if bytesReadFromFile \<noteq> PAGE_SIZE
                 then memzero_at (alignedAddress + bytesReadFromFile) (PAGE_SIZE - bytesReadFromFile) s else s);
        Some (True, if VmmMemoryAccess s = None then s else s\<lparr>PageFaults := PageFaults s + 1\<rparr>)
      })
   })"

definition VmmSolvePageFault ::
    "file_reader \<Rightarrow> PVOID \<Rightarrow> DWORD \<Rightarrow> PVOID \<Rightarrow> vm_system \<Rightarrow> (bool \<times> vm_system) option" where
  "VmmSolvePageFault IoReadFile FaultingAddress RightsRequested PagingData s = do {
     ASSERT (IntrOff s);
     ASSERT (PagingData \<noteq> NULL);
     (if NULL = AlignAddressLower FaultingAddress PAGE_SIZE then Some (False, s)
      else if VmIsKernelAddress FaultingAddress \<and> \<not> KernelSpace (PagingDatas s PagingData) then Some (False, s)
      else if \<not> VmIsKernelAddress FaultingAddress \<and> KernelSpace (PagingDatas s PagingData) then Some (False, s)
      else do {
        space \<leftarrow> VmmRetrieveReservationSpaceForAddress FaultingAddress s;
        valid \<leftarrow> VmReservationCanAddressBeAccessed (VaSpaces s space) (VmmMemoryAccess s) FaultingAddress RightsRequested;
        (case valid of None \<Rightarrow> Some (False, s)
         | Some granted \<Rightarrow> solve_access IoReadFile FaultingAddress PagingData granted s)
      })
   }"

text \<open>The error code of the processor: bit 1 is a write, bit 2 user mode, bit 4 an instruction fetch.\<close>

definition MmuSolvePageFault :: "file_reader \<Rightarrow> PVOID \<Rightarrow> DWORD \<Rightarrow> vm_system \<Rightarrow> (bool \<times> vm_system) option" where
  "MmuSolvePageFault IoReadFile FaultingAddress ErrorCode s = do {
     ASSERT (IntrOff s);
     let rightsRequested = PAGE_RIGHTS_READ;
     let rightsRequested = rightsRequested OR (if bit ErrorCode 1 then PAGE_RIGHTS_WRITE else 0);
     let rightsRequested = rightsRequested OR (if bit ErrorCode 4 then PAGE_RIGHTS_EXECUTE else 0);
     VmmSolvePageFault IoReadFile FaultingAddress rightsRequested
       (if bit ErrorCode 2 then ProcessPagingData (Processes s (CurrentProcess s)) else m_mmuData s) s
   }"

end
