(* ===== verification/VmRegions.thy ===== *)
theory VmRegions
  imports Vmm
begin

text \<open>
  Regions of virtual memory: allocation and release (\<^verbatim>\<open>vmm.c\<close>), stacks, user buffers and address
  spaces of processes (\<^verbatim>\<open>mmu.c\<close>), and memory descriptor lists (\<^verbatim>\<open>mdl.c\<close>).
\<close>

section \<open>Memory descriptor lists\<close>

record MDL_TRANSLATION_PAIR =
  PairAddress :: QWORD
  NumberOfBytes :: DWORD

record MDL =
  MdlStartVa :: PVOID
  ByteCount :: DWORD
  ByteOffset :: DWORD
  Translations :: "MDL_TRANSLATION_PAIR list"

text \<open>
  The two loops of \<open>MdlAllocateEx\<close>: the first counts the runs of physically contiguous pages, the
  second stores them.
\<close>

partial_function (option) count_pairs ::
    "(PVOID \<Rightarrow> QWORD option) \<Rightarrow> PVOID \<Rightarrow> DWORD \<Rightarrow> DWORD \<Rightarrow> MDL_TRANSLATION_PAIR \<Rightarrow> DWORD \<Rightarrow> DWORD option" where
  "count_pairs pa_of pAlignedAddress alignedSize offset mdlCurPair noOfPairs =
     (if offset < alignedSize then do {
        pa \<leftarrow> pa_of (pAlignedAddress + ucast offset);
        ASSERT (NULL \<noteq> pa);
        (if PairAddress mdlCurPair + ucast (NumberOfBytes mdlCurPair) = pa then
           count_pairs pa_of pAlignedAddress alignedSize (offset + 0x1000)
             (mdlCurPair\<lparr>NumberOfBytes := NumberOfBytes mdlCurPair + 0x1000\<rparr>) noOfPairs
         else count_pairs pa_of pAlignedAddress alignedSize (offset + 0x1000)
             (mdlCurPair\<lparr>PairAddress := pa, NumberOfBytes := 0x1000\<rparr>) (noOfPairs + 1))
      }
      else Some noOfPairs)"

partial_function (option) store_pairs ::
    "(PVOID \<Rightarrow> QWORD option) \<Rightarrow> PVOID \<Rightarrow> DWORD \<Rightarrow> DWORD \<Rightarrow> MDL_TRANSLATION_PAIR \<Rightarrow> MDL_TRANSLATION_PAIR list \<Rightarrow>
     (MDL_TRANSLATION_PAIR list) option" where
  "store_pairs pa_of pAlignedAddress alignedSize offset mdlCurPair stored =
     (if offset < alignedSize then do {
        pa \<leftarrow> pa_of (pAlignedAddress + ucast offset);
        ASSERT (NULL \<noteq> pa);
        (if PairAddress mdlCurPair + ucast (NumberOfBytes mdlCurPair) = pa then
           store_pairs pa_of pAlignedAddress alignedSize (offset + 0x1000)
             (mdlCurPair\<lparr>NumberOfBytes := NumberOfBytes mdlCurPair + 0x1000\<rparr>) stored
         else store_pairs pa_of pAlignedAddress alignedSize (offset + 0x1000)
             (mdlCurPair\<lparr>PairAddress := pa, NumberOfBytes := 0x1000\<rparr>) (stored @ [mdlCurPair]))
      }
      else Some (stored @ [mdlCurPair]))"

text \<open>
  \<open>pool\<close> is what the pool allocation returns. Kernel memory is touched first, so that its pages are
  mapped; the page faults this takes are handled before the walk and are not part of the call.
\<close>

definition MdlAllocateEx ::
    "PVOID \<Rightarrow> PVOID \<Rightarrow> DWORD \<Rightarrow> QWORD \<Rightarrow> PVOID \<Rightarrow> vm_system \<Rightarrow> (MDL option) option" where
  "MdlAllocateEx pool VirtualAddress Len Cr3 PagingData s = do {
     ASSERT (NULL \<noteq> VirtualAddress);
     ASSERT (0 \<noteq> Len);
     ASSERT ((Cr3 \<noteq> NULL) \<noteq> (PagingData \<noteq> NULL));
     let pAlignedAddress = AlignAddressLower VirtualAddress PAGE_SIZE;
     let alignmentDifferences = (ucast (AddressOffset VirtualAddress PAGE_SIZE) :: DWORD);
     let alignedSize = (ucast (AlignAddressUpper (ucast (Len + alignmentDifferences)) PAGE_SIZE) :: DWORD);
     let bKernelMemory = (PagingData = NULL \<or> KernelSpace (PagingDatas s PagingData));
     let pa_of = (\<lambda>va. MmuGetPhysicalAddressEx va PagingData Cr3 s);
     first \<leftarrow> pa_of VirtualAddress;
     (if first = NULL then do {
        ASSERT (\<not> bKernelMemory);
        Some None
      }
      else do {
        let mdlCurPair = \<lparr>PairAddress = first, NumberOfBytes = 0x1000 - alignmentDifferences\<rparr>;
        noOfPairs \<leftarrow> count_pairs pa_of pAlignedAddress alignedSize 0x1000 mdlCurPair 1;
        (if pool = NULL then Some None
         else do {
           pairs \<leftarrow> store_pairs pa_of pAlignedAddress alignedSize 0x1000 mdlCurPair [];
           ASSERT (of_nat (length pairs) = noOfPairs);
           Some (Some \<lparr>MdlStartVa = pAlignedAddress, ByteCount = Len, ByteOffset = alignmentDifferences,
                       Translations = pairs\<rparr>)
         })
      })
   }"

definition MdlGetNumberOfPairs :: "MDL \<Rightarrow> DWORD" where
  "MdlGetNumberOfPairs Mdl = of_nat (length (Translations Mdl))"

definition MdlGetTranslationPair :: "MDL \<Rightarrow> DWORD \<Rightarrow> MDL_TRANSLATION_PAIR option" where
  "MdlGetTranslationPair Mdl Index =
     (if unat Index < length (Translations Mdl) then Some (Translations Mdl ! unat Index) else None)"

section \<open>Regions\<close>

fun run_effects :: "vm_effect list \<Rightarrow> vm_system \<Rightarrow> vm_system option" where
  "run_effects [] s = Some s"
| "run_effects (VmReservation.MmuUnmapMemoryEx buffer n # es) s = do {
     s \<leftarrow> MmuUnmapMemoryEx buffer (ucast n) True NULL s;
     run_effects es s
   }"
| "run_effects (IoCloseFile f # es) s = run_effects es (s\<lparr>ClosedFiles := ClosedFiles s @ [f]\<rparr>)"

text \<open>The call of \<open>VmReservationSpaceFreeRegion\<close> with what it does outside its module.\<close>

definition free_reservation ::
    "PVOID \<Rightarrow> PVOID \<Rightarrow> QWORD \<Rightarrow> DWORD \<Rightarrow> vm_system \<Rightarrow> (PVOID \<times> QWORD \<times> vm_system) option" where
  "free_reservation VaSpace Address sz FreeType s = do {
     (alignedAddress, alignedSize, effects, cpu, rs) \<leftarrow>
       VmReservationSpaceFreeRegion (VaSpaces s VaSpace) (VmmMemoryAccess s) Address sz FreeType;
     s \<leftarrow> run_effects effects ((put_space VaSpace rs s)\<lparr>VmmMemoryAccess := cpu\<rparr>);
     Some (alignedAddress, alignedSize, s)
   }"

fun map_pairs :: "PVOID \<Rightarrow> DWORD \<Rightarrow> PVOID \<Rightarrow> QWORD \<Rightarrow> MDL_TRANSLATION_PAIR list \<Rightarrow> vm_system \<Rightarrow> vm_system option" where
  "map_pairs Base Rights PagingData currentOffset [] s = Some s"
| "map_pairs Base Rights PagingData currentOffset (pair # pairs) s = do {
     let alignedPa = AlignAddressLower (PairAddress pair) PAGE_SIZE;
     let alignedPaSize = AlignAddressUpper (ucast (NumberOfBytes pair) + AddressOffset (PairAddress pair) PAGE_SIZE) PAGE_SIZE;
     s \<leftarrow> MmuMapMemoryInternal alignedPa alignedPaSize Rights (Base + currentOffset) False False PagingData s;
     map_pairs Base Rights PagingData (currentOffset + alignedPaSize) pairs s
   }"

definition VmmMapDescribedRegion :: "PVOID \<Rightarrow> MDL \<Rightarrow> DWORD \<Rightarrow> PVOID \<Rightarrow> vm_system \<Rightarrow> vm_system option" where
  "VmmMapDescribedRegion Base Mdl Rights PagingData s = do {
     ASSERT (Base \<noteq> NULL);
     ASSERT (IsAddressAligned Base PAGE_SIZE);
     map_pairs Base Rights PagingData 0 (Translations Mdl) s
   }"

text \<open>The clean-up after the file behind a region could not be read.\<close>

definition undo_region :: "PVOID \<Rightarrow> PVOID \<Rightarrow> PVOID \<Rightarrow> vm_system \<Rightarrow> (PVOID \<times> vm_system) option" where
  "undo_region VaSpace pBaseAddress PagingData s = do {
     (pAlignedAddress, alignedSize, s) \<leftarrow> free_reservation VaSpace pBaseAddress 0 VMM_FREE_TYPE_RELEASE s;
     ASSERT (pAlignedAddress = pBaseAddress);
     s \<leftarrow> MmuUnmapMemoryEx pAlignedAddress (ucast (ucast alignedSize :: DWORD)) True PagingData s;
     Some (NULL, s)
   }"

text \<open>Frames for a region that is mapped at once; when there are none the status stays success.\<close>

definition back_region ::
    "file_reader \<Rightarrow> PVOID \<Rightarrow> QWORD \<Rightarrow> DWORD \<Rightarrow> bool \<Rightarrow> PVOID \<Rightarrow> PVOID \<Rightarrow> PVOID \<Rightarrow> vm_system \<Rightarrow>
     (PVOID \<times> vm_system) option" where
  "back_region IoReadFile pBaseAddress alignedSize Rights Uncach FileObject VaSpace PagingData s = do {
     ASSERT (alignedSize div PAGE_SIZE \<le> ucast MAX_DWORD);
     let noOfFrames = ucast (alignedSize div PAGE_SIZE);
     (pa, d) \<leftarrow> PmmReserveMemory (PmmData s) noOfFrames;
     let s = s\<lparr>PmmData := d\<rparr>;
     (if NULL = pa then Some (pBaseAddress, s)
      else do {
        s \<leftarrow> MmuMapMemoryInternal pa alignedSize Rights pBaseAddress True Uncach PagingData s;
        (if FileObject = NULL then Some (pBaseAddress, s)
         else let (status, bytesRead) = IoReadFile FileObject alignedSize 0
              in if \<not> SUCCEEDED status then undo_region VaSpace pBaseAddress PagingData s
                 else do {
                   ASSERT (alignedSize - bytesRead \<le> ucast MAX_DWORD);
                   Some (pBaseAddress, memzero_at (pBaseAddress + bytesRead) (alignedSize - bytesRead) s)
                 })
      })
   }"

definition VmmAllocRegionEx ::
    "file_reader \<Rightarrow> PVOID \<Rightarrow> QWORD \<Rightarrow> DWORD \<Rightarrow> DWORD \<Rightarrow> bool \<Rightarrow> PVOID \<Rightarrow> PVOID \<Rightarrow> PVOID \<Rightarrow> MDL option \<Rightarrow>
     vm_system \<Rightarrow> (PVOID \<times> vm_system) option" where
  "VmmAllocRegionEx IoReadFile Base sz AllocType Rights Uncach FileObject VaSpace PagingData Mdl s = do {
     ASSERT (sz \<noteq> 0);
     ASSERT (IsFlagOn AllocType (VMM_ALLOC_TYPE_COMMIT OR VMM_ALLOC_TYPE_RESERVE));
     ASSERT (Mdl = None \<or> IsBooleanFlagOn AllocType VMM_ALLOC_TYPE_NOT_LAZY);
     ASSERT (Mdl = None \<or> FileObject = NULL);
     let pVaSpace = system_or VaSpace s;
     (status, region, cpu, rs) \<leftarrow>
       VmReservationSpaceAllocRegion (VaSpaces s pVaSpace) (VmmMemoryAccess s) Base sz AllocType Rights
         Uncach FileObject;
     let s = (put_space pVaSpace rs s)\<lparr>VmmMemoryAccess := cpu\<rparr>;
     (case region of None \<Rightarrow> Some (NULL, s)
      | Some (pBaseAddress, alignedSize) \<Rightarrow> do {
          ASSERT (NULL \<noteq> pBaseAddress);
          (if \<not> IsBooleanFlagOn AllocType VMM_ALLOC_TYPE_NOT_LAZY then Some (pBaseAddress, s)
           else do {
             ASSERT (IsBooleanFlagOn AllocType VMM_ALLOC_TYPE_COMMIT);
             (case Mdl of
                Some mdl \<Rightarrow> do {
                  ASSERT (ucast (ByteCount mdl) \<le> alignedSize);
                  s \<leftarrow> VmmMapDescribedRegion pBaseAddress mdl Rights PagingData s;
                  Some (pBaseAddress, s)
                }
              | None \<Rightarrow> back_region IoReadFile pBaseAddress alignedSize Rights Uncach FileObject pVaSpace PagingData s)
           })
        })
   }"

definition VmmFreeRegionEx ::
    "PVOID \<Rightarrow> QWORD \<Rightarrow> DWORD \<Rightarrow> bool \<Rightarrow> PVOID \<Rightarrow> PVOID \<Rightarrow> vm_system \<Rightarrow> vm_system option" where
  "VmmFreeRegionEx Address sz FreeType Release VaSpace PagingData s = do {
     ASSERT (Address \<noteq> NULL);
     ASSERT (IsBooleanFlagOn FreeType VMM_FREE_TYPE_RELEASE \<noteq> IsBooleanFlagOn FreeType VMM_FREE_TYPE_DECOMMIT);
     ASSERT ((IsBooleanFlagOn FreeType VMM_FREE_TYPE_RELEASE \<and> sz = 0) \<or>
             (IsBooleanFlagOn FreeType VMM_FREE_TYPE_DECOMMIT \<and> sz \<noteq> 0));
     (alignedAddress, alignedSize, s) \<leftarrow> free_reservation (system_or VaSpace s) Address sz FreeType s;
     (if IsFlagOn FreeType (VMM_FREE_TYPE_DECOMMIT OR VMM_FREE_TYPE_RELEASE) then do {
        ASSERT (NULL \<noteq> alignedAddress);
        ASSERT (0 \<noteq> alignedSize);
        MmuUnmapMemoryEx alignedAddress alignedSize Release PagingData s
      }
      else Some s)
   }"

definition VmmFreeRegion :: "PVOID \<Rightarrow> QWORD \<Rightarrow> DWORD \<Rightarrow> vm_system \<Rightarrow> vm_system option" where
  "VmmFreeRegion Address sz FreeType s = VmmFreeRegionEx Address sz FreeType True NULL NULL s"

section \<open>Stacks and user buffers\<close>

abbreviation STACK_GUARD_SIZE :: DWORD where "STACK_GUARD_SIZE \<equiv> 0x2000"

definition paging_of :: "PVOID \<Rightarrow> vm_system \<Rightarrow> PVOID" where
  "paging_of Process s = (if Process = NULL then m_mmuData s else ProcessPagingData (Processes s Process))"

definition space_of :: "PVOID \<Rightarrow> vm_system \<Rightarrow> PVOID" where
  "space_of Process s = (if Process = NULL then NULL else ProcessVaSpace (Processes s Process))"

definition MmuAllocStack ::
    "file_reader \<Rightarrow> DWORD \<Rightarrow> bool \<Rightarrow> bool \<Rightarrow> PVOID \<Rightarrow> vm_system \<Rightarrow> (PVOID \<times> vm_system) option" where
  "MmuAllocStack IoReadFile StackSize ProtectStack LazyMap Process s = do {
     ASSERT (IsAddressAligned (ucast StackSize) PAGE_SIZE);
     let stackGuardSize = (if ProtectStack then STACK_GUARD_SIZE else 0);
     let totalAllocationSize = StackSize + stackGuardSize;
     let allocTypeCommit = VMM_ALLOC_TYPE_COMMIT OR (if LazyMap then 0 else VMM_ALLOC_TYPE_NOT_LAZY);
     let pPagingData = paging_of Process s;
     let pVaSpace = space_of Process s;
     (pStackBase, s) \<leftarrow> VmmAllocRegionEx IoReadFile NULL (ucast totalAllocationSize) VMM_ALLOC_TYPE_RESERVE
       PAGE_RIGHTS_READWRITE False NULL pVaSpace pPagingData None s;
     (if NULL = pStackBase then Some (NULL, s)
      else do {
        (pCommitedStackBase, s) \<leftarrow> VmmAllocRegionEx IoReadFile (pStackBase + ucast stackGuardSize) (ucast StackSize)
          allocTypeCommit PAGE_RIGHTS_READWRITE False NULL pVaSpace pPagingData None s;
        Some (if NULL = pCommitedStackBase then NULL else pStackBase + ucast totalAllocationSize, s)
      })
   }"

definition MmuFreeStack :: "PVOID \<Rightarrow> PVOID \<Rightarrow> vm_system \<Rightarrow> vm_system option" where
  "MmuFreeStack Stack Process s = do {
     ASSERT (Stack \<noteq> NULL);
     VmmFreeRegionEx Stack 0 VMM_FREE_TYPE_RELEASE True (space_of Process s) (paging_of Process s) s
   }"

text \<open>The check after the allocation of the MDL tests the status, which is still success.\<close>

definition MmuGetSystemVirtualAddressForUserBuffer ::
    "file_reader \<Rightarrow> PVOID \<Rightarrow> PVOID \<Rightarrow> QWORD \<Rightarrow> DWORD \<Rightarrow> PVOID \<Rightarrow> PVOID \<Rightarrow> vm_system \<Rightarrow>
     (STATUS \<times> PVOID option \<times> vm_system) option" where
  "MmuGetSystemVirtualAddressForUserBuffer IoReadFile pool UserAddress sz Rights Process KernelAddress s =
     (if UserAddress = NULL then Some (STATUS_INVALID_PARAMETER1, None, s)
      else if sz = 0 then Some (STATUS_INVALID_PARAMETER2, None, s)
      else if Process = NULL then Some (STATUS_INVALID_PARAMETER3, None, s)
      else if KernelAddress = NULL then Some (STATUS_INVALID_PARAMETER4, None, s)
      else do {
        ASSERT (sz \<le> ucast MAX_DWORD);
        pMdl \<leftarrow> MdlAllocateEx pool UserAddress (ucast sz) NULL (ProcessPagingData (Processes s Process)) s;
        (pKernelAddress, s) \<leftarrow> VmmAllocRegionEx IoReadFile NULL sz
          (VMM_ALLOC_TYPE_RESERVE OR VMM_ALLOC_TYPE_COMMIT OR VMM_ALLOC_TYPE_NOT_LAZY) Rights False NULL NULL NULL pMdl s;
        let s = (if pMdl \<noteq> None then s\<lparr>PoolFreed := PoolFreed s @ [pool]\<rparr> else s);
        Some (if pKernelAddress = NULL then (STATUS_MEMORY_CANNOT_BE_COMMITED, None, s)
              else (STATUS_SUCCESS, Some (pKernelAddress + AddressOffset UserAddress PAGE_SIZE), s))
      })"

definition MmuFreeSystemVirtualAddressForUserBuffer :: "PVOID \<Rightarrow> vm_system \<Rightarrow> vm_system option" where
  "MmuFreeSystemVirtualAddressForUserBuffer KernelAddress s = do {
     ASSERT (KernelAddress \<noteq> NULL);
     VmmFreeRegionEx KernelAddress 0 VMM_FREE_TYPE_RELEASE False NULL NULL s
   }"

end
