(* ===== verification/VmmSpec.thy ===== *)
theory VmmSpec
  imports VmRegions
begin

text \<open>
  What the virtual memory manager promises: a page fault on memory that a reservation has committed
  maps one free frame with the rights of the reservation, every other fault is refused; a region can
  be used after its allocation, and after its release no page of it is mapped.
\<close>

section \<open>Mapping and unmapping a range\<close>

text \<open>The loops of \<open>Translation\<close> for whole ranges, as one update of the translation.\<close>

definition in_range :: "PVOID \<Rightarrow> nat \<Rightarrow> PVOID \<Rightarrow> bool" where
  "in_range base m va \<longleftrightarrow> (\<exists>q < m. vpn va = vpn (page_at base q))"

lemma map_range_ok:
  assumes "tables_ok J path s P" and "IsAddressAligned pa PAGE_SIZE" and "IsAddressAligned sz PAGE_SIZE" "sz \<noteq> 0"
    and "unat sz \<le> 2 ^ 48" and "\<forall>q < unat sz div 4096. ix1 (page_at base q) \<in> J"
    and "used P + 3 * (unat sz div 4096) \<le> unat (NumberOfFrames P)"
  shows "\<exists>P' s' path'. VmmMapMemoryInternal P pa sz base rights True unc s = Some (P', s') \<and>
    tables_ok J path' s' P' \<and> same_setup (P, s) (P', s') \<and> used P' \<le> used P + 3 * (unat sz div 4096) \<and>
    (\<forall>q vb. q < unat sz div 4096 \<longrightarrow> ix1 vb \<in> J \<longrightarrow> vpn vb = vpn (page_at base q) \<longrightarrow>
       leaf_entry s' (BasePhysicalAddress P') vb = Some (pte_value (page_at pa q) (page_flags P rights unc s))) \<and>
    (\<forall>vb. ix1 vb \<in> J \<longrightarrow> \<not> in_range base (unat sz div 4096) vb \<longrightarrow>
       leaf_entry s' (BasePhysicalAddress P') vb = leaf_entry s (BasePhysicalAddress P) vb)"
proof -
  let ?m = "unat sz div 4096"
  note m = size_pages [OF assms(3-5)]
  have "used P + 3 * (?m - 0) \<le> unat (NumberOfFrames P)" using assms(7) by simp
  from map_loop_ok [OF m(2) le0 m(1) assms(1,6) this, of pa rights True unc] obtain P' s' path' where
    run: "map_loop pa sz base rights True unc 0 (P, s) = Some (P', s')" and
    ok: "tables_ok J path' s' P'" "same_setup (P, s) (P', s')" "used P' \<le> used P + 3 * ?m" and
    leaf: "\<forall>vb. ix1 vb \<in> J \<longrightarrow>
      (\<forall>q. 0 \<le> q \<and> q < ?m \<and> vpn vb = vpn (page_at base q) \<longrightarrow> leaf_entry s' (BasePhysicalAddress P') vb =
         (if True \<or> leaf_entry s (BasePhysicalAddress P) vb = None
          then Some (pte_value (page_at pa q) (page_flags P rights unc s)) else leaf_entry s (BasePhysicalAddress P) vb)) \<and>
      ((\<forall>q. 0 \<le> q \<and> q < ?m \<longrightarrow> vpn vb \<noteq> vpn (page_at base q)) \<longrightarrow>
         leaf_entry s' (BasePhysicalAddress P') vb = leaf_entry s (BasePhysicalAddress P) vb)" by auto
  have "VmmMapMemoryInternal P pa sz base rights True unc s = Some (P', s')"
    using run assms(2-4) by (simp add: VmmMapMemoryInternal_def)
  moreover have "leaf_entry s' (BasePhysicalAddress P') vb = Some (pte_value (page_at pa q) (page_flags P rights unc s))"
    if "q < ?m" "ix1 vb \<in> J" "vpn vb = vpn (page_at base q)" for q vb using leaf that by simp
  moreover have "leaf_entry s' (BasePhysicalAddress P') vb = leaf_entry s (BasePhysicalAddress P) vb"
    if "ix1 vb \<in> J" "\<not> in_range base ?m vb" for vb using leaf that by (simp add: in_range_def)
  ultimately show ?thesis using ok by (intro exI [of _ P'] exI [of _ s'] exI [of _ path'] conjI allI impI) simp_all
qed

lemma unmap_range_ok:
  assumes "tables_ok J path s P" and "cr3_of P Cr3" and "IsAddressAligned base PAGE_SIZE" "base \<noteq> NULL"
    and "IsAddressAligned sz PAGE_SIZE" "sz \<noteq> 0" "unat sz \<le> 2 ^ 48"
    and "\<forall>q < unat sz div 4096. ix1 (page_at base q) \<in> J"
  shows "\<exists>s'. VmmUnmapMemoryEx Cr3 base sz release s = Some s' \<and> tables_ok J path s' P \<and>
    (\<forall>va. ix1 va \<in> J \<longrightarrow> leaf_entry s' (BasePhysicalAddress P) va =
      (if in_range base (unat sz div 4096) va then None else leaf_entry s (BasePhysicalAddress P) va)) \<and>
    ReleasedFrames s' = ReleasedFrames s @ concat (map (\<lambda>q. released release
      (leaf_entry s (BasePhysicalAddress P) (page_at base q))) [0 ..< unat sz div 4096])"
proof -
  note m = size_pages [OF assms(5-7)]
  from unmap_loop_ok [OF m(2) le0 m(1) assms(2,8,1), of release] show ?thesis
    using assms(3-6) by (simp add: VmmUnmapMemoryEx_def in_range_def)
qed

lemma page_size_aligned [simp]: "IsAddressAligned PAGE_SIZE PAGE_SIZE"
  by (simp add: IsAddressAligned_page)

lemma one_page:
  "in_range va 1 vb \<longleftrightarrow> vpn vb = vpn va" "unat PAGE_SIZE div 4096 = 1"
  by (simp_all add: in_range_def less_Suc_eq)

lemma map_one_page:
  assumes "tables_ok J path s P" and "IsAddressAligned pa PAGE_SIZE" and "ix1 va \<in> J"
    and "used P + 3 \<le> unat (NumberOfFrames P)"
  shows "\<exists>P' s' path'. VmmMapMemoryInternal P pa PAGE_SIZE va rights True unc s = Some (P', s') \<and>
    tables_ok J path' s' P' \<and> same_setup (P, s) (P', s') \<and> used P' \<le> used P + 3 \<and>
    (\<forall>vb. ix1 vb \<in> J \<longrightarrow> leaf_entry s' (BasePhysicalAddress P') vb =
       (if vpn vb = vpn va then Some (pte_value pa (page_flags P rights unc s))
        else leaf_entry s (BasePhysicalAddress P) vb))"
proof -
  have "\<forall>q < unat PAGE_SIZE div 4096. ix1 (page_at va q) \<in> J" "used P + 3 * (unat PAGE_SIZE div 4096) \<le> unat (NumberOfFrames P)"
    using assms(3,4) by (simp_all only: one_page) simp_all
  moreover have "IsAddressAligned PAGE_SIZE PAGE_SIZE" "unat PAGE_SIZE \<le> 2 ^ 48" by (simp_all add: IsAddressAligned_page)
  ultimately obtain P' s' path' where
    run: "VmmMapMemoryInternal P pa PAGE_SIZE va rights True unc s = Some (P', s')"
      "tables_ok J path' s' P'" "same_setup (P, s) (P', s')" "used P' \<le> used P + 3 * (unat PAGE_SIZE div 4096)" and
    page: "\<forall>q vb. q < unat PAGE_SIZE div 4096 \<longrightarrow> ix1 vb \<in> J \<longrightarrow> vpn vb = vpn (page_at va q) \<longrightarrow>
       leaf_entry s' (BasePhysicalAddress P') vb = Some (pte_value (page_at pa q) (page_flags P rights unc s))" and
    other: "\<forall>vb. ix1 vb \<in> J \<longrightarrow> \<not> in_range va (unat PAGE_SIZE div 4096) vb \<longrightarrow>
       leaf_entry s' (BasePhysicalAddress P') vb = leaf_entry s (BasePhysicalAddress P) vb"
    using map_range_ok [OF assms(1,2), of PAGE_SIZE va rights unc] by auto
  have "leaf_entry s' (BasePhysicalAddress P') vb = (if vpn vb = vpn va then Some (pte_value pa (page_flags P rights unc s))
        else leaf_entry s (BasePhysicalAddress P) vb)" if "ix1 vb \<in> J" for vb
    using page [THEN spec, of 0, THEN spec, of vb] other [THEN spec, of vb] that unfolding one_page by simp
  with run show ?thesis unfolding one_page by (intro exI [of _ P'] exI [of _ s'] exI [of _ path'] conjI allI impI) simp_all
qed

section \<open>Frames and entries\<close>

lemma reserve_frame:
  assumes "pmm_ok d" and zero: "0 \<notin> free_frames d" and free: "free_frames d \<noteq> {}"
  shows "\<exists>pa d'. PmmReserveMemory d 1 = Some (pa, d') \<and> pa \<noteq> NULL \<and> IsAddressAligned pa PAGE_SIZE \<and>
    frame_of pa \<in> free_frames d \<and> free_frames d' = free_frames d - {frame_of pa} \<and> pmm_ok d' \<and> frames d' = frames d"
proof -
  have "IsAddressAligned NULL PAGE_SIZE" by (simp add: IsAddressAligned_page)
  from PmmReserveMemoryEx_correct [OF assms(1) _ this, of 1] obtain pa d' where
    run: "PmmReserveMemoryEx d 1 NULL = Some (pa, d')" "pmm_ok d'" "frames d' = frames d" and
    cases: "pa = NULL \<and> d' = d \<and> (\<forall>k \<ge> frame_of NULL. \<not> {k ..< k + unat (1 :: DWORD)} \<subseteq> free_frames d) \<or>
     IsAddressAligned pa PAGE_SIZE \<and> NULL \<le> pa \<and> {frame_of pa ..< frame_of pa + unat (1 :: DWORD)} \<subseteq> free_frames d \<and>
      free_frames d' = free_frames d - {frame_of pa ..< frame_of pa + unat (1 :: DWORD)}" by auto
  have one: "{k ..< k + unat (1 :: DWORD)} = {k}" for k by auto
  obtain k where "k \<in> free_frames d" using free by blast
  then have "\<not> (\<forall>k \<ge> frame_of NULL. \<not> {k} \<subseteq> free_frames d)" by auto
  with cases have got: "IsAddressAligned pa PAGE_SIZE" "frame_of pa \<in> free_frames d"
      "free_frames d' = free_frames d - {frame_of pa}"
    unfolding one by simp_all
  have "pa \<noteq> NULL"
  proof
    assume "pa = NULL"
    then have "frame_of pa = 0" by simp
    with got(2) zero show False by metis
  qed
  with run got show ?thesis by (simp add: PmmReserveMemory_def)
qed

lemma frame_of_address: "IsAddressAligned pa PAGE_SIZE \<Longrightarrow> frame_of pa \<in> free_frames d \<Longrightarrow> frame_address pa"
proof -
  assume al: "IsAddressAligned pa PAGE_SIZE" and "frame_of pa \<in> free_frames d"
  then have "frame_of pa < 2 ^ 32"
    using unat_less_2p [of "BitCount (AllocationBitmap d)"] by (simp add: free_frames_def free_at_def)
  with al show ?thesis unfolding frame_address_def by (auto simp: IsAddressAligned_page)
qed

text \<open>What an entry grants: bit 1 is write, bit 63 forbids execution, bit 2 is user mode.\<close>

definition entry_grants :: "QWORD \<Rightarrow> DWORD \<Rightarrow> bool \<Rightarrow> bool" where
  "entry_grants e rights user \<longleftrightarrow> pte_present e \<and> (bit e 1 \<longleftrightarrow> IsBooleanFlagOn rights PAGE_RIGHTS_WRITE) \<and>
     (bit e 63 \<longleftrightarrow> \<not> IsBooleanFlagOn rights PAGE_RIGHTS_EXECUTE) \<and> (bit e 2 \<longleftrightarrow> user)"

lemma entry_grants_value: "entry_grants (pte_value pa (page_flags P rights unc s)) rights (\<not> KernelSpace P)"
  by (simp add: entry_grants_def pte_value_facts(1) bit_pte_value page_flags_def NO_FLAGS_def)


section \<open>Page faults\<close>

text \<open>
  The parts of the state a fault in the address space \<open>PD\<close> needs: the handler runs with interrupts
  off, the physical memory manager and the tables are well-formed, and the reservations of the space
  \<open>V\<close> are.
\<close>

definition vm_ready :: "nat set \<Rightarrow> (nat \<Rightarrow> nat list) \<Rightarrow> PVOID \<Rightarrow> PVOID \<Rightarrow> vm_system \<Rightarrow> bool" where
  "vm_ready J path PD V s \<longleftrightarrow> pmm_ok (PmmData s) \<and> 0 \<notin> free_frames (PmmData s) \<and> PD \<noteq> NULL \<and>
     tables_ok J path (Paging s) (PagingDatas s PD) \<and> space_ok (VaSpaces s V)"

abbreviation root_of :: "PVOID \<Rightarrow> vm_system \<Rightarrow> QWORD" where
  "root_of PD s \<equiv> BasePhysicalAddress (PagingDatas s PD)"

abbreviation translation :: "PVOID \<Rightarrow> vm_system \<Rightarrow> PVOID \<Rightarrow> QWORD option" where
  "translation PD s \<equiv> leaf_entry (Paging s) (root_of PD s)"

lemma page_start: "vpn (AlignAddressLower a PAGE_SIZE) = vpn a" "ix1 (AlignAddressLower a PAGE_SIZE) = ix1 a"
  "IsAddressAligned (AlignAddressLower a PAGE_SIZE) PAGE_SIZE"
proof -
  have u: "unat (AlignAddressLower a PAGE_SIZE) = unat a div 4096 * 4096"
    using unat_and_not_mask [of a 12] by (simp add: AlignAddressLower_def mask_eq_exp_minus_1)
  then show "vpn (AlignAddressLower a PAGE_SIZE) = vpn a" by (simp add: vpn_def)
  then show "ix1 (AlignAddressLower a PAGE_SIZE) = ix1 a" by (simp add: vpn_eq_iff)
  show "IsAddressAligned (AlignAddressLower a PAGE_SIZE) PAGE_SIZE" by (simp add: IsAddressAligned_page u)
qed

text \<open>The file behind a page can be read, and at most the page is read.\<close>

definition file_ok :: "file_reader \<Rightarrow> PVOID \<Rightarrow> bool" where
  "file_ok rd f \<longleftrightarrow> f = NULL \<or> (\<forall>off. SUCCEEDED (fst (rd f PAGE_SIZE off)) \<and> snd (rd f PAGE_SIZE off) \<le> PAGE_SIZE)"

definition finish_fault :: "PVOID \<Rightarrow> QWORD \<Rightarrow> vm_system \<Rightarrow> vm_system" where
  "finish_fault a n s =
     (let s = (if n \<noteq> PAGE_SIZE then memzero_at (AlignAddressLower a PAGE_SIZE + n) (PAGE_SIZE - n) s else s)
      in if VmmMemoryAccess s = None then s else s\<lparr>PageFaults := PageFaults s + 1\<rparr>)"

lemma finish_fault_fields:
  "PmmData (finish_fault a n s) = PmmData s" "Paging (finish_fault a n s) = Paging s"
  "PagingDatas (finish_fault a n s) = PagingDatas s" "VaSpaces (finish_fault a n s) = VaSpaces s"
  "Cleared (finish_fault a n s) =
     Cleared s @ (if n \<noteq> PAGE_SIZE then [(AlignAddressLower a PAGE_SIZE + n, PAGE_SIZE - n)] else [])"
  by (simp_all add: finish_fault_def memzero_at_def Let_def)

lemma solve_access_run:
  assumes "PmmReserveMemory (PmmData s) 1 = Some (pa, d)" and "pa \<noteq> NULL"
    and "MmuMapMemoryInternal pa PAGE_SIZE rights (AlignAddressLower a PAGE_SIZE) True unc PD (s\<lparr>PmmData := d\<rparr>) = Some s1"
  shows "solve_access rd a PD (rights, unc, f, off) s =
    (if f = NULL then Some (True, finish_fault a 0 s1)
     else if \<not> SUCCEEDED (fst (rd f PAGE_SIZE off)) then Some (False, s1)
     else if snd (rd f PAGE_SIZE off) \<le> PAGE_SIZE then Some (True, finish_fault a (snd (rd f PAGE_SIZE off)) s1)
     else None)"
proof (cases "f = NULL")
  case True
  then show ?thesis using assms by (simp add: solve_access_def Let_def finish_fault_def)
next
  case False
  obtain st n where "rd f PAGE_SIZE off = (st, n)" by fastforce
  with False show ?thesis using assms by (simp add: solve_access_def Let_def finish_fault_def)
qed

lemma solve_access_ok:
  assumes ready: "vm_ready J path PD V s" and free: "free_frames (PmmData s) \<noteq> {}"
    and room: "used (PagingDatas s PD) + 3 \<le> unat (NumberOfFrames (PagingDatas s PD))"
    and a: "ix1 a \<in> J" "AlignAddressLower a PAGE_SIZE \<noteq> NULL" and reads: "file_ok rd f"
  shows "\<exists>s' path' pa e. solve_access rd a PD (rights, unc, f, off) s = Some (True, s') \<and>
    vm_ready J path' PD V s' \<and> VaSpaces s' = VaSpaces s \<and>
    frame_of pa \<in> free_frames (PmmData s) \<and> free_frames (PmmData s') = free_frames (PmmData s) - {frame_of pa} \<and>
    translation PD s' a = Some e \<and> pte_address e = pa \<and> entry_grants e rights (\<not> KernelSpace (PagingDatas s PD)) \<and>
    (\<forall>vb. ix1 vb \<in> J \<longrightarrow> vpn vb \<noteq> vpn a \<longrightarrow> translation PD s' vb = translation PD s vb) \<and>
    (f = NULL \<longrightarrow> Cleared s' = Cleared s @ [(AlignAddressLower a PAGE_SIZE, PAGE_SIZE)])"
proof -
  let ?P = "PagingDatas s PD" and ?page = "AlignAddressLower a PAGE_SIZE"
  note r = ready [unfolded vm_ready_def]
  obtain pa d where pa: "PmmReserveMemory (PmmData s) 1 = Some (pa, d)" "pa \<noteq> NULL" "IsAddressAligned pa PAGE_SIZE"
    "frame_of pa \<in> free_frames (PmmData s)" "free_frames d = free_frames (PmmData s) - {frame_of pa}" "pmm_ok d"
    using reserve_frame [of "PmmData s"] r free by blast
  have ix: "ix1 ?page \<in> J" using a by (simp add: page_start)
  obtain P' M' path' where map: "VmmMapMemoryInternal ?P pa PAGE_SIZE ?page rights True unc (Paging s) = Some (P', M')"
    "tables_ok J path' M' P'" and
    leaf: "\<And>vb. ix1 vb \<in> J \<Longrightarrow> leaf_entry M' (BasePhysicalAddress P') vb =
       (if vpn vb = vpn ?page then Some (pte_value pa (page_flags ?P rights unc (Paging s)))
        else leaf_entry (Paging s) (BasePhysicalAddress ?P) vb)"
    using map_one_page [OF _ pa(3) ix room, of path "Paging s" rights unc] r by blast
  have pd: "kernel_or PD s' = PD" for s' using r by (simp add: kernel_or_def)
  let ?s1 = "put_tables PD (P', M') (s\<lparr>PmmData := d\<rparr>)"
  have mapped: "MmuMapMemoryInternal pa PAGE_SIZE rights ?page True unc PD (s\<lparr>PmmData := d\<rparr>) = Some ?s1"
    using map(1) a(2) by (simp add: MmuMapMemoryInternal_def pd page_start)
  define n where "n = (if f = NULL then 0 else snd (rd f PAGE_SIZE off))"
  define s' where "s' = finish_fault a n ?s1"
  have fields: "PmmData s' = d" "Paging s' = M'" "VaSpaces s' = VaSpaces s" "PagingDatas s' = (PagingDatas s)(PD := P')"
    "Cleared s' = Cleared s @ (if n \<noteq> PAGE_SIZE then [(?page + n, PAGE_SIZE - n)] else [])"
    by (simp_all add: s'_def finish_fault_fields put_tables_def)
  have run: "solve_access rd a PD (rights, unc, f, off) s = Some (True, s')"
    unfolding solve_access_run [OF pa(1,2) mapped] using reads by (auto simp: file_ok_def n_def s'_def)
  have ready': "vm_ready J path' PD V s'"
    using r pa(5,6) map(2) by (simp add: vm_ready_def fields)
  have entry: "translation PD s' a = Some (pte_value pa (page_flags ?P rights unc (Paging s)))"
    using leaf [OF a(1)] by (simp add: fields page_start)
  have others: "translation PD s' vb = translation PD s vb" if "ix1 vb \<in> J" "vpn vb \<noteq> vpn a" for vb
    using leaf [OF that(1)] that(2) by (simp add: fields page_start)
  have "pte_address (pte_value pa (page_flags ?P rights unc (Paging s))) = pa"
    using frame_of_address [OF pa(3,4)] by simp
  with run ready' entry others pa(4,5) show ?thesis
    by (intro exI [of _ s'] exI [of _ path'] exI [of _ pa] exI [of _ "pte_value pa (page_flags ?P rights unc (Paging s))"])
      (simp add: fields entry_grants_value n_def)
qed

text \<open>The reservations that decide about an address, and the accesses they allow to an address space.\<close>

definition fault_space :: "PVOID \<Rightarrow> vm_system \<Rightarrow> PVOID" where
  "fault_space a s = (if VmIsKernelAddress a then m_vmmData s else ProcessVaSpace (Processes s (CurrentProcess s)))"

definition may_access :: "PVOID \<Rightarrow> PVOID \<Rightarrow> DWORD \<Rightarrow> vm_system \<Rightarrow> nat \<Rightarrow> bool" where
  "may_access PD a rights s i \<longleftrightarrow> AlignAddressLower a PAGE_SIZE \<noteq> NULL \<and>
     (VmIsKernelAddress a \<longleftrightarrow> KernelSpace (PagingDatas s PD)) \<and> accessible (VaSpaces s (fault_space a s)) i a rights"

abbreviation in_metadata :: "VMM_RESERVATION_SPACE \<Rightarrow> PVOID \<Rightarrow> bool" where
  "in_metadata rs a \<equiv> CHECK_BOUNDS a 1 (ReservationList rs) (ReservedAreaSize rs)"

lemma fault_space_retrieved:
  "CurrentProcess s \<noteq> NULL \<Longrightarrow> VmmRetrieveReservationSpaceForAddress a s = Some (fault_space a s)"
  by (simp add: VmmRetrieveReservationSpaceForAddress_def fault_space_def)

lemma page_not_null: "AlignAddressLower a PAGE_SIZE \<noteq> NULL \<Longrightarrow> a \<noteq> NULL"
  by (auto simp: AlignAddressLower_def)

lemma VmmSolvePageFault_allowed:
  assumes "IntrOff s" "PD \<noteq> NULL" "CurrentProcess s \<noteq> NULL" and ok: "space_ok (VaSpaces s (fault_space a s))"
    and out: "\<not> in_metadata (VaSpaces s (fault_space a s)) a" and may: "may_access PD a rights s i"
  shows "\<exists>off. VmmSolvePageFault rd a rights PD s =
    (let r = Entries (VaSpaces s (fault_space a s)) i
     in solve_access rd a PD (PageRights r, Uncacheable r, BackingFile r, off) s)"
proof -
  have acc: "accessible (VaSpaces s (fault_space a s)) i a rights" "a \<noteq> NULL"
    using may page_not_null by (simp_all add: may_access_def)
  then have "first_hit (VaSpaces s (fault_space a s)) a 1 i" by (simp add: accessible_def)
  from access_first_hit [OF ok acc(2) out this, of "VmmMemoryAccess s" rights] acc(1)
  show ?thesis using assms(1-3) may
    by (auto simp: VmmSolvePageFault_def fault_space_retrieved may_access_def Let_def)
qed

lemma VmmSolvePageFault_refused:
  assumes "IntrOff s" "PD \<noteq> NULL" "CurrentProcess s \<noteq> NULL" and ok: "space_ok (VaSpaces s (fault_space a s))"
    and out: "\<not> in_metadata (VaSpaces s (fault_space a s)) a" and no: "\<nexists>i. may_access PD a rights s i"
  shows "VmmSolvePageFault rd a rights PD s = Some (False, s)"
proof (cases "AlignAddressLower a PAGE_SIZE \<noteq> NULL \<and> (VmIsKernelAddress a \<longleftrightarrow> KernelSpace (PagingDatas s PD))")
  case False
  then show ?thesis using assms(1-3) by (auto simp: VmmSolvePageFault_def)
next
  case True
  let ?rs = "VaSpaces s (fault_space a s)"
  have a: "a \<noteq> NULL" using True page_not_null by blast
  have none: "\<nexists>i. accessible ?rs i a rights" using no True by (simp add: may_access_def)
  have "VmReservationCanAddressBeAccessed ?rs (VmmMemoryAccess s) a rights = Some None"
  proof (cases "\<exists>i. first_hit ?rs a 1 i")
    case True
    then show ?thesis using access_first_hit [OF ok a out] none by fastforce
  qed (rule access_no_hit [OF ok a out])
  then show ?thesis using assms(1-3) True by (auto simp: VmmSolvePageFault_def fault_space_retrieved)
qed

text \<open>
  The one access that is granted without a reservation: an access, not to execute, to the metadata of
  the reservations (their list and the commit bitmaps), while the CPU works on it
  (\<open>VmmMemoryAccess\<close>) or before the data of the CPU exists.
\<close>

definition metadata_access :: "PVOID \<Rightarrow> PVOID \<Rightarrow> DWORD \<Rightarrow> vm_system \<Rightarrow> bool" where
  "metadata_access PD a rights s \<longleftrightarrow> AlignAddressLower a PAGE_SIZE \<noteq> NULL \<and>
     (VmIsKernelAddress a \<longleftrightarrow> KernelSpace (PagingDatas s PD)) \<and> in_metadata (VaSpaces s (fault_space a s)) a \<and>
     VmmMemoryAccess s \<noteq> Some False \<and> \<not> IsBooleanFlagOn rights PAGE_RIGHTS_EXECUTE"

lemma VmmSolvePageFault_metadata:
  assumes "IntrOff s" "PD \<noteq> NULL" "CurrentProcess s \<noteq> NULL" and "in_metadata (VaSpaces s (fault_space a s)) a"
  shows "VmmSolvePageFault rd a rights PD s =
    (if metadata_access PD a rights s then solve_access rd a PD (PAGE_RIGHTS_READWRITE, False, NULL, 0) s
     else Some (False, s))"
proof (cases "AlignAddressLower a PAGE_SIZE \<noteq> NULL \<and> (VmIsKernelAddress a \<longleftrightarrow> KernelSpace (PagingDatas s PD))")
  case False
  then show ?thesis using assms(1-3) by (auto simp: VmmSolvePageFault_def metadata_access_def)
next
  case True
  then have "a \<noteq> NULL" using page_not_null by blast
  then have "VmReservationCanAddressBeAccessed (VaSpaces s (fault_space a s)) (VmmMemoryAccess s) a rights =
      Some (if metadata_access PD a rights s then Some (PAGE_RIGHTS_READWRITE, False, NULL, 0) else None)"
    using assms(4) True by (simp add: VmReservationCanAddressBeAccessed_def metadata_access_def)
  then show ?thesis using assms(1-3) True by (auto simp: VmmSolvePageFault_def fault_space_retrieved)
qed

section \<open>Allocating and releasing regions\<close>

lemma MmuUnmapMemoryEx_ok:
  assumes ok: "tables_ok J path (Paging s) (PagingDatas s p)" and p: "kernel_or PD s = p"
    and va: "va \<noteq> NULL" "4096 dvd unat va" and sz: "sz \<noteq> 0" "unat sz + 4095 < 2 ^ 32"
    and J: "\<forall>q < (unat sz + 4095) div 4096. ix1 (page_at va q) \<in> J"
  shows "\<exists>M. MmuUnmapMemoryEx va sz rel PD s = Some (s\<lparr>Paging := M\<rparr>) \<and> tables_ok J path M (PagingDatas s p) \<and>
    (\<forall>vb. ix1 vb \<in> J \<longrightarrow> leaf_entry M (root_of p s) vb =
       (if in_range va ((unat sz + 4095) div 4096) vb then None else translation p s vb)) \<and>
    ReleasedFrames M = ReleasedFrames (Paging s) @
      concat (map (\<lambda>q. released rel (translation p s (page_at va q))) [0 ..< (unat sz + 4095) div 4096])"
proof -
  let ?m = "(unat sz + 4095) div 4096"
  have lower: "AlignAddressLower va PAGE_SIZE = va"
  proof -
    have "unat (AlignAddressLower va PAGE_SIZE) = unat va div 4096 * 4096"
      using unat_and_not_mask [of va 12] by (simp add: AlignAddressLower_def mask_eq_exp_minus_1)
    then show ?thesis using va(2) by (metis dvd_div_mult_self word_unat_eq_iff)
  qed
  define asz where "asz = AlignAddressUpper sz PAGE_SIZE"
  have ua: "unat asz = ?m * 4096"
    unfolding asz_def using sz(2) by (intro unat_AlignAddressUpper_page) simp
  have m: "?m * 4096 < 2 ^ 32" "0 < ?m" using sz by (auto simp: unat_gt_0 [symmetric])
  have cast: "ucast (ucast asz :: DWORD) = asz"
  proof -
    have "unat (ucast asz :: DWORD) = unat asz" using m ua by (simp add: unat_ucast_mod)
    then have "unat (ucast (ucast asz :: DWORD) :: QWORD) = unat asz" by (simp add: unat_ucast_up)
    then show ?thesis by (simp only: word_unat_eq_iff)
  qed
  have al: "IsAddressAligned asz PAGE_SIZE" "asz \<noteq> 0" "IsAddressAligned va PAGE_SIZE" "unat asz div 4096 = ?m"
    using ua m(2) va(2) by (auto simp: IsAddressAligned_page)
  have "unat asz \<le> 2 ^ 48" using ua m(1) by simp
  from unmap_range_ok [OF ok cr3_of_base [OF ok] al(3) va(1) al(1,2) this, of rel] J al(4)
  obtain M where M: "VmmUnmapMemoryEx (root_of p s) va asz rel (Paging s) = Some M" "tables_ok J path M (PagingDatas s p)"
    "\<forall>vb. ix1 vb \<in> J \<longrightarrow> leaf_entry M (root_of p s) vb = (if in_range va ?m vb then None else translation p s vb)"
    "ReleasedFrames M = ReleasedFrames (Paging s) @
      concat (map (\<lambda>q. released rel (translation p s (page_at va q))) [0 ..< ?m])" by auto
  have "MmuUnmapMemoryEx va sz rel PD s = Some (s\<lparr>Paging := M\<rparr>)"
    using M(1) va(1) sz(1) by (simp add: MmuUnmapMemoryEx_def p lower cast [unfolded asz_def] asz_def [symmetric] cast)
  with M show ?thesis by blast
qed

text \<open>The frames that unmapping a range hands back.\<close>

definition mapped_frames :: "PVOID \<Rightarrow> vm_system \<Rightarrow> bool \<Rightarrow> PVOID \<Rightarrow> nat \<Rightarrow> (QWORD \<times> DWORD) list" where
  "mapped_frames p s rel base m = concat (map (\<lambda>q. released rel (translation p s (page_at base q))) [0 ..< m])"

lemma kernel_region_unmapped:
  assumes ok: "tables_ok J path (Paging s) (PagingDatas s (m_mmuData s))" and r: "reservation_ok r"
    and small: "unat (Size r) < 2 ^ 32" and buf: "BitmapBuffer (CommitBitmap r) \<noteq> NULL"
      "BufferSize (CommitBitmap r) \<noteq> 0" "unat (BufferSize (CommitBitmap r)) + 4095 < 2 ^ 32"
    and J1: "\<forall>q < (unat (BufferSize (CommitBitmap r)) + 4095) div 4096. ix1 (page_at (BitmapBuffer (CommitBitmap r)) q) \<in> J"
    and J2: "\<forall>q < unat (Size r) div 4096. ix1 (page_at (StartVa r) q) \<in> J"
    and apart: "\<forall>q < unat (Size r) div 4096. \<not> in_range (BitmapBuffer (CommitBitmap r))
      ((unat (BufferSize (CommitBitmap r)) + 4095) div 4096) (page_at (StartVa r) q)"
  shows "\<exists>M. run_effects (VmReservation.MmuUnmapMemoryEx (BitmapBuffer (CommitBitmap r)) (BufferSize (CommitBitmap r)) #
        (if BackingFile r = NULL then [] else [IoCloseFile (BackingFile r)])) s = Some (s\<lparr>Paging := fst M,
          ClosedFiles := ClosedFiles s @ (if BackingFile r = NULL then [] else [BackingFile r])\<rparr>) \<and>
    MmuUnmapMemoryEx (StartVa r) (Size r) rel NULL (s\<lparr>Paging := fst M,
          ClosedFiles := ClosedFiles s @ (if BackingFile r = NULL then [] else [BackingFile r])\<rparr>) =
      Some (s\<lparr>Paging := snd M,
          ClosedFiles := ClosedFiles s @ (if BackingFile r = NULL then [] else [BackingFile r])\<rparr>) \<and>
    tables_ok J path (snd M) (PagingDatas s (m_mmuData s)) \<and>
    (\<forall>vb. ix1 vb \<in> J \<longrightarrow> leaf_entry (snd M) (root_of (m_mmuData s) s) vb =
      (if in_range (StartVa r) (unat (Size r) div 4096) vb \<or>
          in_range (BitmapBuffer (CommitBitmap r)) ((unat (BufferSize (CommitBitmap r)) + 4095) div 4096) vb
       then None else translation (m_mmuData s) s vb)) \<and>
    ReleasedFrames (snd M) = ReleasedFrames (Paging s) @
      mapped_frames (m_mmuData s) s True (BitmapBuffer (CommitBitmap r)) ((unat (BufferSize (CommitBitmap r)) + 4095) div 4096) @
      mapped_frames (m_mmuData s) s rel (StartVa r) (unat (Size r) div 4096)"
proof -
  let ?k = "m_mmuData s" and ?b = "BitmapBuffer (CommitBitmap r)" and ?n = "BufferSize (CommitBitmap r)"
  let ?mb = "(unat ?n + 4095) div 4096" and ?m = "unat (Size r) div 4096"
  let ?c = "ClosedFiles s @ (if BackingFile r = NULL then [] else [BackingFile r])"
  have un: "unat (ucast ?n :: QWORD) = unat ?n" by (simp add: unat_ucast_up)
  have k: "kernel_or NULL s' = m_mmuData s'" for s' by (simp add: kernel_or_def)
  have n0: "ucast ?n \<noteq> (0 :: QWORD)" using buf(2) un by (metis unat_eq_0 unsigned_0)
  have b: "4096 dvd unat ?b" "4096 dvd unat (StartVa r)" "StartVa r \<noteq> NULL" "Size r \<noteq> 0" "4096 dvd unat (Size r)"
    using r by (simp_all add: reservation_ok_def)
  from MmuUnmapMemoryEx_ok [OF ok k buf(1) b(1) n0, of True] buf(3) J1 obtain M1 where
    M1: "MmuUnmapMemoryEx ?b (ucast ?n) True NULL s = Some (s\<lparr>Paging := M1\<rparr>)" "tables_ok J path M1 (PagingDatas s ?k)"
      "ReleasedFrames M1 = ReleasedFrames (Paging s) @ mapped_frames ?k s True ?b ?mb" and
    leaf1: "\<And>vb. ix1 vb \<in> J \<Longrightarrow> leaf_entry M1 (root_of ?k s) vb = (if in_range ?b ?mb vb then None else translation ?k s vb)"
    unfolding un mapped_frames_def by blast
  define s1 where "s1 = s\<lparr>Paging := M1, ClosedFiles := ?c\<rparr>"
  have s1: "Paging s1 = M1" "PagingDatas s1 = PagingDatas s" "m_mmuData s1 = ?k" by (simp_all add: s1_def)
  have pages: "(unat (Size r) + 4095) div 4096 = ?m" using b(5) by auto
  have bound: "unat (Size r) + 4095 < 2 ^ 32" using small b(5) by (auto elim!: dvdE)
  have ok1: "tables_ok J path (Paging s1) (PagingDatas s1 ?k)" using M1(2) by (simp add: s1)
  have k1: "kernel_or NULL s1 = ?k" by (simp add: k s1)
  from MmuUnmapMemoryEx_ok [OF ok1 k1 b(3) b(2) b(4) bound, of rel] J2 obtain M2 where
    M2: "MmuUnmapMemoryEx (StartVa r) (Size r) rel NULL s1 = Some (s1\<lparr>Paging := M2\<rparr>)" "tables_ok J path M2 (PagingDatas s ?k)"
      "ReleasedFrames M2 = ReleasedFrames M1 @
        concat (map (\<lambda>q. released rel (leaf_entry M1 (root_of ?k s) (page_at (StartVa r) q))) [0 ..< ?m])" and
    leaf2: "\<And>vb. ix1 vb \<in> J \<Longrightarrow> leaf_entry M2 (root_of ?k s) vb =
      (if in_range (StartVa r) ?m vb then None else leaf_entry M1 (root_of ?k s) vb)"
    unfolding pages s1 by blast
  have same: "leaf_entry M1 (root_of ?k s) (page_at (StartVa r) q) = translation ?k s (page_at (StartVa r) q)" if "q < ?m" for q
    using leaf1 [OF J2 [rule_format, OF that]] apart that by simp
  have eq: "map (\<lambda>q. released rel (leaf_entry M1 (root_of ?k s) (page_at (StartVa r) q))) [0 ..< ?m] =
      map (\<lambda>q. released rel (translation ?k s (page_at (StartVa r) q))) [0 ..< ?m]"
    using same by simp
  have rel: "ReleasedFrames M2 = ReleasedFrames (Paging s) @ mapped_frames ?k s True ?b ?mb @ mapped_frames ?k s rel (StartVa r) ?m"
    unfolding M2(3) M1(3) mapped_frames_def [of ?k s rel] eq by simp
  have run: "run_effects (VmReservation.MmuUnmapMemoryEx ?b ?n # (if BackingFile r = NULL then [] else [IoCloseFile (BackingFile r)])) s
      = Some s1"
    using M1(1) by (simp add: s1_def)
  have "leaf_entry M2 (root_of ?k s) vb = (if in_range (StartVa r) ?m vb \<or> in_range ?b ?mb vb then None else translation ?k s vb)"
    if "ix1 vb \<in> J" for vb
    unfolding leaf2 [OF that] leaf1 [OF that] by simp
  with run M2(1,2) rel show ?thesis
    by (intro exI [of _ "(M1, M2)"] conjI allI impI) (simp_all add: s1_def)
qed

section \<open>A small system\<close>

definition demo_system :: vm_system where
  "demo_system = \<lparr>PmmData = demo_pmm, Paging = demo_memory, PagingDatas = (\<lambda>_. demo_data\<lparr>KernelSpace := False\<rparr>),
     VaSpaces = (\<lambda>_. demo_space), m_mmuData = 8, m_vmmData = 16,
     Processes = (\<lambda>_. \<lparr>ProcessPagingData = 24, ProcessVaSpace = 32, ProcessPcid = 1, ProcessImageBase = 0x400000\<rparr>),
     CurrentProcess = 40, VmmMemoryAccess = Some False, IntrOff = True, PageFaults = 0, Cr3Raw = 0x100000,
     Cleared = [], PoolFreed = [], ClosedFiles = []\<rparr>"

lemma demo_system_fields [simp]:
  "PmmData demo_system = demo_pmm" "Paging demo_system = demo_memory"
  "PagingDatas demo_system p = demo_data\<lparr>KernelSpace := False\<rparr>" "VaSpaces demo_system v = demo_space"
  "IntrOff demo_system" "CurrentProcess demo_system = 40"
  by (simp_all add: demo_system_def)

definition no_file :: file_reader where "no_file = (\<lambda>_ _ _. (STATUS_SUCCESS, 0))"

lemma demo_ready: "vm_ready UNIV (\<lambda>_. []) 24 V demo_system"
proof -
  have "tables_ok UNIV (\<lambda>_. []) demo_memory (demo_data\<lparr>KernelSpace := False\<rparr>)"
    by (rule tables_ok_empty)
      (simp_all add: demo_fields region_ok_def PA2VA_def, simp_all add: demo_data_def demo_memory_def)
  then show ?thesis by (simp add: vm_ready_def demo_pmm_ok demo_space_ok)
qed

lemma demo_access: "may_access 24 0x10001234 PAGE_RIGHTS_WRITE demo_system 0"
  using demo_hit
  by (simp add: may_access_def accessible_def demo_entry demo_reservation_def page_no_def bit_at_def BitmapGetBit_def
      IsBooleanFlagOn_def AlignAddressLower_def VmIsKernelAddress_def push_bit_eq_mult)

lemma demo_free: "free_frames demo_pmm \<noteq> {}"
proof -
  have "9 \<in> free_frames demo_pmm"
    by (simp add: demo_pmm_def free_frames_def free_at_def bit_at_def BitmapGetBit_def IsBooleanFlagOn_def)
  then show ?thesis by blast
qed

lemma demo_outside: "\<not> in_metadata demo_space 0x10001234"
  by (simp add: CHECK_BOUNDS_def demo_space_def)

section \<open>Properties\<close>

text \<open>
  C24. A page fault is solved exactly as the reservation allows it: when the reservations of the
  faulting address allow the access, there is a free frame and room for paging structures, the
  handler returns TRUE; it has taken one free frame, translated the page of the address to it with an
  entry that grants exactly the rights of the reservation and user access exactly in a user address
  space, cleared the page if no file is behind it, and changed no other translation and no
  reservation.
\<close>

theorem VmmSolvePageFault_maps:
  assumes ready: "vm_ready J path PD (fault_space a s) s" and "IntrOff s" "CurrentProcess s \<noteq> NULL"
    and out: "\<not> in_metadata (VaSpaces s (fault_space a s)) a" and may: "may_access PD a rights s i"
    and "ix1 a \<in> J" and "free_frames (PmmData s) \<noteq> {}"
    and "used (PagingDatas s PD) + 3 \<le> unat (NumberOfFrames (PagingDatas s PD))"
    and "file_ok rd (BackingFile (Entries (VaSpaces s (fault_space a s)) i))"
  shows "\<exists>s' path' pa e. VmmSolvePageFault rd a rights PD s = Some (True, s') \<and>
    vm_ready J path' PD (fault_space a s) s' \<and> VaSpaces s' = VaSpaces s \<and>
    frame_of pa \<in> free_frames (PmmData s) \<and> free_frames (PmmData s') = free_frames (PmmData s) - {frame_of pa} \<and>
    translation PD s' a = Some e \<and> pte_address e = pa \<and>
    entry_grants e (PageRights (Entries (VaSpaces s (fault_space a s)) i)) (\<not> KernelSpace (PagingDatas s PD)) \<and>
    (\<forall>vb. ix1 vb \<in> J \<longrightarrow> vpn vb \<noteq> vpn a \<longrightarrow> translation PD s' vb = translation PD s vb) \<and>
    (BackingFile (Entries (VaSpaces s (fault_space a s)) i) = NULL \<longrightarrow>
       Cleared s' = Cleared s @ [(AlignAddressLower a PAGE_SIZE, PAGE_SIZE)])"
proof -
  have "PD \<noteq> NULL" "space_ok (VaSpaces s (fault_space a s))" using ready by (simp_all add: vm_ready_def)
  from VmmSolvePageFault_allowed [OF assms(2) this(1) assms(3) this(2) out may, of rd]
  obtain off where run: "VmmSolvePageFault rd a rights PD s =
    (let r = Entries (VaSpaces s (fault_space a s)) i
     in solve_access rd a PD (PageRights r, Uncacheable r, BackingFile r, off) s)" by blast
  have "AlignAddressLower a PAGE_SIZE \<noteq> NULL" using may by (simp add: may_access_def)
  from solve_access_ok [OF ready assms(7,8,6) this assms(9)] show ?thesis unfolding run Let_def .
qed

theorem VmmSolvePageFault_maps_witness:
  "\<exists>s' e. VmmSolvePageFault no_file 0x10001234 PAGE_RIGHTS_WRITE 24 demo_system = Some (True, s') \<and>
     translation 24 s' 0x10001234 = Some e \<and> entry_grants e PAGE_RIGHTS_READWRITE True"
proof -
  let ?r = "Entries (VaSpaces demo_system (fault_space 0x10001234 demo_system)) 0"
  have r: "PageRights ?r = PAGE_RIGHTS_READWRITE" "BackingFile ?r = NULL"
    by (simp_all add: demo_entry demo_reservation_def)
  have room: "used (PagingDatas demo_system 24) + 3 \<le> unat (NumberOfFrames (PagingDatas demo_system 24))"
    "\<not> KernelSpace (PagingDatas demo_system 24)"
    by (simp_all add: demo_data_def)
  have out: "\<not> in_metadata (VaSpaces demo_system (fault_space 0x10001234 demo_system)) 0x10001234"
    using demo_outside by simp
  have "file_ok no_file (BackingFile ?r)" unfolding r(2) by (simp add: file_ok_def)
  from VmmSolvePageFault_maps [OF demo_ready _ _ out demo_access _ _ room(1) this] demo_free room(2)
  show ?thesis unfolding r(1) by simp blast
qed

text \<open>
  C25. A fault that no reservation allows is refused and changes nothing: a fault on the first page,
  of user code on a kernel address, of kernel code on a user address, on memory that is not committed
  in the first reservation that covers it, or with more rights than that reservation grants. There is
  one exception, which is stated: in the metadata of the reservations (\<open>metadata_access\<close>) a fault that
  does not ask to execute, of a CPU that works on the metadata, is solved for reading and writing
  without any reservation, by the same steps; every other fault there is refused.
\<close>

theorem VmmSolvePageFault_refuses:
  assumes "IntrOff s" and "PD \<noteq> NULL" and "CurrentProcess s \<noteq> NULL"
    and "space_ok (VaSpaces s (fault_space a s))"
    and "in_metadata (VaSpaces s (fault_space a s)) a \<or> (\<nexists>i. may_access PD a rights s i)"
  shows "VmmSolvePageFault rd a rights PD s =
    (if metadata_access PD a rights s then solve_access rd a PD (PAGE_RIGHTS_READWRITE, False, NULL, 0) s
     else Some (False, s))"
proof (cases "in_metadata (VaSpaces s (fault_space a s)) a")
  case True
  then show ?thesis by (rule VmmSolvePageFault_metadata [OF assms(1-3)])
next
  case False
  then have "\<not> metadata_access PD a rights s" by (simp add: metadata_access_def)
  then show ?thesis using VmmSolvePageFault_refused [OF assms(1-4) False] assms(5) False by simp
qed

theorem VmmSolvePageFault_refuses_witness:
  "VmmSolvePageFault no_file 0xFFFF800000001000 PAGE_RIGHTS_WRITE 24 demo_system = Some (False, demo_system)"
proof -
  have "\<not> may_access 24 0xFFFF800000001000 PAGE_RIGHTS_WRITE demo_system i" for i
    by (simp add: may_access_def VmIsKernelAddress_def IsBooleanFlagOn_def push_bit_eq_mult)
  moreover have "\<not> metadata_access 24 0xFFFF800000001000 PAGE_RIGHTS_WRITE demo_system"
    by (simp add: metadata_access_def VmIsKernelAddress_def IsBooleanFlagOn_def push_bit_eq_mult)
  ultimately show ?thesis
    using VmmSolvePageFault_refuses [of demo_system 24 "0xFFFF800000001000" PAGE_RIGHTS_WRITE no_file]
    by (simp add: demo_space_ok)
qed

text \<open>
  C26. Releasing a region of the kernel undoes all of it: the call returns; the reservation that
  covered the address grants nothing any more and every other one is as it was; no page of the
  region or of its commit bitmap is translated and every other translation is unchanged; and the
  frames to clear are those of the bitmap and, if asked for, those of the region, each once. The
  region is smaller than 4 GB.
\<close>

theorem VmmFreeRegionEx_releases:
  assumes tab: "tables_ok J path (Paging s) (PagingDatas s (m_mmuData s))" and "m_vmmData s \<noteq> NULL"
    and ok: "space_ok (VaSpaces s (m_vmmData s))" and a: "a \<noteq> NULL" "unat a + 1 < 2 ^ 64"
    and fh: "first_hit (VaSpaces s (m_vmmData s)) a 1 i" and r: "r = Entries (VaSpaces s (m_vmmData s)) i"
    and region: "unat (Size r) < 2 ^ 32" "BitmapBuffer (CommitBitmap r) \<noteq> NULL" "BufferSize (CommitBitmap r) \<noteq> 0"
      "unat (BufferSize (CommitBitmap r)) + 4095 < 2 ^ 32"
      "\<forall>q < (unat (BufferSize (CommitBitmap r)) + 4095) div 4096. ix1 (page_at (BitmapBuffer (CommitBitmap r)) q) \<in> J"
      "\<forall>q < unat (Size r) div 4096. ix1 (page_at (StartVa r) q) \<in> J"
      "\<forall>q < unat (Size r) div 4096. \<not> in_range (BitmapBuffer (CommitBitmap r))
        ((unat (BufferSize (CommitBitmap r)) + 4095) div 4096) (page_at (StartVa r) q)"
  shows "\<exists>s'. VmmFreeRegionEx a 0 VMM_FREE_TYPE_RELEASE rel NULL NULL s = Some s' \<and>
    tables_ok J path (Paging s') (PagingDatas s' (m_mmuData s)) \<and>
    (\<forall>vb. ix1 vb \<in> J \<longrightarrow> translation (m_mmuData s) s' vb =
      (if in_range (StartVa r) (unat (Size r) div 4096) vb \<or>
          in_range (BitmapBuffer (CommitBitmap r)) ((unat (BufferSize (CommitBitmap r)) + 4095) div 4096) vb
       then None else translation (m_mmuData s) s vb)) \<and>
    ReleasedFrames (Paging s') = ReleasedFrames (Paging s) @
      mapped_frames (m_mmuData s) s True (BitmapBuffer (CommitBitmap r)) ((unat (BufferSize (CommitBitmap r)) + 4095) div 4096) @
      mapped_frames (m_mmuData s) s rel (StartVa r) (unat (Size r) div 4096) \<and>
    space_ok (VaSpaces s' (m_vmmData s)) \<and> (\<forall>x rq. \<not> accessible (VaSpaces s' (m_vmmData s)) i x rq) \<and>
    (\<forall>j. j \<noteq> i \<longrightarrow> (reserved (VaSpaces s' (m_vmmData s)) j \<longleftrightarrow> reserved (VaSpaces s (m_vmmData s)) j) \<and>
       Entries (VaSpaces s' (m_vmmData s)) j = Entries (VaSpaces s (m_vmmData s)) j)"
proof -
  let ?V = "m_vmmData s" and ?c = "if BackingFile r = NULL then [] else [BackingFile r]"
  have rok: "reservation_ok r" using ok fh r by (auto simp: space_ok_def first_hit_def)
  from free_region_correct [OF ok a fh, of "VmmMemoryAccess s"] obtain cpu rs where
    free: "VmReservationSpaceFreeRegion (VaSpaces s ?V) (VmmMemoryAccess s) a 0 VMM_FREE_TYPE_RELEASE =
      Some (StartVa r, Size r, VmReservation.MmuUnmapMemoryEx (BitmapBuffer (CommitBitmap r)) (BufferSize (CommitBitmap r)) #
          (if BackingFile r = NULL then [] else [IoCloseFile (BackingFile r)]), cpu, rs)" and
    space: "space_ok rs" "\<forall>x rq. \<not> accessible rs i x rq"
      "\<forall>j. j \<noteq> i \<longrightarrow> (reserved rs j \<longleftrightarrow> reserved (VaSpaces s ?V) j) \<and> Entries rs j = Entries (VaSpaces s ?V) j"
    unfolding r by blast
  define s1 where "s1 = (put_space ?V rs s)\<lparr>VmmMemoryAccess := cpu\<rparr>"
  have s1: "Paging s1 = Paging s" "PagingDatas s1 = PagingDatas s" "m_mmuData s1 = m_mmuData s" "VaSpaces s1 ?V = rs"
    by (simp_all add: s1_def put_space_def)
  from kernel_region_unmapped [of J path s1 r rel] tab rok region obtain M where
    eff: "run_effects (VmReservation.MmuUnmapMemoryEx (BitmapBuffer (CommitBitmap r)) (BufferSize (CommitBitmap r)) #
        (if BackingFile r = NULL then [] else [IoCloseFile (BackingFile r)])) s1 =
        Some (s1\<lparr>Paging := fst M, ClosedFiles := ClosedFiles s1 @ ?c\<rparr>)" and
    un: "MmuUnmapMemoryEx (StartVa r) (Size r) rel NULL (s1\<lparr>Paging := fst M, ClosedFiles := ClosedFiles s1 @ ?c\<rparr>) =
      Some (s1\<lparr>Paging := snd M, ClosedFiles := ClosedFiles s1 @ ?c\<rparr>)" and
    res: "tables_ok J path (snd M) (PagingDatas s (m_mmuData s))"
      "\<forall>vb. ix1 vb \<in> J \<longrightarrow> leaf_entry (snd M) (root_of (m_mmuData s) s) vb =
        (if in_range (StartVa r) (unat (Size r) div 4096) vb \<or>
            in_range (BitmapBuffer (CommitBitmap r)) ((unat (BufferSize (CommitBitmap r)) + 4095) div 4096) vb
         then None else translation (m_mmuData s) s vb)"
      "ReleasedFrames (snd M) = ReleasedFrames (Paging s) @
        mapped_frames (m_mmuData s) s True (BitmapBuffer (CommitBitmap r)) ((unat (BufferSize (CommitBitmap r)) + 4095) div 4096) @
        mapped_frames (m_mmuData s) s rel (StartVa r) (unat (Size r) div 4096)"
    unfolding s1 mapped_frames_def by blast
  have "free_reservation ?V a 0 VMM_FREE_TYPE_RELEASE s =
      Some (StartVa r, Size r, s1\<lparr>Paging := fst M, ClosedFiles := ClosedFiles s1 @ ?c\<rparr>)"
    unfolding free_reservation_def free bind.bind_lunit prod.case s1_def [symmetric] eff ..
  moreover have "StartVa r \<noteq> NULL" "Size r \<noteq> 0" using rok by (simp_all add: reservation_ok_def)
  ultimately have "VmmFreeRegionEx a 0 VMM_FREE_TYPE_RELEASE rel NULL NULL s =
      Some (s1\<lparr>Paging := snd M, ClosedFiles := ClosedFiles s1 @ ?c\<rparr>)"
    using a(1) un
    by (simp add: VmmFreeRegionEx_def system_or_def IsBooleanFlagOn_def IsFlagOn_def del: if_split)
  with res space show ?thesis
    by (intro exI [of _ "s1\<lparr>Paging := snd M, ClosedFiles := ClosedFiles s1 @ ?c\<rparr>"] conjI) (simp_all add: s1)
qed

theorem VmmFreeRegionEx_releases_witness:
  "\<exists>s'. VmmFreeRegionEx 0x10001234 0 VMM_FREE_TYPE_RELEASE True NULL NULL demo_system = Some s' \<and>
     (\<forall>x rq. \<not> accessible (VaSpaces s' 16) 0 x rq)"
proof -
  have m: "m_mmuData demo_system = 8" "m_vmmData demo_system = 16" by (simp_all add: demo_system_def)
  have e: "Entries demo_space 0 = demo_reservation" by (rule demo_entry)
  have pages: "q < 4 \<Longrightarrow> \<not> in_range 0x110000 1 (page_at 0x10000000 q)" for q :: nat
    by (auto simp: in_range_def numeral_eq_Suc less_Suc_eq) (simp_all add: vpn_def)
  show ?thesis
    using VmmFreeRegionEx_releases [where J = UNIV and path = "\<lambda>_. []" and s = demo_system and a = "0x10001234" and i = 0
      and r = demo_reservation and rel = True] demo_ready
      pages
    by (auto simp: m demo_space_ok demo_hit e vm_ready_def) (simp_all add: demo_reservation_def, blast)
qed

end
