(* ===== verification/UserBuffers.thy ===== *)
theory UserBuffers
  imports VmmSpec
begin

text \<open>
  What a memory descriptor list describes: \<open>runs\<close> is the list of runs of contiguous frames computed
  from the list of the pages' addresses, and both loops of \<open>MdlAllocateEx\<close> agree with it.
\<close>

section \<open>Runs of frames\<close>

definition run_bytes :: "MDL_TRANSLATION_PAIR \<Rightarrow> QWORD list" where
  "run_bytes p = map (\<lambda>j. PairAddress p + of_nat j) [0 ..< unat (NumberOfBytes p)]"

definition described :: "MDL_TRANSLATION_PAIR list \<Rightarrow> QWORD list" where
  "described ps = concat (map run_bytes ps)"

definition run_end :: "MDL_TRANSLATION_PAIR \<Rightarrow> QWORD" where
  "run_end p = PairAddress p + ucast (NumberOfBytes p)"

definition page_bytes :: "QWORD \<Rightarrow> QWORD list" where
  "page_bytes pa = map (\<lambda>j. pa + of_nat j) [0 ..< 4096]"

fun runs :: "MDL_TRANSLATION_PAIR \<Rightarrow> QWORD list \<Rightarrow> MDL_TRANSLATION_PAIR list" where
  "runs cur [] = [cur]"
| "runs cur (pa # pas) =
     (if run_end cur = pa then runs (cur\<lparr>NumberOfBytes := NumberOfBytes cur + 0x1000\<rparr>) pas
      else cur # runs (cur\<lparr>PairAddress := pa, NumberOfBytes := 0x1000\<rparr>) pas)"

lemma runs_not_empty [simp]: "runs cur pas \<noteq> []"
  by (induction cur pas rule: runs.induct) auto

lemma runs_hd: "PairAddress (hd (runs cur pas)) = PairAddress cur"
  by (induction cur pas rule: runs.induct) auto

lemma bytes_from: "map (\<lambda>j. (a :: QWORD) + of_nat j) [n ..< n + m] = map (\<lambda>j. (a + of_nat n) + of_nat j) [0 ..< m]"
  by (rule nth_equalityI) (simp_all add: add.assoc)

lemma run_bytes_page: "run_bytes (cur\<lparr>PairAddress := pa, NumberOfBytes := 0x1000\<rparr>) = page_bytes pa"
  by (simp add: run_bytes_def page_bytes_def del: upt_rec_numeral)

lemma run_bytes_grow:
  assumes "unat (NumberOfBytes cur) + 4096 < 2 ^ 32"
  shows "run_bytes (cur\<lparr>NumberOfBytes := NumberOfBytes cur + 0x1000\<rparr>) = run_bytes cur @ page_bytes (run_end cur)"
proof -
  have n: "unat (NumberOfBytes cur + 0x1000) = unat (NumberOfBytes cur) + 4096"
    using assms by (subst unat_add_lem [THEN iffD1]) simp_all
  have "[0 ..< unat (NumberOfBytes cur) + 4096] = [0 ..< unat (NumberOfBytes cur)] @
      [unat (NumberOfBytes cur) ..< unat (NumberOfBytes cur) + 4096]"
    by (rule upt_add_eq_append) simp
  then show ?thesis
    using bytes_from [of "PairAddress cur" "unat (NumberOfBytes cur)" 4096]
    by (simp add: run_bytes_def page_bytes_def run_end_def n del: upt_rec_numeral)
qed

lemma described_runs:
  "unat (NumberOfBytes cur) + length pas * 4096 < 2 ^ 32 \<Longrightarrow>
     described (runs cur pas) = run_bytes cur @ concat (map page_bytes pas)"
proof (induction cur pas rule: runs.induct)
  case (2 cur pa pas)
  have n: "unat (NumberOfBytes cur + 0x1000) = unat (NumberOfBytes cur) + 4096"
    using 2(3) by (subst unat_add_lem [THEN iffD1]) simp_all
  show ?case
  proof (cases "run_end cur = pa")
    case True
    with 2 show ?thesis using run_bytes_grow [of cur] by (simp add: n)
  next
    case False
    with 2 show ?thesis by (simp add: described_def run_bytes_page)
  qed
qed (simp add: described_def)

lemma runs_maximal:
  "Suc i < length (runs cur pas) \<Longrightarrow> run_end (runs cur pas ! i) \<noteq> PairAddress (runs cur pas ! Suc i)"
proof (induction cur pas arbitrary: i rule: runs.induct)
  case (2 cur pa pas)
  then show ?case
    using runs_hd [of "cur\<lparr>PairAddress := pa, NumberOfBytes := 0x1000\<rparr>" pas]
    by (cases i) (auto simp: hd_conv_nth split: if_splits)
qed simp

lemma length_runs: "0 < length (runs cur pas)" "length (runs cur pas) \<le> Suc (length pas)"
  by (induction cur pas rule: runs.induct) auto

lemma count_runs: "(1 :: DWORD) + of_nat (length (runs cur pas) - 1) = of_nat (length (runs cur pas))"
  using length_runs(1) [of cur pas] by (cases "length (runs cur pas)") simp_all

section \<open>The loops\<close>

lemma page_offset:
  assumes "k * 4096 < 2 ^ 32"
  shows "unat (of_nat (k * 4096) :: DWORD) = k * 4096"
    and "(b :: QWORD) + ucast (of_nat (k * 4096) :: DWORD) = b + of_nat k * PAGE_SIZE"
proof -
  show u: "unat (of_nat (k * 4096) :: DWORD) = k * 4096" using assms by (simp only: unat_of_nat, simp)
  have "(ucast (of_nat (k * 4096) :: DWORD) :: QWORD) = of_nat (unat (of_nat (k * 4096) :: DWORD))" by simp
  also have "\<dots> = of_nat k * PAGE_SIZE" unfolding u by simp
  finally have "ucast (of_nat (k * 4096) :: DWORD) = (of_nat k * PAGE_SIZE :: QWORD)" .
  then show "b + ucast (of_nat (k * 4096) :: DWORD) = b + of_nat k * PAGE_SIZE" by simp
qed

lemma loops_agree:
  assumes pages: "\<forall>k < n. pa_of (b + of_nat k * PAGE_SIZE) = Some (f k) \<and> f k \<noteq> NULL"
    and n: "n * 4096 < 2 ^ 32" and "k \<le> n"
  shows "(\<forall>cur c. count_pairs pa_of b (of_nat (n * 4096)) (of_nat (k * 4096)) cur c =
      Some (c + of_nat (length (runs cur (map f [k ..< n])) - 1))) \<and>
    (\<forall>cur ps. store_pairs pa_of b (of_nat (n * 4096)) (of_nat (k * 4096)) cur ps = Some (ps @ runs cur (map f [k ..< n])))"
  using \<open>k \<le> n\<close>
proof (induction "n - k" arbitrary: k)
  case 0
  then show ?case by (simp add: count_pairs.simps store_pairs.simps)
next
  case (Suc m)
  then have k: "k < n" "m = n - Suc k" "Suc k \<le> n" by simp_all
  have u: "(of_nat (k * 4096) :: DWORD) < of_nat (n * 4096)"
    using k(1) n page_offset(1) [of k] page_offset(1) [of n] unfolding word_less_nat_alt by simp
  have s: "(of_nat (k * 4096) :: DWORD) + 0x1000 = of_nat (Suc k * 4096)" by simp
  have pa: "pa_of (b + ucast (of_nat (k * 4096) :: DWORD)) = Some (f k)" "f k \<noteq> NULL"
    using pages k(1) n page_offset(2) [of k b] by simp_all
  have list: "map f [k ..< n] = f k # map f [Suc k ..< n]" using k(1) by (simp add: upt_conv_Cons)
  note IH = Suc.hyps(1) [OF k(2,3)]
  have "count_pairs pa_of b (of_nat (n * 4096)) (of_nat (k * 4096)) cur c =
      Some (c + of_nat (length (runs cur (map f [k ..< n])) - 1))" for cur c
    unfolding list
    using u pa count_runs IH
    by (subst count_pairs.simps) (auto simp: s run_end_def add.assoc ASSERT_def simp del: of_nat_mult of_nat_Suc mult_Suc)
  moreover have "store_pairs pa_of b (of_nat (n * 4096)) (of_nat (k * 4096)) cur ps =
      Some (ps @ runs cur (map f [k ..< n]))" for cur ps
    unfolding list
    using u pa IH
    by (subst store_pairs.simps) (auto simp: s run_end_def ASSERT_def simp del: of_nat_mult of_nat_Suc mult_Suc)
  ultimately show ?case by blast
qed

section \<open>Memory descriptor lists\<close>

lemma physical_in_page:
  assumes "MmuGetPhysicalAddressEx (AlignAddressLower va PAGE_SIZE) PD Cr3 s = Some pa"
    and "AlignAddressLower va PAGE_SIZE \<noteq> NULL"
  shows "MmuGetPhysicalAddressEx va PD Cr3 s = Some (pa + AddressOffset va PAGE_SIZE)"
proof -
  have off: "AddressOffset (AlignAddressLower va PAGE_SIZE) PAGE_SIZE = 0"
    "AlignAddressLower (AlignAddressLower va PAGE_SIZE) PAGE_SIZE = AlignAddressLower va PAGE_SIZE"
    by (simp_all add: word_unat_eq_iff unat_AddressOffset_page unat_AlignAddressLower_page)
  have small: "(ucast (ucast (AddressOffset va PAGE_SIZE) :: DWORD) :: QWORD) = AddressOffset va PAGE_SIZE"
    by (simp add: word_unat_eq_iff unat_ucast_mod unat_AddressOffset_page)
  have "va \<noteq> NULL" using assms(2) by (auto simp: AlignAddressLower_def)
  with assms show ?thesis
    by (auto simp: MmuGetPhysicalAddressEx_def Let_def off small bind_eq_Some_conv ASSERT_def split: if_splits)
qed

lemma first_run:
  assumes "unat va mod 4096 = k" and cur: "NumberOfBytes cur = 0x1000 - of_nat k" "PairAddress cur = pa + of_nat k"
  shows "unat (NumberOfBytes cur) = 4096 - k" "run_bytes cur = drop k (page_bytes pa)"
proof -
  have k: "k < 4096" using assms(1) by auto
  show n: "unat (NumberOfBytes cur) = 4096 - k"
    using k unfolding cur by (subst unat_sub) (simp_all add: word_le_nat_alt unat_of_nat)
  have "[k ..< 4096] = [k ..< k + (4096 - k)]" using k by simp
  then show "run_bytes cur = drop k (page_bytes pa)"
    unfolding run_bytes_def page_bytes_def n cur(2) drop_map drop_upt
    using bytes_from [of pa k "4096 - k"] by simp
qed

text \<open>
  C27. A memory descriptor list describes exactly the memory of its buffer: when every page of the
  buffer is mapped and the pool has memory, \<open>MdlAllocateEx\<close> returns a list whose runs, byte by byte, are
  the physical addresses of the buffer up to the end of its last page; no two neighbouring runs could
  be joined; and the loop that counts agrees with the loop that stores, so that the assertion that
  compares them never fails. The buffer with its offset is smaller than 4 GB.
\<close>

theorem MdlAllocateEx_describes:
  assumes va: "AlignAddressLower va PAGE_SIZE \<noteq> NULL" and "Len \<noteq> 0" "(Cr3 \<noteq> NULL) \<noteq> (PD \<noteq> NULL)" "pool \<noteq> NULL"
    and n: "n = (unat Len + unat va mod 4096 + 4095) div 4096" "unat Len + unat va mod 4096 + 4095 < 2 ^ 32"
    and pages: "\<forall>k < n. MmuGetPhysicalAddressEx (page_at (AlignAddressLower va PAGE_SIZE) k) PD Cr3 s = Some (f k) \<and>
      f k \<noteq> NULL \<and> unat (f k) + 4096 \<le> 2 ^ 64"
  shows "\<exists>m. MdlAllocateEx pool va Len Cr3 PD s = Some (Some m) \<and> MdlStartVa m = AlignAddressLower va PAGE_SIZE \<and>
    ByteCount m = Len \<and> unat (ByteOffset m) = unat va mod 4096 \<and>
    described (Translations m) = drop (unat va mod 4096) (concat (map (\<lambda>k. page_bytes (f k)) [0 ..< n])) \<and>
    (\<forall>i. Suc i < length (Translations m) \<longrightarrow> run_end (Translations m ! i) \<noteq> PairAddress (Translations m ! Suc i))"
proof -
  let ?b = "AlignAddressLower va PAGE_SIZE" and ?k = "unat va mod 4096"
  let ?off = "ucast (AddressOffset va PAGE_SIZE) :: DWORD"
  let ?pa_of = "\<lambda>va. MmuGetPhysicalAddressEx va PD Cr3 s"
  define cur where "cur = \<lparr>PairAddress = f 0 + AddressOffset va PAGE_SIZE, NumberOfBytes = 0x1000 - ?off\<rparr>"
  have off: "unat ?off = ?k" by (simp add: unat_ucast_mod unat_AddressOffset_page)
  have "0 < unat Len" using assms(2) by (simp add: unat_gt_0)
  then have n0: "0 < n" unfolding n(1) by linarith
  have small: "n * 4096 < 2 ^ 32" using n by linarith
  have sum: "unat (Len + ?off) = unat Len + ?k" using n(2) off by (subst unat_add_lem [THEN iffD1]) simp_all
  have size: "(ucast (AlignAddressUpper (ucast (Len + ?off)) PAGE_SIZE) :: DWORD) = of_nat (n * 4096)"
    unfolding word_unat_eq_iff page_offset(1) [OF small]
    using n small sum by (simp add: unat_ucast_mod unat_AlignAddressUpper_page)
  have "?pa_of ?b = Some (f 0)" "f 0 \<noteq> NULL" "unat (f 0) + 4096 \<le> 2 ^ 64" using pages n0 by auto
  then have first: "?pa_of va = Some (f 0 + AddressOffset va PAGE_SIZE)" "f 0 + AddressOffset va PAGE_SIZE \<noteq> NULL"
    using physical_in_page [OF _ va] unat_AddressOffset_page [of va]
    by (auto simp: word_unat_eq_iff unat_word_ariths)
  have start: "(0x1000 :: DWORD) = of_nat (1 * 4096)" by simp
  let ?ps = "runs cur (map f [1 ..< n])"
  from loops_agree [of n ?pa_of ?b f 1] pages small n0
  have loops: "count_pairs ?pa_of ?b (of_nat (n * 4096)) 0x1000 cur 1 = Some (of_nat (length ?ps))"
    "store_pairs ?pa_of ?b (of_nat (n * 4096)) 0x1000 cur [] = Some ?ps"
    unfolding start by (simp_all add: count_runs del: One_nat_def)
  have "?off = of_nat ?k" using off by (metis of_nat_unat ucast_id)
  moreover have "AddressOffset va PAGE_SIZE = of_nat ?k" using unat_AddressOffset_page [of va] by (metis of_nat_unat ucast_id)
  ultimately have cur: "unat (NumberOfBytes cur) = 4096 - ?k" "run_bytes cur = drop ?k (page_bytes (f 0))"
    using first_run [OF refl, of cur va "f 0"] by (simp_all add: cur_def)
  have "described ?ps = drop ?k (concat (map (\<lambda>k. page_bytes (f k)) [0 ..< n]))"
  proof -
    have "length (page_bytes (f 0)) = 4096" by (simp add: page_bytes_def del: upt_rec_numeral)
    then have "drop ?k (concat (map (\<lambda>k. page_bytes (f k)) [0 ..< n])) =
        run_bytes cur @ concat (map page_bytes (map f [1 ..< n]))"
      using n0 cur(2) by (simp add: upt_conv_Cons comp_def)
    moreover have "unat (NumberOfBytes cur) + length (map f [1 ..< n]) * 4096 < 2 ^ 32"
      using cur(1) small n0 by simp
    ultimately show ?thesis using described_runs [of cur "map f [1 ..< n]"] by simp
  qed
  moreover have "va \<noteq> NULL" using va by (auto simp: AlignAddressLower_def)
  ultimately show ?thesis
    using assms(2-4) first loops off runs_maximal [of _ cur "map f [1 ..< n]"]
    by (intro exI [of _ "\<lparr>MdlStartVa = ?b, ByteCount = Len, ByteOffset = ?off, Translations = ?ps\<rparr>"])
      (simp add: MdlAllocateEx_def Let_def size cur_def [symmetric])
qed

text \<open>A table whose entries all point to itself: every page is mapped to the frame of the table.\<close>

definition loop_system :: vm_system where
  "loop_system = demo_system\<lparr>Paging := demo_memory\<lparr>Memory := (\<lambda>_. 0x100001)\<rparr>\<rparr>"

lemma loop_entry: "entry_at 0xFFFF800000100000 j \<noteq> NULL"
proof -
  have "unat (ucast j :: QWORD) < 2 ^ 16" using unsigned_less [where 'a = nat, of j] by (simp add: unat_ucast_mod)
  then have "unat (8 * ucast j :: QWORD) < 2 ^ 19" by (simp add: unat_word_ariths)
  then show ?thesis by (simp add: entry_at_def word_unat_eq_iff unat_word_ariths)
qed

lemma loop_values: "pte_present 0x100001" "get_bits 7 (Suc 0) (0x100001 :: QWORD) = 0" "pte_address 0x100001 = 0x100000"
  by (simp_all add: pte_present_def pte_address_def get_bits_def mask_eq_exp_minus_1 push_bit_eq_mult)

lemma loop_page:
  assumes "va \<noteq> NULL" "IsAddressAligned va PAGE_SIZE"
  shows "VmmGetPhysicalAddress 0x100000 va (demo_memory\<lparr>Memory := (\<lambda>_. 0x100001)\<rparr>) = Some 0x100000"
proof -
  have c: "cr3_table (demo_memory\<lparr>Memory := (\<lambda>_. 0x100001)\<rparr>) 0x100000 = 0xFFFF800000100000"
    by (simp add: cr3_table_def PA2VA_def demo_memory_def get_bits_def mask_eq_exp_minus_1 push_bit_eq_mult)
  have p: "PA2VA (demo_memory\<lparr>Memory := (\<lambda>_. 0x100001)\<rparr>) 0x100000 = 0xFFFF800000100000"
    by (simp add: PA2VA_def demo_memory_def)
  have e: "PteIsPresent (demo_memory\<lparr>Memory := (\<lambda>_. 0x100001)\<rparr>) (entry_at 0xFFFF800000100000 j) = Some True"
    "PteGetPhysicalAddress (demo_memory\<lparr>Memory := (\<lambda>_. 0x100001)\<rparr>) (entry_at 0xFFFF800000100000 j) = Some 0x100000"
    "\<not> PageSizeBit (demo_memory\<lparr>Memory := (\<lambda>_. 0x100001)\<rparr>) a" for j a
    using loop_entry [of j] by (simp_all add: PteIsPresent_def PteGetPhysicalAddress_def PageSizeBit_def loop_values)
  show ?thesis
    using assms by (simp add: VmmGetPhysicalAddress_def read_table_def c p e)
qed

theorem MdlAllocateEx_describes_witness:
  "\<exists>m. MdlAllocateEx 1 0x10001234 0x1000 NULL 24 loop_system = Some (Some m) \<and> unat (ByteOffset m) = 0x234 \<and>
     described (Translations m) = drop 0x234 (concat (map (\<lambda>_. page_bytes 0x100000) [0 ..< 2]))"
proof -
  have va: "AlignAddressLower 0x10001234 PAGE_SIZE = 0x10001000" by (simp add: AlignAddressLower_def)
  have page: "MmuGetPhysicalAddressEx (page_at 0x10001000 k) 24 NULL loop_system = Some 0x100000" if "k < 2" for k
  proof -
    have "k = 0 \<or> k = 1" using that by auto
    then show ?thesis
      by (auto simp: MmuGetPhysicalAddressEx_def loop_system_def loop_page demo_fields AlignAddressLower_def AddressOffset_def
        IsAddressAligned_def Let_def)
  qed
  show ?thesis
    using MdlAllocateEx_describes [of "0x10001234" "0x1000" NULL 24 1 2 loop_system "\<lambda>_. 0x100000"] page
    unfolding va by (elim meta_impE) (simp_all del: upt_rec_numeral, blast)
qed

text \<open>
  C28. A list over user memory trusts what is not mapped: when the first page of an unaligned buffer
  is not translated, \<open>MdlAllocateEx\<close> does not fail. It returns a list that describes the physical
  memory at the offset of the buffer in its page, that is, of the first frame of the machine.
\<close>

theorem MdlAllocateEx_unmapped_page:
  assumes "AlignAddressLower va PAGE_SIZE \<noteq> NULL" and n: "unat Len + unat va mod 4096 \<le> 4096" "Len \<noteq> 0"
    and "PD \<noteq> NULL" "pool \<noteq> NULL" and unmapped: "MmuGetPhysicalAddressEx (AlignAddressLower va PAGE_SIZE) PD NULL s = Some NULL"
    and unaligned: "AddressOffset va PAGE_SIZE \<noteq> 0"
  shows "MdlAllocateEx pool va Len NULL PD s = Some (Some
    \<lparr>MdlStartVa = AlignAddressLower va PAGE_SIZE, ByteCount = Len, ByteOffset = ucast (AddressOffset va PAGE_SIZE),
     Translations = [\<lparr>PairAddress = AddressOffset va PAGE_SIZE,
                      NumberOfBytes = 0x1000 - ucast (AddressOffset va PAGE_SIZE)\<rparr>]\<rparr>)"
proof -
  let ?off = "ucast (AddressOffset va PAGE_SIZE) :: DWORD"
  have off: "unat ?off = unat va mod 4096" by (simp add: unat_ucast_mod unat_AddressOffset_page)
  have sum: "unat (Len + ?off) = unat Len + unat va mod 4096" using n off by (subst unat_add_lem [THEN iffD1]) simp_all
  have "0 < unat Len" using n(2) by (simp add: unat_gt_0)
  then have one: "(unat Len + unat va mod 4096 + 4095) div 4096 = 1" using n(1) by linarith
  have size: "(ucast (AlignAddressUpper (ucast (Len + ?off)) PAGE_SIZE) :: DWORD) = 0x1000"
    using n one sum by (simp add: word_unat_eq_iff unat_ucast_mod unat_AlignAddressUpper_page)
  have "va \<noteq> NULL" using assms(1) by (auto simp: AlignAddressLower_def)
  then show ?thesis
    using assms physical_in_page [OF unmapped assms(1)]
    by (simp add: MdlAllocateEx_def Let_def size count_pairs.simps store_pairs.simps)
qed

theorem MdlAllocateEx_unmapped_page_witness:
  "\<exists>m. MdlAllocateEx 1 0x10001234 0x100 NULL 24 demo_system = Some (Some m) \<and>
     Translations m = [\<lparr>PairAddress = 0x234, NumberOfBytes = 0xDCC\<rparr>]"
proof -
  have va: "AlignAddressLower 0x10001234 PAGE_SIZE = 0x10001000" "AddressOffset 0x10001234 PAGE_SIZE = 0x234"
    by (simp_all add: AlignAddressLower_def AddressOffset_def)
  have cr3: "BasePhysicalAddress (PagingDatas demo_system 24) = 0x100000" by (simp add: demo_data_def)
  have "cr3_of demo_data 0x100000" by (simp add: cr3_of_def demo_data_def pte_address_def get_bits_def mask_eq_exp_minus_1 push_bit_eq_mult)
  then have "VmmGetPhysicalAddress 0x100000 0x10001000 demo_memory = Some NULL"
    using VmmGetPhysicalAddress_leaf [OF demo_tables, of "0x10001000" "0x100000"]
    by (simp add: demo_leaf IsAddressAligned_page dvd_eq_mod_eq_0)
  then have "MmuGetPhysicalAddressEx 0x10001000 24 NULL demo_system = Some NULL"
    unfolding MmuGetPhysicalAddressEx_def cr3 by (simp add: AlignAddressLower_def AddressOffset_def Let_def)
  then show ?thesis
    using MdlAllocateEx_unmapped_page [of "0x10001234" "0x100" 24 1 demo_system] by (simp add: va)
qed


section \<open>Checking a buffer\<close>

lemma page_no_step:
  assumes "unat (StartVa r) \<le> unat a" and "unat (a + of_nat k * PAGE_SIZE) = unat a + k * 4096"
  shows "page_no r (a + of_nat k * PAGE_SIZE) = page_no r a + k"
proof -
  have "unat a + k * 4096 - unat (StartVa r) = (unat a - unat (StartVa r)) + k * 4096" using assms(1) by simp
  then show ?thesis by (simp add: page_no_def assms(2))
qed

lemma step_address:
  assumes "unat a + k * 4096 < 2 ^ 64"
  shows "unat (a + of_nat k * PAGE_SIZE) = unat a + k * 4096" and "unat (of_nat k * PAGE_SIZE :: QWORD) = k * 4096"
proof -
  have k: "unat (of_nat (k * 4096) :: QWORD) = k * 4096" using assms by (simp only: unat_of_nat) simp
  then show *: "unat (of_nat k * PAGE_SIZE :: QWORD) = k * 4096" by simp
  show "unat (a + of_nat k * PAGE_SIZE) = unat a + k * 4096"
    using assms * by (subst unat_plus_simple) simp_all
qed

definition checked_pages :: "VMM_RESERVATION \<Rightarrow> PVOID \<Rightarrow> QWORD \<Rightarrow> bool" where
  "checked_pages r a sz \<longleftrightarrow> (\<forall>k. k * 4096 < unat sz \<longrightarrow> bit_at (CommitBitmap r) (page_no r a + k))"

lemma commited_loop_page:
  assumes ok: "reservation_ok r" and cov: "covers r a sz" and wrap: "unat a + unat sz < 2 ^ 64" and a: "a \<noteq> NULL"
    and k: "k * 4096 < unat sz"
  shows "VmIsVaCommited r (a + of_nat k * PAGE_SIZE) = Some (bit_at (CommitBitmap r) (page_no r a + k))"
proof -
  have s: "unat (a + of_nat k * PAGE_SIZE) = unat a + k * 4096" using wrap k by (intro step_address) linarith
  moreover have "unat a \<noteq> 0" using a by (simp add: word_unat_eq_iff)
  ultimately have "a + of_nat k * PAGE_SIZE \<noteq> NULL" by (auto simp: word_unat_eq_iff)
  moreover have "covers r (a + of_nat k * PAGE_SIZE) 1" using cov k s by (simp add: covers_def)
  ultimately show ?thesis
    using VmIsVaCommited_bit [OF ok, of "a + of_nat k * PAGE_SIZE" 1] page_no_step [OF _ s] cov by (simp add: covers_def)
qed

lemma all_from: "k < n \<Longrightarrow> (\<forall>j. k \<le> j \<and> j < n \<longrightarrow> P j) \<longleftrightarrow> P k \<and> (\<forall>j. Suc k \<le> j \<and> j < n \<longrightarrow> P j)" for k :: nat
  by (metis Suc_leD Suc_leI le_neq_implies_less order_refl)

lemma commited_loop:
  assumes ok: "reservation_ok r" and cov: "covers r a sz" and wrap: "unat a + unat sz < 2 ^ 64" and a: "a \<noteq> NULL"
    and n: "n = (unat sz + 4095) div 4096" and "k \<le> n" and room: "unat sz + 4096 < 2 ^ 64"
  shows "all_commited_loop r a sz (of_nat k * PAGE_SIZE) =
    Some (\<forall>j. k \<le> j \<and> j < n \<longrightarrow> bit_at (CommitBitmap r) (page_no r a + j))"
  using \<open>k \<le> n\<close>
proof (induction "n - k" arbitrary: k)
  case 0
  have "k * 4096 < 2 ^ 64" "\<not> k * 4096 < unat sz" using 0 n room by linarith+
  moreover from this(1) have "unat (of_nat k * PAGE_SIZE :: QWORD) = k * 4096"
    using step_address(2) [of 0 k] by simp
  ultimately show ?case using 0 by (subst all_commited_loop.simps) (auto simp: word_less_nat_alt)
next
  case (Suc m)
  have k: "k < n" "m = n - Suc k" "Suc k \<le> n" using Suc(2) by simp_all
  have lt: "k * 4096 < unat sz" using k(1) n by linarith
  then have "unat (of_nat k * PAGE_SIZE :: QWORD) = k * 4096" using room by (intro step_address(2) [of 0]) simp
  then have less: "(of_nat k * PAGE_SIZE :: QWORD) < sz" using lt by (simp add: word_less_nat_alt)
  let ?P = "\<lambda>j. bit_at (CommitBitmap r) (page_no r a + j)"
  have split: "(\<forall>j. k \<le> j \<and> j < n \<longrightarrow> ?P j) \<longleftrightarrow> ?P k \<and> (\<forall>j. Suc k \<le> j \<and> j < n \<longrightarrow> ?P j)"
    by (rule all_from [OF k(1)])
  have s: "(of_nat k * PAGE_SIZE :: QWORD) + PAGE_SIZE = of_nat (Suc k) * PAGE_SIZE" by (simp add: algebra_simps)
  show ?case
    using less commited_loop_page [OF ok cov wrap a lt] Suc(1) [OF k(2,3)]
    unfolding split by (subst all_commited_loop.simps) (simp add: s del: of_nat_Suc)
qed

lemma VmReservationReturnRightsForAddress_value:
  assumes ok: "space_ok rs" and a: "a \<noteq> NULL" and sz: "sz \<noteq> 0" and wrap: "unat a + unat sz < 2 ^ 64" "unat sz + 4096 < 2 ^ 64"
  shows "first_hit rs a sz i \<Longrightarrow> VmReservationReturnRightsForAddress rs a sz =
      Some (if checked_pages (Entries rs i) a sz then STATUS_SUCCESS else STATUS_MEMORY_IS_NOT_COMMITED,
            Some (PageRights (Entries rs i)))"
    and "(\<nexists>i. first_hit rs a sz i) \<Longrightarrow>
      VmReservationReturnRightsForAddress rs a sz = Some (STATUS_MEMORY_IS_NOT_COMMITED, None)"
proof -
  assume fh: "first_hit rs a sz i"
  let ?r = "Entries rs i" and ?n = "(unat sz + 4095) div 4096"
  have "reservation_ok ?r" "covers ?r a sz" using ok fh by (auto simp: space_ok_def first_hit_def)
  from commited_loop [OF this wrap(1) a refl _ wrap(2), of 0]
  have "all_commited_loop ?r a sz 0 = Some (\<forall>j < ?n. bit_at (CommitBitmap ?r) (page_no ?r a + j))" by simp
  moreover have "j < ?n \<longleftrightarrow> j * 4096 < unat sz" for j by linarith
  ultimately show "VmReservationReturnRightsForAddress rs a sz =
      Some (if checked_pages ?r a sz then STATUS_SUCCESS else STATUS_MEMORY_IS_NOT_COMMITED, Some (PageRights ?r))"
    using a sz find_first_hit [OF ok wrap(1) a sz fh]
    by (simp add: VmReservationReturnRightsForAddress_def checked_pages_def)
next
  assume "\<nexists>i. first_hit rs a sz i"
  then have "\<nexists>i. reserved rs i \<and> covers (Entries rs i) a sz" using first_hit_exists [of rs _ a sz] by blast
  then show "VmReservationReturnRightsForAddress rs a sz = Some (STATUS_MEMORY_IS_NOT_COMMITED, None)"
    using a sz find_no_hit [OF ok wrap(1) a sz] by (simp add: VmReservationReturnRightsForAddress_def)
qed


lemma failure_statuses [simp]:
  "\<not> SUCCEEDED STATUS_MEMORY_IS_NOT_COMMITED" "\<not> SUCCEEDED STATUS_MEMORY_PREVENTS_USERMODE_ACCESS"
  "\<not> SUCCEEDED STATUS_MEMORY_INSUFFICIENT_ACCESS_RIGHTS" "SUCCEEDED STATUS_SUCCESS"
  by (simp_all add: SUCCEEDED_def FAIL_MASK_def STATUS_MEMORY_IS_NOT_COMMITED_def STATUS_SUCCESS_def
      STATUS_MEMORY_PREVENTS_USERMODE_ACCESS_def STATUS_MEMORY_INSUFFICIENT_ACCESS_RIGHTS_def)

definition buffer_space :: "PVOID \<Rightarrow> vm_system \<Rightarrow> VMM_RESERVATION_SPACE" where
  "buffer_space P s = VaSpaces s (ProcessVaSpace (Processes s P))"

definition buffer_ok :: "PVOID \<Rightarrow> vm_system \<Rightarrow> PVOID \<Rightarrow> QWORD \<Rightarrow> DWORD \<Rightarrow> bool" where
  "buffer_ok P s a sz rights \<longleftrightarrow>
     (KernelSpace (PagingDatas s (ProcessPagingData (Processes s P))) \<or>
        \<not> VmIsKernelAddress a \<and> \<not> VmIsKernelAddress (a + (sz - 1))) \<and>
     (\<exists>i. first_hit (buffer_space P s) a sz i \<and> checked_pages (Entries (buffer_space P s) i) a sz \<and>
        IsBooleanFlagOn (PageRights (Entries (buffer_space P s) i)) rights)"

lemma MmuIsBufferValid_value:
  assumes ok: "space_ok (buffer_space P s)" and "a \<noteq> NULL" "sz \<noteq> 0" "P \<noteq> NULL" "ProcessVaSpace (Processes s P) \<noteq> NULL"
    and wrap: "unat a + unat sz < 2 ^ 64" "unat sz + 4096 < 2 ^ 64"
  shows "\<exists>st. MmuIsBufferValid a sz rights P s = Some st \<and> (SUCCEEDED st \<longleftrightarrow> buffer_ok P s a sz rights)"
proof (cases "\<exists>i. first_hit (buffer_space P s) a sz i")
  case True
  then obtain i where i: "first_hit (buffer_space P s) a sz i" by blast
  have uniq: "j = i" if "first_hit (buffer_space P s) a sz j" for j
    using that i unfolding first_hit_def by (metis linorder_less_linear)
  let ?r = "Entries (buffer_space P s) i"
  have bo: "buffer_ok P s a sz rights \<longleftrightarrow>
      (KernelSpace (PagingDatas s (ProcessPagingData (Processes s P))) \<or>
        \<not> VmIsKernelAddress a \<and> \<not> VmIsKernelAddress (a + (sz - 1))) \<and>
      checked_pages ?r a sz \<and> IsBooleanFlagOn (PageRights ?r) rights"
    unfolding buffer_ok_def using i uniq by blast
  have ret: "VmReservationReturnRightsForAddress (VaSpaces s (ProcessVaSpace (Processes s P))) a sz =
      Some (if checked_pages ?r a sz then STATUS_SUCCESS else STATUS_MEMORY_IS_NOT_COMMITED, Some (PageRights ?r))"
    using VmReservationReturnRightsForAddress_value(1) [OF ok assms(2,3) wrap i] by (simp add: buffer_space_def)
  show ?thesis
    unfolding bo using assms(2-5)
    by (simp add: MmuIsBufferValid_def VmmIsBufferValid_def VmIsKernelRange_def ret Let_def)
next
  case False
  then show ?thesis
    using assms(2-5) VmReservationReturnRightsForAddress_value(2) [OF ok assms(2,3) wrap False]
    by (auto simp: MmuIsBufferValid_def VmmIsBufferValid_def VmIsKernelRange_def buffer_ok_def buffer_space_def Let_def)
qed

text \<open>Every byte of the checked pages may be accessed: all of the buffer when it starts on a page.\<close>

lemma checked_byte:
  assumes cov: "covers r a sz" and pages: "checked_pages r a sz" and k: "k * 4096 < unat sz"
    and x: "page_no r x = page_no r a + k"
  shows "bit_at (CommitBitmap r) (page_no r x)"
  using pages k unfolding x checked_pages_def by blast

lemma aligned_bytes_checked:
  assumes cov: "covers r a sz" and "4096 dvd unat a" "4096 dvd unat (StartVa r)"
    and x: "unat a \<le> unat x" "unat x < unat a + unat sz"
  shows "\<exists>k. k * 4096 < unat sz \<and> page_no r x = page_no r a + k"
proof (intro exI conjI)
  let ?k = "(unat x - unat a) div 4096"
  show "?k * 4096 < unat sz" using x by (metis div_times_less_eq_dividend le_less_trans less_diff_conv2 add.commute)
  obtain m n where m: "unat a = 4096 * m" "unat (StartVa r) = 4096 * n" using assms(2,3) by (auto elim!: dvdE)
  have "n \<le> m" using cov m by (simp add: covers_def)
  then have "unat x - unat (StartVa r) = (unat x - unat a) + (m - n) * 4096" using x m by (simp add: algebra_simps)
  then show "page_no r x = page_no r a + ?k"
    using \<open>n \<le> m\<close> m by (simp add: page_no_def diff_mult_distrib2 [symmetric])
qed

section \<open>Properties of the check\<close>

text \<open>
  C29. The check of a user buffer decides: for a buffer that does not wrap around it always returns,
  and returns success exactly when some reservation covers the buffer, grants the rights, has every
  page that the loop looks at committed, and the buffer does not start or end in the kernel's half
  (unless it is checked for the kernel). When the buffer starts on a page, success means that each of
  its bytes is inside the reservation, committed and granted.
\<close>

theorem MmuIsBufferValid_iff:
  assumes "space_ok (buffer_space P s)" and "a \<noteq> NULL" "sz \<noteq> 0" "P \<noteq> NULL" "ProcessVaSpace (Processes s P) \<noteq> NULL"
    and "unat a + unat sz < 2 ^ 64" "unat sz + 4096 < 2 ^ 64"
  shows "\<exists>st. MmuIsBufferValid a sz rights P s = Some st \<and> (SUCCEEDED st \<longleftrightarrow> buffer_ok P s a sz rights) \<and>
    (SUCCEEDED st \<and> 4096 dvd unat a \<longrightarrow> (\<exists>i. reserved (buffer_space P s) i \<and>
       IsBooleanFlagOn (PageRights (Entries (buffer_space P s) i)) rights \<and>
       (\<forall>x. unat a \<le> unat x \<and> unat x < unat a + unat sz \<longrightarrow> covers (Entries (buffer_space P s) i) x 1 \<and>
          bit_at (CommitBitmap (Entries (buffer_space P s) i)) (page_no (Entries (buffer_space P s) i) x))))"
proof -
  obtain st where st: "MmuIsBufferValid a sz rights P s = Some st" "SUCCEEDED st \<longleftrightarrow> buffer_ok P s a sz rights"
    using MmuIsBufferValid_value [OF assms] by blast
  have "\<exists>i. reserved (buffer_space P s) i \<and> IsBooleanFlagOn (PageRights (Entries (buffer_space P s) i)) rights \<and>
      (\<forall>x. unat a \<le> unat x \<and> unat x < unat a + unat sz \<longrightarrow> covers (Entries (buffer_space P s) i) x 1 \<and>
        bit_at (CommitBitmap (Entries (buffer_space P s) i)) (page_no (Entries (buffer_space P s) i) x))"
    if good: "SUCCEEDED st" and al: "4096 dvd unat a"
  proof -
    obtain i where i: "first_hit (buffer_space P s) a sz i" "checked_pages (Entries (buffer_space P s) i) a sz"
        "IsBooleanFlagOn (PageRights (Entries (buffer_space P s) i)) rights"
      using good st(2) unfolding buffer_ok_def by blast
    let ?r = "Entries (buffer_space P s) i"
    have r: "covers ?r a sz" "4096 dvd unat (StartVa ?r)" "reserved (buffer_space P s) i"
      using i(1) assms(1) by (auto simp: first_hit_def space_ok_def reservation_ok_def)
    have "covers ?r x 1 \<and> bit_at (CommitBitmap ?r) (page_no ?r x)"
      if "unat a \<le> unat x" "unat x < unat a + unat sz" for x
      using aligned_bytes_checked [OF r(1) al r(2) that] checked_byte [OF r(1) i(2)] r(1) that
      by (auto simp: covers_def)
    with i(3) r(3) show ?thesis by blast
  qed
  with st show ?thesis by blast
qed

theorem MmuIsBufferValid_iff_witness:
  "\<exists>st. MmuIsBufferValid 0x10000000 0x2000 PAGE_RIGHTS_WRITE 40 demo_system = Some st \<and> SUCCEEDED st"
proof -
  have sp: "buffer_space 40 demo_system = demo_space" by (simp add: buffer_space_def)
  have "k < 2" if "k * 4096 < unat (0x2000 :: QWORD)" for k using that by simp
  moreover have "bit_at (CommitBitmap demo_reservation) 0" "bit_at (CommitBitmap demo_reservation) 1"
    by (simp_all add: demo_reservation_def bit_at_def BitmapGetBit_def IsBooleanFlagOn_def)
  then have "bit_at (CommitBitmap demo_reservation) k" if "k < 2" for k
    using that by (cases "k = 0") (simp_all add: less_2_cases_iff)
  moreover have "page_no demo_reservation 0x10000000 = 0" by (simp add: page_no_def demo_reservation_def)
  ultimately have "checked_pages demo_reservation 0x10000000 0x2000" by (simp add: checked_pages_def)
  moreover have "first_hit demo_space 0x10000000 0x2000 0"
    by (simp add: first_hit_def demo_entry covers_def demo_reservation_def)
  ultimately have "buffer_ok 40 demo_system 0x10000000 0x2000 PAGE_RIGHTS_WRITE"
    by (auto simp: buffer_ok_def sp demo_entry VmIsKernelAddress_def IsBooleanFlagOn_def push_bit_eq_mult
      intro!: exI [of _ "0 :: nat"]) (simp add: demo_reservation_def)
  moreover have "ProcessVaSpace (Processes demo_system 40) \<noteq> NULL" by (simp add: demo_system_def)
  ultimately show ?thesis
    using MmuIsBufferValid_iff [of 40 demo_system "0x10000000" "0x2000" PAGE_RIGHTS_WRITE] demo_space_ok
    unfolding sp by simp blast
qed


lemma page_end:
  fixes m n :: nat
  assumes "4096 dvd n" and "n \<le> m" and "\<not> 4096 dvd m"
  shows "(m + 4095 - n) div 4096 = (m - n) div 4096 + 1"
proof -
  define q w where "q = (m - n) div 4096" and "w = (m - n) mod 4096"
  have d: "m - n = q * 4096 + w" by (simp add: q_def w_def)
  have "m = n + (m - n)" using assms(2) by simp
  then have "\<not> 4096 dvd m - n" using assms(1,3) by (metis dvd_add)
  then have "0 < w" "w < 4096" by (simp_all add: w_def dvd_eq_mod_eq_0)
  moreover have "m + 4095 - n = (q + 1) * 4096 + (w - 1)" using d assms(2) \<open>0 < w\<close> by simp
  ultimately show ?thesis using d by simp
qed

text \<open>
  C30. The check looks at one address per page size from the start of the buffer, so it misses the last
  page of a buffer that does not start on a page: a buffer of one page whose first page is committed
  and whose second page is not passes the check, although its last byte is in a page that is not
  committed.
\<close>

theorem MmuIsBufferValid_misses_last_page:
  assumes "space_ok (buffer_space P s)" and "a \<noteq> NULL" "P \<noteq> NULL" "ProcessVaSpace (Processes s P) \<noteq> NULL"
    and "unat a + 4096 < 2 ^ 64" and unaligned: "\<not> 4096 dvd unat a"
    and user: "\<not> VmIsKernelAddress a" "\<not> VmIsKernelAddress (a + 0xFFF)"
    and hit: "first_hit (buffer_space P s) a 0x1000 i" and r: "r = Entries (buffer_space P s) i"
    and bits: "bit_at (CommitBitmap r) (page_no r a)" "\<not> bit_at (CommitBitmap r) (page_no r a + 1)"
    and rights: "IsBooleanFlagOn (PageRights r) rights"
  shows "(\<exists>st. MmuIsBufferValid a 0x1000 rights P s = Some st \<and> SUCCEEDED st) \<and>
    covers r (a + 0xFFF) 1 \<and> \<not> bit_at (CommitBitmap r) (page_no r (a + 0xFFF))"
proof -
  have k: "k * 4096 < unat (0x1000 :: QWORD) \<longleftrightarrow> k = 0" for k by auto
  have "buffer_ok P s a 0x1000 rights"
    using user hit bits(1) rights unfolding buffer_ok_def r checked_pages_def k by auto
  moreover have last: "unat (a + 0xFFF) = unat a + 4095" using assms(5) by (subst unat_plus_simple) simp_all
  have cov: "covers r a 0x1000" "4096 dvd unat (StartVa r)"
    using hit assms(1) by (auto simp: r first_hit_def space_ok_def reservation_ok_def)
  then have page: "page_no r (a + 0xFFF) = page_no r a + 1"
    using unaligned page_end [of "unat (StartVa r)" "unat a"] unfolding page_no_def last covers_def by simp
  have "covers r (a + 0xFFF) 1" using cov(1) last by (simp add: covers_def)
  ultimately show ?thesis
    using MmuIsBufferValid_value [of P s a "0x1000" rights] assms(1-5) bits(2) unfolding page by auto
qed

theorem MmuIsBufferValid_misses_last_page_witness:
  "\<exists>st. MmuIsBufferValid 0x10001001 0x1000 PAGE_RIGHTS_WRITE 40 demo_system = Some st \<and> SUCCEEDED st"
proof -
  have sp: "buffer_space 40 demo_system = demo_space" by (simp add: buffer_space_def)
  have hit: "first_hit demo_space 0x10001001 0x1000 0"
    by (simp add: first_hit_def demo_entry covers_def demo_reservation_def)
  have page: "page_no demo_reservation 0x10001001 = 1" by (simp add: page_no_def demo_reservation_def)
  have bits: "bit_at (CommitBitmap demo_reservation) 1" "\<not> bit_at (CommitBitmap demo_reservation) 2"
    by (simp_all add: demo_reservation_def bit_at_def BitmapGetBit_def IsBooleanFlagOn_def)
  then have "\<not> bit_at (CommitBitmap demo_reservation) (1 + 1)" by (simp add: numeral_2_eq_2)
  moreover have "IsBooleanFlagOn (PageRights demo_reservation) PAGE_RIGHTS_WRITE"
    by (simp add: demo_reservation_def IsBooleanFlagOn_def)
  moreover have "ProcessVaSpace (Processes demo_system 40) \<noteq> NULL" by (simp add: demo_system_def)
  ultimately show ?thesis
    using MmuIsBufferValid_misses_last_page [of 40 demo_system "0x10001001" 0 demo_reservation PAGE_RIGHTS_WRITE]
      demo_space_ok hit bits(1)
    unfolding sp demo_entry page
    by (simp add: VmIsKernelAddress_def IsBooleanFlagOn_def push_bit_eq_mult dvd_eq_mod_eq_0)
qed

end
