(* ===== verification/PeParser.thy ===== *)
theory PeParser
  imports Prelude
begin

text \<open>
  The parser of 64-bit PE images, \<^verbatim>\<open>PE_Parser/src/pe_parser.c\<close>. Memory is a partial function on
  addresses, and a read of an address that is not mapped is the result \<open>None\<close> of the whole call. A
  call returns its status and, on success, the structure it fills in.
\<close>

section \<open>Reading structures\<close>

type_synonym image = "PVOID \<Rightarrow> BYTE option"

fun read_bytes :: "image \<Rightarrow> PVOID \<Rightarrow> nat \<Rightarrow> nat option" where
  "read_bytes m a 0 = Some 0"
| "read_bytes m a (Suc n) = do { b \<leftarrow> m a; v \<leftarrow> read_bytes m (a + 1) n; Some (unat b + 256 * v) }"

lemma read_bytes_numeral [simp]: "read_bytes m a (numeral k) =
    do { b \<leftarrow> m a; v \<leftarrow> read_bytes m (a + 1) (pred_numeral k); Some (unat b + 256 * v) }"
  by (simp add: numeral_eq_Suc)

definition read_WORD :: "image \<Rightarrow> PVOID \<Rightarrow> WORD option" where
  "read_WORD m a = map_option of_nat (read_bytes m a 2)"

definition read_DWORD :: "image \<Rightarrow> PVOID \<Rightarrow> DWORD option" where
  "read_DWORD m a = map_option of_nat (read_bytes m a 4)"

definition read_QWORD :: "image \<Rightarrow> PVOID \<Rightarrow> QWORD option" where
  "read_QWORD m a = map_option of_nat (read_bytes m a 8)"

record PE_NT_HEADER_INFO =
  ImageBase :: PVOID
  NtBase :: PVOID
  AddressOfEntryPoint :: PVOID
  ImageAlignment :: DWORD
  FileAlignment :: DWORD
  PreferredImageBase :: PVOID
  PreferredAddressOfEntryPoint :: PVOID
  ImageSize :: DWORD
  Machine :: WORD
  Subsystem :: WORD
  SizeOfHeaders :: DWORD
  NumberOfSections :: DWORD

record PE_SECTION_INFO =
  SectionBase :: PVOID
  SectionSize :: DWORD
  Characteristics :: DWORD

record PE_DATA_DIRECTORY =
  DirectoryBase :: PVOID
  DirectorySize :: DWORD

definition STATUS_INVALID_MZ_IMAGE :: STATUS where "STATUS_INVALID_MZ_IMAGE = 0x88000023"
definition STATUS_INVALID_IMAGE_SIZE :: STATUS where "STATUS_INVALID_IMAGE_SIZE = 0x88000024"
definition STATUS_INVALID_PE_IMAGE :: STATUS where "STATUS_INVALID_PE_IMAGE = 0x88000025"

lemma pe_status_failed [simp]:
  "\<not> SUCCEEDED STATUS_INVALID_MZ_IMAGE" "\<not> SUCCEEDED STATUS_INVALID_IMAGE_SIZE" "\<not> SUCCEEDED STATUS_INVALID_PE_IMAGE"
  "\<not> SUCCEEDED STATUS_INVALID_PARAMETER1" "\<not> SUCCEEDED STATUS_INVALID_PARAMETER2"
  "\<not> SUCCEEDED STATUS_INVALID_PARAMETER3" "\<not> SUCCEEDED STATUS_UNSUPPORTED"
  by (simp_all add: SUCCEEDED_def status_defs FAIL_MASK_def STATUS_INVALID_MZ_IMAGE_def STATUS_INVALID_IMAGE_SIZE_def
    STATUS_INVALID_PE_IMAGE_def)

abbreviation MZ_SIGNATURE :: WORD where "MZ_SIGNATURE \<equiv> 0x5A4D"
abbreviation NT_SIGNATURE :: DWORD where "NT_SIGNATURE \<equiv> 0x00004550"
abbreviation IMAGE_FILE_MACHINE_AMD64 :: WORD where "IMAGE_FILE_MACHINE_AMD64 \<equiv> 0x8664"
abbreviation IMAGE_DIRECTORY_ENTRY_COM_DESCRIPTOR :: BYTE where "IMAGE_DIRECTORY_ENTRY_COM_DESCRIPTOR \<equiv> 14"
abbreviation IMAGE_DIRECTORY_ENTRY_BASERELOC :: BYTE where "IMAGE_DIRECTORY_ENTRY_BASERELOC \<equiv> 5"
abbreviation sizeof_IMAGE_NT_HEADERS64 :: QWORD where "sizeof_IMAGE_NT_HEADERS64 \<equiv> 264"
abbreviation sizeof_IMAGE_SECTION_HEADER :: QWORD where "sizeof_IMAGE_SECTION_HEADER \<equiv> 40"
abbreviation sizeof_IMAGE_DATA_DIRECTORY :: QWORD where "sizeof_IMAGE_DATA_DIRECTORY \<equiv> 8"

section \<open>The operations\<close>

text \<open>Out parameters are their addresses, compared with NULL only; a NULL \<open>NtInfo\<close> is \<open>None\<close>.\<close>

definition PeRetrieveNtHeader ::
    "image \<Rightarrow> PVOID \<Rightarrow> DWORD \<Rightarrow> PVOID \<Rightarrow> (STATUS \<times> PE_NT_HEADER_INFO option) option" where
  "PeRetrieveNtHeader m Base Sz NtInfo =
     (if NULL = Base then Some (STATUS_INVALID_PARAMETER1, None)
      else if 0 = Sz then Some (STATUS_INVALID_PARAMETER2, None)
      else if NULL = NtInfo then Some (STATUS_INVALID_PARAMETER3, None)
      else do {
        e_magic \<leftarrow> read_WORD m Base;
        (if MZ_SIGNATURE \<noteq> e_magic then Some (STATUS_INVALID_MZ_IMAGE, None)
         else do {
           e_lfanew \<leftarrow> read_DWORD m (Base + 60);
           let nt = Base + scast e_lfanew;
           (if \<not> CHECK_BOUNDS nt sizeof_IMAGE_NT_HEADERS64 Base (ucast Sz) then Some (STATUS_INVALID_IMAGE_SIZE, None)
            else do {
              Signature \<leftarrow> read_DWORD m nt;
              (if NT_SIGNATURE \<noteq> Signature then Some (STATUS_INVALID_PE_IMAGE, None)
               else do {
                 sizeOfImage \<leftarrow> read_DWORD m (nt + 80);
                 machine \<leftarrow> read_WORD m (nt + 4);
                 subsystem \<leftarrow> read_WORD m (nt + 92);
                 entry \<leftarrow> read_DWORD m (nt + 40);
                 sizeOfHeaders \<leftarrow> read_DWORD m (nt + 84);
                 sections \<leftarrow> read_WORD m (nt + 6);
                 sectionAlignment \<leftarrow> read_DWORD m (nt + 56);
                 fileAlignment \<leftarrow> read_DWORD m (nt + 60);
                 preferredBase \<leftarrow> read_QWORD m (nt + 48);
                 Some (STATUS_SUCCESS, Some
                   \<lparr>ImageBase = Base, NtBase = nt, AddressOfEntryPoint = Base + ucast entry,
                    ImageAlignment = sectionAlignment, FileAlignment = fileAlignment,
                    PreferredImageBase = preferredBase, PreferredAddressOfEntryPoint = preferredBase + ucast entry,
                    ImageSize = sizeOfImage, Machine = machine, Subsystem = subsystem,
                    SizeOfHeaders = sizeOfHeaders, NumberOfSections = ucast sections\<rparr>)
               })
            })
         })
      })"

definition PeRetrieveSection ::
    "image \<Rightarrow> PE_NT_HEADER_INFO option \<Rightarrow> DWORD \<Rightarrow> PVOID \<Rightarrow> (STATUS \<times> PE_SECTION_INFO option) option" where
  "PeRetrieveSection m Nt SectionIndex SectionInfo =
     (case Nt of None \<Rightarrow> Some (STATUS_INVALID_PARAMETER1, None)
      | Some NtInfo \<Rightarrow>
      if SectionIndex \<ge> NumberOfSections NtInfo then Some (STATUS_INVALID_PARAMETER2, None)
      else if NULL = SectionInfo then Some (STATUS_INVALID_PARAMETER3, None)
      else if IMAGE_FILE_MACHINE_AMD64 \<noteq> Machine NtInfo then Some (STATUS_UNSUPPORTED, None)
      else do {
        let pNt = NtBase NtInfo;
        sizeOfOptionalHeader \<leftarrow> read_WORD m (pNt + 20);
        let pSections = pNt + 4 + 20 + ucast sizeOfOptionalHeader;
        (if \<not> CHECK_BOUNDS pSections (sizeof_IMAGE_SECTION_HEADER * ucast (NumberOfSections NtInfo))
              (ImageBase NtInfo) (ucast (ImageSize NtInfo))
         then Some (STATUS_INVALID_IMAGE_SIZE, None)
         else do {
           let pSection = pSections + sizeof_IMAGE_SECTION_HEADER * ucast SectionIndex;
           virtualAddress \<leftarrow> read_DWORD m (pSection + 12);
           virtualSize \<leftarrow> read_DWORD m (pSection + 8);
           characteristics \<leftarrow> read_DWORD m (pSection + 36);
           let section = \<lparr>SectionBase = ImageBase NtInfo + ucast virtualAddress, SectionSize = virtualSize,
                          Characteristics = characteristics\<rparr>;
           Some (if \<not> CHECK_BOUNDS (SectionBase section) (ucast (SectionSize section)) (ImageBase NtInfo)
                       (ucast (ImageSize NtInfo))
                 then (STATUS_INVALID_IMAGE_SIZE, None) else (STATUS_SUCCESS, Some section))
         })
      })"

definition PeRetrieveDataDirectory ::
    "image \<Rightarrow> PE_NT_HEADER_INFO option \<Rightarrow> BYTE \<Rightarrow> PVOID \<Rightarrow> (STATUS \<times> PE_DATA_DIRECTORY option) option" where
  "PeRetrieveDataDirectory m Nt DataDirectory DataDirectoryInfo =
     (case Nt of None \<Rightarrow> Some (STATUS_INVALID_PARAMETER1, None)
      | Some NtInfo \<Rightarrow>
      if IMAGE_DIRECTORY_ENTRY_COM_DESCRIPTOR < DataDirectory then Some (STATUS_INVALID_PARAMETER2, None)
      else if NULL = DataDirectoryInfo then Some (STATUS_INVALID_PARAMETER3, None)
      else if IMAGE_FILE_MACHINE_AMD64 \<noteq> Machine NtInfo then Some (STATUS_UNSUPPORTED, None)
      else do {
        let pNt = NtBase NtInfo;
        numberOfRvaAndSizes \<leftarrow> read_DWORD m (pNt + 132);
        (if ucast DataDirectory \<ge> numberOfRvaAndSizes then Some (STATUS_INVALID_PARAMETER2, None)
         else do {
           let pDataDirectory = pNt + 136 + sizeof_IMAGE_DATA_DIRECTORY * ucast DataDirectory;
           (if \<not> CHECK_BOUNDS pDataDirectory sizeof_IMAGE_DATA_DIRECTORY (ImageBase NtInfo) (ucast (ImageSize NtInfo))
            then Some (STATUS_INVALID_IMAGE_SIZE, None)
            else do {
              virtualAddress \<leftarrow> read_DWORD m pDataDirectory;
              sz \<leftarrow> read_DWORD m (pDataDirectory + 4);
              let directory = \<lparr>DirectoryBase = ImageBase NtInfo + ucast virtualAddress, DirectorySize = sz\<rparr>;
              Some (if \<not> CHECK_BOUNDS (DirectoryBase directory) (ucast (DirectorySize directory)) (ImageBase NtInfo)
                          (ucast (ImageSize NtInfo))
                    then (STATUS_INVALID_IMAGE_SIZE, None) else (STATUS_SUCCESS, Some directory))
            })
         })
      })"

section \<open>Reads inside the image\<close>

text \<open>
  The first \<open>n\<close> bytes from \<open>base\<close> are mapped. They lie 4 GB above the start and 8 GB below the end of
  the address space, as every buffer of the kernel does.
\<close>

definition loaded :: "image \<Rightarrow> PVOID \<Rightarrow> nat \<Rightarrow> bool" where
  "loaded m base n \<longleftrightarrow> 2 ^ 32 \<le> unat base \<and> unat base + n + 2 ^ 33 < 2 ^ 64 \<and> (\<forall>i < n. m (base + of_nat i) \<noteq> None)"

definition inside :: "PVOID \<Rightarrow> nat \<Rightarrow> PVOID \<Rightarrow> nat \<Rightarrow> bool" where
  "inside a k base n \<longleftrightarrow> unat base \<le> unat a \<and> unat a + k \<le> unat base + n"

lemma loaded_at:
  assumes "loaded m base n" and "inside a 1 base n"
  shows "m a \<noteq> None"
proof -
  have "base \<le> a" using assms(2) by (simp add: inside_def word_le_nat_alt)
  then have "unat (a - base) = unat a - unat base" by (simp add: unat_sub)
  then have "of_nat (unat a - unat base) = a - base" by (metis of_nat_unat ucast_id)
  then have "a = base + of_nat (unat a - unat base)" by simp
  moreover have "unat a - unat base < n" using assms(2) by (auto simp: inside_def)
  ultimately show ?thesis using assms(1) unfolding loaded_def by metis
qed

lemma read_bytes_loaded:
  "loaded m base n \<Longrightarrow> inside a k base n \<Longrightarrow> \<exists>v. read_bytes m a k = Some v"
proof (induction k arbitrary: a)
  case (Suc k)
  have "m a \<noteq> None" by (rule loaded_at [OF Suc.prems(1)]) (use Suc.prems(2) in \<open>simp add: inside_def\<close>)
  moreover have "unat (a + 1) = unat a + 1 \<or> k = 0"
  proof (cases "k = 0")
    case False
    then have "unat a + 1 < 2 ^ 64" using Suc.prems unfolding inside_def loaded_def by linarith
    then show ?thesis by (simp add: unat_word_ariths)
  qed simp
  then have "\<exists>v. read_bytes m (a + 1) k = Some v"
    using Suc.IH [of "a + 1"] Suc.prems by (auto simp: inside_def)
  ultimately show ?case by auto
qed simp

lemma reads_loaded:
  "loaded m base n \<Longrightarrow> inside a 2 base n \<Longrightarrow> \<exists>v. read_WORD m a = Some v"
  "loaded m base n \<Longrightarrow> inside a 4 base n \<Longrightarrow> \<exists>v. read_DWORD m a = Some v"
  "loaded m base n \<Longrightarrow> inside a 8 base n \<Longrightarrow> \<exists>v. read_QWORD m a = Some v"
  using read_bytes_loaded by (fastforce simp: read_WORD_def read_DWORD_def read_QWORD_def)+


text \<open>An offset of at most 4 GB from the base of an image does not wrap around.\<close>

lemma unat_offset:
  assumes "loaded m base n" and "inside a 0 base n" and "unat k < 2 ^ 32"
  shows "unat (a + k) = unat a + unat k"
  using assms by (intro unat_plus_simple) (auto simp: loaded_def inside_def)

lemma CHECK_BOUNDS_inside:
  assumes "loaded m base n" and "unat sz \<le> n" and "CHECK_BOUNDS a k base sz" and "unat a + unat k < 2 ^ 64"
  shows "inside a (unat k) base n"
proof -
  have "unat (base + sz) = unat base + unat sz"
    using assms(1,2) by (intro unat_plus_simple) (simp add: loaded_def)
  moreover have "unat (a + k) = unat a + unat k" using assms(4) by (intro unat_plus_simple) simp
  ultimately show ?thesis using assms(2,3) by (simp add: CHECK_BOUNDS_def inside_def word_le_nat_alt)
qed

lemma inside_part:
  "inside a k base n \<Longrightarrow> unat (a + d) = unat a + unat d \<Longrightarrow> unat d + j \<le> k \<Longrightarrow> inside (a + d) j base n"
  by (simp add: inside_def)

text \<open>The new header of the image: an offset of 32 bits with sign that passes the bounds check.\<close>

lemma nt_inside:
  assumes ld: "loaded m base (unat Sz)" and chk: "CHECK_BOUNDS (base + scast (e :: DWORD)) 264 base (ucast (Sz :: DWORD))"
  shows "inside (base + scast e) 264 base (unat Sz)"
proof -
  have b: "2 ^ 32 \<le> unat base" "unat base + unat Sz + 2 ^ 33 < 2 ^ 64" using ld by (simp_all add: loaded_def)
  have u: "unat (ucast Sz :: QWORD) = unat Sz" by (rule unat_ucast_up) simp
  have se: "- 2147483648 \<le> sint e" "sint e < 2147483648"
    using sint_ge [of e] sint_lt [of e] by simp_all
  have eq: "base + scast e = word_of_int (uint base + sint e)" by simp
  have b1: "4294967296 \<le> uint base" using of_nat_mono [OF b(1), where 'a = int] by simp
  have b2: "uint base + uint Sz + 8589934592 < 18446744073709551616"
    using of_nat_less_iff [where 'a = int, THEN iffD2, OF b(2)] by simp
  have b3: "uint base < 18446744065119617024" using b2 uint_ge_0 [of Sz] by linarith
  have rng: "0 \<le> uint base + sint e" "uint base + sint e < 2 ^ 64" using se b1 b3 by simp_all
  have "uint (base + scast e) = (uint base + sint e) mod 2 ^ 64"
    unfolding eq by (simp only: uint_word_of_int) simp
  also have "\<dots> = uint base + sint e" by (rule mod_pos_pos_trivial [OF rng])
  finally have "uint (base + scast e) + 264 < 18446744073709551616" using se b3 by linarith
  then have "int (unat (base + scast e) + 264) < int (2 ^ 64)" by simp
  then have "unat (base + scast e) + 264 < 2 ^ 64" unfolding of_nat_less_iff .
  from CHECK_BOUNDS_inside [OF ld _ chk] this show ?thesis by (simp add: u)
qed


lemma part_inside:
  assumes "loaded m base n" and "inside a k base n" and "unat d + j \<le> k" and "unat d < 2 ^ 32"
  shows "inside (a + d) j base n"
proof (rule inside_part [OF assms(2) _ assms(3)])
  have "inside a 0 base n" using assms(2) by (simp add: inside_def)
  then show "unat (a + d) = unat a + unat d" using unat_offset [OF assms(1)] assms(4) by blast
qed

lemmas read_parts = reads_loaded [OF _ part_inside]

text \<open>What the header promises to the other operations.\<close>

definition header_ok :: "PVOID \<Rightarrow> nat \<Rightarrow> PE_NT_HEADER_INFO \<Rightarrow> bool" where
  "header_ok base n h \<longleftrightarrow> ImageBase h = base \<and> inside (NtBase h) 264 base n \<and> unat (NumberOfSections h) < 2 ^ 16"

lemma PeRetrieveNtHeader_ok:
  assumes ld: "loaded m base (unat Sz)" and dos: "64 \<le> unat Sz" and "NtInfo \<noteq> NULL"
  shows "\<exists>status info. PeRetrieveNtHeader m base Sz NtInfo = Some (status, info) \<and> (SUCCEEDED status \<longleftrightarrow> info \<noteq> None) \<and>
    (\<forall>h. info = Some h \<longrightarrow> header_ok base (unat Sz) h)"
proof -
  have base: "inside base (unat Sz) base (unat Sz)" by (simp add: inside_def)
  have nn: "base \<noteq> NULL" "Sz \<noteq> 0" using ld dos by (auto simp: loaded_def)
  obtain magic where magic: "read_WORD m base = Some magic"
    using reads_loaded(1) [OF ld, of base] dos by (auto simp: inside_def)
  obtain e where e: "read_DWORD m (base + 60) = Some e"
    using read_parts(2) [OF ld ld base, of 60] dos by auto
  show ?thesis
  proof (cases "magic = MZ_SIGNATURE \<and> CHECK_BOUNDS (base + scast e) sizeof_IMAGE_NT_HEADERS64 base (ucast Sz)")
    case False
    then show ?thesis using nn assms(3) magic e by (auto simp: PeRetrieveNtHeader_def)
  next
    case True
    define nt where "nt = base + scast e"
    from True have nt: "inside nt 264 base (unat Sz)" unfolding nt_def by (intro nt_inside [OF ld]) simp
    note rd = read_parts [OF ld ld nt]
    obtain sig v80 v4 v92 v40 v84 v6 v56 v60 v48 where
      r: "read_DWORD m nt = Some sig" "read_DWORD m (nt + 80) = Some v80" "read_WORD m (nt + 4) = Some v4"
        "read_WORD m (nt + 92) = Some v92" "read_DWORD m (nt + 40) = Some v40" "read_DWORD m (nt + 84) = Some v84"
        "read_WORD m (nt + 6) = Some v6" "read_DWORD m (nt + 56) = Some v56" "read_DWORD m (nt + 60) = Some v60"
        "read_QWORD m (nt + 48) = Some v48"
      using rd(2) [of 0] rd(2) [of 80] rd(1) [of 4] rd(1) [of 92] rd(2) [of 40] rd(2) [of 84] rd(1) [of 6]
        rd(2) [of 56] rd(2) [of 60] rd(3) [of 48] by auto
    have "unat (ucast v6 :: DWORD) < 2 ^ 16" using unat_less_2p [of v6] by (simp add: unat_ucast_up)
    with True nt nn assms(3) magic e r show ?thesis
      by (auto simp: PeRetrieveNtHeader_def header_ok_def simp flip: nt_def)
  qed
qed

text \<open>A 32-bit offset and a 32-bit size from the base of an image do not wrap around.\<close>

lemma range_32:
  assumes "loaded m base n"
  shows "unat (base + ucast (va :: DWORD)) + unat (ucast (sz :: DWORD) :: QWORD) < 2 ^ 64"
proof -
  have "unat (base + ucast va) \<le> unat base + unat va"
    by (simp add: unat_word_ariths unat_ucast_up)
  moreover have "unat va < 2 ^ 32" "unat sz < 2 ^ 32" using unat_less_2p [of va] unat_less_2p [of sz] by simp_all
  ultimately show ?thesis using assms by (simp add: loaded_def unat_ucast_up)
qed

lemma PeRetrieveSection_ok:
  assumes ld: "loaded m base n" and h: "header_ok base n h" and size: "unat (ImageSize h) \<le> n" and "p \<noteq> NULL"
  shows "\<exists>status sec. PeRetrieveSection m (Some h) i p = Some (status, sec) \<and> (SUCCEEDED status \<longleftrightarrow> sec \<noteq> None) \<and>
    (\<forall>x. sec = Some x \<longrightarrow> inside (SectionBase x) (unat (SectionSize x)) base n)"
proof -
  note hd = h [unfolded header_ok_def]
  note nt = conjunct1 [OF conjunct2 [OF hd]]
  have u: "unat (ucast (ImageSize h) :: QWORD) \<le> n" using size by (simp add: unat_ucast_up)
  obtain so where so: "read_WORD m (NtBase h + 20) = Some so" using read_parts(1) [OF ld ld nt, of 20] by auto
  let ?num = "ucast (NumberOfSections h) :: QWORD"
  let ?tab = "NtBase h + 4 + 20 + ucast so"
  have num: "unat (40 * ?num) = 40 * unat (NumberOfSections h)"
    using hd by (simp add: unat_word_ariths unat_ucast_up)
  have so': "unat (ucast so :: QWORD) < 2 ^ 16" using unat_less_2p [of so] by (simp add: unat_ucast_up)
  have "unat (24 + ucast so :: QWORD) = 24 + unat (ucast so :: QWORD)"
    using so' by (subst unat_plus_simple) simp_all
  then have small: "unat (24 + ucast so :: QWORD) < 2 ^ 17" using so' by simp
  have "unat ?tab = unat (NtBase h) + unat (24 + ucast so :: QWORD)"
    using unat_offset [OF ld, of "NtBase h" "24 + ucast so"] nt small by (simp add: inside_def add.assoc)
  moreover have "unat (NtBase h) + 2 ^ 32 < 2 ^ 64" using nt ld by (simp add: inside_def loaded_def)
  ultimately have wrap: "unat ?tab + unat (40 * ?num) < 2 ^ 64" using small num hd by simp
  show ?thesis
  proof (cases "i < NumberOfSections h \<and> Machine h = IMAGE_FILE_MACHINE_AMD64 \<and>
      CHECK_BOUNDS ?tab (40 * ?num) base (ucast (ImageSize h))")
    case False
    then show ?thesis using assms(4) so hd
      by (auto simp: PeRetrieveSection_def)
  next
    case True
    then have tab: "inside ?tab (40 * unat (NumberOfSections h)) base n"
      using CHECK_BOUNDS_inside [OF ld u _ wrap] num by simp
    define sec where "sec = ?tab + 40 * ucast i"
    have i: "unat i < unat (NumberOfSections h)" using True by (simp add: word_less_nat_alt)
    have i40: "unat (40 * ucast i :: QWORD) = 40 * unat i"
      using i hd by (simp add: unat_word_ariths unat_ucast_up)
    have sec: "inside sec 40 base n"
      unfolding sec_def by (rule part_inside [OF ld tab]) (use i hd in \<open>simp_all add: i40\<close>)
    obtain va sz ch where r: "read_DWORD m (sec + 12) = Some va" "read_DWORD m (sec + 8) = Some sz"
      "read_DWORD m (sec + 36) = Some ch"
      using read_parts(2) [OF ld ld sec, of 12] read_parts(2) [OF ld ld sec, of 8] read_parts(2) [OF ld ld sec, of 36] by auto
    have "unat (base + ucast va) + unat (ucast sz :: QWORD) < 2 ^ 64" by (rule range_32 [OF ld])
    then have "CHECK_BOUNDS (base + ucast va) (ucast sz) base (ucast (ImageSize h)) \<Longrightarrow>
        inside (base + ucast va) (unat sz) base n"
      using CHECK_BOUNDS_inside [OF ld u, of "base + ucast va" "ucast sz"] by (auto simp: unat_ucast_up)
    with True assms(4) so r [unfolded sec_def] hd show ?thesis
      by (auto simp: PeRetrieveSection_def Let_def)
  qed
qed

lemma PeRetrieveDataDirectory_ok:
  assumes ld: "loaded m base n" and h: "header_ok base n h" and size: "unat (ImageSize h) \<le> n" and "p \<noteq> NULL"
  shows "\<exists>status dir. PeRetrieveDataDirectory m (Some h) d p = Some (status, dir) \<and> (SUCCEEDED status \<longleftrightarrow> dir \<noteq> None) \<and>
    (\<forall>x. dir = Some x \<longrightarrow> inside (DirectoryBase x) (unat (DirectorySize x)) base n)"
proof -
  note hd = h [unfolded header_ok_def]
  note nt = conjunct1 [OF conjunct2 [OF hd]]
  have u: "unat (ucast (ImageSize h) :: QWORD) \<le> n" using size by (simp add: unat_ucast_up)
  obtain num where num: "read_DWORD m (NtBase h + 132) = Some num" using read_parts(2) [OF ld ld nt, of 132] by auto
  show ?thesis
  proof (cases "d \<le> IMAGE_DIRECTORY_ENTRY_COM_DESCRIPTOR \<and> Machine h = IMAGE_FILE_MACHINE_AMD64")
    case False
    then show ?thesis using assms(4) by (auto simp: PeRetrieveDataDirectory_def)
  next
    case True
    define dir where "dir = NtBase h + 136 + 8 * ucast d"
    have d: "unat d \<le> 14" using True by (simp add: word_le_nat_alt)
    then have d8: "unat (136 + 8 * ucast d :: QWORD) = 136 + 8 * unat d" by (simp add: unat_word_ariths unat_ucast_up)
    have dir: "inside dir 8 base n"
      using part_inside [OF ld nt, of "136 + 8 * ucast d" 8] d by (simp add: d8 dir_def add.assoc)
    obtain va sz where r: "read_DWORD m dir = Some va" "read_DWORD m (dir + 4) = Some sz"
      using read_parts(2) [OF ld ld dir, of 0] read_parts(2) [OF ld ld dir, of 4] by auto
    have "CHECK_BOUNDS (base + ucast va) (ucast sz) base (ucast (ImageSize h)) \<Longrightarrow> inside (base + ucast va) (unat sz) base n"
      using CHECK_BOUNDS_inside [OF ld u, of "base + ucast va" "ucast sz"] range_32 [OF ld, of va sz]
      by (auto simp: unat_ucast_up)
    with True assms(4) num r [unfolded dir_def] hd show ?thesis
      by (auto simp: PeRetrieveDataDirectory_def Let_def)
  qed
qed

section \<open>Properties\<close>

text \<open>
  C23. What the parser reads of an image that is loaded completely. In a buffer of at least the size
  of the DOS header the NT header is read without leaving the buffer, whatever its contents. The
  sections and the data directories are guaranteed only on a condition that the code does not check:
  if the image size that the header states is at most the size of the buffer, every request for one of
  them returns without leaving the buffer, and what it returns lies inside. If the header states a
  larger size, the parser does read behind the buffer (\<open>section_read_behind_file\<close> below).
\<close>

theorem pe_parser_stays_inside:
  assumes "loaded m base (unat Sz)" and "64 \<le> unat Sz" and "NtInfo \<noteq> NULL" and "Out \<noteq> NULL"
  shows "\<exists>status info. PeRetrieveNtHeader m base Sz NtInfo = Some (status, info) \<and> (SUCCEEDED status \<longleftrightarrow> info \<noteq> None) \<and>
    (\<forall>h. info = Some h \<and> ImageSize h \<le> Sz \<longrightarrow>
      (\<forall>i. \<exists>st sec. PeRetrieveSection m info i Out = Some (st, sec) \<and> (SUCCEEDED st \<longleftrightarrow> sec \<noteq> None) \<and>
        (\<forall>x. sec = Some x \<longrightarrow> inside (SectionBase x) (unat (SectionSize x)) base (unat Sz))) \<and>
      (\<forall>d. \<exists>st dir. PeRetrieveDataDirectory m info d Out = Some (st, dir) \<and> (SUCCEEDED st \<longleftrightarrow> dir \<noteq> None) \<and>
        (\<forall>x. dir = Some x \<longrightarrow> inside (DirectoryBase x) (unat (DirectorySize x)) base (unat Sz))))"
proof -
  from PeRetrieveNtHeader_ok [OF assms(1-3)] obtain status info where
    run: "PeRetrieveNtHeader m base Sz NtInfo = Some (status, info)" "SUCCEEDED status \<longleftrightarrow> info \<noteq> None"
    and ok: "\<forall>h. info = Some h \<longrightarrow> header_ok base (unat Sz) h" by blast
  from run ok PeRetrieveSection_ok [OF assms(1) _ _ assms(4)] PeRetrieveDataDirectory_ok [OF assms(1) _ _ assms(4)]
  show ?thesis by (simp add: word_le_nat_alt)
qed

text \<open>
  A header of 64 bytes and, at 64, the NT header: an image for AMD64 whose size field is
  \<open>size\<close>, with one section and the optional header's size \<open>opt\<close>. The first 4096 bytes are loaded.
\<close>

definition demo_byte :: "BYTE \<Rightarrow> BYTE \<Rightarrow> QWORD \<Rightarrow> BYTE" where
  "demo_byte size_high opt_high i =
     (if i = 0 then 0x4D else if i = 1 then 0x5A else if i = 60 then 64
      else if i = 64 then 0x50 else if i = 65 then 0x45
      else if i = 68 then 0x64 else if i = 69 then 0x86 else if i = 70 then 1
      else if i = 85 then opt_high else if i = 145 then size_high else 0)"

definition demo_image :: "BYTE \<Rightarrow> BYTE \<Rightarrow> image" where
  "demo_image size_high opt_high a =
     (if a - 0x100000000 < 0x1000 then Some (demo_byte size_high opt_high (a - 0x100000000)) else None)"

lemma demo_loaded: "loaded (demo_image s t) 0x100000000 0x1000"
proof -
  have "demo_image s t (0x100000000 + of_nat i) \<noteq> None" if "i < 0x1000" for i
  proof -
    have "unat (of_nat i :: QWORD) = i" using that by (intro unat_of_nat_small) simp
    then have "(of_nat i :: QWORD) < 0x1000" using that by (simp add: word_less_nat_alt)
    then show ?thesis by (simp add: demo_image_def)
  qed
  then show ?thesis by (simp add: loaded_def)
qed

lemma demo_header:
  "\<exists>h. PeRetrieveNtHeader (demo_image size_high opt_high) 0x100000000 0x1000 8 = Some (STATUS_SUCCESS, Some h) \<and>
     ImageSize h = 256 * ucast size_high \<and> NtBase h = 0x100000040 \<and> NumberOfSections h = 1 \<and>
     Machine h = IMAGE_FILE_MACHINE_AMD64 \<and> ImageBase h = 0x100000000"
  by (simp add: PeRetrieveNtHeader_def read_WORD_def read_DWORD_def read_QWORD_def demo_image_def
    demo_byte_def Let_def CHECK_BOUNDS_def)

theorem pe_parser_stays_inside_witness:
  "\<exists>h. PeRetrieveNtHeader (demo_image 0x10 0) 0x100000000 0x1000 8 = Some (STATUS_SUCCESS, Some h) \<and>
     (\<exists>st sec. PeRetrieveSection (demo_image 0x10 0) (Some h) 0 16 = Some (st, sec))"
proof -
  obtain h where h: "PeRetrieveNtHeader (demo_image 0x10 0) 0x100000000 0x1000 8 = Some (STATUS_SUCCESS, Some h)"
    "ImageSize h = 0x1000"
    using demo_header [of "0x10" 0] by auto
  from pe_parser_stays_inside [of "demo_image 0x10 0" "0x100000000" "0x1000" 8 16] demo_loaded [of "0x10" 0]
  have "\<exists>st sec. PeRetrieveSection (demo_image 0x10 0) (Some h) 0 16 = Some (st, sec)"
    by (simp add: h) blast
  with h(1) show ?thesis by blast
qed

text \<open>
  Without the hypothesis on the image size the parser leaves the buffer: the size is taken from the
  file and not compared with the size of the buffer. Here the table of sections lies behind it.
\<close>

lemma section_read_behind_file:
  "\<exists>h. PeRetrieveNtHeader (demo_image 0xFF 0x20) 0x100000000 0x1000 8 = Some (STATUS_SUCCESS, Some h) \<and>
     PeRetrieveSection (demo_image 0xFF 0x20) (Some h) 0 16 = None"
proof -
  obtain h where h: "PeRetrieveNtHeader (demo_image 0xFF 0x20) 0x100000000 0x1000 8 = Some (STATUS_SUCCESS, Some h)"
    "ImageSize h = 0xFF00" "NtBase h = 0x100000040" "NumberOfSections h = 1" "Machine h = IMAGE_FILE_MACHINE_AMD64"
    "ImageBase h = 0x100000000"
    using demo_header [of "0xFF" "0x20"] by auto
  then have "PeRetrieveSection (demo_image 0xFF 0x20) (Some h) 0 16 = None"
    by (simp add: PeRetrieveSection_def read_WORD_def read_DWORD_def demo_image_def demo_byte_def
      Let_def CHECK_BOUNDS_def)
  with h(1) show ?thesis by blast
qed

end
