(* ===== verification/Mmu.thy ===== *)
theory Mmu
  imports VmRegions PeParser
begin

text \<open>
  Building address spaces: the page tables and reservation spaces of the kernel and of processes
  (\<^verbatim>\<open>vmm.c\<close>, \<^verbatim>\<open>mmu.c\<close>), mapping a PE image, the start of the memory manager, and the thread that
  clears released frames. Pool allocations and the set-up of the heaps are parameters.
\<close>

section \<open>Caching types and sizes\<close>

definition STATUS_NOT_IMPLEMENTED :: STATUS where "STATUS_NOT_IMPLEMENTED = 0x8800002A"
definition STATUS_IMAGE_NOT_64_BIT :: STATUS where "STATUS_IMAGE_NOT_64_BIT = 0x88000026"
definition STATUS_IMAGE_SUBSYSTEM_NOT_NATIVE :: STATUS where "STATUS_IMAGE_SUBSYSTEM_NOT_NATIVE = 0x88000027"
definition STATUS_IMAGE_NOT_FULLY_LOADED :: STATUS where "STATUS_IMAGE_NOT_FULLY_LOADED = 0x88000028"
definition STATUS_IMAGE_HAS_RELOCATIONS :: STATUS where "STATUS_IMAGE_HAS_RELOCATIONS = 0x88000029"

abbreviation MemoryCachingStrongUncacheable :: BYTE where "MemoryCachingStrongUncacheable \<equiv> 0"
abbreviation MemoryCachingWriteBack :: BYTE where "MemoryCachingWriteBack \<equiv> 6"

definition pat_byte :: "QWORD \<Rightarrow> nat \<Rightarrow> BYTE" where
  "pat_byte PatValues i = ucast (drop_bit (8 * i) PatValues)"

text \<open>The loop over the eight bytes; the indices found so far are options.\<close>

fun pat_loop :: "QWORD \<Rightarrow> nat list \<Rightarrow> nat option \<Rightarrow> nat option \<Rightarrow> nat option \<times> nat option" where
  "pat_loop PatValues [] wb uc = (wb, uc)"
| "pat_loop PatValues (i # is) wb uc =
     (if MemoryCachingStrongUncacheable = pat_byte PatValues i then
        pat_loop PatValues is wb (if uc = None then Some i else uc)
      else if MemoryCachingWriteBack = pat_byte PatValues i then
        pat_loop PatValues is (if wb = None then Some i else wb) uc
      else pat_loop PatValues is wb uc)"

definition VmDeterminePatIndices :: "QWORD \<Rightarrow> paging_memory \<Rightarrow> bool \<times> paging_memory" where
  "VmDeterminePatIndices PatValues M =
     (let (wb, uc) = pat_loop PatValues [0 ..< 8] None None;
          M = (case uc of None \<Rightarrow> M | Some i \<Rightarrow> M\<lparr>UncacheableIndex := of_nat i\<rparr>);
          M = (case wb of None \<Rightarrow> M | Some i \<Rightarrow> M\<lparr>WriteBackIndex := of_nat i\<rparr>)
      in (wb \<noteq> None \<and> uc \<noteq> None, M))"

definition VmmPreparePagingData :: "QWORD \<Rightarrow> vm_system \<Rightarrow> STATUS \<times> vm_system" where
  "VmmPreparePagingData ia32PatValues s =
     (let (bResult, M) = VmDeterminePatIndices ia32PatValues (Paging s);
          s = s\<lparr>Paging := M\<rparr>
      in if \<not> bResult then (STATUS_PAT_LAYOUT_NOT_COMPATIBLE, s) else (STATUS_SUCCESS, s))"

definition MmuCalculateReservedFrames :: "DWORD \<Rightarrow> WORD \<Rightarrow> QWORD \<Rightarrow> DWORD option" where
  "MmuCalculateReservedFrames BaseSize HundredsOfPercentage AvailableSystemMemory = do {
     part \<leftarrow> CalculatePercentage AvailableSystemMemory HundredsOfPercentage;
     let sizeInBytes = ucast BaseSize + part;
     let sizeInFrames = AlignAddressUpper sizeInBytes (2 * MB_SIZE) div PAGE_SIZE;
     ASSERT (sizeInFrames < ucast MAX_DWORD);
     Some (ucast sizeInFrames)
   }"

section \<open>Page tables of an address space\<close>

definition VmmSetupPageTables ::
    "PVOID \<Rightarrow> PVOID \<Rightarrow> QWORD \<Rightarrow> DWORD \<Rightarrow> bool \<Rightarrow> vm_system \<Rightarrow> (STATUS \<times> vm_system) option" where
  "VmmSetupPageTables PagingDataWhereToMap PagingData Base FramesReserved KernelStructures s = do {
     ASSERT (PagingDataWhereToMap \<noteq> NULL);
     ASSERT (PagingData \<noteq> NULL);
     ASSERT (Base \<noteq> NULL);
     ASSERT (FramesReserved \<noteq> 0);
     let pBaseVirtualAddress = PA2VA (Paging s) Base;
     let s = s\<lparr>PagingDatas := (PagingDatas s)(PagingData := (PagingDatas s PagingData)
                 \<lparr>CurrentIndex := 1, NumberOfFrames := FramesReserved, BasePhysicalAddress := Base,
                  KernelSpace := KernelStructures\<rparr>)\<rparr>;
     let sizeReservedForPagingStructures = FramesReserved * 0x1000;
     ps \<leftarrow> VmmMapMemoryInternal (PagingDatas s PagingDataWhereToMap) Base (ucast sizeReservedForPagingStructures)
             pBaseVirtualAddress PAGE_RIGHTS_READWRITE True False (Paging s);
     let s = put_tables PagingDataWhereToMap ps s;
     Some (STATUS_SUCCESS,
       if PagingDataWhereToMap \<noteq> PagingData then s\<lparr>Paging := memzero_page pBaseVirtualAddress (Paging s)\<rparr> else s)
   }"

definition VmmChangeCr3 :: "QWORD \<Rightarrow> WORD \<Rightarrow> bool \<Rightarrow> vm_system \<Rightarrow> vm_system option" where
  "VmmChangeCr3 Pml4Base Pcid Invalidate s = do {
     ASSERT (IsAddressAligned Pml4Base PAGE_SIZE);
     ASSERT (1 \<le> Pcid \<and> Pcid < 4096);
     Some (s\<lparr>Cr3Raw := (if Invalidate then 0 else push_bit 63 1) OR Pml4Base OR ucast Pcid\<rparr>)
   }"

text \<open>\<open>ProcessActivatePagingTables\<close> of \<^verbatim>\<open>process.c\<close>.\<close>

definition activate_tables :: "PVOID \<Rightarrow> bool \<Rightarrow> vm_system \<Rightarrow> vm_system option" where
  "activate_tables Process InvalidateAddressSpace s = do {
     ASSERT (Process \<noteq> NULL);
     VmmChangeCr3 (BasePhysicalAddress (PagingDatas s (ProcessPagingData (Processes s Process))))
       (ProcessPcid (Processes s Process)) InvalidateAddressSpace s
   }"

abbreviation PML4_OFFSET_OF_KERNEL_STRUCTURES :: QWORD where "PML4_OFFSET_OF_KERNEL_STRUCTURES \<equiv> 2048"
abbreviation PML4_NO_OF_KERNEL_ENTRIES :: QWORD where "PML4_NO_OF_KERNEL_ENTRIES \<equiv> 2048"

definition memcpy_entries :: "PVOID \<Rightarrow> PVOID \<Rightarrow> QWORD \<Rightarrow> paging_memory \<Rightarrow> paging_memory" where
  "memcpy_entries dst src n M =
     M\<lparr>Memory := (\<lambda>x. if x - dst < n then Memory M (src + (x - dst)) else Memory M x)\<rparr>"

definition MmuCreatePagingTables :: "PVOID \<Rightarrow> vm_system \<Rightarrow> (STATUS \<times> PVOID option \<times> vm_system) option" where
  "MmuCreatePagingTables pool s =
     (let pPagingData = pool in
      if pPagingData = NULL then Some (STATUS_INSUFFICIENT_MEMORY, None, s)
      else do {
        frames \<leftarrow> MmuCalculateReservedFrames 0x20000 25 (PmmGetTotalSystemMemory (PmmData s));
        (basePa, d) \<leftarrow> PmmReserveMemory (PmmData s) frames;
        let s = s\<lparr>PmmData := d\<rparr>;
        (if NULL = basePa then
           Some (STATUS_PHYSICAL_MEMORY_NOT_AVAILABLE, None, s\<lparr>PoolFreed := PoolFreed s @ [pPagingData]\<rparr>)
         else do {
           (status, s) \<leftarrow> VmmSetupPageTables (m_mmuData s) pPagingData basePa frames False s;
           let dst = PA2VA (Paging s) (BasePhysicalAddress (PagingDatas s pPagingData) + PML4_OFFSET_OF_KERNEL_STRUCTURES);
           let src = PA2VA (Paging s) (BasePhysicalAddress (PagingDatas s (m_mmuData s)) + PML4_OFFSET_OF_KERNEL_STRUCTURES);
           Some (status, Some pPagingData, s\<lparr>Paging := memcpy_entries dst src PML4_NO_OF_KERNEL_ENTRIES (Paging s)\<rparr>)
         })
      })"

definition MmuDestroyPagingTables :: "PVOID \<Rightarrow> vm_system \<Rightarrow> vm_system option" where
  "MmuDestroyPagingTables PagingTables s = do {
     ASSERT (PagingTables \<noteq> NULL);
     s \<leftarrow> MmuUnmapMemoryEx (PA2VA (Paging s) (BasePhysicalAddress (PagingDatas s PagingTables)))
       (ucast (NumberOfFrames (PagingDatas s PagingTables) * 0x1000)) True NULL s;
     Some (s\<lparr>PoolFreed := PoolFreed s @ [PagingTables]\<rparr>)
   }"

section \<open>Address spaces of processes\<close>

text \<open>The second guard of the code tests \<open>ReservationSpace\<close> again and is never taken.\<close>

definition VmmCreateVirtualAddressSpace ::
    "file_reader \<Rightarrow> PVOID \<Rightarrow> PVOID \<Rightarrow> QWORD \<Rightarrow> PVOID \<Rightarrow> vm_system \<Rightarrow> (STATUS \<times> PVOID option \<times> vm_system) option" where
  "VmmCreateVirtualAddressSpace IoReadFile pool ReservationSpace ReservationMetadataSize Start s =
     (if ReservationSpace = NULL then Some (STATUS_INVALID_PARAMETER1, None, s)
      else if Start = NULL then Some (STATUS_INVALID_PARAMETER3, None, s)
      else if pool = NULL then Some (STATUS_INSUFFICIENT_MEMORY, None, s)
      else do {
        (pReservationMetadataStart, s) \<leftarrow> VmmAllocRegionEx IoReadFile NULL ReservationMetadataSize
          (VMM_ALLOC_TYPE_RESERVE OR VMM_ALLOC_TYPE_COMMIT) PAGE_RIGHTS_READWRITE False NULL NULL NULL None s;
        (if pReservationMetadataStart = NULL then
           Some (STATUS_INSUFFICIENT_MEMORY, None, s\<lparr>PoolFreed := PoolFreed s @ [pool]\<rparr>)
         else do {
           rs \<leftarrow> VmReservationSpaceInit pReservationMetadataStart Start ReservationMetadataSize (VaSpaces s pool);
           Some (STATUS_SUCCESS, Some pool, put_space pool (VmReservationSpaceFinishInit rs) s)
         })
      })"

definition VmmDestroyVirtualAddressSpace :: "PVOID \<Rightarrow> vm_system \<Rightarrow> vm_system option" where
  "VmmDestroyVirtualAddressSpace ReservationSpace s = do {
     ASSERT (ReservationSpace \<noteq> NULL);
     s \<leftarrow> (if ReservationList (VaSpaces s ReservationSpace) \<noteq> NULL then do {
             s \<leftarrow> VmmFreeRegion (ReservationList (VaSpaces s ReservationSpace)) 0 VMM_FREE_TYPE_RELEASE s;
             Some (put_space ReservationSpace ((VaSpaces s ReservationSpace)\<lparr>ReservationList := NULL\<rparr>) s)
           }
           else Some s);
     Some (s\<lparr>PoolFreed := PoolFreed s @ [ReservationSpace]\<rparr>)
   }"

definition put_process :: "PVOID \<Rightarrow> (process_memory \<Rightarrow> process_memory) \<Rightarrow> vm_system \<Rightarrow> vm_system" where
  "put_process Process f s = s\<lparr>Processes := (Processes s)(Process := f (Processes s Process))\<rparr>"

definition MmuDestroyAddressSpaceForProcess :: "(PVOID \<Rightarrow> bool) \<Rightarrow> PVOID \<Rightarrow> vm_system \<Rightarrow> vm_system option" where
  "MmuDestroyAddressSpaceForProcess ProcessIsSystem Process s = do {
     ASSERT (Process \<noteq> NULL);
     ASSERT (\<not> ProcessIsSystem Process);
     s \<leftarrow> (if ProcessVaSpace (Processes s Process) \<noteq> NULL then do {
             s \<leftarrow> VmmDestroyVirtualAddressSpace (ProcessVaSpace (Processes s Process)) s;
             Some (put_process Process (\<lambda>p. p\<lparr>ProcessVaSpace := NULL\<rparr>) s)
           }
           else Some s);
     (if ProcessPagingData (Processes s Process) \<noteq> NULL then do {
        s \<leftarrow> activate_tables Process True s;
        s \<leftarrow> activate_tables (CurrentProcess s) False s;
        s \<leftarrow> MmuDestroyPagingTables (ProcessPagingData (Processes s Process)) s;
        Some (put_process Process (\<lambda>p. p\<lparr>ProcessPagingData := NULL\<rparr>) s)
      }
      else Some s)
   }"

text \<open>\<open>ProcessRetrieveSystemProcess\<close> is an argument; the copy of the header information is not kept.\<close>

definition MmuInitAddressSpaceForSystemProcess :: "PVOID \<Rightarrow> vm_system \<Rightarrow> vm_system option" where
  "MmuInitAddressSpaceForSystemProcess SystemProcess s = do {
     ASSERT (SystemProcess \<noteq> NULL);
     let s = put_process SystemProcess (\<lambda>p. p\<lparr>ProcessPagingData := m_mmuData s, ProcessVaSpace := m_vmmData s\<rparr>) s;
     activate_tables SystemProcess False s
   }"

definition MmuCreateAddressSpaceForProcess ::
    "file_reader \<Rightarrow> PVOID \<Rightarrow> PVOID \<Rightarrow> (PVOID \<Rightarrow> bool) \<Rightarrow> PVOID \<Rightarrow> vm_system \<Rightarrow> (STATUS \<times> vm_system) option" where
  "MmuCreateAddressSpaceForProcess IoReadFile pool1 pool2 ProcessIsSystem Process s = do {
     ASSERT (Process \<noteq> NULL);
     ASSERT (\<not> ProcessIsSystem Process);
     let s = put_process Process (\<lambda>p. p\<lparr>ProcessPagingData := NULL, ProcessVaSpace := NULL\<rparr>) s;
     (status, tables, s) \<leftarrow> MmuCreatePagingTables pool1 s;
     let s = (case tables of None \<Rightarrow> s | Some t \<Rightarrow> put_process Process (\<lambda>p. p\<lparr>ProcessPagingData := t\<rparr>) s);
     (status, s) \<leftarrow>
       (if \<not> SUCCEEDED status then Some (status, s)
        else do {
          (status, space, s) \<leftarrow> VmmCreateVirtualAddressSpace IoReadFile pool2 Process 0x140000000
            (ProcessImageBase (Processes s Process) + 0x40000000) s;
          Some (status, case space of None \<Rightarrow> s | Some v \<Rightarrow> put_process Process (\<lambda>p. p\<lparr>ProcessVaSpace := v\<rparr>) s)
        });
     (if \<not> SUCCEEDED status then do {
        s \<leftarrow> MmuDestroyAddressSpaceForProcess ProcessIsSystem Process s;
        Some (status, s)
      }
      else Some (status, s))
   }"

section \<open>The thread that clears released frames\<close>

text \<open>
  One turn of the loop of \<open>_MmuZeroWorkerThreadFunction\<close> after its wait: the first item of the list is
  mapped, cleared, given to the physical memory manager and unmapped; on an empty list nothing is done.
\<close>

definition zero_worker_turn :: "vm_system \<Rightarrow> vm_system option" where
  "zero_worker_turn s =
     (case ReleasedFrames (Paging s) of [] \<Rightarrow> Some s
      | (PhysicalAddress, NoOfFrames) # items \<Rightarrow> do {
          let s = s\<lparr>Paging := (Paging s)\<lparr>ReleasedFrames := items\<rparr>\<rparr>;
          let noOfBytes = NoOfFrames * 0x1000;
          (pAddr, s) \<leftarrow> MmuMapMemoryEx PhysicalAddress (ucast noOfBytes) PAGE_RIGHTS_READWRITE False False NULL s;
          ASSERT (NULL \<noteq> pAddr);
          let s = memzero_at pAddr (ucast noOfBytes) s;
          d \<leftarrow> PmmReleaseMemory (PmmData s) PhysicalAddress NoOfFrames;
          MmuUnmapMemoryEx pAddr (ucast noOfBytes) False NULL (s\<lparr>PmmData := d\<rparr>)
        })"

section \<open>Mapping an image\<close>

definition map_image_page :: "PVOID \<Rightarrow> PE_NT_HEADER_INFO \<Rightarrow> PVOID \<Rightarrow> DWORD \<Rightarrow> PVOID \<Rightarrow> vm_system \<Rightarrow> vm_system option" where
  "map_image_page PagingData HeaderInfo AddressToMap Rights pPage s = do {
     pa \<leftarrow> MmuGetPhysicalAddress (ImageBase HeaderInfo + (pPage - AddressToMap)) s;
     ps \<leftarrow> VmmMapMemoryInternal (PagingDatas s PagingData) pa PAGE_SIZE pPage Rights True False (Paging s);
     Some (put_tables PagingData ps s)
   }"

partial_function (option) map_headers ::
    "PVOID \<Rightarrow> PE_NT_HEADER_INFO \<Rightarrow> PVOID \<Rightarrow> PVOID \<Rightarrow> vm_system \<Rightarrow> vm_system option" where
  "map_headers PagingData HeaderInfo AddressToMap pHeaderPage s =
     (if pHeaderPage < AddressToMap + ucast (SizeOfHeaders HeaderInfo) - PAGE_SIZE then do {
        s \<leftarrow> map_image_page PagingData HeaderInfo AddressToMap PAGE_RIGHTS_READ pHeaderPage s;
        map_headers PagingData HeaderInfo AddressToMap (pHeaderPage + PAGE_SIZE) s
      }
      else Some s)"

partial_function (option) map_section_pages ::
    "PVOID \<Rightarrow> PE_NT_HEADER_INFO \<Rightarrow> PVOID \<Rightarrow> DWORD \<Rightarrow> PVOID \<Rightarrow> PVOID \<Rightarrow> vm_system \<Rightarrow> vm_system option" where
  "map_section_pages PagingData HeaderInfo AddressToMap Rights sectionEnd pPage s =
     (if pPage + PAGE_SIZE \<le> sectionEnd then do {
        s \<leftarrow> map_image_page PagingData HeaderInfo AddressToMap Rights pPage s;
        map_section_pages PagingData HeaderInfo AddressToMap Rights sectionEnd (pPage + PAGE_SIZE) s
      }
      else Some s)"

text \<open>The variables that live across the sections.\<close>

record section_state =
  PrevRights :: DWORD
  CurRights :: DWORD
  Remaining :: DWORD
  CurSize :: DWORD
  AlignedAddress :: PVOID

definition section_rights :: "DWORD \<Rightarrow> DWORD" where
  "section_rights c = (if IsBooleanFlagOn c 0x40000000 then PAGE_RIGHTS_READ else 0) OR
     (if IsBooleanFlagOn c 0x80000000 then PAGE_RIGHTS_WRITE else 0) OR
     (if IsBooleanFlagOn c 0x20000000 then PAGE_RIGHTS_EXECUTE else 0)"

text \<open>The body of the loop for one section.\<close>

definition map_section ::
    "PVOID \<Rightarrow> PE_NT_HEADER_INFO \<Rightarrow> PVOID \<Rightarrow> PE_SECTION_INFO \<Rightarrow> section_state \<times> vm_system \<Rightarrow>
     (section_state \<times> vm_system) option" where
  "map_section PagingData HeaderInfo AddressToMap sec = (\<lambda>(v, s). do {
     let sectionSize = (ucast (AlignAddressUpper (ucast (SectionSize sec)) (ucast (ImageAlignment HeaderInfo))) :: DWORD);
     let cur = section_rights (Characteristics sec);
     let v = v\<lparr>CurSize := sectionSize, CurRights := cur\<rparr>;
     ASSERT (\<not> IsBooleanFlagOn cur (PAGE_RIGHTS_WRITE OR PAGE_RIGHTS_EXECUTE));
     (if sectionSize < Remaining v then
        Some (v\<lparr>Remaining := Remaining v - sectionSize, PrevRights := PrevRights v OR cur\<rparr>, s)
      else do {
        let pAlignedAddress = AlignAddressLower (AddressToMap + (SectionBase sec - ImageBase HeaderInfo)) PAGE_SIZE;
        (pAlignedAddress, sectionSize, s) \<leftarrow>
          (if 0 \<noteq> Remaining v then do {
             s \<leftarrow> map_image_page PagingData HeaderInfo AddressToMap (PrevRights v OR cur) pAlignedAddress s;
             Some (pAlignedAddress + PAGE_SIZE, sectionSize - Remaining v, s)
           }
           else Some (pAlignedAddress, sectionSize, s));
        let remaining = 0x1000 - ucast (AddressOffset (ucast sectionSize) PAGE_SIZE);
        s \<leftarrow> map_section_pages PagingData HeaderInfo AddressToMap cur (pAlignedAddress + ucast sectionSize) pAlignedAddress s;
        Some (v\<lparr>Remaining := remaining, CurSize := sectionSize, AlignedAddress := pAlignedAddress, PrevRights := cur\<rparr>, s)
      })
   })"

fun map_sections ::
    "image \<Rightarrow> PVOID \<Rightarrow> PE_NT_HEADER_INFO \<Rightarrow> PVOID \<Rightarrow> DWORD list \<Rightarrow> section_state \<times> vm_system \<Rightarrow>
     (STATUS \<times> section_state \<times> vm_system) option" where
  "map_sections m PagingData HeaderInfo AddressToMap [] vs = Some (STATUS_SUCCESS, vs)"
| "map_sections m PagingData HeaderInfo AddressToMap (i # is) vs = do {
     (status, sec) \<leftarrow> PeRetrieveSection m (Some HeaderInfo) i 1;
     (case sec of None \<Rightarrow> Some (status, vs)
      | Some sec \<Rightarrow> do {
          vs \<leftarrow> map_section PagingData HeaderInfo AddressToMap sec vs;
          map_sections m PagingData HeaderInfo AddressToMap is vs
        })
   }"

definition section_indices :: "PE_NT_HEADER_INFO \<Rightarrow> DWORD list" where
  "section_indices HeaderInfo = map of_nat [0 ..< unat (NumberOfSections HeaderInfo)]"

text \<open>\<open>HeaderInfo\<close> is not NULL at any call; the section structure is a local variable of the code.\<close>

definition MmuMapPeInMemory ::
    "image \<Rightarrow> PVOID \<Rightarrow> PE_NT_HEADER_INFO \<Rightarrow> PVOID \<Rightarrow> vm_system \<Rightarrow> (STATUS \<times> vm_system) option" where
  "MmuMapPeInMemory m PagingData HeaderInfo AddressToMap s = do {
     ASSERT (NULL \<noteq> PagingData);
     ASSERT (IsAddressAligned (ImageBase HeaderInfo) PAGE_SIZE);
     ASSERT (NULL \<noteq> AddressToMap);
     ASSERT (IsAddressAligned AddressToMap PAGE_SIZE);
     (if FileAlignment HeaderInfo \<noteq> ImageAlignment HeaderInfo then Some (STATUS_NOT_IMPLEMENTED, s)
      else do {
        let v = \<lparr>PrevRights = PAGE_RIGHTS_READ, CurRights = 0,
                 Remaining = 0x1000 - ucast (AddressOffset (ucast (SizeOfHeaders HeaderInfo)) PAGE_SIZE),
                 CurSize = 0, AlignedAddress = NULL\<rparr>;
        s \<leftarrow> map_headers PagingData HeaderInfo AddressToMap AddressToMap s;
        (status, v, s) \<leftarrow> map_sections m PagingData HeaderInfo AddressToMap (section_indices HeaderInfo) (v, s);
        (if \<not> SUCCEEDED status then Some (status, s)
         else if CurSize v \<noteq> 0 then do {
           s \<leftarrow> map_image_page PagingData HeaderInfo AddressToMap (PrevRights v) (AlignedAddress v) s;
           Some (status, s)
         }
         else Some (status, s))
      })
   }"

definition MmuLoadPe :: "image \<Rightarrow> PE_NT_HEADER_INFO option \<Rightarrow> PVOID \<Rightarrow> vm_system \<Rightarrow> (STATUS \<times> vm_system) option" where
  "MmuLoadPe m NtHeader PagingData s =
     (case NtHeader of None \<Rightarrow> Some (STATUS_INVALID_PARAMETER1, s)
      | Some h \<Rightarrow> if PagingData = NULL then Some (STATUS_INVALID_PARAMETER2, s)
                  else MmuMapPeInMemory m PagingData h (PreferredImageBase h) s)"

section \<open>The start of the memory manager\<close>

definition VA2PA :: "vm_system \<Rightarrow> PVOID \<Rightarrow> QWORD" where
  "VA2PA s va = va - VirtualToPhysicalOffset (Paging s)"

definition MmuReserveAndMapMemory ::
    "PVOID \<Rightarrow> PVOID \<Rightarrow> DWORD \<Rightarrow> QWORD \<Rightarrow> DWORD \<Rightarrow> vm_system \<Rightarrow> (STATUS \<times> vm_system) option" where
  "MmuReserveAndMapMemory PagingData VirtualAddress sz PhysicalAddress AccessRights s = do {
     ASSERT (NULL \<noteq> VirtualAddress);
     ASSERT (0 \<noteq> sz);
     ASSERT (IsAddressAligned (ucast sz) PAGE_SIZE);
     let noOfFrames = sz div 0x1000;
     (pa, d) \<leftarrow> PmmReserveMemoryEx (PmmData s) noOfFrames PhysicalAddress;
     let s = s\<lparr>PmmData := d\<rparr>;
     (if NULL = pa \<or> pa \<noteq> PhysicalAddress then Some (STATUS_PHYSICAL_MEMORY_NOT_AVAILABLE, s)
      else do {
        ps \<leftarrow> VmmMapMemoryInternal (PagingDatas s PagingData) pa (ucast sz) VirtualAddress AccessRights True False (Paging s);
        Some (STATUS_SUCCESS, put_tables PagingData ps s)
      })
   }"

definition MmuRemapStack :: "PVOID \<Rightarrow> PVOID \<Rightarrow> DWORD \<Rightarrow> vm_system \<Rightarrow> (STATUS \<times> vm_system) option" where
  "MmuRemapStack PagingData NewStackBase StackSize s = do {
     ASSERT (NULL \<noteq> PagingData);
     ASSERT (NULL \<noteq> NewStackBase);
     ASSERT (0 \<noteq> StackSize);
     ASSERT (IsAddressAligned (ucast StackSize) PAGE_SIZE);
     MmuReserveAndMapMemory PagingData NewStackBase StackSize (VA2PA s NewStackBase) PAGE_RIGHTS_READWRITE s
   }"

definition MmuRemapDisplay :: "PVOID \<Rightarrow> vm_system \<Rightarrow> vm_system option" where
  "MmuRemapDisplay PagingData s = do {
     ps \<leftarrow> VmmMapMemoryInternal (PagingDatas s PagingData) 0xB8000 (AlignAddressUpper (80 * 25 * 2) PAGE_SIZE)
       (PA2VA (Paging s) 0xB8000) PAGE_RIGHTS_READWRITE True False (Paging s);
     Some (put_tables PagingData ps s)
   }"

definition MmuMapKernelMemory ::
    "image \<Rightarrow> PVOID \<Rightarrow> QWORD \<Rightarrow> PE_NT_HEADER_INFO \<Rightarrow> vm_system \<Rightarrow> (STATUS \<times> vm_system) option" where
  "MmuMapKernelMemory m PagingData PhysicalAddress KernelInfo s = do {
     ASSERT (NULL \<noteq> PagingData);
     ASSERT (IsAddressAligned (ImageBase KernelInfo) PAGE_SIZE);
     let noOfFrames = ucast (AlignAddressUpper (ucast (ImageSize KernelInfo)) PAGE_SIZE div PAGE_SIZE);
     (kernelPa, d) \<leftarrow> PmmReserveMemoryEx (PmmData s) noOfFrames PhysicalAddress;
     let s = s\<lparr>PmmData := d\<rparr>;
     (if NULL = kernelPa \<or> kernelPa \<noteq> PhysicalAddress then Some (STATUS_PHYSICAL_MEMORY_NOT_AVAILABLE, s)
      else do {
        (status, s) \<leftarrow> MmuMapPeInMemory m PagingData KernelInfo (ImageBase KernelInfo) s;
        (if \<not> SUCCEEDED status then Some (status, s)
         else MmuMapPeInMemory m PagingData KernelInfo (VA2PA s (ImageBase KernelInfo)) s)
      })
   }"

definition MmuInitPagingSystem :: "QWORD \<Rightarrow> PVOID \<Rightarrow> vm_system \<Rightarrow> (STATUS \<times> vm_system) option" where
  "MmuInitPagingSystem ia32PatValues Base s = do {
     ASSERT (Base \<noteq> NULL);
     let (status, s) = VmmPreparePagingData ia32PatValues s;
     (if \<not> SUCCEEDED status then Some (status, s)
      else do {
        frames \<leftarrow> MmuCalculateReservedFrames 0x20000 25 (PmmGetTotalSystemMemory (PmmData s));
        (basePa, d) \<leftarrow> PmmReserveMemoryEx (PmmData s) frames (VA2PA s Base);
        let s = s\<lparr>PmmData := d\<rparr>;
        (if NULL = basePa \<or> basePa \<noteq> VA2PA s Base then Some (STATUS_PHYSICAL_MEMORY_NOT_AVAILABLE, s)
         else VmmSetupPageTables (m_mmuData s) (m_mmuData s) basePa frames True
                (s\<lparr>Paging := memzero_page (PA2VA (Paging s) basePa) (Paging s)\<rparr>))
      })
   }"

definition MmuRetrieveKernelInfoAndValidate ::
    "image \<Rightarrow> PVOID \<Rightarrow> DWORD \<Rightarrow> (STATUS \<times> PE_NT_HEADER_INFO option) option" where
  "MmuRetrieveKernelInfoAndValidate m KernelBase Sz = do {
     ASSERT (NULL \<noteq> KernelBase);
     ASSERT (0 \<noteq> Sz);
     (status, info) \<leftarrow> PeRetrieveNtHeader m KernelBase Sz 1;
     (case info of None \<Rightarrow> Some (status, None)
      | Some h \<Rightarrow>
          if Sz < ImageSize h then Some (STATUS_IMAGE_NOT_FULLY_LOADED, info)
          else if IMAGE_FILE_MACHINE_AMD64 \<noteq> Machine h then Some (STATUS_IMAGE_NOT_64_BIT, info)
          else if 1 \<noteq> Subsystem h then Some (STATUS_IMAGE_SUBSYSTEM_NOT_NATIVE, info)
          else do {
            (status, dir) \<leftarrow> PeRetrieveDataDirectory m info IMAGE_DIRECTORY_ENTRY_BASERELOC 1;
            (case dir of None \<Rightarrow> Some (status, info)
             | Some d \<Rightarrow> Some (if 0 \<noteq> DirectorySize d then STATUS_IMAGE_HAS_RELOCATIONS else status, info))
          })
   }"

definition VmmInit :: "PVOID \<Rightarrow> vm_system \<Rightarrow> (STATUS \<times> vm_system) option" where
  "VmmInit Base s =
     (if Base = NULL then Some (STATUS_INVALID_PARAMETER1, s)
      else do {
        rs \<leftarrow> VmReservationSpaceInit Base NULL 0x50000000000 (VaSpaces s (m_vmmData s));
        Some (STATUS_SUCCESS, put_space (m_vmmData s) rs s)
      })"

definition VmmInitReservationSystem :: "vm_system \<Rightarrow> vm_system" where
  "VmmInitReservationSystem s = put_space (m_vmmData s) (VmReservationSpaceFinishInit (VaSpaces s (m_vmmData s))) s"

abbreviation TEMP_STACK_SIZE :: DWORD where "TEMP_STACK_SIZE \<equiv> 0x2000"

definition MmuDiscardIdentityMappings :: "PE_NT_HEADER_INFO \<Rightarrow> PVOID \<Rightarrow> vm_system \<Rightarrow> vm_system option" where
  "MmuDiscardIdentityMappings KernelInfo tempStack s = do {
     let pIdentityMapped = VA2PA s (ImageBase KernelInfo);
     ASSERT (NULL \<noteq> tempStack);
     s \<leftarrow> MmuUnmapMemoryEx pIdentityMapped (ucast (ImageSize KernelInfo)) False NULL s;
     MmuUnmapMemoryEx tempStack (ucast TEMP_STACK_SIZE) True NULL s
   }"

text \<open>
  \<open>MmuInitSystem\<close> up to the heaps. A step that fails ends the call with its status, which the
  helper \<open>try_step\<close> says once. The memory map is at the physical address \<open>MemoryEntries\<close>; its contents are
  the list \<open>entries\<close>. The initialisation of the event of the zeroing thread and the change of the stack
  have no effect on this state.
\<close>

definition try_step ::
    "(STATUS \<times> vm_system) option \<Rightarrow> (vm_system \<Rightarrow> (STATUS \<times> vm_system) option) \<Rightarrow> (STATUS \<times> vm_system) option" where
  "try_step m k = do { (status, s) \<leftarrow> m; if \<not> SUCCEEDED status then Some (status, s) else k s }"

definition MmuInitSystem ::
    "image \<Rightarrow> QWORD \<Rightarrow> (vm_system \<Rightarrow> (STATUS \<times> vm_system) option) \<Rightarrow> PVOID \<Rightarrow> DWORD \<Rightarrow>
     INT15_MEMORY_MAP_ENTRY list \<Rightarrow> vm_system \<Rightarrow> (STATUS \<times> vm_system) option" where
  "MmuInitSystem m ia32PatValues init_heaps KernelBaseAddress KernelSize entries s =
     (if NULL = KernelBaseAddress then Some (STATUS_INVALID_PARAMETER1, s)
      else if 0 = KernelSize then Some (STATUS_INVALID_PARAMETER2, s)
      else if entries = [] then Some (STATUS_INVALID_PARAMETER3, s)
      else do {
        (status, info) \<leftarrow> MmuRetrieveKernelInfoAndValidate m KernelBaseAddress KernelSize;
        (if \<not> SUCCEEDED status then Some (status, s)
         else do {
           let KernelInfo = the info;
           let alignedKernelSize = (ucast (AlignAddressUpper (ucast (ImageSize KernelInfo)) PAGE_SIZE) :: DWORD);
           let pNewStackTop = ImageBase KernelInfo + ucast (alignedKernelSize + TEMP_STACK_SIZE + STACK_GUARD_SIZE);
           let pmmBaseAddress = pNewStackTop;
           let TemporaryStackBase = pNewStackTop - ucast TEMP_STACK_SIZE;
           (status, pmmSizeRequired, d) \<leftarrow> PmmInitSystem (PmmData s) pmmBaseAddress (Some entries) 1;
           let s = s\<lparr>PmmData := d\<rparr>;
           (if \<not> SUCCEEDED status then Some (status, s)
            else do {
              let pPagingStructuresAddrBase = AlignAddressUpper (pmmBaseAddress + ucast pmmSizeRequired) PAGE_SIZE;
              try_step (MmuInitPagingSystem ia32PatValues pPagingStructuresAddrBase s) (\<lambda>s. do {
                let pVmmAddressBase = PA2VA (Paging s) (PmmGetHighestPhysicalMemoryAddressAvailable (PmmData s)) - PAGE_SIZE;
                try_step (VmmInit pVmmAddressBase s) (\<lambda>s.
                try_step (MmuReserveAndMapMemory (m_mmuData s) pVmmAddressBase 0x1000 (VA2PA s pVmmAddressBase)
                            PAGE_RIGHTS_READWRITE s) (\<lambda>s.
                try_step (MmuReserveAndMapMemory (m_mmuData s) pmmBaseAddress pmmSizeRequired (VA2PA s pmmBaseAddress)
                            PAGE_RIGHTS_READWRITE s) (\<lambda>s.
                try_step (MmuMapKernelMemory m (m_mmuData s) (VA2PA s (ImageBase KernelInfo)) KernelInfo s) (\<lambda>s.
                try_step (MmuRemapStack (m_mmuData s) TemporaryStackBase TEMP_STACK_SIZE s) (\<lambda>s. do {
                  s \<leftarrow> MmuRemapDisplay (m_mmuData s) s;
                  let s = s\<lparr>Cr3Raw := BasePhysicalAddress (PagingDatas s (m_mmuData s))\<rparr>;
                  init_heaps (VmmInitReservationSystem s)
                })))))
              })
            })
         })
      })"

end
