(* ===== verification/Fat.thy ===== *)
theory Fat
  imports StrUtils
begin

text \<open>
  The FAT32 driver: \<^verbatim>\<open>FAT32/src/fat_utils.c\<close> and the operations of \<^verbatim>\<open>fat_operations.c\<close>. The volume
  under it is a parameter: a reader returns a status and the bytes it read, a writer the volume after
  the write. \<open>pool n\<close> says whether the pool has \<open>n\<close> bytes during a call. A buffer is the list of its
  bytes; a read behind it is \<open>None\<close>, as is a division by zero. A name is the list of
  its characters without the terminator; a path is shorter than 4 GB.
\<close>

section \<open>Structures\<close>

definition STATUS_DEVICE_CLUSTER_INVALID :: STATUS where "STATUS_DEVICE_CLUSTER_INVALID = 0x8001000D"
definition STATUS_DEVICE_FILESYSTEM_UNSUPPORTED :: STATUS where "STATUS_DEVICE_FILESYSTEM_UNSUPPORTED = 0x8001000C"
definition STATUS_DISK_MBR_NOT_PRESENT :: STATUS where "STATUS_DISK_MBR_NOT_PRESENT = 0x80040001"
definition STATUS_DISK_FULL :: STATUS where "STATUS_DISK_FULL = 0x80040002"
definition STATUS_INVALID_FILE_NAME :: STATUS where "STATUS_INVALID_FILE_NAME = 0x88000019"
definition STATUS_FILE_NOT_FOUND :: STATUS where "STATUS_FILE_NOT_FOUND = 0x8800001A"
definition STATUS_FILE_TYPE_INVALID :: STATUS where "STATUS_FILE_TYPE_INVALID = 0x8800001B"
definition STATUS_TIME_INVALID :: STATUS where "STATUS_TIME_INVALID = 0x8800001C"
definition STATUS_PATH_NOT_VALID :: STATUS where "STATUS_PATH_NOT_VALID = 0x8800001D"
definition STATUS_FILE_ALREADY_EXISTS :: STATUS where "STATUS_FILE_ALREADY_EXISTS = 0x8800001E"

abbreviation ATTR_VOLUME_ID :: BYTE where "ATTR_VOLUME_ID \<equiv> 0x08"
abbreviation ATTR_DIRECTORY :: BYTE where "ATTR_DIRECTORY \<equiv> 0x10"
abbreviation ATTR_LONG_NAME :: BYTE where "ATTR_LONG_NAME \<equiv> 0x0F"
abbreviation ATTR_LONG_NAME_MASK :: BYTE where "ATTR_LONG_NAME_MASK \<equiv> 0x3F"
abbreviation FREE_ENTRY :: BYTE where "FREE_ENTRY \<equiv> 0xE5"
abbreviation FREE_JAP_ENTRY :: BYTE where "FREE_JAP_ENTRY \<equiv> 0x05"
abbreviation FREE_ALL :: BYTE where "FREE_ALL \<equiv> 0"
abbreviation FAT_DELIMITER :: BYTE where "FAT_DELIMITER \<equiv> 0x5C"
abbreviation FAT32_CLUSTER_MASK :: QWORD where "FAT32_CLUSTER_MASK \<equiv> 0x0FFFFFFF"
abbreviation FAT32_BAD_CLUSTER :: QWORD where "FAT32_BAD_CLUSTER \<equiv> 0x0FFFFFF7"

type_synonym device_reader = "QWORD \<Rightarrow> QWORD \<Rightarrow> bool \<Rightarrow> STATUS \<times> BYTE list"

record FAT_DATA =
  CountOfClusters :: DWORD
  RootDirectoryStartSector :: QWORD
  ReservedSectors :: DWORD
  FirstDataSector :: DWORD
  SectorsPerCluster :: DWORD
  BytesPerSector :: DWORD
  EntriesPerSector :: DWORD
  AllocationSize :: DWORD

record DATE =
  Day :: BYTE
  Month :: BYTE
  Year :: WORD

record TIME =
  Second :: BYTE
  Minute :: BYTE
  Hour :: BYTE

record FILE_INFORMATION =
  CreationTime :: "DATE \<times> TIME"
  LastWriteTime :: "DATE \<times> TIME"
  FileSize :: QWORD
  FileAttributes :: DWORD

text \<open>Little-endian reads from a buffer.\<close>

fun le_value :: "BYTE list \<Rightarrow> nat" where
  "le_value [] = 0"
| "le_value (b # bs) = unat b + 256 * le_value bs"

definition read_le_at :: "BYTE list \<Rightarrow> nat \<Rightarrow> nat \<Rightarrow> nat option" where
  "read_le_at bs offset n = (if offset + n \<le> length bs then Some (le_value (take n (drop offset bs))) else None)"

definition byte_at :: "BYTE list \<Rightarrow> nat \<Rightarrow> BYTE option" where
  "byte_at bs i = map_option of_nat (read_le_at bs i 1)"

definition word_at :: "BYTE list \<Rightarrow> nat \<Rightarrow> WORD option" where
  "word_at bs i = map_option of_nat (read_le_at bs i 2)"

definition dword_at :: "BYTE list \<Rightarrow> nat \<Rightarrow> DWORD option" where
  "dword_at bs i = map_option of_nat (read_le_at bs i 4)"

definition fault_div :: "'a::len word \<Rightarrow> 'a word \<Rightarrow> 'a word option" where
  "fault_div a b = (if b = 0 then None else Some (a div b))"

definition fault_mod :: "'a::len word \<Rightarrow> 'a word \<Rightarrow> 'a word option" where
  "fault_mod a b = (if b = 0 then None else Some (a mod b))"

section \<open>Clusters and sectors\<close>

definition FirstSectorOfCluster :: "FAT_DATA \<Rightarrow> QWORD \<Rightarrow> STATUS \<times> QWORD option" where
  "FirstSectorOfCluster FatData Cluster =
     (if Cluster > ucast (CountOfClusters FatData + 1) \<or> Cluster < 2 then (STATUS_DEVICE_CLUSTER_INVALID, None)
      else (STATUS_SUCCESS,
        Some ((Cluster - 2) * ucast (SectorsPerCluster FatData) + ucast (FirstDataSector FatData))))"

definition ClusterOfSector :: "FAT_DATA \<Rightarrow> QWORD \<Rightarrow> (STATUS \<times> QWORD) option" where
  "ClusterOfSector FatData Sector = do {
     q \<leftarrow> fault_div (Sector - ucast (FirstDataSector FatData)) (ucast (SectorsPerCluster FatData));
     let cluster = q + 2;
     Some (if cluster > ucast (CountOfClusters FatData + 1) \<or> cluster < 2 then STATUS_DEVICE_CLUSTER_INVALID
           else STATUS_SUCCESS, cluster)
   }"

text \<open>A failed read returns without freeing the sector buffer, which is not part of this state.\<close>

definition NextClusterInChain ::
    "device_reader \<Rightarrow> (QWORD \<Rightarrow> bool) \<Rightarrow> FAT_DATA \<Rightarrow> QWORD \<Rightarrow> (STATUS \<times> QWORD option) option" where
  "NextClusterInChain rd pool FatData CurrentCluster = do {
     q \<leftarrow> fault_div (4 * CurrentCluster) (ucast (BytesPerSector FatData));
     offsetInSector \<leftarrow> fault_mod (4 * CurrentCluster) (ucast (BytesPerSector FatData));
     let sectorNumber = ucast (ReservedSectors FatData) + q;
     let bytesToRead = ucast (BytesPerSector FatData);
     let offset = sectorNumber * ucast (BytesPerSector FatData);
     (if \<not> pool bytesToRead then Some (STATUS_HEAP_NO_MORE_MEMORY, None)
      else let (status, fat) = rd bytesToRead offset False
           in if \<not> SUCCEEDED status then Some (status, None)
              else do {
                ASSERT (of_nat (length fat) = bytesToRead);
                entry \<leftarrow> dword_at fat (unat offsetInSector);
                Some (STATUS_SUCCESS, Some (ucast entry))
              })
   }"

text \<open>The sector 0 is the end of the chain.\<close>

definition NextSectorInClusterChain ::
    "device_reader \<Rightarrow> (QWORD \<Rightarrow> bool) \<Rightarrow> FAT_DATA \<Rightarrow> QWORD \<Rightarrow> (STATUS \<times> QWORD option) option" where
  "NextSectorInClusterChain rd pool FatData CurrentSector = do {
     (status, currentCluster) \<leftarrow> ClusterOfSector FatData CurrentSector;
     (if \<not> SUCCEEDED status then Some (status, None)
      else do {
        (status, found) \<leftarrow> NextClusterInChain rd pool FatData currentCluster;
        (case found of None \<Rightarrow> Some (status, None)
         | Some nextCluster \<Rightarrow>
             let nextCluster = nextCluster AND FAT32_CLUSTER_MASK
             in Some (if nextCluster \<ge> FAT32_BAD_CLUSTER \<or> 0 = nextCluster then (status, Some 0)
                      else FirstSectorOfCluster FatData nextCluster))
      })
   }"

section \<open>Dates and times\<close>

text \<open>Bit fields of a word: day 5, month 4, year 7 bits; second 5, minute 6, hour 5 bits.\<close>

abbreviation FAT_START_YEAR :: WORD where "FAT_START_YEAR \<equiv> 1980"

definition word_field :: "nat \<Rightarrow> nat \<Rightarrow> WORD \<Rightarrow> WORD" where
  "word_field lo n w = take_bit n (drop_bit lo w)"

definition ConvertFatDateToDate :: "WORD \<Rightarrow> DATE \<Rightarrow> STATUS \<times> DATE" where
  "ConvertFatDateToDate FatDate RealDate =
     (let day = (ucast (word_field 0 5 FatDate) :: BYTE);
          RealDate = RealDate\<lparr>Day := day\<rparr>
      in if day < 1 \<or> day > 31 then (STATUS_TIME_INVALID, RealDate)
         else let month = (ucast (word_field 5 4 FatDate) :: BYTE);
                  RealDate = RealDate\<lparr>Month := month\<rparr>
              in if month < 1 \<or> month > 12 then (STATUS_TIME_INVALID, RealDate)
                 else (STATUS_SUCCESS, RealDate\<lparr>Year := word_field 9 7 FatDate + FAT_START_YEAR\<rparr>))"

definition ConvertFatTimeToTime :: "WORD \<Rightarrow> TIME \<Rightarrow> STATUS \<times> TIME" where
  "ConvertFatTimeToTime FatTime RealTime =
     (let second = (ucast (word_field 0 5 FatTime) :: BYTE);
          RealTime = RealTime\<lparr>Second := second\<rparr>
      in if second > 29 then (STATUS_TIME_INVALID, RealTime)
         else let minute = (ucast (word_field 5 6 FatTime) :: BYTE);
                  RealTime = RealTime\<lparr>Second := second * 2, Minute := minute\<rparr>
              in if minute > 59 then (STATUS_TIME_INVALID, RealTime)
                 else let hour = (ucast (word_field 11 5 FatTime) :: BYTE);
                          RealTime = RealTime\<lparr>Hour := hour\<rparr>
                      in if hour > 23 then (STATUS_TIME_INVALID, RealTime) else (STATUS_SUCCESS, RealTime))"

definition ConvertFatDateTimeToDateTime :: "WORD \<Rightarrow> WORD \<Rightarrow> DATE \<times> TIME \<Rightarrow> STATUS \<times> DATE \<times> TIME" where
  "ConvertFatDateTimeToDateTime FatDate FatTime = (\<lambda>(d, t).
     let (status, d) = ConvertFatDateToDate FatDate d
     in if \<not> SUCCEEDED status then (status, d, t)
        else let (status, t) = ConvertFatTimeToTime FatTime t in (status, d, t))"

text \<open>An assignment to a bit field keeps the low bits of the value.\<close>

definition fields3 :: "nat \<Rightarrow> nat \<Rightarrow> nat \<Rightarrow> WORD \<Rightarrow> WORD \<Rightarrow> WORD \<Rightarrow> WORD" where
  "fields3 n1 n2 n3 a b c = take_bit n1 a OR push_bit n1 (take_bit n2 b) OR push_bit (n1 + n2) (take_bit n3 c)"

definition ConvertDateToFatDate :: "DATE \<Rightarrow> WORD" where
  "ConvertDateToFatDate RealDate =
     fields3 5 4 7 (ucast (Day RealDate)) (ucast (Month RealDate)) (Year RealDate - FAT_START_YEAR)"

definition ConvertTimeToFatTime :: "TIME \<Rightarrow> WORD" where
  "ConvertTimeToFatTime RealTime =
     fields3 5 6 5 (ucast (Second RealTime div 2)) (ucast (Minute RealTime)) (ucast (Hour RealTime))"

definition ConvertDateTimeToFatDateTime :: "DATE \<times> TIME \<Rightarrow> WORD \<times> WORD" where
  "ConvertDateTimeToFatDateTime dt = (ConvertDateToFatDate (fst dt), ConvertTimeToFatTime (snd dt))"

section \<open>Names\<close>

definition c_string :: "BYTE list \<Rightarrow> BYTE list" where
  "c_string bs = takeWhile (\<lambda>b. b \<noteq> 0) bs"

text \<open>The loop over the eight characters of the name: where the blanks at its end begin.\<close>

fun last_space :: "BYTE list \<Rightarrow> nat \<Rightarrow> nat \<Rightarrow> nat" where
  "last_space [] i lastSpaceIndex = lastSpaceIndex"
| "last_space (c # cs) i lastSpaceIndex =
     (if c = 0x20 then last_space cs (i + 1) (if lastSpaceIndex > i then i else lastSpaceIndex)
      else last_space cs (i + 1) 8)"

text \<open>
  \<open>FatName\<close> has 11 bytes. The result is the status, the text written to the buffer if any, and the
  length. The call of \<open>snprintf\<close> with two strings and a dot between them concatenates them.
\<close>

definition ConvertFatNameToName :: "BYTE list \<Rightarrow> nat \<Rightarrow> STATUS \<times> BYTE list option \<times> nat" where
  "ConvertFatNameToName FatName Sz =
     (let normalName = c_string (take (last_space (take 8 FatName) 0 8) FatName);
          ext = takeWhile (\<lambda>c. c \<noteq> 0x20) (take 3 (drop 8 FatName));
          i = length ext;
          nameLen = length normalName + i + (if 0 \<noteq> i then 1 else 0)
      in if nameLen \<ge> Sz then (STATUS_BUFFER_TOO_SMALL, None, nameLen)
         else if 0 = i then (STATUS_SUCCESS, Some normalName, nameLen)
         else (STATUS_SUCCESS, Some (normalName @ 0x2E # c_string ext), nameLen))"

section \<open>Directory entries\<close>

record DIR_ENTRY =
  DIR_Name :: "BYTE list"
  DIR_Attr :: BYTE
  DIR_NTRes :: BYTE
  DIR_CrtTimeTenth :: BYTE
  DIR_CrtTime :: WORD
  DIR_CrtDate :: WORD
  DIR_LstAccDate :: WORD
  DIR_FstClusHI :: WORD
  DIR_WrtTime :: WORD
  DIR_WrtDate :: WORD
  DIR_FstClusLO :: WORD
  DIR_FileSize :: DWORD

definition sizeof_DIR_ENTRY :: nat where "sizeof_DIR_ENTRY = 32"

text \<open>
  The code casts the buffer of a cluster to an array of this packed structure. What the cast means is
  spelled out here: the fields of the entry \<open>index\<close> are read from and written to its 32 bytes, in the order
  of the declaration and with the low byte first. An index behind the buffer has no entry.
\<close>

definition get_entry :: "BYTE list \<Rightarrow> nat \<Rightarrow> DIR_ENTRY option" where
  "get_entry buffer index = (let e = index * sizeof_DIR_ENTRY in do {
     attr \<leftarrow> byte_at buffer (e + 11);
     ntres \<leftarrow> byte_at buffer (e + 12);
     tenth \<leftarrow> byte_at buffer (e + 13);
     ctime \<leftarrow> word_at buffer (e + 14);
     cdate \<leftarrow> word_at buffer (e + 16);
     adate \<leftarrow> word_at buffer (e + 18);
     hi \<leftarrow> word_at buffer (e + 20);
     wtime \<leftarrow> word_at buffer (e + 22);
     wdate \<leftarrow> word_at buffer (e + 24);
     lo \<leftarrow> word_at buffer (e + 26);
     sz \<leftarrow> dword_at buffer (e + 28);
     Some \<lparr>DIR_Name = take 11 (drop e buffer), DIR_Attr = attr, DIR_NTRes = ntres, DIR_CrtTimeTenth = tenth,
           DIR_CrtTime = ctime, DIR_CrtDate = cdate, DIR_LstAccDate = adate, DIR_FstClusHI = hi,
           DIR_WrtTime = wtime, DIR_WrtDate = wdate, DIR_FstClusLO = lo, DIR_FileSize = sz\<rparr>
   })"

definition le_bytes :: "nat \<Rightarrow> 'a::len word \<Rightarrow> BYTE list" where
  "le_bytes n w = map (\<lambda>i. ucast (drop_bit (8 * i) w)) [0 ..< n]"

definition entry_bytes :: "DIR_ENTRY \<Rightarrow> BYTE list" where
  "entry_bytes e = DIR_Name e @ [DIR_Attr e, DIR_NTRes e, DIR_CrtTimeTenth e] @ le_bytes 2 (DIR_CrtTime e) @
     le_bytes 2 (DIR_CrtDate e) @ le_bytes 2 (DIR_LstAccDate e) @ le_bytes 2 (DIR_FstClusHI e) @
     le_bytes 2 (DIR_WrtTime e) @ le_bytes 2 (DIR_WrtDate e) @ le_bytes 2 (DIR_FstClusLO e) @
     le_bytes 4 (DIR_FileSize e)"

definition put_bytes :: "nat \<Rightarrow> BYTE list \<Rightarrow> BYTE list \<Rightarrow> BYTE list" where
  "put_bytes i bs buffer = take i buffer @ bs @ drop (i + length bs) buffer"

definition put_entry_at :: "nat \<Rightarrow> DIR_ENTRY \<Rightarrow> BYTE list \<Rightarrow> BYTE list" where
  "put_entry_at index e buffer = put_bytes (index * sizeof_DIR_ENTRY) (entry_bytes e) buffer"

definition entry_cluster :: "DIR_ENTRY \<Rightarrow> QWORD" where
  "entry_cluster e = ucast (push_bit 16 (ucast (DIR_FstClusHI e)) OR ucast (DIR_FstClusLO e) :: DWORD)"

text \<open>\<open>alig\<close> is the alignment of the volume device.\<close>

definition FatPopulateFileInformationFromFatEntry ::
    "DWORD \<Rightarrow> DIR_ENTRY \<Rightarrow> FILE_INFORMATION \<Rightarrow> FILE_INFORMATION option" where
  "FatPopulateFileInformationFromFatEntry alig e fi =
     (let fi = fi\<lparr>FileSize := AlignAddressUpper (ucast (DIR_FileSize e)) (ucast alig),
                  FileAttributes := (if IsBooleanFlagOn (ucast (DIR_Attr e) :: DWORD) (ucast ATTR_VOLUME_ID) then 4
                    else if IsBooleanFlagOn (ucast (DIR_Attr e) :: DWORD) (ucast ATTR_DIRECTORY) then 2 else 1)\<rparr>
      in if FileAttributes fi = 4 then Some fi
         else do {
           let (status, created) = ConvertFatDateTimeToDateTime (DIR_CrtDate e) (DIR_CrtTime e) (CreationTime fi);
           ASSERT (SUCCEEDED status);
           let (status, written) = ConvertFatDateTimeToDateTime (DIR_WrtDate e) (DIR_WrtTime e) (LastWriteTime fi);
           ASSERT (SUCCEEDED status);
           Some (fi\<lparr>CreationTime := created, LastWriteTime := written\<rparr>)
         })"

section \<open>The volume\<close>

text \<open>
  The boot sector is 512 bytes; the arithmetic on its fields is done in 32 bits. What was set before an
  early return stays set.
\<close>

definition FatInitVolume :: "device_reader \<Rightarrow> DWORD \<Rightarrow> FAT_DATA \<Rightarrow> (STATUS \<times> FAT_DATA) option" where
  "FatInitVolume rd alig FatData =
     (let (status, bpb) = rd 512 0 False
      in if \<not> SUCCEEDED status then Some (status, FatData)
         else do {
           signature \<leftarrow> word_at bpb 510;
           (if 0xAA55 \<noteq> signature then Some (STATUS_DISK_MBR_NOT_PRESENT, FatData)
            else do {
              bytsPerSec \<leftarrow> word_at bpb 11;
              secPerClus \<leftarrow> byte_at bpb 13;
              rsvdSecCnt \<leftarrow> word_at bpb 14;
              numFATs \<leftarrow> byte_at bpb 16;
              totSec16 \<leftarrow> word_at bpb 19;
              fatSz16 \<leftarrow> word_at bpb 22;
              totSec32 \<leftarrow> dword_at bpb 32;
              fatSz32 \<leftarrow> dword_at bpb 36;
              rootClus \<leftarrow> dword_at bpb 44;
              let fatSize = (if 0 \<noteq> fatSz16 then ucast fatSz16 else fatSz32);
              let totalSectors = (if 0 \<noteq> totSec16 then ucast totSec16 else totSec32);
              let dataSectors = totalSectors - (ucast rsvdSecCnt + ucast numFATs * fatSize);
              clusters \<leftarrow> fault_div dataSectors (ucast secPerClus);
              let FatData = FatData\<lparr>CountOfClusters := clusters\<rparr>;
              (if clusters < 65525 then Some (STATUS_DEVICE_FILESYSTEM_UNSUPPORTED, FatData)
               else do {
                 let FatData = FatData\<lparr>FirstDataSector := ucast rsvdSecCnt + ucast numFATs * fatSize,
                                       SectorsPerCluster := ucast secPerClus\<rparr>;
                 let (status, root) = FirstSectorOfCluster FatData (ucast rootClus);
                 (case root of None \<Rightarrow> Some (status, FatData)
                  | Some root \<Rightarrow> do {
                      let FatData = FatData\<lparr>RootDirectoryStartSector := root,
                            EntriesPerSector := ucast bytsPerSec div 32, ReservedSectors := ucast rsvdSecCnt,
                            BytesPerSector := ucast bytsPerSec,
                            AllocationSize := ucast secPerClus * ucast bytsPerSec\<rparr>;
                      ASSERT (AllocationSize FatData \<ge> alig);
                      Some (status, FatData)
                    })
               })
            })
         })"

section \<open>Reading a file\<close>

partial_function (option) skip_clusters ::
    "device_reader \<Rightarrow> (QWORD \<Rightarrow> bool) \<Rightarrow> FAT_DATA \<Rightarrow> QWORD \<Rightarrow> QWORD \<Rightarrow> QWORD \<Rightarrow> (STATUS \<times> QWORD) option" where
  "skip_clusters rd pool FatData SectorOffset currentSector sectorsTraversed =
     (if sectorsTraversed + ucast (SectorsPerCluster FatData) \<le> SectorOffset then do {
        ASSERT (SectorOffset \<ge> ucast (SectorsPerCluster FatData));
        (status, found) \<leftarrow> NextSectorInClusterChain rd pool FatData currentSector;
        (case found of None \<Rightarrow> Some (status, currentSector)
         | Some nextSector \<Rightarrow>
             if \<not> SUCCEEDED status then Some (status, currentSector)
             else skip_clusters rd pool FatData SectorOffset nextSector
                    (sectorsTraversed + ucast (SectorsPerCluster FatData)))
      }
      else Some (STATUS_SUCCESS, currentSector))"

text \<open>The bytes stored in the buffer so far are \<open>buf\<close>.\<close>

partial_function (option) read_clusters ::
    "device_reader \<Rightarrow> (QWORD \<Rightarrow> bool) \<Rightarrow> FAT_DATA \<Rightarrow> bool \<Rightarrow> QWORD \<Rightarrow> QWORD \<Rightarrow> QWORD \<Rightarrow> bool \<Rightarrow> BYTE list \<Rightarrow>
     (STATUS \<times> BYTE list \<times> QWORD option) option" where
  "read_clusters rd pool FatData Asynchronous SectorsToRead currentSector sectorsRemaining firstIteration buf =
     (if 0 \<noteq> sectorsRemaining then do {
        (status, found) \<leftarrow> (if firstIteration then Some (STATUS_SUCCESS, Some currentSector)
                           else NextSectorInClusterChain rd pool FatData currentSector);
        (case found of None \<Rightarrow> Some (status, buf, None)
         | Some currentSector \<Rightarrow>
             if \<not> SUCCEEDED status then Some (status, buf, None)
             else if \<not> firstIteration \<and> 0 = currentSector then
               Some (STATUS_SUCCESS, buf, Some (SectorsToRead - sectorsRemaining))
             else do {
               let sectorsToRead = min (ucast (SectorsPerCluster FatData)) sectorsRemaining;
               let bytesToRead = sectorsToRead * ucast (BytesPerSector FatData);
               let (status, bytes) = rd bytesToRead (currentSector * ucast (BytesPerSector FatData)) Asynchronous;
               (if \<not> SUCCEEDED status then Some (status, buf, None)
                else do {
                  ASSERT (of_nat (length bytes) = bytesToRead);
                  read_clusters rd pool FatData Asynchronous SectorsToRead currentSector
                    (sectorsRemaining - sectorsToRead) False (buf @ bytes)
                })
             })
      }
      else Some (STATUS_SUCCESS, buf, Some SectorsToRead))"

definition FatReadFile ::
    "device_reader \<Rightarrow> (QWORD \<Rightarrow> bool) \<Rightarrow> FAT_DATA \<Rightarrow> QWORD \<Rightarrow> QWORD \<Rightarrow> QWORD \<Rightarrow> bool \<Rightarrow>
     (STATUS \<times> BYTE list \<times> QWORD option) option" where
  "FatReadFile rd pool FatData BaseFileSector SectorOffset SectorsToRead Asynchronous = do {
     ASSERT (IsAddressAligned BaseFileSector (ucast (SectorsPerCluster FatData)));
     (status, currentSector) \<leftarrow> skip_clusters rd pool FatData SectorOffset BaseFileSector 0;
     (if \<not> SUCCEEDED status then Some (status, [], None)
      else do {
        ASSERT (0 \<noteq> currentSector);
        rest \<leftarrow> fault_mod SectorOffset (ucast (SectorsPerCluster FatData));
        read_clusters rd pool FatData Asynchronous SectorsToRead (currentSector + rest) SectorsToRead True []
      })
   }"

section \<open>Directories\<close>

text \<open>
  The first byte of the entry \<open>index\<close>: the condition of the loops reads it also for the entry behind the
  last one of the cluster, where it is the byte \<open>behind\<close> the buffer.
\<close>

definition first_byte :: "BYTE \<Rightarrow> BYTE list \<Rightarrow> DWORD \<Rightarrow> BYTE" where
  "first_byte behind buffer index =
     (case byte_at buffer (unat index * sizeof_DIR_ENTRY) of Some b \<Rightarrow> b | None \<Rightarrow> behind)"

definition entries_per_cluster :: "FAT_DATA \<Rightarrow> DWORD" where
  "entries_per_cluster FatData = EntriesPerSector FatData * SectorsPerCluster FatData"

definition cluster_bytes :: "FAT_DATA \<Rightarrow> QWORD" where
  "cluster_bytes FatData = ucast (BytesPerSector FatData * SectorsPerCluster FatData)"

text \<open>
  The start of both directory loops at a cluster boundary: the next cluster is read, \<open>eoc\<close> is the status
  at the end of the chain and \<open>no_pool\<close> the one when there is no memory. \<open>Inl\<close> leaves the function.
\<close>

definition next_cluster ::
    "device_reader \<Rightarrow> (QWORD \<Rightarrow> bool) \<Rightarrow> FAT_DATA \<Rightarrow> STATUS \<Rightarrow> STATUS \<Rightarrow> QWORD \<Rightarrow> BYTE list option \<Rightarrow>
     (STATUS + QWORD \<times> BYTE list) option" where
  "next_cluster rd pool FatData eoc no_pool sectorToParse pEntry = do {
     (status, found) \<leftarrow> (if pEntry = None then Some (STATUS_SUCCESS, Some sectorToParse)
                        else NextSectorInClusterChain rd pool FatData sectorToParse);
     (case found of None \<Rightarrow> Some (Inl status)
      | Some sector \<Rightarrow>
          if \<not> SUCCEEDED status then Some (Inl status)
          else if pEntry \<noteq> None \<and> 0 = sector then Some (Inl eoc)
          else if \<not> pool (cluster_bytes FatData) then Some (Inl no_pool)
          else let (status, bytes) = rd (cluster_bytes FatData) (sector * ucast (BytesPerSector FatData)) True
               in if \<not> SUCCEEDED status then Some (Inl status)
                  else do {
                    ASSERT (of_nat (length bytes) = cluster_bytes FatData);
                    Some (Inr (sector, bytes))
                  })
   }"

definition is_skipped :: "DIR_ENTRY \<Rightarrow> bool" where
  "is_skipped e \<longleftrightarrow> hd (DIR_Name e) = FREE_ENTRY \<or> hd (DIR_Name e) = FREE_JAP_ENTRY \<or>
     DIR_Attr e AND ATTR_LONG_NAME_MASK = ATTR_LONG_NAME"

text \<open>The results: the status and what was stored in the out parameters, if anything.\<close>

record search_result =
  SearchStatus :: STATUS
  SearchResult :: "QWORD option"
  ParentSector :: "QWORD option"
  SearchInformation :: "FILE_INFORMATION option"

definition leave_search :: "STATUS \<Rightarrow> search_result" where
  "leave_search status = \<lparr>SearchStatus = status, SearchResult = None, ParentSector = None, SearchInformation = None\<rparr>"

text \<open>An entry with the name that is searched for.\<close>

definition found_entry ::
    "FAT_DATA \<Rightarrow> DWORD \<Rightarrow> BYTE \<Rightarrow> FILE_INFORMATION option \<Rightarrow> QWORD \<Rightarrow> DIR_ENTRY \<Rightarrow> search_result option" where
  "found_entry FatData alig SearchType fi sectorToParse e =
     (if DIR_Attr e AND (ATTR_DIRECTORY OR ATTR_VOLUME_ID) \<noteq> SearchType then
        Some (leave_search STATUS_FILE_TYPE_INVALID)
      else let (status, sector) = FirstSectorOfCluster FatData (entry_cluster e);
               r = \<lparr>SearchStatus = status, SearchResult = sector, ParentSector = Some sectorToParse,
                    SearchInformation = None\<rparr>
           in if \<not> SUCCEEDED status then Some r
              else (case fi of None \<Rightarrow> Some r
                    | Some fi \<Rightarrow> do {
                        fi \<leftarrow> FatPopulateFileInformationFromFatEntry alig e fi;
                        Some (r\<lparr>SearchInformation := Some fi\<rparr>)
                      }))"

text \<open>
  One pass of the loop body: \<open>Inl\<close> leaves the function, \<open>Inr\<close> goes to the condition with the cluster and
  the index it will test. \<open>stricmp\<close> of two strings is 0 exactly if they are equal after \<open>tolower\<close>.
\<close>

definition search_step ::
    "device_reader \<Rightarrow> (QWORD \<Rightarrow> bool) \<Rightarrow> FAT_DATA \<Rightarrow> DWORD \<Rightarrow> BYTE list \<Rightarrow> BYTE \<Rightarrow> FILE_INFORMATION option \<Rightarrow>
     QWORD \<Rightarrow> BYTE list option \<Rightarrow> DWORD \<Rightarrow> (search_result + QWORD \<times> BYTE list \<times> DWORD) option" where
  "search_step rd pool FatData alig Name SearchType fi sectorToParse pEntry index = do {
     m \<leftarrow> fault_mod index (entries_per_cluster FatData);
     cluster \<leftarrow> (if 0 = m then
         next_cluster rd pool FatData STATUS_FILE_NOT_FOUND STATUS_SUCCESS sectorToParse pEntry
       else map_option (\<lambda>bytes. Inr (sectorToParse, bytes)) pEntry);
     (case cluster of Inl status \<Rightarrow> Some (Inl (leave_search status))
      | Inr (sectorToParse, bytes) \<Rightarrow> do {
          let index = (if 0 = m then 0 else index);
          e \<leftarrow> get_entry bytes (unat index);
          (if is_skipped e then Some (Inr (sectorToParse, bytes, index + 1))
           else do {
             let (status, name, requiredLength) = ConvertFatNameToName (DIR_Name e) 16;
             ASSERT (SUCCEEDED status);
             (if map_option (map tolower) name = Some (map tolower Name) then
                map_option Inl (found_entry FatData alig SearchType fi sectorToParse e)
              else Some (Inr (sectorToParse, bytes, index + 1)))
           })
        })
   }"

partial_function (option) search_loop ::
    "device_reader \<Rightarrow> (QWORD \<Rightarrow> bool) \<Rightarrow> FAT_DATA \<Rightarrow> DWORD \<Rightarrow> BYTE \<Rightarrow> BYTE list \<Rightarrow> BYTE \<Rightarrow> FILE_INFORMATION option \<Rightarrow>
     QWORD \<Rightarrow> BYTE list option \<Rightarrow> DWORD \<Rightarrow> search_result option" where
  "search_loop rd pool FatData alig behind Name SearchType fi sectorToParse pEntry index = do {
     r \<leftarrow> search_step rd pool FatData alig Name SearchType fi sectorToParse pEntry index;
     (case r of Inl result \<Rightarrow> Some result
      | Inr (sectorToParse, bytes, index) \<Rightarrow>
          if FREE_ALL \<noteq> first_byte behind bytes index then
            search_loop rd pool FatData alig behind Name SearchType fi sectorToParse (Some bytes) index
          else Some (leave_search STATUS_FILE_NOT_FOUND))
   }"

definition FatSearchDirectoryEntry ::
    "device_reader \<Rightarrow> (QWORD \<Rightarrow> bool) \<Rightarrow> FAT_DATA \<Rightarrow> DWORD \<Rightarrow> BYTE \<Rightarrow> QWORD \<Rightarrow> BYTE list \<Rightarrow> BYTE \<Rightarrow>
     FILE_INFORMATION option \<Rightarrow> search_result option" where
  "FatSearchDirectoryEntry rd pool FatData alig behind SectorToSearch Name SearchType fi =
     search_loop rd pool FatData alig behind Name SearchType fi SectorToSearch None 0"

subsection \<open>Paths\<close>

text \<open>Where \<open>strchr\<close> finds a delimiter: it returns its argument when there is none.\<close>

definition delimiter_at :: "BYTE list \<Rightarrow> nat" where
  "delimiter_at cs = (let n = length (takeWhile (\<lambda>c. c \<noteq> FAT_DELIMITER) cs) in if n < length cs then n else 0)"

text \<open>
  The loop over the parts of the path, on the rest of the path. \<open>parent\<close> and \<open>fi\<close> are what the out
  parameters hold; a search that succeeds without a result leaves the previous one in place.
\<close>

function path_loop ::
    "device_reader \<Rightarrow> (QWORD \<Rightarrow> bool) \<Rightarrow> FAT_DATA \<Rightarrow> DWORD \<Rightarrow> BYTE \<Rightarrow> BYTE \<Rightarrow> BYTE list \<Rightarrow> QWORD \<Rightarrow> QWORD \<Rightarrow>
     QWORD option \<Rightarrow> FILE_INFORMATION option \<Rightarrow> search_result option" where
  "path_loop rd pool FatData alig behind SearchType rest currentSearchSector tempResult parent fi =
     (let n = delimiter_at rest;
          finishedParse = (n = 0);
          partialNameLength = (if finishedParse then length rest else n);
          currentSearchType = (if finishedParse then SearchType else ATTR_DIRECTORY)
      in if partialNameLength \<ge> 13 \<or> partialNameLength = 0 then
           Some \<lparr>SearchStatus = STATUS_PATH_NOT_VALID, SearchResult = None, ParentSector = parent, SearchInformation = fi\<rparr>
         else do {
           r \<leftarrow> FatSearchDirectoryEntry rd pool FatData alig behind currentSearchSector (take partialNameLength rest)
                 currentSearchType fi;
           let parent = (if ParentSector r = None then parent else ParentSector r);
           let fi = (if SearchInformation r = None then fi else SearchInformation r);
           let tempResult = (case SearchResult r of None \<Rightarrow> tempResult | Some t \<Rightarrow> t);
           (if \<not> SUCCEEDED (SearchStatus r) then
              Some \<lparr>SearchStatus = SearchStatus r, SearchResult = None, ParentSector = parent, SearchInformation = fi\<rparr>
            else if finishedParse then
              Some \<lparr>SearchStatus = STATUS_SUCCESS, SearchResult = Some tempResult, ParentSector = parent,
                    SearchInformation = fi\<rparr>
            else path_loop rd pool FatData alig behind SearchType (drop (partialNameLength + 1) rest) tempResult
                   tempResult parent fi)
         })"
  by pat_completeness auto

termination path_loop
proof (relation "measure (\<lambda>(_, _, _, _, _, _, rest, _). length rest)")
qed (auto simp: delimiter_at_def Let_def split: if_splits)

definition FatSearch ::
    "device_reader \<Rightarrow> (QWORD \<Rightarrow> bool) \<Rightarrow> FAT_DATA \<Rightarrow> DWORD \<Rightarrow> BYTE \<Rightarrow> BYTE list \<Rightarrow> BYTE \<Rightarrow> FILE_INFORMATION option \<Rightarrow>
     search_result option" where
  "FatSearch rd pool FatData alig behind Name SearchType fi =
     (if Name = [] \<or> FAT_DELIMITER \<noteq> hd Name then Some (leave_search STATUS_INVALID_FILE_NAME)
      else if length Name = 1 then
        (if ATTR_DIRECTORY \<noteq> SearchType AND ATTR_DIRECTORY then Some (leave_search STATUS_FILE_TYPE_INVALID)
         else Some \<lparr>SearchStatus = STATUS_SUCCESS, SearchResult = Some (RootDirectoryStartSector FatData),
                    ParentSector = Some 0,
                    SearchInformation = map_option (\<lambda>_. \<lparr>CreationTime = (\<lparr>Day = 0, Month = 0, Year = 0\<rparr>,
                        \<lparr>Second = 0, Minute = 0, Hour = 0\<rparr>), LastWriteTime = (\<lparr>Day = 0, Month = 0, Year = 0\<rparr>,
                        \<lparr>Second = 0, Minute = 0, Hour = 0\<rparr>), FileSize = 0, FileAttributes = 4\<rparr>) fi\<rparr>)
      else path_loop rd pool FatData alig behind SearchType (tl Name) (RootDirectoryStartSector FatData) 0 None fi)"

subsection \<open>Listing a directory\<close>

record dir_information =
  NextEntryOffset :: DWORD
  BasicFileInformation :: FILE_INFORMATION
  Filename :: "BYTE list"

definition sizeof_FILE_DIRECTORY_INFORMATION :: DWORD where "sizeof_FILE_DIRECTORY_INFORMATION = 48"

text \<open>The list of the entries written so far; writing the next one sets the offset in the last.\<close>

definition append_information :: "dir_information list \<Rightarrow> dir_information \<Rightarrow> dir_information list" where
  "append_information ds d =
     (if ds = [] then [d]
      else butlast ds @ [(last ds)\<lparr>NextEntryOffset :=
        sizeof_FILE_DIRECTORY_INFORMATION + of_nat (length (Filename (last ds)))\<rparr>, d])"

text \<open>
  The body of the loop; \<open>Sz\<close> is the size of the caller's buffer, \<open>fi\<close> what its information fields hold
  before. \<open>memcpy\<close> copies as many bytes of the name as its length says.
\<close>

definition query_step ::
    "device_reader \<Rightarrow> (QWORD \<Rightarrow> bool) \<Rightarrow> FAT_DATA \<Rightarrow> DWORD \<Rightarrow> DWORD \<Rightarrow> FILE_INFORMATION \<Rightarrow> QWORD \<Rightarrow> BYTE list option \<Rightarrow>
     DWORD \<Rightarrow> DWORD \<Rightarrow> dir_information list \<Rightarrow>
     (STATUS + QWORD \<times> BYTE list \<times> DWORD \<times> DWORD \<times> dir_information list) option" where
  "query_step rd pool FatData alig Sz fi sectorToParse pEntry index requiredSize written = do {
     m \<leftarrow> fault_mod index (entries_per_cluster FatData);
     cluster \<leftarrow> (if 0 = m then
         next_cluster rd pool FatData STATUS_SUCCESS STATUS_HEAP_NO_MORE_MEMORY sectorToParse pEntry
       else map_option (\<lambda>bytes. Inr (sectorToParse, bytes)) pEntry);
     (case cluster of Inl status \<Rightarrow> Some (Inl status)
      | Inr (sectorToParse, bytes) \<Rightarrow> do {
          let index = (if 0 = m then 0 else index);
          e \<leftarrow> get_entry bytes (unat index);
          (if is_skipped e then Some (Inr (sectorToParse, bytes, index + 1, requiredSize, written))
           else do {
             let (status, name, nameLength) = ConvertFatNameToName (DIR_Name e) 16;
             ASSERT (SUCCEEDED status);
             let requiredSize = requiredSize + (sizeof_FILE_DIRECTORY_INFORMATION + of_nat nameLength);
             written \<leftarrow> (if requiredSize \<le> Sz then do {
                 info \<leftarrow> FatPopulateFileInformationFromFatEntry alig e fi;
                 Some (append_information written \<lparr>NextEntryOffset = 0, BasicFileInformation = info,
                   Filename = take nameLength (the name @ [0])\<rparr>)
               }
               else Some written);
             Some (Inr (sectorToParse, bytes, index + 1, requiredSize, written))
           })
        })
   }"

partial_function (option) query_loop ::
    "device_reader \<Rightarrow> (QWORD \<Rightarrow> bool) \<Rightarrow> FAT_DATA \<Rightarrow> DWORD \<Rightarrow> BYTE \<Rightarrow> DWORD \<Rightarrow> FILE_INFORMATION \<Rightarrow> QWORD \<Rightarrow>
     BYTE list option \<Rightarrow> DWORD \<Rightarrow> DWORD \<Rightarrow> dir_information list \<Rightarrow> (STATUS \<times> DWORD \<times> dir_information list) option" where
  "query_loop rd pool FatData alig behind Sz fi sectorToParse pEntry index requiredSize written = do {
     r \<leftarrow> query_step rd pool FatData alig Sz fi sectorToParse pEntry index requiredSize written;
     (case r of Inl status \<Rightarrow> Some (status, requiredSize, written)
      | Inr (sectorToParse, bytes, index, requiredSize, written) \<Rightarrow>
          if FREE_ALL \<noteq> first_byte behind bytes index then
            query_loop rd pool FatData alig behind Sz fi sectorToParse (Some bytes) index requiredSize written
          else Some (STATUS_SUCCESS, requiredSize, written))
   }"

definition FatQueryDirectory ::
    "device_reader \<Rightarrow> (QWORD \<Rightarrow> bool) \<Rightarrow> FAT_DATA \<Rightarrow> DWORD \<Rightarrow> BYTE \<Rightarrow> QWORD \<Rightarrow> DWORD \<Rightarrow> PVOID \<Rightarrow> FILE_INFORMATION \<Rightarrow>
     (STATUS \<times> DWORD \<times> dir_information list) option" where
  "FatQueryDirectory rd pool FatData alig behind DirectorySector Sz DirectoryInformation fi = do {
     ASSERT (NULL \<noteq> DirectoryInformation \<or> 0 = Sz);
     query_loop rd pool FatData alig behind Sz fi DirectorySector None 0 0 []
   }"

section \<open>Creating an entry\<close>

type_synonym 'v reader = "'v \<Rightarrow> device_reader"
type_synonym 'v writer = "'v \<Rightarrow> BYTE list \<Rightarrow> QWORD \<Rightarrow> STATUS \<times> QWORD \<times> 'v"

partial_function (option) last_cluster ::
    "device_reader \<Rightarrow> (QWORD \<Rightarrow> bool) \<Rightarrow> FAT_DATA \<Rightarrow> QWORD \<Rightarrow> QWORD \<Rightarrow> (STATUS \<times> QWORD) option" where
  "last_cluster rd pool FatData currentClusterInChain tempCluster =
     (if FAT32_BAD_CLUSTER > tempCluster AND FAT32_CLUSTER_MASK then do {
        (status, found) \<leftarrow> NextClusterInChain rd pool FatData tempCluster;
        (case found of None \<Rightarrow> Some (status, tempCluster)
         | Some nxt \<Rightarrow> last_cluster rd pool FatData tempCluster nxt)
      }
      else Some (STATUS_SUCCESS, currentClusterInChain))"

text \<open>The first index at which an entry may be placed.\<close>

definition free_index :: "FAT_DATA \<Rightarrow> BYTE list \<Rightarrow> DWORD \<Rightarrow> nat option" where
  "free_index FatData buffer start = find (\<lambda>i. case byte_at buffer (i * sizeof_DIR_ENTRY) of
       Some b \<Rightarrow> b = FREE_ENTRY \<or> b = FREE_ALL \<or> b = FREE_JAP_ENTRY | None \<Rightarrow> False)
     [unat start ..< unat (entries_per_cluster FatData)]"

definition ZERO_ENTRY :: DIR_ENTRY where
  "ZERO_ENTRY = \<lparr>DIR_Name = replicate 11 0, DIR_Attr = 0, DIR_NTRes = 0, DIR_CrtTimeTenth = 0, DIR_CrtTime = 0,
     DIR_CrtDate = 0, DIR_LstAccDate = 0, DIR_FstClusHI = 0, DIR_WrtTime = 0, DIR_WrtDate = 0, DIR_FstClusLO = 0,
     DIR_FileSize = 0\<rparr>"

definition with_cluster :: "DWORD \<Rightarrow> DIR_ENTRY \<Rightarrow> DIR_ENTRY" where
  "with_cluster c e = e\<lparr>DIR_FstClusHI := ucast (drop_bit 16 c), DIR_FstClusLO := ucast c\<rparr>"

definition new_entry :: "BYTE list \<Rightarrow> DWORD \<Rightarrow> BYTE \<Rightarrow> WORD \<times> WORD \<Rightarrow> DIR_ENTRY" where
  "new_entry nm c attributes = (\<lambda>(d, t). with_cluster c (ZERO_ENTRY\<lparr>DIR_Name := nm, DIR_Attr := attributes,
     DIR_CrtDate := d, DIR_WrtDate := d, DIR_LstAccDate := d, DIR_CrtTime := t, DIR_WrtTime := t\<rparr>))"

definition is_directory :: "BYTE \<Rightarrow> bool" where
  "is_directory attributes \<longleftrightarrow> attributes AND (ATTR_DIRECTORY OR ATTR_VOLUME_ID) = ATTR_DIRECTORY"

text \<open>A write that must store all its bytes; \<open>k\<close> continues with the volume.\<close>

definition write_all ::
    "'v writer \<Rightarrow> BYTE list \<Rightarrow> QWORD \<Rightarrow> 'v \<Rightarrow> ('v \<Rightarrow> (STATUS \<times> 'v) option) \<Rightarrow> (STATUS \<times> 'v) option" where
  "write_all wr bytes offset v k =
     (let (status, n, v) = wr v bytes offset
      in if \<not> SUCCEEDED status then Some (status, v)
         else do { ASSERT (n = of_nat (length bytes)); k v })"

text \<open>A buffer of \<open>n\<close> bytes from the pool, filled from the volume.\<close>

definition read_all ::
    "'v reader \<Rightarrow> (QWORD \<Rightarrow> bool) \<Rightarrow> QWORD \<Rightarrow> QWORD \<Rightarrow> bool \<Rightarrow> 'v \<Rightarrow> (BYTE list \<Rightarrow> (STATUS \<times> 'v) option) \<Rightarrow>
     (STATUS \<times> 'v) option" where
  "read_all rd pool n offset asyn v k =
     (if \<not> pool n then Some (STATUS_HEAP_NO_MORE_MEMORY, v)
      else let (status, bytes) = rd v n offset asyn
           in if \<not> SUCCEEDED status then Some (status, v)
              else do { ASSERT (of_nat (length bytes) = n); k bytes })"

text \<open>The steps 10 to 12: the contents of the new cluster and its end-of-chain mark in the first FAT.\<close>

definition finish_create ::
    "'v reader \<Rightarrow> 'v writer \<Rightarrow> (QWORD \<Rightarrow> bool) \<Rightarrow> FAT_DATA \<Rightarrow> BYTE \<Rightarrow> WORD \<times> WORD \<Rightarrow> QWORD \<Rightarrow> DWORD \<Rightarrow> 'v \<Rightarrow>
     (STATUS \<times> 'v) option" where
  "finish_create rd wr pool FatData attributes fat_time parentSector newCluster v =
     (if \<not> pool (cluster_bytes FatData) then Some (STATUS_HEAP_NO_MORE_MEMORY, v)
      else do {
        let buffer = replicate (unat (cluster_bytes FatData)) 0;
        let dot = (\<lambda>nm c. new_entry nm c ATTR_DIRECTORY fat_time);
        let dots = (\<lambda>parentCluster.
          put_entry_at 1 (dot (0x2E # 0x2E # replicate 9 0x20) parentCluster)
            (put_entry_at 0 (dot (0x2E # replicate 10 0x20) newCluster) buffer));
        (status, buffer) \<leftarrow>
          (if \<not> is_directory attributes then Some (STATUS_SUCCESS, buffer)
           else if ucast (FirstDataSector FatData) = parentSector then Some (STATUS_SUCCESS, dots 0)
           else do {
             (status, c) \<leftarrow> ClusterOfSector FatData parentSector;
             Some (status, dots (ucast c))
           });
        (if \<not> SUCCEEDED status then Some (status, v)
         else case FirstSectorOfCluster FatData (ucast newCluster) of
           (status, None) \<Rightarrow> Some (status, v)
         | (status, Some sectorAllocated) \<Rightarrow>
             write_all wr buffer (sectorAllocated * ucast (BytesPerSector FatData)) v (\<lambda>v. do {
               q \<leftarrow> fault_div (ucast newCluster * 4 :: QWORD) (ucast (BytesPerSector FatData));
               fatEntryOffset \<leftarrow> fault_mod (ucast newCluster * 4 :: QWORD) (ucast (BytesPerSector FatData));
               let offset = (ucast (ReservedSectors FatData) + q) * ucast (BytesPerSector FatData);
               read_all rd pool (ucast (BytesPerSector FatData)) offset False v (\<lambda>fat. do {
                 entry \<leftarrow> dword_at fat (unat fatEntryOffset);
                 let entry = entry AND NOT 0x0FFFFFFF OR 0x0FFFFFFF;
                 write_all wr (put_bytes (unat fatEntryOffset) (le_bytes 4 entry) fat) offset v
                   (\<lambda>v. Some (STATUS_SUCCESS, v))
               })
             }))
      })"

text \<open>
  The name after the last delimiter goes into an array of 12 bytes and the path before it into one of
  260; longer ones write behind the array, which is \<open>None\<close>.
\<close>

definition FatCreateDirectoryEntry ::
    "'v reader \<Rightarrow> 'v writer \<Rightarrow> (QWORD \<Rightarrow> bool) \<Rightarrow> FAT_DATA \<Rightarrow> DWORD \<Rightarrow> BYTE \<Rightarrow> DATE \<times> TIME \<Rightarrow> BYTE list \<Rightarrow> BYTE \<Rightarrow> 'v \<Rightarrow>
     (STATUS \<times> 'v) option" where
  "FatCreateDirectoryEntry rd wr pool FatData alig behind now Name Attributes v =
     (let lastBackslashIndex = length Name - Suc (length (takeWhile (\<lambda>c. c \<noteq> FAT_DELIMITER) (rev Name)))
      in if FAT_DELIMITER \<notin> set Name \<or> lastBackslashIndex = 0 then Some (STATUS_PATH_NOT_VALID, v)
         else do {
           let newEntryName = drop (lastBackslashIndex + 1) Name;
           ASSERT (lastBackslashIndex < 260 \<and> length newEntryName < 12);
           let newEntryName = take 11 (newEntryName @ replicate 11 0x20);
           r \<leftarrow> FatSearch (rd v) pool FatData alig behind (take lastBackslashIndex Name) ATTR_DIRECTORY None;
           (if \<not> SUCCEEDED (SearchStatus r) then Some (SearchStatus r, v)
            else do {
              parentSector \<leftarrow> SearchResult r;
              r \<leftarrow> FatSearch (rd v) pool FatData alig behind Name 0 None;
              (if SUCCEEDED (SearchStatus r) \<or> STATUS_FILE_TYPE_INVALID = SearchStatus r then
                 Some (STATUS_FILE_ALREADY_EXISTS, v)
               else do {
                 (status, cluster) \<leftarrow> ClusterOfSector FatData parentSector;
                 (if \<not> SUCCEEDED status then Some (status, v)
                  else do {
                    (status, cluster) \<leftarrow> last_cluster (rd v) pool FatData cluster cluster;
                    (if \<not> SUCCEEDED status then Some (status, v)
                     else case FirstSectorOfCluster FatData cluster of
                       (status, None) \<Rightarrow> Some (status, v)
                     | (status, Some finalSector) \<Rightarrow>
                         let offset = finalSector * ucast (BytesPerSector FatData)
                         in read_all rd pool (cluster_bytes FatData) offset True v (\<lambda>buffer.
                           case free_index FatData buffer (if finalSector = ucast (FirstDataSector FatData) then 2 else 0) of
                             None \<Rightarrow> Some (STATUS_DISK_FULL, v)
                           | Some index \<Rightarrow>
                               read_all rd pool (ucast (BytesPerSector FatData)) (ucast (BytesPerSector FatData)) False v
                                 (\<lambda>fsinfo. do {
                                   freeCount \<leftarrow> dword_at fsinfo 488;
                                   nxtFree \<leftarrow> dword_at fsinfo 492;
                                   (if 0 = freeCount then Some (STATUS_DISK_FULL, v)
                                    else let fat_time = ConvertDateTimeToFatDateTime now;
                                             e = new_entry newEntryName nxtFree Attributes fat_time;
                                             fsinfo = put_bytes 488 (le_bytes 4 (freeCount - 1) @ le_bytes 4 (nxtFree + 1)) fsinfo
                                         in write_all wr fsinfo (ucast (BytesPerSector FatData)) v (\<lambda>v.
                                              write_all wr (put_entry_at index e buffer) offset v (\<lambda>v.
                                                finish_create rd wr pool FatData Attributes fat_time parentSector nxtFree v)))
                                 })))
                  })
               })
            })
         })"

end
