(* ===== verification/IoStack.thy ===== *)
theory IoStack
  imports Fat
begin

text \<open>
  Requests to devices: the I/O request packets and stacked devices of \<^verbatim>\<open>HAL9000/src/io_devices.c\<close>, and the
  drivers of volumes, disks and ATA controllers that pass a request down. A device is its record with
  the dispatch functions applied to it; the type \<open>'s\<close> is what the driver at the bottom works on. What
  a request points to (the buffer, the file object) is part of the request. A read of the wrong member
  of the parameter union or behind the stack locations is \<open>None\<close>.
\<close>

section \<open>Requests\<close>

definition STATUS_DEVICE_NOT_INITIALIZED :: STATUS where "STATUS_DEVICE_NOT_INITIALIZED = 0x80010004"
definition STATUS_DEVICE_SECTOR_OFFSET_EXCEEDED :: STATUS where "STATUS_DEVICE_SECTOR_OFFSET_EXCEEDED = 0x80010005"
definition STATUS_DEVICE_SECTOR_COUNT_EXCEEDED :: STATUS where "STATUS_DEVICE_SECTOR_COUNT_EXCEEDED = 0x80010006"
definition STATUS_DEVICE_INVALID_OPERATION :: STATUS where "STATUS_DEVICE_INVALID_OPERATION = 0x80010009"
definition STATUS_DEVICE_DATA_ALIGNMENT_ERROR :: STATUS where "STATUS_DEVICE_DATA_ALIGNMENT_ERROR = 0x8001000A"
definition STATUS_DEVICE_ALIGNMENT_NO_SATISFIED :: STATUS where "STATUS_DEVICE_ALIGNMENT_NO_SATISFIED = 0x8001000E"

abbreviation IRP_MJ_CREATE :: BYTE where "IRP_MJ_CREATE \<equiv> 0"
abbreviation IRP_MJ_CLOSE :: BYTE where "IRP_MJ_CLOSE \<equiv> 1"
abbreviation IRP_MJ_READ :: BYTE where "IRP_MJ_READ \<equiv> 2"
abbreviation IRP_MJ_WRITE :: BYTE where "IRP_MJ_WRITE \<equiv> 3"
abbreviation IRP_MJ_QUERY_INFORMATION :: BYTE where "IRP_MJ_QUERY_INFORMATION \<equiv> 4"
abbreviation IRP_MJ_DIRECTORY_CONTROL :: BYTE where "IRP_MJ_DIRECTORY_CONTROL \<equiv> 5"
abbreviation IRP_MJ_DEVICE_CONTROL :: BYTE where "IRP_MJ_DEVICE_CONTROL \<equiv> 6"
abbreviation SECTOR_SIZE :: QWORD where "SECTOR_SIZE \<equiv> 512"

record PARTITION_INFORMATION =
  OffsetInDisk :: QWORD
  PartitionSize :: QWORD
  PartitionType :: BYTE
  Bootable :: bool

text \<open>A file control block is what the file system keeps for an open file.\<close>

record FCB =
  FileOffsetInVolume :: QWORD
  ParentOffsetInVolume :: QWORD
  FileInformation :: FILE_INFORMATION

record FILE_OBJECT =
  AsynchronousFile :: bool
  CreateFile :: bool
  DirectoryFile :: bool
  FsContext2 :: "FCB option"
  FileName :: "BYTE list"
  RelatedFileObject :: PVOID
  CurrentByteOffset :: QWORD
  RealFileSize :: QWORD

text \<open>What a buffer holds, by the structure that lies in it.\<close>

datatype io_buffer =
    NoBuffer
  | Bytes "BYTE list"
  | Partition PARTITION_INFORMATION
  | Layout "PARTITION_INFORMATION list"
  | LengthInfo QWORD
  | Information FILE_INFORMATION
  | Directory "dir_information list"

text \<open>
  \<open>ReadWrite\<close> has the length and the offset, \<open>DeviceControl\<close> the code, the lengths of the two buffers
  and the output buffer.
\<close>

datatype PARAMETERS =
    ReadWrite QWORD QWORD
  | DeviceControl DWORD DWORD DWORD io_buffer
  | QueryFile DWORD
  | QueryDirectory DWORD DWORD

record IO_STACK_LOCATION =
  MajorFunction :: BYTE
  MinorFunction :: BYTE
  Parameters :: PARAMETERS
  FileObject :: "FILE_OBJECT option"

record IRP =
  IoBuffer :: io_buffer
  IoStatus :: STATUS
  IoInformation :: QWORD
  Completed :: bool
  Asynchronous :: bool
  CurrentStackLocation :: BYTE
  StackLocations :: "IO_STACK_LOCATION list"

type_synonym 's dispatch = "IRP \<Rightarrow> 's \<Rightarrow> (STATUS \<times> IRP \<times> 's) option"

datatype DEVICE_TYPE = DeviceTypeSystem | DeviceTypeHarddiskController | DeviceTypeDisk | DeviceTypeVolume
  | DeviceTypeFilesystem | DeviceTypePhysicalNetcard

text \<open>
  Of the parameter block of a volume its place in the list of all of them is known, of the attached
  device that there is one; the extension is in the dispatch functions.
\<close>

record 's DEVICE_OBJECT =
  DeviceType :: DEVICE_TYPE
  StackSize :: BYTE
  DeviceAlignment :: DWORD
  Vpb :: "nat option"
  Attached :: bool
  DispatchFunctions :: "BYTE \<Rightarrow> 's dispatch option"

definition read_write :: "IO_STACK_LOCATION \<Rightarrow> (QWORD \<times> QWORD) option" where
  "read_write location = (case Parameters location of ReadWrite n offset \<Rightarrow> Some (n, offset) | _ \<Rightarrow> None)"

definition ZERO_LOCATION :: IO_STACK_LOCATION where
  "ZERO_LOCATION = \<lparr>MajorFunction = 0, MinorFunction = 0, Parameters = ReadWrite 0 0, FileObject = None\<rparr>"

definition stack_location :: "IRP \<Rightarrow> nat \<Rightarrow> IO_STACK_LOCATION option" where
  "stack_location Irp i = (if i < length (StackLocations Irp) then Some (StackLocations Irp ! i) else None)"

definition set_location :: "nat \<Rightarrow> IO_STACK_LOCATION \<Rightarrow> IRP \<Rightarrow> IRP option" where
  "set_location i location Irp =
     (if i < length (StackLocations Irp) then Some (Irp\<lparr>StackLocations := (StackLocations Irp)[i := location]\<rparr>) else None)"

text \<open>\<open>pool n\<close> says whether the pool has \<open>n\<close> bytes; without them the result is the null pointer, \<open>Some None\<close>.\<close>

definition IoAllocateIrp :: "(DWORD \<Rightarrow> bool) \<Rightarrow> BYTE \<Rightarrow> IRP option option" where
  "IoAllocateIrp pool StackSz = do {
     ASSERT (StackSz > 0);
     let irpSize = 40 + ucast StackSz * 48;
     Some (if pool irpSize then
       Some \<lparr>IoBuffer = NoBuffer, IoStatus = 0, IoInformation = 0, Completed = False, Asynchronous = False,
             CurrentStackLocation = StackSz, StackLocations = replicate (unat StackSz) ZERO_LOCATION\<rparr>
       else None)
   }"

definition IoGetCurrentIrpStackLocation :: "IRP \<Rightarrow> IO_STACK_LOCATION option" where
  "IoGetCurrentIrpStackLocation Irp = do {
     ASSERT (MAX_BYTE \<noteq> CurrentStackLocation Irp);
     stack_location Irp (unat (CurrentStackLocation Irp))
   }"

definition IoGetNextIrpStackLocation :: "IRP \<Rightarrow> IO_STACK_LOCATION option" where
  "IoGetNextIrpStackLocation Irp = do {
     ASSERT (0 \<noteq> CurrentStackLocation Irp);
     stack_location Irp (unat (CurrentStackLocation Irp - 1))
   }"

text \<open>An assignment through the pointer to the next stack location.\<close>

definition update_next :: "(IO_STACK_LOCATION \<Rightarrow> IO_STACK_LOCATION) \<Rightarrow> IRP \<Rightarrow> IRP option" where
  "update_next f Irp = do {
     location \<leftarrow> IoGetNextIrpStackLocation Irp;
     set_location (unat (CurrentStackLocation Irp - 1)) (f location) Irp
   }"

definition update_current :: "(IO_STACK_LOCATION \<Rightarrow> IO_STACK_LOCATION) \<Rightarrow> IRP \<Rightarrow> IRP option" where
  "update_current f Irp = do {
     location \<leftarrow> IoGetCurrentIrpStackLocation Irp;
     set_location (unat (CurrentStackLocation Irp)) (f location) Irp
   }"

definition IoCopyCurrentStackLocationToNext :: "IRP \<Rightarrow> IRP option" where
  "IoCopyCurrentStackLocationToNext Irp = do {
     ASSERT (0 \<noteq> CurrentStackLocation Irp);
     location \<leftarrow> stack_location Irp (unat (CurrentStackLocation Irp));
     set_location (unat (CurrentStackLocation Irp - 1)) location Irp
   }"

definition IoCompleteIrp :: "IRP \<Rightarrow> IRP option" where
  "IoCompleteIrp Irp = do { ASSERT (\<not> Completed Irp); Some (Irp\<lparr>Completed := True\<rparr>) }"

text \<open>
  The alignment is checked for reads; for writes the condition compares the minor function instead of
  the major one.
\<close>

definition IoCallDriver :: "'s DEVICE_OBJECT \<Rightarrow> 's dispatch" where
  "IoCallDriver Device Irp s = do {
     ASSERT (0 \<noteq> CurrentStackLocation Irp);
     let Irp = Irp\<lparr>CurrentStackLocation := CurrentStackLocation Irp - 1\<rparr>;
     location \<leftarrow> IoGetCurrentIrpStackLocation Irp;
     refused \<leftarrow> (if IRP_MJ_READ = MajorFunction location \<or> IRP_MJ_WRITE = MinorFunction location then do {
         (n, offset) \<leftarrow> read_write location;
         Some (\<not> IsAddressAligned n (ucast (DeviceAlignment Device)) \<or>
               \<not> IsAddressAligned offset (ucast (DeviceAlignment Device)))
       } else Some False);
     (if refused then Some (STATUS_DEVICE_ALIGNMENT_NO_SATISFIED, Irp, s)
      else case DispatchFunctions Device (MajorFunction location) of
        None \<Rightarrow> Some (STATUS_DEVICE_INVALID_OPERATION, Irp, s)
      | Some dispatch \<Rightarrow> do {
          (status, Irp, s) \<leftarrow> dispatch Irp s;
          Some (if \<not> SUCCEEDED status then status else STATUS_SUCCESS, Irp, s)
        })
   }"

text \<open>The result is the status, the length read or written, the buffer and the state.\<close>

definition IoReadWriteDevice ::
    "(DWORD \<Rightarrow> bool) \<Rightarrow> 's DEVICE_OBJECT \<Rightarrow> io_buffer \<Rightarrow> QWORD \<Rightarrow> QWORD \<Rightarrow> bool \<Rightarrow> bool \<Rightarrow> 's \<Rightarrow>
     (STATUS \<times> QWORD \<times> io_buffer \<times> 's) option" where
  "IoReadWriteDevice pool DeviceObject Buf n Offset Write Asyn s = do {
     ASSERT (Buf \<noteq> NoBuffer);
     irp \<leftarrow> IoAllocateIrp pool (StackSize DeviceObject);
     ASSERT (irp \<noteq> None);
     irp \<leftarrow> irp;
     irp \<leftarrow> update_next (\<lambda>l. l\<lparr>MajorFunction := if Write then IRP_MJ_WRITE else IRP_MJ_READ,
                               Parameters := ReadWrite n Offset\<rparr>)
              (irp\<lparr>IoBuffer := Buf, Asynchronous := Asyn\<rparr>);
     (status, irp, s) \<leftarrow> IoCallDriver DeviceObject irp s;
     Some (if \<not> SUCCEEDED status then (status, n, IoBuffer irp, s)
           else (IoStatus irp, IoInformation irp, IoBuffer irp, s))
   }"

definition IoReadDeviceEx ::
    "(DWORD \<Rightarrow> bool) \<Rightarrow> 's DEVICE_OBJECT \<Rightarrow> io_buffer \<Rightarrow> QWORD \<Rightarrow> QWORD \<Rightarrow> bool \<Rightarrow> 's \<Rightarrow>
     (STATUS \<times> QWORD \<times> io_buffer \<times> 's) option" where
  "IoReadDeviceEx pool DeviceObject Buf n Offset Asyn s = IoReadWriteDevice pool DeviceObject Buf n Offset False Asyn s"

definition IoWriteDeviceEx ::
    "(DWORD \<Rightarrow> bool) \<Rightarrow> 's DEVICE_OBJECT \<Rightarrow> io_buffer \<Rightarrow> QWORD \<Rightarrow> QWORD \<Rightarrow> bool \<Rightarrow> 's \<Rightarrow>
     (STATUS \<times> QWORD \<times> io_buffer \<times> 's) option" where
  "IoWriteDeviceEx pool DeviceObject Buf n Offset Asyn s = IoReadWriteDevice pool DeviceObject Buf n Offset True Asyn s"

definition IoBuildDeviceIoControlRequest ::
    "(DWORD \<Rightarrow> bool) \<Rightarrow> DWORD \<Rightarrow> 's DEVICE_OBJECT \<Rightarrow> io_buffer \<Rightarrow> DWORD \<Rightarrow> io_buffer \<Rightarrow> DWORD \<Rightarrow> IRP option option" where
  "IoBuildDeviceIoControlRequest pool IoControlCode DeviceObject InputBuffer InputBufferLength OutputBuffer OutputBufferLength = do {
     irp \<leftarrow> IoAllocateIrp pool (StackSize DeviceObject);
     (case irp of None \<Rightarrow> Some None
      | Some irp \<Rightarrow> map_option Some
          (update_next (\<lambda>l. l\<lparr>MajorFunction := IRP_MJ_DEVICE_CONTROL,
                             Parameters := DeviceControl IoControlCode InputBufferLength OutputBufferLength OutputBuffer\<rparr>)
            (irp\<lparr>IoBuffer := InputBuffer\<rparr>)))
   }"

text \<open>A device that is attached to another one has one stack location more.\<close>

definition IoAttachDevice :: "'s DEVICE_OBJECT \<Rightarrow> 's DEVICE_OBJECT \<Rightarrow> 's DEVICE_OBJECT option" where
  "IoAttachDevice SourceDevice TargetDevice = do {
     ASSERT (\<not> Attached SourceDevice);
     Some (SourceDevice\<lparr>Attached := True, StackSize := StackSize TargetDevice + 1\<rparr>)
   }"

text \<open>The output buffer of a device control request, and what it holds after a copy into it.\<close>

definition control_parameters :: "IO_STACK_LOCATION \<Rightarrow> (DWORD \<times> DWORD) option" where
  "control_parameters location = (case Parameters location of DeviceControl code il ol out \<Rightarrow> Some (code, ol) | _ \<Rightarrow> None)"

definition output_buffer :: "IO_STACK_LOCATION \<Rightarrow> io_buffer" where
  "output_buffer location = (case Parameters location of DeviceControl code il ol out \<Rightarrow> out | _ \<Rightarrow> NoBuffer)"

definition copy_output :: "io_buffer \<Rightarrow> IRP \<Rightarrow> IRP option" where
  "copy_output data Irp = do {
     location \<leftarrow> IoGetCurrentIrpStackLocation Irp;
     ASSERT (output_buffer location \<noteq> NoBuffer);
     update_current (\<lambda>l. case Parameters l of
         DeviceControl code il ol out \<Rightarrow> l\<lparr>Parameters := DeviceControl code il ol data\<rparr> | _ \<Rightarrow> l) Irp
   }"

section \<open>Volumes\<close>

definition VolCheckIOParameters :: "PARTITION_INFORMATION \<Rightarrow> QWORD \<Rightarrow> QWORD \<Rightarrow> STATUS" where
  "VolCheckIOParameters Volume SectorIndex SectorCount =
     (if SectorIndex \<ge> PartitionSize Volume then STATUS_DEVICE_SECTOR_OFFSET_EXCEEDED
      else if PartitionSize Volume - SectorIndex < SectorCount then STATUS_DEVICE_SECTOR_COUNT_EXCEEDED
      else STATUS_SUCCESS)"

text \<open>How the handlers end a request: they set its status, complete it and return success.\<close>

definition finish_irp :: "STATUS \<Rightarrow> IRP \<Rightarrow> 's \<Rightarrow> (STATUS \<times> IRP \<times> 's) option" where
  "finish_irp status Irp s = do {
     Irp \<leftarrow> IoCompleteIrp (Irp\<lparr>IoStatus := status\<rparr>);
     Some (STATUS_SUCCESS, Irp, s)
   }"

definition VolDispatchReadWrite :: "'s DEVICE_OBJECT \<Rightarrow> PARTITION_INFORMATION \<Rightarrow> 's dispatch" where
  "VolDispatchReadWrite DiskDevice Volume Irp s = do {
     location \<leftarrow> IoGetCurrentIrpStackLocation Irp;
     ASSERT (IRP_MJ_READ = MajorFunction location \<or> IRP_MJ_WRITE = MajorFunction location);
     (n, offset) \<leftarrow> read_write location;
     let lengthInSectors = n div SECTOR_SIZE;
     let offsetInSectors = offset div SECTOR_SIZE;
     let status = VolCheckIOParameters Volume offsetInSectors lengthInSectors;
     (if \<not> SUCCEEDED status then finish_irp status Irp s
      else do {
        Irp \<leftarrow> IoCopyCurrentStackLocationToNext Irp;
        Irp \<leftarrow> update_next (\<lambda>l. l\<lparr>Parameters := ReadWrite n ((offsetInSectors + OffsetInDisk Volume) * SECTOR_SIZE)\<rparr>) Irp;
        (status, Irp, s) \<leftarrow> IoCallDriver DiskDevice Irp s;
        (if \<not> SUCCEEDED status then finish_irp status Irp s else Some (STATUS_SUCCESS, Irp, s))
      })
   }"

abbreviation IOCTL_VOLUME_PARTITION_INFO :: DWORD where "IOCTL_VOLUME_PARTITION_INFO \<equiv> 2"

definition VolDispatchDeviceControl :: "PARTITION_INFORMATION \<Rightarrow> 's dispatch" where
  "VolDispatchDeviceControl Volume Irp s = do {
     location \<leftarrow> IoGetCurrentIrpStackLocation Irp;
     ASSERT (IRP_MJ_DEVICE_CONTROL = MajorFunction location);
     (code, outputLength) \<leftarrow> control_parameters location;
     (status, information, Irp) \<leftarrow> (
       if code = IOCTL_VOLUME_PARTITION_INFO then
         if outputLength < 24 then Some (STATUS_BUFFER_TOO_SMALL, 24, Irp)
         else do { Irp \<leftarrow> copy_output (Partition Volume) Irp; Some (STATUS_SUCCESS, 24, Irp) }
       else Some (STATUS_UNSUPPORTED, 0, Irp));
     Irp \<leftarrow> IoCompleteIrp Irp;
     Some (STATUS_SUCCESS, Irp\<lparr>IoStatus := status, IoInformation := information\<rparr>, s)
   }"

text \<open>A device as the drivers make it: over another one it is attached to that.\<close>

definition device_over :: "DEVICE_TYPE \<Rightarrow> nat option \<Rightarrow> (BYTE \<Rightarrow> 's dispatch option) \<Rightarrow> 's DEVICE_OBJECT \<Rightarrow> 's DEVICE_OBJECT" where
  "device_over type vpb dispatch Target = \<lparr>DeviceType = type, StackSize = StackSize Target + 1,
     DeviceAlignment = DeviceAlignment Target, Vpb = vpb, Attached = True, DispatchFunctions = dispatch\<rparr>"

definition VolDispatch :: "'s DEVICE_OBJECT \<Rightarrow> PARTITION_INFORMATION \<Rightarrow> BYTE \<Rightarrow> 's dispatch option" where
  "VolDispatch Disk Volume mj =
     (if mj = IRP_MJ_READ \<or> mj = IRP_MJ_WRITE then Some (VolDispatchReadWrite Disk Volume)
      else if mj = IRP_MJ_DEVICE_CONTROL then Some (VolDispatchDeviceControl Volume) else None)"

definition volume_device :: "'s DEVICE_OBJECT \<Rightarrow> PARTITION_INFORMATION \<Rightarrow> nat \<Rightarrow> 's DEVICE_OBJECT" where
  "volume_device Disk Volume vpb = device_over DeviceTypeVolume (Some vpb) (VolDispatch Disk Volume) Disk"

section \<open>Disks\<close>

definition DiskDispatchReadWrite :: "'s DEVICE_OBJECT \<Rightarrow> 's dispatch" where
  "DiskDispatchReadWrite DiskDeviceController Irp s = do {
     Irp \<leftarrow> IoCopyCurrentStackLocationToNext Irp;
     IoCallDriver DiskDeviceController Irp s
   }"

abbreviation IOCTL_DISK_GET_LENGTH_INFO :: DWORD where "IOCTL_DISK_GET_LENGTH_INFO \<equiv> 0"
abbreviation IOCTL_DISK_LAYOUT_INFO :: DWORD where "IOCTL_DISK_LAYOUT_INFO \<equiv> 1"

definition DiskDispatchDeviceControl :: "PARTITION_INFORMATION list option \<Rightarrow> 's dispatch" where
  "DiskDispatchDeviceControl DiskLayout Irp s = do {
     location \<leftarrow> IoGetCurrentIrpStackLocation Irp;
     ASSERT (IRP_MJ_DEVICE_CONTROL = MajorFunction location);
     layout \<leftarrow> DiskLayout;
     let information = (8 + of_nat (length layout) * 24 :: DWORD);
     (code, outputLength) \<leftarrow> control_parameters location;
     (status, Irp) \<leftarrow> (
       if code = IOCTL_DISK_LAYOUT_INFO then
         if outputLength < information then Some (STATUS_BUFFER_TOO_SMALL, Irp)
         else do { Irp \<leftarrow> copy_output (Layout layout) Irp; Some (STATUS_SUCCESS, Irp) }
       else Some (STATUS_UNSUPPORTED, Irp));
     Some (STATUS_SUCCESS, Irp\<lparr>IoStatus := status, IoInformation := ucast information\<rparr>, s)
   }"

definition DiskDispatch :: "'s DEVICE_OBJECT \<Rightarrow> PARTITION_INFORMATION list option \<Rightarrow> BYTE \<Rightarrow> 's dispatch option" where
  "DiskDispatch Controller DiskLayout mj =
     (if mj = IRP_MJ_READ \<or> mj = IRP_MJ_WRITE then Some (DiskDispatchReadWrite Controller)
      else if mj = IRP_MJ_DEVICE_CONTROL then Some (DiskDispatchDeviceControl DiskLayout) else None)"

text \<open>The layout is missing until the partition tables have been read.\<close>

definition disk_device :: "'s DEVICE_OBJECT \<Rightarrow> PARTITION_INFORMATION list option \<Rightarrow> 's DEVICE_OBJECT" where
  "disk_device Controller DiskLayout = device_over DeviceTypeDisk None (DiskDispatch Controller DiskLayout) Controller"

text \<open>The result is the status, the buffer, the number of sectors if one was stored, and the state.\<close>

definition DiskRead ::
    "(DWORD \<Rightarrow> bool) \<Rightarrow> 's DEVICE_OBJECT \<Rightarrow> QWORD \<Rightarrow> WORD \<Rightarrow> io_buffer \<Rightarrow> bool \<Rightarrow> 's \<Rightarrow>
     (STATUS \<times> io_buffer \<times> WORD option \<times> 's) option" where
  "DiskRead pool DiskDevice SectorIndex SectorCount Buf Asyn s =
     (if SectorIndex \<ge> MAX_QWORD div SECTOR_SIZE then Some (STATUS_DEVICE_SECTOR_OFFSET_EXCEEDED, Buf, None, s)
      else do {
        irp \<leftarrow> IoAllocateIrp pool (StackSize DiskDevice);
        ASSERT (irp \<noteq> None);
        irp \<leftarrow> irp;
        irp \<leftarrow> update_next (\<lambda>l. l\<lparr>MajorFunction := IRP_MJ_READ,
                 Parameters := ReadWrite (ucast SectorCount * SECTOR_SIZE) (SectorIndex * SECTOR_SIZE)\<rparr>)
               (irp\<lparr>IoBuffer := Buf, Asynchronous := Asyn\<rparr>);
        (status, irp, s) \<leftarrow> IoCallDriver DiskDevice irp s;
        Some (if \<not> SUCCEEDED status then (status, IoBuffer irp, None, s)
              else (IoStatus irp, IoBuffer irp, Some (ucast (IoInformation irp div SECTOR_SIZE)), s))
      })"

section \<open>Partition tables\<close>

abbreviation MBR_BOOT_SIGNATURE :: WORD where "MBR_BOOT_SIGNATURE \<equiv> 0xAA55"
abbreviation MBR_STATUS_ACTIVE :: BYTE where "MBR_STATUS_ACTIVE \<equiv> 0x80"
abbreviation MBR_STATUS_INACTIVE :: BYTE where "MBR_STATUS_INACTIVE \<equiv> 0"
abbreviation MBR_PARTITION_EXTENDED_CHS :: BYTE where "MBR_PARTITION_EXTENDED_CHS \<equiv> 0x5"
abbreviation MBR_PARTITION_EXTENDED_LBA :: BYTE where "MBR_PARTITION_EXTENDED_LBA \<equiv> 0xF"

record MBR_PARTITION_ENTRY =
  EntryStatus :: BYTE
  EntryType :: BYTE
  FirstSectorLBA :: DWORD
  NumberOfSectors :: DWORD

definition mbr_entry :: "BYTE list \<Rightarrow> nat \<Rightarrow> MBR_PARTITION_ENTRY option" where
  "mbr_entry mbr i = (let e = 446 + i * 16 in do {
     status \<leftarrow> byte_at mbr e;
     type \<leftarrow> byte_at mbr (e + 4);
     first \<leftarrow> dword_at mbr (e + 8);
     sectors \<leftarrow> dword_at mbr (e + 12);
     Some \<lparr>EntryStatus = status, EntryType = type, FirstSectorLBA = first, NumberOfSectors = sectors\<rparr>
   })"

definition is_extended :: "MBR_PARTITION_ENTRY \<Rightarrow> bool" where
  "is_extended e \<longleftrightarrow> MBR_PARTITION_EXTENDED_LBA = EntryType e \<or> MBR_PARTITION_EXTENDED_CHS = EntryType e"

definition partition_of :: "DWORD \<Rightarrow> MBR_PARTITION_ENTRY \<Rightarrow> PARTITION_INFORMATION" where
  "partition_of DiskOffset e = \<lparr>OffsetInDisk = ucast (FirstSectorLBA e + DiskOffset), PartitionSize = ucast (NumberOfSectors e),
     PartitionType = EntryType e, Bootable = (MBR_STATUS_ACTIVE = EntryStatus e)\<rparr>"

text \<open>
  The loop over the entries of a sector: \<open>Inl\<close> is the end of the iteration, early at an empty entry,
  \<open>Inr e\<close> an extended entry, behind which nothing is looked at. The second result is the number of partitions found so far, the
  third their descriptions if they are stored.
\<close>

fun scan_entries ::
    "BYTE list \<Rightarrow> DWORD \<Rightarrow> bool \<Rightarrow> nat list \<Rightarrow> DWORD \<Rightarrow> PARTITION_INFORMATION list option \<Rightarrow>
     ((bool + MBR_PARTITION_ENTRY) \<times> DWORD \<times> PARTITION_INFORMATION list option) option" where
  "scan_entries mbr DiskOffset ExtendedPartition [] count layout = Some (Inl False, count, layout)"
| "scan_entries mbr DiskOffset ExtendedPartition (i # is) count layout =
     (if ExtendedPartition \<and> take 16 (drop (446 + i * 16) mbr) = replicate 16 0 then Some (Inl True, count, layout)
      else do {
        e \<leftarrow> mbr_entry mbr i;
        (if MBR_STATUS_ACTIVE \<noteq> EntryStatus e \<and> MBR_STATUS_INACTIVE \<noteq> EntryStatus e then
           scan_entries mbr DiskOffset ExtendedPartition is count layout
         else if is_extended e then Some (Inr e, count, layout)
         else scan_entries mbr DiskOffset ExtendedPartition is (count + 1)
                (map_option (\<lambda>ps. ps @ [partition_of DiskOffset e]) layout))
      })"

text \<open>
  Every call of the recursion keeps its buffer for a boot record until the calls inside it have returned.
  Therefore what the pool can give depends on their number: \<open>pool held n\<close> says whether it has \<open>n\<close> bytes while
  \<open>held\<close> such buffers are in use. The stack of the kernel is not modelled.
\<close>

partial_function (option) DiskRetrievePartitionsFromDiskStartingAtOffset ::
    "(nat \<Rightarrow> DWORD \<Rightarrow> bool) \<Rightarrow> nat \<Rightarrow> 's DEVICE_OBJECT \<Rightarrow> DWORD \<Rightarrow> bool \<Rightarrow> DWORD \<Rightarrow> DWORD \<Rightarrow> PARTITION_INFORMATION list option \<Rightarrow> 's \<Rightarrow>
     (STATUS \<times> DWORD \<times> PARTITION_INFORMATION list option \<times> 's) option" where
  "DiskRetrievePartitionsFromDiskStartingAtOffset pool held DiskDevice DiskOffset ExtendedPartition FirstExtendedPartitionLBA
       count layout s = do {
     ASSERT (ExtendedPartition \<noteq> (0 = FirstExtendedPartitionLBA));
     (if \<not> pool held 512 then Some (STATUS_HEAP_INSUFFICIENT_RESOURCES, count, layout, s)
      else do {
        (status, buf, sectorsRead, s) \<leftarrow> DiskRead (pool (Suc held)) DiskDevice (ucast DiskOffset) 1 (Bytes (replicate 512 0)) False s;
        (if \<not> SUCCEEDED status then Some (status, count, layout, s)
         else do {
           ASSERT (sectorsRead = Some 1);
           mbr \<leftarrow> (case buf of Bytes bs \<Rightarrow> Some bs | _ \<Rightarrow> None);
           signature \<leftarrow> word_at mbr 510;
           (if MBR_BOOT_SIGNATURE \<noteq> signature then Some (STATUS_DISK_MBR_NOT_PRESENT, count, layout, s)
            else do {
              (result, count, layout) \<leftarrow>
                scan_entries mbr DiskOffset ExtendedPartition [0..<(if ExtendedPartition then 2 else 4)] count layout;
              (case result of
                 Inl early \<Rightarrow> Some (if early then STATUS_SUCCESS else status, count, layout, s)
               | Inr e \<Rightarrow> DiskRetrievePartitionsFromDiskStartingAtOffset pool (Suc held) DiskDevice
                   (FirstSectorLBA e + FirstExtendedPartitionLBA) True
                   (if ExtendedPartition then FirstExtendedPartitionLBA else FirstSectorLBA e) count layout s)
            })
         })
      })
   }"

text \<open>
  The partitions are counted, memory for so many is allocated, and they are described in a second pass.
  When that one finds more, it writes behind the allocation, which is \<open>None\<close>.
\<close>

definition DiskRetrievePartitionsFromDisk ::
    "(nat \<Rightarrow> DWORD \<Rightarrow> bool) \<Rightarrow> 's DEVICE_OBJECT \<Rightarrow> 's \<Rightarrow> (STATUS \<times> PARTITION_INFORMATION list option \<times> 's) option" where
  "DiskRetrievePartitionsFromDisk pool DiskDevice s = do {
     (status, partitionCount, layout, s) \<leftarrow> DiskRetrievePartitionsFromDiskStartingAtOffset pool 0 DiskDevice 0 False 0 0 None s;
     (if \<not> SUCCEEDED status then Some (status, None, s)
      else let structureSize = 8 + partitionCount * 24
           in if \<not> pool 0 structureSize then Some (STATUS_HEAP_NO_MORE_MEMORY, None, s)
              else do {
                (status, count, layout, s) \<leftarrow> DiskRetrievePartitionsFromDiskStartingAtOffset pool 0 DiskDevice 0 False 0 0 (Some []) s;
                ASSERT (length (the layout) \<le> unat partitionCount);
                Some (if \<not> SUCCEEDED status then (status, None, s) else (status, layout, s))
              })
   }"

section \<open>The ATA controller\<close>

text \<open>
  The transfer of sectors is the protocol with the hardware: \<open>transfer\<close> gets the sector, the count, the
  buffer and whether it is asynchronous and writes, and gives a status, the sectors done and the buffer.
\<close>

record 'h ATA_DEVICE =
  Initialized :: bool
  TotalSectors :: QWORD
  TransferFree :: bool
  Hardware :: 'h

type_synonym 'h transfer = "QWORD \<Rightarrow> WORD \<Rightarrow> io_buffer \<Rightarrow> bool \<Rightarrow> bool \<Rightarrow> 'h \<Rightarrow> STATUS \<times> WORD \<times> io_buffer \<times> 'h"

definition AtaCheckAlignment :: "QWORD \<Rightarrow> QWORD \<Rightarrow> STATUS" where
  "AtaCheckAlignment Sz Offset =
     (if \<not> IsAddressAligned Sz SECTOR_SIZE then STATUS_DEVICE_DATA_ALIGNMENT_ERROR
      else if \<not> IsAddressAligned Offset SECTOR_SIZE then STATUS_DEVICE_DATA_ALIGNMENT_ERROR
      else STATUS_SUCCESS)"

abbreviation LBA48_MAX_VALUE :: QWORD where "LBA48_MAX_VALUE \<equiv> 0xFFFFFFFFFFFF"

definition AtaCheckIOParameters :: "'h ATA_DEVICE \<Rightarrow> QWORD \<Rightarrow> WORD \<Rightarrow> STATUS" where
  "AtaCheckIOParameters Device SectorIndex SectorCount =
     (if \<not> Initialized Device then STATUS_DEVICE_NOT_INITIALIZED
      else if SectorIndex \<ge> TotalSectors Device then STATUS_DEVICE_SECTOR_OFFSET_EXCEEDED
      else if SectorIndex \<ge> LBA48_MAX_VALUE then STATUS_DEVICE_SECTOR_OFFSET_EXCEEDED
      else if TotalSectors Device - SectorIndex < ucast SectorCount then STATUS_DEVICE_SECTOR_COUNT_EXCEEDED
      else STATUS_SUCCESS)"

definition AtaDispatchReadWrite :: "'h transfer \<Rightarrow> 'h ATA_DEVICE dispatch" where
  "AtaDispatchReadWrite transfer Irp s = do {
     location \<leftarrow> IoGetCurrentIrpStackLocation Irp;
     ASSERT (IRP_MJ_READ = MajorFunction location \<or> IRP_MJ_WRITE = MajorFunction location);
     (sizeInBytes, offset) \<leftarrow> read_write location;
     let sectorIndex = offset div SECTOR_SIZE;
     let sectorCount = sizeInBytes div SECTOR_SIZE;
     let refused = (if \<not> SUCCEEDED (AtaCheckAlignment sizeInBytes offset) then AtaCheckAlignment sizeInBytes offset
       else if sectorCount > ucast MAX_WORD then STATUS_DEVICE_SECTOR_COUNT_EXCEEDED
       else AtaCheckIOParameters s sectorIndex (ucast sectorCount));
     (if \<not> SUCCEEDED refused then finish_irp refused (Irp\<lparr>IoInformation := 0\<rparr>) s
      else do {
        ASSERT (TransferFree s);
        let (status, sectorsRead, buf, h) =
          transfer sectorIndex (ucast sectorCount) (IoBuffer Irp) (Asynchronous Irp) (IRP_MJ_WRITE = MajorFunction location) (Hardware s);
        finish_irp status (Irp\<lparr>IoInformation := ucast sectorsRead * SECTOR_SIZE, IoBuffer := buf\<rparr>) (s\<lparr>Hardware := h\<rparr>)
      })
   }"

definition AtaDispatchDeviceControl :: "'h ATA_DEVICE dispatch" where
  "AtaDispatchDeviceControl Irp s = do {
     location \<leftarrow> IoGetCurrentIrpStackLocation Irp;
     ASSERT (IRP_MJ_DEVICE_CONTROL = MajorFunction location);
     (code, outputLength) \<leftarrow> control_parameters location;
     (status, information, Irp) \<leftarrow> (
       if code = IOCTL_DISK_GET_LENGTH_INFO then
         if outputLength < 8 then Some (STATUS_BUFFER_TOO_SMALL, 8, Irp)
         else do { Irp \<leftarrow> copy_output (LengthInfo (TotalSectors s * SECTOR_SIZE)) Irp; Some (STATUS_SUCCESS, 8, Irp) }
       else Some (STATUS_UNSUPPORTED, 0, Irp));
     Some (STATUS_SUCCESS, Irp\<lparr>IoStatus := status, IoInformation := information\<rparr>, s)
   }"

definition AtaDispatch :: "'h transfer \<Rightarrow> BYTE \<Rightarrow> 'h ATA_DEVICE dispatch option" where
  "AtaDispatch transfer mj =
     (if mj = IRP_MJ_READ \<or> mj = IRP_MJ_WRITE then Some (AtaDispatchReadWrite transfer)
      else if mj = IRP_MJ_DEVICE_CONTROL then Some AtaDispatchDeviceControl else None)"

definition ata_device :: "'h transfer \<Rightarrow> 'h ATA_DEVICE DEVICE_OBJECT" where
  "ata_device transfer = \<lparr>DeviceType = DeviceTypeHarddiskController, StackSize = 1, DeviceAlignment = 512, Vpb = None,
     Attached = False, DispatchFunctions = AtaDispatch transfer\<rparr>"

end
