(* ===== verification/Drivers.thy ===== *)
theory Drivers
  imports IoStack
begin

text \<open>
  The start of the storage drivers: the devices and volume parameter blocks of the I/O manager
  (\<^verbatim>\<open>HAL9000/src/iomu.c\<close>, \<^verbatim>\<open>io_devices.c\<close>) and the entries of the disk and volume drivers, which
  find the devices under them, ask them for their size or layout and attach to them. The device list of
  a driver is the list of its devices as they are when its entry returns.
\<close>

section \<open>Volume parameter blocks\<close>

definition STATUS_DEVICE_DOES_NOT_EXIST :: STATUS where "STATUS_DEVICE_DOES_NOT_EXIST = 0x80010001"
definition STATUS_DEVICE_COULD_NOT_BE_CREATED :: STATUS where "STATUS_DEVICE_COULD_NOT_BE_CREATED = 0x80010007"
definition STATUS_DEVICE_DRIVER_COULD_NOT_BE_CREATED :: STATUS where "STATUS_DEVICE_DRIVER_COULD_NOT_BE_CREATED = 0x80010008"
definition STATUS_DEVICE_NO_FILESYSTEM_MOUNTED :: STATUS where "STATUS_DEVICE_NO_FILESYSTEM_MOUNTED = 0x8001000B"

record 's VPB =
  FilesystemDevice :: "'s DEVICE_OBJECT option"
  Mounted :: bool
  VolumeLetter :: BYTE

record 's IOMU =
  DriverList :: "'s DEVICE_OBJECT list list"
  VpbList :: "'s VPB list"
  CurrentVolumeLetter :: BYTE

definition IOMU_INIT :: "'s IOMU" where
  "IOMU_INIT = \<lparr>DriverList = [], VpbList = [], CurrentVolumeLetter = 0x42\<rparr>"

definition IomuGetNextVolumeLetter :: "'s IOMU \<Rightarrow> (BYTE \<times> 's IOMU) option" where
  "IomuGetNextVolumeLetter iomu = do {
     let letter = CurrentVolumeLetter iomu + 1;
     ASSERT (letter \<le> 0x5A);
     Some (letter, iomu\<lparr>CurrentVolumeLetter := letter\<rparr>)
   }"

definition IomuNewVpbCreated :: "'s VPB \<Rightarrow> 's IOMU \<Rightarrow> 's IOMU option" where
  "IomuNewVpbCreated vpb iomu = do {
     (letter, iomu) \<leftarrow> IomuGetNextVolumeLetter iomu;
     Some (iomu\<lparr>VpbList := VpbList iomu @ [vpb\<lparr>VolumeLetter := letter\<rparr>]\<rparr>)
   }"

text \<open>The drive letter is compared without regard to case.\<close>

definition VpbCompareFunction :: "'s VPB \<Rightarrow> 's VPB \<Rightarrow> int" where
  "VpbCompareFunction FirstElem SecondElem = sint (tolower (VolumeLetter FirstElem)) - sint (tolower (VolumeLetter SecondElem))"

definition IomuSearchForVpb :: "BYTE \<Rightarrow> 's IOMU \<Rightarrow> 's VPB option" where
  "IomuSearchForVpb DriveLetter iomu =
     (let vpbToSearchFor = \<lparr>FilesystemDevice = None, Mounted = False, VolumeLetter = DriveLetter\<rparr>
      in find (\<lambda>vpb. VpbCompareFunction vpb vpbToSearchFor = 0) (VpbList iomu))"

definition IoAllocateVpb :: "(DWORD \<Rightarrow> bool) \<Rightarrow> 's IOMU \<Rightarrow> (nat \<times> 's IOMU) option" where
  "IoAllocateVpb pool iomu = do {
     ASSERT (pool 40);
     iomu' \<leftarrow> IomuNewVpbCreated \<lparr>FilesystemDevice = None, Mounted = False, VolumeLetter = 0\<rparr> iomu;
     Some (length (VpbList iomu), iomu')
   }"

section \<open>Devices and drivers\<close>

text \<open>Without memory the result is the null pointer, \<open>None\<close> in the pair.\<close>

definition IoCreateDevice ::
    "(DWORD \<Rightarrow> bool) \<Rightarrow> (BYTE \<Rightarrow> 's dispatch option) \<Rightarrow> DWORD \<Rightarrow> DEVICE_TYPE \<Rightarrow> 's IOMU \<Rightarrow>
     ('s DEVICE_OBJECT option \<times> 's IOMU) option" where
  "IoCreateDevice pool dispatch DeviceExtensionSize Type iomu =
     (if \<not> pool 64 then Some (None, iomu)
      else if 0 \<noteq> DeviceExtensionSize \<and> \<not> pool DeviceExtensionSize then Some (None, iomu)
      else do {
        (vpb, iomu) \<leftarrow> (if DeviceTypeVolume = Type then do { (i, iomu) \<leftarrow> IoAllocateVpb pool iomu; Some (Some i, iomu) }
                       else Some (None, iomu));
        Some (Some \<lparr>DeviceType = Type, StackSize = 1, DeviceAlignment = 0, Vpb = vpb, Attached = False,
                    DispatchFunctions = dispatch\<rparr>, iomu)
      })"

text \<open>The devices are counted first, then stored in an array of that many.\<close>

definition IomuGetDevicesByType :: "(DWORD \<Rightarrow> bool) \<Rightarrow> 's IOMU \<Rightarrow> DEVICE_TYPE \<Rightarrow> STATUS \<times> 's DEVICE_OBJECT list" where
  "IomuGetDevicesByType pool iomu Type =
     (let found = concat (map (filter (\<lambda>d. Type = DeviceType d)) (DriverList iomu));
          count = of_nat (length found)
      in if 0 = count then (STATUS_SUCCESS, [])
         else if \<not> pool (8 * count) then (STATUS_HEAP_NO_MORE_MEMORY, [])
         else (STATUS_SUCCESS, found))"

definition IomuDriverInstalled :: "'s DEVICE_OBJECT list \<Rightarrow> 's IOMU \<Rightarrow> 's IOMU" where
  "IomuDriverInstalled Driver iomu = iomu\<lparr>DriverList := DriverList iomu @ [Driver]\<rparr>"

text \<open>
  The entry of a driver gives its status and the device list of the driver. When it fails the driver
  object is freed, and its devices with it are not found any more, while what the entry stored in the
  parameter blocks stays.
\<close>

type_synonym 's driver_entry = "'s IOMU \<Rightarrow> 's \<Rightarrow> (STATUS \<times> 's DEVICE_OBJECT list \<times> 's IOMU \<times> 's) option"

definition IoCreateDriver ::
    "(DWORD \<Rightarrow> bool) \<Rightarrow> BYTE list \<Rightarrow> 's driver_entry \<Rightarrow> 's IOMU \<Rightarrow> 's \<Rightarrow> (bool \<times> 's IOMU \<times> 's) option" where
  "IoCreateDriver pool DriverName DriverEntry iomu s =
     (if \<not> pool 112 then Some (False, iomu, s)
      else if \<not> pool (of_nat (length DriverName) + 1) then Some (False, iomu, s)
      else do {
        (status, devices, iomu, s) \<leftarrow> DriverEntry iomu s;
        Some (if \<not> SUCCEEDED status then (False, iomu, s) else (True, IomuDriverInstalled devices iomu, s))
      })"

fun IomuInitDrivers ::
    "(DWORD \<Rightarrow> bool) \<Rightarrow> (BYTE list \<times> 's driver_entry \<times> bool) list \<Rightarrow> 's IOMU \<Rightarrow> 's \<Rightarrow> (STATUS \<times> 's IOMU \<times> 's) option" where
  "IomuInitDrivers pool [] iomu s = Some (STATUS_SUCCESS, iomu, s)"
| "IomuInitDrivers pool ((DriverName, DriverEntry, Mandatory) # drivers) iomu s = do {
     (created, iomu, s) \<leftarrow> IoCreateDriver pool DriverName DriverEntry iomu s;
     (if \<not> created \<and> Mandatory then Some (STATUS_DEVICE_DRIVER_COULD_NOT_BE_CREATED, iomu, s)
      else IomuInitDrivers pool drivers iomu s)
   }"

text \<open>The output buffer of a request after the call, which the caller has the address of.\<close>

definition returned_output :: "'s DEVICE_OBJECT \<Rightarrow> IRP \<Rightarrow> io_buffer option" where
  "returned_output Device Irp = map_option output_buffer (stack_location Irp (unat (StackSize Device - 1)))"

section \<open>The disk driver\<close>

text \<open>
  When the request for the length is completed with an error the function returns success and makes no disk.
  \<open>pool 0\<close> is the pool outside the recursion over the partition tables.
\<close>

definition DiskInitialize ::
    "(nat \<Rightarrow> DWORD \<Rightarrow> bool) \<Rightarrow> 's DEVICE_OBJECT \<Rightarrow> 's IOMU \<Rightarrow> 's \<Rightarrow> (STATUS \<times> 's DEVICE_OBJECT option \<times> 's IOMU \<times> 's) option" where
  "DiskInitialize pool Controller iomu s = do {
     irp \<leftarrow> IoBuildDeviceIoControlRequest (pool 0) IOCTL_DISK_GET_LENGTH_INFO Controller NoBuffer 0 (LengthInfo 0) 8;
     ASSERT (irp \<noteq> None);
     irp \<leftarrow> irp;
     (status, irp, s) \<leftarrow> IoCallDriver Controller irp s;
     (if \<not> SUCCEEDED status then Some (status, None, iomu, s)
      else if \<not> SUCCEEDED (IoStatus irp) then Some (status, None, iomu, s)
      else do {
        (disk, iomu) \<leftarrow> IoCreateDevice (pool 0) (DiskDispatch Controller None) 24 DeviceTypeDisk iomu;
        (case disk of None \<Rightarrow> Some (STATUS_DEVICE_COULD_NOT_BE_CREATED, None, iomu, s)
         | Some d \<Rightarrow> do {
             d \<leftarrow> IoAttachDevice (d\<lparr>DeviceAlignment := DeviceAlignment Controller\<rparr>) Controller;
             (status, layout, s) \<leftarrow> DiskRetrievePartitionsFromDisk pool d s;
             Some (if \<not> SUCCEEDED status then (status, None, iomu, s)
                   else (status, Some (d\<lparr>DispatchFunctions := DiskDispatch Controller layout\<rparr>), iomu, s))
           })
      })
   }"

text \<open>The loop over the controllers: \<open>disksFound\<close> counts the calls that succeeded.\<close>

fun disk_loop ::
    "(nat \<Rightarrow> DWORD \<Rightarrow> bool) \<Rightarrow> 's DEVICE_OBJECT list \<Rightarrow> STATUS \<Rightarrow> nat \<Rightarrow> 's DEVICE_OBJECT list \<Rightarrow> 's driver_entry" where
  "disk_loop pool [] status disksFound devices iomu s =
     Some (if disksFound > 0 then STATUS_SUCCESS else status, devices, iomu, s)"
| "disk_loop pool (controller # controllers) status disksFound devices iomu s = do {
     (status, disk, iomu, s) \<leftarrow> DiskInitialize pool controller iomu s;
     disk_loop pool controllers status (if SUCCEEDED status then disksFound + 1 else disksFound)
       (case disk of None \<Rightarrow> devices | Some d \<Rightarrow> devices @ [d]) iomu s
   }"

definition DiskDriverEntry :: "(nat \<Rightarrow> DWORD \<Rightarrow> bool) \<Rightarrow> 's driver_entry" where
  "DiskDriverEntry pool iomu s =
     (let (status, controllers) = IomuGetDevicesByType (pool 0) iomu DeviceTypeHarddiskController
      in if \<not> SUCCEEDED status then Some (status, [], iomu, s)
         else disk_loop pool controllers status 0 [] iomu s)"

section \<open>The volume driver\<close>

definition VolInitialize ::
    "(DWORD \<Rightarrow> bool) \<Rightarrow> 's DEVICE_OBJECT option \<Rightarrow> PARTITION_INFORMATION \<Rightarrow> 's IOMU \<Rightarrow>
     (STATUS \<times> 's DEVICE_OBJECT option \<times> 's IOMU) option" where
  "VolInitialize pool Disk PartitionInformation iomu =
     (case Disk of None \<Rightarrow> Some (STATUS_INVALID_PARAMETER1, None, iomu)
      | Some disk \<Rightarrow> do {
          (device, iomu) \<leftarrow> IoCreateDevice pool (VolDispatch disk PartitionInformation) 32 DeviceTypeVolume iomu;
          (case device of None \<Rightarrow> Some (STATUS_DEVICE_COULD_NOT_BE_CREATED, None, iomu)
           | Some d \<Rightarrow> do {
               d \<leftarrow> IoAttachDevice (d\<lparr>DeviceAlignment := DeviceAlignment disk\<rparr>) disk;
               Some (STATUS_SUCCESS, Some d, iomu)
             })
        })"

text \<open>
  The request for the layout is repeated until the buffer is large enough. \<open>Inl\<close> leaves the entry; the
  size of the buffer is kept for the next disk.
\<close>

partial_function (option) layout_loop ::
    "(DWORD \<Rightarrow> bool) \<Rightarrow> 's DEVICE_OBJECT \<Rightarrow> DWORD \<Rightarrow> 's \<Rightarrow> ((STATUS + STATUS \<times> io_buffer \<times> DWORD) \<times> 's) option" where
  "layout_loop pool disk structureSize s =
     (if 0 \<noteq> structureSize \<and> \<not> pool structureSize then Some (Inl STATUS_HEAP_NO_MORE_MEMORY, s)
      else do {
        let layout = (if 0 \<noteq> structureSize then Layout [] else NoBuffer);
        irp \<leftarrow> IoBuildDeviceIoControlRequest pool IOCTL_DISK_LAYOUT_INFO disk NoBuffer 0 layout structureSize;
        ASSERT (irp \<noteq> None);
        irp \<leftarrow> irp;
        (status, irp, s) \<leftarrow> IoCallDriver disk irp s;
        (if \<not> SUCCEEDED status then Some (Inl status, s)
         else do {
           ASSERT (IoInformation irp \<le> ucast MAX_DWORD);
           let structureSize = ucast (IoInformation irp);
           layout \<leftarrow> returned_output disk irp;
           (if STATUS_BUFFER_TOO_SMALL = IoStatus irp then layout_loop pool disk structureSize s
            else Some (Inr (IoStatus irp, layout, structureSize), s))
         })
      })"

fun partitions_loop ::
    "(DWORD \<Rightarrow> bool) \<Rightarrow> 's DEVICE_OBJECT \<Rightarrow> PARTITION_INFORMATION list \<Rightarrow> STATUS \<Rightarrow> 's DEVICE_OBJECT list \<Rightarrow> 's IOMU \<Rightarrow>
     (STATUS \<times> 's DEVICE_OBJECT list \<times> 's IOMU) option" where
  "partitions_loop pool disk [] status devices iomu = Some (status, devices, iomu)"
| "partitions_loop pool disk (p # ps) status devices iomu = do {
     (status, device, iomu) \<leftarrow> VolInitialize pool (Some disk) p iomu;
     (case device of None \<Rightarrow> Some (status, devices, iomu)
      | Some d \<Rightarrow> partitions_loop pool disk ps status (devices @ [d]) iomu)
   }"

fun disks_loop ::
    "(DWORD \<Rightarrow> bool) \<Rightarrow> 's DEVICE_OBJECT list \<Rightarrow> DWORD \<Rightarrow> STATUS \<Rightarrow> 's DEVICE_OBJECT list \<Rightarrow> 's driver_entry" where
  "disks_loop pool [] structureSize status devices iomu s = Some (status, devices, iomu, s)"
| "disks_loop pool (disk # disks) structureSize status devices iomu s = do {
     (result, s) \<leftarrow> layout_loop pool disk structureSize s;
     (case result of Inl status \<Rightarrow> Some (status, devices, iomu, s)
      | Inr (status, layout, structureSize) \<Rightarrow>
          if \<not> SUCCEEDED status then Some (status, devices, iomu, s)
          else do {
            partitions \<leftarrow> (case layout of Layout ps \<Rightarrow> Some ps | _ \<Rightarrow> None);
            (status, devices, iomu) \<leftarrow> partitions_loop pool disk partitions status devices iomu;
            (if \<not> SUCCEEDED status then Some (status, devices, iomu, s)
             else disks_loop pool disks structureSize status devices iomu s)
          })
   }"

definition VolDriverEntry :: "(DWORD \<Rightarrow> bool) \<Rightarrow> 's driver_entry" where
  "VolDriverEntry pool iomu s =
     (let (status, disks) = IomuGetDevicesByType pool iomu DeviceTypeDisk
      in if \<not> SUCCEEDED status then Some (status, [], iomu, s)
         else disks_loop pool disks 0 status [] iomu s)"

end
