(* ===== verification/FatFile.thy ===== *)
theory FatFile
  imports Drivers
begin

text \<open>
  Files: the requests of \<^verbatim>\<open>HAL9000/src/io_files.c\<close> and their handlers in \<^verbatim>\<open>FAT32/src/fat32.c\<close>, which
  mounts the volumes. A handle is a file object together with its file system device. The file system
  reads through \<open>volume_reader\<close>: the state of the devices below is the same after a read, and a halt in
  them is a read that failed. \<open>behind\<close> is the byte behind a buffer, \<open>now\<close> the time.
\<close>

section \<open>The volume below\<close>

definition STATUS_FILE_NOT_DIRECTORY :: STATUS where "STATUS_FILE_NOT_DIRECTORY = 0x8800001F"

abbreviation IRP_MN_INFORMATION_FILE_INFORMATION :: BYTE where "IRP_MN_INFORMATION_FILE_INFORMATION \<equiv> 0"
abbreviation IRP_MN_QUERY_DIRECTORY :: BYTE where "IRP_MN_QUERY_DIRECTORY \<equiv> 0"
abbreviation ATTR_NORMAL :: BYTE where "ATTR_NORMAL \<equiv> 0"
abbreviation PARTITION_TYPE_FAT_CHS :: BYTE where "PARTITION_TYPE_FAT_CHS \<equiv> 0xB"
abbreviation PARTITION_TYPE_FAT_LBA :: BYTE where "PARTITION_TYPE_FAT_LBA \<equiv> 0xC"

definition volume_reader :: "(DWORD \<Rightarrow> bool) \<Rightarrow> 's DEVICE_OBJECT \<Rightarrow> 's \<Rightarrow> device_reader" where
  "volume_reader pool device s n offset asyn =
     (case IoReadDeviceEx pool device (Bytes (replicate (unat n) 0)) n offset asyn s of
        Some (status, m, Bytes bs, s') \<Rightarrow> (status, take (unat m) bs)
      | _ \<Rightarrow> (STATUS_UNSUCCESSFUL, []))"

definition volume_writer :: "(DWORD \<Rightarrow> bool) \<Rightarrow> 's DEVICE_OBJECT \<Rightarrow> 's writer" where
  "volume_writer pool device s bytes offset =
     (case IoWriteDeviceEx pool device (Bytes bytes) (of_nat (length bytes)) offset False s of
        Some (status, n, buf, s') \<Rightarrow> (status, n, s')
      | None \<Rightarrow> (STATUS_UNSUCCESSFUL, 0, s))"

text \<open>Bytes stored at the start of a buffer; more than it holds would be written behind it.\<close>

definition store_bytes :: "io_buffer \<Rightarrow> BYTE list \<Rightarrow> io_buffer option" where
  "store_bytes buf bytes = (case buf of
       Bytes bs \<Rightarrow> if length bytes \<le> length bs then Some (Bytes (bytes @ drop (length bytes) bs)) else None
     | _ \<Rightarrow> if bytes = [] then Some buf else None)"

definition fat_pool :: "(DWORD \<Rightarrow> bool) \<Rightarrow> QWORD \<Rightarrow> bool" where
  "fat_pool pool n = pool (ucast n)"

section \<open>The handlers of the file system\<close>

definition FILE_INFORMATION_ZERO :: FILE_INFORMATION where
  "FILE_INFORMATION_ZERO =
     \<lparr>CreationTime = (\<lparr>Day = 0, Month = 0, Year = 0\<rparr>, \<lparr>Second = 0, Minute = 0, Hour = 0\<rparr>),
      LastWriteTime = (\<lparr>Day = 0, Month = 0, Year = 0\<rparr>, \<lparr>Second = 0, Minute = 0, Hour = 0\<rparr>),
      FileSize = 0, FileAttributes = 0\<rparr>"

definition value_or :: "'a \<Rightarrow> 'a option \<Rightarrow> 'a" where
  "value_or a x = (case x of None \<Rightarrow> a | Some b \<Rightarrow> b)"

text \<open>Without memory for the control block the status is still a success.\<close>

definition FatDispatchCreate ::
    "(DWORD \<Rightarrow> bool) \<Rightarrow> BYTE \<Rightarrow> DATE \<times> TIME \<Rightarrow> 's DEVICE_OBJECT \<Rightarrow> FAT_DATA \<Rightarrow> 's dispatch" where
  "FatDispatchCreate pool behind now Volume FatData Irp s = do {
     location \<leftarrow> IoGetCurrentIrpStackLocation Irp;
     ASSERT (IRP_MJ_CREATE = MajorFunction location);
     f \<leftarrow> FileObject location;
     ASSERT (NULL = RelatedFileObject f);
     let fileType = (if DirectoryFile f then ATTR_DIRECTORY else ATTR_NORMAL);
     let Irp = Irp\<lparr>IoInformation := 0\<rparr>;
     (status, s) \<leftarrow> (if CreateFile f then
         FatCreateDirectoryEntry (volume_reader pool Volume) (volume_writer pool Volume) (fat_pool pool) FatData
           (DeviceAlignment Volume) behind now (FileName f) fileType s
       else Some (STATUS_SUCCESS, s));
     (if \<not> SUCCEEDED status then finish_irp status Irp s
      else do {
        r \<leftarrow> FatSearch (volume_reader pool Volume s) (fat_pool pool) FatData (DeviceAlignment Volume) behind (FileName f)
               fileType (Some FILE_INFORMATION_ZERO);
        (if \<not> SUCCEEDED (SearchStatus r) then finish_irp (SearchStatus r) Irp s
         else if \<not> pool 48 then finish_irp (SearchStatus r) Irp s
         else do {
           let fileSector = value_or 0 (SearchResult r);
           let fileInformation = value_or FILE_INFORMATION_ZERO (SearchInformation r);
           let fcb = \<lparr>FileOffsetInVolume = fileSector, ParentOffsetInVolume = fileSector, FileInformation = fileInformation\<rparr>;
           Irp \<leftarrow> update_current (\<lambda>l. l\<lparr>FileObject := Some (f\<lparr>RealFileSize := FileSize fileInformation, FsContext2 := Some fcb\<rparr>)\<rparr>) Irp;
           finish_irp (SearchStatus r) Irp s
         })
      })
   }"

definition FatDispatchClose :: "'s dispatch" where
  "FatDispatchClose Irp s = do {
     location \<leftarrow> IoGetCurrentIrpStackLocation Irp;
     ASSERT (IRP_MJ_CLOSE = MajorFunction location);
     f \<leftarrow> FileObject location;
     ASSERT (FsContext2 f \<noteq> None);
     Irp \<leftarrow> update_current (\<lambda>l. l\<lparr>FileObject := Some (f\<lparr>FsContext2 := None\<rparr>)\<rparr>) Irp;
     finish_irp STATUS_SUCCESS Irp s
   }"

definition FatDispatchRead :: "(DWORD \<Rightarrow> bool) \<Rightarrow> 's DEVICE_OBJECT \<Rightarrow> FAT_DATA \<Rightarrow> 's dispatch" where
  "FatDispatchRead pool Volume FatData Irp s = do {
     location \<leftarrow> IoGetCurrentIrpStackLocation Irp;
     ASSERT (IRP_MJ_READ = MajorFunction location);
     f \<leftarrow> FileObject location;
     fcb \<leftarrow> FsContext2 f;
     ASSERT (FileOffsetInVolume fcb \<le> ucast MAX_DWORD);
     (n, offset) \<leftarrow> read_write location;
     ASSERT (offset \<le> ucast MAX_DWORD);
     ASSERT (n \<le> ucast MAX_DWORD);
     sectorOffset \<leftarrow> fault_div offset (ucast (BytesPerSector FatData));
     sectors \<leftarrow> fault_div n (ucast (BytesPerSector FatData));
     (status, bytes, sectorsRead) \<leftarrow> FatReadFile (volume_reader pool Volume s) (fat_pool pool) FatData (FileOffsetInVolume fcb)
        sectorOffset sectors (Asynchronous Irp);
     buf \<leftarrow> store_bytes (IoBuffer Irp) bytes;
     finish_irp status
       (Irp\<lparr>IoBuffer := buf, IoInformation := value_or 0 sectorsRead * ucast (BytesPerSector FatData)\<rparr>) s
   }"

definition FatDispatchQueryInformation :: "'s dispatch" where
  "FatDispatchQueryInformation Irp s = do {
     location \<leftarrow> IoGetCurrentIrpStackLocation Irp;
     ASSERT (IRP_MJ_QUERY_INFORMATION = MajorFunction location);
     ASSERT (IRP_MN_INFORMATION_FILE_INFORMATION = MinorFunction location);
     n \<leftarrow> (case Parameters location of QueryFile n \<Rightarrow> Some n | _ \<Rightarrow> None);
     (if n < 32 then finish_irp STATUS_BUFFER_TOO_SMALL (Irp\<lparr>IoInformation := 32\<rparr>) s
      else do {
        f \<leftarrow> FileObject location;
        fcb \<leftarrow> FsContext2 f;
        ASSERT (IoBuffer Irp \<noteq> NoBuffer);
        finish_irp STATUS_SUCCESS (Irp\<lparr>IoBuffer := Information (FileInformation fcb), IoInformation := 32\<rparr>) s
      })
   }"

definition FatDispatchDirectoryControl :: "(DWORD \<Rightarrow> bool) \<Rightarrow> BYTE \<Rightarrow> 's DEVICE_OBJECT \<Rightarrow> FAT_DATA \<Rightarrow> 's dispatch" where
  "FatDispatchDirectoryControl pool behind Volume FatData Irp s = do {
     location \<leftarrow> IoGetCurrentIrpStackLocation Irp;
     ASSERT (IRP_MJ_DIRECTORY_CONTROL = MajorFunction location);
     ASSERT (IRP_MN_QUERY_DIRECTORY = MinorFunction location);
     f \<leftarrow> FileObject location;
     (if \<not> DirectoryFile f then finish_irp STATUS_FILE_NOT_DIRECTORY (Irp\<lparr>IoInformation := 0\<rparr>) s
      else do {
        fcb \<leftarrow> FsContext2 f;
        n \<leftarrow> (case Parameters location of QueryDirectory n i \<Rightarrow> Some n | _ \<Rightarrow> None);
        (status, information, entries) \<leftarrow> FatQueryDirectory (volume_reader pool Volume s) (fat_pool pool) FatData
           (DeviceAlignment Volume) behind (FileOffsetInVolume fcb) n (if IoBuffer Irp = NoBuffer then NULL else 1) FILE_INFORMATION_ZERO;
        let status = (if SUCCEEDED status \<and> information > n then STATUS_BUFFER_TOO_SMALL else status);
        finish_irp status
          (Irp\<lparr>IoBuffer := if entries = [] then IoBuffer Irp else Directory entries, IoInformation := ucast information\<rparr>) s
      })
   }"

definition FatDispatch ::
    "(DWORD \<Rightarrow> bool) \<Rightarrow> BYTE \<Rightarrow> DATE \<times> TIME \<Rightarrow> 's DEVICE_OBJECT \<Rightarrow> FAT_DATA \<Rightarrow> BYTE \<Rightarrow> 's dispatch option" where
  "FatDispatch pool behind now Volume FatData mj =
     (if mj = IRP_MJ_CREATE then Some (FatDispatchCreate pool behind now Volume FatData)
      else if mj = IRP_MJ_CLOSE then Some FatDispatchClose
      else if mj = IRP_MJ_READ then Some (FatDispatchRead pool Volume FatData)
      else if mj = IRP_MJ_QUERY_INFORMATION then Some FatDispatchQueryInformation
      else if mj = IRP_MJ_DIRECTORY_CONTROL then Some (FatDispatchDirectoryControl pool behind Volume FatData) else None)"

section \<open>Mounting\<close>

definition FAT_DATA_ZERO :: FAT_DATA where
  "FAT_DATA_ZERO = \<lparr>CountOfClusters = 0, RootDirectoryStartSector = 0, ReservedSectors = 0, FirstDataSector = 0,
     SectorsPerCluster = 0, BytesPerSector = 0, EntriesPerSector = 0, AllocationSize = 0\<rparr>"

definition mount_volume :: "nat \<Rightarrow> 's DEVICE_OBJECT \<Rightarrow> 's IOMU \<Rightarrow> 's IOMU option" where
  "mount_volume i device iomu =
     (if i < length (VpbList iomu)
      then Some (iomu\<lparr>VpbList := (VpbList iomu)[i := (VpbList iomu ! i)\<lparr>FilesystemDevice := Some device, Mounted := True\<rparr>]\<rparr>)
      else None)"

text \<open>The device of a mounted volume.\<close>

definition fat_device ::
    "(DWORD \<Rightarrow> bool) \<Rightarrow> BYTE \<Rightarrow> DATE \<times> TIME \<Rightarrow> 's DEVICE_OBJECT \<Rightarrow> FAT_DATA \<Rightarrow> 's DEVICE_OBJECT" where
  "fat_device pool behind now Volume FatData =
     device_over DeviceTypeFilesystem (Vpb Volume) (FatDispatch pool behind now Volume FatData) Volume"

text \<open>
  The device of a volume that could not be mounted is deleted at the start of the next turn; after the
  last one it stays in the list. The status is the one of the last volume.
\<close>

fun volumes_loop ::
    "(DWORD \<Rightarrow> bool) \<Rightarrow> BYTE \<Rightarrow> DATE \<times> TIME \<Rightarrow> 's DEVICE_OBJECT list \<Rightarrow> STATUS \<Rightarrow> 's DEVICE_OBJECT list \<Rightarrow> 's DEVICE_OBJECT option \<Rightarrow>
     's driver_entry" where
  "volumes_loop pool behind now [] status devices unused iomu s =
     Some (status, devices @ (case unused of None \<Rightarrow> [] | Some d \<Rightarrow> [d]), iomu, s)"
| "volumes_loop pool behind now (vol # vols) status devices unused iomu s = do {
     irp \<leftarrow> IoBuildDeviceIoControlRequest pool IOCTL_VOLUME_PARTITION_INFO vol NoBuffer 0
        (Partition \<lparr>OffsetInDisk = 0, PartitionSize = 0, PartitionType = 0, Bootable = False\<rparr>) 24;
     (case irp of None \<Rightarrow> volumes_loop pool behind now vols status devices None iomu s
      | Some irp \<Rightarrow> do {
          (status, irp, s) \<leftarrow> IoCallDriver vol irp s;
          (if \<not> SUCCEEDED status then volumes_loop pool behind now vols status devices None iomu s
           else if \<not> SUCCEEDED (IoStatus irp) then volumes_loop pool behind now vols status devices None iomu s
           else do {
             out \<leftarrow> returned_output vol irp;
             info \<leftarrow> (case out of Partition p \<Rightarrow> Some p | _ \<Rightarrow> None);
             (if PARTITION_TYPE_FAT_CHS \<noteq> PartitionType info \<and> PARTITION_TYPE_FAT_LBA \<noteq> PartitionType info
              then volumes_loop pool behind now vols status devices None iomu s
              else do {
                (device, iomu) \<leftarrow> IoCreateDevice pool (\<lambda>mj. None) 48 DeviceTypeFilesystem iomu;
                (case device of None \<Rightarrow> Some (STATUS_DEVICE_COULD_NOT_BE_CREATED, devices, iomu, s)
                 | Some d \<Rightarrow> do {
                     let d = d\<lparr>DeviceAlignment := DeviceAlignment vol\<rparr>;
                     (status, FatData) \<leftarrow> FatInitVolume (volume_reader pool vol s) (DeviceAlignment vol) FAT_DATA_ZERO;
                     let d = d\<lparr>DispatchFunctions := FatDispatch pool behind now vol FatData\<rparr>;
                     (if \<not> SUCCEEDED status then volumes_loop pool behind now vols status devices (Some d) iomu s
                      else do {
                        d \<leftarrow> IoAttachDevice d vol;
                        i \<leftarrow> Vpb vol;
                        let d = d\<lparr>Vpb := Some i\<rparr>;
                        iomu \<leftarrow> mount_volume i d iomu;
                        volumes_loop pool behind now vols status (devices @ [d]) None iomu s
                      })
                   })
              })
           })
        })
   }"

definition FatDriverEntry :: "(DWORD \<Rightarrow> bool) \<Rightarrow> BYTE \<Rightarrow> DATE \<times> TIME \<Rightarrow> 's driver_entry" where
  "FatDriverEntry pool behind now iomu s =
     (let (status, volumes) = IomuGetDevicesByType pool iomu DeviceTypeVolume
      in if \<not> SUCCEEDED status then Some (status, [], iomu, s)
         else volumes_loop pool behind now volumes status [] None iomu s)"

section \<open>Requests for files\<close>

definition toupper :: "BYTE \<Rightarrow> BYTE" where
  "toupper c = c AND NOT LOWER_UPPER_DIFF"

text \<open>\<open>strrchr\<close> returns its argument when there is no delimiter, or when the only one is the first character.\<close>

definition last_delimiter :: "BYTE list \<Rightarrow> nat" where
  "last_delimiter cs =
     (if FAT_DELIMITER \<in> set cs then length cs - Suc (length (takeWhile (\<lambda>c. c \<noteq> FAT_DELIMITER) (rev cs))) else 0)"

definition IoIsFilePathValid :: "BYTE list \<Rightarrow> bool" where
  "IoIsFilePathValid Name \<longleftrightarrow> \<not> length Name < 3 \<and> 0 \<noteq> last_delimiter Name"

definition IoAllocateFileObject :: "(DWORD \<Rightarrow> bool) \<Rightarrow> BYTE list \<Rightarrow> bool \<Rightarrow> bool \<Rightarrow> bool \<Rightarrow> IO_STACK_LOCATION \<Rightarrow> IO_STACK_LOCATION option" where
  "IoAllocateFileObject pool Name Asyn Create IsDirectory location = do {
     ASSERT (pool 56);
     Some (location\<lparr>FileObject := Some \<lparr>AsynchronousFile = Asyn, CreateFile = Create, DirectoryFile = IsDirectory, FsContext2 = None,
             FileName = Name, RelatedFileObject = NULL, CurrentByteOffset = 0, RealFileSize = 0\<rparr>\<rparr>)
   }"

text \<open>The file object of a request after the call, through the pointer in its first stack location.\<close>

definition returned_file :: "'s DEVICE_OBJECT \<Rightarrow> IRP \<Rightarrow> FILE_OBJECT option" where
  "returned_file Device Irp = do {
     location \<leftarrow> stack_location Irp (unat (StackSize Device - 1));
     FileObject location
   }"

definition IoCreateFile ::
    "(DWORD \<Rightarrow> bool) \<Rightarrow> 's IOMU \<Rightarrow> BYTE list \<Rightarrow> bool \<Rightarrow> bool \<Rightarrow> bool \<Rightarrow> 's \<Rightarrow>
     (STATUS \<times> (FILE_OBJECT \<times> 's DEVICE_OBJECT) option \<times> 's) option" where
  "IoCreateFile pool iomu Name IsDirectory Create Asyn s =
     (let driveLetter = toupper (if Name = [] then 0 else hd Name)
      in if \<not> IoIsFilePathValid Name then Some (STATUS_INVALID_FILE_NAME, None, s)
         else case IomuSearchForVpb driveLetter iomu of
           None \<Rightarrow> Some (STATUS_DEVICE_DOES_NOT_EXIST, None, s)
         | Some vpb \<Rightarrow>
             if \<not> Mounted vpb then Some (STATUS_DEVICE_NO_FILESYSTEM_MOUNTED, None, s)
             else do {
               device \<leftarrow> FilesystemDevice vpb;
               irp \<leftarrow> IoAllocateIrp pool (StackSize device);
               (case irp of None \<Rightarrow> Some (STATUS_HEAP_NO_MORE_MEMORY, None, s)
                | Some irp \<Rightarrow> do {
                    location \<leftarrow> IoGetNextIrpStackLocation irp;
                    location \<leftarrow> IoAllocateFileObject pool (drop 2 Name) Asyn Create IsDirectory (location\<lparr>MajorFunction := IRP_MJ_CREATE\<rparr>);
                    irp \<leftarrow> update_next (\<lambda>l. location) irp;
                    (status, irp, s) \<leftarrow> IoCallDriver device irp s;
                    let status = (if SUCCEEDED status then IoStatus irp else status);
                    f \<leftarrow> returned_file device irp;
                    Some (status, if SUCCEEDED status then Some (f, device) else None, s)
                  })
             })"

text \<open>The results have the file object as the handler leaves it.\<close>

definition IoCloseFile :: "(DWORD \<Rightarrow> bool) \<Rightarrow> 's DEVICE_OBJECT \<Rightarrow> FILE_OBJECT \<Rightarrow> 's \<Rightarrow> (STATUS \<times> FILE_OBJECT \<times> 's) option" where
  "IoCloseFile pool FileSystemDevice FileHandle s = do {
     irp \<leftarrow> IoAllocateIrp pool (StackSize FileSystemDevice);
     (case irp of None \<Rightarrow> Some (STATUS_HEAP_NO_MORE_MEMORY, FileHandle, s)
      | Some irp \<Rightarrow> do {
          irp \<leftarrow> update_next (\<lambda>l. l\<lparr>MajorFunction := IRP_MJ_CLOSE, FileObject := Some FileHandle\<rparr>) irp;
          (status, irp, s) \<leftarrow> IoCallDriver FileSystemDevice irp s;
          f \<leftarrow> returned_file FileSystemDevice irp;
          Some (if \<not> SUCCEEDED status then status else IoStatus irp, f, s)
        })
   }"

text \<open>The result has the buffer and, if it was stored, the number of bytes read.\<close>

definition IoReadFile ::
    "(DWORD \<Rightarrow> bool) \<Rightarrow> 's DEVICE_OBJECT \<Rightarrow> FILE_OBJECT \<Rightarrow> QWORD \<Rightarrow> QWORD option \<Rightarrow> io_buffer \<Rightarrow> 's \<Rightarrow>
     (STATUS \<times> io_buffer \<times> QWORD option \<times> FILE_OBJECT \<times> 's) option" where
  "IoReadFile pool FileSystemDevice FileHandle BytesToRead FileOffset Buf s = do {
     ASSERT (Buf \<noteq> NoBuffer);
     fileOffset \<leftarrow> (if AsynchronousFile FileHandle then FileOffset
                   else Some (value_or (CurrentByteOffset FileHandle) FileOffset));
     irp \<leftarrow> IoAllocateIrp pool (StackSize FileSystemDevice);
     (case irp of None \<Rightarrow> Some (STATUS_HEAP_NO_MORE_MEMORY, Buf, None, FileHandle, s)
      | Some irp \<Rightarrow> do {
          irp \<leftarrow> update_next (\<lambda>l. l\<lparr>MajorFunction := IRP_MJ_READ, Parameters := ReadWrite BytesToRead fileOffset,
                                   FileObject := Some FileHandle\<rparr>)
                   (irp\<lparr>IoBuffer := Buf, Asynchronous := AsynchronousFile FileHandle\<rparr>);
          (status, irp, s) \<leftarrow> IoCallDriver FileSystemDevice irp s;
          f \<leftarrow> returned_file FileSystemDevice irp;
          Some (if \<not> SUCCEEDED status then (status, IoBuffer irp, None, f, s)
                else (IoStatus irp, IoBuffer irp, Some (IoInformation irp),
                      if SUCCEEDED (IoStatus irp) \<and> \<not> AsynchronousFile f
                      then f\<lparr>CurrentByteOffset := CurrentByteOffset f + IoInformation irp\<rparr> else f, s))
        })
   }"

definition IoQueryInformationFile ::
    "(DWORD \<Rightarrow> bool) \<Rightarrow> 's DEVICE_OBJECT \<Rightarrow> FILE_OBJECT \<Rightarrow> io_buffer \<Rightarrow> 's \<Rightarrow> (STATUS \<times> io_buffer \<times> 's) option" where
  "IoQueryInformationFile pool FileSystemDevice FileHandle Buf s = do {
     ASSERT (Buf \<noteq> NoBuffer);
     irp \<leftarrow> IoAllocateIrp pool (StackSize FileSystemDevice);
     (case irp of None \<Rightarrow> Some (STATUS_HEAP_NO_MORE_MEMORY, Buf, s)
      | Some irp \<Rightarrow> do {
          irp \<leftarrow> update_next (\<lambda>l. l\<lparr>MajorFunction := IRP_MJ_QUERY_INFORMATION, MinorFunction := IRP_MN_INFORMATION_FILE_INFORMATION,
                                   FileObject := Some FileHandle, Parameters := QueryFile 32\<rparr>)
                   (irp\<lparr>IoBuffer := Buf\<rparr>);
          (status, irp, s) \<leftarrow> IoCallDriver FileSystemDevice irp s;
          Some (if \<not> SUCCEEDED status then status else IoStatus irp, IoBuffer irp, s)
        })
   }"

definition IoQueryDirectoryFile ::
    "(DWORD \<Rightarrow> bool) \<Rightarrow> 's DEVICE_OBJECT \<Rightarrow> FILE_OBJECT \<Rightarrow> DWORD \<Rightarrow> io_buffer \<Rightarrow> 's \<Rightarrow>
     (STATUS \<times> io_buffer \<times> DWORD option \<times> 's) option" where
  "IoQueryDirectoryFile pool FileSystemDevice FileHandle BufferSize Buf s = do {
     ASSERT (Buf \<noteq> NoBuffer \<or> 0 = BufferSize);
     irp \<leftarrow> IoAllocateIrp pool (StackSize FileSystemDevice);
     (case irp of None \<Rightarrow> Some (STATUS_HEAP_NO_MORE_MEMORY, Buf, None, s)
      | Some irp \<Rightarrow> do {
          irp \<leftarrow> update_next (\<lambda>l. l\<lparr>MajorFunction := IRP_MJ_DIRECTORY_CONTROL, MinorFunction := IRP_MN_QUERY_DIRECTORY,
                                   FileObject := Some FileHandle, Parameters := QueryDirectory BufferSize 0\<rparr>)
                   (irp\<lparr>IoBuffer := Buf\<rparr>);
          (status, irp, s) \<leftarrow> IoCallDriver FileSystemDevice irp s;
          (if \<not> SUCCEEDED status then Some (status, IoBuffer irp, None, s)
           else do {
             ASSERT (IoInformation irp \<le> ucast MAX_DWORD);
             Some (IoStatus irp, IoBuffer irp, Some (ucast (IoInformation irp)), s)
           })
        })
   }"

section \<open>The system partition\<close>

text \<open>The system partition is the first mounted volume that has the file \<^verbatim>\<open>HAL9000.ini\<close>.\<close>

definition HAL9000_SYSTEM_FILE_NAME :: "BYTE list" where
  "HAL9000_SYSTEM_FILE_NAME = [0x48, 0x41, 0x4C, 0x39, 0x30, 0x30, 0x30, 0x2E, 0x69, 0x6E, 0x69]"

definition IomuIsSystemPartitionOnDrive :: "(DWORD \<Rightarrow> bool) \<Rightarrow> 's IOMU \<Rightarrow> BYTE \<Rightarrow> 's \<Rightarrow> (bool \<times> 's) option" where
  "IomuIsSystemPartitionOnDrive pool iomu DriveLetter s = do {
     (status, handle, s) \<leftarrow> IoCreateFile pool iomu ([DriveLetter, 0x3A, 0x5C] @ HAL9000_SYSTEM_FILE_NAME) False False False s;
     (if \<not> SUCCEEDED status then Some (False, s)
      else do {
        (f, device) \<leftarrow> handle;
        (status, f, s) \<leftarrow> IoCloseFile pool device f s;
        Some (True, s)
      })
   }"

fun system_partition_loop :: "(DWORD \<Rightarrow> bool) \<Rightarrow> 's IOMU \<Rightarrow> 's VPB list \<Rightarrow> 's \<Rightarrow> (BYTE option \<times> 's) option" where
  "system_partition_loop pool iomu [] s = Some (None, s)"
| "system_partition_loop pool iomu (vpb # vpbs) s =
     (if \<not> Mounted vpb then system_partition_loop pool iomu vpbs s
      else do {
        (found, s) \<leftarrow> IomuIsSystemPartitionOnDrive pool iomu (VolumeLetter vpb) s;
        (if found then Some (Some (VolumeLetter vpb), s) else system_partition_loop pool iomu vpbs s)
      })"

definition IomuDetermineSystemPartition :: "(DWORD \<Rightarrow> bool) \<Rightarrow> 's IOMU \<Rightarrow> 's \<Rightarrow> (STATUS \<times> BYTE option \<times> 's) option" where
  "IomuDetermineSystemPartition pool iomu s = do {
     (letter, s) \<leftarrow> system_partition_loop pool iomu (VpbList iomu) s;
     Some (if letter \<noteq> None then STATUS_SUCCESS else STATUS_FILE_NOT_FOUND, letter, s)
   }"

end
