(* ===== verification/FatSpec.thy ===== *)
theory FatSpec
  imports Fat
begin

text \<open>
  What the FAT32 driver promises: clusters and sectors correspond, a file is the contents of its chain
  of clusters, directory entries and dates survive being written and read back, a search finds the
  first entry of the name, and a creation writes nowhere else.
\<close>

section \<open>Geometry\<close>

definition spc :: "FAT_DATA \<Rightarrow> nat" where "spc F = unat (SectorsPerCluster F)"
definition bps :: "FAT_DATA \<Rightarrow> nat" where "bps F = unat (BytesPerSector F)"
definition clusters :: "FAT_DATA \<Rightarrow> nat" where "clusters F = unat (CountOfClusters F)"
definition first_data :: "FAT_DATA \<Rightarrow> nat" where "first_data F = unat (FirstDataSector F)"

definition volume_ok :: "FAT_DATA \<Rightarrow> bool" where
  "volume_ok F \<longleftrightarrow> 0 < spc F \<and> 0 < bps F \<and> 4 dvd bps F \<and> bps F * spc F < 2 ^ 32 \<and> clusters F + 1 < 2 ^ 32 \<and>
     (first_data F + clusters F * spc F) * bps F < 2 ^ 64 \<and>
     unat (ReservedSectors F) * bps F + 4 * (clusters F + 2) \<le> first_data F * bps F"

definition cluster_ok :: "FAT_DATA \<Rightarrow> nat \<Rightarrow> bool" where
  "cluster_ok F c \<longleftrightarrow> 2 \<le> c \<and> c \<le> clusters F + 1"

definition first_sector :: "FAT_DATA \<Rightarrow> nat \<Rightarrow> nat" where
  "first_sector F c = first_data F + (c - 2) * spc F"

lemma volume_less:
  assumes "volume_ok F" and "cluster_ok F c"
  shows "first_sector F c + spc F \<le> first_data F + clusters F * spc F"
    and "(first_sector F c + spc F) * bps F < 2 ^ 64" and "first_sector F c + spc F < 2 ^ 64" and "c < 2 ^ 32"
proof -
  have "(c - 2) * spc F + spc F = (c - 1) * spc F"
    using assms(2) by (cases c; cases "c - 1") (simp_all add: cluster_ok_def)
  also have "\<dots> \<le> clusters F * spc F" using assms(2) by (intro mult_right_mono) (auto simp: cluster_ok_def)
  finally show le: "first_sector F c + spc F \<le> first_data F + clusters F * spc F" by (simp add: first_sector_def)
  then have "(first_sector F c + spc F) * bps F \<le> (first_data F + clusters F * spc F) * bps F" by (rule mult_right_mono) simp
  then show mul: "(first_sector F c + spc F) * bps F < 2 ^ 64" using assms(1) unfolding volume_ok_def by linarith
  have "1 \<le> bps F" using assms(1) unfolding volume_ok_def by linarith
  then have "first_sector F c + spc F \<le> (first_sector F c + spc F) * bps F" by simp
  with mul show "first_sector F c + spc F < 2 ^ 64" by linarith
  show "c < 2 ^ 32" using assms unfolding volume_ok_def cluster_ok_def by linarith
qed

lemma of_nat_DWORD: "(of_nat (unat (w :: DWORD)) :: QWORD) = ucast w"
  by simp

lemma FirstSectorOfCluster_ok:
  assumes "volume_ok F" and "cluster_ok F c"
  shows "FirstSectorOfCluster F (of_nat c) = (STATUS_SUCCESS, Some (of_nat (first_sector F c)))"
proof -
  have c: "unat (of_nat c :: QWORD) = c" using volume_less(4) [OF assms] by (simp add: unat_of_nat)
  have m: "unat (ucast (CountOfClusters F + 1) :: QWORD) = clusters F + 1"
    using assms(1) by (simp add: unat_ucast_mod clusters_def volume_ok_def unat_word_ariths)
  have "\<not> (of_nat c :: QWORD) > ucast (CountOfClusters F + 1)" "\<not> (of_nat c :: QWORD) < 2"
    using assms(2) unfolding word_less_nat_alt c m cluster_ok_def by simp_all
  moreover have "(of_nat c - 2 :: QWORD) = of_nat (c - 2)" using assms(2) by (simp add: cluster_ok_def of_nat_diff)
  ultimately show ?thesis
    by (simp add: FirstSectorOfCluster_def first_sector_def spc_def first_data_def add.commute)
qed

lemma FirstSectorOfCluster_bad:
  assumes "volume_ok F" and "\<not> cluster_ok F c" and "c < 2 ^ 64"
  shows "FirstSectorOfCluster F (of_nat c) = (STATUS_DEVICE_CLUSTER_INVALID, None)"
proof -
  have c: "unat (of_nat c :: QWORD) = c" using assms(3) by (simp add: unat_of_nat)
  have m: "unat (ucast (CountOfClusters F + 1) :: QWORD) = clusters F + 1"
    using assms(1) by (simp add: unat_ucast_mod clusters_def volume_ok_def unat_word_ariths)
  have "(of_nat c :: QWORD) > ucast (CountOfClusters F + 1) \<or> (of_nat c :: QWORD) < 2"
    using assms(2) unfolding word_less_nat_alt c m cluster_ok_def by auto
  then show ?thesis by (simp add: FirstSectorOfCluster_def)
qed

lemma ClusterOfSector_ok:
  assumes "volume_ok F" and c: "cluster_ok F c" and k: "k < spc F"
  shows "ClusterOfSector F (of_nat (first_sector F c + k)) = Some (STATUS_SUCCESS, of_nat c)"
proof -
  have s: "unat (of_nat (first_sector F c + k) :: QWORD) = first_sector F c + k"
    using volume_less(3) [OF assms(1,2)] k by (intro unat_of_nat_small) simp
  have f: "unat (ucast (FirstDataSector F) :: QWORD) = first_data F" "unat (ucast (SectorsPerCluster F) :: QWORD) = spc F"
    using unsigned_less [where 'a = nat, of "FirstDataSector F"] unsigned_less [where 'a = nat, of "SectorsPerCluster F"]
    by (simp_all add: unat_ucast_mod first_data_def spc_def)
  have "unat (of_nat (first_sector F c + k) - ucast (FirstDataSector F) :: QWORD) = (c - 2) * spc F + k"
    using s f by (subst unat_sub) (simp_all add: word_le_nat_alt first_sector_def)
  then have "unat ((of_nat (first_sector F c + k) - ucast (FirstDataSector F)) div ucast (SectorsPerCluster F) :: QWORD) = c - 2"
    using k by (simp add: unat_div f)
  then have q: "(of_nat (first_sector F c + k) - ucast (FirstDataSector F)) div ucast (SectorsPerCluster F) = (of_nat (c - 2) :: QWORD)"
    by (metis of_nat_unat ucast_id)
  have "(ucast (SectorsPerCluster F) :: QWORD) \<noteq> 0"
    using f(2) k by (auto simp: word_unat_eq_iff)
  moreover have cc: "unat (of_nat c :: QWORD) = c" using volume_less(4) [OF assms(1,2)] by (simp add: unat_of_nat)
  have m: "unat (ucast (CountOfClusters F + 1) :: QWORD) = clusters F + 1"
    using assms(1) by (simp add: unat_ucast_mod clusters_def volume_ok_def unat_word_ariths)
  have "\<not> (of_nat c :: QWORD) > ucast (CountOfClusters F + 1)" "\<not> (of_nat c :: QWORD) < 2"
    using c unfolding word_less_nat_alt cc m cluster_ok_def by simp_all
  moreover have "(of_nat (c - 2) + 2 :: QWORD) = of_nat c" using c by (simp add: cluster_ok_def of_nat_diff)
  ultimately show ?thesis by (simp add: ClusterOfSector_def fault_div_def q Let_def del: of_nat_add)
qed

section \<open>Cluster chains\<close>

text \<open>
  \<open>D\<close> is the contents of the volume, byte by byte, and \<open>good_reader\<close> a device that returns it, for
  requests of whole sectors of the volume.
\<close>

definition disk_bytes :: "(nat \<Rightarrow> BYTE) \<Rightarrow> nat \<Rightarrow> nat \<Rightarrow> BYTE list" where
  "disk_bytes D a n = map (\<lambda>i. D (a + i)) [0 ..< n]"

definition on_volume :: "FAT_DATA \<Rightarrow> nat \<Rightarrow> nat \<Rightarrow> bool" where
  "on_volume F a n \<longleftrightarrow> bps F dvd a \<and> bps F dvd n \<and> 0 < n \<and> n \<le> spc F * bps F \<and> a + n \<le> (first_data F + clusters F * spc F) * bps F"

definition good_reader :: "(nat \<Rightarrow> BYTE) \<Rightarrow> FAT_DATA \<Rightarrow> device_reader \<Rightarrow> bool" where
  "good_reader D F rd \<longleftrightarrow> (\<forall>n offset asyn. on_volume F (unat offset) (unat n) \<longrightarrow>
     rd n offset asyn = (STATUS_SUCCESS, disk_bytes D (unat offset) (unat n)))"

lemma on_volume_cluster:
  assumes "volume_ok F" "cluster_ok F c"
  shows "on_volume F (first_sector F c * bps F) (spc F * bps F)"
proof -
  have "(first_sector F c + spc F) * bps F \<le> (first_data F + clusters F * spc F) * bps F"
    using volume_less(1) [OF assms] by (rule mult_right_mono) simp
  then show ?thesis using assms(1) by (simp add: on_volume_def add_mult_distrib volume_ok_def)
qed

definition fat_entry :: "(nat \<Rightarrow> BYTE) \<Rightarrow> FAT_DATA \<Rightarrow> nat \<Rightarrow> nat" where
  "fat_entry D F c = le_value (disk_bytes D (unat (ReservedSectors F) * bps F + 4 * c) 4)"

definition next_of :: "(nat \<Rightarrow> BYTE) \<Rightarrow> FAT_DATA \<Rightarrow> nat \<Rightarrow> nat" where
  "next_of D F c = fat_entry D F c mod 2 ^ 28"

definition ends_chain :: "nat \<Rightarrow> bool" where
  "ends_chain c \<longleftrightarrow> c = 0 \<or> 0x0FFFFFF7 \<le> c"

fun chain :: "(nat \<Rightarrow> BYTE) \<Rightarrow> FAT_DATA \<Rightarrow> nat list \<Rightarrow> bool" where
  "chain D F [] \<longleftrightarrow> False"
| "chain D F [c] \<longleftrightarrow> cluster_ok F c \<and> ends_chain (next_of D F c)"
| "chain D F (c # d # cs) \<longleftrightarrow> cluster_ok F c \<and> next_of D F c = d \<and> \<not> ends_chain d \<and> chain D F (d # cs)"

lemma length_disk_bytes [simp]: "length (disk_bytes D a n) = n"
  by (simp add: disk_bytes_def)

lemma disk_bytes_append: "disk_bytes D a (m + n) = disk_bytes D a m @ disk_bytes D (a + m) n"
  by (rule nth_equalityI) (auto simp: disk_bytes_def nth_append add.assoc)

lemma take_disk_bytes: "m \<le> n \<Longrightarrow> take m (disk_bytes D a n) = disk_bytes D a m"
  using disk_bytes_append [of D a m "n - m"] by simp

lemma take_disk_bytes_min: "take m (disk_bytes D a n) = disk_bytes D a (min n m)"
  by (cases "m \<le> n") (simp_all add: take_disk_bytes min_def)

lemma drop_disk_bytes: "m \<le> n \<Longrightarrow> drop m (disk_bytes D a n) = disk_bytes D (a + m) (n - m)"
  using disk_bytes_append [of D a m "n - m"] by simp

lemma le_value_less: "le_value bs < 256 ^ length bs"
proof (induction bs)
  case (Cons b bs)
  have "unat b < 256" using unsigned_less [where 'a = nat, of b] by simp
  moreover have "256 * le_value bs + 256 \<le> 256 * 256 ^ length bs" using Cons by simp
  ultimately show ?case by simp
qed simp

lemma fat_entry_less: "fat_entry D F c < 2 ^ 32"
  using le_value_less [of "disk_bytes D (unat (ReservedSectors F) * bps F + 4 * c) 4"] by (simp add: fat_entry_def)

lemma dword_at_disk:
  "j + 4 \<le> n \<Longrightarrow> dword_at (disk_bytes D a n) j = Some (of_nat (le_value (disk_bytes D (a + j) 4)))"
  by (simp add: dword_at_def read_le_at_def drop_disk_bytes take_disk_bytes)

lemma unat_BytesPerSector [simp]: "unat (ucast (BytesPerSector F) :: QWORD) = bps F"
  using unsigned_less [where 'a = nat, of "BytesPerSector F"] by (simp add: unat_ucast_mod bps_def)

lemma unat_SectorsPerCluster [simp]: "unat (ucast (SectorsPerCluster F) :: QWORD) = spc F"
  using unsigned_less [where 'a = nat, of "SectorsPerCluster F"] by (simp add: unat_ucast_mod spc_def)

lemma of_nat_geometry [simp]:
  "(of_nat (bps F) :: QWORD) = ucast (BytesPerSector F)" "(of_nat (spc F) :: QWORD) = ucast (SectorsPerCluster F)"
  by (metis of_nat_unat ucast_id unat_BytesPerSector, metis of_nat_unat ucast_id unat_SectorsPerCluster)

lemma NextClusterInChain_value:
  assumes vol: "volume_ok F" and rd: "good_reader D F rd" and pool: "\<forall>n. pool n" and c: "c \<le> clusters F + 1"
  shows "NextClusterInChain rd pool F (of_nat c) = Some (STATUS_SUCCESS, Some (of_nat (fat_entry D F c)))"
proof -
  let ?R = "unat (ReservedSectors F)" and ?B = "bps F"
  have B: "0 < ?B" "4 dvd ?B" and fat: "?R * ?B + 4 * (clusters F + 2) \<le> first_data F * ?B"
    using vol by (simp_all add: volume_ok_def)
  have "first_data F * ?B \<le> (first_data F + clusters F * spc F) * ?B" by (intro mult_right_mono) simp_all
  also have "\<dots> < 2 ^ 64" using vol unfolding volume_ok_def by linarith
  finally have room: "?R * ?B + 4 * (clusters F + 2) < 2 ^ 64" using fat by linarith
  have c4: "unat (4 * of_nat c :: QWORD) = 4 * c"
    using unat_of_nat_small [of "4 * c", where 'a = 64] room c by simp
  have nz: "(ucast (BytesPerSector F) :: QWORD) \<noteq> 0" using B(1) by (auto simp: word_unat_eq_iff)
  have div_mod: "(?R + 4 * c div ?B) * ?B + 4 * c mod ?B = ?R * ?B + 4 * c"
    by (simp add: add_mult_distrib)
  have le: "(?R + 4 * c div ?B) * ?B \<le> ?R * ?B + 4 * c" using div_mod by linarith
  have "?R + 4 * c div ?B \<le> (?R + 4 * c div ?B) * ?B" using B(1) by simp
  also note le
  also have tot: "?R * ?B + 4 * c < 2 ^ 64"
  proof (rule le_less_trans [OF _ room])
    have "4 * c \<le> 4 * (clusters F + 2)" using c by (intro mult_le_mono2) linarith
    then show "?R * ?B + 4 * c \<le> ?R * ?B + 4 * (clusters F + 2)" by (intro add_left_mono)
  qed
  finally have s: "?R + 4 * c div ?B < 2 ^ 64" .
  have R: "unat (ucast (ReservedSectors F) :: QWORD) = ?R"
    using unsigned_less [where 'a = nat, of "ReservedSectors F"] by (simp add: unat_ucast_mod)
  have sum: "unat (ucast (ReservedSectors F) + 4 * of_nat c div ucast (BytesPerSector F) :: QWORD) = ?R + 4 * c div ?B"
    using s by (subst unat_plus_simple) (simp_all add: unat_div c4 R)
  have off: "unat ((ucast (ReservedSectors F) + 4 * of_nat c div ucast (BytesPerSector F)) * ucast (BytesPerSector F) :: QWORD)
      = (?R + 4 * c div ?B) * ?B"
    by (subst unat_word_ariths(2)) (simp add: sum le_less_trans [OF le tot [simplified]] del: unat_plus_simple)
  have m: "unat (4 * of_nat c mod ucast (BytesPerSector F) :: QWORD) = 4 * c mod ?B" by (simp add: unat_mod c4)
  have in_sector: "4 * c mod ?B + 4 \<le> ?B"
  proof -
    obtain b where b: "?B = 4 * b" using B(2) by (elim dvdE)
    then have "4 * c mod ?B = 4 * (c mod b)" by simp
    moreover have "c mod b < b" using B(1) b by simp
    ultimately show ?thesis using b by linarith
  qed
  have "dword_at (disk_bytes D ((?R + 4 * c div ?B) * ?B) ?B) (4 * c mod ?B) = Some (of_nat (fat_entry D F c))"
    using in_sector by (simp add: dword_at_disk fat_entry_def div_mod)
  moreover have "(ucast (of_nat (fat_entry D F c) :: DWORD) :: QWORD) = of_nat (fat_entry D F c)"
    using fat_entry_less [of D F c] by (simp add: word_unat_eq_iff unat_ucast_mod unat_of_nat)
  moreover have "on_volume F ((?R + 4 * c div ?B) * ?B) ?B"
  proof -
    note le
    also have "?R * ?B + 4 * c < ?R * ?B + 4 * (clusters F + 2)" using c by simp
    also note fat
    finally have "?R + 4 * c div ?B + 1 \<le> first_data F + clusters F * spc F" by simp
    then have "(?R + 4 * c div ?B + 1) * ?B \<le> (first_data F + clusters F * spc F) * ?B" by (rule mult_right_mono) simp
    then show ?thesis using vol by (simp add: on_volume_def volume_ok_def)
  qed
  ultimately show ?thesis
    using rd pool nz
    by (simp add: NextClusterInChain_def fault_div_def fault_mod_def good_reader_def off m Let_def)
qed

lemma mask_cluster:
  assumes "e < 2 ^ 64"
  shows "of_nat e AND FAT32_CLUSTER_MASK = (of_nat (e mod 2 ^ 28) :: QWORD)"
proof -
  have "of_nat e AND FAT32_CLUSTER_MASK = take_bit 28 (of_nat e :: QWORD)"
    unfolding take_bit_eq_mask by (simp add: mask_eq_exp_minus_1)
  also have "\<dots> = of_nat (take_bit 28 e)"
    using assms by (simp add: word_unat_eq_iff unsigned_take_bit_eq unat_of_nat unat_mod take_bit_eq_mod mod_mod_cancel)
  finally show ?thesis by (simp add: take_bit_eq_mod)
qed

lemma next_of_less: "next_of D F c < 2 ^ 28"
  by (simp add: next_of_def)

definition sector_of :: "FAT_DATA \<Rightarrow> nat \<Rightarrow> nat \<Rightarrow> QWORD" where
  "sector_of F c k = of_nat (first_sector F c + k)"

lemma NextSectorInClusterChain_value:
  assumes vol: "volume_ok F" and rd: "good_reader D F rd" and pool: "\<forall>n. pool n" and c: "cluster_ok F c" and k: "k < spc F"
  shows "NextSectorInClusterChain rd pool F (sector_of F c k) =
      Some (if ends_chain (next_of D F c) then (STATUS_SUCCESS, Some 0) else FirstSectorOfCluster F (of_nat (next_of D F c)))"
proof -
  have "ClusterOfSector F (sector_of F c k) = Some (STATUS_SUCCESS, of_nat c)"
    unfolding sector_of_def by (rule ClusterOfSector_ok [OF vol c k])
  moreover have "NextClusterInChain rd pool F (of_nat c) = Some (STATUS_SUCCESS, Some (of_nat (fat_entry D F c)))"
    using c by (intro NextClusterInChain_value [OF vol rd pool]) (simp add: cluster_ok_def)
  moreover have "of_nat (fat_entry D F c) AND FAT32_CLUSTER_MASK = (of_nat (next_of D F c) :: QWORD)"
    using fat_entry_less [of D F c] unfolding next_of_def by (intro mask_cluster) simp
  moreover have "unat (of_nat (next_of D F c) :: QWORD) = next_of D F c"
    using next_of_less [of D F c] by (intro unat_of_nat_small) simp
  then have "((of_nat (next_of D F c) :: QWORD) \<ge> FAT32_BAD_CLUSTER \<or> 0 = (of_nat (next_of D F c) :: QWORD)) = ends_chain (next_of D F c)"
    by (auto simp: word_le_nat_alt word_unat_eq_iff ends_chain_def)
  ultimately show ?thesis by (simp add: NextSectorInClusterChain_def)
qed

lemma chain_cluster_ok: "chain D F cs \<Longrightarrow> c \<in> set cs \<Longrightarrow> cluster_ok F c"
  by (induction D F cs rule: chain.induct) auto

lemma chain_drop: "chain D F cs \<Longrightarrow> j < length cs \<Longrightarrow> chain D F (drop j cs)"
proof (induction cs arbitrary: j rule: induct_list012)
  case (3 c d cs)
  then show ?case by (cases j) simp_all
qed auto

lemma chain_step:
  assumes "volume_ok F" "good_reader D F rd" "\<forall>n. pool n" "k < spc F" and ch: "chain D F (c # cs)"
  shows "NextSectorInClusterChain rd pool F (sector_of F c k) =
      Some (STATUS_SUCCESS, Some (if cs = [] then 0 else sector_of F (hd cs) 0))"
proof -
  have c: "cluster_ok F c" using ch chain_cluster_ok by auto
  show ?thesis
  proof (cases cs)
    case Nil
    then show ?thesis using ch NextSectorInClusterChain_value [OF assms(1-3) c assms(4)] by simp
  next
    case (Cons d ds)
    then have "cluster_ok F d" using ch chain_cluster_ok by auto
    then have "FirstSectorOfCluster F (of_nat d) = (STATUS_SUCCESS, Some (sector_of F d 0))"
      unfolding sector_of_def add_0_right by (rule FirstSectorOfCluster_ok [OF assms(1)])
    then show ?thesis using ch Cons NextSectorInClusterChain_value [OF assms(1-3) c assms(4)] by simp
  qed
qed

lemma sector_of_nonzero:
  assumes "volume_ok F" "cluster_ok F c" "k < spc F" "0 < first_data F"
  shows "sector_of F c k \<noteq> 0"
proof -
  have "unat (sector_of F c k) = first_sector F c + k"
    using volume_less(3) [OF assms(1,2)] assms(3) unfolding sector_of_def by (intro unat_of_nat_small) simp
  then show ?thesis using assms(4) by (auto simp: word_unat_eq_iff first_sector_def)
qed

section \<open>Reading a file\<close>

definition cluster_data :: "(nat \<Rightarrow> BYTE) \<Rightarrow> FAT_DATA \<Rightarrow> nat \<Rightarrow> BYTE list" where
  "cluster_data D F c = disk_bytes D (first_sector F c * bps F) (spc F * bps F)"

definition file_data :: "(nat \<Rightarrow> BYTE) \<Rightarrow> FAT_DATA \<Rightarrow> nat list \<Rightarrow> BYTE list" where
  "file_data D F cs = concat (map (cluster_data D F) cs)"

lemma file_data_simps [simp]:
  "file_data D F [] = []" "file_data D F (c # cs) = cluster_data D F c @ file_data D F cs"
  "length (cluster_data D F c) = spc F * bps F"
  by (simp_all add: file_data_def cluster_data_def)

lemma length_file_data [simp]: "length (file_data D F cs) = length cs * (spc F * bps F)"
  by (induction cs) simp_all

lemma file_data_drop: "file_data D F (drop j cs) = drop (j * (spc F * bps F)) (file_data D F cs)"
proof (induction cs arbitrary: j)
  case (Cons c cs)
  then show ?case by (cases j) simp_all
qed simp

text \<open>The loop that skips whole clusters ends at the cluster of the offset, or with 0 at the end.\<close>

lemma skip_clusters_stops:
  assumes "r < spc F" and "t * spc F + r + spc F < 2 ^ 64"
  shows "skip_clusters rd pool F (of_nat (t * spc F + r)) s (of_nat (t * spc F)) = Some (STATUS_SUCCESS, s)"
proof -
  have "unat (of_nat (t * spc F) + ucast (SectorsPerCluster F) :: QWORD) = t * spc F + spc F"
    using assms(2) by (simp add: unat_word_ariths unat_of_nat del: of_nat_mult)
  moreover have "unat (of_nat (t * spc F + r) :: QWORD) = t * spc F + r"
    using assms(2) by (intro unat_of_nat_small) simp
  ultimately have "\<not> (of_nat (t * spc F) + ucast (SectorsPerCluster F) :: QWORD) \<le> of_nat (t * spc F + r)"
    using assms(1) unfolding word_le_nat_alt by linarith
  then show ?thesis by (subst skip_clusters.simps) (simp del: of_nat_add of_nat_mult)
qed

lemma skip_clusters_step:
  assumes "NextSectorInClusterChain rd pool F s = Some (STATUS_SUCCESS, Some s')" and "(t + Suc j) * spc F + r < 2 ^ 64"
  shows "skip_clusters rd pool F (of_nat ((t + Suc j) * spc F + r)) s (of_nat (t * spc F)) =
      skip_clusters rd pool F (of_nat ((Suc t + j) * spc F + r)) s' (of_nat (Suc t * spc F))"
proof -
  have u1: "unat (of_nat (t * spc F) + ucast (SectorsPerCluster F) :: QWORD) = t * spc F + spc F"
  proof -
    have "t * spc F + spc F \<le> (t + Suc j) * spc F + r" by (simp add: add_mult_distrib)
    then show ?thesis using assms(2) by (simp add: unat_word_ariths unat_of_nat del: of_nat_mult)
  qed
  have u2: "unat (of_nat ((t + Suc j) * spc F + r) :: QWORD) = (t + Suc j) * spc F + r"
    using assms(2) by (intro unat_of_nat_small) simp
  have go: "(of_nat (t * spc F) + ucast (SectorsPerCluster F) :: QWORD) \<le> of_nat ((t + Suc j) * spc F + r)"
    "(ucast (SectorsPerCluster F) :: QWORD) \<le> of_nat ((t + Suc j) * spc F + r)"
    unfolding word_le_nat_alt u1 u2 unat_SectorsPerCluster by (simp_all add: add_mult_distrib)
  have "(of_nat (t * spc F) + ucast (SectorsPerCluster F) :: QWORD) = of_nat (Suc t * spc F)" by (simp add: add.commute)
  moreover have e: "Suc t + j = t + Suc j" by simp
  ultimately show ?thesis
    unfolding e using go by (subst skip_clusters.simps) (simp add: assms(1) del: of_nat_add of_nat_mult add_Suc_right mult_Suc)
qed

lemma skip_clusters_walks:
  assumes fixed: "volume_ok F" "good_reader D F rd" "\<forall>n. pool n" and "chain D F cs" and "j \<le> length cs" and r: "r < spc F"
    and "(t + j) * spc F + r + spc F < 2 ^ 64"
  shows "skip_clusters rd pool F (of_nat ((t + j) * spc F + r)) (sector_of F (hd cs) 0) (of_nat (t * spc F)) =
      Some (STATUS_SUCCESS, if j < length cs then sector_of F (cs ! j) 0 else 0)"
  using assms(4-)
proof (induction j arbitrary: cs t)
  case 0
  then have "cs \<noteq> []" by auto
  then show ?case using skip_clusters_stops [of r F t] 0(3,4) by (simp add: hd_conv_nth del: of_nat_add of_nat_mult)
next
  case (Suc j)
  obtain c ds where cs: "cs = c # ds" using Suc.prems(2) by (cases cs) auto
  have room: "(t + Suc j) * spc F + r < 2 ^ 64" "(Suc t + j) * spc F + r + spc F < 2 ^ 64" using Suc.prems(4) by simp_all
  have k: "0 < spc F" using r by simp
  note nxt = chain_step [OF fixed k Suc.prems(1) [unfolded cs]]
  show ?case
  proof (cases "ds = []")
    case True
    then have "j = 0" using Suc.prems(2) by (simp add: cs)
    then show ?thesis
      using skip_clusters_step [OF _ room(1), of rd pool "sector_of F c 0" 0] nxt True
        skip_clusters_stops [of r F "Suc t"] r room(2) by (simp add: cs del: of_nat_add of_nat_mult mult_Suc)
  next
    case False
    have "chain D F ds" using chain_drop [OF Suc.prems(1), of 1] False by (simp add: cs)
    then have "skip_clusters rd pool F (of_nat ((Suc t + j) * spc F + r)) (sector_of F (hd ds) 0) (of_nat (Suc t * spc F)) =
        Some (STATUS_SUCCESS, if j < length ds then sector_of F (ds ! j) 0 else 0)"
      using Suc.IH [of ds "Suc t"] Suc.prems(2) r room(2) by (simp add: cs)
    then show ?thesis
      using skip_clusters_step [OF _ room(1), of rd pool "sector_of F c 0" "sector_of F (hd ds) 0"] nxt False
      by (simp add: cs del: of_nat_add of_nat_mult mult_Suc add_Suc_right)
  qed
qed

lemma read_sectors:
  assumes "volume_ok F" "good_reader D F rd" "cluster_ok F c" "k < spc F" "n < 2 ^ 64" and "0 < n"
    and room: "first_sector F c + k + min (spc F) n \<le> first_data F + clusters F * spc F"
  shows "rd (min (ucast (SectorsPerCluster F)) (of_nat n) * ucast (BytesPerSector F)) (sector_of F c k * ucast (BytesPerSector F)) asyn =
      (STATUS_SUCCESS, disk_bytes D ((first_sector F c + k) * bps F) (min (spc F) n * bps F))"
    and "of_nat (min (spc F) n * bps F) = (min (ucast (SectorsPerCluster F)) (of_nat n) * ucast (BytesPerSector F) :: QWORD)"
    and "(of_nat n - min (ucast (SectorsPerCluster F)) (of_nat n) :: QWORD) = of_nat (n - spc F)"
proof -
  have n: "unat (of_nat n :: QWORD) = n" using assms(5) by (intro unat_of_nat_small) simp
  have m: "(min (ucast (SectorsPerCluster F)) (of_nat n) :: QWORD) = of_nat (min (spc F) n)"
    by (simp add: min_def word_le_nat_alt n)
  show eq: "of_nat (min (spc F) n * bps F) = (min (ucast (SectorsPerCluster F)) (of_nat n) * ucast (BytesPerSector F) :: QWORD)"
    unfolding m by simp
  have "min (spc F) n * bps F \<le> bps F * spc F" by simp
  also have "\<dots> < 2 ^ 32" using assms(1) unfolding volume_ok_def by linarith
  finally have "unat (of_nat (min (spc F) n * bps F) :: QWORD) = min (spc F) n * bps F"
    by (intro unat_of_nat_small) simp
  then have u1: "unat (min (ucast (SectorsPerCluster F)) (of_nat n) * ucast (BytesPerSector F) :: QWORD) = min (spc F) n * bps F"
    unfolding eq .
  have "(first_sector F c + k) * bps F \<le> (first_sector F c + spc F) * bps F" using assms(4) by (intro mult_right_mono) simp_all
  also have "\<dots> < 2 ^ 64" by (rule volume_less(2) [OF assms(1,3)])
  finally have "unat (of_nat ((first_sector F c + k) * bps F) :: QWORD) = (first_sector F c + k) * bps F"
    by (intro unat_of_nat_small) simp
  then have u2: "unat (sector_of F c k * ucast (BytesPerSector F) :: QWORD) = (first_sector F c + k) * bps F"
    unfolding sector_of_def of_nat_mult of_nat_geometry .
  show "rd (min (ucast (SectorsPerCluster F)) (of_nat n) * ucast (BytesPerSector F)) (sector_of F c k * ucast (BytesPerSector F)) asyn =
      (STATUS_SUCCESS, disk_bytes D ((first_sector F c + k) * bps F) (min (spc F) n * bps F))"
  proof -
    have "(first_sector F c + k + min (spc F) n) * bps F \<le> (first_data F + clusters F * spc F) * bps F"
      using room by (rule mult_right_mono) simp
    then have "on_volume F ((first_sector F c + k) * bps F) (min (spc F) n * bps F)"
      using assms(1,4,6) by (simp add: on_volume_def add_mult_distrib volume_ok_def)
    then show ?thesis using assms(2) by (simp add: good_reader_def u1 u2)
  qed
  show "(of_nat n - min (ucast (SectorsPerCluster F)) (of_nat n) :: QWORD) = of_nat (n - spc F)"
    unfolding m by (subst of_nat_diff [symmetric]) (simp_all add: min_def)
qed

lemma of_nat_nonzero: "n < 2 ^ 64 \<Longrightarrow> (0 = (of_nat n :: QWORD)) = (n = 0)"
  using unat_of_nat_small [of n, where 'a = 64] by (auto simp: word_unat_eq_iff)

text \<open>The iterations after the first read the following clusters, from their starts.\<close>

lemma read_clusters_rest:
  assumes fixed: "volume_ok F" "good_reader D F rd" "\<forall>n. pool n" and nz: "0 < first_data F"
    and "chain D F (c # cs)" and "n < 2 ^ 64" and "k < spc F"
  shows "read_clusters rd pool F asyn T (sector_of F c k) (of_nat n) False buf =
      Some (STATUS_SUCCESS, buf @ take (n * bps F) (file_data D F cs), Some (T - of_nat (n - spc F * length cs)))"
  using assms(5-)
proof (induction cs arbitrary: c n k buf)
  case Nil
  then show ?case
    using chain_step [OF fixed Nil(3,1)] of_nat_nonzero [OF Nil(2)] by (subst read_clusters.simps) simp
next
  case (Cons d cs)
  have d: "chain D F (d # cs)" "cluster_ok F d" using Cons.prems(1) chain_cluster_ok by auto
  have spc: "0 < spc F" using Cons.prems(3) by simp
  show ?case
  proof (cases "n = 0")
    case True
    then show ?thesis by (subst read_clusters.simps) simp
  next
    case False
    have "first_sector F d + 0 + min (spc F) n \<le> first_data F + clusters F * spc F"
      using volume_less(1) [OF fixed(1) d(2)] by simp
    note rs = read_sectors [OF fixed(1,2) d(2) spc Cons.prems(2) _ this]
    have len: "min (spc F) n * bps F = min (spc F * bps F) (n * bps F)" by (auto simp: min_def)
    have data: "disk_bytes D (first_sector F d * bps F) (min (spc F) n * bps F) = take (n * bps F) (cluster_data D F d)"
      unfolding cluster_data_def len by (simp add: take_disk_bytes_min)
    have "read_clusters rd pool F asyn T (sector_of F c k) (of_nat n) False buf =
        read_clusters rd pool F asyn T (sector_of F d 0) (of_nat (n - spc F)) False (buf @ take (n * bps F) (cluster_data D F d))"
      using chain_step [OF fixed Cons.prems(3,1)] of_nat_nonzero [OF Cons.prems(2)] False
        sector_of_nonzero [OF fixed(1) d(2) spc nz]
      by (subst read_clusters.simps) (simp add: rs data rs(2) [unfolded len])
    also have "\<dots> = Some (STATUS_SUCCESS, (buf @ take (n * bps F) (cluster_data D F d)) @ take ((n - spc F) * bps F) (file_data D F cs),
        Some (T - of_nat (n - spc F - spc F * length cs)))"
      using Cons.IH [OF d(1) _ spc] Cons.prems(2) by simp
    finally show ?thesis by (simp add: diff_mult_distrib diff_diff_left)
  qed
qed

text \<open>What \<open>FatReadFile\<close> reads at any offset inside the file: a cluster from the sector, then the next ones.\<close>

lemma FatReadFile_reads:
  assumes fixed: "volume_ok F" "good_reader D F rd" "\<forall>n. pool n" and nz: "0 < first_data F"
    and cs: "chain D F cs" "j < length cs" and r: "r < spc F" and off: "j * spc F + r + spc F < 2 ^ 64" and n: "n < 2 ^ 64"
    and room: "first_sector F (cs ! j) + r + min (spc F) n \<le> first_data F + clusters F * spc F"
    and al: "IsAddressAligned (sector_of F (hd cs) 0) (ucast (SectorsPerCluster F))"
  shows "FatReadFile rd pool F (sector_of F (hd cs) 0) (of_nat (j * spc F + r)) (of_nat n) asyn =
      Some (STATUS_SUCCESS, disk_bytes D ((first_sector F (cs ! j) + r) * bps F) (min (spc F) n * bps F) @
        take ((n - spc F) * bps F) (file_data D F (drop (Suc j) cs)), Some (of_nat (min n (spc F * (length cs - j)))))"
proof -
  have c: "cluster_ok F (cs ! j)" using chain_cluster_ok [OF cs(1)] cs(2) by simp
  have spc: "0 < spc F" using r by simp
  have dr: "drop j cs = cs ! j # drop (Suc j) cs" using cs(2) by (simp add: Cons_nth_drop_Suc)
  have tail: "chain D F (cs ! j # drop (Suc j) cs)" using chain_drop [OF cs] unfolding dr .
  have skip: "skip_clusters rd pool F (of_nat (j * spc F + r)) (sector_of F (hd cs) 0) 0 = Some (STATUS_SUCCESS, sector_of F (cs ! j) 0)"
    using skip_clusters_walks [OF fixed cs(1) less_imp_le [OF cs(2)] r, of 0] off cs(2) by simp
  have "unat (of_nat (j * spc F + r) mod ucast (SectorsPerCluster F) :: QWORD) = r"
    using off r unat_of_nat_small [of "j * spc F + r", where 'a = 64] by (simp add: unat_mod del: of_nat_add of_nat_mult)
  then have rest: "fault_mod (of_nat (j * spc F + r)) (ucast (SectorsPerCluster F)) = Some (of_nat r :: QWORD)"
    using spc by (auto simp: fault_mod_def word_unat_eq_iff simp del: of_nat_add of_nat_mult) (metis of_nat_unat ucast_id)
  have sum: "sector_of F (cs ! j) 0 + of_nat r = sector_of F (cs ! j) r" by (simp add: sector_of_def)
  note rs = read_sectors [OF fixed(1,2) c r n _ room]
  have "read_clusters rd pool F asyn (of_nat n) (sector_of F (cs ! j) r) (of_nat n) True [] =
      Some (STATUS_SUCCESS, disk_bytes D ((first_sector F (cs ! j) + r) * bps F) (min (spc F) n * bps F) @
        take ((n - spc F) * bps F) (file_data D F (drop (Suc j) cs)), Some (of_nat n - of_nat (n - spc F - spc F * length (drop (Suc j) cs))))"
  proof (cases "n = 0")
    case True
    then show ?thesis by (subst read_clusters.simps) (simp add: disk_bytes_def)
  next
    case False
    then show ?thesis
      using read_clusters_rest [OF fixed nz tail _ r, of "n - spc F"] n of_nat_nonzero [OF n]
      by (subst read_clusters.simps) (simp add: rs rs(2) [simplified])
  qed
  moreover have "n - spc F - spc F * length (drop (Suc j) cs) = n - spc F * (length cs - j)"
  proof -
    have "length cs - j = Suc (length cs - Suc j)" using cs(2) by simp
    then show ?thesis by (simp add: diff_diff_left)
  qed
  moreover have "(of_nat n - of_nat (n - spc F * (length cs - j)) :: QWORD) = of_nat (min n (spc F * (length cs - j)))"
    by (subst of_nat_diff [symmetric]) (simp_all add: min_def)
  ultimately show ?thesis
    using al skip rest sum sector_of_nonzero [OF fixed(1) c spc nz]
    by (simp add: FatReadFile_def del: of_nat_add of_nat_mult)
qed

lemma FatReadFile_aligned:
  assumes "volume_ok F" "good_reader D F rd" "\<forall>n. pool n" "0 < first_data F" "chain D F cs" "j < length cs"
    and "Suc j * spc F < 2 ^ 64" "n < 2 ^ 64" "IsAddressAligned (sector_of F (hd cs) 0) (ucast (SectorsPerCluster F))"
  shows "FatReadFile rd pool F (sector_of F (hd cs) 0) (of_nat (j * spc F)) (of_nat n) asyn =
      Some (STATUS_SUCCESS, take (n * bps F) (drop (j * spc F * bps F) (file_data D F cs)), Some (of_nat (min n (spc F * (length cs - j)))))"
proof -
  have spc: "0 < spc F" using assms(1) by (simp add: volume_ok_def)
  have "cluster_ok F (cs ! j)" using chain_cluster_ok [OF assms(5)] assms(6) by simp
  then have room: "first_sector F (cs ! j) + 0 + min (spc F) n \<le> first_data F + clusters F * spc F"
    using volume_less(1) [OF assms(1)] by fastforce
  have "disk_bytes D (first_sector F (cs ! j) * bps F) (min (spc F) n * bps F) = take (n * bps F) (cluster_data D F (cs ! j))"
    unfolding cluster_data_def take_disk_bytes_min by (cases "n \<le> spc F") (auto simp: min_def)
  moreover have "drop (j * spc F * bps F) (file_data D F cs) = cluster_data D F (cs ! j) @ file_data D F (drop (Suc j) cs)"
    using assms(6) file_data_drop [of D F j cs] by (simp add: Cons_nth_drop_Suc [symmetric] mult.assoc)
  ultimately show ?thesis
    using FatReadFile_reads [OF assms(1-6) spc _ assms(8) room assms(9)] assms(7) by (simp add: diff_mult_distrib)
qed

text \<open>A small volume: two sectors of four bytes in a cluster, and the file of the clusters 2 and 4.\<close>

definition small_volume :: FAT_DATA where
  "small_volume = \<lparr>CountOfClusters = 5, RootDirectoryStartSector = 10, ReservedSectors = 1, FirstDataSector = 10,
     SectorsPerCluster = 2, BytesPerSector = 4, EntriesPerSector = 0, AllocationSize = 8\<rparr>"

definition small_disk :: "nat \<Rightarrow> BYTE" where
  "small_disk i = (if 12 \<le> i \<and> i < 24 then [4, 0, 0, 0, 0, 0, 0, 0, 0xFF, 0xFF, 0xFF, 0x0F] ! (i - 12) else of_nat i)"

definition disk_reader :: "(nat \<Rightarrow> BYTE) \<Rightarrow> device_reader" where
  "disk_reader D n offset asyn = (STATUS_SUCCESS, disk_bytes D (unat offset) (unat n))"

lemma small_volume_facts:
  "spc small_volume = 2" "bps small_volume = 4" "clusters small_volume = 5" "first_data small_volume = 10"
  "volume_ok small_volume" "first_sector small_volume 2 = 10" "first_sector small_volume 4 = 14"
  "first_sector small_volume 5 = 16" "SectorsPerCluster small_volume = 2"
  by (simp_all add: volume_ok_def spc_def bps_def clusters_def first_data_def first_sector_def small_volume_def)

lemma good_disk_reader: "good_reader D F (disk_reader D)"
  by (simp add: good_reader_def disk_reader_def)

lemma small_chain: "chain small_disk small_volume [2, 4]"
  by (simp add: cluster_ok_def small_volume_facts next_of_def fat_entry_def ends_chain_def disk_bytes_def upt_rec
      small_disk_def) (simp add: small_volume_def)

lemma small_aligned: "IsAddressAligned (sector_of small_volume 2 0) 2"
  by (simp add: IsAddressAligned_def sector_of_def small_volume_facts)

text \<open>
  C31. A read of a file at the start of one of its clusters returns exactly the contents of the file: the
  sectors asked for, as far as the chain of clusters goes, and their number. The clusters may lie
  anywhere on the volume.
\<close>

theorem FatReadFile_contents:
  assumes "volume_ok F" "good_reader D F rd" "\<forall>n. pool n" "0 < first_data F"
    and "chain D F cs" "j < length cs" "Suc j * spc F < 2 ^ 64" "n < 2 ^ 64"
    and "IsAddressAligned (sector_of F (hd cs) 0) (ucast (SectorsPerCluster F))"
  shows "FatReadFile rd pool F (sector_of F (hd cs) 0) (of_nat (j * spc F)) (of_nat n) asyn =
      Some (STATUS_SUCCESS, take (n * bps F) (drop (j * spc F * bps F) (concat (map (cluster_data D F) cs))),
        Some (of_nat (min n (spc F * (length cs - j)))))"
  using FatReadFile_aligned [OF assms] unfolding file_data_def .

lemma FatReadFile_contents_witness:
  "FatReadFile (disk_reader small_disk) (\<lambda>n. True) small_volume 10 0 3 True =
      Some (STATUS_SUCCESS, map small_disk ([40 ..< 48] @ [56 ..< 60]), Some 3)"
proof -
  have "FatReadFile (disk_reader small_disk) (\<lambda>n. True) small_volume (sector_of small_volume (hd [2, 4]) 0)
      (of_nat (0 * spc small_volume)) (of_nat 3) True =
    Some (STATUS_SUCCESS, take (3 * bps small_volume) (drop (0 * spc small_volume * bps small_volume)
        (concat (map (cluster_data small_disk small_volume) [2, 4]))),
      Some (of_nat (min 3 (spc small_volume * (length [2::nat, 4] - 0)))))"
    by (rule FatReadFile_contents [OF small_volume_facts(5) good_disk_reader _ _ small_chain])
       (simp_all add: small_volume_facts small_aligned)
  then show ?thesis by (simp add: small_volume_facts sector_of_def cluster_data_def disk_bytes_def upt_rec)
qed

text \<open>
  C32. A read whose offset is not a multiple of the cluster size does not stop at the end of the cluster:
  from the last cluster of a file it returns the sectors after the offset followed by the first sectors
  of the next cluster on the volume, which belongs to another file or none, and reports them as read.
\<close>

theorem FatReadFile_crosses_cluster:
  assumes "volume_ok F" "good_reader D F rd" "\<forall>n. pool n" "0 < first_data F"
    and "chain D F cs" "cluster_ok F (last cs + 1)" "0 < r" "r < spc F" "length cs * spc F + r < 2 ^ 64"
    and "IsAddressAligned (sector_of F (hd cs) 0) (ucast (SectorsPerCluster F))"
  shows "FatReadFile rd pool F (sector_of F (hd cs) 0) (of_nat ((length cs - 1) * spc F + r)) (of_nat (spc F)) asyn =
      Some (STATUS_SUCCESS, drop (r * bps F) (cluster_data D F (last cs)) @ take (r * bps F) (cluster_data D F (last cs + 1)),
        Some (of_nat (spc F)))"
proof -
  have cs: "cs \<noteq> []" using assms(5) by auto
  have c: "cluster_ok F (last cs)" using chain_cluster_ok [OF assms(5)] cs by simp
  have l: "length cs * spc F = (length cs - 1) * spc F + spc F" using cs by (cases cs) simp_all
  have one: "length cs - (length cs - 1) = 1" using cs by (cases cs) simp_all
  have s: "spc F < 2 ^ 64" using unsigned_less [where 'a = nat, of "SectorsPerCluster F"] by (simp add: spc_def)
  obtain m where m: "last cs = m + 2" using c by (metis cluster_ok_def le_add_diff_inverse2)
  have "(first_sector F (last cs) + r) * bps F + (spc F - r) * bps F = (first_sector F (last cs) + r + (spc F - r)) * bps F"
    by (simp add: add_mult_distrib)
  also have "first_sector F (last cs) + r + (spc F - r) = first_sector F (last cs + 1)"
    using assms(8) by (simp add: first_sector_def m)
  finally have "(first_sector F (last cs) + r) * bps F + (spc F - r) * bps F = first_sector F (last cs + 1) * bps F" .
  moreover have "disk_bytes D ((first_sector F (last cs) + r) * bps F) (spc F * bps F) =
      disk_bytes D ((first_sector F (last cs) + r) * bps F) ((spc F - r) * bps F + r * bps F)"
    using assms(8) by (simp add: add_mult_distrib [symmetric])
  ultimately have "disk_bytes D ((first_sector F (last cs) + r) * bps F) (spc F * bps F) =
      drop (r * bps F) (cluster_data D F (last cs)) @ take (r * bps F) (cluster_data D F (last cs + 1))"
    using assms(8) unfolding disk_bytes_append cluster_data_def take_disk_bytes_min
    by (simp add: drop_disk_bytes min_def diff_mult_distrib add_mult_distrib)
  moreover have "first_sector F (cs ! (length cs - 1)) + r + min (spc F) (spc F) \<le> first_data F + clusters F * spc F"
  proof -
    have "cs ! (length cs - 1) = m + 2" using m cs by (simp add: last_conv_nth)
    then show ?thesis using volume_less(1) [OF assms(1,6)] assms(8) by (simp add: first_sector_def m)
  qed
  ultimately show ?thesis
    using FatReadFile_reads [OF assms(1-5) _ assms(8) _ s _ assms(10), of "length cs - 1" asyn] cs l one assms(9)
    by (simp add: last_conv_nth del: of_nat_add of_nat_mult)
qed

lemma FatReadFile_crosses_cluster_witness:
  "FatReadFile (disk_reader small_disk) (\<lambda>n. True) small_volume 10 3 2 True =
      Some (STATUS_SUCCESS, map small_disk ([60 ..< 64] @ [64 ..< 68]), Some 2)"
proof -
  have "FatReadFile (disk_reader small_disk) (\<lambda>n. True) small_volume (sector_of small_volume (hd [2, 4]) 0)
      (of_nat ((length [2::nat, 4] - 1) * spc small_volume + 1)) (of_nat (spc small_volume)) True =
    Some (STATUS_SUCCESS, drop (1 * bps small_volume) (cluster_data small_disk small_volume (last [2, 4])) @
        take (1 * bps small_volume) (cluster_data small_disk small_volume (last [2, 4] + 1)),
      Some (of_nat (spc small_volume)))"
    by (rule FatReadFile_crosses_cluster [OF small_volume_facts(5) good_disk_reader _ _ small_chain])
       (simp_all add: small_volume_facts small_aligned cluster_ok_def)
  then show ?thesis by (simp add: small_volume_facts sector_of_def cluster_data_def disk_bytes_def upt_rec)
qed

text \<open>
  A read that starts at or behind the end of the last cluster of a file does not report an end of file:
  the walk along the chain ends with the sector 0 and the assertion on it halts the system.
\<close>

theorem FatReadFile_end_halts:
  assumes "volume_ok F" "good_reader D F rd" "\<forall>n. pool n" "chain D F cs" "r < spc F" "Suc (length cs) * spc F + r < 2 ^ 64"
  shows "FatReadFile rd pool F (sector_of F (hd cs) 0) (of_nat (length cs * spc F + r)) n asyn = None"
proof -
  have "skip_clusters rd pool F (of_nat (length cs * spc F + r)) (sector_of F (hd cs) 0) 0 = Some (STATUS_SUCCESS, 0)"
    using skip_clusters_walks [OF assms(1-4) order_refl assms(5), of 0] assms(6) by simp
  then show ?thesis by (simp add: FatReadFile_def ASSERT_def del: of_nat_add of_nat_mult)
qed

lemma FatReadFile_end_halts_witness:
  "FatReadFile (disk_reader small_disk) (\<lambda>n. True) small_volume 10 4 1 True = None"
proof -
  have "FatReadFile (disk_reader small_disk) (\<lambda>n. True) small_volume (sector_of small_volume (hd [2, 4]) 0)
      (of_nat (length [2::nat, 4] * spc small_volume + 0)) 1 True = None"
    by (rule FatReadFile_end_halts [OF small_volume_facts(5) good_disk_reader _ small_chain]) (simp_all add: small_volume_facts)
  then show ?thesis by (simp add: small_volume_facts sector_of_def)
qed

end
