(* ===== verification/FatSearch.thy ===== *)
theory FatSearch
  imports FatDir
begin

text \<open>
  Looking a name up in a directory. The reference walks the list of the directory's entries; the driver
  walks clusters, sectors and indexes and gives the same answer.
\<close>

section \<open>The entries of a directory\<close>

definition epc :: "FAT_DATA \<Rightarrow> nat" where "epc F = unat (entries_per_cluster F)"

definition directory_ok :: "FAT_DATA \<Rightarrow> bool" where
  "directory_ok F \<longleftrightarrow> volume_ok F \<and> 0 < first_data F \<and> 0 < epc F \<and> epc F * 32 = spc F * bps F"

definition entry_at :: "(nat \<Rightarrow> BYTE) \<Rightarrow> FAT_DATA \<Rightarrow> nat \<Rightarrow> nat \<Rightarrow> DIR_ENTRY" where
  "entry_at D F c i = the (get_entry (cluster_data D F c) i)"

definition directory :: "(nat \<Rightarrow> BYTE) \<Rightarrow> FAT_DATA \<Rightarrow> nat list \<Rightarrow> (QWORD \<times> nat \<times> DIR_ENTRY) list" where
  "directory D F cs = concat (map (\<lambda>c. map (\<lambda>i. (sector_of F c 0, i, entry_at D F c i)) [0 ..< epc F]) cs)"

definition matches :: "BYTE list \<Rightarrow> DIR_ENTRY \<Rightarrow> bool" where
  "matches Name e \<longleftrightarrow> \<not> is_skipped e \<and>
     map_option (map tolower) (fst (snd (ConvertFatNameToName (DIR_Name e) 16))) = Some (map tolower Name)"

text \<open>
  The reference: the list of entries runs up to the first end mark, wherever it is; the first entry
  before it that matches is the answer.
\<close>

definition is_end :: "QWORD \<times> nat \<times> DIR_ENTRY \<Rightarrow> bool" where
  "is_end = (\<lambda>(s, i, e). hd (DIR_Name e) = FREE_ALL)"

fun lookup_entry :: "BYTE list \<Rightarrow> (QWORD \<times> nat \<times> DIR_ENTRY) list \<Rightarrow> (QWORD \<times> DIR_ENTRY) option" where
  "lookup_entry Name [] = None"
| "lookup_entry Name ((s, i, e) # es) =
     (if is_end (s, i, e) then None
      else if matches Name e then Some (s, e) else lookup_entry Name es)"

text \<open>
  What the loops do: the mark is tested behind the body, so it is not seen at the start of a cluster.
\<close>

fun walk_entry :: "BYTE list \<Rightarrow> (QWORD \<times> nat \<times> DIR_ENTRY) list \<Rightarrow> (QWORD \<times> DIR_ENTRY) option" where
  "walk_entry Name [] = None"
| "walk_entry Name ((s, i, e) # es) =
     (if hd (DIR_Name e) = FREE_ALL \<and> i \<noteq> 0 then None
      else if matches Name e then Some (s, e) else walk_entry Name es)"

text \<open>
  The two agree on a name unless the end mark is the first entry of a cluster and it or what is left
  behind it has the name. In a cluster that was cleared before it was used nothing is left there.
\<close>

definition no_leftover :: "BYTE list \<Rightarrow> (QWORD \<times> nat \<times> DIR_ENTRY) list \<Rightarrow> bool" where
  "no_leftover Name es \<longleftrightarrow> (case dropWhile (Not \<circ> is_end) es of
     [] \<Rightarrow> True
   | (s, i, e) # rest \<Rightarrow> i \<noteq> 0 \<or> (\<forall>(s', i', e') \<in> set ((s, i, e) # rest). \<not> matches Name e'))"

lemma walk_entry_None: "\<forall>(s, i, e) \<in> set es. \<not> matches Name e \<Longrightarrow> walk_entry Name es = None"
  by (induction Name es rule: walk_entry.induct) auto

lemma walk_entry_lookup: "no_leftover Name es \<Longrightarrow> walk_entry Name es = lookup_entry Name es"
proof (induction Name es rule: lookup_entry.induct)
  case (2 Name s i e es)
  show ?case
  proof (cases "is_end (s, i, e)")
    case True
    then have "i \<noteq> 0 \<or> (\<forall>(s', i', e') \<in> set ((s, i, e) # es). \<not> matches Name e')"
      using "2.prems" by (simp add: no_leftover_def)
    then show ?thesis
      using True walk_entry_None [of "(s, i, e) # es" Name] by (auto simp: is_end_def)
  next
    case False
    then show ?thesis using 2 by (simp add: no_leftover_def is_end_def)
  qed
qed simp

definition answer :: "FAT_DATA \<Rightarrow> DWORD \<Rightarrow> BYTE \<Rightarrow> FILE_INFORMATION option \<Rightarrow> (QWORD \<times> DIR_ENTRY) option \<Rightarrow> search_result option" where
  "answer F alig T fi r = (case r of None \<Rightarrow> Some (leave_search STATUS_FILE_NOT_FOUND) | Some (s, e) \<Rightarrow> found_entry F alig T fi s e)"

lemma last_space_le: "l \<le> 8 \<Longrightarrow> last_space cs i l \<le> 8"
  by (induction cs i l rule: last_space.induct) auto

lemma ConvertFatNameToName_succeeds: "fst (ConvertFatNameToName nm 16) = STATUS_SUCCESS"
proof -
  have "length (c_string (take (last_space (take 8 nm) 0 8) nm)) \<le> 8"
    using length_takeWhile_le [of "\<lambda>b. b \<noteq> 0" "take (last_space (take 8 nm) 0 8) nm"] last_space_le [of 8 "take 8 nm" 0]
    by (simp add: c_string_def)
  moreover have "length (takeWhile (\<lambda>c. c \<noteq> 0x20) (take 3 (drop 8 nm))) \<le> 3"
    using length_takeWhile_le [of "\<lambda>c. c \<noteq> 0x20" "take 3 (drop 8 nm)"] by simp
  ultimately show ?thesis by (simp add: ConvertFatNameToName_def Let_def)
qed

lemma epc_less: "epc F < 2 ^ 32"
  using unsigned_less [where 'a = nat, of "entries_per_cluster F"] by (simp add: epc_def)

lemma get_entry_at:
  assumes "directory_ok F" "i < epc F"
  shows "get_entry (cluster_data D F c) i = Some (entry_at D F c i)"
    and "first_byte behind (cluster_data D F c) (of_nat i) = hd (DIR_Name (entry_at D F c i))"
proof -
  have len: "i * 32 + 32 \<le> length (cluster_data D F c)"
    using assms by (simp add: directory_ok_def mult_Suc [symmetric] del: mult_Suc)
  have r: "read_le_at (cluster_data D F c) (i * 32 + k) n \<noteq> None" if "k + n \<le> 32" for k n
    using that len by (simp add: read_le_at_def)
  have "get_entry (cluster_data D F c) i \<noteq> None \<and>
      DIR_Name (the (get_entry (cluster_data D F c) i)) = take 11 (drop (i * 32) (cluster_data D F c))"
    using r [of 11 1] r [of 12 1] r [of 13 1] r [of 14 2] r [of 16 2] r [of 18 2] r [of 20 2] r [of 22 2] r [of 24 2] r [of 26 2] r [of 28 4]
    by (auto simp: get_entry_def sizeof_DIR_ENTRY_def byte_at_def word_at_def dword_at_def Let_def)
  then have e: "get_entry (cluster_data D F c) i = Some (entry_at D F c i)"
    and nm: "DIR_Name (entry_at D F c i) = take 11 (drop (i * 32) (cluster_data D F c))"
    by (auto simp: entry_at_def)
  show "get_entry (cluster_data D F c) i = Some (entry_at D F c i)" by (rule e)
  have "unat (of_nat i :: DWORD) = i" using assms(2) epc_less [of F] by (intro unat_of_nat_small) simp
  moreover obtain b bs where "drop (i * 32) (cluster_data D F c) = b # bs"
    using len by (cases "drop (i * 32) (cluster_data D F c)") auto
  ultimately show "first_byte behind (cluster_data D F c) (of_nat i) = hd (DIR_Name (entry_at D F c i))"
    using len by (simp add: first_byte_def sizeof_DIR_ENTRY_def byte_at_def read_le_at_def nm)
qed


lemma read_cluster:
  assumes "volume_ok F" "good_reader D F rd" "cluster_ok F c"
  shows "rd (cluster_bytes F) (sector_of F c 0 * ucast (BytesPerSector F)) asyn = (STATUS_SUCCESS, cluster_data D F c)"
    and "of_nat (length (cluster_data D F c)) = cluster_bytes F"
proof -
  have lt: "bps F * spc F < 2 ^ 32" using assms(1) unfolding volume_ok_def by linarith
  then have "unat (BytesPerSector F * SectorsPerCluster F) = bps F * spc F"
    by (subst unat_word_ariths(2)) (simp add: bps_def spc_def)
  then have cb: "unat (cluster_bytes F) = spc F * bps F"
    using lt by (simp add: cluster_bytes_def unat_ucast_mod mult.commute)
  have "first_sector F c * bps F \<le> (first_sector F c + spc F) * bps F" by (intro mult_right_mono) simp_all
  also have "\<dots> < 2 ^ 64" by (rule volume_less(2) [OF assms(1,3)])
  finally have "unat (of_nat (first_sector F c * bps F) :: QWORD) = first_sector F c * bps F"
    by (intro unat_of_nat_small) simp
  then have "unat (sector_of F c 0 * ucast (BytesPerSector F) :: QWORD) = first_sector F c * bps F"
    unfolding sector_of_def of_nat_mult of_nat_geometry add_0_right .
  then show "rd (cluster_bytes F) (sector_of F c 0 * ucast (BytesPerSector F)) asyn = (STATUS_SUCCESS, cluster_data D F c)"
    using assms(2) on_volume_cluster [OF assms(1,3)] by (simp add: good_reader_def cb cluster_data_def)
  have "(of_nat (unat (cluster_bytes F)) :: QWORD) = cluster_bytes F" by simp
  then show "of_nat (length (cluster_data D F c)) = cluster_bytes F" by (simp only: cb file_data_simps)
qed

text \<open>What the loops do with the entry \<open>i\<close> of the cluster \<open>c\<close>, once it is in memory.\<close>

definition visit ::
    "FAT_DATA \<Rightarrow> DWORD \<Rightarrow> BYTE list \<Rightarrow> BYTE \<Rightarrow> FILE_INFORMATION option \<Rightarrow> (nat \<Rightarrow> BYTE) \<Rightarrow> nat \<Rightarrow> nat \<Rightarrow>
     (search_result + QWORD \<times> BYTE list \<times> DWORD) option" where
  "visit F alig Name T fi D c i =
     (if matches Name (entry_at D F c i) then map_option Inl (found_entry F alig T fi (sector_of F c 0) (entry_at D F c i))
      else Some (Inr (sector_of F c 0, cluster_data D F c, of_nat (Suc i))))"

lemma directory_okD:
  assumes "directory_ok F"
  shows "volume_ok F" "0 < first_data F" "0 < epc F" "0 < spc F"
  using assms by (auto simp: directory_ok_def volume_ok_def)

lemma index_mod:
  assumes "directory_ok F" and "i \<le> epc F"
  shows "fault_mod (of_nat i) (entries_per_cluster F) = Some (if i = epc F then 0 else of_nat i)"
    and "0 < i \<Longrightarrow> i < epc F \<Longrightarrow> (of_nat i :: DWORD) \<noteq> 0"
proof -
  have u: "unat (of_nat i :: DWORD) = i" using assms(2) epc_less [of F] by (intro unat_of_nat_small) simp
  have "entries_per_cluster F \<noteq> 0" using directory_okD(3) [OF assms(1)] by (auto simp: epc_def)
  moreover have "(of_nat i mod entries_per_cluster F) = (if i = epc F then 0 else of_nat i)"
    using assms(2) by (auto simp: word_unat_eq_iff unat_mod u epc_def)
  ultimately show "fault_mod (of_nat i) (entries_per_cluster F) = Some (if i = epc F then 0 else of_nat i)"
    by (simp add: fault_mod_def)
  show "0 < i \<Longrightarrow> i < epc F \<Longrightarrow> (of_nat i :: DWORD) \<noteq> 0" using u by auto
qed

lemma search_step_visits:
  assumes dir: "directory_ok F" and rd: "good_reader D F rd" and pool: "\<forall>n. pool n" and c: "cluster_ok F c"
  shows "0 < i \<Longrightarrow> i < epc F \<Longrightarrow>
      search_step rd pool F alig Name T fi (sector_of F c 0) (Some (cluster_data D F c)) (of_nat i) = visit F alig Name T fi D c i"
    and "search_step rd pool F alig Name T fi (sector_of F c 0) None 0 = visit F alig Name T fi D c 0"
proof -
  have u: "unat (of_nat i :: DWORD) = i" if "i < epc F" for i using that epc_less [of F] by (intro unat_of_nat_small) simp
  show "search_step rd pool F alig Name T fi (sector_of F c 0) (Some (cluster_data D F c)) (of_nat i) = visit F alig Name T fi D c i"
    if i: "0 < i" "i < epc F"
    using index_mod [OF dir, of i] i u [OF i(2)] get_entry_at(1) [OF dir i(2)] ConvertFatNameToName_succeeds [of "DIR_Name (entry_at D F c i)"]
    by (auto simp: search_step_def visit_def matches_def add.commute Let_def split: prod.splits)
  show "search_step rd pool F alig Name T fi (sector_of F c 0) None 0 = visit F alig Name T fi D c 0"
    using index_mod [OF dir, of 0] directory_okD(3) [OF dir] get_entry_at(1) [OF dir directory_okD(3) [OF dir]] ConvertFatNameToName_succeeds [of "DIR_Name (entry_at D F c 0)"]
      read_cluster [OF directory_okD(1) [OF dir] rd c] pool
    by (auto simp: search_step_def next_cluster_def visit_def matches_def Let_def split: prod.splits)
qed


text \<open>The condition of the loop, then its body, from the entry \<open>i\<close> of the cluster \<open>c\<close>.\<close>

definition search_on ::
    "device_reader \<Rightarrow> (QWORD \<Rightarrow> bool) \<Rightarrow> FAT_DATA \<Rightarrow> DWORD \<Rightarrow> BYTE \<Rightarrow> BYTE list \<Rightarrow> BYTE \<Rightarrow> FILE_INFORMATION option \<Rightarrow>
     (search_result + QWORD \<times> BYTE list \<times> DWORD) \<Rightarrow> search_result option" where
  "search_on rd pool F alig behind Name T fi r =
     (case r of Inl result \<Rightarrow> Some result
      | Inr (s, bytes, index) \<Rightarrow>
          if FREE_ALL \<noteq> first_byte behind bytes index then search_loop rd pool F alig behind Name T fi s (Some bytes) index
          else Some (leave_search STATUS_FILE_NOT_FOUND))"

lemma search_loop_on:
  "search_loop rd pool F alig behind Name T fi s pEntry index =
     search_step rd pool F alig Name T fi s pEntry index \<bind> search_on rd pool F alig behind Name T fi"
  by (subst search_loop.simps) (simp add: search_on_def [abs_def])

text \<open>The entries of \<open>c\<close> from the index \<open>i\<close> on.\<close>

definition entries_from :: "(nat \<Rightarrow> BYTE) \<Rightarrow> FAT_DATA \<Rightarrow> nat \<Rightarrow> nat \<Rightarrow> (QWORD \<times> nat \<times> DIR_ENTRY) list" where
  "entries_from D F c i = map (\<lambda>i. (sector_of F c 0, i, entry_at D F c i)) [i ..< epc F]"

lemma entries_from_rec:
  "i < epc F \<Longrightarrow> entries_from D F c i = (sector_of F c 0, i, entry_at D F c i) # entries_from D F c (Suc i)"
  by (simp add: entries_from_def upt_conv_Cons)

lemma directory_Cons: "directory D F (c # cs) = entries_from D F c 0 @ directory D F cs"
  by (simp add: directory_def entries_from_def)

lemma visit_on:
  assumes "search_on rd pool F alig behind Name T fi (Inr (sector_of F c 0, cluster_data D F c, of_nat (Suc i))) =
      answer F alig T fi (walk_entry Name es)"
  shows "visit F alig Name T fi D c i \<bind> search_on rd pool F alig behind Name T fi =
      answer F alig T fi (if matches Name (entry_at D F c i) then Some (sector_of F c 0, entry_at D F c i) else walk_entry Name es)"
proof (cases "matches Name (entry_at D F c i)")
  case True
  then show ?thesis
    by (cases "found_entry F alig T fi (sector_of F c 0) (entry_at D F c i)") (simp_all add: visit_def answer_def search_on_def)
next
  case False
  then show ?thesis using assms by (simp add: visit_def del: of_nat_Suc)
qed

text \<open>Inside a cluster: from what holds at its end to what holds at each of its entries.\<close>

lemma search_on_cluster:
  assumes fixed: "directory_ok F" "good_reader D F rd" "\<forall>n. pool n" and c: "cluster_ok F c"
    and boundary: "search_on rd pool F alig behind Name T fi (Inr (sector_of F c 0, cluster_data D F c, of_nat (epc F))) =
      answer F alig T fi (walk_entry Name es)"
    and i: "0 < i" "i \<le> epc F"
  shows "search_on rd pool F alig behind Name T fi (Inr (sector_of F c 0, cluster_data D F c, of_nat i)) =
      answer F alig T fi (walk_entry Name (entries_from D F c i @ es))"
  using i(2)
proof (induction rule: inc_induct)
  case base
  then show ?case using boundary by (simp add: entries_from_def)
next
  case (step n)
  have n: "0 < n" "n < epc F" using step(1,2) i(1) by simp_all
  note visit = search_step_visits(1) [OF fixed c n] get_entry_at(2) [OF fixed(1) n(2)]
  show ?case
  proof (cases "hd (DIR_Name (entry_at D F c n)) = FREE_ALL")
    case True
    then show ?thesis using visit(2) n by (simp add: search_on_def entries_from_rec answer_def)
  next
    case False
    then have "search_on rd pool F alig behind Name T fi (Inr (sector_of F c 0, cluster_data D F c, of_nat n)) =
        visit F alig Name T fi D c n \<bind> search_on rd pool F alig behind Name T fi"
      using visit by (subst search_on_def) (simp add: search_loop_on)
    then show ?thesis using visit_on [OF step(3)] False n by (simp add: entries_from_rec)
  qed
qed

lemma search_on_boundary:
  assumes fixed: "directory_ok F" "good_reader D F rd" "\<forall>n. pool n" and behind: "behind \<noteq> FREE_ALL" and ch: "chain D F (c # cs)"
    and rest: "cs \<noteq> [] \<Longrightarrow> search_on rd pool F alig behind Name T fi (Inr (sector_of F (hd cs) 0, cluster_data D F (hd cs), of_nat 1)) =
      answer F alig T fi (walk_entry Name (entries_from D F (hd cs) 1 @ directory D F (tl cs)))"
  shows "search_on rd pool F alig behind Name T fi (Inr (sector_of F c 0, cluster_data D F c, of_nat (epc F))) =
      answer F alig T fi (walk_entry Name (directory D F cs))"
proof -
  note dir = directory_okD [OF fixed(1)]
  have "unat (of_nat (epc F) :: DWORD) = epc F" using epc_less [of F] by (intro unat_of_nat_small) simp
  then have "first_byte behind (cluster_data D F c) (of_nat (epc F)) = behind"
    using fixed(1) by (simp add: first_byte_def sizeof_DIR_ENTRY_def byte_at_def read_le_at_def directory_ok_def)
  then have loop: "search_on rd pool F alig behind Name T fi (Inr (sector_of F c 0, cluster_data D F c, of_nat (epc F))) =
      search_step rd pool F alig Name T fi (sector_of F c 0) (Some (cluster_data D F c)) (of_nat (epc F)) \<bind>
        search_on rd pool F alig behind Name T fi"
    using behind by (subst search_on_def) (simp add: search_loop_on)
  note nxt = chain_step [OF dir(1) fixed(2,3) dir(4) ch] and m = index_mod(1) [OF fixed(1) order_refl]
  show ?thesis
  proof (cases cs)
    case Nil
    then have "search_step rd pool F alig Name T fi (sector_of F c 0) (Some (cluster_data D F c)) (of_nat (epc F)) =
        Some (Inl (leave_search STATUS_FILE_NOT_FOUND))"
      using nxt m by (simp add: search_step_def next_cluster_def)
    then show ?thesis using Nil loop by (simp add: search_on_def directory_def answer_def)
  next
    case (Cons d ds)
    then have d: "cluster_ok F d" using chain_cluster_ok [OF ch] by simp
    have "search_step rd pool F alig Name T fi (sector_of F c 0) (Some (cluster_data D F c)) (of_nat (epc F)) =
        search_step rd pool F alig Name T fi (sector_of F d 0) None 0"
      using nxt m index_mod(1) [OF fixed(1), of 0] dir(3) sector_of_nonzero [OF dir(1) d dir(4,2)] Cons
      by (simp add: search_step_def next_cluster_def)
    also have "\<dots> = visit F alig Name T fi D d 0" by (rule search_step_visits(2) [OF fixed d])
    finally show ?thesis
      using visit_on [of rd pool F alig behind Name T fi d D 0] rest loop Cons dir(3)
      by (simp add: directory_Cons entries_from_rec [of 0])
  qed
qed

lemma search_on_finds:
  assumes fixed: "directory_ok F" "good_reader D F rd" "\<forall>n. pool n" and behind: "behind \<noteq> FREE_ALL"
    and "chain D F (c # cs)" and "0 < i" "i \<le> epc F"
  shows "search_on rd pool F alig behind Name T fi (Inr (sector_of F c 0, cluster_data D F c, of_nat i)) =
      answer F alig T fi (walk_entry Name (entries_from D F c i @ directory D F cs))"
  using assms(5-)
proof (induction cs arbitrary: c i)
  case Nil
  show ?case
    using search_on_cluster [OF fixed _ search_on_boundary [OF fixed behind Nil(1)] Nil(2,3)] Nil(1) by simp
next
  case (Cons d cs)
  have "chain D F (d # cs)" "cluster_ok F c" using Cons.prems(1) by simp_all
  then show ?case
    using search_on_cluster [OF fixed _ search_on_boundary [OF fixed behind Cons.prems(1)] Cons.prems(2,3)]
      Cons.IH [of d 1] directory_okD(3) [OF fixed(1)] by simp
qed

lemma FatSearchDirectoryEntry_looks_up:
  assumes fixed: "directory_ok F" "good_reader D F rd" "\<forall>n. pool n" and behind: "behind \<noteq> FREE_ALL"
    and ch: "chain D F cs"
  shows "FatSearchDirectoryEntry rd pool F alig behind (sector_of F (hd cs) 0) Name T fi =
      answer F alig T fi (walk_entry Name (directory D F cs))"
proof -
  obtain c ds where cs: "cs = c # ds" using ch by (cases cs) auto
  have c: "cluster_ok F c" using chain_cluster_ok [OF ch] cs by simp
  note epc = directory_okD(3) [OF fixed(1)]
  have "search_on rd pool F alig behind Name T fi (Inr (sector_of F c 0, cluster_data D F c, of_nat (Suc 0))) =
      answer F alig T fi (walk_entry Name (entries_from D F c (Suc 0) @ directory D F ds))"
    using epc by (intro search_on_finds [OF fixed behind ch [unfolded cs]]) simp_all
  from visit_on [OF this] show ?thesis
    using search_step_visits(2) [OF fixed c] epc
    by (simp add: FatSearchDirectoryEntry_def search_loop_on cs directory_Cons entries_from_rec [of 0])
qed

text \<open>A directory of two clusters of one entry each, the files \<open>A.TXT\<close> of the cluster 4 and \<open>B\<close> of the cluster 5.\<close>

definition dir_volume :: FAT_DATA where
  "dir_volume = \<lparr>CountOfClusters = 5, RootDirectoryStartSector = 2, ReservedSectors = 1, FirstDataSector = 2,
     SectorsPerCluster = 1, BytesPerSector = 32, EntriesPerSector = 1, AllocationSize = 32\<rparr>"

definition dir_entry_A :: DIR_ENTRY where
  "dir_entry_A = with_cluster 4 (ZERO_ENTRY\<lparr>DIR_Name := [0x41, 0x20, 0x20, 0x20, 0x20, 0x20, 0x20, 0x20, 0x54, 0x58, 0x54]\<rparr>)"

definition dir_entry_B :: DIR_ENTRY where
  "dir_entry_B = with_cluster 5 (ZERO_ENTRY\<lparr>DIR_Name := [0x42, 0x20, 0x20, 0x20, 0x20, 0x20, 0x20, 0x20, 0x20, 0x20, 0x20]\<rparr>)"

definition dir_disk :: "nat \<Rightarrow> BYTE" where
  "dir_disk i = (if 40 \<le> i \<and> i < 48 then [3, 0, 0, 0, 0xFF, 0xFF, 0xFF, 0x0F] ! (i - 40)
     else if 64 \<le> i \<and> i < 96 then entry_bytes dir_entry_A ! (i - 64)
     else if 96 \<le> i \<and> i < 128 then entry_bytes dir_entry_B ! (i - 96) else 0)"

lemma dir_volume_facts:
  "spc dir_volume = 1" "bps dir_volume = 32" "clusters dir_volume = 5" "first_data dir_volume = 2" "epc dir_volume = 1"
  "volume_ok dir_volume" "directory_ok dir_volume" "ReservedSectors dir_volume = 1"
  by (simp_all add: volume_ok_def directory_ok_def spc_def bps_def clusters_def first_data_def epc_def entries_per_cluster_def
      dir_volume_def)

lemma dir_chain: "chain dir_disk dir_volume [2, 3]"
proof -
  have "map dir_disk [40, 41, 42, 43] = [3, 0, 0, 0]" "map dir_disk [44, 45, 46, 47] = [0xFF, 0xFF, 0xFF, 0x0F]"
    by (simp_all add: dir_disk_def)
  then have "fat_entry dir_disk dir_volume 2 = 3" "fat_entry dir_disk dir_volume 3 = 0x0FFFFFFF"
    by (simp_all add: fat_entry_def dir_volume_facts disk_bytes_def upt_rec)
  then show ?thesis by (simp add: cluster_ok_def dir_volume_facts next_of_def ends_chain_def)
qed

lemma dir_cluster_data:
  "cluster_data dir_disk dir_volume 2 = entry_bytes dir_entry_A" "cluster_data dir_disk dir_volume 3 = entry_bytes dir_entry_B"
proof -
  have l: "length (entry_bytes dir_entry_A) = 32" "length (entry_bytes dir_entry_B) = 32"
    by (simp_all add: length_entry_bytes dir_entry_A_def dir_entry_B_def with_cluster_def ZERO_ENTRY_def)
  show "cluster_data dir_disk dir_volume 2 = entry_bytes dir_entry_A"
    by (rule nth_equalityI) (simp_all add: cluster_data_def disk_bytes_def first_sector_def dir_volume_facts l dir_disk_def del: upt_rec_numeral)
  show "cluster_data dir_disk dir_volume 3 = entry_bytes dir_entry_B"
    by (rule nth_equalityI) (simp_all add: cluster_data_def disk_bytes_def first_sector_def dir_volume_facts l dir_disk_def del: upt_rec_numeral)
qed

lemma dir_entries: "directory dir_disk dir_volume [2, 3] = [(2, 0, dir_entry_A), (3, 0, dir_entry_B)]"
  using get_entry_bytes [of dir_entry_A] get_entry_bytes [of dir_entry_B]
  by (simp add: directory_def dir_volume_facts entry_at_def dir_cluster_data sector_of_def first_sector_def
      dir_entry_A_def dir_entry_B_def with_cluster_def ZERO_ENTRY_def)

lemma dir_lookup:
  "lookup_entry [0x62] (directory dir_disk dir_volume [2, 3]) = Some (3, dir_entry_B)"
  "no_leftover [0x62] (directory dir_disk dir_volume [2, 3])"
proof -
  have "\<not> matches [0x62] dir_entry_A" by code_simp
  moreover have "matches [0x62] dir_entry_B" by code_simp
  moreover have "hd (DIR_Name dir_entry_A) \<noteq> 0" "hd (DIR_Name dir_entry_B) \<noteq> 0"
    by (simp_all add: dir_entry_A_def dir_entry_B_def with_cluster_def)
  ultimately show "lookup_entry [0x62] (directory dir_disk dir_volume [2, 3]) = Some (3, dir_entry_B)"
    "no_leftover [0x62] (directory dir_disk dir_volume [2, 3])"
    by (simp_all add: dir_entries is_end_def no_leftover_def)
qed

text \<open>
  C33. A search of a directory answers like a walk along the list of its entries, over all its clusters in
  the order of the chain: the first entry whose name agrees up to case, skipping free and long-name
  entries, up to the first end mark; a file is not found otherwise. The search ends. This is for a device
  that can be read and a pool that does not run out, and on two conditions that the loop does not check.
  After the last entry of a cluster it tests a byte behind its buffer, which must not happen to be an end
  mark (\<open>behind\<close>). And it does not test the first entry of a cluster for the end mark: if the directory ends
  there, neither the mark nor an entry left behind it may have the name (\<open>no_leftover\<close>).
\<close>

theorem FatSearchDirectoryEntry_finds:
  assumes "directory_ok F" "good_reader D F rd" "\<forall>n. pool n" "behind \<noteq> FREE_ALL" "chain D F cs"
    and "no_leftover Name (directory D F cs)"
  shows "FatSearchDirectoryEntry rd pool F alig behind (sector_of F (hd cs) 0) Name T fi =
      (case lookup_entry Name (directory D F cs) of
         None \<Rightarrow> Some (leave_search STATUS_FILE_NOT_FOUND)
       | Some (s, e) \<Rightarrow> found_entry F alig T fi s e)"
  using FatSearchDirectoryEntry_looks_up [OF assms(1-5)] walk_entry_lookup [OF assms(6)] by (simp add: answer_def)

lemma FatSearchDirectoryEntry_finds_witness:
  "FatSearchDirectoryEntry (disk_reader dir_disk) (\<lambda>n. True) dir_volume 1 0xFF 2 [0x62] 0 None =
      Some \<lparr>SearchStatus = STATUS_SUCCESS, SearchResult = Some 5, ParentSector = Some 3, SearchInformation = None\<rparr>"
proof -
  have "FatSearchDirectoryEntry (disk_reader dir_disk) (\<lambda>n. True) dir_volume 1 0xFF (sector_of dir_volume (hd [2, 3]) 0) [0x62] 0 None =
      (case lookup_entry [0x62] (directory dir_disk dir_volume [2, 3]) of
         None \<Rightarrow> Some (leave_search STATUS_FILE_NOT_FOUND)
       | Some (s, e) \<Rightarrow> found_entry dir_volume 1 0 None s e)"
    by (rule FatSearchDirectoryEntry_finds [OF dir_volume_facts(7) good_disk_reader _ _ dir_chain dir_lookup(2)]) simp_all
  moreover have "sector_of dir_volume (hd [2, 3]) 0 = 2" by (simp add: sector_of_def first_sector_def dir_volume_facts)
  moreover have "found_entry dir_volume 1 0 None 3 dir_entry_B =
      Some \<lparr>SearchStatus = STATUS_SUCCESS, SearchResult = Some 5, ParentSector = Some 3, SearchInformation = None\<rparr>"
    by code_simp
  ultimately show ?thesis by (simp add: dir_lookup(1))
qed

text \<open>
  Without the condition an entry behind the end mark is found: here the directory is empty, as its first
  entry is the end mark, and \<open>B\<close> is left in its second cluster.
\<close>

definition ended_disk :: "nat \<Rightarrow> BYTE" where "ended_disk i = (if 64 \<le> i \<and> i < 96 then 0 else dir_disk i)"

lemma search_goes_on_behind_end:
  "FatSearchDirectoryEntry (disk_reader ended_disk) (\<lambda>n. True) dir_volume 1 0xFF 2 [0x62] 0 None =
      Some \<lparr>SearchStatus = STATUS_SUCCESS, SearchResult = Some 5, ParentSector = Some 3, SearchInformation = None\<rparr>"
  "lookup_entry [0x62] (directory ended_disk dir_volume [2, 3]) = None"
proof -
  have fat: "fat_entry ended_disk dir_volume c = fat_entry dir_disk dir_volume c" if "c \<in> {2, 3}" for c
    using that by (auto simp: fat_entry_def dir_volume_facts disk_bytes_def ended_disk_def upt_rec)
  then have ch: "chain ended_disk dir_volume [2, 3]" using dir_chain by (simp add: next_of_def)
  have c: "cluster_data ended_disk dir_volume 2 = replicate 32 0" "cluster_data ended_disk dir_volume 3 = entry_bytes dir_entry_B"
    unfolding dir_cluster_data(2) [symmetric]
    by (rule nth_equalityI; simp add: cluster_data_def disk_bytes_def first_sector_def dir_volume_facts ended_disk_def del: upt_rec_numeral)+
  let ?z = "the (get_entry (replicate 32 0) 0)"
  have dir: "directory ended_disk dir_volume [2, 3] = [(2, 0, ?z), (3, 0, dir_entry_B)]"
    using get_entry_bytes [of dir_entry_B]
    by (simp add: directory_def dir_volume_facts entry_at_def c sector_of_def first_sector_def
        dir_entry_B_def with_cluster_def ZERO_ENTRY_def)
  have z: "hd (DIR_Name ?z) = 0" "\<not> matches [0x62] ?z" by code_simp+
  have "matches [0x62] dir_entry_B" by code_simp
  then have w: "walk_entry [0x62] (directory ended_disk dir_volume [2, 3]) = Some (3, dir_entry_B)"
    using z by (simp add: dir)
  have "FatSearchDirectoryEntry (disk_reader ended_disk) (\<lambda>n. True) dir_volume 1 0xFF (sector_of dir_volume (hd [2, 3]) 0) [0x62] 0 None =
      found_entry dir_volume 1 0 None 3 dir_entry_B"
    using FatSearchDirectoryEntry_looks_up [OF dir_volume_facts(7) good_disk_reader _ _ ch] w by (simp add: answer_def)
  moreover have "sector_of dir_volume (hd [2, 3]) 0 = 2" by (simp add: sector_of_def first_sector_def dir_volume_facts)
  moreover have "found_entry dir_volume 1 0 None 3 dir_entry_B =
      Some \<lparr>SearchStatus = STATUS_SUCCESS, SearchResult = Some 5, ParentSector = Some 3, SearchInformation = None\<rparr>"
    by code_simp
  ultimately show "FatSearchDirectoryEntry (disk_reader ended_disk) (\<lambda>n. True) dir_volume 1 0xFF 2 [0x62] 0 None =
      Some \<lparr>SearchStatus = STATUS_SUCCESS, SearchResult = Some 5, ParentSector = Some 3, SearchInformation = None\<rparr>" by simp
  show "lookup_entry [0x62] (directory ended_disk dir_volume [2, 3]) = None" using z(1) by (simp add: dir is_end_def)
qed

section \<open>Dates and clusters\<close>

text \<open>
  A date from 1980 to 2107 and a time of day survive the packing into the bit fields of a directory
  entry, up to the odd second, which is lost.
\<close>

theorem FatDateTime_roundtrip:
  assumes "1 \<le> Day d" "Day d \<le> 31" "1 \<le> Month d" "Month d \<le> 12" "1980 \<le> Year d" "Year d < 2108"
    and "Second t \<le> 59" "Minute t \<le> 59" "Hour t \<le> 23"
  shows "(\<lambda>(fd, ft). ConvertFatDateTimeToDateTime fd ft dt) (ConvertDateTimeToFatDateTime (d, t)) =
      (STATUS_SUCCESS, d, t\<lparr>Second := Second t div 2 * 2\<rparr>)"
  using assms by (intro ConvertFatDateTimeToDateTime_back) (simp_all add: date_ok_def time_ok_def)

lemma FatDateTime_roundtrip_witness:
  "(\<lambda>(fd, ft). ConvertFatDateTimeToDateTime fd ft (\<lparr>Day = 0, Month = 0, Year = 0\<rparr>, \<lparr>Second = 0, Minute = 0, Hour = 0\<rparr>))
     (ConvertDateTimeToFatDateTime (\<lparr>Day = 29, Month = 2, Year = 2024\<rparr>, \<lparr>Second = 59, Minute = 30, Hour = 23\<rparr>)) =
   (STATUS_SUCCESS, \<lparr>Day = 29, Month = 2, Year = 2024\<rparr>, \<lparr>Second = 58, Minute = 30, Hour = 23\<rparr>)"
  using FatDateTime_roundtrip [of "\<lparr>Day = 29, Month = 2, Year = 2024\<rparr>" "\<lparr>Second = 59, Minute = 30, Hour = 23\<rparr>"
      "(\<lparr>Day = 0, Month = 0, Year = 0\<rparr>, \<lparr>Second = 0, Minute = 0, Hour = 0\<rparr>)"] by simp

text \<open>
  On a volume whose sizes fit, the sectors of a cluster are exactly those that lead back to it, and a
  number that is no cluster of the volume has none.
\<close>

theorem FatClusters_roundtrip:
  assumes "volume_ok F" "c < 2 ^ 64"
  shows "(case FirstSectorOfCluster F (of_nat c) of
      (status, None) \<Rightarrow> status = STATUS_DEVICE_CLUSTER_INVALID \<and> \<not> cluster_ok F c
    | (status, Some s) \<Rightarrow> status = STATUS_SUCCESS \<and> cluster_ok F c \<and>
        (\<forall>k < spc F. ClusterOfSector F (s + of_nat k) = Some (STATUS_SUCCESS, of_nat c)))"
proof (cases "cluster_ok F c")
  case True
  then show ?thesis
    using FirstSectorOfCluster_ok [OF assms(1) True] ClusterOfSector_ok [OF assms(1) True] by simp
next
  case False
  then show ?thesis using FirstSectorOfCluster_bad [OF assms(1) False assms(2)] by simp
qed

lemma FatClusters_roundtrip_witness:
  "ClusterOfSector small_volume 15 = Some (STATUS_SUCCESS, 4)"
  using FatClusters_roundtrip [OF small_volume_facts(5), of 4]
    FirstSectorOfCluster_ok [OF small_volume_facts(5), of 4]
  by (simp add: cluster_ok_def small_volume_facts del: of_nat_numeral) (drule spec [of _ 1], simp)

section \<open>Mounting\<close>

text \<open>
  A volume that is accepted is a FAT32 volume that can be used: clusters are not empty and at least as
  large as the alignment of the device asks, there are enough of them for FAT32, and the root directory
  starts at the first sector of a cluster of the volume.
\<close>

theorem FatInitVolume_establishes:
  assumes "FatInitVolume rd alig F = Some (status, F')" and "SUCCEEDED status" and "0 < alig"
  shows "0 < SectorsPerCluster F' \<and> 0 < BytesPerSector F' \<and> 65525 \<le> CountOfClusters F' \<and>
     AllocationSize F' = SectorsPerCluster F' * BytesPerSector F' \<and> alig \<le> AllocationSize F' \<and>
     (\<exists>c. FirstSectorOfCluster F' c = (STATUS_SUCCESS, Some (RootDirectoryStartSector F')))"
proof -
  have err: "\<not> SUCCEEDED STATUS_DISK_MBR_NOT_PRESENT" "\<not> SUCCEEDED STATUS_DEVICE_FILESYSTEM_UNSUPPORTED"
    "\<not> SUCCEEDED STATUS_DEVICE_CLUSTER_INVALID"
    by (simp_all add: SUCCEEDED_def FAIL_MASK_def STATUS_DISK_MBR_NOT_PRESENT_def STATUS_DEVICE_FILESYSTEM_UNSUPPORTED_def
        STATUS_DEVICE_CLUSTER_INVALID_def)
  show ?thesis
    using assms err
    by (auto simp: FatInitVolume_def FirstSectorOfCluster_def fault_div_def Let_def ASSERT_def word_gt_0 linorder_not_less
        split: prod.splits Option.bind_splits if_splits option.splits)
qed


text \<open>The boot sector of a volume of 66000 sectors, one sector in a cluster and 8 reserved ones.\<close>

definition small_boot_sector :: "BYTE list" where
  "small_boot_sector = replicate 11 0 @ [0, 2, 1, 8, 0, 2, 0, 0, 0, 0, 0, 0, 0] @ replicate 8 0 @
     [0xD0, 0x01, 0x01, 0, 20, 0, 0, 0, 0, 0, 0, 0, 2, 0, 0, 0] @ replicate 462 0 @ [0x55, 0xAA]"

lemma FatInitVolume_establishes_witness:
  "\<exists>F'. FatInitVolume (\<lambda>n offset asyn. (STATUS_SUCCESS, small_boot_sector)) 512 small_volume = Some (STATUS_SUCCESS, F') \<and>
     65525 \<le> CountOfClusters F'"
proof -
  have "FatInitVolume (\<lambda>n offset asyn. (STATUS_SUCCESS, small_boot_sector)) 512 small_volume =
      Some (STATUS_SUCCESS, \<lparr>CountOfClusters = 65952, RootDirectoryStartSector = 48, ReservedSectors = 8, FirstDataSector = 48,
        SectorsPerCluster = 1, BytesPerSector = 512, EntriesPerSector = 16, AllocationSize = 512\<rparr>)"
    by (simp add: FatInitVolume_def FirstSectorOfCluster_def word_at_def byte_at_def dword_at_def read_le_at_def small_boot_sector_def
        fault_div_def small_volume_def Let_def)
  then show ?thesis
    using FatInitVolume_establishes [of "\<lambda>n offset asyn. (STATUS_SUCCESS, small_boot_sector)" 512 small_volume] by auto
qed

end
