(* ===== verification/IoStackSpec.thy ===== *)
theory IoStackSpec
  imports FatFile FatSearch
begin

text \<open>
  What the stack of volume, disk and controller does with a request: it is shifted by the start of the
  partition, or refused; and what the partition tables of a disk mean.
\<close>

section \<open>A request to a volume\<close>

lemma stack_status_failed:
  "\<not> SUCCEEDED STATUS_DEVICE_NOT_INITIALIZED" "\<not> SUCCEEDED STATUS_DEVICE_SECTOR_OFFSET_EXCEEDED"
  "\<not> SUCCEEDED STATUS_DEVICE_SECTOR_COUNT_EXCEEDED" "\<not> SUCCEEDED STATUS_DEVICE_INVALID_OPERATION"
  "\<not> SUCCEEDED STATUS_DEVICE_DATA_ALIGNMENT_ERROR" "\<not> SUCCEEDED STATUS_DEVICE_ALIGNMENT_NO_SATISFIED"
  by (simp_all add: SUCCEEDED_def FAIL_MASK_def STATUS_DEVICE_NOT_INITIALIZED_def STATUS_DEVICE_SECTOR_OFFSET_EXCEEDED_def
      STATUS_DEVICE_SECTOR_COUNT_EXCEEDED_def STATUS_DEVICE_INVALID_OPERATION_def STATUS_DEVICE_DATA_ALIGNMENT_ERROR_def
      STATUS_DEVICE_ALIGNMENT_NO_SATISFIED_def)

lemma disk_device_simps:
  "StackSize (disk_device (ata_device transfer) layout) = 2" "DeviceAlignment (disk_device (ata_device transfer) layout) = 512"
  "mj = IRP_MJ_READ \<or> mj = IRP_MJ_WRITE \<Longrightarrow> DispatchFunctions (disk_device (ata_device transfer) layout) mj =
     Some (DiskDispatchReadWrite (ata_device transfer))"
  "StackSize (ata_device transfer) = 1" "DeviceAlignment (ata_device transfer) = 512"
  "mj = IRP_MJ_READ \<or> mj = IRP_MJ_WRITE \<Longrightarrow> DispatchFunctions (ata_device transfer) mj = Some (AtaDispatchReadWrite transfer)"
  by (auto simp: disk_device_def ata_device_def device_over_def DiskDispatch_def AtaDispatch_def)

definition stack_device :: "'h transfer \<Rightarrow> PARTITION_INFORMATION list option \<Rightarrow> PARTITION_INFORMATION \<Rightarrow> nat \<Rightarrow>
    'h ATA_DEVICE DEVICE_OBJECT" where
  "stack_device transfer layout Volume vpb = volume_device (disk_device (ata_device transfer) layout) Volume vpb"

lemma stack_device_simps:
  "StackSize (stack_device transfer layout Volume vpb) = 3" "DeviceAlignment (stack_device transfer layout Volume vpb) = 512"
  "mj = IRP_MJ_READ \<or> mj = IRP_MJ_WRITE \<Longrightarrow> DispatchFunctions (stack_device transfer layout Volume vpb) mj =
     Some (VolDispatchReadWrite (disk_device (ata_device transfer) layout) Volume)"
  by (auto simp: stack_device_def volume_device_def device_over_def VolDispatch_def disk_device_simps)

text \<open>What the controller does with sectors: the status, the length, the buffer and the device after it.\<close>

definition ata_request ::
    "'h transfer \<Rightarrow> bool \<Rightarrow> bool \<Rightarrow> QWORD \<Rightarrow> QWORD \<Rightarrow> io_buffer \<Rightarrow> 'h ATA_DEVICE \<Rightarrow>
     (STATUS \<times> QWORD \<times> io_buffer \<times> 'h ATA_DEVICE) option" where
  "ata_request transfer W asyn n sector buf s =
     (let refused = (if \<not> IsAddressAligned n SECTOR_SIZE then STATUS_DEVICE_DATA_ALIGNMENT_ERROR
        else if n div SECTOR_SIZE > ucast MAX_WORD then STATUS_DEVICE_SECTOR_COUNT_EXCEEDED
        else AtaCheckIOParameters s sector (ucast (n div SECTOR_SIZE)))
      in if \<not> SUCCEEDED refused then Some (refused, 0, buf, s)
         else do {
           ASSERT (TransferFree s);
           let (status, done, buf, h) = transfer sector (ucast (n div SECTOR_SIZE)) buf asyn W (Hardware s);
           Some (status, ucast done * SECTOR_SIZE, buf, s\<lparr>Hardware := h\<rparr>)
         })"

lemma aligned_sector: "IsAddressAligned (x * SECTOR_SIZE) SECTOR_SIZE"
proof -
  have "x * SECTOR_SIZE = push_bit 9 x" by (simp add: push_bit_eq_mult)
  moreover have "(SECTOR_SIZE - 1 :: QWORD) = mask 9" by (simp add: mask_eq_exp_minus_1)
  ultimately show ?thesis
    unfolding IsAddressAligned_def by (simp only: take_bit_eq_mask [symmetric] take_bit_push_bit) simp
qed

lemma sector_back: "unat x < 2 ^ 55 \<Longrightarrow> x * SECTOR_SIZE div SECTOR_SIZE = (x :: QWORD)"
  by (simp add: word_unat_eq_iff unat_div unat_word_ariths)

lemma replicate_3: "replicate 3 x = [x, x, x]"
  by (simp add: numeral_3_eq_3)

lemma stack3: "replicate (unat (3 :: BYTE)) x = [x, x, x]"
  using replicate_3 by simp

definition rw_location :: "bool \<Rightarrow> QWORD \<Rightarrow> QWORD \<Rightarrow> IO_STACK_LOCATION" where
  "rw_location W n offset = ZERO_LOCATION\<lparr>MajorFunction := if W then IRP_MJ_WRITE else IRP_MJ_READ, Parameters := ReadWrite n offset\<rparr>"

text \<open>The request as it reaches the controller.\<close>

definition stack_irp :: "io_buffer \<Rightarrow> bool \<Rightarrow> bool \<Rightarrow> QWORD \<Rightarrow> QWORD \<Rightarrow> QWORD \<Rightarrow> IRP" where
  "stack_irp buf asyn W n below offset = \<lparr>IoBuffer = buf, IoStatus = 0, IoInformation = 0, Completed = False, Asynchronous = asyn,
     CurrentStackLocation = 0, StackLocations = [rw_location W n below, rw_location W n below, rw_location W n offset]\<rparr>"

lemma ata_dispatch:
  assumes "x * SECTOR_SIZE div SECTOR_SIZE = x"
  shows "AtaDispatchReadWrite transfer (stack_irp buf asyn W n (x * SECTOR_SIZE) offset) s =
     (case ata_request transfer W asyn n x buf s of None \<Rightarrow> None
      | Some (status, information, buf', s') \<Rightarrow> Some (STATUS_SUCCESS, (stack_irp buf asyn W n (x * SECTOR_SIZE) offset)
          \<lparr>IoStatus := status, IoInformation := information, IoBuffer := buf', Completed := True\<rparr>, s'))"
  using assms aligned_sector [of x]
  by (cases W; cases "TransferFree s"; cases "IsAddressAligned n SECTOR_SIZE")
     (auto simp: AtaDispatchReadWrite_def ata_request_def stack_irp_def rw_location_def IoGetCurrentIrpStackLocation_def
      stack_location_def read_write_def AtaCheckAlignment_def finish_irp_def IoCompleteIrp_def Let_def stack_status_failed
      split: prod.splits)

lemmas irp_defs = IoReadWriteDevice_def IoAllocateIrp_def stack_device_simps replicate_3 update_next_def set_location_def
  stack_location_def IoGetNextIrpStackLocation_def IoGetCurrentIrpStackLocation_def IoCallDriver_def read_write_def
  Let_def ZERO_LOCATION_def stack_status_failed

text \<open>
  The request travels down: it is checked for the alignment if it is a read, then for the size of the
  partition, and reaches the controller at the sector shifted by the start of the partition.
\<close>

lemma volume_request:
  assumes pool: "\<forall>n. pool n" and buf: "buf \<noteq> NoBuffer"
    and part: "unat (OffsetInDisk Volume) + unat (PartitionSize Volume) < 2 ^ 55"
  shows "IoReadWriteDevice pool (stack_device transfer layout Volume vpb) buf n offset W asyn s =
     (if \<not> W \<and> (\<not> IsAddressAligned n SECTOR_SIZE \<or> \<not> IsAddressAligned offset SECTOR_SIZE) then
        Some (STATUS_DEVICE_ALIGNMENT_NO_SATISFIED, n, buf, s)
      else if \<not> SUCCEEDED (VolCheckIOParameters Volume (offset div SECTOR_SIZE) (n div SECTOR_SIZE)) then
        Some (VolCheckIOParameters Volume (offset div SECTOR_SIZE) (n div SECTOR_SIZE), 0, buf, s)
      else ata_request transfer W asyn n (offset div SECTOR_SIZE + OffsetInDisk Volume) buf s)"
proof (cases "\<not> W \<and> (\<not> IsAddressAligned n SECTOR_SIZE \<or> \<not> IsAddressAligned offset SECTOR_SIZE)")
  case True
  then show ?thesis using pool buf by (simp add: irp_defs)
next
  case aligned: False
  show ?thesis
  proof (cases "SUCCEEDED (VolCheckIOParameters Volume (offset div SECTOR_SIZE) (n div SECTOR_SIZE))")
    case False
    then show ?thesis
      using pool buf aligned by (auto simp: irp_defs VolDispatchReadWrite_def finish_irp_def IoCompleteIrp_def)
  next
    case True
    let ?x = "offset div SECTOR_SIZE + OffsetInDisk Volume"
    have "offset div SECTOR_SIZE < PartitionSize Volume"
      using True by (auto simp: VolCheckIOParameters_def stack_status_failed split: if_splits)
    then have "unat (offset div SECTOR_SIZE) < unat (PartitionSize Volume)" by (simp add: word_less_nat_alt)
    then have "unat ?x < 2 ^ 55" using part by (subst unat_plus_simple) auto
    note ata = ata_dispatch [OF sector_back [OF this]]
    obtain x where x: "?x = x" by simp
    have "IoReadWriteDevice pool (stack_device transfer layout Volume vpb) buf n offset W asyn s =
        (case AtaDispatchReadWrite transfer (stack_irp buf asyn W n (x * SECTOR_SIZE) offset) s of None \<Rightarrow> None
         | Some (status, Irp, s') \<Rightarrow> if status = STATUS_SUCCESS then Some (IoStatus Irp, IoInformation Irp, IoBuffer Irp, s') else None)"
      using pool buf aligned True aligned_sector [of x] ata [of transfer buf asyn W n offset s, unfolded x]
      by (cases "ata_request transfer W asyn n x buf s"; cases W)
         (auto simp: irp_defs x VolDispatchReadWrite_def disk_device_simps DiskDispatchReadWrite_def
           IoCopyCurrentStackLocationToNext_def stack_irp_def rw_location_def)
    then show ?thesis
      using aligned True ata [of transfer buf asyn W n offset s]
      by (cases "ata_request transfer W asyn n ?x buf s") (auto simp: x stack_irp_def)
  qed
qed

section \<open>The contents of a volume\<close>

text \<open>The hardware: a read of sectors that fits into the buffer fills its start with the medium.\<close>

definition ata_disk :: "'h transfer \<Rightarrow> ('h \<Rightarrow> nat \<Rightarrow> BYTE) \<Rightarrow> bool" where
  "ata_disk transfer medium \<longleftrightarrow> (\<forall>sector count bs asyn h. unat count * 512 \<le> length bs \<longrightarrow>
     transfer sector count (Bytes bs) asyn False h = (STATUS_SUCCESS, count,
       Bytes (disk_bytes (medium h) (unat sector * 512) (unat count * 512) @ drop (unat count * 512) bs), h))"

definition drive_ready :: "PARTITION_INFORMATION \<Rightarrow> 'h ATA_DEVICE \<Rightarrow> bool" where
  "drive_ready Volume s \<longleftrightarrow> Initialized s \<and> TransferFree s \<and> TotalSectors s \<le> LBA48_MAX_VALUE \<and>
     unat (OffsetInDisk Volume) + unat (PartitionSize Volume) \<le> unat (TotalSectors s)"

lemma unat_sectors:
  assumes "k < 2 ^ 55"
  shows "unat (of_nat (k * 512) :: QWORD) = k * 512" "(of_nat (k * 512) :: QWORD) div SECTOR_SIZE = of_nat k"
    "IsAddressAligned (of_nat (k * 512)) SECTOR_SIZE"
proof -
  show u: "unat (of_nat (k * 512) :: QWORD) = k * 512" using assms by (intro unat_of_nat_small) simp
  have "unat (of_nat k :: QWORD) = k" using assms by (intro unat_of_nat_small) simp
  then show "(of_nat (k * 512) :: QWORD) div SECTOR_SIZE = of_nat k"
    using u by (simp add: word_unat_eq_iff unat_div del: of_nat_mult)
  show "IsAddressAligned (of_nat (k * 512)) SECTOR_SIZE"
    using aligned_sector [of "of_nat k"] by simp
qed

lemma volume_read:
  assumes pool: "\<forall>n. pool n" and hw: "ata_disk transfer medium" and ready: "drive_ready Volume s"
    and range: "k < unat (PartitionSize Volume)" "k + c \<le> unat (PartitionSize Volume)" "c \<le> 0xFFFF" "c * 512 \<le> length bs"
  shows "IoReadDeviceEx pool (stack_device transfer layout Volume vpb) (Bytes bs) (of_nat (c * 512)) (of_nat (k * 512)) asyn s =
     Some (STATUS_SUCCESS, of_nat (c * 512),
       Bytes (disk_bytes (medium (Hardware s)) ((unat (OffsetInDisk Volume) + k) * 512) (c * 512) @ drop (c * 512) bs), s)"
proof -
  have lba: "unat (TotalSectors s) \<le> 0xFFFFFFFFFFFF"
    using ready by (simp add: drive_ready_def word_le_nat_alt)
  have sum: "unat (OffsetInDisk Volume) + unat (PartitionSize Volume) \<le> unat (TotalSectors s)"
    using ready by (simp add: drive_ready_def)
  have part: "unat (OffsetInDisk Volume) + unat (PartitionSize Volume) < 2 ^ 55" using lba sum by simp
  have kc: "k < 2 ^ 55" "c < 2 ^ 55" using range lba sum by simp_all
  note k = unat_sectors [OF kc(1)] and c = unat_sectors [OF kc(2)]
  have uk: "unat (of_nat k :: QWORD) = k" "unat (of_nat c :: QWORD) = c" "unat (of_nat c :: WORD) = c"
    using kc range(3) by (intro unat_of_nat_small; simp)+
  have vol: "VolCheckIOParameters Volume (of_nat k) (of_nat c) = STATUS_SUCCESS"
  proof -
    have "unat (PartitionSize Volume - of_nat k) = unat (PartitionSize Volume) - k"
      using range(1) by (subst unat_sub) (simp_all add: word_le_nat_alt uk)
    then show ?thesis
      using range(1,2) by (auto simp: VolCheckIOParameters_def word_le_nat_alt word_less_nat_alt uk linorder_not_le linorder_not_less)
  qed
  have ux: "unat (of_nat k + OffsetInDisk Volume) = unat (OffsetInDisk Volume) + k"
    using range(1) part uk(1) by (subst unat_plus_simple) simp_all
  have wc: "(ucast (of_nat c :: QWORD) :: WORD) = of_nat c"
    using uk range(3) by (simp add: word_unat_eq_iff unat_ucast_mod)
  have io: "AtaCheckIOParameters s (of_nat k + OffsetInDisk Volume) (of_nat c) = STATUS_SUCCESS"
  proof -
    let ?x = "of_nat k + OffsetInDisk Volume"
    have "unat (TotalSectors s - ?x) = unat (TotalSectors s) - (unat (OffsetInDisk Volume) + k)"
      using ux range(1) sum by (subst unat_sub) (simp_all add: word_le_nat_alt)
    moreover have "unat (ucast (of_nat c :: WORD) :: QWORD) = c" using uk(3) range(3) by (simp add: unat_ucast_mod)
    ultimately show ?thesis
      using ready range(1,2) sum lba
      by (auto simp: AtaCheckIOParameters_def drive_ready_def word_le_nat_alt word_less_nat_alt ux linorder_not_le linorder_not_less)
  qed
  have size: "\<not> of_nat c > (ucast MAX_WORD :: QWORD)" using range(3) by (simp add: word_less_nat_alt uk)
  have ok: "SUCCEEDED STATUS_SUCCESS" by simp
  have "ata_request transfer False asyn (of_nat (c * 512)) (of_nat k + OffsetInDisk Volume) (Bytes bs) s =
      Some (STATUS_SUCCESS, ucast (of_nat c :: WORD) * SECTOR_SIZE,
        Bytes (disk_bytes (medium (Hardware s)) ((unat (OffsetInDisk Volume) + k) * 512) (c * 512) @ drop (c * 512) bs), s)"
    using hw ready range(4) size
    by (simp add: ata_request_def c wc io ata_disk_def drive_ready_def ux uk Let_def del: of_nat_mult)
  moreover have "(ucast (of_nat c :: WORD) * SECTOR_SIZE :: QWORD) = of_nat (c * 512)"
    using uk range(3) by (simp add: word_unat_eq_iff unat_word_ariths unat_ucast_mod)
  ultimately show ?thesis
    unfolding IoReadDeviceEx_def volume_request [OF pool io_buffer.distinct(2) part] by (simp add: k c vol del: of_nat_mult)
qed

text \<open>The stack as the file system sees it.\<close>

definition volume_bytes :: "('h \<Rightarrow> nat \<Rightarrow> BYTE) \<Rightarrow> PARTITION_INFORMATION \<Rightarrow> 'h ATA_DEVICE \<Rightarrow> nat \<Rightarrow> BYTE" where
  "volume_bytes medium Volume s = (\<lambda>i. medium (Hardware s) (unat (OffsetInDisk Volume) * 512 + i))"

lemma disk_bytes_shift: "disk_bytes D (a + b) n = disk_bytes (\<lambda>i. D (a + i)) b n"
  by (simp add: disk_bytes_def add.assoc)

definition fits_partition :: "FAT_DATA \<Rightarrow> PARTITION_INFORMATION \<Rightarrow> bool" where
  "fits_partition F Volume \<longleftrightarrow> 512 dvd bps F \<and> spc F * bps F \<le> 0xFFFF * 512 \<and>
     (first_data F + clusters F * spc F) * bps F \<le> unat (PartitionSize Volume) * 512"

lemma good_volume_reader:
  assumes pool: "\<forall>n. pool n" and hw: "ata_disk transfer medium" and ready: "drive_ready Volume s" and fits: "fits_partition F Volume"
  shows "good_reader (volume_bytes medium Volume s) F (volume_reader pool (stack_device transfer layout Volume vpb) s)"
  unfolding good_reader_def
proof (intro allI impI)
  fix n offset :: QWORD and asyn
  assume on: "on_volume F (unat offset) (unat n)"
  have "512 dvd unat n" "512 dvd unat offset"
    using on fits unfolding on_volume_def fits_partition_def by (auto intro: dvd_trans)
  then obtain c k where c: "unat n = c * 512" and k: "unat offset = k * 512" by (metis dvd_div_mult_self)
  have w: "n = of_nat (c * 512)" "offset = of_nat (k * 512)" by (metis c of_nat_unat ucast_id, metis k of_nat_unat ucast_id)
  have "k * 512 + c * 512 \<le> unat (PartitionSize Volume) * 512" "c * 512 \<le> 0xFFFF * 512" "0 < c"
    using on fits unfolding on_volume_def fits_partition_def c k by (linarith, linarith, simp)
  then have range: "k < unat (PartitionSize Volume)" "k + c \<le> unat (PartitionSize Volume)" "c \<le> 0xFFFF" by linarith+
  have len: "c * 512 \<le> length (replicate (unat n) (0 :: BYTE))" using c by simp
  show "volume_reader pool (stack_device transfer layout Volume vpb) s n offset asyn =
      (STATUS_SUCCESS, disk_bytes (volume_bytes medium Volume s) (unat offset) (unat n))"
    using volume_read [OF pool hw ready range len, of layout vpb asyn] c k
    unfolding volume_reader_def w [symmetric]
    by (simp add: volume_bytes_def add_mult_distrib disk_bytes_shift)
qed

text \<open>
  What a file system reads through the stack of volume, disk and controller is what lies in the
  partition on the medium: a request for whole sectors inside the partition succeeds, fills the start of
  the buffer with the sectors that far behind the start of the partition, and leaves the rest alone.
\<close>

theorem IoReadDevice_reads_partition:
  assumes "\<forall>n. pool n" "ata_disk transfer medium" "drive_ready Volume s"
    and "k < unat (PartitionSize Volume)" "k + c \<le> unat (PartitionSize Volume)" "c \<le> 0xFFFF" "c * 512 \<le> length bs"
  shows "IoReadDeviceEx pool (volume_device (disk_device (ata_device transfer) layout) Volume vpb) (Bytes bs)
       (of_nat (c * 512)) (of_nat (k * 512)) asyn s =
     Some (STATUS_SUCCESS, of_nat (c * 512),
       Bytes (map (medium (Hardware s)) [(unat (OffsetInDisk Volume) + k) * 512 ..< (unat (OffsetInDisk Volume) + k + c) * 512] @
         drop (c * 512) bs), s)"
proof -
  have "disk_bytes D (x * 512) (c * 512) = map D [x * 512 ..< (x + c) * 512]" for D :: "nat \<Rightarrow> BYTE" and x
    by (rule nth_equalityI) (simp_all add: disk_bytes_def)
  then show ?thesis
    using volume_read [OF assms, of layout vpb asyn] unfolding stack_device_def by (simp only:)
qed

text \<open>
  C38. A write whose offset is not a multiple of the sector size is not refused, as a read is: the volume
  rounds the offset down and the data goes to the start of the sector, over bytes that were not meant.
\<close>

theorem IoWriteDevice_rounds_offset:
  assumes "\<forall>n. pool n" "buf \<noteq> NoBuffer" and "unat (OffsetInDisk Volume) + unat (PartitionSize Volume) < 2 ^ 55" and "0 < r" "r < 512" "k < 2 ^ 55"
  shows "IoWriteDeviceEx pool (volume_device (disk_device (ata_device transfer) layout) Volume vpb) buf n (of_nat (k * 512 + r)) asyn s =
     IoWriteDeviceEx pool (volume_device (disk_device (ata_device transfer) layout) Volume vpb) buf n (of_nat (k * 512)) asyn s \<and>
   IoReadDeviceEx pool (volume_device (disk_device (ata_device transfer) layout) Volume vpb) buf n (of_nat (k * 512 + r)) asyn s =
     Some (STATUS_DEVICE_ALIGNMENT_NO_SATISFIED, n, buf, s)"
proof -
  have u: "unat (of_nat (k * 512 + r) :: QWORD) = k * 512 + r" using assms(5,6) by (intro unat_of_nat_small) simp
  have uk: "unat (of_nat k :: QWORD) = k" using assms(6) by (intro unat_of_nat_small) simp
  have "(of_nat (k * 512 + r) :: QWORD) div SECTOR_SIZE = of_nat k"
    using assms(5) u uk by (simp add: word_unat_eq_iff unat_div del: of_nat_mult of_nat_add)
  moreover have "\<not> IsAddressAligned (of_nat (k * 512 + r)) SECTOR_SIZE"
  proof
    assume "IsAddressAligned (of_nat (k * 512 + r)) SECTOR_SIZE"
    then have "take_bit 9 (of_nat (k * 512 + r) :: QWORD) = 0"
      unfolding IsAddressAligned_def take_bit_eq_mask by (simp add: mask_eq_exp_minus_1 del: of_nat_mult of_nat_add)
    then have "take_bit 9 (k * 512 + r) = 0"
      using u by (simp add: word_unat_eq_iff unsigned_take_bit_eq del: of_nat_mult of_nat_add)
    then show False using assms(4,5) by (simp add: take_bit_eq_mod)
  qed
  ultimately show ?thesis
    using unat_sectors(2) [OF assms(6)]
    unfolding stack_device_def [symmetric] IoWriteDeviceEx_def IoReadDeviceEx_def volume_request [OF assms(1-3)]
    by (simp del: of_nat_mult of_nat_add)
qed

text \<open>A drive whose medium is a function, with a partition of 8 sectors behind the first 2.\<close>

definition ram_transfer :: "(nat \<Rightarrow> BYTE) transfer" where
  "ram_transfer sector count buf asyn W h =
     (case buf of Bytes bs \<Rightarrow>
        let a = unat sector * 512; n = unat count * 512
        in if W then (STATUS_SUCCESS, count, buf, \<lambda>i. if a \<le> i \<and> i < a + n then bs ! (i - a) else h i)
           else (STATUS_SUCCESS, count, Bytes (disk_bytes h a n @ drop n bs), h)
      | _ \<Rightarrow> (STATUS_UNSUCCESSFUL, 0, buf, h))"

definition ram_partition :: PARTITION_INFORMATION where
  "ram_partition = \<lparr>OffsetInDisk = 2, PartitionSize = 8, PartitionType = 0xC, Bootable = False\<rparr>"

definition ram_drive :: "(nat \<Rightarrow> BYTE) \<Rightarrow> (nat \<Rightarrow> BYTE) ATA_DEVICE" where
  "ram_drive h = \<lparr>Initialized = True, TotalSectors = 16, TransferFree = True, Hardware = h\<rparr>"

lemma ram_disk: "ata_disk ram_transfer (\<lambda>h. h)"
  by (simp add: ata_disk_def ram_transfer_def Let_def)

lemma ram_ready: "drive_ready ram_partition (ram_drive h)"
  by (simp add: drive_ready_def ram_partition_def ram_drive_def)

lemma IoReadDevice_reads_partition_witness:
  "IoReadDeviceEx (\<lambda>n. True) (volume_device (disk_device (ata_device ram_transfer) (Some [])) ram_partition 0) (Bytes (replicate 512 0))
      512 1024 False (ram_drive of_nat) =
    Some (STATUS_SUCCESS, 512, Bytes (map of_nat [2048 ..< 2560]), ram_drive of_nat)"
  using IoReadDevice_reads_partition [OF _ ram_disk ram_ready [of of_nat], of "\<lambda>n. True" 2 1 "replicate 512 0" "Some []" 0 False]
  by (simp add: ram_partition_def ram_drive_def del: upt_rec_numeral)

lemma IoWriteDevice_rounds_offset_witness:
  "IoWriteDeviceEx (\<lambda>n. True) (volume_device (disk_device (ata_device ram_transfer) (Some [])) ram_partition 0) (Bytes (replicate 512 7))
      512 1027 False (ram_drive of_nat) =
   IoWriteDeviceEx (\<lambda>n. True) (volume_device (disk_device (ata_device ram_transfer) (Some [])) ram_partition 0) (Bytes (replicate 512 7))
      512 1024 False (ram_drive of_nat)"
  using IoWriteDevice_rounds_offset [of "\<lambda>n. True" "Bytes (replicate 512 7)" ram_partition 3 2 ram_transfer "Some []" 0 512 False "ram_drive of_nat"]
  by (simp add: ram_partition_def)

section \<open>Partition tables\<close>

definition listed :: "MBR_PARTITION_ENTRY \<Rightarrow> bool" where
  "listed e \<longleftrightarrow> EntryStatus e = MBR_STATUS_ACTIVE \<or> EntryStatus e = MBR_STATUS_INACTIVE"

lemma mbr_entry_Some:
  assumes "length mbr = 512" "i < 4"
  shows "mbr_entry mbr i \<noteq> None"
proof -
  have "446 + i * 16 + 16 \<le> 512" using assms(2) by simp
  then show ?thesis
    using assms(1) by (auto simp: mbr_entry_def byte_at_def dword_at_def read_le_at_def Let_def)
qed

lemma extended_nonzero:
  assumes "mbr_entry mbr i = Some e" "is_extended e"
  shows "take 16 (drop (446 + i * 16) mbr) \<noteq> replicate 16 0"
proof
  let ?e = "drop (446 + i * 16) mbr"
  assume z: "take 16 ?e = replicate 16 0"
  have "take 1 (drop 4 ?e) = take 1 (drop 4 (take 16 ?e))" by (simp add: drop_take)
  then have "take 1 (drop (446 + i * 16 + 4) mbr) = [0]" unfolding z by (simp add: add.commute numeral_eq_Suc)
  then have "byte_at mbr (446 + i * 16 + 4) \<in> {None, Some 0}" by (simp add: byte_at_def read_le_at_def)
  then show False using assms by (auto simp: mbr_entry_def is_extended_def Let_def split: Option.bind_splits)
qed

lemma scan_entries_primary:
  assumes "\<forall>i\<in>set is. \<exists>e. mbr_entry mbr i = Some e \<and> (listed e \<longrightarrow> \<not> is_extended e)"
  shows "scan_entries mbr off False is count layout =
     (let ps = map (partition_of off) (filter listed (map (\<lambda>i. the (mbr_entry mbr i)) is))
      in Some (Inl False, count + of_nat (length ps), map_option (\<lambda>qs. qs @ ps) layout))"
  using assms
proof (induction "is" arbitrary: count layout)
  case Nil
  then show ?case by (cases layout) simp_all
next
  case (Cons i "is")
  then obtain e where e: "mbr_entry mbr i = Some e" "listed e \<longrightarrow> \<not> is_extended e" by auto
  note IH = Cons.IH
  show ?case
    using Cons.prems e by (auto simp: IH listed_def Let_def add.commute add.left_commute option.map_comp comp_def)
qed

text \<open>
  C39. On a disk without extended partitions every entry of the partition table with a valid status byte
  becomes a partition, in the order of the table, at its place on the disk and with its size: both
  passes agree, and nothing is written behind the allocation. An unused entry, which is all zero,
  has a valid status byte and becomes an empty partition.
\<close>

theorem DiskRetrievePartitions_lists:
  assumes "\<forall>n. pool 0 n" "length mbr = 512" "word_at mbr 510 = Some MBR_BOOT_SIGNATURE"
    and read: "DiskRead (pool 1) DiskDevice 0 1 (Bytes (replicate 512 0)) False s = Some (STATUS_SUCCESS, Bytes mbr, Some 1, s)"
    and primary: "\<forall>i\<in>set [0 ..< 4]. listed (the (mbr_entry mbr i)) \<longrightarrow> \<not> is_extended (the (mbr_entry mbr i))"
  shows "DiskRetrievePartitionsFromDisk pool DiskDevice s =
     Some (STATUS_SUCCESS, Some (map (partition_of 0) (filter listed (map (\<lambda>i. the (mbr_entry mbr i)) [0 ..< 4]))), s)"
proof -
  let ?ps = "map (partition_of 0) (filter listed (map (\<lambda>i. the (mbr_entry mbr i)) [0 ..< 4]))"
  have "length ?ps \<le> 4"
    using length_filter_le [of listed "map (\<lambda>i. the (mbr_entry mbr i)) [0 ..< 4]"] by (simp del: upt_rec_numeral)
  then have count: "unat (of_nat (length ?ps) :: DWORD) = length ?ps" by (intro unat_of_nat_small) simp
  have "\<forall>i\<in>set [0 ..< 4]. \<exists>e. mbr_entry mbr i = Some e \<and> (listed e \<longrightarrow> \<not> is_extended e)"
    using primary mbr_entry_Some [OF assms(2)] by fastforce
  note scan = scan_entries_primary [OF this, where off = 0 and count = 0]
  have pass: "DiskRetrievePartitionsFromDiskStartingAtOffset pool 0 DiskDevice 0 False 0 0 layout s =
      Some (STATUS_SUCCESS, of_nat (length ?ps), map_option (\<lambda>qs. qs @ ?ps) layout, s)" for layout
    using assms(1,3) read scan [of layout]
    by (subst DiskRetrievePartitionsFromDiskStartingAtOffset.simps) (simp add: Let_def del: upt_rec_numeral)
  show ?thesis
    using assms(1) count by (simp add: DiskRetrievePartitionsFromDisk_def pass Let_def del: upt_rec_numeral)
qed

definition small_mbr :: "BYTE list" where
  "small_mbr = replicate 446 0 @ [0x80, 0, 0, 0, 0xC, 0, 0, 0, 2, 0, 0, 0, 8, 0, 0, 0] @ replicate 48 0 @ [0x55, 0xAA]"

definition mbr_device :: "BYTE list \<Rightarrow> unit DEVICE_OBJECT" where
  "mbr_device mbr = \<lparr>DeviceType = DeviceTypeDisk, StackSize = 1, DeviceAlignment = 512, Vpb = None, Attached = False, DispatchFunctions = (\<lambda>mj. Some (\<lambda>Irp s.
     Some (STATUS_SUCCESS, Irp\<lparr>IoBuffer := Bytes mbr, IoInformation := 512, IoStatus := STATUS_SUCCESS\<rparr>, s)))\<rparr>"

lemma mbr_device_read:
  assumes "unat sector < 2 ^ 54"
  shows "DiskRead (\<lambda>n. True) (mbr_device mbr) sector 1 buf False s = Some (STATUS_SUCCESS, Bytes mbr, Some 1, s)"
proof -
  have "\<not> sector \<ge> MAX_QWORD div SECTOR_SIZE" using assms by (simp add: word_le_nat_alt)
  then show ?thesis
    using aligned_sector [of sector]
    by (simp add: DiskRead_def mbr_device_def irp_defs IsAddressAligned_def)
qed

lemma le_value_zeros: "le_value (replicate n 0) = 0"
  by (induction n) simp_all

lemma small_mbr_entries:
  "word_at small_mbr 510 = Some MBR_BOOT_SIGNATURE" "length small_mbr = 512"
  "mbr_entry small_mbr 0 = Some \<lparr>EntryStatus = 0x80, EntryType = 0xC, FirstSectorLBA = 2, NumberOfSectors = 8\<rparr>"
  "i \<in> {1, 2, 3} \<Longrightarrow> mbr_entry small_mbr i = Some \<lparr>EntryStatus = 0, EntryType = 0, FirstSectorLBA = 0, NumberOfSectors = 0\<rparr>"
  by (auto simp: mbr_entry_def word_at_def byte_at_def dword_at_def read_le_at_def small_mbr_def Let_def le_value_zeros)

lemma DiskRetrievePartitions_lists_witness:
  "DiskRetrievePartitionsFromDisk (\<lambda>h n. True) (mbr_device small_mbr) () =
     Some (STATUS_SUCCESS, Some (\<lparr>OffsetInDisk = 2, PartitionSize = 8, PartitionType = 0xC, Bootable = True\<rparr> #
       replicate 3 \<lparr>OffsetInDisk = 0, PartitionSize = 0, PartitionType = 0, Bootable = False\<rparr>), ())"
proof -
  have upt: "[0 ..< 4] = [0, 1, 2, 3 :: nat]" by (simp add: upt_rec)
  have read: "DiskRead (\<lambda>n. True) (mbr_device small_mbr) 0 1 (Bytes (replicate 512 0)) False () =
      Some (STATUS_SUCCESS, Bytes small_mbr, Some 1, ())"
    by (rule mbr_device_read) simp
  have "DiskRetrievePartitionsFromDisk (\<lambda>h n. True) (mbr_device small_mbr) () =
     Some (STATUS_SUCCESS, Some (map (partition_of 0) (filter listed (map (\<lambda>i. the (mbr_entry small_mbr i)) [0 ..< 4]))), ())"
    using small_mbr_entries(4) [of 1] small_mbr_entries(4) [of 2] small_mbr_entries(4) [of 3]
    by (intro DiskRetrievePartitions_lists [OF _ small_mbr_entries(2,1) read])
       (auto simp: upt small_mbr_entries(3) is_extended_def simp del: upt_rec_numeral)
  then show ?thesis
    unfolding upt using small_mbr_entries(4) [of 1] small_mbr_entries(4) [of 2] small_mbr_entries(4) [of 3]
    by (simp add: small_mbr_entries(3) listed_def partition_of_def replicate_3)
qed

text \<open>
  C40. A disk whose extended partition leads back to itself costs a buffer of 512 bytes per turn: the
  recursion goes on and keeps one in each of its calls until the pool has none left (here after \<open>D\<close> of
  them), and then the partitions of the whole disk are lost: the retrieval fails for lack of memory.
  The reads are assumed to succeed as long as there is a buffer; the stack, which may end before the
  pool does, is not modelled.
\<close>

theorem DiskRetrievePartitions_exhausts:
  assumes pool: "\<forall>h < D. pool h 512" "\<not> pool D 512"
    and read: "\<forall>h < D. DiskRead (pool (Suc h)) DiskDevice 0 1 (Bytes (replicate 512 0)) False s =
        Some (STATUS_SUCCESS, Bytes mbr, Some 1, s) \<and>
      DiskRead (pool (Suc h)) DiskDevice (ucast (FirstSectorLBA e)) 1 (Bytes (replicate 512 0)) False s =
        Some (STATUS_SUCCESS, Bytes table, Some 1, s)"
    and mbr: "word_at mbr 510 = Some MBR_BOOT_SIGNATURE" "mbr_entry mbr 0 = Some e" "listed e" "is_extended e"
      "FirstSectorLBA e \<noteq> 0"
    and table: "word_at table 510 = Some MBR_BOOT_SIGNATURE" "mbr_entry table 0 = Some x" "listed x" "is_extended x"
      "FirstSectorLBA x = 0"
  shows "DiskRetrievePartitionsFromDisk pool DiskDevice s = Some (STATUS_HEAP_INSUFFICIENT_RESOURCES, None, s)"
proof -
  let ?F = "FirstSectorLBA e"
  have scan: "scan_entries table ?F True [0 ..< 2] count layout = Some (Inr x, count, layout)"
      "scan_entries mbr 0 False [0 ..< 4] count layout = Some (Inr e, count, layout)" for count layout
    using table(2-4) mbr(2-4) extended_nonzero [OF table(2,4)]
    by (auto simp: upt_conv_Cons listed_def simp del: upt_rec_numeral)
  have deep: "DiskRetrievePartitionsFromDiskStartingAtOffset pool h DiskDevice ?F True ?F count layout s =
      Some (STATUS_HEAP_INSUFFICIENT_RESOURCES, count, layout, s)" if "h \<le> D" for h count layout
    using that
  proof (induction rule: inc_induct)
    case base
    then show ?case using pool(2) mbr(5) by (subst DiskRetrievePartitionsFromDiskStartingAtOffset.simps) simp
  next
    case (step h)
    then show ?case
      using pool(1) read table(1,5) mbr(5) scan(1)
      by (subst DiskRetrievePartitionsFromDiskStartingAtOffset.simps) (simp del: upt_rec_numeral)
  qed
  have "DiskRetrievePartitionsFromDiskStartingAtOffset pool 0 DiskDevice 0 False 0 0 None s =
      Some (STATUS_HEAP_INSUFFICIENT_RESOURCES, 0, None, s)"
  proof (cases "D = 0")
    case True
    then show ?thesis using pool(2) by (subst DiskRetrievePartitionsFromDiskStartingAtOffset.simps) simp
  next
    case False
    then show ?thesis
      using pool(1) read mbr(1) scan(2) deep [of 1]
      by (subst DiskRetrievePartitionsFromDiskStartingAtOffset.simps) (simp del: upt_rec_numeral)
  qed
  then show ?thesis
    by (simp add: DiskRetrievePartitionsFromDisk_def SUCCEEDED_def FAIL_MASK_def STATUS_HEAP_INSUFFICIENT_RESOURCES_def)
qed

text \<open>The extended partition starts at the sector 63, and the first entry of its table is the offset 0 from there.\<close>

definition extended_table :: "BYTE \<Rightarrow> BYTE list" where
  "extended_table lba = replicate 446 0 @ [0, 1, 1, 0, 5, 0, 0, 0, lba, 0, 0, 0, 1, 0, 0, 0] @ replicate 48 0 @ [0x55, 0xAA]"

definition loop_device :: "unit DEVICE_OBJECT" where
  "loop_device = \<lparr>DeviceType = DeviceTypeDisk, StackSize = 1, DeviceAlignment = 512, Vpb = None, Attached = False,
     DispatchFunctions = (\<lambda>mj. Some (\<lambda>Irp s. do {
       location \<leftarrow> IoGetCurrentIrpStackLocation Irp;
       (n, offset) \<leftarrow> read_write location;
       Some (STATUS_SUCCESS, Irp\<lparr>IoBuffer := Bytes (extended_table (if offset = 0 then 63 else 0)), IoInformation := n,
         IoStatus := STATUS_SUCCESS\<rparr>, s)
     }))\<rparr>"

lemma extended_table_facts:
  "word_at (extended_table lba) 510 = Some MBR_BOOT_SIGNATURE"
  "mbr_entry (extended_table lba) 0 = Some \<lparr>EntryStatus = 0, EntryType = 5, FirstSectorLBA = ucast lba, NumberOfSectors = 1\<rparr>"
  by (simp_all add: mbr_entry_def word_at_def byte_at_def dword_at_def read_le_at_def extended_table_def Let_def)

lemma loop_device_read:
  assumes "p 88" and "sector \<in> {0, 63}"
  shows "DiskRead p loop_device sector 1 buf False s =
    Some (STATUS_SUCCESS, Bytes (extended_table (if sector = 0 then 63 else 0)), Some 1, s)"
  using assms by (auto simp: DiskRead_def loop_device_def irp_defs IsAddressAligned_def)

lemma DiskRetrievePartitions_exhausts_witness:
  "DiskRetrievePartitionsFromDisk (\<lambda>h n. h < 1000 \<or> n < 512) loop_device () =
     Some (STATUS_HEAP_INSUFFICIENT_RESOURCES, None, ())"
proof (rule DiskRetrievePartitions_exhausts [where D = 1000 and mbr = "extended_table 63" and table = "extended_table 0",
      OF _ _ _ extended_table_facts _ _ _ extended_table_facts])
  show "\<forall>h < 1000. DiskRead (\<lambda>n. Suc h < 1000 \<or> n < 512) loop_device 0 1 (Bytes (replicate 512 0)) False () =
        Some (STATUS_SUCCESS, Bytes (extended_table 63), Some 1, ()) \<and>
      DiskRead (\<lambda>n. Suc h < 1000 \<or> n < 512) loop_device (ucast (FirstSectorLBA \<lparr>EntryStatus = 0, EntryType = 5,
          FirstSectorLBA = ucast (63 :: BYTE), NumberOfSectors = 1\<rparr>)) 1 (Bytes (replicate 512 0)) False () =
        Some (STATUS_SUCCESS, Bytes (extended_table 0), Some 1, ())"
    by (simp add: loop_device_read)
qed (simp_all add: listed_def is_extended_def)

end
