(* ===== verification/FileSpec.thy ===== *)
theory FileSpec
  imports IoStackSpec
begin

text \<open>
  Files from the request down to the medium, and the start of the drivers: which devices there are and
  which volumes are mounted after it.
\<close>

section \<open>Reading a file\<close>

text \<open>A request of \<open>io_files.c\<close> as its handler gets it: its parameters are in the last stack location.\<close>

definition request_irp :: "'s DEVICE_OBJECT \<Rightarrow> io_buffer \<Rightarrow> bool \<Rightarrow> IO_STACK_LOCATION \<Rightarrow> IRP" where
  "request_irp d buf asyn location = \<lparr>IoBuffer = buf, IoStatus = 0, IoInformation = 0, Completed = False, Asynchronous = asyn,
     CurrentStackLocation = StackSize d - 1,
     StackLocations = (replicate (unat (StackSize d)) ZERO_LOCATION)[unat (StackSize d - 1) := location]\<rparr>"

lemma request_location:
  assumes "StackSize d \<noteq> 0"
  shows "unat (StackSize d - 1) < unat (StackSize d)" "StackSize d - 1 \<noteq> MAX_BYTE"
    "unat (StackSize d - 1) < length (StackLocations (request_irp d buf asyn location))"
    "IoGetCurrentIrpStackLocation (request_irp d buf asyn location) = Some location"
    "stack_location (request_irp d buf asyn location) (unat (StackSize d - 1)) = Some location"
proof -
  show l: "unat (StackSize d - 1) < unat (StackSize d)"
    using assms by (metis unat_gt_0 unat_minus_one diff_less zero_less_one)
  show m: "StackSize d - 1 \<noteq> MAX_BYTE"
  proof
    assume "StackSize d - 1 = MAX_BYTE"
    then have "StackSize d = MAX_BYTE + 1" by (simp add: diff_eq_eq)
    with assms show False by simp
  qed
  show "unat (StackSize d - 1) < length (StackLocations (request_irp d buf asyn location))"
    using l by (simp add: request_irp_def)
  show "stack_location (request_irp d buf asyn location) (unat (StackSize d - 1)) = Some location"
    using l by (simp add: request_irp_def stack_location_def)
  then show "IoGetCurrentIrpStackLocation (request_irp d buf asyn location) = Some location"
    using m by (simp add: IoGetCurrentIrpStackLocation_def request_irp_def)
qed

lemma stack_location_status:
  "stack_location (irp\<lparr>IoBuffer := b, IoInformation := i, IoStatus := st, Completed := c\<rparr>) n = stack_location irp n"
  by (simp add: stack_location_def)

text \<open>A request for a file to a device with a handler for it, when its lengths are aligned.\<close>

lemma IoReadFile_calls:
  assumes "\<forall>n. pool n" "StackSize d \<noteq> 0" "buf \<noteq> NoBuffer" "DispatchFunctions d IRP_MJ_READ = Some handler"
    and "IsAddressAligned n (ucast (DeviceAlignment d))" "IsAddressAligned offset (ucast (DeviceAlignment d))"
    and "handler (request_irp d buf (AsynchronousFile f)
        (ZERO_LOCATION\<lparr>MajorFunction := IRP_MJ_READ, Parameters := ReadWrite n offset, FileObject := Some f\<rparr>)) s =
      Some (STATUS_SUCCESS, irp, s')"
    and "stack_location irp (unat (StackSize d - 1)) = Some location" "FileObject location = Some f'"
  shows "IoReadFile pool d f n (Some offset) buf s =
     Some (IoStatus irp, IoBuffer irp, Some (IoInformation irp),
       if SUCCEEDED (IoStatus irp) \<and> \<not> AsynchronousFile f' then f'\<lparr>CurrentByteOffset := CurrentByteOffset f' + IoInformation irp\<rparr> else f', s')"
proof -
  define location0 where "location0 = ZERO_LOCATION\<lparr>MajorFunction := IRP_MJ_READ, Parameters := ReadWrite n offset, FileObject := Some f\<rparr>"
  note r = request_location [OF assms(2)]
  have l: "unat (StackSize d - 1) < unat (StackSize d)" and nz: "0 < StackSize d"
    using r(1) assms(2) by (simp_all add: word_neq_0_conv)
  have irp: "update_next (\<lambda>l. l\<lparr>MajorFunction := IRP_MJ_READ, Parameters := ReadWrite n offset, FileObject := Some f\<rparr>)
      \<lparr>IoBuffer = buf, IoStatus = 0, IoInformation = 0, Completed = False, Asynchronous = AsynchronousFile f,
       CurrentStackLocation = StackSize d, StackLocations = replicate (unat (StackSize d)) ZERO_LOCATION\<rparr> =
     Some ((request_irp d buf (AsynchronousFile f) location0)\<lparr>CurrentStackLocation := StackSize d\<rparr>)"
    using l assms(2) by (simp add: update_next_def IoGetNextIrpStackLocation_def stack_location_def set_location_def
        request_irp_def location0_def)
  have call: "IoCallDriver d ((request_irp d buf (AsynchronousFile f) location0)\<lparr>CurrentStackLocation := StackSize d\<rparr>) s =
     Some (STATUS_SUCCESS, irp, s')"
  proof -
    have "(request_irp d buf (AsynchronousFile f) location0)\<lparr>CurrentStackLocation := StackSize d - 1\<rparr> =
        request_irp d buf (AsynchronousFile f) location0"
      by (simp add: request_irp_def)
    then show ?thesis
      using assms(2,4-7) r(4) unfolding location0_def [symmetric]
      by (simp add: IoCallDriver_def Let_def read_write_def location0_def)
  qed
  have alloc: "IoAllocateIrp pool (StackSize d) = Some (Some \<lparr>IoBuffer = NoBuffer, IoStatus = 0, IoInformation = 0, Completed = False,
      Asynchronous = False, CurrentStackLocation = StackSize d, StackLocations = replicate (unat (StackSize d)) ZERO_LOCATION\<rparr>)"
    using assms(1) nz by (simp add: IoAllocateIrp_def)
  show ?thesis
    using assms(3,8,9) irp call
    by (cases "AsynchronousFile f") (simp_all add: IoReadFile_def alloc returned_file_def value_or_def)
qed

text \<open>The handler of a read on a file of the file system, when the parts of the request are whole sectors.\<close>

lemma FatDispatchRead_reads:
  assumes "StackSize d \<noteq> 0" "FsContext2 f = Some fcb" "MajorFunction location = IRP_MJ_READ" "FileObject location = Some f"
    and "Parameters location = ReadWrite (of_nat (n * bps F)) (of_nat (k * bps F))"
    and "FileOffsetInVolume fcb \<le> ucast MAX_DWORD" "k * bps F < 2 ^ 32" "n * bps F < 2 ^ 32" "0 < bps F"
    and "FatReadFile (volume_reader pool Volume s) (fat_pool pool) F (FileOffsetInVolume fcb) (of_nat k) (of_nat n) asyn =
      Some (STATUS_SUCCESS, bytes, Some m)"
    and "length bytes \<le> length bs"
  shows "FatDispatchRead pool Volume F (request_irp d (Bytes bs) asyn location) s =
     Some (STATUS_SUCCESS, (request_irp d (Bytes bs) asyn location)\<lparr>IoBuffer := Bytes (bytes @ drop (length bytes) bs),
       IoInformation := m * ucast (BytesPerSector F), IoStatus := STATUS_SUCCESS, Completed := True\<rparr>, s)"
proof -
  have u: "unat (of_nat (x * bps F) :: QWORD) = x * bps F" "(of_nat (x * bps F) :: QWORD) \<le> ucast MAX_DWORD"
    "fault_div (of_nat (x * bps F) :: QWORD) (ucast (BytesPerSector F)) = Some (of_nat x)" if "x * bps F < 2 ^ 32" for x
  proof -
    show u: "unat (of_nat (x * bps F) :: QWORD) = x * bps F" using that by (intro unat_of_nat_small) simp
    then show "(of_nat (x * bps F) :: QWORD) \<le> ucast MAX_DWORD"
      using that by (simp add: word_le_nat_alt unat_ucast_mod del: of_nat_mult)
    have "x * 1 \<le> x * bps F" using assms(9) by (intro mult_le_mono2) simp
    from le_less_trans [OF this that] have "unat (of_nat x :: QWORD) = x" by (intro unat_of_nat_small) simp
    moreover have "(0 :: QWORD) \<noteq> ucast (BytesPerSector F)" using assms(9) by (metis unat_BytesPerSector unat_0 less_irrefl)
    ultimately show "fault_div (of_nat (x * bps F) :: QWORD) (ucast (BytesPerSector F)) = Some (of_nat x)"
      using u assms(9) by (auto simp: fault_div_def word_unat_eq_iff unat_div simp del: of_nat_mult)
  qed
  have io: "IoBuffer (request_irp d (Bytes bs) asyn location) = Bytes bs" "Asynchronous (request_irp d (Bytes bs) asyn location) = asyn"
    "\<not> Completed (request_irp d (Bytes bs) asyn location)"
    by (simp_all add: request_irp_def)
  show ?thesis
    using assms(2-6,10,11) u [OF assms(7)] u [OF assms(8)]
    by (simp add: FatDispatchRead_def request_location [OF assms(1)] io read_write_def store_bytes_def value_or_def
        finish_irp_def IoCompleteIrp_def del: of_nat_mult)
qed

lemma fat_device_simps:
  "StackSize (fat_device pool behind now (stack_device transfer layout Volume vpb) F) = 4"
  "DeviceAlignment (fat_device pool behind now (stack_device transfer layout Volume vpb) F) = 512"
  "DispatchFunctions (fat_device pool behind now (stack_device transfer layout Volume vpb) F) IRP_MJ_READ =
     Some (FatDispatchRead pool (stack_device transfer layout Volume vpb) F)"
  by (simp_all add: fat_device_def device_over_def stack_device_simps FatDispatch_def)

text \<open>
  C35. A file is read as it lies on the medium: a synchronous request at a cluster of the file goes through
  the I/O manager, the file system, the volume, the disk and the controller and fills the start of the
  buffer with the contents of the chain of clusters inside the partition, as far as the chain and the
  request go. The offset of the handle advances by the bytes read, and nothing else changes.
\<close>

theorem IoReadFile_returns_contents:
  fixes medium :: "'h \<Rightarrow> nat \<Rightarrow> BYTE"
  defines "D \<equiv> (\<lambda>s Volume i. medium (Hardware s) (unat (OffsetInDisk Volume) * 512 + i))"
  assumes "\<forall>n. pool n" "ata_disk transfer medium" "drive_ready Volume s" "fits_partition F Volume"
    and "volume_ok F" "0 < first_data F" "chain (D s Volume) F cs" "j < length cs"
    and "FsContext2 f = Some fcb" "FileOffsetInVolume fcb = sector_of F (hd cs) 0" "FileOffsetInVolume fcb \<le> ucast MAX_DWORD"
    and "IsAddressAligned (FileOffsetInVolume fcb) (ucast (SectorsPerCluster F))"
    and "j * (spc F * bps F) < 2 ^ 32" "n * bps F < 2 ^ 32" "n * bps F \<le> length bs"
    and "data = take (n * bps F) (drop (j * (spc F * bps F)) (concat (map (cluster_data (D s Volume) F) cs)))"
    and "\<not> AsynchronousFile f"
  shows "IoReadFile pool
       (fat_device pool behind now (volume_device (disk_device (ata_device transfer) layout) Volume vpb) F) f
       (of_nat (n * bps F)) (Some (of_nat (j * (spc F * bps F)))) (Bytes bs) s =
     Some (STATUS_SUCCESS, Bytes (data @ drop (length data) bs), Some (of_nat (length data)),
       f\<lparr>CurrentByteOffset := CurrentByteOffset f + of_nat (length data)\<rparr>, s)"
proof -
  have ok: "0 < spc F" "0 < bps F" "spc F * bps F < 2 ^ 32"
    using assms(6) by (simp_all add: volume_ok_def mult.commute)
  have dvd: "512 dvd bps F" using assms(5) by (simp add: fits_partition_def)
  let ?vol = "stack_device transfer layout Volume vpb" and ?D = "D s Volume"
  let ?d = "fat_device pool behind now ?vol F"
  have D: "?D = volume_bytes medium Volume s" by (simp add: D_def volume_bytes_def)
  have al: "IsAddressAligned (of_nat (x * bps F)) SECTOR_SIZE" for x
  proof -
    obtain y where "x * bps F = y * 512" using dvd by (metis dvd_def dvd_mult mult.commute)
    then show ?thesis using aligned_sector [of "of_nat y"] by simp
  qed
  have j: "j * (spc F * bps F) = (j * spc F) * bps F" by simp
  have len: "length data = min n (spc F * (length cs - j)) * bps F"
    unfolding assms(17) file_data_def [symmetric]
    by (simp only: length_take length_drop length_file_data nat_mult_min_left diff_mult_distrib [symmetric])
       (simp add: min.commute mult.commute mult.left_commute)
  have le: "x \<le> x * bps F" for x using mult_le_mono2 [of 1 "bps F" x] ok by simp
  have "Suc j * spc F * bps F < 2 ^ 64" using ok(3) assms(14) by (simp add: add_mult_distrib mult.assoc)
  with le have bound: "Suc j * spc F < 2 ^ 64" by (rule le_less_trans)
  have "n * bps F < 2 ^ 64" using assms(15) by simp
  with le have bound': "n < 2 ^ 64" by (rule le_less_trans)
  have fp: "\<forall>n. fat_pool pool n" using assms(2) by (simp add: fat_pool_def)
  have good: "good_reader ?D F (volume_reader pool ?vol s)"
    unfolding D by (rule good_volume_reader [OF assms(2-5)])
  have read: "FatReadFile (volume_reader pool ?vol s) (fat_pool pool) F (FileOffsetInVolume fcb) (of_nat (j * spc F)) (of_nat n) False =
      Some (STATUS_SUCCESS, data, Some (of_nat (min n (spc F * (length cs - j)))))"
    unfolding assms(11,17) file_data_def [symmetric] j
    by (rule FatReadFile_aligned [OF assms(6) good fp assms(7,8,9) bound bound']) (use assms(11,13) in simp)
  let ?l = "ZERO_LOCATION\<lparr>MajorFunction := IRP_MJ_READ, Parameters := ReadWrite (of_nat (n * bps F)) (of_nat (j * spc F * bps F)),
    FileObject := Some f\<rparr>"
  have stack: "StackSize ?d \<noteq> 0" by (simp add: fat_device_simps)
  have call: "FatDispatchRead pool ?vol F (request_irp ?d (Bytes bs) (AsynchronousFile f) ?l) s =
      Some (STATUS_SUCCESS, (request_irp ?d (Bytes bs) (AsynchronousFile f) ?l)\<lparr>IoBuffer := Bytes (data @ drop (length data) bs),
        IoInformation := of_nat (min n (spc F * (length cs - j))) * ucast (BytesPerSector F), IoStatus := STATUS_SUCCESS, Completed := True\<rparr>, s)"
    using read assms(18) len assms(16) assms(14)
    by (intro FatDispatchRead_reads [OF stack assms(10) _ _ _ assms(12) _ assms(15) ok(2)])
       (simp_all add: mult.assoc order_trans [OF _ assms(16)] del: of_nat_mult)
  have info: "of_nat (min n (spc F * (length cs - j))) * ucast (BytesPerSector F) = (of_nat (length data) :: QWORD)"
    unfolding len by (simp add: bps_def of_nat_DWORD)
  have kept: "stack_location ((request_irp ?d (Bytes bs) (AsynchronousFile f) ?l)\<lparr>IoBuffer := b, IoInformation := i,
      IoStatus := st, Completed := c\<rparr>) (unat (StackSize ?d - 1)) = Some ?l" for b i st c
    by (simp only: stack_location_status request_location(5) [OF stack])
  show ?thesis
    unfolding stack_device_def [symmetric] j
    by (subst IoReadFile_calls [where f' = f, OF assms(2) stack _ fat_device_simps(3) _ _ call kept])
       (simp_all add: fat_device_simps al info assms(18) del: of_nat_mult)
qed

text \<open>On the drive with the partition of 8 sectors: a volume of three clusters and a file of the clusters 2 and 4.\<close>

definition drive_volume :: FAT_DATA where
  "drive_volume = \<lparr>CountOfClusters = 3, RootDirectoryStartSector = 3, ReservedSectors = 1, FirstDataSector = 2,
     SectorsPerCluster = 1, BytesPerSector = 512, EntriesPerSector = 16, AllocationSize = 512\<rparr>"

definition drive_medium :: "nat \<Rightarrow> BYTE" where
  "drive_medium i = (if 1544 \<le> i \<and> i < 1556 then [4, 0, 0, 0, 0, 0, 0, 0, 0xFF, 0xFF, 0xFF, 0x0F] ! (i - 1544) else of_nat i)"

definition drive_file :: FILE_OBJECT where
  "drive_file = \<lparr>AsynchronousFile = False, CreateFile = False, DirectoryFile = False,
     FsContext2 = Some \<lparr>FileOffsetInVolume = 2, ParentOffsetInVolume = 2, FileInformation = FILE_INFORMATION_ZERO\<rparr>,
     FileName = [0x5C, 0x41], RelatedFileObject = NULL, CurrentByteOffset = 512, RealFileSize = 1024\<rparr>"

lemma drive_volume_facts:
  "spc drive_volume = 1" "bps drive_volume = 512" "clusters drive_volume = 3" "first_data drive_volume = 2"
  "volume_ok drive_volume" "first_sector drive_volume 2 = 2" "first_sector drive_volume 4 = 4" "SectorsPerCluster drive_volume = 1"
  "fits_partition drive_volume ram_partition"
  by (simp_all add: volume_ok_def spc_def bps_def clusters_def first_data_def first_sector_def drive_volume_def
      fits_partition_def ram_partition_def)

lemma drive_chain:
  "chain (\<lambda>i. drive_medium (unat (OffsetInDisk ram_partition) * 512 + i)) drive_volume [2, 4]"
  by (simp add: cluster_ok_def drive_volume_facts next_of_def fat_entry_def ends_chain_def disk_bytes_def upt_rec
      drive_medium_def ram_partition_def) (simp add: drive_volume_def)

lemma IoReadFile_returns_contents_witness:
  "IoReadFile (\<lambda>n. True)
     (fat_device (\<lambda>n. True) 0 (\<lparr>Day = 1, Month = 1, Year = 2020\<rparr>, \<lparr>Second = 0, Minute = 0, Hour = 0\<rparr>)
       (volume_device (disk_device (ata_device ram_transfer) None) ram_partition 0) drive_volume)
     drive_file 1024 (Some 0) (Bytes (replicate 2048 0)) (ram_drive drive_medium) =
   Some (STATUS_SUCCESS, Bytes (map drive_medium ([2048 ..< 2560] @ [3072 ..< 3584]) @ replicate 1024 0), Some 1024,
     drive_file\<lparr>CurrentByteOffset := 1536\<rparr>, ram_drive drive_medium)"
proof -
  let ?D = "\<lambda>i. drive_medium (unat (OffsetInDisk ram_partition) * 512 + i)"
  let ?data = "take (2 * bps drive_volume) (drop (0 * (spc drive_volume * bps drive_volume))
    (concat (map (cluster_data ?D drive_volume) [2, 4])))"
  have cluster: "cluster_data ?D drive_volume c = map drive_medium [(2 + first_sector drive_volume c) * 512 ..< (3 + first_sector drive_volume c) * 512]"
    for c
    by (rule nth_equalityI) (simp_all add: cluster_data_def disk_bytes_def drive_volume_facts ram_partition_def add_mult_distrib add.assoc)
  have data: "?data = map drive_medium ([2048 ..< 2560] @ [3072 ..< 3584])"
    by (simp add: drive_volume_facts cluster del: upt_rec_numeral)
  have len: "length ?data = 1024" unfolding data by (simp del: upt_rec_numeral)
  have "IoReadFile (\<lambda>n. True)
     (fat_device (\<lambda>n. True) 0 (\<lparr>Day = 1, Month = 1, Year = 2020\<rparr>, \<lparr>Second = 0, Minute = 0, Hour = 0\<rparr>)
       (volume_device (disk_device (ata_device ram_transfer) None) ram_partition 0) drive_volume)
     drive_file (of_nat (2 * bps drive_volume)) (Some (of_nat (0 * (spc drive_volume * bps drive_volume)))) (Bytes (replicate 2048 0)) (ram_drive drive_medium) =
   Some (STATUS_SUCCESS, Bytes (?data @ drop (length ?data) (replicate 2048 0)), Some (of_nat (length ?data)),
     drive_file\<lparr>CurrentByteOffset := CurrentByteOffset drive_file + of_nat (length ?data)\<rparr>, ram_drive drive_medium)"
  proof (rule IoReadFile_returns_contents [where medium = "\<lambda>h. h" and cs = "[2, 4]"
        and fcb = "\<lparr>FileOffsetInVolume = 2, ParentOffsetInVolume = 2, FileInformation = FILE_INFORMATION_ZERO\<rparr>",
        OF _ ram_disk ram_ready drive_volume_facts(9,5)])
    show "chain (\<lambda>i. Hardware (ram_drive drive_medium) (unat (OffsetInDisk ram_partition) * 512 + i)) drive_volume [2, 4]"
      unfolding ram_drive_def by (simp only: ATA_DEVICE.select_convs drive_chain)
  qed (simp_all add: drive_volume_facts drive_file_def sector_of_def IsAddressAligned_def ram_drive_def)
  then show ?thesis
    unfolding len data by (simp add: drive_volume_facts drive_file_def del: upt_rec_numeral)
qed

section \<open>The start of the volume driver\<close>

text \<open>A device control request as it is built, and the call with it.\<close>

definition control_location :: "DWORD \<Rightarrow> io_buffer \<Rightarrow> DWORD \<Rightarrow> IO_STACK_LOCATION" where
  "control_location code out n = ZERO_LOCATION\<lparr>MajorFunction := IRP_MJ_DEVICE_CONTROL, Parameters := DeviceControl code 0 n out\<rparr>"

lemma control_request:
  assumes "\<forall>n. pool n" "StackSize d \<noteq> 0"
  shows "IoBuildDeviceIoControlRequest pool code d NoBuffer 0 out n =
     Some (Some ((request_irp d NoBuffer False (control_location code out n))\<lparr>CurrentStackLocation := StackSize d\<rparr>))"
  using assms request_location(1) [OF assms(2)]
  by (simp add: IoBuildDeviceIoControlRequest_def IoAllocateIrp_def update_next_def IoGetNextIrpStackLocation_def stack_location_def
      set_location_def request_irp_def control_location_def word_neq_0_conv ZERO_LOCATION_def)

lemma control_call:
  assumes "StackSize d \<noteq> 0" "DispatchFunctions d IRP_MJ_DEVICE_CONTROL = Some handler"
    and "handler (request_irp d NoBuffer False (control_location code out n)) s = Some (STATUS_SUCCESS, irp, s')"
  shows "IoCallDriver d ((request_irp d NoBuffer False (control_location code out n))\<lparr>CurrentStackLocation := StackSize d\<rparr>) s =
     Some (STATUS_SUCCESS, irp, s')"
proof -
  have "(request_irp d NoBuffer False (control_location code out n))\<lparr>CurrentStackLocation := StackSize d - 1\<rparr> =
      request_irp d NoBuffer False (control_location code out n)"
    by (simp add: request_irp_def)
  then show ?thesis
    using assms request_location(4) [OF assms(1)]
    by (simp add: IoCallDriver_def Let_def control_location_def ZERO_LOCATION_def)
qed

lemma control_location_simps [simp]:
  "MajorFunction (control_location code out n) = IRP_MJ_DEVICE_CONTROL"
  "Parameters (control_location code out n) = DeviceControl code 0 n out"
  "control_parameters (control_location code out n) = Some (code, n)" "output_buffer (control_location code out n) = out"
  "(control_location code out n)\<lparr>Parameters := DeviceControl code 0 n data\<rparr> = control_location code data n"
  by (simp_all add: control_location_def control_parameters_def output_buffer_def)

lemma copy_output_request:
  assumes "StackSize d \<noteq> 0" "out \<noteq> NoBuffer"
  shows "copy_output data (request_irp d buf asyn (control_location code out n)) =
     Some (request_irp d buf asyn (control_location code data n))"
  using assms request_location [OF assms(1)]
  by (simp add: copy_output_def update_current_def set_location_def) (simp add: request_irp_def)

lemma returned_output_request:
  assumes "StackSize d \<noteq> 0"
  shows "returned_output d ((request_irp d buf asyn location)\<lparr>IoStatus := status, IoInformation := i\<rparr>) = Some (output_buffer location)"
  using request_location(5) [OF assms, of buf asyn location] by (simp add: returned_output_def stack_location_def split: if_splits)

text \<open>The size of a layout, and a request for it.\<close>

definition layout_size :: "PARTITION_INFORMATION list \<Rightarrow> DWORD" where
  "layout_size layout = 8 + of_nat (length layout) * 24"

lemma layout_request:
  assumes "StackSize d \<noteq> 0" and "n < layout_size layout \<or> out \<noteq> NoBuffer"
  shows "DiskDispatchDeviceControl (Some layout) (request_irp d NoBuffer False (control_location IOCTL_DISK_LAYOUT_INFO out n)) s =
      Some (STATUS_SUCCESS, (request_irp d NoBuffer False (control_location IOCTL_DISK_LAYOUT_INFO
         (if n < layout_size layout then out else Layout layout) n))
         \<lparr>IoStatus := if n < layout_size layout then STATUS_BUFFER_TOO_SMALL else STATUS_SUCCESS,
          IoInformation := ucast (layout_size layout)\<rparr>, s)"
  using assms(2)
  by (auto simp: DiskDispatchDeviceControl_def request_location(4) [OF assms(1)] copy_output_request [OF assms(1)]
      layout_size_def [symmetric] Let_def)

lemma disk_device_stack:
  assumes "StackSize Controller + 1 \<noteq> 0"
  shows "StackSize (disk_device Controller layout) \<noteq> 0"
    "DispatchFunctions (disk_device Controller layout) IRP_MJ_DEVICE_CONTROL = Some (DiskDispatchDeviceControl layout)"
  using assms by (simp_all add: disk_device_def device_over_def DiskDispatch_def)

text \<open>One turn of the loop that asks for the layout, and the loop.\<close>

lemma buffer_too_small: "STATUS_BUFFER_TOO_SMALL \<noteq> STATUS_SUCCESS" "STATUS_SUCCESS \<noteq> STATUS_BUFFER_TOO_SMALL"
  by (simp_all add: STATUS_BUFFER_TOO_SMALL_def STATUS_SUCCESS_def)

lemma layout_loop_turn:
  assumes "\<forall>n. pool n" "StackSize Controller + 1 \<noteq> 0" "8 + length layout * 24 < 2 ^ 32"
  shows "layout_loop pool (disk_device Controller (Some layout)) n s =
     (if n < layout_size layout then layout_loop pool (disk_device Controller (Some layout)) (layout_size layout) s
      else Some (Inr (STATUS_SUCCESS, Layout layout, layout_size layout), s))"
proof -
  let ?d = "disk_device Controller (Some layout)"
  note d = disk_device_stack [OF assms(2)]
  have size: "(0 :: DWORD) < layout_size layout"
  proof -
    have "layout_size layout = of_nat (8 + length layout * 24)" by (simp add: layout_size_def)
    moreover have "unat (of_nat (8 + length layout * 24) :: DWORD) = 8 + length layout * 24"
      using assms(3) by (intro unat_of_nat_small) simp
    ultimately have "unat (layout_size layout) = 8 + length layout * 24" by (simp only:)
    then show ?thesis by (simp add: word_less_nat_alt)
  qed
  let ?out = "if 0 \<noteq> n then Layout [] else NoBuffer"
  have out: "n < layout_size layout \<or> ?out \<noteq> NoBuffer" using size by auto
  note call = control_call [OF d(1) d(2) layout_request [OF d(1) out]]
  have info: "ucast (ucast (layout_size layout) :: QWORD) = layout_size layout" "(ucast (layout_size layout) :: QWORD) \<le> 0xFFFFFFFF"
  proof -
    have "unat (layout_size layout) < 2 ^ 32" using unsigned_less [of "layout_size layout", where 'a = nat] by simp
    then show "ucast (ucast (layout_size layout) :: QWORD) = layout_size layout" "(ucast (layout_size layout) :: QWORD) \<le> 0xFFFFFFFF"
      by (simp_all add: word_le_nat_alt word_unat_eq_iff unat_ucast_mod)
  qed
  show ?thesis
    using assms(1) call
    by (subst layout_loop.simps) (simp add: control_request [OF assms(1) d(1)] returned_output_request [OF d(1)] info Let_def buffer_too_small)
qed

lemma layout_loop_returns:
  assumes "\<forall>n. pool n" "StackSize Controller + 1 \<noteq> 0" "8 + length layout * 24 < 2 ^ 32"
  shows "layout_loop pool (disk_device Controller (Some layout)) n s =
     Some (Inr (STATUS_SUCCESS, Layout layout, layout_size layout), s)"
  using layout_loop_turn [OF assms] by simp

text \<open>The volumes of a disk and their parameter blocks, which get the next letters.\<close>

definition add_vpbs :: "nat \<Rightarrow> 's IOMU \<Rightarrow> 's IOMU" where
  "add_vpbs k iomu = iomu\<lparr>VpbList := VpbList iomu @ map (\<lambda>i. \<lparr>FilesystemDevice = None, Mounted = False,
       VolumeLetter = CurrentVolumeLetter iomu + 1 + of_nat i\<rparr>) [0 ..< k],
     CurrentVolumeLetter := CurrentVolumeLetter iomu + of_nat k\<rparr>"

lemma add_vpbs_simps:
  "add_vpbs 0 iomu = iomu" "length (VpbList (add_vpbs k iomu)) = length (VpbList iomu) + k"
  "CurrentVolumeLetter (add_vpbs k iomu) = CurrentVolumeLetter iomu + of_nat k" "DriverList (add_vpbs k iomu) = DriverList iomu"
  by (simp_all add: add_vpbs_def)

lemma add_vpbs_add: "add_vpbs k (add_vpbs l iomu) = add_vpbs (l + k) iomu"
proof -
  have split: "map f [0 ..< l + k] = map f [0 ..< l] @ map (\<lambda>i. f (l + i)) [0 ..< k]" for f :: "nat \<Rightarrow> 'b"
    by (rule nth_equalityI) (auto simp: nth_append)
  show ?thesis unfolding add_vpbs_def split by (simp add: add.assoc add.commute add.left_commute)
qed

lemma VolInitialize_adds:
  assumes "\<forall>n. pool n"
  shows "VolInitialize pool (Some disk) p iomu =
     (if CurrentVolumeLetter iomu + 1 \<le> 0x5A
      then Some (STATUS_SUCCESS, Some (volume_device disk p (length (VpbList iomu))), add_vpbs 1 iomu) else None)"
  using assms
  by (auto simp: VolInitialize_def IoCreateDevice_def IoAllocateVpb_def IomuNewVpbCreated_def IomuGetNextVolumeLetter_def
      IoAttachDevice_def volume_device_def device_over_def add_vpbs_def Let_def ASSERT_def)

definition volumes_of :: "'s DEVICE_OBJECT \<Rightarrow> PARTITION_INFORMATION list \<Rightarrow> nat \<Rightarrow> 's DEVICE_OBJECT list" where
  "volumes_of disk ps first = map (\<lambda>(p, i). volume_device disk p i) (zip ps [first ..< first + length ps])"

lemma partitions_loop_adds:
  assumes "\<forall>n. pool n" "CurrentVolumeLetter iomu \<le> 0x5A"
  shows "partitions_loop pool disk ps STATUS_SUCCESS devices iomu =
     (if unat (CurrentVolumeLetter iomu) + length ps \<le> 0x5A
      then Some (STATUS_SUCCESS, devices @ volumes_of disk ps (length (VpbList iomu)), add_vpbs (length ps) iomu) else None)"
  using assms(2)
proof (induction ps arbitrary: devices iomu)
  case Nil
  then show ?case by (simp add: volumes_of_def add_vpbs_simps word_le_nat_alt)
next
  case (Cons p ps)
  have u: "unat (CurrentVolumeLetter iomu + 1) = unat (CurrentVolumeLetter iomu) + 1"
    using Cons.prems by (subst unat_plus_simple) (simp_all add: word_le_nat_alt)
  show ?case
  proof (cases "CurrentVolumeLetter iomu + 1 \<le> 0x5A")
    case False
    then show ?thesis using u by (simp add: VolInitialize_adds [OF assms(1)] word_le_nat_alt)
  next
    case True
    then have "CurrentVolumeLetter (add_vpbs 1 iomu) \<le> 0x5A" by (simp add: add_vpbs_simps)
    note IH = Cons.IH [OF this]
    have "volumes_of disk (p # ps) i = volume_device disk p i # volumes_of disk ps (i + 1)" for i
      by (simp add: volumes_of_def upt_conv_Cons del: upt_Suc)
    then show ?thesis
      using True u by (simp add: VolInitialize_adds [OF assms(1)] IH [simplified] add_vpbs_simps add_vpbs_add)
  qed
qed

text \<open>The volumes of several disks, each given by its controller and its layout.\<close>

fun all_volumes :: "('s DEVICE_OBJECT \<times> PARTITION_INFORMATION list) list \<Rightarrow> nat \<Rightarrow> 's DEVICE_OBJECT list" where
  "all_volumes [] first = []"
| "all_volumes ((c, l) # ds) first = volumes_of (disk_device c (Some l)) l first @ all_volumes ds (first + length l)"

lemma disks_loop_adds:
  assumes "\<forall>n. pool n" "\<forall>(c, l) \<in> set ds. StackSize c + 1 \<noteq> 0 \<and> 8 + length l * 24 < 2 ^ 32" "CurrentVolumeLetter iomu \<le> 0x5A"
  shows "disks_loop pool (map (\<lambda>(c, l). disk_device c (Some l)) ds) n STATUS_SUCCESS devices iomu s =
     (if unat (CurrentVolumeLetter iomu) + length (concat (map snd ds)) \<le> 0x5A
      then Some (STATUS_SUCCESS, devices @ all_volumes ds (length (VpbList iomu)), add_vpbs (length (concat (map snd ds))) iomu, s)
      else None)"
  using assms(2,3)
proof (induction ds arbitrary: n devices iomu)
  case Nil
  then show ?case by (simp add: add_vpbs_simps word_le_nat_alt)
next
  case (Cons d ds)
  obtain c l where d: "d = (c, l)" by (cases d)
  have c: "StackSize c + 1 \<noteq> 0" "8 + length l * 24 < 2 ^ 32" using Cons.prems(1) d by auto
  note turn = layout_loop_returns [OF assms(1) c] partitions_loop_adds [OF assms(1) Cons.prems(2)]
  show ?case
  proof (cases "unat (CurrentVolumeLetter iomu) + length l \<le> 0x5A")
    case False
    then show ?thesis by (simp add: d turn)
  next
    case True
    then have "unat (of_nat (length l) :: BYTE) = length l" by (intro unat_of_nat_small) simp
    then have u: "unat (CurrentVolumeLetter iomu + of_nat (length l)) = unat (CurrentVolumeLetter iomu) + length l"
      using True by (subst unat_plus_simple) simp_all
    then have "CurrentVolumeLetter (add_vpbs (length l) iomu) \<le> 0x5A" using True by (simp add: add_vpbs_simps word_le_nat_alt)
    from Cons.IH [OF _ this] Cons.prems(1) show ?thesis
      using True u by (simp add: d turn add_vpbs_simps add_vpbs_add add.assoc)
  qed
qed

text \<open>
  C36. The volume driver makes one volume for every partition of every disk, in their order, over the disk
  and with the place and size of the partition, and gives them the next drive letters; with more
  partitions than letters up to Z an assertion fails and the start of the system halts.
\<close>

theorem VolDriverEntry_lists_partitions:
  assumes "\<forall>n. pool n" "length ds < 2 ^ 29"
    and "concat (map (filter (\<lambda>d. DeviceTypeDisk = DeviceType d)) (DriverList iomu)) = map (\<lambda>(c, l). disk_device c (Some l)) ds"
    and "\<forall>(c, l) \<in> set ds. StackSize c + 1 \<noteq> 0 \<and> 8 + length l * 24 < 2 ^ 32" "CurrentVolumeLetter iomu \<le> 0x5A"
  shows "VolDriverEntry pool iomu s =
     (if unat (CurrentVolumeLetter iomu) + length (concat (map snd ds)) \<le> 0x5A
      then Some (STATUS_SUCCESS, all_volumes ds (length (VpbList iomu)), add_vpbs (length (concat (map snd ds))) iomu, s)
      else None)"
proof -
  have "IomuGetDevicesByType pool iomu DeviceTypeDisk = (STATUS_SUCCESS, map (\<lambda>(c, l). disk_device c (Some l)) ds)"
  proof (cases "ds = []")
    case False
    then have "(0 :: DWORD) \<noteq> of_nat (length ds)"
      using assms(2) by (auto simp: word_unat_eq_iff unat_of_nat)
    then show ?thesis using assms(1) by (simp add: IomuGetDevicesByType_def assms(3) Let_def)
  qed (simp add: IomuGetDevicesByType_def assms(3) Let_def)
  then show ?thesis
    using disks_loop_adds [OF assms(1,4,5), of 0 "[]" s] by (simp add: VolDriverEntry_def)
qed

lemma VolDriverEntry_lists_partitions_witness:
  "VolDriverEntry (\<lambda>n. True) (IOMU_INIT\<lparr>DriverList := [[ata_device ram_transfer], [disk_device (ata_device ram_transfer) (Some [ram_partition])]]\<rparr>) (ram_drive of_nat) =
     Some (STATUS_SUCCESS, [volume_device (disk_device (ata_device ram_transfer) (Some [ram_partition])) ram_partition 0],
       IOMU_INIT\<lparr>DriverList := [[ata_device ram_transfer], [disk_device (ata_device ram_transfer) (Some [ram_partition])]],
         VpbList := [\<lparr>FilesystemDevice = None, Mounted = False, VolumeLetter = 0x43\<rparr>], CurrentVolumeLetter := 0x43\<rparr>, ram_drive of_nat)"
proof -
  have "\<forall>n. (\<lambda>n. True) n" "length [(ata_device ram_transfer, [ram_partition])] < 2 ^ 29" by simp_all
  from VolDriverEntry_lists_partitions [OF this, of "IOMU_INIT\<lparr>DriverList := [[ata_device ram_transfer],
      [disk_device (ata_device ram_transfer) (Some [ram_partition])]]\<rparr>" "ram_drive of_nat"]
  show ?thesis
    by (simp add: IOMU_INIT_def add_vpbs_def volumes_of_def disk_device_def ata_device_def device_over_def upt_rec)
qed

section \<open>The start of the file system\<close>

lemma volume_info_request:
  assumes "StackSize d \<noteq> 0"
  shows "VolDispatchDeviceControl p (request_irp d NoBuffer False (control_location IOCTL_VOLUME_PARTITION_INFO (Partition q) 24)) s =
     Some (STATUS_SUCCESS, (request_irp d NoBuffer False (control_location IOCTL_VOLUME_PARTITION_INFO (Partition p) 24))
       \<lparr>Completed := True, IoStatus := STATUS_SUCCESS, IoInformation := 24\<rparr>, s)"
  by (simp add: VolDispatchDeviceControl_def request_location(4) [OF assms] copy_output_request [OF assms] IoCompleteIrp_def)
     (simp add: request_irp_def)

text \<open>One turn of the loop over the volumes, for a volume with a FAT partition.\<close>

lemma volumes_loop_turn:
  assumes "\<forall>n. pool n" "StackSize disk + 1 \<noteq> 0" "PartitionType p \<in> {PARTITION_TYPE_FAT_CHS, PARTITION_TYPE_FAT_LBA}"
    and "i < length (VpbList iomu)"
  defines "vol \<equiv> volume_device disk p i"
  shows "volumes_loop pool behind now (vol # vols) status devices unused iomu s =
    (case FatInitVolume (volume_reader pool vol s) (DeviceAlignment vol) FAT_DATA_ZERO of None \<Rightarrow> None
     | Some (status, F) \<Rightarrow>
         if \<not> SUCCEEDED status then volumes_loop pool behind now vols status devices
           (Some ((fat_device pool behind now vol F)\<lparr>StackSize := 1, Vpb := None, Attached := False\<rparr>)) iomu s
         else volumes_loop pool behind now vols status (devices @ [fat_device pool behind now vol F]) None
           (iomu\<lparr>VpbList := (VpbList iomu)[i := (VpbList iomu ! i)\<lparr>FilesystemDevice := Some (fat_device pool behind now vol F), Mounted := True\<rparr>]\<rparr>) s)"
proof -
  have stack: "StackSize vol \<noteq> 0" and dispatch: "DispatchFunctions vol IRP_MJ_DEVICE_CONTROL = Some (VolDispatchDeviceControl p)"
    and vpb: "Vpb vol = Some i"
    using assms(2) by (simp_all add: vol_def volume_device_def device_over_def VolDispatch_def)
  note call = control_call [OF stack dispatch volume_info_request [OF stack]]
  have out: "returned_output vol ((request_irp vol NoBuffer False location)\<lparr>Completed := True, IoStatus := st, IoInformation := n\<rparr>) =
      Some (output_buffer location)" for location st n
    using request_location(5) [OF stack, of NoBuffer False location] by (simp add: returned_output_def stack_location_def split: if_splits)
  show ?thesis
    using assms(1,3,4)
    by (auto simp: control_request [OF assms(1) stack] call out IoCreateDevice_def IoAttachDevice_def mount_volume_def vpb
        fat_device_def device_over_def Let_def split: option.splits prod.splits)
qed

text \<open>
  C37. When the last volume with a FAT partition cannot be mounted, the start of the file system driver
  fails and its driver object is freed, although an earlier volume has been mounted: the parameter block
  of that one keeps its file system device, through which every later request reaches the freed driver.
\<close>

theorem FatDriverEntry_unloads_mounted:
  assumes "\<forall>n. pool n" "StackSize disk + 1 \<noteq> 0" "2 \<le> length (VpbList iomu)"
    and "concat (map (filter (\<lambda>d. DeviceTypeVolume = DeviceType d)) (DriverList iomu)) = [volume_device disk p 0, volume_device disk q 1]"
    and "PartitionType p \<in> {PARTITION_TYPE_FAT_CHS, PARTITION_TYPE_FAT_LBA}" "PartitionType q \<in> {PARTITION_TYPE_FAT_CHS, PARTITION_TYPE_FAT_LBA}"
    and "FatInitVolume (volume_reader pool (volume_device disk p 0) s) (DeviceAlignment disk) FAT_DATA_ZERO = Some (STATUS_SUCCESS, F)"
    and "FatInitVolume (volume_reader pool (volume_device disk q 1) s) (DeviceAlignment disk) FAT_DATA_ZERO = Some (status, F')"
    and "\<not> SUCCEEDED status"
  shows "\<exists>iomu'. IoCreateDriver pool Name (FatDriverEntry pool behind now) iomu s = Some (False, iomu', s) \<and>
     DriverList iomu' = DriverList iomu \<and> Mounted (VpbList iomu' ! 0) \<and>
     FilesystemDevice (VpbList iomu' ! 0) = Some (fat_device pool behind now (volume_device disk p 0) F)"
proof -
  have al: "DeviceAlignment (volume_device disk r i) = DeviceAlignment disk" for r i
    by (simp add: volume_device_def device_over_def)
  have "IomuGetDevicesByType pool iomu DeviceTypeVolume = (STATUS_SUCCESS, [volume_device disk p 0, volume_device disk q 1])"
    using assms(1) by (simp add: IomuGetDevicesByType_def assms(4))
  moreover have "VpbList iomu \<noteq> []" "0 < length (VpbList iomu)" "1 < length (VpbList iomu)" using assms(3) by auto
  moreover have "pool 112" "pool (of_nat (length Name) + 1)" using assms(1) by simp_all
  ultimately show ?thesis
    using assms(7-9)
    by (simp add: IoCreateDriver_def FatDriverEntry_def volumes_loop_turn [OF assms(1,2,5)] volumes_loop_turn [OF assms(1,2,6)] al
        del: volumes_loop.simps(2))
qed

text \<open>A drive with two partitions: the first starts with a boot sector, the second is empty.\<close>

definition boot_medium :: "nat \<Rightarrow> BYTE" where
  "boot_medium i = (if 1024 \<le> i \<and> i < 1536 then value_or 0
     (map_of [(12, 2), (13, 1), (14, 1), (16, 1), (34, 2), (37, 2), (44, 2), (510, 0x55), (511, 0xAA)] (i - 1024)) else 0)"

definition boot_drive :: "(nat \<Rightarrow> BYTE) ATA_DEVICE" where
  "boot_drive = \<lparr>Initialized = True, TotalSectors = 0x100000, TransferFree = True, Hardware = boot_medium\<rparr>"

definition boot_partition :: "QWORD \<Rightarrow> PARTITION_INFORMATION" where
  "boot_partition first = \<lparr>OffsetInDisk = first, PartitionSize = 0x20000, PartitionType = 0xC, Bootable = False\<rparr>"

definition boot_volume :: FAT_DATA where
  "boot_volume = \<lparr>CountOfClusters = 0x1FDFF, RootDirectoryStartSector = 0x201, ReservedSectors = 1, FirstDataSector = 0x201,
     SectorsPerCluster = 1, BytesPerSector = 512, EntriesPerSector = 16, AllocationSize = 512\<rparr>"

lemma disk_fields:
  "j + 1 \<le> n \<Longrightarrow> byte_at (disk_bytes D a n) j = Some (of_nat (le_value (disk_bytes D (a + j) 1)))"
  "j + 2 \<le> n \<Longrightarrow> word_at (disk_bytes D a n) j = Some (of_nat (le_value (disk_bytes D (a + j) 2)))"
  by (simp_all add: byte_at_def word_at_def read_le_at_def drop_disk_bytes take_disk_bytes)

lemma boot_fields:
  "le_value (disk_bytes boot_medium 1534 2) = 0xAA55" "le_value (disk_bytes boot_medium 1035 2) = 512"
  "le_value (disk_bytes boot_medium 1037 (Suc 0)) = 1" "le_value (disk_bytes boot_medium 1038 2) = 1"
  "le_value (disk_bytes boot_medium 1040 (Suc 0)) = 1" "le_value (disk_bytes boot_medium 1043 2) = 0"
  "le_value (disk_bytes boot_medium 1046 2) = 0" "le_value (disk_bytes boot_medium 1056 4) = 0x20000"
  "le_value (disk_bytes boot_medium 1060 4) = 0x200" "le_value (disk_bytes boot_medium 1068 4) = 2"
  "le_value (disk_bytes boot_medium 67110398 2) = 0"
  by (simp_all add: disk_bytes_def upt_rec) (simp_all add: boot_medium_def value_or_def)

lemma boot_read:
  assumes "unat first + 0x20000 \<le> 0x100000"
  shows "volume_reader (\<lambda>n. True) (volume_device (disk_device (ata_device ram_transfer) None) (boot_partition first) i) boot_drive 512 0 False =
     (STATUS_SUCCESS, disk_bytes boot_medium (unat first * 512) 512)"
proof -
  have ready: "drive_ready (boot_partition first) boot_drive"
    using assms by (simp add: drive_ready_def boot_partition_def boot_drive_def)
  have "0 < unat (PartitionSize (boot_partition first))" "0 + 1 \<le> unat (PartitionSize (boot_partition first))" "1 \<le> (0xFFFF :: nat)"
    "1 * 512 \<le> length (replicate 512 (0 :: BYTE))"
    by (simp_all add: boot_partition_def)
  from volume_read [OF _ ram_disk ready this, of "\<lambda>n. True" None i False] show ?thesis
    by (simp add: volume_reader_def stack_device_def boot_drive_def boot_partition_def)
qed

definition boot_time :: "DATE \<times> TIME" where
  "boot_time = (\<lparr>Day = 1, Month = 1, Year = 2020\<rparr>, \<lparr>Second = 0, Minute = 0, Hour = 0\<rparr>)"

lemma FatDriverEntry_unloads_mounted_witness:
  "\<exists>iomu'. IoCreateDriver (\<lambda>n. True) [] (FatDriverEntry (\<lambda>n. True) 0 boot_time)
      (IOMU_INIT\<lparr>DriverList := [[volume_device (disk_device (ata_device ram_transfer) None) (boot_partition 2) 0,
           volume_device (disk_device (ata_device ram_transfer) None) (boot_partition 0x20002) 1]],
         VpbList := replicate 2 \<lparr>FilesystemDevice = None, Mounted = False, VolumeLetter = 0x43\<rparr>\<rparr>) boot_drive = Some (False, iomu', boot_drive) \<and>
     Mounted (VpbList iomu' ! 0) \<and> FilesystemDevice (VpbList iomu' ! 0) =
       Some (fat_device (\<lambda>n. True) 0 boot_time (volume_device (disk_device (ata_device ram_transfer) None) (boot_partition 2) 0) boot_volume)"
proof -
  let ?disk = "disk_device (ata_device ram_transfer) None"
  have first: "FatInitVolume (volume_reader (\<lambda>n. True) (volume_device ?disk (boot_partition 2) 0) boot_drive) 512 FAT_DATA_ZERO =
      Some (STATUS_SUCCESS, boot_volume)"
    by (simp add: FatInitVolume_def boot_read disk_fields dword_at_disk boot_fields fault_div_def FirstSectorOfCluster_def
        FAT_DATA_ZERO_def boot_volume_def Let_def)
  have second: "FatInitVolume (volume_reader (\<lambda>n. True) (volume_device ?disk (boot_partition 0x20002) 1) boot_drive) 512 FAT_DATA_ZERO =
      Some (STATUS_DISK_MBR_NOT_PRESENT, FAT_DATA_ZERO)"
    by (simp add: FatInitVolume_def boot_read disk_fields boot_fields)
  have al: "DeviceAlignment ?disk = 512" by (simp add: disk_device_simps)
  let ?iomu = "IOMU_INIT\<lparr>DriverList := [[volume_device ?disk (boot_partition 2) 0, volume_device ?disk (boot_partition 0x20002) 1]],
         VpbList := replicate 2 \<lparr>FilesystemDevice = None, Mounted = False, VolumeLetter = 0x43\<rparr>\<rparr>"
  have "\<exists>iomu'. IoCreateDriver (\<lambda>n. True) [] (FatDriverEntry (\<lambda>n. True) 0 boot_time) ?iomu boot_drive = Some (False, iomu', boot_drive) \<and>
     DriverList iomu' = DriverList ?iomu \<and> Mounted (VpbList iomu' ! 0) \<and>
     FilesystemDevice (VpbList iomu' ! 0) = Some (fat_device (\<lambda>n. True) 0 boot_time (volume_device ?disk (boot_partition 2) 0) boot_volume)"
    by (rule FatDriverEntry_unloads_mounted [OF _ _ _ _ _ _ first [folded al] second [folded al]])
       (simp_all add: disk_device_simps volume_device_def device_over_def boot_partition_def STATUS_DISK_MBR_NOT_PRESENT_def SUCCEEDED_def FAIL_MASK_def)
  then show ?thesis by blast
qed

end
