(* ===== verification/Spec2Isabelle.thy ===== *)
theory Spec2Isabelle
  imports Prelude Lists Bitmap Pmm VmReservation Spinlocks RwLocks Memory StrUtils CString HeapSpec
    RefCnt Event Timer SchedSpec Translation VmmSpec UserBuffers Mmu FileSpec
begin

text \<open>
  A verification library for the HAL9000 kernel (\<^verbatim>\<open>src/HAL9000\<close>) and its common library
  (\<^verbatim>\<open>src/CommonLib\<close>).

  \<^bold>\<open>The program.\<close> HAL9000 is a 64-bit kernel for teaching. \<^verbatim>\<open>CommonLib\<close> has no state of its own:
  intrusive lists, bitmaps, locks, reference counts, spinning events, memory and string functions.
  The kernel keeps its state in one static structure per component: the physical memory manager
  (frames in a bitmap), the reservations of virtual memory (an array of reservations, each with a
  bitmap of committed pages), the page tables of the kernel and of each process, the heap (a list of
  blocks inside one region), the thread system
  (lists of threads, and per CPU the current thread), and the I/O manager (drivers with their devices,
  one parameter block per volume). The components call each other downwards:
  threads and the heap use the lists, the memory managers use the bitmaps, everything uses the
  locks and the assertion macro; a request for a file goes through request packets from the FAT32 driver
  to the volume, the disk and the ATA controller.

  \<^bold>\<open>Conventions.\<close> A definition has the name of the function it models and the same order of
  guards and assignments. C integers are words of their width, addresses are 64-bit words, memory
  is a function on addresses, and a structure is a record; structures that are linked or found by
  address are functions from addresses to records, with all list links in one \<open>list_store\<close>. The
  build is the debug build: a failed assertion halts the machine, which is the result \<open>None\<close>, as is
  a loop that does not end. So \<open>f x = Some y\<close> says that the call returns, and the properties say
  it where it is proved. A status code is a word, and its success is \<open>SUCCEEDED\<close>. Loops are
  structural recursion where a bound is known and \<open>partial_function\<close> otherwise; no fuel is used.
  What a component calls outside the modelled code (the transfer of sectors by the hardware, the clock,
  memory handed out by an allocator) is a parameter of the definition or is listed in the state as a
  record of the calls made. A region guarded by a lock is one atomic step; the locks
  themselves are verified down to single memory accesses.

  \<^bold>\<open>Theories.\<close>
  \<^item> \<open>Prelude\<close>: \<^verbatim>\<open>CommonLib/inc/base.h\<close>, \<^verbatim>\<open>status.h\<close>, \<^verbatim>\<open>assert.h\<close>: flags, alignment, status codes, the
    assertion; shared lemmas on words and lists.
  \<^item> \<open>Lists\<close>: \<^verbatim>\<open>CommonLib/src/list.c\<close>, every operation. \<open>dll st h xs\<close> says that the list with the head
    \<open>h\<close> holds \<open>xs\<close>. Each operation is refined to an operation on \<open>xs\<close> and leaves other lists alone. The locale of queues is interpreted here; \<open>Queues\<close> extends it to families of
    lists in one store.
  \<^item> \<open>Bitmap\<close>: \<^verbatim>\<open>CommonLib/src/bitmap.c\<close>: bit arrays stored in bytes; reads after writes and
    first-fit search.
  \<^item> \<open>Pmm\<close>: \<^verbatim>\<open>HAL9000/src/pmm.c\<close>: frames are bits; allocation, release, start-up from the memory
    map.
  \<^item> \<open>VmReservation\<close>: \<^verbatim>\<open>HAL9000/src/vm_reservation_space.c\<close>: the reservation array, commit bitmaps and
    access checks.
  \<^item> \<open>Spinlocks\<close>, \<open>RwLocks\<close>: \<^verbatim>\<open>spinlock.c\<close>, \<^verbatim>\<open>monlock.c\<close>, \<^verbatim>\<open>lock_common.c\<close>, \<^verbatim>\<open>rw_spinlock.c\<close>,
    \<^verbatim>\<open>rec_rw_spinlock.c\<close>: sequential behaviour, and a step relation of interleaved memory accesses whose
    reachable states satisfy mutual exclusion.
  \<^item> \<open>Memory\<close>, \<open>StrUtils\<close>, \<open>CString\<close>: \<^verbatim>\<open>memory.c\<close>, \<^verbatim>\<open>strutils.c\<close>, \<^verbatim>\<open>string.c\<close>: block operations, number
    conversion and strings over byte memory.
  \<^item> \<open>Heap\<close>, \<open>HeapSpec\<close>: \<^verbatim>\<open>HAL9000/src/heap.c\<close>: the search for a gap, the headers of blocks, allocation
    and freeing. The invariant \<open>heap_ok\<close> says that the blocks of the list lie in the region one behind
    the other without overlap. Heaps are below 4 GB and end 8 GB below the top of
    the address space, so that sizes kept in 32-bit variables do not wrap.
  \<^item> \<open>RefCnt\<close>, \<open>Event\<close>, \<open>Timer\<close>: \<^verbatim>\<open>ref_cnt.c\<close>, \<^verbatim>\<open>event.c\<close>, \<^verbatim>\<open>ex_timer.c\<close>; references, and the signals, waits
    and polls of spinning events, in any order and interleaving.
  \<^item> \<open>Threads\<close>, \<open>Mutexes\<close>: \<^verbatim>\<open>HAL9000/src/thread.c\<close>, \<^verbatim>\<open>ex_event.c\<close>, \<^verbatim>\<open>mutex.c\<close> and the thread lists of
    \<^verbatim>\<open>process.c\<close>. A call that switches threads ends in the thread it switched to; what is left to
    do in the old one is its \<open>continuation\<close>, and \<open>ThreadResume\<close> runs it.
  \<^item> \<open>Scheduling\<close>, \<open>SchedSpec\<close>: the invariant \<open>sched_inv\<close> of the whole system (CPUs, threads, lists,
    mutexes), its preservation by yields, timer ticks, taking and releasing mutexes, the continuation
    after a switch and the idle threads, and what follows for all runs of these calls: nothing halts, no
    thread is lost, round robin, hand-over of mutexes in the order of arrival. Executive events, thread
    creation and thread exit are modelled in \<open>Threads\<close> but are not steps of these runs: signalling an
    executive event breaks the invariant, which is shown as its lost wake-up. Runs have no termination
    requests: the flag that asks a thread to exit is clear.

  \<^item> \<open>PageTables\<close>, \<open>PageTablesSpec\<close>, \<open>Translation\<close>: \<^verbatim>\<open>HAL/src/pte.c\<close> and the walks of \<^verbatim>\<open>vmm.c\<close> over a
    memory of table entries. \<open>tables_ok\<close> says that the tables are a tree of frames; \<open>leaf_entry\<close> is the
    translation they mean. Mapping and unmapping refine updates of that function.
  \<^item> \<open>Vmm\<close>, \<open>VmRegions\<close>, \<open>VmmSpec\<close>, \<open>UserBuffers\<close>: \<^verbatim>\<open>vmm.c\<close>, \<^verbatim>\<open>mmu.c\<close>, \<^verbatim>\<open>mdl.c\<close> on one record \<open>vm_system\<close> of
    frames, tables, reservations and processes: page faults (by a reservation, or without one in the
    metadata of the reservations), regions, stacks, user buffers, memory descriptor lists. The effects
    that the reservations ask for are run here.
  \<^item> \<open>PeParser\<close>, \<open>Mmu\<close>: \<^verbatim>\<open>pe_parser.c\<close> on a partial image, so that a read outside of it is \<open>None\<close>, which
    happens when the header states a size larger than the buffer;
    the address spaces of processes, the mapping of an image and the start of the memory manager.
  \<^item> \<open>Fat\<close>, \<open>FatSpec\<close>, \<open>FatDir\<close>, \<open>FatSearch\<close>: \<^verbatim>\<open>FAT32/src/fat_operations.c\<close> and \<^verbatim>\<open>fat_utils.c\<close> over a
    volume that is a reader and a writer of bytes. \<open>chain\<close> is a cluster chain of the allocation table;
    a file is the contents of its clusters, a directory the list of the entries in its clusters. The
    search of a directory agrees with a walk along that list up to its end mark, on two conditions that the
    loop of the code does not test.
  \<^item> \<open>IoStack\<close>, \<open>Drivers\<close>, \<open>FatFile\<close>: \<^verbatim>\<open>HAL9000/src/io_devices.c\<close>, \<^verbatim>\<open>io_files.c\<close>, the volume parameter blocks
    and driver list of \<^verbatim>\<open>iomu.c\<close>, \<^verbatim>\<open>Volume\<close>, \<^verbatim>\<open>Disk\<close>, the dispatch functions of \<^verbatim>\<open>Ata\<close> and \<^verbatim>\<open>FAT32/src/fat32.c\<close>.
    A device is its record with its dispatch functions applied to it, and a request packet carries what it points to.
    The pool answers by the size of a request, in the recursion over partition tables also by the number of
    buffers that the recursion holds; the depth of the stack is not modelled.
  \<^item> \<open>IoStackSpec\<close>, \<open>FileSpec\<close>: what a request does on its way down the stack, the meaning of the partition
    tables, the volumes and mounts after the start, and the reading of a file down to the medium.

  \<^bold>\<open>Not modelled.\<close> The sector transfer of the ATA driver, the network drivers, the HAL and platform
  start-up access ports, memory-mapped registers and processor state whose behaviour is in hardware
  manuals. Of \<^verbatim>\<open>iomu.c\<close> the interrupts, the PCI devices and the clock are left out for the same reason.
  The file system is given a state of the devices below that a read does not change. System calls and
  the loading of programs are modelled only as far as they use memory and threads. ACPICA is vendored code and
  its binding is glue. The command interpreter, the dumps and the logging only print. The in-kernel
  tests are tests. \<^verbatim>\<open>hash_table.c\<close>, \<^verbatim>\<open>stack_dynamic.c\<close> and the \<^verbatim>\<open>cl_\<close> variants are in no project file.
  The TLB is the list of invalidated addresses; the accessed and dirty bits the processor sets are
  not kept.
\<close>

end
